(* ===== verification/Prelude.thy ===== *)
theory Prelude
  imports Main "HOL-Library.Word"
begin

text \<open>
  Shared vocabulary of the development: the Go types that every component uses, the run of a
  component over a sequence of calls, the interfaces (locales) that several components
  implement, and the lemmas on lists, maps and machine words that the component proofs share.

  A Go \<^verbatim>\<open>[]byte\<close> is a list of 8-bit words and a Go \<^verbatim>\<open>string\<close> is a HOL string (a list of
  8-bit characters, so \<open>length\<close> counts bytes as Go's \<^verbatim>\<open>len\<close> does). A Go \<^verbatim>\<open>uint64\<close> or
  \<^verbatim>\<open>uint32\<close> is a word of that width. A \<^verbatim>\<open>time.Time\<close> is an integer number of nanoseconds and
  a \<^verbatim>\<open>time.Duration\<close> a difference of two of them. Mutexes are not modelled: every method of
  the modelled types holds its lock from the first read to the last write of its state, so a
  call is one atomic step, and an interleaving of goroutines is a sequence of calls.
\<close>

section \<open>Types\<close>

type_synonym byte = "8 word"
type_synonym bytes = "8 word list"
type_synonym u32 = "32 word"
type_synonym u64 = "64 word"
type_synonym time = int
type_synonym duration = int

abbreviation second :: duration where
  "second \<equiv> 1000000000"

abbreviation minute :: duration where
  "minute \<equiv> 60000000000"

text \<open>The zero \<^verbatim>\<open>time.Time\<close>, 1 January of year 1, in nanoseconds of the Unix epoch.\<close>

definition zero_time :: time where
  "zero_time = - 62135596800 * second"

definition string_bytes :: "string \<Rightarrow> bytes" where
  "string_bytes s = map of_char s"

named_theorems model_defs \<open>definitions a component's proofs unfold\<close>

section \<open>Runs\<close>

text \<open>A component is driven by calls, each returning the next state and a result.\<close>

fun run :: "('s \<Rightarrow> 'c \<Rightarrow> 's \<times> 'r) \<Rightarrow> 's \<Rightarrow> 'c list \<Rightarrow> 's \<times> 'r list" where
  "run f s [] = (s, [])"
| "run f s (c # cs) =
     (let (s1, r) = f s c; (s2, rs) = run f s1 cs in (s2, r # rs))"

lemma fst_run_Cons [simp]: "fst (run f s (c # cs)) = fst (run f (fst (f s c)) cs)"
  by (simp add: split_beta)

lemma snd_run_Cons [simp]:
  "snd (run f s (c # cs)) = snd (f s c) # snd (run f (fst (f s c)) cs)"
  by (simp add: split_beta)

lemma length_run [simp]: "length (snd (run f s cs)) = length cs"
  by (induction cs arbitrary: s) (simp_all add: split_beta)

lemma fst_run_append: "fst (run f s (cs @ ds)) = fst (run f (fst (run f s cs)) ds)"
  by (induction cs arbitrary: s) (simp_all add: split_beta)

declare run.simps(2) [simp del]

section \<open>Interfaces shared by several components\<close>

text \<open>
  A component whose every admissible call keeps an invariant. \<open>ok\<close> is what the callers
  guarantee about the arguments.
\<close>

locale step_machine =
  fixes step :: "'s \<Rightarrow> 'c \<Rightarrow> 's \<times> 'r"
    and inv :: "'s \<Rightarrow> bool"
    and ok :: "'c \<Rightarrow> bool"
  assumes step_inv: "inv s \<Longrightarrow> ok c \<Longrightarrow> inv (fst (step s c))"
begin

lemma run_inv: "inv s \<Longrightarrow> list_all ok cs \<Longrightarrow> inv (fst (run step s cs))"
  by (induction cs arbitrary: s) (auto intro: step_inv)

end

text \<open>
  A component that guards an effect which may happen once per key: the call whose result
  \<open>fires\<close> for a key spends it, a spent key stays spent, and no call fires for a spent key.
\<close>

locale one_shot = step_machine step inv ok
  for step :: "'s \<Rightarrow> 'c \<Rightarrow> 's \<times> 'r" and inv :: "'s \<Rightarrow> bool" and ok :: "'c \<Rightarrow> bool" +
  fixes fires :: "'c \<Rightarrow> 'r \<Rightarrow> 'k \<Rightarrow> bool"
    and spent :: "'s \<Rightarrow> 'k \<Rightarrow> bool"
  assumes fires_spends: "inv s \<Longrightarrow> ok c \<Longrightarrow> fires c (snd (step s c)) k \<Longrightarrow> spent (fst (step s c)) k"
    and spent_stays: "inv s \<Longrightarrow> ok c \<Longrightarrow> spent s k \<Longrightarrow> spent (fst (step s c)) k"
    and spent_blocks: "inv s \<Longrightarrow> ok c \<Longrightarrow> spent s k \<Longrightarrow> \<not> fires c (snd (step s c)) k"
begin

definition fired :: "'k \<Rightarrow> 'c list \<Rightarrow> 'r list \<Rightarrow> nat" where
  "fired k cs rs = length (filter (\<lambda>(c, r). fires c r k) (zip cs rs))"

lemma fired_Nil [simp]: "fired k [] [] = 0"
  by (simp add: fired_def)

lemma fired_Cons [simp]:
  "fired k (c # cs) (r # rs) = (if fires c r k then Suc (fired k cs rs) else fired k cs rs)"
  by (simp add: fired_def)

lemma spent_never_fires:
  "inv s \<Longrightarrow> list_all ok cs \<Longrightarrow> spent s k \<Longrightarrow> fired k cs (snd (run step s cs)) = 0"
  by (induction cs arbitrary: s) (auto simp: spent_blocks intro: spent_stays step_inv)

lemma fires_at_most_once:
  "inv s \<Longrightarrow> list_all ok cs \<Longrightarrow> fired k cs (snd (run step s cs)) \<le> 1"
proof (induction cs arbitrary: s)
  case Nil
  then show ?case by simp
next
  case (Cons c cs)
  then have c: "ok c" and cs: "list_all ok cs" and i: "inv (fst (step s c))"
    by (auto intro: step_inv)
  show ?case
  proof (cases "fires c (snd (step s c)) k")
    case True
    then have "spent (fst (step s c)) k"
      using Cons.prems(1) c by (blast intro: fires_spends)
    then show ?thesis
      using spent_never_fires [OF i cs] True by simp
  next
    case False
    then show ?thesis
      using Cons.IH [OF i cs] by simp
  qed
qed

end

text \<open>The result of the \<open>i\<close>-th call is that of a step from the state before it.\<close>

lemma snd_run_nth:
  "i < length cs \<Longrightarrow> snd (run f s cs) ! i = snd (f (fst (run f s (take i cs))) (cs ! i))"
proof (induction cs arbitrary: s i)
  case (Cons c cs)
  then show ?case by (cases i) simp_all
qed simp

lemma fst_run_take_Suc:
  "i < length cs \<Longrightarrow> fst (run f s (take (Suc i) cs)) = fst (f (fst (run f s (take i cs))) (cs ! i))"
  by (simp add: take_Suc_conv_app_nth fst_run_append)

text \<open>
  A component with a counter that goes up by one on the calls of a certain kind and stays on the
  others: after any run it has counted those calls. The counter may be a machine word, which
  then wraps.
\<close>

definition tally :: "('c \<Rightarrow> 'r \<Rightarrow> bool) \<Rightarrow> 'c list \<Rightarrow> 'r list \<Rightarrow> nat" where
  "tally P cs rs = length (filter (\<lambda>(c, r). P c r) (zip cs rs))"

lemma tally_Nil [simp]: "tally P [] rs = 0" "tally P cs [] = 0"
  by (simp_all add: tally_def)

lemma tally_Cons [simp]:
  "tally P (c # cs) (r # rs) = (if P c r then Suc (tally P cs rs) else tally P cs rs)"
  by (simp add: tally_def)

lemma snd_run_take: "snd (run f s (take i cs)) = take i (snd (run f s cs))"
proof (induction cs arbitrary: s i)
  case (Cons c cs)
  then show ?case by (cases i) simp_all
qed simp

locale counter =
  fixes step :: "'s \<Rightarrow> 'c \<Rightarrow> 's \<times> 'r"
    and reading :: "'s \<Rightarrow> 'n::semiring_1"
    and counts :: "'c \<Rightarrow> 'r \<Rightarrow> bool"
  assumes step_reading:
    "reading (fst (step s c)) = (if counts c (snd (step s c)) then reading s + 1 else reading s)"
begin

lemma run_reading: "reading (fst (run step s cs)) = reading s + of_nat (tally counts cs (snd (run step s cs)))"
  by (induction cs arbitrary: s) (simp_all add: step_reading add_ac)

lemma run_reading_take:
  "reading (fst (run step s (take i cs))) =
     reading s + of_nat (tally counts (take i cs) (take i (snd (run step s cs))))"
  using run_reading [of s "take i cs"] by (simp only: snd_run_take)

end

text \<open>
  A component in which a call may say something about a key (an identifier says which content
  it stands for): once said, the component never says anything else about that key. \<open>binds\<close>
  is what the state remembers of what was said.
\<close>

locale agreement = step_machine step inv ok
  for step :: "'s \<Rightarrow> 'c \<Rightarrow> 's \<times> 'r" and inv :: "'s \<Rightarrow> bool" and ok :: "'c \<Rightarrow> bool" +
  fixes says :: "'s \<Rightarrow> 'c \<Rightarrow> 'k \<Rightarrow> 'd \<Rightarrow> bool"
    and binds :: "'s \<Rightarrow> 'k \<Rightarrow> 'd \<Rightarrow> bool"
  assumes says_binds: "inv s \<Longrightarrow> ok c \<Longrightarrow> says s c k d \<Longrightarrow> binds (fst (step s c)) k d"
    and binds_stays: "inv s \<Longrightarrow> ok c \<Longrightarrow> binds s k d \<Longrightarrow> binds (fst (step s c)) k d"
    and binds_says: "inv s \<Longrightarrow> ok c \<Longrightarrow> binds s k d \<Longrightarrow> says s c k e \<Longrightarrow> e = d"
begin

lemma run_binds:
  "inv s \<Longrightarrow> list_all ok cs \<Longrightarrow> binds s k d \<Longrightarrow> binds (fst (run step s cs)) k d"
  by (induction cs arbitrary: s) (auto intro: binds_stays step_inv)

lemma agree_before:
  assumes "inv s" "list_all ok cs" "i < j" "j < length cs"
    and "says (fst (run step s (take i cs))) (cs ! i) k d"
    and "says (fst (run step s (take j cs))) (cs ! j) k e"
  shows "e = d"
proof -
  have ok: "ok (cs ! i)" "ok (cs ! j)" "list_all ok (take i cs)" "list_all ok (take j cs)"
    "list_all ok (drop (Suc i) (take j cs))"
    using assms(2-4) by (auto simp: list_all_iff dest: in_set_takeD in_set_dropD)
  have "binds (fst (run step s (take (Suc i) cs))) k d"
    using says_binds [OF run_inv [OF assms(1) ok(3)] ok(1) assms(5)] assms(3,4)
    by (simp add: fst_run_take_Suc)
  moreover have "take j cs = take (Suc i) cs @ drop (Suc i) (take j cs)"
    using assms(3) by (metis Suc_leI append_take_drop_id min.absorb1 take_take)
  moreover have "inv (fst (run step s (take (Suc i) cs)))"
    using assms(1,2) by (intro run_inv) (auto simp: list_all_iff dest: in_set_takeD)
  ultimately have "binds (fst (run step s (take j cs))) k d"
    using ok(5) by (metis fst_run_append run_binds)
  then show ?thesis
    using binds_says [OF run_inv [OF assms(1) ok(4)] ok(2) _ assms(6)] by simp
qed

lemma agree:
  assumes "inv s" "list_all ok cs" "i < length cs" "j < length cs" "i \<noteq> j"
    and "says (fst (run step s (take i cs))) (cs ! i) k d"
    and "says (fst (run step s (take j cs))) (cs ! j) k e"
  shows "e = d"
  using agree_before [OF assms(1,2), of i j k d e] agree_before [OF assms(1,2), of j i k e d] assms(3-7)
  by (cases "i < j") auto

end

text \<open>
  A component whose state holds things that a call brings about and another ends: what it holds
  was brought about by a call of the run that no later call ended.
\<close>

locale since = step_machine step inv ok
  for step :: "'s \<Rightarrow> 'c \<Rightarrow> 's \<times> 'r" and inv :: "'s \<Rightarrow> bool" and ok :: "'c \<Rightarrow> bool" +
  fixes holds :: "'s \<Rightarrow> 'x \<Rightarrow> bool"
    and starts :: "'s \<Rightarrow> 'c \<Rightarrow> 'x \<Rightarrow> bool"
    and ends :: "'s \<Rightarrow> 'c \<Rightarrow> 'x \<Rightarrow> bool"
  assumes arises: "inv s \<Longrightarrow> ok c \<Longrightarrow> holds (fst (step s c)) x \<Longrightarrow> starts s c x \<or> holds s x \<and> \<not> ends s c x"
begin

lemma origin:
  assumes "inv s" "list_all ok cs" "\<not> holds s x" "holds (fst (run step s cs)) x"
  shows "\<exists>l < length cs. starts (fst (run step s (take l cs))) (cs ! l) x \<and>
    (\<forall>k. l < k \<and> k < length cs \<longrightarrow> \<not> ends (fst (run step s (take k cs))) (cs ! k) x)"
  using assms
proof (induction cs rule: rev_induct)
  case (snoc c cs)
  let ?s = "fst (run step s cs)"
  have "inv ?s" using snoc.prems(1,2) by (intro run_inv) simp_all
  then consider "starts ?s c x" | "holds ?s x" "\<not> ends ?s c x"
    using arises [of ?s c x] snoc.prems(2,4) by (auto simp: fst_run_append)
  then show ?case
  proof cases
    case 1
    then show ?thesis by (intro exI [of _ "length cs"]) auto
  next
    case 2
    with snoc.IH snoc.prems(1-3) obtain l where l: "l < length cs" "starts (fst (run step s (take l cs))) (cs ! l) x"
      "\<forall>k. l < k \<and> k < length cs \<longrightarrow> \<not> ends (fst (run step s (take k cs))) (cs ! k) x"
      by auto
    then show ?thesis
      using 2(2) by (intro exI [of _ l]) (auto simp: nth_append less_Suc_eq)
  qed
qed simp

lemma origin_at:
  assumes "inv s" "list_all ok cs" "\<not> holds s x" "i \<le> length cs" "holds (fst (run step s (take i cs))) x"
  shows "\<exists>l < i. starts (fst (run step s (take l cs))) (cs ! l) x \<and>
    (\<forall>k. l < k \<and> k < i \<longrightarrow> \<not> ends (fst (run step s (take k cs))) (cs ! k) x)"
proof -
  have "list_all ok (take i cs)" using assms(2) by (auto simp: list_all_iff dest: in_set_takeD)
  from origin [OF assms(1) this assms(3,5)] assms(4) obtain l where "l < i"
    "starts (fst (run step s (take l cs))) (cs ! l) x"
    and rest: "\<forall>k. l < k \<and> k < i \<longrightarrow> \<not> ends (fst (run step s (take (min k i) cs))) (take i cs ! k) x"
    by (auto simp: min_absorb1 min_absorb2)
  moreover have "\<forall>k. l < k \<and> k < i \<longrightarrow> \<not> ends (fst (run step s (take k cs))) (cs ! k) x"
    using rest by (metis less_imp_le min_absorb1 nth_take)
  ultimately show ?thesis by blast
qed

end

section \<open>Lists\<close>

lemma sum_list_map_nonneg: "(\<And>x. x \<in> set xs \<Longrightarrow> (0::int) \<le> f x) \<Longrightarrow> 0 \<le> sum_list (map f xs)"
  by (induction xs) auto

text \<open>The last \<open>n\<close> elements of a list, what a byte-bounded buffer keeps.\<close>

definition lastn :: "nat \<Rightarrow> 'a list \<Rightarrow> 'a list" where
  "lastn n xs = drop (length xs - n) xs"

lemma length_lastn [simp]: "length (lastn n xs) = min n (length xs)"
  by (simp add: lastn_def)

lemma lastn_all [simp]: "length xs \<le> n \<Longrightarrow> lastn n xs = xs"
  by (simp add: lastn_def)

lemma lastn_append_right: "n \<le> length ys \<Longrightarrow> lastn n (xs @ ys) = lastn n ys"
  by (simp add: lastn_def)

lemma lastn_append_left:
  "length ys \<le> n \<Longrightarrow> lastn n (xs @ ys) = lastn (n - length ys) xs @ ys"
  by (simp add: lastn_def)

lemma lastn_is_suffix: "\<exists>ys. xs = ys @ lastn n xs"
  by (metis append_take_drop_id lastn_def)

lemma map_lastn: "map f (lastn n xs) = lastn n (map f xs)"
  by (simp add: lastn_def drop_map)

lemma lastn_lastn [simp]: "lastn n (lastn m xs) = lastn (min n m) xs"
proof -
  have "length xs - m + (length (drop (length xs - m) xs) - n) = length xs - min n m"
    by (simp add: min_def) arith
  then show ?thesis by (simp add: lastn_def add.commute)
qed

lemma sorted_map_lastn: "sorted (map f xs) \<Longrightarrow> sorted (map f (lastn n xs))"
  by (simp add: map_lastn) (simp add: lastn_def sorted_wrt_drop)

lemma lastn_append_lastn: "lastn n (lastn n xs @ ys) = lastn n (xs @ ys)"
  by (cases "length ys \<le> n") (simp_all add: lastn_append_left lastn_append_right)

lemma suffix_lastn: "xs = ys @ zs \<Longrightarrow> zs = lastn (length zs) xs"
  by (simp add: lastn_append_right)

text \<open>On a list sorted by \<open>f\<close>, filtering the elements past a bound is taking a suffix.\<close>

lemma dropWhile_sorted_filter:
  "sorted (map f xs) \<Longrightarrow> dropWhile (\<lambda>e. f e < c) xs = filter (\<lambda>e. c \<le> f e) xs" for c :: int
  by (induction xs) (auto intro!: filter_True [symmetric])

lemma filter_sorted_lastn:
  "sorted (map f xs) \<Longrightarrow> filter (\<lambda>e. c \<le> f e) (lastn n xs) = lastn n (filter (\<lambda>e. c \<le> f e) xs)"
  for c :: int
proof -
  assume s: "sorted (map f xs)"
  let ?d = "dropWhile (\<lambda>e. f e < c) xs" and ?t = "takeWhile (\<lambda>e. f e < c) xs"
  have xs: "xs = ?t @ ?d" by simp
  have t: "filter (\<lambda>e. c \<le> f e) (lastn m ?t) = []" for m
    by (auto simp: filter_empty_conv lastn_def dest!: in_set_dropD set_takeWhileD)
  have d: "filter (\<lambda>e. c \<le> f e) ys = ys" if "set ys \<subseteq> set ?d" for ys
    using that unfolding dropWhile_sorted_filter [OF s] by (intro filter_True) auto
  have f: "filter (\<lambda>e. c \<le> f e) xs = ?d" using s by (simp add: dropWhile_sorted_filter)
  show ?thesis
  proof (cases "n \<le> length ?d")
    case True
    then have "lastn n xs = lastn n ?d" by (metis lastn_append_right xs)
    moreover have "set (lastn n ?d) \<subseteq> set ?d" by (metis lastn_def set_drop_subset)
    ultimately show ?thesis using d f by simp
  next
    case False
    then have "lastn n xs = lastn (n - length ?d) ?t @ ?d" by (metis lastn_append_left nat_le_linear xs)
    then show ?thesis using t d [of ?d] f False by simp
  qed
qed

section \<open>Machine words\<close>

lemma unat_add_noo: "unat (a :: 'a::len word) + unat b < 2 ^ LENGTH('a) \<Longrightarrow> unat (a + b) = unat a + unat b"
  by (rule unat_add_lem [THEN iffD1])

lemma word_less_succ:
  fixes a :: "'a::len word"
  assumes "a \<noteq> - 1"
  shows "a < a + 1"
proof -
  have "unat a \<noteq> unat (- 1 :: 'a word)" using assms by (simp add: word_unat_eq_iff)
  then have "unat a \<noteq> 2 ^ LENGTH('a) - 1" by (simp add: unsigned_minus_1_eq_mask mask_eq_exp_minus_1)
  then have "unat a + unat (1 :: 'a word) < 2 ^ LENGTH('a)"
    using unsigned_less [of a, where ?'a = nat] by (simp only: unsigned_1)
  then show ?thesis by (simp add: word_less_nat_alt unat_add_noo)
qed

lemma unat_diff_le: "(b :: 'a::len word) \<le> a \<Longrightarrow> unat (a - b) = unat a - unat b"
  by (rule unat_sub)

text \<open>\<^verbatim>\<open>binary.BigEndian.PutUint64\<close>: eight bytes, most significant first.\<close>

definition PutUint64 :: "u64 \<Rightarrow> bytes" where
  "PutUint64 n = map (\<lambda>i. ucast (drop_bit (8 * (7 - i)) n)) [0..<8]"

lemma length_PutUint64 [simp]: "length (PutUint64 n) = 8"
  by (simp add: PutUint64_def)

lemma PutUint64_inj [simp]: "PutUint64 m = PutUint64 n \<longleftrightarrow> m = n"
proof
  assume eq: "PutUint64 m = PutUint64 n"
  have byte: "(ucast (drop_bit (8 * k) m) :: byte) = ucast (drop_bit (8 * k) n)" if "k < 8" for k
  proof -
    have "PutUint64 m ! (7 - k) = PutUint64 n ! (7 - k)" using eq by simp
    moreover have "[0..<8] ! (7 - k) = 7 - k" using that by (subst nth_upt) auto
    ultimately show ?thesis using that by (simp add: PutUint64_def)
  qed
  show "m = n"
  proof (rule bit_word_eqI)
    fix i assume "i < LENGTH(64)"
    then have k: "i div 8 < 8" by simp
    have "bit (ucast (drop_bit (8 * (i div 8)) m) :: byte) (i mod 8) =
          bit (ucast (drop_bit (8 * (i div 8)) n) :: byte) (i mod 8)"
      by (simp only: byte [OF k])
    then show "bit m i = bit n i"
      by (simp add: bit_simps)
  qed
qed simp

lemma of_nat_u64_inj: "m < 2 ^ 64 \<Longrightarrow> n < 2 ^ 64 \<Longrightarrow> (of_nat m :: u64) = of_nat n \<longleftrightarrow> m = n"
proof
  assume m: "m < 2 ^ 64" and n: "n < 2 ^ 64" and eq: "(of_nat m :: u64) = of_nat n"
  have "unat (of_nat m :: u64) = m" by (rule of_nat_inverse [OF refl]) (use m in simp)
  moreover have "unat (of_nat n :: u64) = n" by (rule of_nat_inverse [OF refl]) (use n in simp)
  ultimately show "m = n" using eq by metis
qed simp

lemma unat_of_char [simp]: "unat (of_char c :: byte) = of_char c"
proof (rule of_nat_inverse)
  show "word_of_nat (of_char c) = (of_char c :: byte)" by (rule of_nat_of_char)
  have "(of_char c :: nat) = of_char c mod 256" by simp
  then have "(of_char c :: nat) < 256" by (metis mod_less_divisor zero_less_numeral)
  then show "of_char c < (2 :: nat) ^ LENGTH(8)" by simp
qed

lemma string_bytes_inj [simp]: "string_bytes s = string_bytes t \<longleftrightarrow> s = t"
proof -
  have "inj (of_char :: char \<Rightarrow> byte)"
  proof (rule injI)
    fix c d :: char
    assume "(of_char c :: byte) = of_char d"
    then have "unat (of_char c :: byte) = unat (of_char d :: byte)" by simp
    then show "c = d" by simp
  qed
  then show ?thesis by (simp add: string_bytes_def inj_map_eq_map)
qed

lemma length_string_bytes [simp]: "length (string_bytes s) = length s"
  by (simp add: string_bytes_def)

lemma append_same_length: "length xs = length xs' \<Longrightarrow> xs @ ys = xs' @ ys' \<longleftrightarrow> xs = xs' \<and> ys = ys'"
  by simp

section \<open>Maps\<close>

text \<open>The sum of a measure over the values of a finite map.\<close>

definition total_of :: "('v \<Rightarrow> nat) \<Rightarrow> ('k \<rightharpoonup> 'v) \<Rightarrow> nat" where
  "total_of f m = (\<Sum>k \<in> dom m. f (the (m k)))"

lemma total_of_empty [simp]: "total_of f Map.empty = 0"
  by (simp add: total_of_def)

lemma total_of_upd:
  assumes "finite (dom m)" "m k = None"
  shows "total_of f (m(k \<mapsto> v)) = total_of f m + f v"
proof -
  have "(\<Sum>x \<in> dom m. f (the ((m(k \<mapsto> v)) x))) = (\<Sum>x \<in> dom m. f (the (m x)))"
    using assms(2) by (intro sum.cong) auto
  then show ?thesis using assms by (simp add: total_of_def domIff)
qed

lemma total_of_del:
  assumes "finite (dom m)" "m k = Some v"
  shows "total_of f m = total_of f (m(k := None)) + f v"
proof -
  have "(m(k := None))(k \<mapsto> v) = m" using assms(2) by auto
  then show ?thesis using total_of_upd [of "m(k := None)" k f v] assms(1) by simp
qed

lemma total_of_replace:
  assumes "finite (dom m)" "m k = Some v" "f v' = f v"
  shows "total_of f (m(k \<mapsto> v')) = total_of f m"
  using total_of_del [OF assms(1,2), of f] total_of_upd [of "m(k := None)" k f v'] assms by simp

lemma ran_upd_subset: "ran (m(k \<mapsto> v)) \<subseteq> insert v (ran m)"
  by (auto simp: ran_def)

lemma ran_del_subset: "ran (m(k := None)) \<subseteq> ran m"
  by (auto simp: ran_def split: if_splits)

end
