(* ===== verification/Utf8_Stream.thy ===== *)
theory Utf8_Stream
  imports Prelude
begin

text \<open>
  The incremental UTF-8 validator that checks text attachments while their chunks arrive
  (\<^verbatim>\<open>utf8StreamValidator\<close> in \<^verbatim>\<open>src/internal/attachment/transfer.go\<close>), over a model of what it
  uses of Go's \<^verbatim>\<open>unicode/utf8\<close>: the first-byte table, \<^verbatim>\<open>FullRune\<close>, \<^verbatim>\<open>DecodeRune\<close> and
  \<^verbatim>\<open>Valid\<close>. A rune is a natural number.
\<close>

section \<open>unicode/utf8\<close>

abbreviation runeError :: nat where
  "runeError \<equiv> 65533"

text \<open>
  The first-byte table: \<open>Ascii\<close> and \<open>Invalid\<close> for a byte that decides alone,
  \<open>Lead lo hi n\<close> for a lead byte of a sequence of \<open>n\<close> bytes whose second
  byte lies between \<open>lo\<close> and \<open>hi\<close>.
\<close>

datatype lead = Ascii | Invalid | Lead byte byte nat

definition first_byte :: "byte \<Rightarrow> lead" where
  "first_byte b =
     (if b < 0x80 then Ascii
      else if b < 0xC2 then Invalid
      else if b < 0xE0 then Lead 0x80 0xBF 2
      else if b = 0xE0 then Lead 0xA0 0xBF 3
      else if b < 0xED then Lead 0x80 0xBF 3
      else if b = 0xED then Lead 0x80 0x9F 3
      else if b < 0xF0 then Lead 0x80 0xBF 3
      else if b = 0xF0 then Lead 0x90 0xBF 4
      else if b < 0xF4 then Lead 0x80 0xBF 4
      else if b = 0xF4 then Lead 0x80 0x8F 4
      else Invalid)"

definition inside :: "byte \<Rightarrow> byte \<Rightarrow> byte \<Rightarrow> bool" where
  "inside lo hi b \<longleftrightarrow> lo \<le> b \<and> b \<le> hi"

abbreviation cont :: "byte \<Rightarrow> bool" where
  "cont \<equiv> inside 0x80 0xBF"

definition FullRune :: "bytes \<Rightarrow> bool" where
  "FullRune p =
     (case p of [] \<Rightarrow> False
      | b0 # _ \<Rightarrow>
          (case first_byte b0 of
             Ascii \<Rightarrow> True
           | Invalid \<Rightarrow> True
           | Lead lo hi sz \<Rightarrow>
               (if sz \<le> length p then True
                else if 1 < length p \<and> \<not> inside lo hi (p ! 1) then True
                else if 2 < length p \<and> \<not> cont (p ! 2) then True
                else False)))"

definition rune2 :: "byte \<Rightarrow> byte \<Rightarrow> nat" where
  "rune2 a b = (unat a mod 32) * 64 + unat b mod 64"

definition rune3 :: "byte \<Rightarrow> byte \<Rightarrow> byte \<Rightarrow> nat" where
  "rune3 a b c = (unat a mod 16) * 4096 + (unat b mod 64) * 64 + unat c mod 64"

definition rune4 :: "byte \<Rightarrow> byte \<Rightarrow> byte \<Rightarrow> byte \<Rightarrow> nat" where
  "rune4 a b c d = (unat a mod 8) * 262144 + (unat b mod 64) * 4096 + (unat c mod 64) * 64 + unat d mod 64"

definition DecodeRune :: "bytes \<Rightarrow> nat \<times> nat" where
  "DecodeRune p =
     (case p of [] \<Rightarrow> (runeError, 0)
      | b0 # _ \<Rightarrow>
          (case first_byte b0 of
             Ascii \<Rightarrow> (unat b0, 1)
           | Invalid \<Rightarrow> (runeError, 1)
           | Lead lo hi sz \<Rightarrow>
               (if length p < sz then (runeError, 1)
                else if \<not> inside lo hi (p ! 1) then (runeError, 1)
                else if sz \<le> 2 then (rune2 b0 (p ! 1), 2)
                else if \<not> cont (p ! 2) then (runeError, 1)
                else if sz \<le> 3 then (rune3 b0 (p ! 1) (p ! 2), 3)
                else if \<not> cont (p ! 3) then (runeError, 1)
                else (rune4 b0 (p ! 1) (p ! 2) (p ! 3), 4))))"

definition bad_rune :: "bytes \<Rightarrow> bool" where
  "bad_rune p \<longleftrightarrow> DecodeRune p = (runeError, 1)"

lemma DecodeRune_size: "p \<noteq> [] \<Longrightarrow> 1 \<le> snd (DecodeRune p) \<and> snd (DecodeRune p) \<le> 4"
  by (auto simp: DecodeRune_def split: list.splits lead.splits)

text \<open>\<^verbatim>\<open>utf8.Valid\<close>, the reference the incremental validator is compared with.\<close>

function utf8_valid :: "bytes \<Rightarrow> bool" where
  "utf8_valid p =
     (if p = [] then True
      else if bad_rune p then False
      else utf8_valid (drop (snd (DecodeRune p)) p))"
  by pat_completeness auto
termination
proof (relation "measure length")
  fix p :: bytes
  assume "p \<noteq> []"
  then show "(drop (snd (DecodeRune p)) p, p) \<in> measure length"
    using DecodeRune_size [of p] by simp
qed simp

declare utf8_valid.simps [simp del]

text \<open>The runes a \<^verbatim>\<open>for range\<close> loop over a string visits.\<close>

function runes :: "bytes \<Rightarrow> nat list" where
  "runes p = (if p = [] then [] else fst (DecodeRune p) # runes (drop (snd (DecodeRune p)) p))"
  by pat_completeness auto
termination
proof (relation "measure length")
  fix p :: bytes
  assume "p \<noteq> []"
  then show "(drop (snd (DecodeRune p)) p, p) \<in> measure length"
    using DecodeRune_size [of p] by simp
qed simp

declare runes.simps [simp del]

section \<open>The validator\<close>

record utf8StreamValidator =
  us_invalid :: bool
  us_tail :: bytes

definition newValidator :: utf8StreamValidator where
  "newValidator = \<lparr>us_invalid = False, us_tail = []\<rparr>"

text \<open>The loop of \<^verbatim>\<open>Write\<close> over the combined bytes: the invalid flag and the new tail.\<close>

function scan :: "bytes \<Rightarrow> bool \<times> bytes" where
  "scan p =
     (if p = [] then (False, [])
      else if p ! 0 = 0 then (True, [])
      else if \<not> FullRune p then (False, p)
      else if bad_rune p then (True, [])
      else scan (drop (snd (DecodeRune p)) p))"
  by pat_completeness auto
termination
proof (relation "measure length")
  fix p :: bytes
  assume "p \<noteq> []"
  then show "(drop (snd (DecodeRune p)) p, p) \<in> measure length"
    using DecodeRune_size [of p] by simp
qed simp

declare scan.simps [simp del]

definition us_Write :: "bytes \<Rightarrow> utf8StreamValidator \<Rightarrow> utf8StreamValidator" where
  "us_Write data v =
     (if us_invalid v then v
      else (let combined = us_tail v @ data; (bad, rest) = scan combined
            in v\<lparr>us_invalid := bad, us_tail := rest\<rparr>))"

definition us_Valid :: "utf8StreamValidator \<Rightarrow> bool" where
  "us_Valid v \<longleftrightarrow> \<not> us_invalid v \<and> us_tail v = []"

section \<open>Chunking does not matter\<close>

lemma first_byte_Lead: "first_byte b = Lead lo hi n \<Longrightarrow> n = 2 \<or> n = 3 \<or> n = 4"
  by (auto simp: first_byte_def split: if_splits)

text \<open>A decision on a prefix is final: more bytes do not change a full rune.\<close>

lemma FullRune_append: "FullRune p \<Longrightarrow> FullRune (p @ q)"
  by (cases p) (auto simp: FullRune_def nth_append split: lead.splits if_splits)

lemma DecodeRune_append: "FullRune p \<Longrightarrow> DecodeRune (p @ q) = DecodeRune p"
proof (cases p)
  case (Cons b0 bs)
  assume full: "FullRune p"
  show ?thesis
  proof (cases "first_byte b0")
    case (Lead lo hi n)
    note n = first_byte_Lead [OF Lead]
    show ?thesis
    proof (cases "n \<le> length p")
      case True
      then have "(p @ q) ! i = p ! i" if "i < n" for i
        using that by (simp add: nth_append)
      then have eq: "(p @ q) ! 1 = p ! 1" "2 < n \<longrightarrow> (p @ q) ! 2 = p ! 2" "3 < n \<longrightarrow> (p @ q) ! 3 = p ! 3"
        using n by auto
      show ?thesis
        using eq True n Lead unfolding Cons by (simp add: DecodeRune_def)
    next
      case False
      then have bad: "1 < length p \<and> \<not> inside lo hi (p ! 1) \<or> 2 < length p \<and> \<not> cont (p ! 2)"
        using full Lead unfolding Cons by (simp add: FullRune_def split: if_splits)
      then have "1 < length p \<and> \<not> inside lo hi ((p @ q) ! 1) \<or> 2 < length p \<and> \<not> cont ((p @ q) ! 2)"
        by (auto simp: nth_append)
      moreover have "2 < length p \<longrightarrow> \<not> n \<le> 2" using False by simp
      ultimately have "DecodeRune (p @ q) = (runeError, 1)"
        using Lead Cons by (auto simp: DecodeRune_def)
      then show ?thesis using False Lead Cons by (simp add: DecodeRune_def)
    qed
  qed (simp_all add: DecodeRune_def Cons)
qed (simp add: FullRune_def)

lemma FullRune_size: "FullRune p \<Longrightarrow> snd (DecodeRune p) \<le> length p"
proof (cases p)
  case (Cons b0 bs)
  assume full: "FullRune p"
  show ?thesis
  proof (cases "first_byte b0")
    case (Lead lo hi n)
    then show ?thesis
      using full Cons first_byte_Lead [OF Lead]
      by (auto simp: FullRune_def DecodeRune_def split: if_splits)
  qed (simp_all add: DecodeRune_def Cons)
qed (simp add: FullRune_def)

text \<open>A sequence that is not full yet is rejected when the input ends there.\<close>

lemma not_FullRune_bad: "p \<noteq> [] \<Longrightarrow> \<not> FullRune p \<Longrightarrow> bad_rune p"
  by (cases p) (auto simp: FullRune_def bad_rune_def DecodeRune_def split: lead.splits if_splits)

lemma not_FullRune_nonzero: "p \<noteq> [] \<Longrightarrow> \<not> FullRune p \<Longrightarrow> p ! 0 \<noteq> 0"
  by (cases p) (auto simp: FullRune_def first_byte_def)

lemma scan_Nil [simp]: "scan [] = (False, [])" and utf8_valid_Nil [simp]: "utf8_valid []"
  by (simp_all add: scan.simps [of "[]"] utf8_valid.simps [of "[]"])

lemma scan_append:
  "scan (p @ q) = (if fst (scan p) then (True, []) else scan (snd (scan p) @ q))"
proof (induction p rule: scan.induct)
  case (1 p)
  show ?case
  proof (cases "p = [] \<or> p ! 0 = 0 \<or> \<not> FullRune p \<or> bad_rune p")
    case True
    then consider "p = []" | "p \<noteq> []" "p ! 0 = 0" | "p \<noteq> []" "p ! 0 \<noteq> 0" "\<not> FullRune p"
      | "p \<noteq> []" "p ! 0 \<noteq> 0" "FullRune p" "bad_rune p" by blast
    then show ?thesis
    proof cases
      case 4
      then have "bad_rune (p @ q)" "FullRune (p @ q)"
        by (simp_all add: bad_rune_def DecodeRune_append FullRune_append)
      then show ?thesis using 4 by (simp add: scan.simps [of p] scan.simps [of "p @ q"] nth_append)
    qed (simp_all add: scan.simps [of p] scan.simps [of "p @ q"] nth_append)
  next
    case False
    then have n: "snd (DecodeRune p) \<le> length p" and full: "FullRune (p @ q)"
      and bad: "\<not> bad_rune (p @ q)" and dr: "DecodeRune (p @ q) = DecodeRune p"
      by (simp_all add: FullRune_size FullRune_append bad_rune_def DecodeRune_append)
    have "scan (p @ q) = scan (drop (snd (DecodeRune p)) p @ q)"
      using False n full bad dr by (simp add: scan.simps [of "p @ q"] nth_append)
    then show ?thesis using "1.IH" False by (simp add: scan.simps [of p])
  qed
qed

lemma scan_bad: "fst (scan p) \<Longrightarrow> snd (scan p) = []"
proof (induction p rule: scan.induct)
  case (1 p)
  show ?case
  proof (cases "p = [] \<or> p ! 0 = 0 \<or> \<not> FullRune p \<or> bad_rune p")
    case True
    then show ?thesis using "1.prems" by (simp add: scan.simps [of p] split: if_splits)
  next
    case False
    then show ?thesis using "1.IH" "1.prems" by (simp add: scan.simps [of p])
  qed
qed

text \<open>Writing chunk by chunk is scanning the concatenation at once.\<close>

lemma fold_us_Write:
  "fold us_Write cs \<lparr>us_invalid = fst (scan p), us_tail = snd (scan p)\<rparr> =
   \<lparr>us_invalid = fst (scan (p @ concat cs)), us_tail = snd (scan (p @ concat cs))\<rparr>"
proof (induction cs arbitrary: p)
  case Nil
  then show ?case by simp
next
  case (Cons c cs)
  have "us_Write c \<lparr>us_invalid = fst (scan p), us_tail = snd (scan p)\<rparr> =
        \<lparr>us_invalid = fst (scan (p @ c)), us_tail = snd (scan (p @ c))\<rparr>"
    using scan_bad [of p] by (simp add: us_Write_def scan_append split_beta Let_def)
  then show ?case using Cons.IH [of "p @ c"] by simp
qed

text \<open>A valid rune is one ASCII byte, or a sequence of bytes that are all above ASCII.\<close>

lemma rune_bytes:
  assumes "p \<noteq> []" "\<not> bad_rune p"
  shows "p ! 0 < 0x80 \<and> DecodeRune p = (unat (p ! 0), 1)
    \<or> (\<forall>b \<in> set (take (snd (DecodeRune p)) p). 0x80 \<le> b)"
proof -
  obtain b0 bs where p: "p = b0 # bs" using assms by (cases p) auto
  show ?thesis
  proof (cases "first_byte b0")
    case Ascii
    then show ?thesis using p by (auto simp: DecodeRune_def first_byte_def split: if_splits)
  next
    case Invalid
    then show ?thesis using p assms by (simp add: bad_rune_def DecodeRune_def)
  next
    case (Lead lo hi n)
    have b0: "0x80 \<le> b0" and lo: "0x80 \<le> lo"
      using Lead by (auto simp: first_byte_def split: if_splits)
    have hi: "inside lo hi b \<longrightarrow> 0x80 \<le> b" for b
      using lo by (auto simp: inside_def)
    have cont: "cont b \<longrightarrow> 0x80 \<le> b" for b by (simp add: inside_def)
    obtain b1 cs where bs: "bs = b1 # cs"
      using assms Lead p first_byte_Lead [OF Lead] by (cases bs) (auto simp: bad_rune_def DecodeRune_def)
    show ?thesis
    proof (cases cs)
      case Nil
      then show ?thesis
        using assms Lead p bs first_byte_Lead [OF Lead] b0 hi
        by (auto simp: bad_rune_def DecodeRune_def split: if_splits)
    next
      case (Cons b2 ds)
      then show ?thesis
        using assms Lead p bs first_byte_Lead [OF Lead] b0 hi cont
        by (cases ds) (auto simp: bad_rune_def DecodeRune_def numeral_3_eq_3 numeral_2_eq_2 split: if_splits)
    qed
  qed
qed

lemma rune_nonzero:
  assumes "p \<noteq> []" "p ! 0 \<noteq> 0" "\<not> bad_rune p"
  shows "0 \<notin> set (take (snd (DecodeRune p)) p)"
  using rune_bytes [OF assms(1,3)] assms(2)
  by (cases p) auto

lemma scan_valid: "scan p = (False, []) \<longleftrightarrow> utf8_valid p \<and> 0 \<notin> set p"
proof (induction p rule: scan.induct)
  case (1 p)
  show ?case
  proof (cases "p = [] \<or> p ! 0 = 0 \<or> \<not> FullRune p \<or> bad_rune p")
    case True
    then consider "p = []" | "p \<noteq> []" "p ! 0 = 0" | "p \<noteq> []" "bad_rune p"
      using not_FullRune_bad by blast
    then show ?thesis
    proof cases
      case 2
      then have "0 \<in> set p" by (metis length_greater_0_conv nth_mem)
      with 2 show ?thesis by (simp add: scan.simps [of p])
    qed (auto simp: scan.simps [of p] utf8_valid.simps [of p])
  next
    case False
    let ?n = "snd (DecodeRune p)"
    have "set p = set (take ?n p) \<union> set (drop ?n p)"
      by (metis append_take_drop_id set_append)
    then have "0 \<notin> set p \<longleftrightarrow> 0 \<notin> set (drop ?n p)"
      using False rune_nonzero [of p] by auto
    then show ?thesis using "1.IH" False
      by (simp add: scan.simps [of p] utf8_valid.simps [of p])
  qed
qed

text \<open>In valid UTF-8 an ASCII byte is a rune of its own.\<close>

lemma ascii_in_runes: "utf8_valid p \<Longrightarrow> b \<in> set p \<Longrightarrow> b < 0x80 \<Longrightarrow> unat b \<in> set (runes p)"
proof (induction p rule: runes.induct)
  case (1 p)
  let ?n = "snd (DecodeRune p)"
  have ne: "p \<noteq> []" and ok: "\<not> bad_rune p" and v: "utf8_valid (drop ?n p)"
    using "1.prems" by (auto simp: utf8_valid.simps [of p] split: if_splits)
  have rs: "set (runes p) = insert (fst (DecodeRune p)) (set (runes (drop ?n p)))"
    using ne by (simp add: runes.simps [of p])
  have "b \<in> set (take ?n p) \<or> b \<in> set (drop ?n p)"
    using "1.prems"(2) by (metis append_take_drop_id Un_iff set_append)
  then show ?case
  proof
    assume b: "b \<in> set (take ?n p)"
    have "\<not> 0x80 \<le> b" using "1.prems"(3) by (simp add: not_le)
    then have "DecodeRune p = (unat (p ! 0), 1)"
      using rune_bytes [OF ne ok] b by blast
    then show ?thesis using b rs ne by (cases p) auto
  next
    assume "b \<in> set (drop ?n p)"
    then show ?thesis using "1.IH" ne v "1.prems"(3) rs by simp
  qed
qed

section \<open>Properties\<close>

text \<open>
  C20. However the bytes of a text attachment are cut into chunks, the incremental validator
  accepts them exactly when \<^verbatim>\<open>utf8.Valid\<close> accepts the whole content and it holds no NUL byte.
\<close>

theorem us_Write_chunks:
  "us_Valid (fold us_Write cs newValidator) \<longleftrightarrow> utf8_valid (concat cs) \<and> 0 \<notin> set (concat cs)"
proof -
  have "fold us_Write cs newValidator =
      \<lparr>us_invalid = fst (scan (concat cs)), us_tail = snd (scan (concat cs))\<rparr>"
    using fold_us_Write [of cs "[]"] by (simp add: newValidator_def)
  then have "us_Valid (fold us_Write cs newValidator) \<longleftrightarrow> scan (concat cs) = (False, [])"
    by (simp add: us_Valid_def prod_eq_iff)
  then show ?thesis by (simp only: scan_valid)
qed

end
