(* ===== verification/Go_Strings.thy ===== *)
theory Go_Strings
  imports Utf8_Stream
begin

text \<open>
  What the components use of Go's \<^verbatim>\<open>strings\<close>, \<^verbatim>\<open>bytes\<close>, \<^verbatim>\<open>unicode\<close> and \<^verbatim>\<open>encoding/hex\<close>
  packages: the character classes, trimming, prefixes, lower case and hexadecimal text.
  Case mapping is written for ASCII; the callers compare the result with ASCII words only.
\<close>

section \<open>Character classes\<close>

definition in_ranges :: "(nat \<times> nat) list \<Rightarrow> nat \<Rightarrow> bool" where
  "in_ranges rs r \<longleftrightarrow> list_ex (\<lambda>(lo, hi). lo \<le> r \<and> r \<le> hi) rs"

definition IsControl :: "nat \<Rightarrow> bool" where
  "IsControl r \<longleftrightarrow> r \<le> 0x1F \<or> 0x7F \<le> r \<and> r \<le> 0x9F"

text \<open>Format characters (category Cf).\<close>

definition Cf :: "nat \<Rightarrow> bool" where
  "Cf = in_ranges
     [(0xAD, 0xAD), (0x600, 0x605), (0x61C, 0x61C), (0x6DD, 0x6DD), (0x70F, 0x70F), (0x890, 0x891),
      (0x8E2, 0x8E2), (0x180E, 0x180E), (0x200B, 0x200F), (0x202A, 0x202E), (0x2060, 0x2064),
      (0x2066, 0x206F), (0xFEFF, 0xFEFF), (0xFFF9, 0xFFFB), (0x110BD, 0x110BD), (0x110CD, 0x110CD),
      (0x13430, 0x1343F), (0x1BCA0, 0x1BCA3), (0x1D173, 0x1D17A), (0xE0001, 0xE0001), (0xE0020, 0xE007F)]"

text \<open>\<^verbatim>\<open>unicode.C\<close>: control, format, surrogate and private-use characters.\<close>

definition category_C :: "nat \<Rightarrow> bool" where
  "category_C r \<longleftrightarrow> IsControl r \<or> Cf r
     \<or> in_ranges [(0xD800, 0xDFFF), (0xE000, 0xF8FF), (0xF0000, 0xFFFFD), (0x100000, 0x10FFFD)] r"

definition IsSpace :: "nat \<Rightarrow> bool" where
  "IsSpace = in_ranges
     [(9, 13), (0x20, 0x20), (0x85, 0x85), (0xA0, 0xA0), (0x1680, 0x1680), (0x2000, 0x200A),
      (0x2028, 0x2029), (0x202F, 0x202F), (0x205F, 0x205F), (0x3000, 0x3000)]"

section \<open>Strings\<close>

definition valid_string :: "string \<Rightarrow> bool" where
  "valid_string s \<longleftrightarrow> utf8_valid (string_bytes s)"

definition has_prefix :: "'a list \<Rightarrow> 'a list \<Rightarrow> bool" where
  "has_prefix s p \<longleftrightarrow> take (length p) s = p"

definition trim_prefix :: "'a list \<Rightarrow> 'a list \<Rightarrow> 'a list" where
  "trim_prefix s p = (if has_prefix s p then drop (length p) s else s)"

text \<open>A string cut into its runes, each with its bytes.\<close>

function rune_segs :: "bytes \<Rightarrow> (nat \<times> bytes) list" where
  "rune_segs p =
     (if p = [] then []
      else (fst (DecodeRune p), take (snd (DecodeRune p)) p) # rune_segs (drop (snd (DecodeRune p)) p))"
  by pat_completeness auto
termination
proof (relation "measure length")
  fix p :: bytes
  assume "p \<noteq> []"
  then show "(drop (snd (DecodeRune p)) p, p) \<in> measure length"
    using DecodeRune_size [of p] by simp
qed simp

declare rune_segs.simps [simp del]

definition TrimSpace_bytes :: "bytes \<Rightarrow> bytes" where
  "TrimSpace_bytes p =
     concat (map snd (rev (dropWhile (IsSpace \<circ> fst) (rev (dropWhile (IsSpace \<circ> fst) (rune_segs p))))))"

definition bytes_string :: "bytes \<Rightarrow> string" where
  "bytes_string p = map (\<lambda>b. char_of (unat b)) p"

definition TrimSpace :: "string \<Rightarrow> string" where
  "TrimSpace s = bytes_string (TrimSpace_bytes (string_bytes s))"

text \<open>\<^verbatim>\<open>strings.Fields\<close>: the maximal runs of runes that are not white space.\<close>

fun field_segs :: "bytes \<Rightarrow> (nat \<times> bytes) list \<Rightarrow> bytes list" where
  "field_segs cur [] = (if cur = [] then [] else [cur])"
| "field_segs cur ((r, b) # segs) =
     (if IsSpace r then (if cur = [] then field_segs [] segs else cur # field_segs [] segs)
      else field_segs (cur @ b) segs)"

definition Fields :: "string \<Rightarrow> string list" where
  "Fields s = map bytes_string (field_segs [] (rune_segs (string_bytes s)))"

definition has_suffix :: "'a list \<Rightarrow> 'a list \<Rightarrow> bool" where
  "has_suffix s p \<longleftrightarrow> has_prefix (rev s) (rev p)"

definition lower_char :: "char \<Rightarrow> char" where
  "lower_char c = (let n = of_char c :: nat in if 65 \<le> n \<and> n \<le> 90 then char_of (n + 32) else c)"

definition ToLower :: "string \<Rightarrow> string" where
  "ToLower = map lower_char"

text \<open>\<^verbatim>\<open>strings.ToUpper\<close> on ASCII strings, which is all the code applies it to.\<close>

definition upper_char :: "char \<Rightarrow> char" where
  "upper_char c = (let n = of_char c :: nat in if 97 \<le> n \<and> n \<le> 122 then char_of (n - 32) else c)"

definition ToUpper :: "string \<Rightarrow> string" where
  "ToUpper = map upper_char"

definition EqualFold :: "string \<Rightarrow> string \<Rightarrow> bool" where
  "EqualFold s t \<longleftrightarrow> ToLower s = ToLower t"

definition ContainsAny :: "string \<Rightarrow> string \<Rightarrow> bool" where
  "ContainsAny s chars \<longleftrightarrow> list_ex (\<lambda>c. c \<in> set chars) s"

section \<open>Hexadecimal text\<close>

definition hex_digit :: "nat \<Rightarrow> char" where
  "hex_digit n = ''0123456789abcdef'' ! n"

definition EncodeToString :: "bytes \<Rightarrow> string" where
  "EncodeToString p = concat (map (\<lambda>b. [hex_digit (unat b div 16), hex_digit (unat b mod 16)]) p)"

text \<open>\<^verbatim>\<open>hex.DecodeString\<close> fails on an odd length and on a character that is not a digit.\<close>

definition hex_decodes :: "string \<Rightarrow> bool" where
  "hex_decodes s \<longleftrightarrow> even (length s) \<and> list_all (\<lambda>c. c \<in> set ''0123456789abcdefABCDEF'') s"

section \<open>Facts\<close>

lemma hex_digit_set: "n < 16 \<Longrightarrow> hex_digit n \<in> set ''0123456789abcdef''"
  unfolding hex_digit_def by (rule nth_mem) simp

lemma length_EncodeToString [simp]: "length (EncodeToString p) = 2 * length p"
  by (induction p) (simp_all add: EncodeToString_def)

lemma EncodeToString_digits: "set (EncodeToString p) \<subseteq> set ''0123456789abcdef''"
proof -
  have "unat b div 16 < 16" for b :: byte
    using unsigned_less [of b, where ?'a = nat] by (simp add: less_mult_imp_div_less)
  then have "hex_digit (unat b div 16) \<in> set ''0123456789abcdef''"
    "hex_digit (unat b mod 16) \<in> set ''0123456789abcdef''" for b :: byte
    by (simp_all only: hex_digit_set mod_less_divisor zero_less_numeral)
  then show ?thesis
    by (induction p) (simp_all only: EncodeToString_def list.map concat.simps set_append
        list.set Un_subset_iff insert_subset empty_subsetI simp_thms)
qed

lemma string_bytes_simps [simp]:
  "string_bytes [] = []" "string_bytes (c # cs) = of_char c # string_bytes cs"
  "string_bytes (s @ t) = string_bytes s @ string_bytes t"
  by (simp_all add: string_bytes_def)

lemma bytes_string_bytes [simp]: "bytes_string (string_bytes s) = s"
  by (induction s) (simp_all add: bytes_string_def)

text \<open>Graphic ASCII text is valid, is its own runes, and has nothing to trim.\<close>

lemma DecodeRune_ascii: "b < 0x80 \<Longrightarrow> DecodeRune (b # p) = (unat b, 1)"
  by (simp add: DecodeRune_def first_byte_def)

lemma ascii_facts:
  assumes "\<forall>b \<in> set p. b < 0x80"
  shows "rune_segs p = map (\<lambda>b. (unat b, [b])) p" "runes p = map unat p"
  using assms by (induction p) (simp_all add: rune_segs.simps [of "_ # _"] runes.simps [of "_ # _"]
      rune_segs.simps [of "[]"] runes.simps [of "[]"] DecodeRune_ascii)

lemma utf8_valid_ascii: "\<forall>b \<in> set p. b < 0x80 \<Longrightarrow> 65533 \<notin> unat ` set p \<Longrightarrow> utf8_valid p"
  by (induction p) (simp_all add: utf8_valid.simps [of "_ # _"] bad_rune_def DecodeRune_ascii)

definition graphic :: "char \<Rightarrow> bool" where
  "graphic c \<longleftrightarrow> 33 \<le> (of_char c :: nat) \<and> (of_char c :: nat) \<le> 126"

lemma graphic_not_space: "33 \<le> n \<Longrightarrow> n \<le> 126 \<Longrightarrow> \<not> IsSpace n"
  by (simp add: IsSpace_def in_ranges_def)

lemma graphic_string:
  assumes "list_all graphic s"
  shows "TrimSpace s = s" "valid_string s" "runes (string_bytes s) = map of_char s"
proof -
  have b: "b < 0x80 \<and> 33 \<le> unat b \<and> unat b \<le> 126" if bs: "b \<in> set (string_bytes s)" for b
  proof -
    obtain c where "b = of_char c" "graphic c"
      using bs assms by (auto simp: string_bytes_def list_all_iff)
    then have "33 \<le> unat b \<and> unat b \<le> 126" by (simp add: graphic_def)
    then show ?thesis by (simp add: word_less_nat_alt)
  qed
  then have asc: "\<forall>b \<in> set (string_bytes s). b < 0x80" by blast
  have keep: "dropWhile (IsSpace \<circ> fst) (map (\<lambda>b. (unat b, [b])) p) = map (\<lambda>b. (unat b, [b])) p"
    if "set p \<subseteq> set (string_bytes s)" for p
    using that b graphic_not_space by (cases p) auto
  have "rev (dropWhile (IsSpace \<circ> fst) (rev (dropWhile (IsSpace \<circ> fst) (rune_segs (string_bytes s))))) =
        map (\<lambda>b. (unat b, [b])) (string_bytes s)"
    using keep [of "string_bytes s"] keep [of "rev (string_bytes s)"]
    by (simp add: ascii_facts(1) [OF asc] flip: rev_map)
  moreover have "concat (map (snd \<circ> (\<lambda>b. (unat b, [b]))) p) = p" for p :: bytes by (induction p) simp_all
  ultimately show "TrimSpace s = s"
    by (simp add: TrimSpace_def TrimSpace_bytes_def)
  show "valid_string s"
    using b by (auto simp: valid_string_def intro!: utf8_valid_ascii) fastforce
  show "runes (string_bytes s) = map of_char s"
    by (simp add: ascii_facts(2) [OF asc]) (simp add: string_bytes_def)
qed

end
