(* ===== verification/Content_Policy.thy ===== *)
theory Content_Policy
  imports Go_Strings
begin

text \<open>
  The content policy of attachments (\<^verbatim>\<open>src/internal/attachment/content_policy.go\<close>): the table
  of supported extensions, the check of a declaration and the check of the first bytes of the
  content. \<^verbatim>\<open>mime.ParseMediaType\<close> is the parameter \<open>parseMediaType\<close> (\<open>None\<close> for an error) and
  \<^verbatim>\<open>http.DetectContentType\<close> the parameter \<open>detectContentType\<close>.
\<close>

section \<open>Model\<close>

datatype content_error = ErrUnsupportedContent

record contentPolicy =
  cp_extension :: string
  cp_contentType :: string
  cp_text :: bool
  cp_binaryKind :: string

record policy_definition =
  pd_contentTypes :: "string list"
  pd_canonical :: string
  pd_text :: bool
  pd_binaryKind :: string

definition text_def :: "string list \<Rightarrow> string \<Rightarrow> policy_definition" where
  "text_def ts c = \<lparr>pd_contentTypes = ts, pd_canonical = c, pd_text = True, pd_binaryKind = ''''\<rparr>"

definition binary_def :: "string \<Rightarrow> string \<Rightarrow> policy_definition" where
  "binary_def t k = \<lparr>pd_contentTypes = [t], pd_canonical = t, pd_text = False, pd_binaryKind = k\<rparr>"

definition yaml_types :: "string list" where
  "yaml_types = [''application/yaml'', ''application/x-yaml'', ''text/yaml'', ''text/x-yaml'']"

definition policy_table :: "(string \<times> policy_definition) list" where
  "policy_table =
     [(''txt'', text_def [''text/plain''] ''text/plain''),
      (''log'', text_def [''text/plain''] ''text/plain''),
      (''md'', text_def [''text/markdown'', ''text/plain''] ''text/markdown''),
      (''markdown'', text_def [''text/markdown'', ''text/plain''] ''text/markdown''),
      (''json'', text_def [''application/json''] ''application/json''),
      (''yaml'', text_def yaml_types ''application/yaml''),
      (''yml'', text_def yaml_types ''application/yaml''),
      (''toml'', text_def [''application/toml'', ''text/toml''] ''application/toml''),
      (''csv'', text_def [''text/csv''] ''text/csv''),
      (''png'', binary_def ''image/png'' ''png''),
      (''jpg'', binary_def ''image/jpeg'' ''jpeg''),
      (''jpeg'', binary_def ''image/jpeg'' ''jpeg''),
      (''webp'', binary_def ''image/webp'' ''webp''),
      (''gif'', binary_def ''image/gif'' ''gif''),
      (''pdf'', binary_def ''application/pdf'' ''pdf'')]"

definition supportedContentPolicies :: "string \<rightharpoonup> policy_definition" where
  "supportedContentPolicies = map_of policy_table"

type_synonym media_parser = "string \<Rightarrow> (string \<times> (string \<times> string) list) option"

definition parseContentPolicy :: "media_parser \<Rightarrow> string \<Rightarrow> string \<Rightarrow> content_error + contentPolicy" where
  "parseContentPolicy parseMediaType declaredExtension declaredContentType =
     (let extension = trim_prefix (TrimSpace declaredExtension) ''.'' in
      if extension = '''' \<or> extension \<noteq> ToLower extension
         \<or> ContainsAny extension ([CHR ''.'', CHR '' '', CHR ''/'', CHR 0x5C, CHR 0x00])
      then Inl ErrUnsupportedContent
      else case supportedContentPolicies extension of
        None \<Rightarrow> Inl ErrUnsupportedContent
      | Some d \<Rightarrow>
          (case parseMediaType (TrimSpace declaredContentType) of
             None \<Rightarrow> Inl ErrUnsupportedContent
           | Some (mediaType, parameters) \<Rightarrow>
               (if ToLower mediaType \<notin> set (pd_contentTypes d) then Inl ErrUnsupportedContent
                else if list_ex (\<lambda>(key, val). \<not> pd_text d \<or> \<not> EqualFold key ''charset'' \<or> \<not> EqualFold val ''utf-8'')
                          parameters
                then Inl ErrUnsupportedContent
                else Inr \<lparr>cp_extension = ''.'' @ extension, cp_contentType = pd_canonical d,
                          cp_text = pd_text d, cp_binaryKind = pd_binaryKind d\<rparr>)))"

definition looksLikeActiveMarkup :: "bytes \<Rightarrow> bool" where
  "looksLikeActiveMarkup d =
     (let lower = string_bytes (ToLower (bytes_string (TrimSpace_bytes d))) in
      list_ex (\<lambda>prefix. has_prefix lower (string_bytes prefix))
        [''<!doctype html'', ''<html'', ''<head'', ''<body'', ''<script'', ''<svg'', ''<?xml''])"

definition le32 :: "bytes \<Rightarrow> nat" where
  "le32 b = unat (b ! 0) + 256 * unat (b ! 1) + 65536 * unat (b ! 2) + 16777216 * unat (b ! 3)"

definition be32 :: "bytes \<Rightarrow> nat" where
  "be32 b = le32 (rev (take 4 b))"

definition le16 :: "bytes \<Rightarrow> nat" where
  "le16 b = unat (b ! 0) + 256 * unat (b ! 1)"

definition slice :: "nat \<Rightarrow> nat \<Rightarrow> bytes \<Rightarrow> bytes" where
  "slice i j d = take (j - i) (drop i d)"

definition validPNGHeader :: "bytes \<Rightarrow> bool" where
  "validPNGHeader d \<longleftrightarrow> length d \<ge> 24 \<and> slice 0 8 d = [0x89, 0x50, 0x4E, 0x47, 0x0D, 0x0A, 0x1A, 0x0A]
     \<and> be32 (slice 8 12 d) = 13 \<and> slice 12 16 d = string_bytes ''IHDR''"

definition validJPEGHeader :: "bytes \<Rightarrow> bool" where
  "validJPEGHeader d \<longleftrightarrow> length d \<ge> 4 \<and> d ! 0 = 0xFF \<and> d ! 1 = 0xD8 \<and> d ! 2 = 0xFF
     \<and> d ! 3 \<noteq> 0 \<and> d ! 3 \<noteq> 0xFF \<and> d ! 3 \<noteq> 0xD8 \<and> d ! 3 \<noteq> 0xD9"

definition validGIFHeader :: "bytes \<Rightarrow> bool" where
  "validGIFHeader d =
     (if length d < 10 \<or> (slice 0 6 d \<noteq> string_bytes ''GIF87a'' \<and> slice 0 6 d \<noteq> string_bytes ''GIF89a'')
      then False
      else le16 (slice 6 8 d) \<noteq> 0 \<and> le16 (slice 8 10 d) \<noteq> 0)"

definition validWebPHeader :: "bytes \<Rightarrow> u64 \<Rightarrow> bool" where
  "validWebPHeader d totalSize =
     (if length d < 16 \<or> slice 0 4 d \<noteq> string_bytes ''RIFF'' \<or> slice 8 12 d \<noteq> string_bytes ''WEBP'' then False
      else if of_nat (le32 (slice 4 8 d)) + 8 \<noteq> totalSize then False
      else slice 12 16 d \<in> {string_bytes ''VP8 '', string_bytes ''VP8L'', string_bytes ''VP8X''})"

definition validPDFHeader :: "bytes \<Rightarrow> bool" where
  "validPDFHeader d \<longleftrightarrow> length d \<ge> 8 \<and> slice 0 5 d = string_bytes ''%PDF-''
     \<and> (d ! 5 = 0x31 \<or> d ! 5 = 0x32) \<and> d ! 6 = 0x2E \<and> 0x30 \<le> d ! 7 \<and> d ! 7 \<le> 0x39"

definition matchesBytes ::
  "media_parser \<Rightarrow> (bytes \<Rightarrow> string) \<Rightarrow> contentPolicy \<Rightarrow> bytes \<Rightarrow> u64 \<Rightarrow> bool \<Rightarrow> bool" where
  "matchesBytes parseMediaType detectContentType p sniff totalSize validText =
     (if cp_text p then
        (if \<not> validText then False
         else
           (let candidate = trim_prefix sniff [0xEF, 0xBB, 0xBF] in
            case parseMediaType (detectContentType candidate) of
              None \<Rightarrow> False
            | Some (detected, _) \<Rightarrow> detected = ''text/plain'' \<and> \<not> looksLikeActiveMarkup candidate))
      else case parseMediaType (detectContentType sniff) of
        None \<Rightarrow> False
      | Some (detected, _) \<Rightarrow>
          (if detected \<noteq> cp_contentType p then False
           else if cp_binaryKind p = ''png'' then validPNGHeader sniff
           else if cp_binaryKind p = ''jpeg'' then validJPEGHeader sniff
           else if cp_binaryKind p = ''gif'' then validGIFHeader sniff
           else if cp_binaryKind p = ''webp'' then validWebPHeader sniff totalSize
           else if cp_binaryKind p = ''pdf'' then validPDFHeader sniff
           else False))"

section \<open>What an accepted declaration looks like\<close>

lemma dom_policies: "supportedContentPolicies e = Some d \<Longrightarrow> e \<in> set (map fst policy_table)"
  unfolding supportedContentPolicies_def by (force dest: map_of_SomeD)

lemma parseContentPolicy_suffix:
  assumes "parseContentPolicy pm e t = Inr p"
  shows "\<exists>x \<in> set (map fst policy_table). cp_extension p = ''.'' @ x"
  using assms
  by (auto simp: parseContentPolicy_def Let_def dest!: dom_policies
      split: if_splits option.splits prod.splits)

end
