(* ===== verification/File_Ops.thy ===== *)
theory File_Ops
  imports Content_Policy
begin

text \<open>
  The file operations on one session's staging directory
  (\<^verbatim>\<open>src/internal/attachment/fileops.go\<close>) over an explicit model of what they ask of the
  operating system.

  A \<open>world\<close> is the directory as the operating system sees it, together with a list of events
  that every system call consumes one by one. An event says what other processes did to the
  directory just before the call (\<open>ev_pre\<close>), whether the call fails (\<open>ev_fault\<close>) and, for a
  write, how many bytes it transfers when it does not transfer them all (\<open>ev_short\<close>). When the
  list is exhausted nothing interferes and nothing fails. The theorems quantify over the
  events, hence over every pattern of failures. A failing call other than a write has no
  effect of its own. A hard link count is not kept: an inode lives as long as the world.

  \<^verbatim>\<open>rand.Read\<close> draws from \<open>w_random\<close>, where \<open>None\<close> (or the end of the list) is a failure.
  \<^verbatim>\<open>workspace.RevalidateDirectory\<close> together with the comparison of clean paths is the query
  \<open>fs_canonical\<close>, and the identities that \<^verbatim>\<open>os.SameFile\<close> compares are inode numbers. The seam
  \<^verbatim>\<open>publicationRemove\<close> is the removal it is initialised with.
\<close>

section \<open>The operating system\<close>

datatype os_error = EExist | ENotExist | EOther

datatype node = FileNode nat | DirNode | LinkNode string

record fs =
  fs_entries :: "string \<rightharpoonup> node"
  fs_data :: "nat \<Rightarrow> bytes"
  fs_next :: nat
  fs_canonical :: bool
  fs_pathId :: nat
  fs_handleId :: nat

record event =
  ev_pre :: "fs \<Rightarrow> fs"
  ev_fault :: "os_error option"
  ev_short :: "nat option"

record world =
  w_fs :: fs
  w_events :: "event list"
  w_random :: "bytes option list"

definition calm :: event where
  "calm = \<lparr>ev_pre = id, ev_fault = None, ev_short = None\<rparr>"

definition next_event :: "world \<Rightarrow> event \<times> world" where
  "next_event w =
     (case w_events w of [] \<Rightarrow> (calm, w)
      | e # es \<Rightarrow> (e, w\<lparr>w_fs := ev_pre e (w_fs w), w_events := es\<rparr>))"

text \<open>A system call: its effect on the directory and its result, unless the event fails it.\<close>

definition sys :: "(fs \<Rightarrow> (os_error + 'a) \<times> fs) \<Rightarrow> world \<Rightarrow> (os_error + 'a) \<times> world" where
  "sys f w =
     (let (ev, w) = next_event w in
      case ev_fault ev of
        Some e \<Rightarrow> (Inl e, w)
      | None \<Rightarrow> (let (r, s) = f (w_fs w) in (r, w\<lparr>w_fs := s\<rparr>)))"

definition os_create_excl :: "string \<Rightarrow> world \<Rightarrow> (os_error + nat) \<times> world" where
  "os_create_excl name = sys (\<lambda>s.
     if fs_entries s name \<noteq> None then (Inl EExist, s)
     else (Inr (fs_next s), s\<lparr>fs_entries := (fs_entries s)(name \<mapsto> FileNode (fs_next s)),
             fs_data := (fs_data s)(fs_next s := []), fs_next := fs_next s + 1\<rparr>))"

definition os_lstat :: "string \<Rightarrow> world \<Rightarrow> (os_error + node) \<times> world" where
  "os_lstat name = sys (\<lambda>s. (case fs_entries s name of None \<Rightarrow> Inl ENotExist | Some n \<Rightarrow> Inr n, s))"

text \<open>Opening follows a symbolic link to a file of the same directory; \<^verbatim>\<open>os.Root\<close> refuses others.\<close>

definition os_open :: "string \<Rightarrow> world \<Rightarrow> (os_error + nat) \<times> world" where
  "os_open name = sys (\<lambda>s.
     (case fs_entries s name of
        None \<Rightarrow> Inl ENotExist
      | Some (FileNode i) \<Rightarrow> Inr i
      | Some DirNode \<Rightarrow> Inl EOther
      | Some (LinkNode t) \<Rightarrow> (case fs_entries s t of Some (FileNode i) \<Rightarrow> Inr i | _ \<Rightarrow> Inl EOther), s))"

definition os_fstat :: "nat \<Rightarrow> world \<Rightarrow> (os_error + node) \<times> world" where
  "os_fstat i = sys (\<lambda>s. (Inr (FileNode i), s))"

definition os_close :: "world \<Rightarrow> (os_error + unit) \<times> world" where
  "os_close = sys (\<lambda>s. (Inr (), s))"

definition os_link :: "string \<Rightarrow> string \<Rightarrow> world \<Rightarrow> (os_error + unit) \<times> world" where
  "os_link old new = sys (\<lambda>s.
     case fs_entries s old of
       None \<Rightarrow> (Inl ENotExist, s)
     | Some DirNode \<Rightarrow> (Inl EOther, s)
     | Some n \<Rightarrow> (if fs_entries s new \<noteq> None then (Inl EExist, s)
                  else (Inr (), s\<lparr>fs_entries := (fs_entries s)(new \<mapsto> n)\<rparr>)))"

definition os_remove :: "string \<Rightarrow> world \<Rightarrow> (os_error + unit) \<times> world" where
  "os_remove name = sys (\<lambda>s.
     if fs_entries s name = None then (Inl ENotExist, s)
     else (Inr (), s\<lparr>fs_entries := (fs_entries s)(name := None)\<rparr>))"

definition overwrite :: "nat \<Rightarrow> bytes \<Rightarrow> bytes \<Rightarrow> bytes" where
  "overwrite off d c = take off (c @ replicate (off - length c) 0) @ d @ drop (off + length d) c"

text \<open>\<^verbatim>\<open>File.WriteAt\<close>: the number of bytes written and the error.\<close>

definition os_write_at :: "nat \<Rightarrow> int \<Rightarrow> bytes \<Rightarrow> world \<Rightarrow> (nat \<times> os_error option) \<times> world" where
  "os_write_at i off d w =
     (let (ev, w) = next_event w;
          n = (case ev_short ev of None \<Rightarrow> length d | Some k \<Rightarrow> min k (length d));
          s = w_fs w
      in ((n, ev_fault ev),
          w\<lparr>w_fs := s\<lparr>fs_data := (fs_data s)(i := overwrite (nat off) (take n d) (fs_data s i))\<rparr>\<rparr>))"

definition os_canonical :: "world \<Rightarrow> (os_error + unit) \<times> world" where
  "os_canonical = sys (\<lambda>s. (if fs_canonical s then Inr () else Inl EOther, s))"

definition os_stat_path :: "world \<Rightarrow> (os_error + nat) \<times> world" where
  "os_stat_path = sys (\<lambda>s. (Inr (fs_pathId s), s))"

definition os_stat_root :: "world \<Rightarrow> (os_error + nat) \<times> world" where
  "os_stat_root = sys (\<lambda>s. (Inr (fs_handleId s), s))"

definition rand_read :: "world \<Rightarrow> bytes option \<times> world" where
  "rand_read w = (case w_random w of [] \<Rightarrow> (None, w) | r # rs \<Rightarrow> (r, w\<lparr>w_random := rs\<rparr>))"

fun IsRegular :: "node \<Rightarrow> bool" where
  "IsRegular (FileNode _) = True"
| "IsRegular _ = False"

definition SameFile :: "node \<Rightarrow> node \<Rightarrow> bool" where
  "SameFile a b \<longleftrightarrow> a = b"

text \<open>The Go pattern \<^verbatim>\<open>x, err := call(); if err != nil { ... }\<close>.\<close>

definition check :: "(os_error + 'a) \<times> world \<Rightarrow> (os_error \<Rightarrow> world \<Rightarrow> 'r) \<Rightarrow> ('a \<Rightarrow> world \<Rightarrow> 'r) \<Rightarrow> 'r" where
  "check r h k = (case r of (Inl e, w) \<Rightarrow> h e w | (Inr x, w) \<Rightarrow> k x w)"

section \<open>Staging names and the staging directory\<close>

text \<open>Errors: a classified operating system error, a plain message, or two joined errors.\<close>

datatype file_error = PathError string os_error | FileError string | Joined file_error file_error

fun is_exist :: "file_error \<Rightarrow> bool" where
  "is_exist (PathError _ e) \<longleftrightarrow> e = EExist"
| "is_exist (FileError _) \<longleftrightarrow> False"
| "is_exist (Joined a b) \<longleftrightarrow> is_exist a \<or> is_exist b"

abbreviation "generatedFileIDBytes \<equiv> 16 :: nat"
abbreviation "generatedFileIDHexLength \<equiv> 2 * generatedFileIDBytes"

definition allowedStagingSuffix :: "string \<Rightarrow> bool" where
  "allowedStagingSuffix suffix \<longleftrightarrow> suffix \<in> set
     [''partial'', ''png'', ''jpg'', ''jpeg'', ''webp'', ''gif'', ''txt'', ''log'', ''md'', ''markdown'',
      ''json'', ''yaml'', ''yml'', ''toml'', ''csv'', ''pdf'']"

definition validGeneratedStagingName :: "string \<Rightarrow> bool" where
  "validGeneratedStagingName name =
     (if ContainsAny name [CHR ''/'', CHR 0x5C, CHR 0x00] then False
      else
        (let identifier = takeWhile (\<lambda>c. c \<noteq> CHR ''.'') name;
             suffix = drop (length identifier + 1) name;
             found = (CHR ''.'' \<in> set name) in
         if \<not> found \<or> length identifier \<noteq> generatedFileIDHexLength \<or> identifier \<noteq> ToLower identifier then False
         else if \<not> hex_decodes identifier then False
         else allowedStagingSuffix suffix))"

definition generatedStoragePrefix :: "world \<Rightarrow> (file_error + string) \<times> world" where
  "generatedStoragePrefix w =
     (case rand_read w of
        (None, w) \<Rightarrow> (Inl (FileError ''generate attachment storage identifier failed''), w)
      | (Some identifier, w) \<Rightarrow> (Inr (EncodeToString identifier), w))"

record stagingDirectory =
  sd_identity :: nat
  sd_closed :: bool

definition validateBoundDirectory :: "stagingDirectory \<Rightarrow> world \<Rightarrow> file_error option \<times> world" where
  "validateBoundDirectory d w =
     check (os_canonical w)
       (\<lambda>_ w. (Some (FileError ''session staging boundary is no longer valid''), w)) (\<lambda>_ w.
     check (os_stat_path w)
       (\<lambda>e w. (Some (PathError ''inspect current session staging directory'' e), w)) (\<lambda>currentPathInfo w.
     check (os_stat_root w)
       (\<lambda>e w. (Some (PathError ''inspect bound session staging directory'' e), w)) (\<lambda>currentHandleInfo w.
     if sd_identity d \<noteq> currentHandleInfo \<or> sd_identity d \<noteq> currentPathInfo
     then (Some (FileError ''session staging directory identity changed''), w)
     else (None, w))))"

definition validateOperation :: "stagingDirectory \<Rightarrow> world \<Rightarrow> file_error option \<times> world" where
  "validateOperation d w =
     (if sd_closed d then (Some (FileError ''session staging directory is closed''), w)
      else validateBoundDirectory d w)"

text \<open>The operations validate the directory first and go on only when that succeeds.\<close>

definition validated ::
  "stagingDirectory \<Rightarrow> world \<Rightarrow> (world \<Rightarrow> file_error option \<times> world) \<Rightarrow> file_error option \<times> world" where
  "validated d w k = (case validateOperation d w of (Some e, w) \<Rightarrow> (Some e, w) | (None, w) \<Rightarrow> k w)"

definition invalid_name :: "world \<Rightarrow> file_error option \<times> world" where
  "invalid_name w = (Some (FileError ''staged filename is invalid''), w)"

definition sd_create :: "stagingDirectory \<Rightarrow> string \<Rightarrow> world \<Rightarrow> file_error option \<times> world" where
  "sd_create d name w =
     (if \<not> validGeneratedStagingName name then invalid_name w
      else validated d w (\<lambda>w.
        check (os_create_excl name w) (\<lambda>e w. (Some (PathError ''create staged file'' e), w)) (\<lambda>_ w.
        check (os_close w)
          (\<lambda>e w. (Some (PathError ''close created staged file'' e), snd (os_remove name w)))
          (\<lambda>_ w. (None, w)))))"

text \<open>The end of \<^verbatim>\<open>writeAt\<close>: the write, the close, and their errors in order.\<close>

definition write_and_close :: "nat \<Rightarrow> int \<Rightarrow> bytes \<Rightarrow> world \<Rightarrow> file_error option \<times> world" where
  "write_and_close file offset data w =
     (case os_write_at file offset data w of ((n, writeErr), w) \<Rightarrow>
      case os_close w of (closeRes, w) \<Rightarrow>
      case writeErr of
        Some e \<Rightarrow> (Some (PathError ''write staged file'' e), w)
      | None \<Rightarrow>
          (if n \<noteq> length data then (Some (PathError ''write staged file'' EOther), w)
           else case closeRes of
             Inl e \<Rightarrow> (Some (PathError ''close written staged file'' e), w)
           | Inr _ \<Rightarrow> (None, w)))"

definition sd_writeAt :: "stagingDirectory \<Rightarrow> string \<Rightarrow> int \<Rightarrow> bytes \<Rightarrow> world \<Rightarrow> file_error option \<times> world" where
  "sd_writeAt d name offset data w =
     (if \<not> validGeneratedStagingName name then invalid_name w
      else if offset < 0 then (Some (FileError ''staged file offset must not be negative''), w)
      else validated d w (\<lambda>w.
        check (os_lstat name w) (\<lambda>e w. (Some (PathError ''inspect staged file before write'' e), w)) (\<lambda>entryInfo w.
        if \<not> IsRegular entryInfo then (Some (FileError ''staged file must remain a regular file''), w)
        else
        check (os_open name w) (\<lambda>e w. (Some (PathError ''open staged file for write'' e), w)) (\<lambda>file w.
        check (os_fstat file w)
          (\<lambda>e w. (Some (PathError ''inspect opened staged file'' e), snd (os_close w))) (\<lambda>openedInfo w.
        if \<not> SameFile entryInfo openedInfo
        then (Some (FileError ''staged file changed while opening''), snd (os_close w))
        else
          write_and_close file offset data w)))))"

definition removePublicationEntry :: "string \<Rightarrow> world \<Rightarrow> (os_error + unit) \<times> world" where
  "removePublicationEntry name w = os_remove name w"

definition rollbackPublication :: "string \<Rightarrow> file_error \<Rightarrow> world \<Rightarrow> file_error option \<times> world" where
  "rollbackPublication name cause w =
     check (removePublicationEntry name w)
       (\<lambda>e w. if e \<noteq> ENotExist then (Some (Joined cause (PathError ''roll back staged publication'' e)), w)
              else (Some cause, w))
       (\<lambda>_ w. (Some cause, w))"

text \<open>
  The second half of \<^verbatim>\<open>rename\<close>, from the link on: the destination is inspected, the source is
  closed and inspected again, and only then is the partial name removed.
\<close>

definition publish :: "string \<Rightarrow> string \<Rightarrow> node \<Rightarrow> world \<Rightarrow> file_error option \<times> world" where
  "publish oldName newName sourceInfo w =
     (case os_link oldName newName w of (linkRes, w) \<Rightarrow>
      let linkCreated = (linkRes = Inr ());
          linkErr = (case linkRes of Inl e \<Rightarrow> e | Inr _ \<Rightarrow> EOther) in
      if \<not> linkCreated \<and> linkErr \<noteq> EExist
      then (Some (PathError ''publish staged file'' linkErr), snd (os_close w))
      else
      check (os_lstat newName w)
        (\<lambda>e w. let w = snd (os_close w) in
           if linkCreated then rollbackPublication newName (PathError ''inspect published staged file'' e) w
           else (Some (PathError ''publish staged file'' linkErr), w)) (\<lambda>destinationInfo w.
      if \<not> IsRegular destinationInfo \<or> \<not> SameFile sourceInfo destinationInfo
      then (let w = snd (os_close w) in
            if linkCreated
            then rollbackPublication newName (FileError ''published staged file identity does not match source'') w
            else (Some (PathError ''publish staged file'' linkErr), w))
      else
      check (os_close w)
        (\<lambda>e w. rollbackPublication newName (PathError ''close staged rename source'' e) w) (\<lambda>_ w.
      check (os_lstat oldName w)
        (\<lambda>e w. rollbackPublication newName (PathError ''reinspect staged rename source'' e) w) (\<lambda>currentSourceInfo w.
      if \<not> IsRegular currentSourceInfo \<or> \<not> SameFile sourceInfo currentSourceInfo
      then rollbackPublication newName (FileError ''staged rename source changed before removal'') w
      else
      check (removePublicationEntry oldName w)
        (\<lambda>e w. rollbackPublication newName (PathError ''remove published staged source'' e) w)
        (\<lambda>_ w. (None, w))))))"

definition sd_rename :: "stagingDirectory \<Rightarrow> string \<Rightarrow> string \<Rightarrow> world \<Rightarrow> file_error option \<times> world" where
  "sd_rename d oldName newName w =
     (if \<not> validGeneratedStagingName oldName \<or> \<not> validGeneratedStagingName newName then invalid_name w
      else if oldName = newName then (Some (FileError ''staged rename requires distinct names''), w)
      else validated d w (\<lambda>w.
        check (os_lstat oldName w) (\<lambda>e w. (Some (PathError ''inspect staged rename source'' e), w)) (\<lambda>sourceEntryInfo w.
        if \<not> IsRegular sourceEntryInfo
        then (Some (FileError ''staged rename source must be a regular file''), w)
        else
        check (os_open oldName w) (\<lambda>e w. (Some (PathError ''open staged rename source'' e), w)) (\<lambda>source w.
        check (os_fstat source w)
          (\<lambda>e w. (Some (PathError ''inspect opened staged rename source'' e), snd (os_close w))) (\<lambda>sourceInfo w.
        if \<not> IsRegular sourceInfo \<or> \<not> SameFile sourceEntryInfo sourceInfo
        then (Some (FileError ''staged rename source changed while opening''), snd (os_close w))
        else publish oldName newName sourceInfo w)))))"

definition sd_removePublishedLink :: "stagingDirectory \<Rightarrow> string \<Rightarrow> string \<Rightarrow> world \<Rightarrow> file_error option \<times> world" where
  "sd_removePublishedLink d sourceName destinationName w =
     (if \<not> validGeneratedStagingName sourceName \<or> \<not> validGeneratedStagingName destinationName then invalid_name w
      else validated d w (\<lambda>w.
        check (os_lstat sourceName w)
          (\<lambda>e w. (Some (PathError ''inspect interrupted publication source'' e), w)) (\<lambda>sourceInfo w.
        if \<not> IsRegular sourceInfo
        then (Some (FileError ''interrupted publication source must be a regular file''), w)
        else
        check (os_lstat destinationName w)
          (\<lambda>e w. if e = ENotExist then (None, w)
                 else (Some (PathError ''inspect interrupted publication destination'' e), w)) (\<lambda>destinationInfo w.
        if \<not> IsRegular destinationInfo \<or> \<not> SameFile sourceInfo destinationInfo then (None, w)
        else
        check (removePublicationEntry destinationName w)
          (\<lambda>e w. if e \<noteq> ENotExist
                 then (Some (PathError ''remove interrupted publication destination'' e), w) else (None, w))
          (\<lambda>_ w. (None, w))))))"

definition sd_remove :: "stagingDirectory \<Rightarrow> string \<Rightarrow> world \<Rightarrow> file_error option \<times> world" where
  "sd_remove d name w =
     (if \<not> validGeneratedStagingName name then invalid_name w
      else validated d w (\<lambda>w.
        check (os_lstat name w)
          (\<lambda>e w. if e = ENotExist then (None, w)
                 else (Some (PathError ''inspect staged file before removal'' e), w)) (\<lambda>info w.
        if info = DirNode then (Some (FileError ''staged file entry must not be a directory''), w)
        else
        check (os_remove name w)
          (\<lambda>e w. if e \<noteq> ENotExist then (Some (PathError ''remove staged file'' e), w) else (None, w))
          (\<lambda>_ w. (None, w)))))"

definition probeHardLinkPublication :: "world \<Rightarrow> file_error option \<times> world" where
  "probeHardLinkPublication w =
     (case generatedStoragePrefix w of
        (Inl _, w) \<Rightarrow> (Some (FileError ''generate staging publication probe failed''), w)
      | (Inr prefix, w) \<Rightarrow>
          (let sourceName = prefix @ ''.partial''; destinationName = prefix @ ''.txt'' in
           check (os_create_excl sourceName w)
             (\<lambda>e w. (Some (PathError ''create staging publication probe'' e), w)) (\<lambda>_ w.
           check (os_close w)
             (\<lambda>e w. (Some (PathError ''close staging publication probe'' e), snd (os_remove sourceName w))) (\<lambda>_ w.
           check (os_link sourceName destinationName w)
             (\<lambda>_ w. (Some (FileError ''staging filesystem does not support safe attachment publication''),
                     snd (os_remove sourceName w))) (\<lambda>_ w.
           case os_remove destinationName w of (destRes, w) \<Rightarrow>
           case os_remove sourceName w of (srcRes, w) \<Rightarrow>
           case destRes of
             Inl e \<Rightarrow> (Some (PathError ''remove staging publication probe destination'' e), w)
           | Inr _ \<Rightarrow>
               (case srcRes of
                  Inl e \<Rightarrow> (Some (PathError ''remove staging publication probe source'' e), w)
                | Inr _ \<Rightarrow> (None, w)))))))"

section \<open>Worlds without interference\<close>

text \<open>
  In a quiet world calls may fail in any pattern, but nobody else changes the directory and
  no failure claims that an entry exists or is missing when it is not.
  \<open>yields p Q\<close> says that the outcome \<open>p\<close> of an operation leaves a quiet world and that its
  result and the directory it leaves satisfy \<open>Q\<close>.
\<close>

definition quiet :: "world \<Rightarrow> bool" where
  "quiet w \<longleftrightarrow> (\<forall>e \<in> set (w_events w). ev_pre e = id \<and> (ev_fault e = None \<or> ev_fault e = Some EOther))"

definition yields :: "'r \<times> world \<Rightarrow> ('r \<Rightarrow> fs \<Rightarrow> bool) \<Rightarrow> bool" where
  "yields p Q \<longleftrightarrow> quiet (snd p) \<and> Q (fst p) (w_fs (snd p))"

lemma yields_pair [simp]: "yields (r, w) Q \<longleftrightarrow> quiet w \<and> Q r (w_fs w)"
  by (simp add: yields_def)

lemma yields_mono: "yields p R \<Longrightarrow> (\<And>r s. R r s \<Longrightarrow> Q r s) \<Longrightarrow> yields p Q"
  by (auto simp: yields_def)

lemma yields_check:
  assumes "yields r R"
    and "\<And>e w. quiet w \<Longrightarrow> R (Inl e) (w_fs w) \<Longrightarrow> yields (h e w) Q"
    and "\<And>x w. quiet w \<Longrightarrow> R (Inr x) (w_fs w) \<Longrightarrow> yields (k x w) Q"
  shows "yields (check r h k) Q"
  using assms by (cases r; cases "fst r") (auto simp: check_def)

lemma next_event_quiet:
  "quiet w \<Longrightarrow> next_event w = (ev, w') \<Longrightarrow> quiet w' \<and> w_fs w' = w_fs w \<and> w_random w' = w_random w
     \<and> (ev_fault ev = None \<or> ev_fault ev = Some EOther)"
  by (auto simp: next_event_def quiet_def calm_def split: list.splits)

lemma yields_sys: "quiet w \<Longrightarrow> yields (sys f w) (\<lambda>r s. r = Inl EOther \<and> s = w_fs w \<or> (r, s) = f (w_fs w))"
  using next_event_quiet [of w "fst (next_event w)" "snd (next_event w)"]
  by (auto simp: sys_def split_beta quiet_def split: option.splits)

text \<open>What each call can do in a quiet world.\<close>

lemma yields_os_query:
  "quiet w \<Longrightarrow> yields (os_close w) (\<lambda>_ s. s = w_fs w)"
  "quiet w \<Longrightarrow> yields (os_fstat i w) (\<lambda>r s. s = w_fs w \<and> (r = Inr (FileNode i) \<or> (\<exists>e. r = Inl e)))"
  "quiet w \<Longrightarrow> yields (os_lstat n w) (\<lambda>r s. s = w_fs w \<and> 
      (case r of Inr x \<Rightarrow> fs_entries s n = Some x | Inl e \<Rightarrow> e = ENotExist \<longrightarrow> fs_entries s n = None))"
  "quiet w \<Longrightarrow> yields (os_open n w) (\<lambda>_ s. s = w_fs w)"
  "quiet w \<Longrightarrow> yields (os_canonical w) (\<lambda>_ s. s = w_fs w)"
  "quiet w \<Longrightarrow> yields (os_stat_path w) (\<lambda>_ s. s = w_fs w)"
  "quiet w \<Longrightarrow> yields (os_stat_root w) (\<lambda>_ s. s = w_fs w)"
  unfolding os_close_def os_fstat_def os_lstat_def os_open_def os_canonical_def os_stat_path_def os_stat_root_def
  by (drule yields_sys, erule yields_mono, auto split: option.splits node.splits if_splits)+

definition removed :: "string \<Rightarrow> fs \<Rightarrow> fs" where
  "removed n s = s\<lparr>fs_entries := (fs_entries s)(n := None)\<rparr>"

lemma yields_os_remove:
  "quiet w \<Longrightarrow> yields (os_remove n w) (\<lambda>r s.
     (case r of Inl e \<Rightarrow> s = w_fs w \<and> (e = ENotExist \<longrightarrow> fs_entries s n = None)
      | Inr _ \<Rightarrow> fs_entries (w_fs w) n \<noteq> None \<and> s = removed n (w_fs w)))"
  unfolding os_remove_def
  by (drule yields_sys, erule yields_mono) (auto simp: removed_def split: if_splits)

lemma yields_os_link:
  "quiet w \<Longrightarrow> yields (os_link a b w) (\<lambda>r s.
     (case r of Inl e \<Rightarrow> s = w_fs w \<and> (e = EExist \<longrightarrow> fs_entries s b \<noteq> None)
      | Inr _ \<Rightarrow> fs_entries (w_fs w) b = None \<and> (\<exists>n. fs_entries (w_fs w) a = Some n
           \<and> s = (w_fs w)\<lparr>fs_entries := (fs_entries (w_fs w))(b \<mapsto> n)\<rparr>)))"
  unfolding os_link_def
  by (drule yields_sys, erule yields_mono) (auto split: if_splits option.splits node.splits)

definition created :: "string \<Rightarrow> fs \<Rightarrow> fs" where
  "created n s = s\<lparr>fs_entries := (fs_entries s)(n \<mapsto> FileNode (fs_next s)),
     fs_data := (fs_data s)(fs_next s := []), fs_next := fs_next s + 1\<rparr>"

lemma yields_os_create:
  "quiet w \<Longrightarrow> yields (os_create_excl n w) (\<lambda>r s.
     (case r of Inl _ \<Rightarrow> s = w_fs w | Inr _ \<Rightarrow> fs_entries (w_fs w) n = None \<and> s = created n (w_fs w)))"
  unfolding os_create_excl_def
  by (drule yields_sys, erule yields_mono) (auto simp: created_def split: if_splits)

definition written :: "nat \<Rightarrow> int \<Rightarrow> bytes \<Rightarrow> fs \<Rightarrow> fs" where
  "written i off d s = s\<lparr>fs_data := (fs_data s)(i := overwrite (nat off) d (fs_data s i))\<rparr>"

lemma yields_os_write:
  "quiet w \<Longrightarrow> yields (os_write_at i off d w) (\<lambda>r s. fst r \<le> length d \<and> s = written i off (take (fst r) d) (w_fs w))"
  using next_event_quiet [of w "fst (next_event w)" "snd (next_event w)"]
  by (auto simp: os_write_at_def written_def split_beta Let_def quiet_def split: option.splits)

lemma yields_validated:
  assumes "quiet w"
    and "\<And>e. Q (Some e) (w_fs w)"
    and "\<And>w'. quiet w' \<Longrightarrow> w_fs w' = w_fs w \<Longrightarrow> yields (k w') Q"
  shows "yields (validated d w k) Q"
proof -
  have "yields (validateOperation d w) (\<lambda>_ s. s = w_fs w)"
    unfolding validateOperation_def validateBoundDirectory_def
    using assms(1) by (auto intro!: yields_check [OF yields_os_query(5)] yields_check [OF yields_os_query(6)]
        yields_check [OF yields_os_query(7)])
  then show ?thesis
    using assms by (auto simp: validated_def yields_def split: prod.splits option.splits)
qed

section \<open>What the operations do\<close>

lemma os_close_snd [simp]: "quiet w \<Longrightarrow> quiet (snd (os_close w))" "quiet w \<Longrightarrow> w_fs (snd (os_close w)) = w_fs w"
  using yields_os_query(1) [of w] by (simp_all add: yields_def)

lemma os_remove_snd:
  "quiet w \<Longrightarrow> quiet (snd (os_remove n w)) \<and> (w_fs (snd (os_remove n w)) = w_fs w \<or> w_fs (snd (os_remove n w)) = removed n (w_fs w))"
  using yields_os_remove [of w n] by (auto simp: yields_def split: sum.splits)

lemmas yields_steps = yields_check [OF yields_os_query(1)] yields_check [OF yields_os_query(2)]
  yields_check [OF yields_os_query(3)] yields_check [OF yields_os_query(4)] yields_check [OF yields_os_create]
  yields_check [OF yields_os_remove] yields_validated

text \<open>\<^verbatim>\<open>create\<close> succeeds only on a fresh name; a failure leaves at most an empty new file.\<close>

definition create_post :: "string \<Rightarrow> fs \<Rightarrow> file_error option \<Rightarrow> fs \<Rightarrow> bool" where
  "create_post n s0 r s \<longleftrightarrow> (case r of
      None \<Rightarrow> validGeneratedStagingName n \<and> fs_entries s0 n = None \<and> s = created n s0
    | Some _ \<Rightarrow> s = s0 \<or> fs_entries s0 n = None \<and> (s = created n s0 \<or> s = removed n (created n s0)))"

lemma sd_create_yields: "quiet w \<Longrightarrow> yields (sd_create d n w) (create_post n (w_fs w))"
  unfolding sd_create_def invalid_name_def
  by (auto intro!: yields_steps simp: os_remove_snd) (auto simp: create_post_def dest: os_remove_snd)

text \<open>\<^verbatim>\<open>writeAt\<close> changes the named regular file only, completely when it succeeds.\<close>

definition write_post :: "string \<Rightarrow> int \<Rightarrow> bytes \<Rightarrow> fs \<Rightarrow> file_error option \<Rightarrow> fs \<Rightarrow> bool" where
  "write_post n off d s0 r s \<longleftrightarrow>
     (r = None \<longrightarrow> (\<exists>i. fs_entries s0 n = Some (FileNode i) \<and> 0 \<le> off \<and> s = written i off d s0))
     \<and> (s = s0 \<or> (\<exists>i k. fs_entries s0 n = Some (FileNode i) \<and> s = written i off (take k d) s0))"

lemma write_and_close_yields:
  assumes "quiet w" "w_fs w = s" "fs_entries s n = Some (FileNode i)" "\<not> off < 0"
  shows "yields (write_and_close i off d w) (write_post n off d s)"
proof -
  obtain m err w1 where wr: "os_write_at i off d w = ((m, err), w1)" by (metis prod.exhaust)
  obtain c w2 where cl: "os_close w1 = (c, w2)" by (metis prod.exhaust)
  have "quiet w1" "w_fs w1 = written i off (take m d) s"
    using yields_os_write [OF assms(1), of i off d] wr assms(2) by (simp_all add: yields_def)
  then have w2: "quiet w2" "w_fs w2 = written i off (take m d) s"
    using os_close_snd [of w1] cl by simp_all
  then have some: "\<exists>i k. fs_entries s n = Some (FileNode i) \<and> w_fs w2 = written i off (take k d) s"
    using assms(3) by blast
  have "write_post n off d s None (w_fs w2)" if "m = length d"
    using some w2 that assms(3,4) unfolding write_post_def by (auto simp: not_less)
  moreover have "write_post n off d s (Some e) (w_fs w2)" for e
    using some unfolding write_post_def by blast
  ultimately show ?thesis
    using wr cl w2 by (auto simp: write_and_close_def split: option.splits sum.splits)
qed

lemma write_post_error: "write_post n off d s (Some e) s"
  by (simp add: write_post_def)

lemma sd_writeAt_yields: "quiet w \<Longrightarrow> yields (sd_writeAt dr n off d w) (write_post n off d (w_fs w))"
  unfolding sd_writeAt_def invalid_name_def
  by (auto intro!: yields_steps write_post_error write_and_close_yields simp: SameFile_def)

text \<open>\<^verbatim>\<open>remove\<close> removes the entry when it succeeds and changes nothing otherwise.\<close>

definition remove_post :: "string \<Rightarrow> fs \<Rightarrow> file_error option \<Rightarrow> fs \<Rightarrow> bool" where
  "remove_post n s0 r s \<longleftrightarrow> (case r of None \<Rightarrow> s = removed n s0 | Some _ \<Rightarrow> s = s0)"

lemma removed_absent: "fs_entries s n = None \<Longrightarrow> removed n s = s"
  by (simp add: removed_def fun_upd_idem)

lemma sd_remove_yields: "quiet w \<Longrightarrow> yields (sd_remove dr n w) (remove_post n (w_fs w))"
  unfolding sd_remove_def invalid_name_def
  by (auto intro!: yields_steps) (auto simp: remove_post_def removed_absent)

text \<open>
  \<^verbatim>\<open>rename\<close> publishes without replacing: it succeeds only when the destination is the source's
  own file or was absent, and a failure leaves the partial name in place, every other entry
  untouched, and at the destination what was there or a second link to the source.
\<close>

definition rename_post :: "string \<Rightarrow> string \<Rightarrow> fs \<Rightarrow> file_error option \<Rightarrow> fs \<Rightarrow> bool" where
  "rename_post old new s0 r s \<longleftrightarrow> (case r of
      None \<Rightarrow> (\<exists>i. fs_entries s0 old = Some (FileNode i)
        \<and> (fs_entries s0 new = None \<or> fs_entries s0 new = Some (FileNode i))
        \<and> s = s0\<lparr>fs_entries := (fs_entries s0)(new \<mapsto> FileNode i, old := None)\<rparr>)
    | Some _ \<Rightarrow> s = s0 \<or> (\<exists>i. fs_entries s0 old = Some (FileNode i)
        \<and> (fs_entries s0 new = None \<and> s = s0\<lparr>fs_entries := (fs_entries s0)(new \<mapsto> FileNode i)\<rparr>
           \<or> fs_entries s0 new = Some (FileNode i) \<and> s = removed new s0)))"

lemma rename_post_error: "rename_post old new s (Some e) s"
  by (simp add: rename_post_def)

lemma rollback_yields:
  assumes "quiet w" "\<And>e. Q (Some e) (w_fs w)" "\<And>e. fs_entries (w_fs w) n \<noteq> None \<Longrightarrow> Q (Some e) (removed n (w_fs w))"
  shows "yields (rollbackPublication n c w) Q"
  unfolding rollbackPublication_def removePublicationEntry_def
  using assms by (auto intro!: yields_steps)

lemma publish_yields:
  assumes "quiet w" "w_fs w = s" "old \<noteq> new" "fs_entries s old = Some (FileNode i)"
  shows "yields (publish old new (FileNode i) w) (rename_post old new s)"
proof -
  obtain r w1 where l: "os_link old new w = (r, w1)" by (metis prod.exhaust)
  note link = yields_os_link [OF assms(1), of old new, unfolded l yields_pair]
  show ?thesis
  proof (cases r)
    case (Inl e)
    then have w1: "quiet w1" "w_fs w1 = s" using link assms(2) by simp_all
    show ?thesis
      unfolding publish_def l removePublicationEntry_def using Inl w1 assms(3,4)
      by (auto intro!: yields_steps rename_post_error rollback_yields simp: Let_def SameFile_def)
        (auto simp: rename_post_def removed_def fun_upd_twist fun_upd_idem)
  next
    case (Inr u)
    then have w1: "quiet w1" "fs_entries s new = None" "w_fs w1 = s\<lparr>fs_entries := (fs_entries s)(new \<mapsto> FileNode i)\<rparr>"
      using link assms by auto
    show ?thesis
      unfolding publish_def l removePublicationEntry_def using Inr w1 assms(3,4)
      by (auto intro!: yields_steps rollback_yields simp: Let_def SameFile_def)
        (auto simp: rename_post_def removed_def fun_upd_twist fun_upd_idem)
  qed
qed

lemma sd_rename_yields: "quiet w \<Longrightarrow> yields (sd_rename dr old new w) (rename_post old new (w_fs w))"
  unfolding sd_rename_def invalid_name_def
  by (auto intro!: yields_steps rename_post_error publish_yields simp: SameFile_def)

text \<open>\<^verbatim>\<open>removePublishedLink\<close> removes a second link to the source and nothing else.\<close>

definition unlink_post :: "string \<Rightarrow> string \<Rightarrow> fs \<Rightarrow> file_error option \<Rightarrow> fs \<Rightarrow> bool" where
  "unlink_post src dst s0 r s \<longleftrightarrow>
     (s = s0 \<or> s = removed dst s0 \<and> (\<exists>i. fs_entries s0 src = Some (FileNode i) \<and> fs_entries s0 dst = Some (FileNode i)))
     \<and> (r = None \<longrightarrow> (\<exists>i. fs_entries s0 src = Some (FileNode i)
          \<and> (src \<noteq> dst \<longrightarrow> fs_entries s dst \<noteq> Some (FileNode i))))"

lemma unlink_post_error: "unlink_post src dst s (Some e) s"
  by (simp add: unlink_post_def)

lemma sd_removePublishedLink_yields:
  "quiet w \<Longrightarrow> yields (sd_removePublishedLink dr src dst w) (unlink_post src dst (w_fs w))"
  unfolding sd_removePublishedLink_def invalid_name_def removePublicationEntry_def
  by (auto intro!: yields_steps unlink_post_error simp: SameFile_def)
    (auto simp: unlink_post_def removed_def elim!: IsRegular.elims)

section \<open>Properties\<close>

lemmas os_eval = sys_def next_event_def calm_def os_canonical_def os_stat_root_def os_stat_path_def os_close_def
  os_create_excl_def os_link_def os_remove_def os_lstat_def os_open_def os_fstat_def os_write_at_def check_def
  rand_read_def generatedStoragePrefix_def validated_def validateOperation_def validateBoundDirectory_def

text \<open>A directory whose identity checks pass and in which no call fails any more.\<close>

definition calm_world :: "stagingDirectory \<Rightarrow> world \<Rightarrow> bool" where
  "calm_world d w \<longleftrightarrow> w_events w = [] \<and> \<not> sd_closed d \<and> fs_canonical (w_fs w)
     \<and> fs_pathId (w_fs w) = sd_identity d \<and> fs_handleId (w_fs w) = sd_identity d"

lemma sd_rename_calm:
  assumes "calm_world d w" "validGeneratedStagingName old" "validGeneratedStagingName new" "old \<noteq> new"
    and "fs_entries (w_fs w) old = Some (FileNode i)"
    and "fs_entries (w_fs w) new = None \<or> fs_entries (w_fs w) new = Some (FileNode i)"
  shows "sd_rename d old new w =
    (None, w\<lparr>w_fs := (w_fs w)\<lparr>fs_entries := (fs_entries (w_fs w))(new \<mapsto> FileNode i, old := None)\<rparr>\<rparr>)"
  using assms(6)
proof
  assume "fs_entries (w_fs w) new = None"
  then show ?thesis
    using assms(1-5)
    by (simp add: sd_rename_def publish_def removePublicationEntry_def os_eval calm_world_def SameFile_def)
next
  assume new: "fs_entries (w_fs w) new = Some (FileNode i)"
  have "(fs_entries (w_fs w))(new \<mapsto> FileNode i, old := None) = (fs_entries (w_fs w))(old := None)"
    using new by (simp add: fun_upd_idem)
  then show ?thesis
    using assms(1-5) new
    by (simp add: sd_rename_def publish_def removePublicationEntry_def os_eval calm_world_def SameFile_def)
qed

text \<open>
  Publication never replaces and never loses: whatever calls fail, \<^verbatim>\<open>rename\<close> leaves all file
  contents and all other entries alone, refuses without any change a destination that exists
  and is another file, and either moves the entry or leaves the partial name in place.
\<close>

theorem rename_never_replaces:
  assumes "quiet w" "old \<noteq> new" "sd_rename d old new w = (r, w')"
  shows "fs_data (w_fs w') = fs_data (w_fs w)
    \<and> (\<forall>n. n \<noteq> old \<and> n \<noteq> new \<longrightarrow> fs_entries (w_fs w') n = fs_entries (w_fs w) n)
    \<and> (\<forall>x. fs_entries (w_fs w) new = Some x \<and> fs_entries (w_fs w) old \<noteq> Some x \<longrightarrow> r \<noteq> None \<and> w_fs w' = w_fs w)
    \<and> (if r = None then fs_entries (w_fs w') new = fs_entries (w_fs w) old \<and> fs_entries (w_fs w') old = None
       else fs_entries (w_fs w') old = fs_entries (w_fs w) old)"
proof -
  have "rename_post old new (w_fs w) r (w_fs w')"
    using sd_rename_yields [OF assms(1), of d old new] assms(3) by simp
  then show ?thesis
    using assms(2) by (auto simp: rename_post_def removed_def split: option.splits)
qed

theorem rename_never_replaces_witness:
  "\<not> validGeneratedStagingName ''a'' \<and>
   fst (sd_rename \<lparr>sd_identity = 1, sd_closed = False\<rparr> ''a'' ''b''
     \<lparr>w_fs = \<lparr>fs_entries = [''a'' \<mapsto> FileNode 0, ''b'' \<mapsto> DirNode], fs_data = (\<lambda>_. []), fs_next = 1,
        fs_canonical = True, fs_pathId = 1, fs_handleId = 1\<rparr>,
      w_events = [\<lparr>ev_pre = id, ev_fault = Some EOther, ev_short = None\<rparr>], w_random = []\<rparr>) \<noteq> None"
proof -
  let ?w = "\<lparr>w_fs = \<lparr>fs_entries = [''a'' \<mapsto> FileNode 0, ''b'' \<mapsto> DirNode], fs_data = (\<lambda>_. []), fs_next = 1,
        fs_canonical = True, fs_pathId = 1, fs_handleId = 1\<rparr>,
      w_events = [\<lparr>ev_pre = id, ev_fault = Some EOther, ev_short = None\<rparr>], w_random = []\<rparr>"
  have "fst (sd_rename \<lparr>sd_identity = 1, sd_closed = False\<rparr> ''a'' ''b'' ?w) \<noteq> None"
    using rename_never_replaces [of ?w "''a''" "''b''" "\<lparr>sd_identity = 1, sd_closed = False\<rparr>"
        "fst (sd_rename \<lparr>sd_identity = 1, sd_closed = False\<rparr> ''a'' ''b'' ?w)"
        "snd (sd_rename \<lparr>sd_identity = 1, sd_closed = False\<rparr> ''a'' ''b'' ?w)"]
    by (simp add: quiet_def)
  then show ?thesis by (simp add: validGeneratedStagingName_def ContainsAny_def)
qed

text \<open>
  C22. An interrupted publication can be resumed: when \<^verbatim>\<open>rename\<close> fails half way for any pattern of
  failing calls (even when its rollback fails too), trying again once the calls succeed
  publishes the same file under the same name.
\<close>

theorem rename_resumes:
  assumes "quiet w" "sd_rename d old new w = (Some e, w1)" "fs_entries (w_fs w) new = None"
    and "fs_entries (w_fs w) old = Some (FileNode i)"
    and "validGeneratedStagingName old" "validGeneratedStagingName new" "old \<noteq> new"
    and "calm_world d w2" "w_fs w2 = w_fs w1"
  shows "\<exists>w3. sd_rename d old new w2 = (None, w3)
    \<and> fs_entries (w_fs w3) = (fs_entries (w_fs w))(new \<mapsto> FileNode i, old := None)
    \<and> fs_data (w_fs w3) = fs_data (w_fs w)"
proof -
  have "rename_post old new (w_fs w) (Some e) (w_fs w2)"
    using sd_rename_yields [OF assms(1), of d old new] assms(2,9) by simp
  then have "w_fs w2 = w_fs w \<or> w_fs w2 = (w_fs w)\<lparr>fs_entries := (fs_entries (w_fs w))(new \<mapsto> FileNode i)\<rparr>"
    using assms(3,4) by (auto simp: rename_post_def)
  then have "fs_entries (w_fs w2) old = Some (FileNode i)"
    "fs_entries (w_fs w2) new = None \<or> fs_entries (w_fs w2) new = Some (FileNode i)"
    "(fs_entries (w_fs w2))(new \<mapsto> FileNode i, old := None) = (fs_entries (w_fs w))(new \<mapsto> FileNode i, old := None)"
    "fs_data (w_fs w2) = fs_data (w_fs w)"
    using assms(3,4,7) by auto
  then show ?thesis using sd_rename_calm [OF assms(8,5,6,7)] by simp
qed

definition sample_names :: "string \<times> string" where
  "sample_names = (replicate 32 CHR ''a'' @ ''.partial'', replicate 32 CHR ''a'' @ ''.txt'')"

lemma sample_names_ok:
  "validGeneratedStagingName (fst sample_names)" "validGeneratedStagingName (snd sample_names)"
  "fst sample_names \<noteq> snd sample_names"
  by code_simp+

text \<open>The link succeeds, the removal of the partial name and then the rollback fail.\<close>

theorem rename_resumes_witness:
  "\<exists>e w1 w3. sd_rename \<lparr>sd_identity = 1, sd_closed = False\<rparr> (fst sample_names) (snd sample_names)
       \<lparr>w_fs = \<lparr>fs_entries = [fst sample_names \<mapsto> FileNode 0], fs_data = (\<lambda>_. [7]), fs_next = 1,
          fs_canonical = True, fs_pathId = 1, fs_handleId = 1\<rparr>,
        w_events = replicate 10 calm @ replicate 2 (calm\<lparr>ev_fault := Some EOther\<rparr>), w_random = []\<rparr> = (Some e, w1)
     \<and> fs_entries (w_fs w1) (snd sample_names) = Some (FileNode 0)
     \<and> sd_rename \<lparr>sd_identity = 1, sd_closed = False\<rparr> (fst sample_names) (snd sample_names)
         (w1\<lparr>w_events := []\<rparr>) = (None, w3) \<and> fs_entries (w_fs w3) = [snd sample_names \<mapsto> FileNode 0]"
proof -
  let ?d = "\<lparr>sd_identity = 1, sd_closed = False\<rparr>" and ?a = "fst sample_names" and ?b = "snd sample_names"
  let ?s = "\<lparr>fs_entries = [?a \<mapsto> FileNode 0], fs_data = (\<lambda>_. [7]), fs_next = 1,
          fs_canonical = True, fs_pathId = 1, fs_handleId = 1\<rparr>"
  let ?w = "\<lparr>w_fs = ?s, w_events = replicate 10 calm @ replicate 2 (calm\<lparr>ev_fault := Some EOther\<rparr>), w_random = []\<rparr>"
  let ?w1 = "\<lparr>w_fs = ?s\<lparr>fs_entries := [?a \<mapsto> FileNode 0, ?b \<mapsto> FileNode 0]\<rparr>, w_events = [], w_random = []\<rparr>"
  obtain e where e: "sd_rename ?d ?a ?b ?w = (Some e, ?w1)"
    using sample_names_ok
    by (simp add: sd_rename_def publish_def rollbackPublication_def removePublicationEntry_def os_eval
        SameFile_def numeral_eq_Suc)
  have "quiet ?w" by (simp add: quiet_def calm_def)
  from rename_resumes [OF this e _ _ sample_names_ok, of 0 ?w1] sample_names_ok(3) e
  show ?thesis by (auto simp: calm_world_def)
qed

end
