(* ===== verification/Aggregate_Quota.thy ===== *)
theory Aggregate_Quota
  imports Prelude
begin

text \<open>
  The byte ceiling shared by all transfer managers
  (\<^verbatim>\<open>src/internal/attachment/aggregate.go\<close>). The receiver may be nil, which disables the
  ceiling, so it is an option. Sums are 64-bit words and wrap as in Go.
\<close>

section \<open>Model\<close>

record AggregateTracker =
  ag_totalBytes :: u64
  ag_maxBytes :: u64

type_synonym aggregate = "AggregateTracker option"

datatype aggregate_error = ErrAggregateQuotaExceeded

abbreviation DefaultMaxAggregateBytes :: u64 where
  "DefaultMaxAggregateBytes \<equiv> 500 * 1024 * 1024"

definition NewAggregateTracker :: "u64 \<Rightarrow> aggregate" where
  "NewAggregateTracker maxBytes = Some \<lparr>ag_totalBytes = 0, ag_maxBytes = maxBytes\<rparr>"

definition NewDefaultAggregateTracker :: aggregate where
  "NewDefaultAggregateTracker = NewAggregateTracker DefaultMaxAggregateBytes"

definition ag_Reserve :: "u64 \<Rightarrow> aggregate \<Rightarrow> aggregate \<times> aggregate_error option" where
  "ag_Reserve n agg =
     (case agg of None \<Rightarrow> (agg, None)
      | Some t \<Rightarrow>
          (if ag_maxBytes t = 0 then (agg, None)
           else if ag_totalBytes t + n > ag_maxBytes t then (agg, Some ErrAggregateQuotaExceeded)
           else (Some (t\<lparr>ag_totalBytes := ag_totalBytes t + n\<rparr>), None)))"

definition ag_Release :: "u64 \<Rightarrow> aggregate \<Rightarrow> aggregate" where
  "ag_Release n agg =
     (case agg of None \<Rightarrow> agg
      | Some t \<Rightarrow>
          (if ag_maxBytes t = 0 then agg
           else if n \<le> ag_totalBytes t then Some (t\<lparr>ag_totalBytes := ag_totalBytes t - n\<rparr>)
           else Some (t\<lparr>ag_totalBytes := 0\<rparr>)))"

definition TotalBytes :: "aggregate \<Rightarrow> u64" where
  "TotalBytes agg = (case agg of None \<Rightarrow> 0 | Some t \<Rightarrow> ag_totalBytes t)"

definition MaxBytes :: "aggregate \<Rightarrow> u64" where
  "MaxBytes agg = (case agg of None \<Rightarrow> 0 | Some t \<Rightarrow> ag_maxBytes t)"

datatype ag_call = CReserve u64 | CRelease u64

fun ag_step :: "aggregate \<Rightarrow> ag_call \<Rightarrow> aggregate \<times> bool" where
  "ag_step agg (CReserve n) = (let (agg', e) = ag_Reserve n agg in (agg', e = None))"
| "ag_step agg (CRelease n) = (ag_Release n agg, True)"

section \<open>The ceiling\<close>

definition ag_inv :: "aggregate \<Rightarrow> bool" where
  "ag_inv agg \<longleftrightarrow> TotalBytes agg \<le> MaxBytes agg"

lemma MaxBytes_step [simp]: "MaxBytes (fst (ag_step agg c)) = MaxBytes agg"
  by (cases c) (auto simp: ag_Reserve_def ag_Release_def MaxBytes_def split: option.splits)

interpretation ag: step_machine ag_step ag_inv "\<lambda>_. True"
proof
  fix agg c
  assume "ag_inv agg"
  then show "ag_inv (fst (ag_step agg c))"
    by (cases c)
      (auto simp: ag_Reserve_def ag_Release_def ag_inv_def TotalBytes_def MaxBytes_def word_le_nat_alt word_less_nat_alt
        unat_diff_le [unfolded word_le_nat_alt] split: option.splits)
qed

text \<open>Balanced use: bytes are only released after they were reserved.\<close>

fun held :: "nat \<Rightarrow> ag_call list \<Rightarrow> bool list \<Rightarrow> nat" where
  "held h (CReserve n # cs) (ok # oks) = held (if ok then h + unat n else h) cs oks"
| "held h (CRelease n # cs) (ok # oks) = held (h - unat n) cs oks"
| "held h _ _ = h"

fun sizes_ok :: "u64 \<Rightarrow> ag_call \<Rightarrow> bool" where
  "sizes_ok mx (CReserve n) \<longleftrightarrow> unat mx + unat n < 2 ^ 64"
| "sizes_ok mx (CRelease n) \<longleftrightarrow> True"

lemma ag_step_held:
  assumes "ag_inv agg" "MaxBytes agg \<noteq> 0" "sizes_ok (MaxBytes agg) c"
  shows "unat (TotalBytes (fst (ag_step agg c))) = held (unat (TotalBytes agg)) [c] [snd (ag_step agg c)]"
proof (cases c)
  case (CReserve n)
  obtain t where t: "agg = Some t" using assms(2) by (cases agg) (auto simp: MaxBytes_def)
  have "unat (ag_totalBytes t) \<le> unat (ag_maxBytes t)"
    using assms(1) t by (simp add: ag_inv_def TotalBytes_def MaxBytes_def word_le_nat_alt)
  then have "unat (ag_totalBytes t + n) = unat (ag_totalBytes t) + unat n"
    using assms(3) CReserve t by (intro unat_add_noo) (simp add: MaxBytes_def)
  then show ?thesis
    using assms(2) CReserve t by (simp add: ag_Reserve_def TotalBytes_def MaxBytes_def)
next
  case (CRelease n)
  obtain t where t: "agg = Some t" using assms(2) by (cases agg) (auto simp: MaxBytes_def)
  then show ?thesis
    using assms(2) CRelease
    by (auto simp: ag_Release_def TotalBytes_def MaxBytes_def unat_diff_le word_le_nat_alt)
qed

lemma ag_run_held:
  "ag_inv agg \<Longrightarrow> MaxBytes agg \<noteq> 0 \<Longrightarrow> list_all (sizes_ok (MaxBytes agg)) cs \<Longrightarrow>
   unat (TotalBytes (fst (run ag_step agg cs))) =
     held (unat (TotalBytes agg)) cs (snd (run ag_step agg cs))"
proof (induction cs arbitrary: agg)
  case (Cons c cs)
  have "held h (c # cs) (ok # oks) = held (held h [c] [ok]) cs oks" for h ok oks
    by (cases c) simp_all
  then show ?case
    using Cons ag_step_held [of agg c] ag.step_inv [of agg c] by simp
qed simp

section \<open>Properties\<close>

text \<open>
  The tracker counts exactly and never exceeds its ceiling: after any sequence of
  reservations and releases its total is what the successful reservations took and the
  releases gave back (clamped at zero), and at most the ceiling, provided no requested size is
  so large that adding it to the ceiling overflows 64 bits.
\<close>

theorem aggregate_exact:
  assumes "mx \<noteq> 0" "list_all (sizes_ok mx) cs"
  defines "st \<equiv> run ag_step (NewAggregateTracker mx) cs"
  shows "unat (TotalBytes (fst st)) = held 0 cs (snd st) \<and> TotalBytes (fst st) \<le> mx"
proof -
  have new: "ag_inv (NewAggregateTracker mx)" "MaxBytes (NewAggregateTracker mx) = mx"
    "TotalBytes (NewAggregateTracker mx) = 0"
    by (simp_all add: NewAggregateTracker_def ag_inv_def TotalBytes_def MaxBytes_def)
  have "MaxBytes (fst (run ag_step agg cs)) = MaxBytes agg" for agg
    by (induction cs arbitrary: agg) simp_all
  moreover have "ag_inv (fst st)"
    using ag.run_inv [OF new(1)] by (simp add: st_def list.pred_True)
  ultimately show ?thesis
    using ag_run_held [OF new(1), of cs] assms(1,2) new by (simp add: st_def ag_inv_def)
qed

theorem aggregate_exact_witness:
  "unat (TotalBytes (fst (run ag_step (NewAggregateTracker 10) [CReserve 6, CReserve 6, CRelease 2]))) = 4"
  using aggregate_exact [of 10 "[CReserve 6, CReserve 6, CRelease 2]"]
  by (simp add: ag_Reserve_def ag_Release_def NewAggregateTracker_def)

end
