(* ===== verification/Transfer_Manager.thy ===== *)
theory Transfer_Manager
  imports File_Ops Aggregate_Quota
begin

text \<open>
  The transfer manager of one session (\<^verbatim>\<open>src/internal/attachment/transfer.go\<close>) with the
  bookkeeping of its staging directory (\<^verbatim>\<open>src/internal/attachment/staging.go\<close>), over the
  directory operations, the content policy, the streaming validator and the shared quota.

  The objects the manager shares with others (staging record, aggregate tracker, directory)
  are fields of one state \<open>tm\<close>. A hash in progress is the bytes written to it so far, and
  \<open>sha256\<close> is a parameter. The order in which \<^verbatim>\<open>Close\<close> visits its map of active transfers is an
  argument, since Go leaves it open. \<^verbatim>\<open>filepath.Rel\<close> and \<^verbatim>\<open>filepath.IsLocal\<close> are modelled for
  clean paths, where together they ask that the target lies below the base.
\<close>

section \<open>Data\<close>

abbreviation "maxTransferIDBytes \<equiv> 64 :: nat"
abbreviation "maxDisplayNameBytes \<equiv> 255 :: nat"
abbreviation "storageNameAttempts \<equiv> 4 :: nat"
abbreviation "contentSniffBytes \<equiv> 512 :: nat"
abbreviation "maxPromptActionAttachments \<equiv> 10 :: nat"
abbreviation "maxDiscardAttachments \<equiv> 10 :: nat"
abbreviation "maxCancelledOutcomes \<equiv> 256 :: nat"
abbreviation "sha256_Size \<equiv> 32 :: nat"

datatype transfer_error =
    ErrInvalidTransfer | ErrInvalidMetadata | ErrFileLimitExceeded | ContentUnsupported
  | ErrActiveTransferLimit | ErrSessionQuotaExceeded | AggregateQuotaExceeded | ErrTransferExists
  | ErrTransferNotFound | ErrChunkChecksumMismatch | ErrChunkOffsetMismatch | ErrChunkLimitExceeded
  | ErrTotalSizeMismatch | ErrTotalChecksumMismatch | ErrContentTypeMismatch | ErrManagerClosed
  | ErrInvalidAttachmentSelection | ErrAttachmentSelectionLimit | ErrDuplicateAttachment
  | ErrAttachmentNotCompleted | TransferMessage string | WrappedFile string file_error
  | JoinedErrors "transfer_error list"

record BeginRequest =
  br_TransferID :: bytes
  br_DisplayName :: string
  br_DeclaredContentType :: string
  br_DeclaredExtension :: string
  br_TotalSizeBytes :: u64
  br_TotalSHA256 :: bytes

record ChunkRequest =
  cr_TransferID :: bytes
  cr_OffsetBytes :: u64
  cr_Data :: bytes
  cr_ChunkSHA256 :: bytes

datatype TransferDisposition =
    TransferDispositionUnknown | TransferDispositionActive | TransferDispositionCompleted
  | TransferDispositionCancelled

record TransferOutcome =
  to_Disposition :: TransferDisposition
  to_NextOffsetBytes :: u64

record CompletedAttachment =
  ca_TransferID :: bytes
  ca_DisplayName :: string
  ca_RelativePath :: string
  ca_ContentType :: string
  ca_Extension :: string
  ca_SizeBytes :: u64
  ca_SHA256 :: bytes

record managerLimits =
  ml_maxFileBytes :: u64
  ml_maxSessionBytes :: u64
  ml_maxChunkBytes :: int
  ml_maxActive :: int

record activeTransfer =
  at_transferID :: bytes
  at_displayName :: string
  at_policy :: contentPolicy
  at_totalSize :: u64
  at_expectedSHA256 :: bytes
  at_receivedBytes :: u64
  at_hasher :: bytes
  at_sniff :: bytes
  at_text :: utf8StreamValidator
  at_storagePrefix :: string
  at_partialName :: string
  at_publicationAttempted :: bool

record SessionStaging =
  st_workspaceRoot :: string
  st_path :: string
  st_cleaned :: bool
  st_openDirectories :: int
  st_transferManagerOpen :: bool
  st_completedBytesReserved :: u64

record Manager =
  mg_directory :: stagingDirectory
  mg_limits :: managerLimits
  mg_active :: "bytes \<rightharpoonup> activeTransfer"
  mg_completed :: "bytes \<rightharpoonup> CompletedAttachment"
  mg_cancelled :: "bytes set"
  mg_cancelledOrder :: "bytes list"
  mg_reservedBytes :: u64
  mg_closing :: bool
  mg_closed :: bool

text \<open>The manager and what it points to.\<close>

record tm =
  tm_m :: Manager
  tm_staging :: SessionStaging
  tm_agg :: aggregate
  tm_w :: world

text \<open>The library functions the manager is parameterised with.\<close>

record libs =
  lb_sha256 :: "bytes \<Rightarrow> bytes"
  lb_parseMediaType :: media_parser
  lb_detectContentType :: "bytes \<Rightarrow> string"

section \<open>Staging bookkeeping\<close>

definition recordCompletedBytes :: "u64 \<Rightarrow> SessionStaging \<Rightarrow> SessionStaging" where
  "recordCompletedBytes sz s = s\<lparr>st_completedBytesReserved := st_completedBytesReserved s + sz\<rparr>"

definition releaseCompletedBytes :: "u64 \<Rightarrow> SessionStaging \<Rightarrow> SessionStaging" where
  "releaseCompletedBytes sz s =
     s\<lparr>st_completedBytesReserved :=
         (if sz \<le> st_completedBytesReserved s then st_completedBytesReserved s - sz else 0)\<rparr>"

definition claimTransferManager :: "SessionStaging \<Rightarrow> transfer_error option \<times> SessionStaging" where
  "claimTransferManager s =
     (if st_cleaned s then (Some (TransferMessage ''session staging is already cleaned''), s)
      else if st_transferManagerOpen s
      then (Some (TransferMessage ''session staging already has a transfer manager''), s)
      else (None, s\<lparr>st_transferManagerOpen := True\<rparr>))"

definition releaseTransferManager :: "SessionStaging \<Rightarrow> SessionStaging" where
  "releaseTransferManager s = s\<lparr>st_transferManagerOpen := False\<rparr>"

definition openStagingDirectory ::
  "SessionStaging \<Rightarrow> world \<Rightarrow> (file_error + stagingDirectory) \<times> SessionStaging \<times> world" where
  "openStagingDirectory s w =
     (if st_cleaned s then (Inl (FileError ''session staging is already cleaned''), s, w)
      else
      check (os_canonical w)
        (\<lambda>_ w. (Inl (FileError ''session staging boundary is no longer valid''), s, w)) (\<lambda>_ w.
      check (os_stat_root w)
        (\<lambda>e w. (Inl (PathError ''open session staging directory'' e), s, w)) (\<lambda>_ w.
      check (os_stat_root w)
        (\<lambda>e w. (Inl (PathError ''inspect opened session staging directory'' e), s, snd (os_close w))) (\<lambda>identity w.
      let directory = \<lparr>sd_identity = identity, sd_closed = False\<rparr> in
      case validateBoundDirectory directory w of
        (Some e, w) \<Rightarrow> (Inl e, s, snd (os_close w))
      | (None, w) \<Rightarrow>
          (case probeHardLinkPublication w of
             (Some e, w) \<Rightarrow> (Inl e, s, snd (os_close w))
           | (None, w) \<Rightarrow> (Inr directory, s\<lparr>st_openDirectories := st_openDirectories s + 1\<rparr>, w))))))"

definition sd_close ::
  "stagingDirectory \<Rightarrow> SessionStaging \<Rightarrow> world \<Rightarrow> file_error option \<times> stagingDirectory \<times> SessionStaging \<times> world" where
  "sd_close d s w =
     (if sd_closed d then (None, d, s, w)
      else
        (case os_close w of (r, w) \<Rightarrow>
         let d = d\<lparr>sd_closed := True\<rparr>;
             s = (if st_openDirectories s > 0 then s\<lparr>st_openDirectories := st_openDirectories s - 1\<rparr> else s) in
         case r of
           Inl e \<Rightarrow> (Some (PathError ''close session staging directory'' e), d, s, w)
         | Inr _ \<Rightarrow> (None, d, s, w)))"

section \<open>The manager\<close>

definition default_limits :: managerLimits where
  "default_limits = \<lparr>ml_maxFileBytes = 25 * 1024 * 1024, ml_maxSessionBytes = 100 * 1024 * 1024,
     ml_maxChunkBytes = 256 * 1024, ml_maxActive = 4\<rparr>"

definition newTransferManager ::
  "managerLimits \<Rightarrow> SessionStaging \<Rightarrow> world \<Rightarrow> (transfer_error + Manager) \<times> SessionStaging \<times> world" where
  "newTransferManager limits s w =
     (if ml_maxFileBytes limits = 0 \<or> ml_maxSessionBytes limits = 0 \<or> ml_maxFileBytes limits > 0x7FFFFFFFFFFFFFFF
         \<or> ml_maxChunkBytes limits \<le> 0 \<or> ml_maxActive limits \<le> 0
      then (Inl (TransferMessage ''attachment transfer limits are invalid''), s, w)
      else case claimTransferManager s of
        (Some e, s) \<Rightarrow> (Inl e, s, w)
      | (None, s) \<Rightarrow>
          (case openStagingDirectory s w of
             (Inl e, s, w) \<Rightarrow>
               (Inl (WrappedFile ''open attachment transfer storage'' e), releaseTransferManager s, w)
           | (Inr directory, s, w) \<Rightarrow>
               (Inr \<lparr>mg_directory = directory, mg_limits = limits, mg_active = Map.empty,
                     mg_completed = Map.empty, mg_cancelled = {}, mg_cancelledOrder = [],
                     mg_reservedBytes = st_completedBytesReserved s, mg_closing = False, mg_closed = False\<rparr>,
                s, w)))"

definition NewManager :: "SessionStaging \<Rightarrow> world \<Rightarrow> (transfer_error + Manager) \<times> SessionStaging \<times> world" where
  "NewManager s w = newTransferManager default_limits s w"

definition validTransferID :: "bytes \<Rightarrow> bool" where
  "validTransferID transferID \<longleftrightarrow> length transferID > 0 \<and> length transferID \<le> maxTransferIDBytes"

definition validDisplayName :: "string \<Rightarrow> bool" where
  "validDisplayName name =
     (if name = '''' \<or> length name > maxDisplayNameBytes \<or> \<not> valid_string name then False
      else list_all (\<lambda>r. \<not> category_C r) (runes (string_bytes name)))"

definition equalHash :: "bytes \<Rightarrow> bytes \<Rightarrow> bool" where
  "equalHash left right \<longleftrightarrow> length left = sha256_Size \<and> length right = sha256_Size \<and> left = right"

fun createPartialLocked :: "nat \<Rightarrow> stagingDirectory \<Rightarrow> world \<Rightarrow> (transfer_error + string \<times> string) \<times> world" where
  "createPartialLocked 0 d w = (Inl (TransferMessage ''create unique attachment partial failed''), w)"
| "createPartialLocked (Suc n) d w =
     (case generatedStoragePrefix w of
        (Inl e, w) \<Rightarrow> (Inl (WrappedFile '''' e), w)
      | (Inr prefix, w) \<Rightarrow>
          (let name = prefix @ ''.partial'' in
           case sd_create d name w of
             (Some e, w) \<Rightarrow>
               (if is_exist e then createPartialLocked n d w
                else (Inl (WrappedFile ''create attachment partial'' e), w))
           | (None, w) \<Rightarrow> (Inr (prefix, name), w)))"

definition releaseActiveLocked :: "bytes \<Rightarrow> activeTransfer \<Rightarrow> tm \<Rightarrow> tm" where
  "releaseActiveLocked key t st =
     (let m = tm_m st in
      st\<lparr>tm_m := m\<lparr>mg_active := (mg_active m)(key := None),
                   mg_reservedBytes := (if at_totalSize t \<le> mg_reservedBytes m
                     then mg_reservedBytes m - at_totalSize t else 0)\<rparr>,
         tm_agg := ag_Release (at_totalSize t) (tm_agg st)\<rparr>)"

definition releaseCompletedLocked :: "u64 \<Rightarrow> tm \<Rightarrow> tm" where
  "releaseCompletedLocked sz st =
     (let m = tm_m st in
      st\<lparr>tm_m := m\<lparr>mg_reservedBytes := (if sz \<le> mg_reservedBytes m then mg_reservedBytes m - sz else 0)\<rparr>,
         tm_staging := releaseCompletedBytes sz (tm_staging st),
         tm_agg := ag_Release sz (tm_agg st)\<rparr>)"

definition failTransferLocked :: "bytes \<Rightarrow> activeTransfer \<Rightarrow> transfer_error \<Rightarrow> tm \<Rightarrow> transfer_error \<times> tm" where
  "failTransferLocked key t cause st =
     (case sd_remove (mg_directory (tm_m st)) (at_partialName t) (tm_w st) of
        (Some e, w) \<Rightarrow> (JoinedErrors [cause, WrappedFile ''remove rejected attachment partial'' e], st\<lparr>tm_w := w\<rparr>)
      | (None, w) \<Rightarrow> (cause, releaseActiveLocked key t (st\<lparr>tm_w := w\<rparr>)))"

definition abortAfterWriteFailureLocked ::
  "bytes \<Rightarrow> activeTransfer \<Rightarrow> file_error \<Rightarrow> tm \<Rightarrow> transfer_error \<times> tm" where
  "abortAfterWriteFailureLocked key t cause st =
     (case sd_remove (mg_directory (tm_m st)) (at_partialName t) (tm_w st) of
        (Some e, w) \<Rightarrow>
          (JoinedErrors [WrappedFile ''write attachment chunk'' cause,
             WrappedFile ''remove failed attachment partial'' e], st\<lparr>tm_w := w\<rparr>)
      | (None, w) \<Rightarrow> (WrappedFile ''write attachment chunk'' cause, releaseActiveLocked key t (st\<lparr>tm_w := w\<rparr>)))"

definition cleanupActiveTransferLocked :: "activeTransfer \<Rightarrow> tm \<Rightarrow> file_error option \<times> tm" where
  "cleanupActiveTransferLocked t st =
     (let d = mg_directory (tm_m st) in
      case (if at_publicationAttempted t
            then sd_removePublishedLink d (at_partialName t) (at_storagePrefix t @ cp_extension (at_policy t)) (tm_w st)
            else (None, tm_w st)) of
        (Some e, w) \<Rightarrow> (Some e, st\<lparr>tm_w := w\<rparr>)
      | (None, w) \<Rightarrow>
          (case sd_remove d (at_partialName t) w of (r, w) \<Rightarrow> (r, st\<lparr>tm_w := w\<rparr>)))"

text \<open>The checks of \<^verbatim>\<open>Begin\<close>, in order, up to the session quota.\<close>

definition begin_check :: "libs \<Rightarrow> BeginRequest \<Rightarrow> Manager \<Rightarrow> transfer_error + contentPolicy" where
  "begin_check lb request m =
     (let key = br_TransferID request; total = br_TotalSizeBytes request in
      if mg_closed m \<or> mg_closing m then Inl ErrManagerClosed
      else if \<not> validTransferID key \<or> length (br_TotalSHA256 request) \<noteq> sha256_Size then Inl ErrInvalidTransfer
      else if \<not> validDisplayName (br_DisplayName request) then Inl ErrInvalidMetadata
      else if total = 0 \<or> total > ml_maxFileBytes (mg_limits m) then Inl ErrFileLimitExceeded
      else case parseContentPolicy (lb_parseMediaType lb) (br_DeclaredExtension request) (br_DeclaredContentType request) of
        Inl _ \<Rightarrow> Inl ContentUnsupported
      | Inr policy \<Rightarrow>
          (if mg_active m key \<noteq> None then Inl ErrTransferExists
           else if mg_completed m key \<noteq> None then Inl ErrTransferExists
           else if int (card (dom (mg_active m))) \<ge> ml_maxActive (mg_limits m) then Inl ErrActiveTransferLimit
           else if mg_reservedBytes m > ml_maxSessionBytes (mg_limits m)
                   \<or> total > ml_maxSessionBytes (mg_limits m) - mg_reservedBytes m
           then Inl ErrSessionQuotaExceeded
           else Inr policy))"

definition new_transfer :: "BeginRequest \<Rightarrow> contentPolicy \<Rightarrow> string \<Rightarrow> string \<Rightarrow> activeTransfer" where
  "new_transfer request policy prefix partialName =
     \<lparr>at_transferID = br_TransferID request, at_displayName = br_DisplayName request, at_policy = policy,
      at_totalSize = br_TotalSizeBytes request, at_expectedSHA256 = br_TotalSHA256 request,
      at_receivedBytes = 0, at_hasher = [], at_sniff = [], at_text = newValidator,
      at_storagePrefix = prefix, at_partialName = partialName, at_publicationAttempted = False\<rparr>"

definition Begin :: "libs \<Rightarrow> BeginRequest \<Rightarrow> tm \<Rightarrow> transfer_error option \<times> tm" where
  "Begin lb request st =
     (let m = tm_m st; total = br_TotalSizeBytes request in
      case begin_check lb request m of
        Inl e \<Rightarrow> (Some e, st)
      | Inr policy \<Rightarrow>
          (case ag_Reserve total (tm_agg st) of
             (agg, Some _) \<Rightarrow> (Some AggregateQuotaExceeded, st\<lparr>tm_agg := agg\<rparr>)
           | (agg, None) \<Rightarrow>
               (case createPartialLocked storageNameAttempts (mg_directory m) (tm_w st) of
                  (Inl e, w) \<Rightarrow> (Some e, st\<lparr>tm_agg := agg, tm_w := w\<rparr>)
                | (Inr (prefix, partialName), w) \<Rightarrow>
                    (None, st\<lparr>tm_m := m\<lparr>mg_active := (mg_active m)(br_TransferID request \<mapsto>
                                           new_transfer request policy prefix partialName),
                                        mg_reservedBytes := mg_reservedBytes m + total\<rparr>,
                              tm_agg := agg, tm_w := w\<rparr>))))"

definition absorb :: "bytes \<Rightarrow> activeTransfer \<Rightarrow> activeTransfer" where
  "absorb data t =
     t\<lparr>at_hasher := at_hasher t @ data,
       at_sniff := (if contentSniffBytes - length (at_sniff t) > 0
                    then at_sniff t @ take (min (contentSniffBytes - length (at_sniff t)) (length data)) data
                    else at_sniff t),
       at_text := (if cp_text (at_policy t) then us_Write data (at_text t) else at_text t),
       at_receivedBytes := at_receivedBytes t + of_nat (length data)\<rparr>"

definition Chunk :: "libs \<Rightarrow> ChunkRequest \<Rightarrow> tm \<Rightarrow> transfer_error option \<times> tm" where
  "Chunk lb request st =
     (let m = tm_m st; key = cr_TransferID request; data = cr_Data request in
      if mg_closed m \<or> mg_closing m then (Some ErrManagerClosed, st)
      else if \<not> validTransferID key \<or> length (cr_ChunkSHA256 request) \<noteq> sha256_Size \<or> length data = 0
      then (Some ErrInvalidTransfer, st)
      else case mg_active m key of
        None \<Rightarrow> (Some ErrTransferNotFound, st)
      | Some t \<Rightarrow>
          (if int (length data) > ml_maxChunkBytes (mg_limits m) then (Some ErrChunkLimitExceeded, st)
           else if cr_OffsetBytes request \<noteq> at_receivedBytes t then (Some ErrChunkOffsetMismatch, st)
           else if of_nat (length data) > at_totalSize t - at_receivedBytes t then (Some ErrTotalSizeMismatch, st)
           else if \<not> equalHash (lb_sha256 lb data) (cr_ChunkSHA256 request) then (Some ErrChunkChecksumMismatch, st)
           else case sd_writeAt (mg_directory m) (at_partialName t) (sint (cr_OffsetBytes request)) data (tm_w st) of
             (Some e, w) \<Rightarrow>
               (case abortAfterWriteFailureLocked key t e (st\<lparr>tm_w := w\<rparr>) of (err, st) \<Rightarrow> (Some err, st))
           | (None, w) \<Rightarrow>
               (None, st\<lparr>tm_m := m\<lparr>mg_active := (mg_active m)(key \<mapsto> absorb data t)\<rparr>, tm_w := w\<rparr>)))"

definition Join :: "string \<Rightarrow> string \<Rightarrow> string" where
  "Join a b = a @ ''/'' @ b"

definition Rel_local :: "string \<Rightarrow> string \<Rightarrow> string option" where
  "Rel_local base target =
     (if has_prefix target (base @ ''/'') then Some (drop (length base + 1) target) else None)"

definition Base :: "string \<Rightarrow> string" where
  "Base p = rev (takeWhile (\<lambda>c. c \<noteq> CHR ''/'') (rev p))"

definition finalName :: "activeTransfer \<Rightarrow> string" where
  "finalName t = at_storagePrefix t @ cp_extension (at_policy t)"

definition Complete :: "libs \<Rightarrow> bytes \<Rightarrow> tm \<Rightarrow> (transfer_error + CompletedAttachment) \<times> tm" where
  "Complete lb key st =
     (let m = tm_m st in
      if mg_closed m \<or> mg_closing m then (Inl ErrManagerClosed, st)
      else if \<not> validTransferID key then (Inl ErrInvalidTransfer, st)
      else case mg_completed m key of
        Some c \<Rightarrow> (Inr c, st)
      | None \<Rightarrow>
        (case mg_active m key of
           None \<Rightarrow> (Inl ErrTransferNotFound, st)
         | Some t \<Rightarrow>
           (if at_receivedBytes t \<noteq> at_totalSize t
            then (case failTransferLocked key t ErrTotalSizeMismatch st of (e, st) \<Rightarrow> (Inl e, st))
            else
            (let actualHash = lb_sha256 lb (at_hasher t) in
             if \<not> equalHash actualHash (at_expectedSHA256 t)
             then (case failTransferLocked key t ErrTotalChecksumMismatch st of (e, st) \<Rightarrow> (Inl e, st))
             else if \<not> matchesBytes (lb_parseMediaType lb) (lb_detectContentType lb) (at_policy t) (at_sniff t)
                         (at_totalSize t) (us_Valid (at_text t))
             then (case failTransferLocked key t ErrContentTypeMismatch st of (e, st) \<Rightarrow> (Inl e, st))
             else
               (case Rel_local (st_workspaceRoot (tm_staging st)) (Join (st_path (tm_staging st)) (finalName t)) of
                  None \<Rightarrow> (Inl (TransferMessage ''build published attachment reference failed''), st)
                | Some relativePath \<Rightarrow>
                    (let t = t\<lparr>at_publicationAttempted := True\<rparr>;
                         m = m\<lparr>mg_active := (mg_active m)(key \<mapsto> t)\<rparr> in
                     case sd_rename (mg_directory m) (at_partialName t) (finalName t) (tm_w st) of
                       (Some e, w) \<Rightarrow> (Inl (WrappedFile ''publish verified attachment'' e), st\<lparr>tm_m := m, tm_w := w\<rparr>)
                     | (None, w) \<Rightarrow>
                         (let c = \<lparr>ca_TransferID = at_transferID t, ca_DisplayName = at_displayName t,
                                   ca_RelativePath = relativePath, ca_ContentType = cp_contentType (at_policy t),
                                   ca_Extension = cp_extension (at_policy t), ca_SizeBytes = at_totalSize t,
                                   ca_SHA256 = actualHash\<rparr> in
                          (Inr c, st\<lparr>tm_m := m\<lparr>mg_active := (mg_active m)(key := None),
                                              mg_completed := (mg_completed m)(key \<mapsto> c)\<rparr>,
                                     tm_staging := recordCompletedBytes (at_totalSize t) (tm_staging st),
                                     tm_w := w\<rparr>))))))))"

definition Outcome :: "bytes \<Rightarrow> tm \<Rightarrow> transfer_error + TransferOutcome" where
  "Outcome key st =
     (let m = tm_m st in
      if mg_closed m \<or> mg_closing m then Inl ErrManagerClosed
      else if \<not> validTransferID key then Inl ErrInvalidTransfer
      else case mg_active m key of
        Some t \<Rightarrow> Inr \<lparr>to_Disposition = TransferDispositionActive, to_NextOffsetBytes = at_receivedBytes t\<rparr>
      | None \<Rightarrow>
          (if mg_completed m key \<noteq> None
           then Inr \<lparr>to_Disposition = TransferDispositionCompleted, to_NextOffsetBytes = 0\<rparr>
           else if key \<in> mg_cancelled m
           then Inr \<lparr>to_Disposition = TransferDispositionCancelled, to_NextOffsetBytes = 0\<rparr>
           else Inr \<lparr>to_Disposition = TransferDispositionUnknown, to_NextOffsetBytes = 0\<rparr>))"

text \<open>The validation loop that \<^verbatim>\<open>CompletedAttachments\<close> and \<^verbatim>\<open>Discard\<close> share.\<close>

fun selection_error :: "bytes set \<Rightarrow> bytes list \<Rightarrow> transfer_error option" where
  "selection_error seen [] = None"
| "selection_error seen (key # keys) =
     (if \<not> validTransferID key then Some ErrInvalidTransfer
      else if key \<in> seen then Some ErrDuplicateAttachment
      else selection_error (insert key seen) keys)"

fun collect_completed :: "(bytes \<rightharpoonup> CompletedAttachment) \<Rightarrow> bytes list \<Rightarrow> transfer_error + CompletedAttachment list" where
  "collect_completed cs [] = Inr []"
| "collect_completed cs (key # keys) =
     (case cs key of
        None \<Rightarrow> Inl ErrAttachmentNotCompleted
      | Some c \<Rightarrow> (case collect_completed cs keys of Inl e \<Rightarrow> Inl e | Inr rest \<Rightarrow> Inr (c # rest)))"

definition CompletedAttachments :: "bytes list \<Rightarrow> tm \<Rightarrow> transfer_error + CompletedAttachment list" where
  "CompletedAttachments keys st =
     (let m = tm_m st in
      if mg_closed m \<or> mg_closing m then Inl ErrManagerClosed
      else if length keys = 0 then Inl ErrInvalidAttachmentSelection
      else if length keys > maxPromptActionAttachments then Inl ErrAttachmentSelectionLimit
      else case selection_error {} keys of
        Some e \<Rightarrow> Inl e
      | None \<Rightarrow> collect_completed (mg_completed m) keys)"

definition recordCancelledLocked :: "bytes \<Rightarrow> tm \<Rightarrow> tm" where
  "recordCancelledLocked key st =
     (let m = tm_m st;
          m = (if key \<in> mg_cancelled m then m\<lparr>mg_cancelledOrder := remove1 key (mg_cancelledOrder m)\<rparr>
               else m\<lparr>mg_cancelled := insert key (mg_cancelled m)\<rparr>);
          m = m\<lparr>mg_cancelledOrder := mg_cancelledOrder m @ [key]\<rparr> in
      if length (mg_cancelledOrder m) \<le> maxCancelledOutcomes then st\<lparr>tm_m := m\<rparr>
      else st\<lparr>tm_m := m\<lparr>mg_cancelledOrder := tl (mg_cancelledOrder m),
                         mg_cancelled := mg_cancelled m - {hd (mg_cancelledOrder m)}\<rparr>\<rparr>)"

text \<open>One iteration of the second loop of \<^verbatim>\<open>Discard\<close>.\<close>

definition discard_active :: "bytes \<Rightarrow> tm \<Rightarrow> transfer_error option \<times> tm" where
  "discard_active key st =
     (case mg_active (tm_m st) key of
        None \<Rightarrow> (None, st)
      | Some t \<Rightarrow>
          (case cleanupActiveTransferLocked t st of
             (Some e, st) \<Rightarrow> (Some (WrappedFile ''discard active attachment transfer'' e), st)
           | (None, st) \<Rightarrow> (None, releaseActiveLocked key t st)))"

definition discard_completed :: "bytes \<Rightarrow> tm \<Rightarrow> transfer_error option \<times> tm" where
  "discard_completed key st =
     (case mg_completed (tm_m st) key of
        None \<Rightarrow> (None, st)
      | Some c \<Rightarrow>
          (case sd_remove (mg_directory (tm_m st)) (Base (ca_RelativePath c)) (tm_w st) of
             (Some e, w) \<Rightarrow> (Some (WrappedFile ''discard completed attachment transfer'' e), st\<lparr>tm_w := w\<rparr>)
           | (None, w) \<Rightarrow>
               (None, releaseCompletedLocked (ca_SizeBytes c)
                  (st\<lparr>tm_m := (tm_m st)\<lparr>mg_completed := (mg_completed (tm_m st))(key := None)\<rparr>, tm_w := w\<rparr>))))"

fun discard_loop :: "bytes list \<Rightarrow> tm \<Rightarrow> transfer_error option \<times> tm" where
  "discard_loop [] st = (None, st)"
| "discard_loop (key # keys) st =
     (case discard_active key st of
        (Some e, st) \<Rightarrow> (Some e, st)
      | (None, st) \<Rightarrow>
          (case discard_completed key st of
             (Some e, st) \<Rightarrow> (Some e, st)
           | (None, st) \<Rightarrow> discard_loop keys (recordCancelledLocked key st)))"

definition Discard :: "bytes list \<Rightarrow> tm \<Rightarrow> transfer_error option \<times> tm" where
  "Discard keys st =
     (let m = tm_m st in
      if mg_closed m \<or> mg_closing m then (Some ErrManagerClosed, st)
      else if length keys = 0 then (Some ErrInvalidAttachmentSelection, st)
      else if length keys > maxDiscardAttachments then (Some ErrAttachmentSelectionLimit, st)
      else case selection_error {} keys of
        Some e \<Rightarrow> (Some e, st)
      | None \<Rightarrow> discard_loop keys st)"

definition tm_Cancel :: "bytes \<Rightarrow> tm \<Rightarrow> transfer_error option \<times> tm" where
  "tm_Cancel key st =
     (let m = tm_m st in
      if mg_closed m \<or> mg_closing m then (Some ErrManagerClosed, st)
      else if \<not> validTransferID key then (Some ErrInvalidTransfer, st)
      else if mg_completed m key \<noteq> None then (None, st)
      else case mg_active m key of
        None \<Rightarrow> (None, recordCancelledLocked key st)
      | Some t \<Rightarrow>
          (case cleanupActiveTransferLocked t st of
             (Some e, st) \<Rightarrow> (Some (WrappedFile ''cancel attachment transfer'' e), st)
           | (None, st) \<Rightarrow> (None, recordCancelledLocked key (releaseActiveLocked key t st))))"

text \<open>\<^verbatim>\<open>Close\<close>: \<open>order\<close> is the order in which the runtime enumerates the active transfers.\<close>

fun close_loop :: "bytes list \<Rightarrow> transfer_error list \<Rightarrow> tm \<Rightarrow> transfer_error list \<times> tm" where
  "close_loop [] errs st = (errs, st)"
| "close_loop (key # keys) errs st =
     (case mg_active (tm_m st) key of
        None \<Rightarrow> close_loop keys errs st
      | Some t \<Rightarrow>
          (case cleanupActiveTransferLocked t st of
             (Some e, st) \<Rightarrow> close_loop keys (errs @ [WrappedFile ''remove active attachment transfer'' e]) st
           | (None, st) \<Rightarrow> close_loop keys errs (releaseActiveLocked key t st)))"

definition tm_Close :: "bytes list \<Rightarrow> tm \<Rightarrow> transfer_error option \<times> tm" where
  "tm_Close order st =
     (if mg_closed (tm_m st) then (None, st)
      else
        (case close_loop order [] (st\<lparr>tm_m := (tm_m st)\<lparr>mg_closing := True\<rparr>\<rparr>) of (errs, st) \<Rightarrow>
         if length errs > 0 then (Some (JoinedErrors errs), st)
         else
           (let agg = ag_Release (mg_reservedBytes (tm_m st)) (tm_agg st) in
            case sd_close (mg_directory (tm_m st)) (tm_staging st) (tm_w st) of (e, d, s, w) \<Rightarrow>
            (map_option (WrappedFile '''') e,
             st\<lparr>tm_m := (tm_m st)\<lparr>mg_directory := d, mg_closed := True, mg_closing := False\<rparr>,
                tm_staging := releaseTransferManager s, tm_agg := agg, tm_w := w\<rparr>))))"

text \<open>
  \<^verbatim>\<open>NewManagerWithAggregate\<close>: when the inherited bytes do not fit, the manager is closed, and
  that close releases from the aggregate what was never reserved.
\<close>

definition NewManagerWithAggregate ::
  "aggregate \<Rightarrow> SessionStaging \<Rightarrow> world \<Rightarrow> (transfer_error + tm) \<times> aggregate \<times> SessionStaging \<times> world" where
  "NewManagerWithAggregate agg s w =
     (case newTransferManager default_limits s w of
        (Inl e, s, w) \<Rightarrow> (Inl e, agg, s, w)
      | (Inr m, s, w) \<Rightarrow>
          (case ag_Reserve (st_completedBytesReserved s) agg of
             (agg, None) \<Rightarrow> (Inr \<lparr>tm_m = m, tm_staging = s, tm_agg = agg, tm_w = w\<rparr>, agg, s, w)
           | (agg, Some _) \<Rightarrow>
               (case tm_Close [] \<lparr>tm_m = m, tm_staging = s, tm_agg = agg, tm_w = w\<rparr> of (_, st) \<Rightarrow>
                (Inl AggregateQuotaExceeded, tm_agg st, tm_staging st, tm_w st))))"

section \<open>What the staging directory holds\<close>

definition active_file :: "activeTransfer \<Rightarrow> fs \<Rightarrow> bool" where
  "active_file t s \<longleftrightarrow>
     (\<exists>i. fs_entries s (at_partialName t) = Some (FileNode i) \<and> length (at_hasher t) \<le> length (fs_data s i)
        \<and> take (length (at_hasher t)) (fs_data s i) = at_hasher t \<and> length (fs_data s i) \<le> unat (at_totalSize t))"

definition completed_file :: "(bytes \<Rightarrow> bytes) \<Rightarrow> CompletedAttachment \<Rightarrow> fs \<Rightarrow> bool" where
  "completed_file sha c s \<longleftrightarrow>
     (\<exists>i. fs_entries s (Base (ca_RelativePath c)) = Some (FileNode i)
        \<and> length (fs_data s i) = unat (ca_SizeBytes c) \<and> sha (fs_data s i) = ca_SHA256 c)"

text \<open>The directory entry that belongs to a transfer ID.\<close>

definition name_of :: "Manager \<Rightarrow> bytes \<Rightarrow> string option" where
  "name_of m k = (case mg_active m k of Some t \<Rightarrow> Some (at_partialName t)
     | None \<Rightarrow> map_option (\<lambda>c. Base (ca_RelativePath c)) (mg_completed m k))"

definition fs_wf :: "fs \<Rightarrow> bool" where
  "fs_wf s \<longleftrightarrow> (\<forall>n i. fs_entries s n = Some (FileNode i) \<longrightarrow> i < fs_next s)"

definition store_ok :: "(bytes \<Rightarrow> bytes) \<Rightarrow> Manager \<Rightarrow> fs \<Rightarrow> bool" where
  "store_ok sha m s \<longleftrightarrow> fs_wf s
     \<and> (\<forall>k t. mg_active m k = Some t \<longrightarrow> active_file t s \<and> mg_completed m k = None)
     \<and> (\<forall>k c. mg_completed m k = Some c \<longrightarrow> completed_file sha c s)
     \<and> (\<forall>k k' n n'. k \<noteq> k' \<and> name_of m k = Some n \<and> name_of m k' = Some n' \<longrightarrow> fs_entries s n \<noteq> fs_entries s n')"

lemma store_ok_entry:
  assumes "store_ok sha m s" "name_of m k = Some n"
  shows "\<exists>i. fs_entries s n = Some (FileNode i) \<and> i < fs_next s"
proof -
  have "\<exists>i. fs_entries s n = Some (FileNode i)"
  proof (cases "mg_active m k")
    case None
    then obtain c where "mg_completed m k = Some c" "n = Base (ca_RelativePath c)"
      using assms(2) by (auto simp: name_of_def)
    then show ?thesis using assms(1) by (force simp: store_ok_def completed_file_def)
  next
    case (Some t)
    then show ?thesis using assms by (force simp: store_ok_def name_of_def active_file_def)
  qed
  then show ?thesis using assms(1) by (auto simp: store_ok_def fs_wf_def)
qed

text \<open>A change of the directory that leaves the entries and files of all transfers alone.\<close>

lemma store_ok_frame:
  assumes ok: "store_ok sha m s" and wf: "fs_wf s'"
    and e: "\<And>k n. name_of m k = Some n \<Longrightarrow> fs_entries s' n = fs_entries s n"
    and d: "\<And>k n i. name_of m k = Some n \<Longrightarrow> fs_entries s n = Some (FileNode i) \<Longrightarrow> fs_data s' i = fs_data s i"
  shows "store_ok sha m s'"
  unfolding store_ok_def
proof (intro conjI allI impI)
  fix k t assume t: "mg_active m k = Some t"
  then have n: "name_of m k = Some (at_partialName t)" by (simp add: name_of_def)
  show "active_file t s'"
    using ok t e [OF n] d [OF n] unfolding store_ok_def active_file_def by metis
  show "mg_completed m k = None" using ok t by (simp add: store_ok_def)
next
  fix k c assume c: "mg_completed m k = Some c"
  then have "mg_active m k = None" using ok by (force simp: store_ok_def)
  then have n: "name_of m k = Some (Base (ca_RelativePath c))" using c by (simp add: name_of_def)
  show "completed_file sha c s'"
    using ok c e [OF n] d [OF n] unfolding store_ok_def completed_file_def by metis
next
  fix k k' n n' assume "k \<noteq> k' \<and> name_of m k = Some n \<and> name_of m k' = Some n'"
  then show "fs_entries s' n \<noteq> fs_entries s' n'"
    using ok e unfolding store_ok_def by metis
qed (rule wf)

lemma fs_wf_simps [simp]:
  "fs_wf s \<Longrightarrow> fs_wf (removed n s)" "fs_wf s \<Longrightarrow> fs_wf (created n s)" "fs_wf s \<Longrightarrow> fs_wf (written i off d s)"
  by (auto simp: fs_wf_def removed_def created_def written_def less_Suc_eq)

lemma store_ok_created:
  assumes "store_ok sha m s" "fs_entries s n = None"
  shows "store_ok sha m (created n s)" "store_ok sha m (removed n (created n s))"
proof -
  have wf: "fs_wf s" using assms by (simp add: store_ok_def)
  have ne: "n' \<noteq> n \<and> (\<exists>i. fs_entries s n' = Some (FileNode i) \<and> i < fs_next s)" if "name_of m k = Some n'" for k n'
    using store_ok_entry [OF assms(1) that] assms(2) by auto
  have e: "fs_entries (created n s) n' = fs_entries s n' \<and> fs_entries (removed n (created n s)) n' = fs_entries s n'"
    if "name_of m k = Some n'" for k n'
    using ne [OF that] by (simp add: created_def removed_def)
  have d: "fs_data (created n s) i = fs_data s i \<and> fs_data (removed n (created n s)) i = fs_data s i"
    if "name_of m k = Some n'" "fs_entries s n' = Some (FileNode i)" for k n' i
    using ne [OF that(1)] that(2) by (auto simp: created_def removed_def)
  show "store_ok sha m (created n s)"
    by (rule store_ok_frame [OF assms(1)]) (simp add: wf, simp add: e, simp add: d)
  show "store_ok sha m (removed n (created n s))"
    by (rule store_ok_frame [OF assms(1)]) (simp add: wf, simp add: e, simp add: d)
qed

text \<open>Forgetting a transfer, with or without its directory entry.\<close>

lemma store_ok_distinct:
  "store_ok sha m s \<Longrightarrow> k \<noteq> k' \<Longrightarrow> name_of m k = Some n \<Longrightarrow> name_of m k' = Some n' \<Longrightarrow> fs_entries s n \<noteq> fs_entries s n'"
  unfolding store_ok_def by blast

lemma store_ok_disjoint: "store_ok sha m s \<Longrightarrow> mg_completed m k = Some c \<Longrightarrow> mg_active m k = None"
  by (cases "mg_active m k") (force simp: store_ok_def)+

lemma name_of_sub:
  assumes "store_ok sha m s" "name_of m' k = Some n"
    and "\<And>t. mg_active m' k = Some t \<Longrightarrow> mg_active m k = Some t"
    and "\<And>c. mg_completed m' k = Some c \<Longrightarrow> mg_completed m k = Some c"
  shows "name_of m k = Some n"
proof (cases "mg_active m' k")
  case None
  then obtain c where c: "mg_completed m' k = Some c" "n = Base (ca_RelativePath c)"
    using assms(2) by (auto simp: name_of_def)
  then show ?thesis
    using assms(4) store_ok_disjoint [OF assms(1)] by (simp add: name_of_def)
next
  case (Some t)
  then show ?thesis using assms(2,3) by (simp add: name_of_def)
qed

lemma store_ok_sub:
  assumes ok: "store_ok sha m s"
    and a: "\<And>k t. mg_active m' k = Some t \<Longrightarrow> mg_active m k = Some t"
    and c: "\<And>k c. mg_completed m' k = Some c \<Longrightarrow> mg_completed m k = Some c"
  shows "store_ok sha m' s"
  unfolding store_ok_def
proof (intro conjI allI impI)
  show "fs_wf s" using ok by (simp add: store_ok_def)
next
  fix k t assume t: "mg_active m' k = Some t"
  then show "active_file t s" using ok a [OF t] by (simp add: store_ok_def)
  show "mg_completed m' k = None"
    using a [OF t] c [of k] store_ok_disjoint [OF ok, of k] by (cases "mg_completed m' k") auto
next
  fix k d assume "mg_completed m' k = Some d"
  then have "mg_completed m k = Some d" by (rule c)
  then show "completed_file sha d s" using ok by (simp add: store_ok_def)
next
  fix k k' n n' assume "k \<noteq> k' \<and> name_of m' k = Some n \<and> name_of m' k' = Some n'"
  moreover from this have "name_of m k = Some n" "name_of m k' = Some n'"
    using name_of_sub [OF ok _ a c] by blast+
  ultimately show "fs_entries s n \<noteq> fs_entries s n'" using store_ok_distinct [OF ok] by blast
qed

lemma store_ok_remove:
  assumes ok: "store_ok sha m s" and n: "name_of m k = Some n"
    and a: "\<And>k' t. mg_active m' k' = Some t \<Longrightarrow> mg_active m k' = Some t \<and> k' \<noteq> k"
    and c: "\<And>k' c. mg_completed m' k' = Some c \<Longrightarrow> mg_completed m k' = Some c \<and> k' \<noteq> k"
  shows "store_ok sha m' (removed n s)"
proof -
  have ok': "store_ok sha m' s" using store_ok_sub [OF ok] a c by blast
  have ne: "n' \<noteq> n" if nm: "name_of m' k' = Some n'" for k' n'
  proof -
    have "k' \<noteq> k" using nm a c by (auto simp: name_of_def split: option.splits)
    moreover have "name_of m k' = Some n'" using name_of_sub [OF ok nm] a c by blast
    ultimately have "fs_entries s n' \<noteq> fs_entries s n" using store_ok_distinct [OF ok] n by blast
    then show ?thesis by blast
  qed
  show ?thesis
  proof (rule store_ok_frame [OF ok'])
    show "fs_wf (removed n s)" using ok by (simp add: store_ok_def)
  qed (use ne in \<open>auto simp: removed_def\<close>)
qed

text \<open>Writing a chunk into the file of one active transfer.\<close>

lemma overwrite_end:
  assumes "n \<le> length c"
  shows "take (n + length d) (overwrite n d c) = take n c @ d" "length (overwrite n d c) = max (length c) (n + length d)"
  using assms by (auto simp: overwrite_def)

lemma store_ok_written:
  assumes ok: "store_ok sha m s" and t: "mg_active m k = Some t"
    and i: "fs_entries s (at_partialName t) = Some (FileNode i)"
    and off: "nat off = length (at_hasher t)" and fits: "length (at_hasher t) + length d \<le> unat (at_totalSize t)"
  shows "store_ok sha m (written i off d s)"
    and "at_partialName t' = at_partialName t \<Longrightarrow> at_totalSize t' = at_totalSize t \<Longrightarrow> at_hasher t' = at_hasher t @ d
      \<Longrightarrow> store_ok sha (m\<lparr>mg_active := (mg_active m)(k \<mapsto> t')\<rparr>) (written i off d s)"
proof -
  let ?s = "written i off d s"
  have nk: "name_of m k = Some (at_partialName t)" using t by (simp add: name_of_def)
  have fl: "length (at_hasher t) \<le> length (fs_data s i)" "take (length (at_hasher t)) (fs_data s i) = at_hasher t"
    "length (fs_data s i) \<le> unat (at_totalSize t)"
    using ok t i by (force simp: store_ok_def active_file_def)+
  have data: "fs_data ?s i = overwrite (length (at_hasher t)) d (fs_data s i)" "j \<noteq> i \<Longrightarrow> fs_data ?s j = fs_data s j" for j
    using off by (simp_all add: written_def)
  have ent [simp]: "fs_entries ?s = fs_entries s" by (simp add: written_def)
  have len: "length (fs_data ?s i) \<le> unat (at_totalSize t)" "length (at_hasher t) + length d \<le> length (fs_data ?s i)"
    using fl fits by (simp_all add: data overwrite_end)
  have new: "take (length (at_hasher t) + length d) (fs_data ?s i) = at_hasher t @ d"
    using fl by (simp add: data overwrite_end)
  then have old: "take (length (at_hasher t)) (fs_data ?s i) = at_hasher t"
    by (metis append_eq_conv_conj append_take_drop_id le_add1 min.absorb1 take_take)
  have others: "fs_entries s n \<noteq> Some (FileNode i)" if "k' \<noteq> k" "name_of m k' = Some n" for k' n
    using store_ok_distinct [OF ok that(1) that(2) nk] i by simp
  have file': "active_file u ?s" if "mg_active m k' = Some u" "k' \<noteq> k" for k' u
  proof -
    have "name_of m k' = Some (at_partialName u)" using that by (simp add: name_of_def)
    then have "fs_entries s (at_partialName u) \<noteq> Some (FileNode i)" using others that by blast
    moreover have "active_file u s" using ok that by (simp add: store_ok_def)
    ultimately show ?thesis unfolding active_file_def using data(2) ent by metis
  qed
  have comp': "completed_file sha c ?s" if "mg_completed m k' = Some c" for k' c
  proof -
    have "k' \<noteq> k" using that t ok store_ok_disjoint by fastforce
    moreover have "name_of m k' = Some (Base (ca_RelativePath c))"
      using that store_ok_disjoint [OF ok that] by (simp add: name_of_def)
    ultimately have "fs_entries s (Base (ca_RelativePath c)) \<noteq> Some (FileNode i)" using others by blast
    moreover have "completed_file sha c s" using ok that by (simp add: store_ok_def)
    ultimately show ?thesis unfolding completed_file_def using data(2) ent by metis
  qed
  have wf: "fs_wf ?s" using ok by (simp add: store_ok_def)
  have own: "active_file t ?s" unfolding active_file_def using i len old ent by auto
  show "store_ok sha m ?s"
    unfolding store_ok_def
  proof (intro conjI allI impI)
    fix k' u assume "mg_active m k' = Some u"
    then show "active_file u ?s" using file' own t by (cases "k' = k") auto
    show "mg_completed m k' = None" using ok \<open>mg_active m k' = Some u\<close> by (simp add: store_ok_def)
  next
    fix k1 k2 n1 n2
    assume "k1 \<noteq> k2 \<and> name_of m k1 = Some n1 \<and> name_of m k2 = Some n2"
    then show "fs_entries ?s n1 \<noteq> fs_entries ?s n2" using store_ok_distinct [OF ok] unfolding ent by blast
  qed (use wf comp' in auto)
  let ?m = "m\<lparr>mg_active := (mg_active m)(k \<mapsto> t')\<rparr>"
  assume t': "at_partialName t' = at_partialName t" "at_totalSize t' = at_totalSize t" "at_hasher t' = at_hasher t @ d"
  have nm: "name_of ?m k' = name_of m k'" for k' using t t' by (simp add: name_of_def split: option.splits)
  show "store_ok sha ?m ?s"
    unfolding store_ok_def
  proof (intro conjI allI impI)
    fix k' u assume u: "mg_active ?m k' = Some u"
    show "active_file u ?s"
    proof (cases "k' = k")
      case True
      then show ?thesis unfolding active_file_def using u t' i len new by auto
    qed (use u file' in auto)
    show "mg_completed ?m k' = None" using ok t u by (auto simp: store_ok_def split: if_splits)
  next
    fix k1 k2 n1 n2
    assume "k1 \<noteq> k2 \<and> name_of ?m k1 = Some n1 \<and> name_of ?m k2 = Some n2"
    then show "fs_entries ?s n1 \<noteq> fs_entries ?s n2" using store_ok_distinct [OF ok] unfolding nm ent by blast
  qed (use wf comp' in auto)
qed

text \<open>Publication: the entry of a transfer moves to its final name.\<close>

lemma Base_no_slash: "CHR ''/'' \<notin> set b \<Longrightarrow> Base b = b"
proof -
  assume "CHR ''/'' \<notin> set b"
  then have "takeWhile (\<lambda>c. c \<noteq> CHR ''/'') (rev b) = rev b" by (auto simp: takeWhile_eq_all_conv)
  then show ?thesis by (metis Base_def rev_rev_ident)
qed

lemma Base_append: "Base (a @ CHR ''/'' # b) = Base b"
proof -
  have "takeWhile (\<lambda>c. c \<noteq> CHR ''/'') (xs @ CHR ''/'' # ys) = takeWhile (\<lambda>c. c \<noteq> CHR ''/'') xs" for xs ys
    by (induction xs) simp_all
  then show ?thesis by (simp add: Base_def)
qed

lemma Base_Rel_local:
  assumes "CHR ''/'' \<notin> set f" "Rel_local r (Join p f) = Some rel"
  shows "Base rel = f"
proof -
  have "take (length (r @ ''/'')) (Join p f) = r @ ''/''" "rel = drop (length (r @ ''/'')) (Join p f)"
    using assms(2) by (auto simp: Rel_local_def has_prefix_def split: if_splits)
  then have "Join p f = (r @ ''/'') @ rel" by (metis append_take_drop_id)
  then have "p @ CHR ''/'' # f = r @ CHR ''/'' # rel" by (simp add: Join_def)
  then show ?thesis using assms(1) by (metis Base_append Base_no_slash)
qed

lemma store_ok_rename_error:
  assumes ok: "store_ok sha m s" and t: "mg_active m k = Some t" and ne: "at_partialName t \<noteq> new"
    and post: "rename_post (at_partialName t) new s (Some e) s'"
  shows "store_ok sha m s'"
proof (cases "s' = s")
  case False
  then obtain i where i: "fs_entries s (at_partialName t) = Some (FileNode i)"
    and s': "fs_entries s new = None \<and> s' = s\<lparr>fs_entries := (fs_entries s)(new \<mapsto> FileNode i)\<rparr>
       \<or> fs_entries s new = Some (FileNode i) \<and> s' = removed new s"
    using post by (auto simp: rename_post_def)
  have nk: "name_of m k = Some (at_partialName t)" using t by (simp add: name_of_def)
  have "i < fs_next s" using ok i by (simp add: store_ok_def fs_wf_def)
  then have wf: "fs_wf s'" using ok s' by (auto simp: store_ok_def fs_wf_def removed_def split: if_splits)
  have "n \<noteq> new" if "name_of m k' = Some n" for k' n
  proof (cases "k' = k")
    case True
    then show ?thesis using that nk ne by simp
  next
    case False
    then have "fs_entries s n \<noteq> Some (FileNode i)" using store_ok_distinct [OF ok _ that nk] i by simp
    moreover have "fs_entries s n \<noteq> None" using store_ok_entry [OF ok that] by auto
    ultimately show ?thesis using s' by auto
  qed
  then show ?thesis
    using s' by (intro store_ok_frame [OF ok wf]) (auto simp: removed_def)
qed (use ok in simp)

lemma store_ok_published:
  assumes ok: "store_ok sha m s" and t: "mg_active m k = Some t" and ne: "at_partialName t \<noteq> new"
    and post: "rename_post (at_partialName t) new s None s'"
    and full: "length (at_hasher t) = unat (at_totalSize t)"
    and c: "Base (ca_RelativePath c) = new" "ca_SizeBytes c = at_totalSize t" "ca_SHA256 c = sha (at_hasher t)"
    and m': "mg_active m' = (mg_active m)(k := None)" "mg_completed m' = (mg_completed m)(k \<mapsto> c)"
  shows "store_ok sha m' s'"
proof -
  obtain i where i: "fs_entries s (at_partialName t) = Some (FileNode i)"
    and new: "fs_entries s new = None \<or> fs_entries s new = Some (FileNode i)"
    and s': "s' = s\<lparr>fs_entries := (fs_entries s)(new \<mapsto> FileNode i, at_partialName t := None)\<rparr>"
    using post by (auto simp: rename_post_def)
  let ?r = "m\<lparr>mg_active := (mg_active m)(k := None)\<rparr>"
  have nk: "name_of m k = Some (at_partialName t)" using t by (simp add: name_of_def)
  have okr: "store_ok sha ?r s" by (rule store_ok_sub [OF ok]) (auto split: if_splits)
  have key: "k' \<noteq> k \<and> name_of m k' = Some n \<and> fs_entries s n \<noteq> Some (FileNode i) \<and> n \<noteq> new \<and> n \<noteq> at_partialName t"
    if nm: "name_of ?r k' = Some n" for k' n
  proof -
    have "mg_completed m k = None" using ok t by (simp add: store_ok_def)
    then have "k' \<noteq> k" using nm by (auto simp: name_of_def)
    moreover have "name_of m k' = Some n" by (rule name_of_sub [OF ok nm]) (simp_all split: if_splits)
    moreover from calculation have "fs_entries s n \<noteq> Some (FileNode i)"
      using store_ok_distinct [OF ok _ _ nk] i by metis
    moreover have "fs_entries s n \<noteq> None" using store_ok_entry [OF okr nm] by auto
    ultimately show ?thesis using new i by auto
  qed
  have wf: "fs_wf s'" using ok i s' by (auto simp: store_ok_def fs_wf_def split: if_splits)
  have rest: "store_ok sha ?r s'"
  proof (rule store_ok_frame [OF okr wf])
    fix k' n assume nm: "name_of ?r k' = Some n"
    then show "fs_entries s' n = fs_entries s n" using key [OF nm] s' by simp
  qed (simp add: s')
  have "completed_file sha c s'"
  proof -
    have "active_file t s" using ok t by (simp add: store_ok_def)
    then have "take (length (at_hasher t)) (fs_data s i) = at_hasher t" "length (fs_data s i) \<le> unat (at_totalSize t)"
      using i unfolding active_file_def by (metis option.inject node.inject(1))+
    then have "fs_data s i = at_hasher t" using full by (metis take_all)
    then show ?thesis unfolding completed_file_def using c full ne s' by auto
  qed
  then show ?thesis
    unfolding store_ok_def
  proof (intro conjI allI impI)
    fix k1 k2 n1 n2 assume a: "k1 \<noteq> k2 \<and> name_of m' k1 = Some n1 \<and> name_of m' k2 = Some n2"
    have nm: "name_of m' j = (if j = k then Some new else name_of ?r j)" for j
      using c m' by (simp add: name_of_def split: option.splits)
    have entry: "fs_entries s' n = Some (FileNode i) \<longleftrightarrow> n = new" if "name_of m' j = Some n" for j n
      using key [of j n] that s' ne by (auto simp: nm split: if_splits)
    show "fs_entries s' n1 \<noteq> fs_entries s' n2"
    proof (cases "k1 = k \<or> k2 = k")
      case True
      then show ?thesis
        using a entry [of k1 n1] entry [of k2 n2] key [of k1 n1] key [of k2 n2] by (auto simp: nm)
    next
      case False
      then show ?thesis using a store_ok_distinct [OF rest] by (auto simp: nm)
    qed
  next
    fix j u assume "mg_active m' j = Some u"
    then show "active_file u s'" "mg_completed m' j = None"
      using rest m' by (auto simp: store_ok_def split: if_splits)
  next
    fix j d assume "mg_completed m' j = Some d"
    then show "completed_file sha d s'"
      using rest m' \<open>completed_file sha c s'\<close> by (auto simp: store_ok_def split: if_splits)
  qed (rule wf)
qed

text \<open>Withdrawing an interrupted publication.\<close>

lemma store_ok_unlink:
  assumes ok: "store_ok sha m s" and t: "mg_active m k = Some t" and ne: "at_partialName t \<noteq> dst"
    and post: "unlink_post (at_partialName t) dst s r s'"
  shows "store_ok sha m s'"
proof (cases "s' = s")
  case False
  then have s': "s' = removed dst s" and d: "fs_entries s dst = fs_entries s (at_partialName t)"
    using post by (auto simp: unlink_post_def)
  have nk: "name_of m k = Some (at_partialName t)" using t by (simp add: name_of_def)
  have "n \<noteq> dst" if "name_of m k' = Some n" for k' n
    using store_ok_distinct [OF ok _ that nk] that nk ne d by (cases "k' = k") auto
  then show ?thesis
    using s' ok by (intro store_ok_frame [OF ok]) (auto simp: store_ok_def, auto simp: removed_def)
qed (use ok in simp)

end
