(* ===== verification/Go_Paths.thy ===== *)
theory Go_Paths
  imports Go_Strings
begin

text \<open>
  What the components use of \<^verbatim>\<open>path/filepath\<close>: \<^verbatim>\<open>Clean\<close>, \<^verbatim>\<open>Join\<close>, \<^verbatim>\<open>Rel\<close> and \<^verbatim>\<open>IsLocal\<close> with slashes, on the
  elements of a path.
\<close>

fun path_elements :: "string \<Rightarrow> string list" where
  "path_elements [] = [[]]"
| "path_elements (c # cs) =
     (if c = CHR ''/'' then [] # path_elements cs
      else case path_elements cs of [] \<Rightarrow> [[c]] | e # es \<Rightarrow> (c # e) # es)"

definition rooted :: "string \<Rightarrow> bool" where
  "rooted p \<longleftrightarrow> p \<noteq> [] \<and> hd p = CHR ''/''"

fun clean_elements :: "bool \<Rightarrow> string list \<Rightarrow> string list \<Rightarrow> string list" where
  "clean_elements r done [] = rev done"
| "clean_elements r done (e # es) =
     (if e = [] \<or> e = ''.'' then clean_elements r done es
      else if e = ''..'' then
        (case done of
           [] \<Rightarrow> clean_elements r (if r then [] else [e]) es
         | d # ds \<Rightarrow> clean_elements r (if d = ''..'' then e # done else ds) es)
      else clean_elements r (e # done) es)"

definition Clean :: "string \<Rightarrow> bool \<times> string list" where
  "Clean p = (rooted p, clean_elements (rooted p) [] (path_elements p))"

fun join_elements :: "string \<Rightarrow> string list \<Rightarrow> string" where
  "join_elements sep [] = []"
| "join_elements sep [e] = e"
| "join_elements sep (e # es) = e @ sep @ join_elements sep es"

definition path_Join :: "string \<Rightarrow> string \<Rightarrow> bool \<times> string list" where
  "path_Join a b = (if a = [] then Clean b else if b = [] then Clean a else Clean (a @ ''/'' @ b))"

fun rel_elements :: "string list \<Rightarrow> string list \<Rightarrow> string list option" where
  "rel_elements [] ts = Some ts"
| "rel_elements (b # bs) (t # ts) =
     (if b = t then rel_elements bs ts
      else if b = ''..'' then None else Some (replicate (length (b # bs)) ''..'' @ t # ts))"
| "rel_elements (b # bs) [] = (if b = ''..'' then None else Some (replicate (length (b # bs)) ''..''))"

definition path_Rel :: "string \<Rightarrow> bool \<times> string list \<Rightarrow> string option" where
  "path_Rel basepath target =
     (let base = Clean basepath in
      if base = target then Some ''.''
      else if fst base \<noteq> fst target then None
      else map_option (join_elements ''/'') (rel_elements (snd base) (snd target)))"

definition IsLocal :: "string \<Rightarrow> bool" where
  "IsLocal p \<longleftrightarrow> p \<noteq> [] \<and> \<not> rooted p \<and> (snd (Clean p) = [] \<or> hd (snd (Clean p)) \<noteq> ''..'')"

text \<open>The string of a cleaned path.\<close>

definition path_string :: "bool \<times> string list \<Rightarrow> string" where
  "path_string p =
     (if fst p then ''/'' @ join_elements ''/'' (snd p) else if snd p = [] then ''.'' else join_elements ''/'' (snd p))"

definition clean_path :: "string \<Rightarrow> string" where
  "clean_path p = path_string (Clean p)"

section \<open>Elements\<close>

definition element :: "string \<Rightarrow> bool" where
  "element e \<longleftrightarrow> e \<noteq> [] \<and> CHR ''/'' \<notin> set e"

lemma path_elements_slash: "\<forall>e \<in> set (path_elements p). CHR ''/'' \<notin> set e"
  by (induction p) (auto split: list.splits)

lemma clean_elements_element:
  "list_all element ds \<Longrightarrow> list_all (\<lambda>e. CHR ''/'' \<notin> set e) es \<Longrightarrow> list_all element (clean_elements r ds es)"
proof (induction es arbitrary: ds)
  case (Cons e es)
  show ?case
  proof (cases "e = [] \<or> e = ''.''")
    case False
    then have e: "element e" using Cons.prems by (simp add: element_def)
    show ?thesis
    proof (cases ds)
      case Nil
      then show ?thesis using Cons.IH [of "[e]"] Cons.IH [of "[]"] Cons.prems e False by (cases r) auto
    next
      case ds: (Cons d ds')
      then show ?thesis using Cons.IH [of "e # ds"] Cons.IH [of ds'] Cons.prems e False by auto
    qed
  qed (use Cons in simp)
qed (simp add: list_all_iff)

lemma Clean_element: "e \<in> set (snd (Clean p)) \<Longrightarrow> element e"
  using clean_elements_element [of "[]" "path_elements p" "rooted p"] path_elements_slash [of p]
  by (auto simp: Clean_def list_all_iff)

lemma fst_Clean [simp]: "fst (Clean p) = rooted p"
  by (simp add: Clean_def)

end
