(* ===== verification/Workspace.thy ===== *)
theory Workspace
  imports Go_Paths "HOL-Library.Sublist"
begin

text \<open>
  The registry of local workspaces (\<^verbatim>\<open>src/internal/workspace/registry.go\<close>, in its build for systems
  other than Windows): the validation of the configured roots and the check that a directory lies
  in one. What \<^verbatim>\<open>filepath.Abs\<close>, \<^verbatim>\<open>filepath.EvalSymlinks\<close> and \<^verbatim>\<open>os.Stat\<close> find is a \<open>filesystem\<close>; two
  calls at different times may see different ones. The error texts are constructors.
\<close>

section \<open>Canonical directories\<close>

record filesystem =
  fs_Getwd :: "string option"
  fs_EvalSymlinks :: "string \<Rightarrow> string option"
  fs_IsDir :: "string \<Rightarrow> bool option"

datatype path_error =
    PathEmpty | PathNUL | PathAbsolute | PathResolve | PathCanonical | PathInspect | PathNotDirectory

definition Abs :: "filesystem \<Rightarrow> string \<Rightarrow> string option" where
  "Abs fs path =
     (if rooted path then Some (clean_path path)
      else case fs_Getwd fs of None \<Rightarrow> None | Some wd \<Rightarrow> Some (path_string (path_Join wd path)))"

definition canonicalDirectory :: "filesystem \<Rightarrow> string \<Rightarrow> string \<Rightarrow> path_error + string" where
  "canonicalDirectory fs path baseDirectory =
     (if path = [] then Inl PathEmpty
      else if CHR 0x00 \<in> set path then Inl PathNUL
      else
        let path = (if baseDirectory \<noteq> [] \<and> \<not> rooted path then path_string (path_Join baseDirectory path) else path)
        in case Abs fs path of None \<Rightarrow> Inl PathAbsolute | Some absolute \<Rightarrow>
           case fs_EvalSymlinks fs absolute of None \<Rightarrow> Inl PathResolve | Some resolved \<Rightarrow>
           case Abs fs resolved of None \<Rightarrow> Inl PathCanonical | Some canonical0 \<Rightarrow>
             let canonical = clean_path canonical0 in
             case fs_IsDir fs canonical of
               None \<Rightarrow> Inl PathInspect
             | Some isDir \<Rightarrow> (if isDir then Inr canonical else Inl PathNotDirectory))"

definition containsCanonicalPath :: "string \<Rightarrow> string \<Rightarrow> bool" where
  "containsCanonicalPath root0 candidate0 =
     (let root = clean_path root0; candidate = clean_path candidate0 in
      if candidate = root then True
      else
        let root = (if has_suffix root ''/'' then root else root @ ''/'')
        in has_prefix candidate root)"

section \<open>The registry\<close>

record Definition =
  df_ID :: string
  df_Label :: string
  df_Root :: string

record Registry =
  wr_definitions :: "Definition list"
  wr_byID :: "string \<rightharpoonup> Definition"

datatype workspace_error =
    WorkspaceID | WorkspaceDuplicate | WorkspaceLabel | WorkspaceRootInvalid path_error | WorkspaceDuplicateRoot
  | WorkspaceUnknown | WorkspaceResolve path_error | WorkspaceOutside
  | RootRevalidate path_error | RootChanged | DirectoryRevalidate path_error | DirectoryOutside

text \<open>The regular expression \<^verbatim>\<open>^[a-z0-9][a-z0-9._-]{0,63}$\<close>.\<close>

definition id_start :: "char \<Rightarrow> bool" where
  "id_start c \<longleftrightarrow> c \<in> set ''abcdefghijklmnopqrstuvwxyz0123456789''"

definition idPattern :: "string \<Rightarrow> bool" where
  "idPattern s \<longleftrightarrow> s \<noteq> [] \<and> id_start (hd s) \<and> length s \<le> 64 \<and> (\<forall>c \<in> set (tl s). id_start c \<or> c \<in> set ''._-'')"

text \<open>The loop of \<^verbatim>\<open>NewRegistry\<close>, with the registry and the roots seen so far.\<close>

fun register ::
    "filesystem \<Rightarrow> string \<Rightarrow> Registry \<Rightarrow> string list \<Rightarrow> Definition list \<Rightarrow> workspace_error + Registry" where
  "register fs baseDirectory registry seenRoots [] = Inr registry"
| "register fs baseDirectory registry seenRoots (d # ds) =
     (if \<not> idPattern (df_ID d) then Inl WorkspaceID
      else if wr_byID registry (df_ID d) \<noteq> None then Inl WorkspaceDuplicate
      else if TrimSpace (df_Label d) = [] then Inl WorkspaceLabel
      else case canonicalDirectory fs (df_Root d) baseDirectory of
        Inl e \<Rightarrow> Inl (WorkspaceRootInvalid e)
      | Inr root \<Rightarrow>
          (if clean_path root \<in> set seenRoots then Inl WorkspaceDuplicateRoot
           else
             let definition0 = d\<lparr>df_Label := TrimSpace (df_Label d), df_Root := root\<rparr>
             in register fs baseDirectory
                  \<lparr>wr_definitions = wr_definitions registry @ [definition0],
                   wr_byID = (wr_byID registry)(df_ID d \<mapsto> definition0)\<rparr>
                  (clean_path root # seenRoots) ds))"

definition NewRegistry :: "filesystem \<Rightarrow> Definition list \<Rightarrow> string \<Rightarrow> workspace_error + Registry" where
  "NewRegistry fs definitions baseDirectory =
     register fs baseDirectory \<lparr>wr_definitions = [], wr_byID = Map.empty\<rparr> [] definitions"

definition Lookup :: "Registry \<Rightarrow> string \<Rightarrow> Definition option" where
  "Lookup r i = wr_byID r i"

definition ResolveDirectory :: "filesystem \<Rightarrow> Registry \<Rightarrow> string \<Rightarrow> string \<Rightarrow> workspace_error + string" where
  "ResolveDirectory fs r i path =
     (case Lookup r i of
        None \<Rightarrow> Inl WorkspaceUnknown
      | Some d \<Rightarrow>
          (if path = [] then Inr (df_Root d)
           else
             let candidate = (if rooted path then path else path_string (path_Join (df_Root d) path)) in
             case canonicalDirectory fs candidate [] of
               Inl e \<Rightarrow> Inl (WorkspaceResolve e)
             | Inr canonical \<Rightarrow>
                 (if containsCanonicalPath (df_Root d) canonical then Inr canonical else Inl WorkspaceOutside)))"

definition RevalidateDirectory :: "filesystem \<Rightarrow> string \<Rightarrow> string \<Rightarrow> workspace_error + string" where
  "RevalidateDirectory fs root path =
     (case canonicalDirectory fs root [] of
        Inl e \<Rightarrow> Inl (RootRevalidate e)
      | Inr currentRoot \<Rightarrow>
          (if clean_path currentRoot \<noteq> clean_path root then Inl RootChanged
           else if path = [] \<or> clean_path path = clean_path root then Inr currentRoot
           else case canonicalDirectory fs path [] of
             Inl e \<Rightarrow> Inl (DirectoryRevalidate e)
           | Inr currentDirectory \<Rightarrow>
               (if containsCanonicalPath currentRoot currentDirectory then Inr currentDirectory
                else Inl DirectoryOutside)))"

section \<open>Containment\<close>

text \<open>A directory lies in a root when its path begins with the elements of the root's path.\<close>

definition within :: "string \<Rightarrow> string \<Rightarrow> bool" where
  "within root candidate \<longleftrightarrow> prefix (snd (Clean root)) (snd (Clean candidate))"

definition slashed :: "string list \<Rightarrow> string" where
  "slashed es = concat (map (\<lambda>e. CHR ''/'' # e) es)"

lemma slashed_simps [simp]: "slashed [] = []" "slashed (e # es) = CHR ''/'' # e @ slashed es"
  by (simp_all add: slashed_def)

lemma path_string_rooted: "path_string (True, es) = (if es = [] then ''/'' else slashed es)"
proof -
  have "es \<noteq> [] \<Longrightarrow> CHR ''/'' # join_elements ''/'' es = slashed es"
  proof (induction es)
    case (Cons e es)
    then show ?case by (cases es) auto
  qed simp
  then show ?thesis by (auto simp: path_string_def)
qed

text \<open>Two elements without slashes that begin the same path are the same element.\<close>

lemma element_prefix:
  assumes "CHR ''/'' \<notin> set e" "CHR ''/'' \<notin> set f" "ys = [] \<or> hd ys = CHR ''/''"
    "prefix (e @ CHR ''/'' # xs) (f @ ys)"
  shows "e = f \<and> prefix (CHR ''/'' # xs) ys"
  using assms
proof (induction e arbitrary: f)
  case Nil
  then show ?case by (cases f) auto
next
  case (Cons c e)
  then show ?case by (cases f; cases ys) (auto split: if_splits)
qed

lemma first_element: "CHR ''/'' \<notin> set e \<Longrightarrow> takeWhile (\<lambda>c. c \<noteq> CHR ''/'') (e @ slashed es @ ''/'') = e"
proof -
  assume e: "CHR ''/'' \<notin> set e"
  have rest: "takeWhile (\<lambda>c. c \<noteq> CHR ''/'') (slashed es @ ''/'') = []" by (cases es) simp_all
  show ?thesis using e rest by (subst takeWhile_append2) auto
qed

lemma slashed_prefix:
  assumes "\<forall>e \<in> set es. CHR ''/'' \<notin> set e" "\<forall>f \<in> set fs. CHR ''/'' \<notin> set f"
  shows "prefix (slashed es @ ''/'') (slashed fs) \<longleftrightarrow> strict_prefix es fs"
  using assms
proof (induction es arbitrary: fs)
  case Nil
  then show ?case by (cases fs) auto
next
  case (Cons e es)
  show ?case
  proof (cases fs)
    case (Cons f fs')
    have hd: "slashed fs' = [] \<or> hd (slashed fs') = CHR ''/''" by (cases fs') simp_all
    have split: "slashed es @ ''/'' = CHR ''/'' # tl (slashed es @ ''/'')" by (cases es) simp_all
    have "prefix (slashed (e # es) @ ''/'') (slashed fs) \<longleftrightarrow> e = f \<and> prefix (slashed es @ ''/'') (slashed fs')"
      using element_prefix [OF _ _ hd, of e f "tl (slashed es @ ''/'')"] Cons.prems \<open>fs = _\<close> split by auto
    then show ?thesis using Cons.IH [of fs'] Cons.prems \<open>fs = _\<close> by auto
  qed simp
qed

lemma slashed_inj:
  assumes "\<forall>e \<in> set es. CHR ''/'' \<notin> set e" "\<forall>f \<in> set fs. CHR ''/'' \<notin> set f" "slashed es = slashed fs"
  shows "es = fs"
  using assms
proof (induction es arbitrary: fs)
  case Nil
  then show ?case by (cases fs) auto
next
  case (Cons e es)
  then obtain f fs' where fs: "fs = f # fs'" by (cases fs) auto
  have same: "e @ slashed es @ ''/'' = f @ slashed fs' @ ''/''" using Cons.prems(3) fs by simp
  have e: "CHR ''/'' \<notin> set e" and f: "CHR ''/'' \<notin> set f" using Cons.prems(1,2) fs by simp_all
  have "e = f" using first_element [OF e, of es] unfolding same first_element [OF f] by (rule sym)
  moreover have "es = fs'" using Cons.IH [of fs'] Cons.prems fs \<open>e = f\<close> by simp
  ultimately show ?case using fs by simp
qed

lemma Clean_no_slash: "\<forall>e \<in> set (snd (Clean p)). CHR ''/'' \<notin> set e"
  using Clean_element by (auto simp: element_def)

lemma clean_path_rooted: "rooted p \<Longrightarrow> clean_path p = (if snd (Clean p) = [] then ''/'' else slashed (snd (Clean p)))"
  using path_string_rooted [of "snd (Clean p)"] by (cases "Clean p") (simp add: clean_path_def Clean_def)

lemma has_prefix_iff: "has_prefix s p \<longleftrightarrow> prefix p s"
  by (auto simp: has_prefix_def prefix_def) (metis append_take_drop_id)

lemma slashed_suffix: "es \<noteq> [] \<Longrightarrow> \<forall>e \<in> set es. element e \<Longrightarrow> \<not> has_suffix (slashed es) ''/''"
proof (induction es rule: rev_induct)
  case (snoc e es)
  then obtain c cs where "e = cs @ [c]" "c \<noteq> CHR ''/''" by (cases e rule: rev_cases) (auto simp: element_def)
  then show ?case by (simp add: has_suffix_def has_prefix_def slashed_def)
qed simp

lemma clean_path_inj:
  assumes "rooted p" "rooted q" "clean_path p = clean_path q"
  shows "Clean p = Clean q"
proof -
  have ne: "slashed es \<noteq> ''/''" if "es \<noteq> []" "\<forall>e \<in> set es. element e" for es
    using slashed_suffix [OF that] by (auto simp: has_suffix_def has_prefix_def)
  have "snd (Clean p) = snd (Clean q)"
    using assms(3) slashed_inj [OF Clean_no_slash Clean_no_slash, of p q] ne Clean_element
    unfolding clean_path_rooted [OF assms(1)] clean_path_rooted [OF assms(2)] by (auto split: if_splits)
  then show ?thesis using assms(1,2) by (simp add: prod_eq_iff)
qed

text \<open>
  The containment check compares path elements. For rooted paths, the check of the cleaned
  strings, with a slash appended to the root, holds exactly when the elements of the root's path are
  the first elements of the candidate's: \<^verbatim>\<open>/work\<close> contains \<^verbatim>\<open>/work\<close> and \<^verbatim>\<open>/work/src\<close> and not \<^verbatim>\<open>/workshop\<close>.
\<close>

lemma contains_iff_within:
  assumes "rooted root" "rooted candidate"
  shows "containsCanonicalPath root candidate \<longleftrightarrow> within root candidate"
proof (cases "clean_path candidate = clean_path root")
  case True
  then have "Clean candidate = Clean root" using clean_path_inj assms by blast
  then show ?thesis using True by (simp add: containsCanonicalPath_def within_def)
next
  case False
  let ?r = "snd (Clean root)" and ?c = "snd (Clean candidate)"
  have ne: "?r \<noteq> ?c" using False clean_path_rooted assms by metis
  have "?c \<noteq> [] \<Longrightarrow> hd (slashed ?c) = CHR ''/'' \<and> slashed ?c \<noteq> []" by (cases ?c) simp_all
  moreover have "has_suffix ''/'' ''/''" by (simp add: has_suffix_def has_prefix_def)
  moreover have "?r \<noteq> [] \<Longrightarrow> \<not> has_suffix (slashed ?r) ''/''" using slashed_suffix Clean_element by blast
  moreover have "prefix ''/'' xs" if "hd xs = CHR ''/''" "xs \<noteq> []" for xs using that by (cases xs) auto
  moreover have "?r \<noteq> [] \<Longrightarrow> \<not> prefix (slashed ?r @ ''/'') ''/''" by (cases ?r) auto
  ultimately show ?thesis
    using False ne slashed_prefix [OF Clean_no_slash Clean_no_slash, of root candidate]
    unfolding containsCanonicalPath_def within_def clean_path_rooted [OF assms(1)] clean_path_rooted [OF assms(2)]
    by (auto simp: Let_def has_prefix_iff strict_prefix_def)
qed

section \<open>What the registry guarantees\<close>

text \<open>\<^verbatim>\<open>os.Getwd\<close> returns a rooted path.\<close>

definition getwd_ok :: "filesystem \<Rightarrow> bool" where
  "getwd_ok fs \<longleftrightarrow> (\<forall>wd. fs_Getwd fs = Some wd \<longrightarrow> rooted wd)"

lemma rooted_path_string [simp]: "fst p \<Longrightarrow> rooted (path_string p)"
  by (simp add: path_string_def rooted_def)

lemma rooted_clean [simp]: "rooted p \<Longrightarrow> rooted (clean_path p)"
  by (simp add: clean_path_def)

lemma rooted_Join: "rooted a \<Longrightarrow> rooted (path_string (path_Join a b))"
proof -
  assume a: "rooted a"
  then have "rooted (a @ ''/'' @ b)" by (auto simp: rooted_def)
  moreover have "a \<noteq> []" using a by (simp add: rooted_def)
  ultimately show ?thesis using a by (simp add: path_Join_def)
qed

lemma Abs_rooted: "getwd_ok fs \<Longrightarrow> Abs fs p = Some q \<Longrightarrow> rooted q"
  by (auto simp: Abs_def getwd_ok_def rooted_Join split: if_splits option.splits)

lemma canonicalDirectory_Inr:
  assumes "canonicalDirectory fs p base = Inr q" "getwd_ok fs"
  shows "rooted q" "fs_IsDir fs q = Some True"
  using assms Abs_rooted [OF assms(2)]
  by (auto simp: canonicalDirectory_def Let_def split: if_splits option.splits)

definition registry_ok :: "Registry \<Rightarrow> bool" where
  "registry_ok r \<longleftrightarrow> distinct (map df_ID (wr_definitions r)) \<and>
     (\<forall>i d. wr_byID r i = Some d \<longleftrightarrow> d \<in> set (wr_definitions r) \<and> df_ID d = i) \<and>
     (\<forall>d \<in> set (wr_definitions r). rooted (df_Root d))"

lemma register_ok:
  "register fs base r seen ds = Inr r' \<Longrightarrow> getwd_ok fs \<Longrightarrow> registry_ok r \<Longrightarrow> registry_ok r'"
proof (induction fs base r seen ds rule: register.induct)
  case (2 fs base r seen d ds)
  obtain root where root: "canonicalDirectory fs (df_Root d) base = Inr root" and new: "wr_byID r (df_ID d) = None"
    using "2.prems"(1) by (auto split: if_splits sum.splits)
  let ?d = "d\<lparr>df_Label := TrimSpace (df_Label d), df_Root := root\<rparr>"
  let ?r = "\<lparr>wr_definitions = wr_definitions r @ [?d], wr_byID = (wr_byID r)(df_ID d \<mapsto> ?d)\<rparr>"
  have fresh_id: "df_ID d \<notin> df_ID ` set (wr_definitions r)"
    using "2.prems"(3) new unfolding registry_ok_def by (metis imageE option.distinct(1))
  have "registry_ok ?r"
    using "2.prems"(3) fresh_id canonicalDirectory_Inr(1) [OF root "2.prems"(2)] new
    unfolding registry_ok_def by (auto simp: image_iff)
  moreover have "register fs base ?r (clean_path root # seen) ds = Inr r'"
    using "2.prems"(1) root by (auto simp: Let_def split: if_splits)
  ultimately show ?case
    using "2.IH" [of root ?d] "2.prems"(1,2) root by (auto simp: Let_def split: if_splits)
qed simp

lemma NewRegistry_ok: "NewRegistry fs ds base = Inr r \<Longrightarrow> getwd_ok fs \<Longrightarrow> registry_ok r"
  using register_ok by (fastforce simp: NewRegistry_def registry_ok_def)

lemma ResolveDirectory_within:
  assumes "ResolveDirectory fs r i path = Inr d" "getwd_ok fs" "registry_ok r"
  shows "\<exists>w. Lookup r i = Some w \<and> within (df_Root w) d \<and> rooted d"
proof -
  obtain w where w: "Lookup r i = Some w" "rooted (df_Root w)"
    using assms(1,3) by (auto simp: ResolveDirectory_def Lookup_def registry_ok_def split: option.splits)
  show ?thesis
  proof (cases "path = []")
    case True
    then show ?thesis using assms(1) w by (simp add: ResolveDirectory_def within_def)
  next
    case False
    then obtain q where "canonicalDirectory fs q [] = Inr d" "containsCanonicalPath (df_Root w) d"
      using assms(1) w(1) by (auto simp: ResolveDirectory_def Let_def split: sum.splits if_splits)
    then show ?thesis
      using w contains_iff_within [OF w(2)] canonicalDirectory_Inr(1) [OF _ assms(2)] by blast
  qed
qed

lemma RevalidateDirectory_within:
  assumes "RevalidateDirectory fs root path = Inr d" "getwd_ok fs" "rooted root"
  shows "within root d" "fs_IsDir fs d = Some True"
proof -
  obtain now where now: "canonicalDirectory fs root [] = Inr now" "clean_path now = clean_path root"
    using assms(1) by (auto simp: RevalidateDirectory_def split: sum.splits if_splits)
  note n = canonicalDirectory_Inr [OF now(1) assms(2)]
  have same: "Clean now = Clean root" using clean_path_inj [OF n(1) assms(3) now(2)] .
  have "within root d \<and> fs_IsDir fs d = Some True"
  proof (cases "path = [] \<or> clean_path path = clean_path root")
    case True
    then show ?thesis using assms(1) now n(2) same by (auto simp: RevalidateDirectory_def within_def)
  next
    case False
    then have d: "canonicalDirectory fs path [] = Inr d" "containsCanonicalPath now d"
      using assms(1) now by (auto simp: RevalidateDirectory_def split: sum.splits if_splits)
    note q = canonicalDirectory_Inr [OF d(1) assms(2)]
    show ?thesis using d(2) contains_iff_within [OF n(1) q(1)] q(2) same by (simp add: within_def)
  qed
  then show "within root d" "fs_IsDir fs d = Some True" by simp_all
qed


text \<open>
  The containment check compares path elements. For rooted paths the check of the cleaned
  strings, with a slash appended to the root, holds exactly when the elements of the root's path are
  the first elements of the candidate's, so that \<^verbatim>\<open>/work\<close> contains \<^verbatim>\<open>/work/src\<close> and not \<^verbatim>\<open>/workshop\<close>, and no
  \<^verbatim>\<open>..\<close> leads out of the root.
\<close>

theorem containment_by_elements:
  assumes "rooted root" "rooted candidate"
  shows "containsCanonicalPath root candidate \<longleftrightarrow> prefix (snd (Clean root)) (snd (Clean candidate))"
  using contains_iff_within [OF assms] by (simp add: within_def)

theorem containment_by_elements_witness:
  "containsCanonicalPath ''/work/'' ''/work/x/../src'' \<and> \<not> containsCanonicalPath ''/work'' ''/workshop'' \<and>
   \<not> containsCanonicalPath ''/work'' ''/work/../etc''"
proof -
  have "rooted ''/work/''" "rooted ''/work''" "rooted ''/work/x/../src''" "rooted ''/workshop''" "rooted ''/work/../etc''"
    by (simp_all add: rooted_def)
  moreover have "snd (Clean ''/work/'') = [''work'']" "snd (Clean ''/work'') = [''work'']"
    "snd (Clean ''/work/x/../src'') = [''work'', ''src'']" "snd (Clean ''/workshop'') = [''workshop'']"
    "snd (Clean ''/work/../etc'') = [''etc'']" by code_simp+
  ultimately show ?thesis by (simp add: containment_by_elements)
qed

end
