(* ===== verification/Session_Staging.thy ===== *)
theory Session_Staging
  imports Transfer_Manager Workspace
begin

text \<open>
  The creation of a session's staging directory and the removal of the ones a crash left behind
  (\<^verbatim>\<open>src/internal/attachment/staging.go\<close>), over a file tree with symbolic links. A tree lists its
  entries by location, the names from the root. A path that a call is given is walked from the root
  through the links, as the kernel and \<^verbatim>\<open>filepath.EvalSymlinks\<close> do, with their bounds on the number
  of links. \<open>dk_outcomes\<close> says for each call whether it fails, and what a failing \<^verbatim>\<open>os.RemoveAll\<close> has
  removed before; the theorems hold for every such list. No other process changes the tree between
  the calls: the code checks a path and then uses it, which only an undisturbed tree makes safe.
  The error texts are those of the code.
\<close>

section \<open>The file tree\<close>

type_synonym location = "string list"

record call_outcome =
  oc_error :: "os_error option"
  oc_removed :: "location \<Rightarrow> bool"

record disk =
  dk_entries :: "(location \<times> node) list"
  dk_wd :: "string option"
  dk_outcomes :: "call_outcome list"

definition entry :: "(location \<times> node) list \<Rightarrow> location \<Rightarrow> node option" where
  "entry es l = (if l = [] then Some DirNode else map_of es l)"

text \<open>The walk along the elements of a path, from a location, following at most \<open>n\<close> links.\<close>

fun walk :: "(location \<times> node) list \<Rightarrow> nat \<Rightarrow> location \<Rightarrow> string list \<Rightarrow> os_error + location" where
  "walk t n l [] = Inr l"
| "walk t n l (e # es) =
     (if e = [] \<or> e = ''.'' then walk t n l es
      else if e = ''..'' then walk t n (butlast l) es
      else case entry t (l @ [e]) of
        None \<Rightarrow> Inl ENotExist
      | Some DirNode \<Rightarrow> walk t n (l @ [e]) es
      | Some (FileNode _) \<Rightarrow> (if es = [] then Inr (l @ [e]) else Inl EOther)
      | Some (LinkNode target) \<Rightarrow>
          (if n = 0 then Inl EOther
           else walk t (n - 1) (if rooted target then [] else l) (path_elements target @ es)))"

definition kernel_links :: nat where "kernel_links = 40"
definition walk_links :: nat where "walk_links = 255"

definition disk_view :: "disk \<Rightarrow> filesystem" where
  "disk_view d =
     \<lparr>fs_Getwd = dk_wd d,
      fs_EvalSymlinks = (\<lambda>p. case walk (dk_entries d) walk_links [] (path_elements p) of
        Inl _ \<Rightarrow> None | Inr l \<Rightarrow> Some (path_string (True, l))),
      fs_IsDir = (\<lambda>p. case walk (dk_entries d) kernel_links [] (path_elements p) of
        Inl _ \<Rightarrow> None | Inr l \<Rightarrow> map_option (\<lambda>n. n = DirNode) (entry (dk_entries d) l))\<rparr>"

text \<open>A call that does not follow a link in the last element of its path acts on this location.\<close>

definition locate :: "(location \<times> node) list \<Rightarrow> string \<Rightarrow> os_error + location" where
  "locate t p =
     (case walk t kernel_links [] (butlast (path_elements p)) of
        Inl e \<Rightarrow> Inl e
      | Inr l \<Rightarrow> (if entry t l = Some DirNode then Inr (l @ [last (path_elements p)]) else Inl EOther))"

definition next_outcome :: "disk \<Rightarrow> call_outcome \<times> disk" where
  "next_outcome d =
     (case dk_outcomes d of
        [] \<Rightarrow> (\<lparr>oc_error = None, oc_removed = (\<lambda>_. False)\<rparr>, d)
      | r # rs \<Rightarrow> (r, d\<lparr>dk_outcomes := rs\<rparr>))"

definition disk_call :: "((location \<times> node) list \<Rightarrow> (os_error + 'a) \<times> (location \<times> node) list) \<Rightarrow> disk \<Rightarrow> (os_error + 'a) \<times> disk" where
  "disk_call f d =
     (case next_outcome d of (r, d) \<Rightarrow>
      case oc_error r of
        Some e \<Rightarrow> (Inl e, d)
      | None \<Rightarrow> (case f (dk_entries d) of (x, t) \<Rightarrow> (x, d\<lparr>dk_entries := t\<rparr>)))"

definition disk_Lstat :: "string \<Rightarrow> disk \<Rightarrow> (os_error + node) \<times> disk" where
  "disk_Lstat p = disk_call (\<lambda>t.
     (case locate t p of
        Inl e \<Rightarrow> Inl e
      | Inr l \<Rightarrow> (case entry t l of None \<Rightarrow> Inl ENotExist | Some n \<Rightarrow> Inr n), t))"

definition disk_Mkdir :: "string \<Rightarrow> disk \<Rightarrow> (os_error + unit) \<times> disk" where
  "disk_Mkdir p = disk_call (\<lambda>t.
     case locate t p of
       Inl e \<Rightarrow> (Inl e, t)
     | Inr l \<Rightarrow> (if entry t l \<noteq> None then (Inl EExist, t) else (Inr (), (l, DirNode) # t)))"

definition disk_Remove :: "string \<Rightarrow> disk \<Rightarrow> (os_error + unit) \<times> disk" where
  "disk_Remove p = disk_call (\<lambda>t.
     case locate t p of
       Inl e \<Rightarrow> (Inl e, t)
     | Inr l \<Rightarrow>
         (if entry t l = None then (Inl ENotExist, t)
          else if list_ex (\<lambda>x. strict_prefix l (fst x)) t then (Inl EOther, t)
          else (Inr (), filter (\<lambda>x. fst x \<noteq> l) t)))"

definition disk_RemoveAll :: "string \<Rightarrow> disk \<Rightarrow> (os_error + unit) \<times> disk" where
  "disk_RemoveAll p d =
     (case next_outcome d of (r, d) \<Rightarrow>
      case locate (dk_entries d) p of
        Inl e \<Rightarrow> (if e = ENotExist \<and> oc_error r = None then Inr () else Inl (case oc_error r of None \<Rightarrow> e | Some f \<Rightarrow> f), d)
      | Inr l \<Rightarrow>
          (case oc_error r of
             None \<Rightarrow> (Inr (), d\<lparr>dk_entries := filter (\<lambda>x. \<not> prefix l (fst x)) (dk_entries d)\<rparr>)
           | Some e \<Rightarrow> (Inl e, d\<lparr>dk_entries := filter (\<lambda>x. \<not> (prefix l (fst x) \<and> oc_removed r (fst x))) (dk_entries d)\<rparr>)))"

text \<open>The names in a directory, in the order of the list.\<close>

definition names_in :: "location \<Rightarrow> (location \<times> node) list \<Rightarrow> string list" where
  "names_in l t = remdups (map (\<lambda>x. last (fst x)) (filter (\<lambda>x. fst x \<noteq> [] \<and> butlast (fst x) = l) t))"

definition disk_ReadDir :: "string \<Rightarrow> disk \<Rightarrow> (os_error + string list) \<times> disk" where
  "disk_ReadDir p = disk_call (\<lambda>t.
     (case walk t kernel_links [] (path_elements p) of
        Inl e \<Rightarrow> Inl e
      | Inr l \<Rightarrow> (if entry t l = Some DirNode then Inr (names_in l t) else Inl EOther), t))"

definition disk_Revalidate :: "string \<Rightarrow> string \<Rightarrow> disk \<Rightarrow> (workspace_error + string) \<times> disk" where
  "disk_Revalidate root path d =
     (case next_outcome d of (r, d) \<Rightarrow>
      (if oc_error r \<noteq> None then Inl (RootRevalidate PathResolve) else RevalidateDirectory (disk_view d) root path, d))"

section \<open>Staging directories\<close>

definition metadataDirectoryName :: string where "metadataDirectoryName = ''.vibebridge''"
definition uploadsDirectoryName :: string where "uploadsDirectoryName = ''uploads''"
definition maxSessionIDBytes :: nat where "maxSessionIDBytes = 64"
definition sandboxDirName :: string where "sandboxDirName = ''.vibebridge-sandbox''"

definition Join :: "string \<Rightarrow> string \<Rightarrow> string" where
  "Join a b = path_string (path_Join a b)"

fun wrap_error :: "string \<Rightarrow> file_error \<Rightarrow> file_error" where
  "wrap_error s (PathError t e) = PathError (s @ t) e"
| "wrap_error s (FileError t) = FileError (s @ t)"
| "wrap_error s (Joined a b) = Joined (wrap_error s a) b"

definition validateCanonicalDirectory :: "string \<Rightarrow> string \<Rightarrow> disk \<Rightarrow> file_error option \<times> disk" where
  "validateCanonicalDirectory workspaceRoot path d =
     (case disk_Revalidate workspaceRoot path d of
        (Inl _, d) \<Rightarrow> (Some (FileError ''staging path boundary is invalid''), d)
      | (Inr canonical, d) \<Rightarrow>
          (if clean_path canonical \<noteq> clean_path path
           then (Some (FileError ''staging path component must be canonical''), d) else (None, d)))"

text \<open>\<^verbatim>\<open>ensureCanonicalDirectory\<close>: the part after the component was inspected, and the whole.\<close>

definition check_component :: "string \<Rightarrow> string \<Rightarrow> (os_error + node) \<times> disk \<Rightarrow> file_error option \<times> disk" where
  "check_component workspaceRoot path r =
     (case r of
        (Inl e, d) \<Rightarrow> (Some (PathError ''inspect staging directory'' e), d)
      | (Inr (LinkNode _), d) \<Rightarrow> (Some (FileError ''staging path component must not be a link''), d)
      | (Inr (FileNode _), d) \<Rightarrow> (Some (FileError ''staging path component must be a directory''), d)
      | (Inr DirNode, d) \<Rightarrow> validateCanonicalDirectory workspaceRoot path d)"

definition ensureCanonicalDirectory :: "string \<Rightarrow> string \<Rightarrow> disk \<Rightarrow> file_error option \<times> disk" where
  "ensureCanonicalDirectory workspaceRoot path d =
     (case disk_Lstat path d of
        (Inl ENotExist, d) \<Rightarrow>
          (case disk_Mkdir path d of
             (Inl e, d) \<Rightarrow>
               (if e \<noteq> EExist then (Some (PathError ''create staging directory'' e), d)
                else check_component workspaceRoot path (disk_Lstat path d))
           | (Inr _, d) \<Rightarrow> check_component workspaceRoot path (disk_Lstat path d))
      | r \<Rightarrow> check_component workspaceRoot path r)"

definition new_staging :: "string \<Rightarrow> string \<Rightarrow> SessionStaging" where
  "new_staging workspaceRoot path =
     \<lparr>st_workspaceRoot = workspaceRoot, st_path = path, st_cleaned = False, st_openDirectories = 0,
      st_transferManagerOpen = False, st_completedBytesReserved = 0\<rparr>"

text \<open>The end of \<^verbatim>\<open>CreateSessionStaging\<close>: the session's own directory.\<close>

definition make_session_directory :: "string \<Rightarrow> string \<Rightarrow> disk \<Rightarrow> (file_error + SessionStaging) \<times> disk" where
  "make_session_directory currentRoot path d =
     (case disk_Mkdir path d of
        (Inl e, d) \<Rightarrow> (Inl (PathError ''create session staging directory'' e), d)
      | (Inr _, d) \<Rightarrow>
          (case validateCanonicalDirectory currentRoot path d of
             (Some e, d) \<Rightarrow> (Inl (wrap_error ''validate session staging directory: '' e), snd (disk_Remove path d))
           | (None, d) \<Rightarrow> (Inr (new_staging currentRoot path), d)))"

definition CreateSessionStaging :: "string \<Rightarrow> bytes \<Rightarrow> disk \<Rightarrow> (file_error + SessionStaging) \<times> disk" where
  "CreateSessionStaging workspaceRoot sessionID d =
     (if length sessionID = 0 \<or> length sessionID > maxSessionIDBytes
      then (Inl (FileError ''session ID length is invalid for staging''), d)
      else case disk_Revalidate workspaceRoot [] d of
        (Inl _, d) \<Rightarrow> (Inl (FileError ''validate staging workspace failed''), d)
      | (Inr currentRoot, d) \<Rightarrow>
          (let metadataDirectory = Join currentRoot metadataDirectoryName in
           case ensureCanonicalDirectory currentRoot metadataDirectory d of
             (Some e, d) \<Rightarrow> (Inl (wrap_error ''prepare staging metadata directory: '' e), d)
           | (None, d) \<Rightarrow>
               (let uploadsDirectory = Join metadataDirectory uploadsDirectoryName in
                case ensureCanonicalDirectory currentRoot uploadsDirectory d of
                  (Some e, d) \<Rightarrow> (Inl (wrap_error ''prepare staging uploads directory: '' e), d)
                | (None, d) \<Rightarrow>
                    make_session_directory currentRoot (Join uploadsDirectory (EncodeToString sessionID)) d)))"

text \<open>The loop of \<^verbatim>\<open>CleanupStaleStaging\<close> over the entries it read.\<close>

fun clean_entries :: "string \<Rightarrow> string \<Rightarrow> string list \<Rightarrow> disk \<Rightarrow> file_error option \<times> disk" where
  "clean_entries currentRoot uploadsDir [] d = (None, d)"
| "clean_entries currentRoot uploadsDir (name # names) d =
     (let sessionPath = Join uploadsDir name in
      case disk_Lstat sessionPath d of
        (Inl e, d) \<Rightarrow>
          (if e = ENotExist then clean_entries currentRoot uploadsDir names d
           else (Some (PathError ''inspect stale session staging'' e), d))
      | (Inr DirNode, d) \<Rightarrow>
          (case validateCanonicalDirectory currentRoot sessionPath d of
             (Some e, d) \<Rightarrow> (Some (wrap_error ''validate stale session staging boundary: '' e), d)
           | (None, d) \<Rightarrow>
               (case disk_RemoveAll sessionPath d of
                  (Inl e, d) \<Rightarrow> (Some (PathError ''remove stale session staging directory'' e), d)
                | (Inr _, d) \<Rightarrow> clean_entries currentRoot uploadsDir names d))
      | (Inr n, d) \<Rightarrow>
          (case disk_Remove sessionPath d of
             (Inl e, d) \<Rightarrow>
               (if e = ENotExist then clean_entries currentRoot uploadsDir names d
                else (Some (PathError (if IsRegular n then ''remove stale non-directory staging entry''
                  else ''remove stale symlink staging entry'') e), d))
           | (Inr _, d) \<Rightarrow> clean_entries currentRoot uploadsDir names d))"

definition CleanupStaleStaging :: "string \<Rightarrow> disk \<Rightarrow> file_error option \<times> disk" where
  "CleanupStaleStaging workspaceRoot d =
     (case disk_Revalidate workspaceRoot [] d of
        (Inl _, d) \<Rightarrow> (Some (FileError ''validate staging workspace failed''), d)
      | (Inr currentRoot, d) \<Rightarrow>
          (let uploadsDir = Join (Join currentRoot metadataDirectoryName) uploadsDirectoryName in
           case disk_Lstat uploadsDir d of
             (Inl e, d) \<Rightarrow> (if e = ENotExist then (None, d) else (Some (PathError ''inspect uploads directory'' e), d))
           | (Inr DirNode, d) \<Rightarrow>
               (case validateCanonicalDirectory currentRoot uploadsDir d of
                  (Some e, d) \<Rightarrow> (Some (wrap_error ''validate uploads directory boundary: '' e), d)
                | (None, d) \<Rightarrow>
                    (case disk_ReadDir uploadsDir d of
                       (Inl e, d) \<Rightarrow> (Some (PathError ''read uploads directory'' e), d)
                     | (Inr names, d) \<Rightarrow> clean_entries currentRoot uploadsDir names d))
           | (Inr _, d) \<Rightarrow> (Some (FileError ''uploads path must be a directory''), d)))"

section \<open>The sandbox of a session without a workspace\<close>

text \<open>\<^verbatim>\<open>os.MkdirAll\<close> on the elements of a rooted path, the deepest first.\<close>

definition disk_Stat :: "location \<Rightarrow> disk \<Rightarrow> (os_error + node) \<times> disk" where
  "disk_Stat l = disk_call (\<lambda>t.
     (case walk t kernel_links [] l of
        Inl e \<Rightarrow> Inl e | Inr l \<Rightarrow> (case entry t l of None \<Rightarrow> Inl ENotExist | Some n \<Rightarrow> Inr n), t))"

fun MkdirAll :: "location \<Rightarrow> disk \<Rightarrow> os_error option \<times> disk" where
  "MkdirAll [] d = (None, d)"
| "MkdirAll (e # up) d =
     (case disk_Stat (rev (e # up)) d of
        (Inr DirNode, d) \<Rightarrow> (None, d)
      | (Inr _, d) \<Rightarrow> (Some EOther, d)
      | (Inl _, d) \<Rightarrow>
          (case MkdirAll up d of
             (Some x, d) \<Rightarrow> (Some x, d)
           | (None, d) \<Rightarrow>
               (case disk_Mkdir (path_string (True, rev (e # up))) d of
                  (Inr _, d) \<Rightarrow> (None, d)
                | (Inl x, d) \<Rightarrow>
                    (case disk_Lstat (path_string (True, rev (e # up))) d of
                       (Inr DirNode, d) \<Rightarrow> (None, d)
                     | (_, d) \<Rightarrow> (Some x, d)))))"

definition disk_EvalSymlinks :: "string \<Rightarrow> disk \<Rightarrow> (os_error + string) \<times> disk" where
  "disk_EvalSymlinks p = disk_call (\<lambda>t.
     (case walk t walk_links [] (path_elements p) of Inl e \<Rightarrow> Inl e | Inr l \<Rightarrow> Inr (path_string (True, l)), t))"

definition CreateSandboxStaging :: "string \<Rightarrow> bytes \<Rightarrow> disk \<Rightarrow> (file_error + SessionStaging) \<times> disk" where
  "CreateSandboxStaging tempDir sessionID d =
     (if length sessionID = 0 \<or> length sessionID > maxSessionIDBytes
      then (Inl (FileError ''session ID length is invalid for staging''), d)
      else
        let sandboxRoot = Join tempDir sandboxDirName in
        case MkdirAll (rev (snd (Clean sandboxRoot))) d of
          (Some e, d) \<Rightarrow> (Inl (PathError ''create sandbox staging root: '' e), d)
        | (None, d) \<Rightarrow>
            (case disk_EvalSymlinks sandboxRoot d of
               (Inl e, d) \<Rightarrow> (Inl (PathError ''canonicalize sandbox staging root: '' e), d)
             | (Inr canonical, d) \<Rightarrow> CreateSessionStaging canonical sessionID d))"

definition CleanupStaleSandboxStaging :: "string \<Rightarrow> disk \<Rightarrow> file_error option \<times> disk" where
  "CleanupStaleSandboxStaging tempDir d =
     (let sandboxRoot = Join tempDir sandboxDirName in
      case disk_Lstat sandboxRoot d of
        (Inl e, d) \<Rightarrow> (if e = ENotExist then (None, d) else (Some (PathError ''inspect sandbox staging root'' e), d))
      | (Inr DirNode, d) \<Rightarrow>
          (case disk_EvalSymlinks sandboxRoot d of
             (Inl e, d) \<Rightarrow> (Some (PathError ''canonicalize sandbox staging root: '' e), d)
           | (Inr canonical, d) \<Rightarrow> CleanupStaleStaging canonical d)
      | (Inr _, d) \<Rightarrow> (Some (FileError ''sandbox staging root must be a directory''), d))"

section \<open>Names and paths\<close>

definition good :: "string \<Rightarrow> bool" where
  "good e \<longleftrightarrow> element e \<and> e \<noteq> ''.'' \<and> e \<noteq> ''..''"

lemma path_elements_nonempty [simp]: "path_elements p \<noteq> []"
  by (induction p) (auto split: list.splits)

lemma path_elements_append: "path_elements (a @ CHR ''/'' # b) = path_elements a @ path_elements b"
proof (induction a)
  case (Cons c a)
  then show ?case by (cases "path_elements a") simp_all
qed simp

lemma path_elements_element: "CHR ''/'' \<notin> set e \<Longrightarrow> path_elements e = [e]"
  by (induction e) auto

lemma path_elements_slashed: "\<forall>e \<in> set es. good e \<Longrightarrow> path_elements (slashed es) = [] # es"
proof (induction es rule: rev_induct)
  case (snoc e es)
  then have "path_elements (slashed es @ CHR ''/'' # e) = [] # es @ [e]"
    by (simp add: path_elements_append path_elements_element good_def element_def)
  then show ?case by (simp add: slashed_def)
qed simp

lemma path_elements_string:
  "\<forall>e \<in> set es. good e \<Longrightarrow> path_elements (path_string (True, es)) = (if es = [] then [[], []] else [] # es)"
  by (simp add: path_string_rooted path_elements_slashed)

lemma clean_elements_append: "clean_elements r ds (es @ fs) = clean_elements r (rev (clean_elements r ds es)) fs"
  by (induction r ds es rule: clean_elements.induct) (auto split: list.splits)

lemma clean_elements_good: "\<forall>e \<in> set es. good e \<Longrightarrow> clean_elements r ds es = rev ds @ es"
  by (induction es arbitrary: ds) (auto simp: good_def element_def)

lemma Clean_path_string [simp]: "\<forall>e \<in> set es. good e \<Longrightarrow> Clean (path_string (True, es)) = (True, es)"
  using clean_elements_good [of es True "[]"] rooted_path_string [of "(True, es)"]
  by (simp add: Clean_def path_elements_string)

lemma clean_rooted_good:
  "\<forall>d \<in> set ds. good d \<Longrightarrow> \<forall>e \<in> set es. CHR ''/'' \<notin> set e \<Longrightarrow> \<forall>e \<in> set (clean_elements True ds es). good e"
proof (induction es arbitrary: ds)
  case (Cons e es)
  show ?case
  proof (cases "e = [] \<or> e = ''.'' \<or> e = ''..''")
    case True
    have d: "\<forall>d \<in> set (tl ds). good d" "ds \<noteq> [] \<Longrightarrow> hd ds \<noteq> ''..''"
      using Cons.prems(1) by (cases ds; simp add: good_def)+
    show ?thesis
      using True Cons.IH [OF Cons.prems(1)] Cons.IH [OF d(1)] d(2) Cons.prems(2) by (cases ds) auto
  next
    case False
    then have step: "clean_elements True ds (e # es) = clean_elements True (e # ds) es" by simp
    have "good e" using False Cons.prems(2) by (simp add: good_def element_def)
    then have "\<forall>d \<in> set (e # ds). good d" using Cons.prems(1) by (simp only: list.set) blast
    moreover have "\<forall>f \<in> set es. CHR ''/'' \<notin> set f" using Cons.prems(2) by (simp only: list.set) blast
    ultimately show ?thesis unfolding step by (rule Cons.IH)
  qed
qed simp

lemma Clean_good: "rooted p \<Longrightarrow> \<forall>e \<in> set (snd (Clean p)). good e"
  using clean_rooted_good [of "[]" "path_elements p"] path_elements_slash [of p] by (simp add: Clean_def)

lemma Join_good:
  assumes "\<forall>e \<in> set es. good e" "good e"
  shows "Join (path_string (True, es)) e = path_string (True, es @ [e])"
proof -
  let ?p = "path_string (True, es)"
  have r: "rooted ?p" by simp
  then have p: "?p \<noteq> []" "rooted (?p @ CHR ''/'' # e)" by (auto simp: rooted_def)
  have e: "e \<noteq> []" "path_elements e = [e]" using assms(2) by (auto simp: good_def element_def path_elements_element)
  have "clean_elements True [] (path_elements ?p) = es"
    using Clean_path_string [OF assms(1)] r by (simp add: Clean_def)
  then have "clean_elements True [] (path_elements ?p @ [e]) = es @ [e]"
    using assms(2) clean_elements_good [of "[e]"] by (simp add: clean_elements_append)
  then show ?thesis using p e by (simp add: Join_def path_Join_def Clean_def path_elements_append)
qed

section \<open>Walks\<close>

text \<open>Every directory on the way to a location, and the location itself, is a directory.\<close>

definition dirs :: "(location \<times> node) list \<Rightarrow> location \<Rightarrow> bool" where
  "dirs t l \<longleftrightarrow> (\<forall>k. prefix k l \<longrightarrow> entry t k = Some DirNode)"

lemma dirs_Nil [simp]: "dirs t []"
  by (simp add: dirs_def entry_def)

lemma dirs_snoc [simp]: "dirs t (l @ [e]) \<longleftrightarrow> dirs t l \<and> entry t (l @ [e]) = Some DirNode"
  by (auto simp: dirs_def)

lemma dirs_prefix: "dirs t m \<Longrightarrow> prefix l m \<Longrightarrow> dirs t l"
  by (auto simp: dirs_def)

lemma dirs_butlast: "dirs t l \<Longrightarrow> dirs t (butlast l)"
  by (metis append_butlast_last_id dirs_snoc butlast.simps(1))

lemma walk_straight: "dirs t (l @ es) \<Longrightarrow> \<forall>e \<in> set es. good e \<Longrightarrow> walk t n l es = Inr (l @ es)"
proof (induction es arbitrary: l)
  case (Cons e es)
  have "entry t (l @ [e]) = Some DirNode" using Cons.prems(1) by (auto simp: dirs_def)
  then show ?case using Cons.IH [of "l @ [e]"] Cons.prems by (auto simp: good_def element_def)
qed simp

text \<open>Where a walk ends no link is left.\<close>

definition arrived :: "(location \<times> node) list \<Rightarrow> location \<Rightarrow> bool" where
  "arrived t l \<longleftrightarrow> (\<forall>e \<in> set l. good e) \<and>
     (dirs t l \<or> (\<exists>k e i. l = k @ [e] \<and> dirs t k \<and> entry t l = Some (FileNode i)))"

lemma walk_arrived:
  "walk t n l es = Inr r \<Longrightarrow> dirs t l \<Longrightarrow> \<forall>e \<in> set l. good e \<Longrightarrow> \<forall>e \<in> set es. CHR ''/'' \<notin> set e \<Longrightarrow> arrived t r"
proof (induction t n l es rule: walk.induct)
  case (2 t n l e es)
  show ?case
  proof (cases "e = [] \<or> e = ''.'' \<or> e = ''..''")
    case True
    have "\<forall>x \<in> set (butlast l). good x" using "2.prems"(3) in_set_butlastD by fast
    then show ?thesis using True 2 dirs_butlast by auto
  next
    case False
    then have e: "good e" "\<forall>f \<in> set es. CHR ''/'' \<notin> set f" using "2.prems"(4) by (simp_all add: good_def element_def)
    then obtain m where m: "entry t (l @ [e]) = Some m" using "2.prems"(1) False by (cases "entry t (l @ [e])") auto
    show ?thesis
    proof (cases m)
      case (FileNode i)
      then have "r = l @ [e]" using "2.prems"(1) False m by (auto split: if_splits)
      then show ?thesis using m FileNode e "2.prems" by (auto simp: arrived_def)
    next
      case DirNode
      then show ?thesis using "2.IH"(3) [of m] "2.prems" False m e by auto
    next
      case (LinkNode target)
      then show ?thesis
        using "2.IH"(4) [of m target] "2.prems" False m e path_elements_slash [of target] by (auto split: if_splits)
    qed
  qed
qed (simp add: arrived_def)

lemma walk_again: "arrived t l \<Longrightarrow> walk t n [] l = Inr l"
proof -
  have file_end: "walk t n l [e] = Inr (l @ [e])" if "good e" "entry t (l @ [e]) = Some (FileNode i)" for l e i
    using that by (simp add: good_def element_def)
  have append: "walk t n l (es @ fs) = walk t n (l @ es) fs" if "dirs t (l @ es)" "\<forall>e \<in> set es. good e" for l es fs
    using that
  proof (induction es arbitrary: l)
    case (Cons e es)
    have "entry t (l @ [e]) = Some DirNode" using Cons.prems(1) by (auto simp: dirs_def)
    then show ?case using Cons.IH [of "l @ [e]"] Cons.prems by (auto simp: good_def element_def)
  qed simp
  assume l: "arrived t l"
  then show "walk t n [] l = Inr l"
  proof (cases "dirs t l")
    case True
    then show ?thesis using l walk_straight [of t "[]" l n] by (simp add: arrived_def)
  next
    case False
    then obtain k e i where k: "l = k @ [e]" "dirs t k" "entry t l = Some (FileNode i)" "\<forall>e \<in> set l. good e"
      using l by (auto simp: arrived_def)
    then have "walk t n [] (k @ [e]) = walk t n k [e]" using append [of "[]" k "[e]"] by simp
    also have "\<dots> = Inr (k @ [e])" using k by (intro file_end) simp_all
    finally show ?thesis using k(1) by simp
  qed
qed

lemma walk_skip [simp]: "walk t n l ([] # es) = walk t n l es"
  by simp

lemma walk_string: "\<forall>e \<in> set l. good e \<Longrightarrow> walk t n [] (path_elements (path_string (True, l))) = walk t n [] l"
  by (simp add: path_elements_string)

lemma locate_dirs:
  assumes "dirs t l" "\<forall>e \<in> set l. good e" "good e"
  shows "locate t (path_string (True, l @ [e])) = Inr (l @ [e])"
proof -
  have "path_elements (path_string (True, l @ [e])) = [] # l @ [e]" using assms by (simp add: path_elements_string)
  moreover have "walk t kernel_links [] l = Inr l" using walk_straight [of t "[]" l] assms by simp
  moreover have "entry t l = Some DirNode" using assms(1) by (simp add: dirs_def)
  ultimately show ?thesis by (simp add: locate_def butlast_append)
qed

section \<open>What the checks establish\<close>

lemma canonicalDirectory_disk:
  assumes "canonicalDirectory (disk_view d) p base = Inr c"
  shows "\<exists>l. c = path_string (True, l) \<and> (\<forall>e \<in> set l. good e) \<and> dirs (dk_entries d) l"
proof -
  let ?t = "dk_entries d"
  obtain a r where r: "fs_EvalSymlinks (disk_view d) a = Some r" "Abs (disk_view d) r \<noteq> None"
    and c: "c = clean_path (the (Abs (disk_view d) r))" "fs_IsDir (disk_view d) c = Some True"
    using assms by (auto simp: canonicalDirectory_def Let_def split: if_splits option.splits)
  then obtain l where l: "walk ?t walk_links [] (path_elements a) = Inr l" "r = path_string (True, l)"
    by (auto simp: disk_view_def split: sum.splits)
  have at: "arrived ?t l" using walk_arrived [OF l(1)] path_elements_slash by simp
  then have g: "\<forall>e \<in> set l. good e" by (simp add: arrived_def)
  have cl: "c = path_string (True, l)" using c(1) l(2) g by (simp add: Abs_def clean_path_def)
  have "walk ?t kernel_links [] (path_elements c) = Inr l" using walk_again [OF at] walk_string [OF g] cl by simp
  then have "entry ?t l = Some DirNode" using c(2) by (auto simp: disk_view_def)
  then have "dirs ?t l" using at by (auto simp: arrived_def)
  then show ?thesis using cl g by blast
qed

lemma next_outcome_entries [simp]:
  "dk_entries (snd (next_outcome d)) = dk_entries d"
  by (simp add: next_outcome_def split: list.splits)

text \<open>Whether a call that fails may report a missing entry although there is one.\<close>

definition honest :: "disk \<Rightarrow> bool" where
  "honest d \<longleftrightarrow> (\<forall>r \<in> set (dk_outcomes d). oc_error r \<noteq> Some ENotExist)"

lemma next_outcome_honest:
  "next_outcome d = (r, d') \<Longrightarrow> honest d \<Longrightarrow> honest d' \<and> oc_error r \<noteq> Some ENotExist"
  by (auto simp: next_outcome_def honest_def split: list.splits)

lemma next_outcome_same: "next_outcome d = (r, d') \<Longrightarrow> dk_entries d' = dk_entries d"
  using next_outcome_entries [of d] by simp

lemma honest_entries [simp]: "honest (d\<lparr>dk_entries := t\<rparr>) = honest d"
  by (simp add: honest_def)

lemma Revalidate_entries:
  assumes "disk_Revalidate root p d = (x, d')"
  shows "dk_entries d' = dk_entries d" "honest d \<Longrightarrow> honest d'"
  using assms next_outcome_same next_outcome_honest by (auto simp: disk_Revalidate_def split: prod.splits if_splits)

lemma Revalidate_root:
  assumes "disk_Revalidate root [] d = (Inr c, d')" "rooted root"
  shows "c = path_string (True, snd (Clean root))" "dirs (dk_entries d) (snd (Clean root))"
proof -
  obtain r where r: "next_outcome d = (r, d')" "RevalidateDirectory (disk_view d') root [] = Inr c"
    using assms(1) by (auto simp: disk_Revalidate_def split: prod.splits if_splits)
  have e: "dk_entries d' = dk_entries d" using next_outcome_same [OF r(1)] .
  have c: "canonicalDirectory (disk_view d') root [] = Inr c" "clean_path c = clean_path root"
    using r(2) by (auto simp: RevalidateDirectory_def split: sum.splits if_splits)
  obtain l where l: "c = path_string (True, l)" "\<forall>e \<in> set l. good e" "dirs (dk_entries d) l"
    using canonicalDirectory_disk [OF c(1)] e by auto
  have "Clean c = Clean root" using clean_path_inj [OF _ assms(2) c(2)] l(1) by simp
  then have "snd (Clean root) = l" using l(1,2) by (metis Clean_path_string snd_conv)
  then show "c = path_string (True, snd (Clean root))" "dirs (dk_entries d) (snd (Clean root))" using l by simp_all
qed

lemma validate_dirs:
  assumes "validateCanonicalDirectory root (path_string (True, l)) d = (None, d')" "\<forall>e \<in> set l. good e"
  shows "dirs (dk_entries d) l"
proof -
  let ?p = "path_string (True, l)"
  obtain c where c: "disk_Revalidate root ?p d = (Inr c, d')" "clean_path c = clean_path ?p"
    using assms(1) by (auto simp: validateCanonicalDirectory_def split: prod.splits sum.splits if_splits)
  then obtain r where r: "next_outcome d = (r, d')" "RevalidateDirectory (disk_view d') root ?p = Inr c"
    by (auto simp: disk_Revalidate_def split: prod.splits if_splits)
  then obtain q where "canonicalDirectory (disk_view d') q [] = Inr c"
    by (auto simp: RevalidateDirectory_def split: sum.splits if_splits)
  then obtain m where m: "c = path_string (True, m)" "\<forall>e \<in> set m. good e" "dirs (dk_entries d) m"
    using canonicalDirectory_disk next_outcome_same [OF r(1)] by metis
  have "Clean c = Clean ?p" using clean_path_inj [OF _ _ c(2)] m(1) by simp
  then have "m = l" using m assms(2) by simp
  then show ?thesis using m(3) by simp
qed

lemma validate_entries:
  assumes "validateCanonicalDirectory root p d = (x, d')"
  shows "dk_entries d' = dk_entries d" "honest d \<Longrightarrow> honest d'"
  using assms Revalidate_entries [of root p d]
  by (auto simp: validateCanonicalDirectory_def split: prod.splits sum.splits if_splits)

section \<open>What the calls do\<close>

lemma Lstat_effect:
  assumes "disk_Lstat p d = (x, d')"
  shows "dk_entries d' = dk_entries d" "honest d \<Longrightarrow> honest d'"
    "locate (dk_entries d) p = Inr l \<Longrightarrow> x = Inr n \<Longrightarrow> entry (dk_entries d) l = Some n"
    "locate (dk_entries d) p = Inr l \<Longrightarrow> x = Inl ENotExist \<Longrightarrow> honest d \<Longrightarrow> entry (dk_entries d) l = None"
  using assms next_outcome_same next_outcome_honest
  by (fastforce simp: disk_Lstat_def disk_call_def split: prod.splits option.splits sum.splits)+

lemma ReadDir_effect:
  assumes "disk_ReadDir (path_string (True, l)) d = (x, d')" "dirs (dk_entries d) l" "\<forall>e \<in> set l. good e"
  shows "dk_entries d' = dk_entries d" "honest d \<Longrightarrow> honest d'" "x = Inr names \<Longrightarrow> names = names_in l (dk_entries d)"
proof -
  have "walk (dk_entries d) kernel_links [] (path_elements (path_string (True, l))) = Inr l"
    using walk_straight [of "dk_entries d" "[]" l] assms(2,3) walk_string [OF assms(3)] by simp
  then show "dk_entries d' = dk_entries d" "honest d \<Longrightarrow> honest d'" "x = Inr names \<Longrightarrow> names = names_in l (dk_entries d)"
    using assms(1) next_outcome_same next_outcome_honest
    by (fastforce simp: disk_ReadDir_def disk_call_def split: prod.splits option.splits if_splits)+
qed

text \<open>Removing what lies below a location.\<close>

definition without :: "location \<Rightarrow> (location \<times> node) list \<Rightarrow> (location \<times> node) list" where
  "without l t = filter (\<lambda>x. \<not> prefix l (fst x)) t"

definition cut :: "location \<Rightarrow> (location \<times> node) list \<Rightarrow> (location \<times> node) list \<Rightarrow> bool" where
  "cut b t t' \<longleftrightarrow> (\<exists>Q. t' = filter (\<lambda>x. Q (fst x)) t \<and> (\<forall>l. \<not> strict_prefix b l \<longrightarrow> Q l))"

lemma Remove_effect:
  assumes "disk_Remove p d = (x, d')" "locate (dk_entries d) p = Inr l"
  shows "honest d \<Longrightarrow> honest d'" "x = Inr u \<Longrightarrow> dk_entries d' = without l (dk_entries d)"
    "x = Inl e \<Longrightarrow> dk_entries d' = dk_entries d"
    "x = Inl ENotExist \<Longrightarrow> honest d \<Longrightarrow> entry (dk_entries d) l = None"
proof -
  obtain r d1 where r: "next_outcome d = (r, d1)" by fastforce
  note same = next_outcome_same [OF r] next_outcome_honest [OF r]
  have leaf: "filter (\<lambda>x. fst x \<noteq> l) t = without l t" if "\<not> list_ex (\<lambda>x. strict_prefix l (fst x)) t" for t
    using that by (auto simp: without_def list_ex_iff strict_prefix_def intro!: filter_cong)
  show "honest d \<Longrightarrow> honest d'" "x = Inr u \<Longrightarrow> dk_entries d' = without l (dk_entries d)"
    "x = Inl e \<Longrightarrow> dk_entries d' = dk_entries d"
    "x = Inl ENotExist \<Longrightarrow> honest d \<Longrightarrow> entry (dk_entries d) l = None"
    using assms same leaf [of "dk_entries d"] r
    by (auto simp: disk_Remove_def disk_call_def split: option.splits if_splits)
qed

lemma RemoveAll_effect:
  assumes "disk_RemoveAll p d = (x, d')" "locate (dk_entries d) p = Inr (b @ [e])"
  shows "honest d \<Longrightarrow> honest d'" "x = Inr u \<Longrightarrow> dk_entries d' = without (b @ [e]) (dk_entries d)"
    "cut b (dk_entries d) (dk_entries d')"
proof -
  obtain r d1 where r: "next_outcome d = (r, d1)" by fastforce
  note same = next_outcome_same [OF r] next_outcome_honest [OF r]
  show "honest d \<Longrightarrow> honest d'" "x = Inr u \<Longrightarrow> dk_entries d' = without (b @ [e]) (dk_entries d)"
    using assms same r by (auto simp: disk_RemoveAll_def without_def split: option.splits)
  have down: "strict_prefix b l" if "prefix (b @ [e]) l" for l
    using that by (metis prefix_snocD)
  show "cut b (dk_entries d) (dk_entries d')"
  proof (cases "oc_error r")
    case None
    then show ?thesis
      using assms same r down unfolding cut_def
      by (intro exI [of _ "\<lambda>l. \<not> prefix (b @ [e]) l"]) (auto simp: disk_RemoveAll_def)
  next
    case (Some f)
    then show ?thesis
      using assms same r down unfolding cut_def
      by (intro exI [of _ "\<lambda>l. \<not> (prefix (b @ [e]) l \<and> oc_removed r l)"]) (auto simp: disk_RemoveAll_def)
  qed
qed

lemma entry_filter: "entry (filter (\<lambda>x. Q (fst x)) t) l = (if l = [] \<or> Q l then entry t l else None)"
proof -
  have "map_of (filter (\<lambda>x. Q (fst x)) t) l = (if Q l then map_of t l else None)"
    by (induction t) auto
  then show ?thesis by (simp add: entry_def)
qed

lemma entry_without: "l \<noteq> [] \<Longrightarrow> entry (without l t) m = (if prefix l m then None else entry t m)"
  using entry_filter [of "\<lambda>m. \<not> prefix l m"] by (auto simp: without_def)

lemma cut_refl [simp]: "cut b t t"
  by (auto simp: cut_def intro!: exI [of _ "\<lambda>_. True"])

lemma cut_trans: "cut b t u \<Longrightarrow> cut b u v \<Longrightarrow> cut b t v"
  unfolding cut_def by (auto simp: conj_commute)

lemma cut_without: "cut b t (without (b @ [e]) t)"
  unfolding cut_def without_def by (intro exI [of _ "\<lambda>l. \<not> prefix (b @ [e]) l"]) (auto dest: prefix_snocD)

lemma cut_entry:
  assumes "cut b t t'"
  shows "entry t' l = entry t l \<or> strict_prefix b l \<and> entry t' l = None"
  using assms entry_filter by (auto simp: cut_def)

lemma cut_dirs: "cut b t t' \<Longrightarrow> dirs t b \<Longrightarrow> dirs t' b"
  using cut_entry unfolding dirs_def by (metis prefix_order.less_le_not_le)

text \<open>
  A tree: every entry is in a directory, and no name is a dot, two dots, empty or has a slash.
\<close>

definition tree_ok :: "(location \<times> node) list \<Rightarrow> bool" where
  "tree_ok t \<longleftrightarrow> (\<forall>x \<in> set t. fst x \<noteq> [] \<and> (\<forall>e \<in> set (fst x). good e) \<and> entry t (butlast (fst x)) = Some DirNode)"

lemma tree_ok_without:
  assumes "tree_ok t" "l \<noteq> []"
  shows "tree_ok (without l t)"
proof -
  have "\<not> prefix l (butlast m)" if "\<not> prefix l m" for m
    using that by (metis append_butlast_last_id butlast.simps(1) prefix_order.trans prefixI)
  then show ?thesis using assms entry_without [OF assms(2), of t] by (auto simp: tree_ok_def) (auto simp: without_def)
qed

lemma tree_ok_parent: "tree_ok t \<Longrightarrow> entry t (m @ [e]) = Some n \<Longrightarrow> entry t m = Some DirNode"
  by (fastforce simp: tree_ok_def entry_def [of t "m @ [e]"] dest: map_of_SomeD)

lemma tree_ok_absent: "tree_ok t \<Longrightarrow> entry t l = None \<Longrightarrow> prefix l m \<Longrightarrow> entry t m = None"
proof (induction m rule: rev_induct)
  case (snoc e m)
  show ?case
  proof (cases "l = m @ [e]")
    case False
    then have "entry t m = None" using snoc by (auto simp: prefix_snoc)
    then show ?thesis using tree_ok_parent [OF snoc.prems(1), of m e] by (cases "entry t (m @ [e])") auto
  qed (use snoc.prems in simp)
qed simp

lemma names_good: "tree_ok t \<Longrightarrow> e \<in> set (names_in l t) \<Longrightarrow> good e"
  by (auto simp: tree_ok_def names_in_def)

section \<open>The removal of stale directories\<close>

lemma clean_entries_effect:
  assumes "clean_entries root (path_string (True, b)) names d = (x, d')" "dirs (dk_entries d) b" "\<forall>e \<in> set b. good e"
    "tree_ok (dk_entries d)" "\<forall>e \<in> set names. good e"
  shows "cut b (dk_entries d) (dk_entries d') \<and>
    (x = None \<and> honest d \<longrightarrow> (\<forall>n \<in> set names. \<forall>m. prefix (b @ [n]) m \<longrightarrow> entry (dk_entries d') m = None))"
  using assms
proof (induction names arbitrary: d)
  case (Cons n names)
  let ?t = "dk_entries d" and ?p = "path_string (True, b @ [n])"
  have p: "Join (path_string (True, b)) n = ?p" using Join_good Cons.prems(3,5) by simp
  have at: "locate ?t ?p = Inr (b @ [n])" using locate_dirs Cons.prems(2,3,5) by simp
  have rest: "cut b ?t (dk_entries d') \<and>
      (x = None \<and> honest d \<longrightarrow> (\<forall>n \<in> set (n # names). \<forall>m. prefix (b @ [n]) m \<longrightarrow> entry (dk_entries d') m = None))"
    if go: "clean_entries root (path_string (True, b)) names e = (x, d')" and h: "honest d \<Longrightarrow> honest e"
      and t: "dk_entries e = ?t \<and> (honest d \<longrightarrow> entry ?t (b @ [n]) = None) \<or> dk_entries e = without (b @ [n]) ?t" for e
  proof -
    have c: "cut b ?t (dk_entries e)" using t cut_without by auto
    have ok: "tree_ok (dk_entries e)" using t Cons.prems(4) tree_ok_without by auto
    note ih = Cons.IH [OF go cut_dirs [OF c Cons.prems(2)] Cons.prems(3) ok]
    have gone: "entry (dk_entries e) m = None" if "honest d" "prefix (b @ [n]) m" for m
      using t that tree_ok_absent [OF Cons.prems(4)] entry_without [of "b @ [n]" ?t] by auto
    have "entry (dk_entries d') m = None" if "honest d" "prefix (b @ [n]) m" for m
      using gone [OF that] cut_entry [of b "dk_entries e" "dk_entries d'" m] ih Cons.prems(5) by auto
    then show ?thesis using ih cut_trans [OF c] h Cons.prems(5) by auto
  qed
  obtain i d1 where l: "disk_Lstat ?p d = (i, d1)" by fastforce
  note le = Lstat_effect [OF l]
  have at1: "locate (dk_entries d1) ?p = Inr (b @ [n])" using at le(1) by simp
  show ?case
  proof (cases i)
    case (Inl e)
    then show ?thesis
      using Cons.prems(1) p l le rest [of d1] at by (auto simp: Let_def split: if_splits)
  next
    case (Inr nd)
    show ?thesis
    proof (cases "nd = DirNode")
      case True
      obtain v d2 where v: "validateCanonicalDirectory root ?p d1 = (v, d2)" by fastforce
      obtain y d3 where y: "disk_RemoveAll ?p d2 = (y, d3)" by fastforce
      note ve = validate_entries [OF v]
      have "locate (dk_entries d2) ?p = Inr (b @ [n])" using at1 ve by simp
      note re = RemoveAll_effect [OF y this]
      show ?thesis
        using Cons.prems(1) p l Inr True v y le(1,2) ve re rest [of d3]
        by (auto simp: Let_def split: option.splits sum.splits)
    next
      case False
      obtain y d2 where y: "disk_Remove ?p d1 = (y, d2)" by fastforce
      note re = Remove_effect [OF y at1]
      have "(case y of Inl e \<Rightarrow> if e = ENotExist then clean_entries root (path_string (True, b)) names d2
            else (Some (PathError (if IsRegular nd then ''remove stale non-directory staging entry''
                  else ''remove stale symlink staging entry'') e), d2)
          | Inr _ \<Rightarrow> clean_entries root (path_string (True, b)) names d2) = (x, d')"
        using Cons.prems(1) p l Inr False y by (cases nd; cases y) (auto simp: Let_def split: if_splits)
      then show ?thesis
        using le(1,2) re rest [of d2] by (auto split: sum.splits if_splits)
    qed
  qed
qed simp

definition uploads_of :: "string \<Rightarrow> location" where
  "uploads_of root = snd (Clean root) @ [metadataDirectoryName, uploadsDirectoryName]"

lemma good_names [simp]: "good metadataDirectoryName" "good uploadsDirectoryName"
  by (simp_all add: good_def element_def metadataDirectoryName_def uploadsDirectoryName_def)

lemma uploads_good: "rooted root \<Longrightarrow> \<forall>e \<in> set (uploads_of root). good e"
  using Clean_good [of root] by (auto simp: uploads_of_def)

lemma uploads_path:
  assumes "rooted root"
  shows "Join (Join (path_string (True, snd (Clean root))) metadataDirectoryName) uploadsDirectoryName =
    path_string (True, uploads_of root)"
proof -
  have "\<forall>e \<in> set (snd (Clean root) @ [metadataDirectoryName]). good e" using Clean_good [OF assms] by auto
  from Join_good [OF this] show ?thesis using Join_good [OF Clean_good [OF assms]] by (simp add: uploads_of_def)
qed

lemma names_in_cover:
  assumes "tree_ok t" "strict_prefix b l" "entry t l \<noteq> None"
  shows "\<exists>n \<in> set (names_in b t). prefix (b @ [n]) l"
proof -
  obtain zs where "l = b @ zs" "zs \<noteq> []" using assms(2) by (auto simp: strict_prefix_def prefix_def)
  then obtain n rest where l: "l = b @ n # rest" by (cases zs) auto
  then have "entry t (b @ [n]) \<noteq> None" using tree_ok_absent [OF assms(1), of "b @ [n]" l] assms(3) by (intro notI) simp
  then obtain x where "(b @ [n], x) \<in> set t" by (auto simp: entry_def dest: map_of_SomeD)
  then have "n \<in> set (names_in b t)" by (force simp: names_in_def)
  then show ?thesis using l by auto
qed

lemma clean_listed:
  assumes "clean_entries root (path_string (True, b)) (names_in b (dk_entries d)) d = (x, d')"
    "dirs (dk_entries d) b" "\<forall>e \<in> set b. good e" "tree_ok (dk_entries d)"
  shows "cut b (dk_entries d) (dk_entries d')"
    "x = None \<Longrightarrow> honest d \<Longrightarrow> strict_prefix b l \<Longrightarrow> entry (dk_entries d') l = None"
proof -
  have "\<forall>e \<in> set (names_in b (dk_entries d)). good e" using names_good [OF assms(4)] by blast
  note eff = clean_entries_effect [OF assms this]
  then show c: "cut b (dk_entries d) (dk_entries d')" by simp
  show "entry (dk_entries d') l = None" if "x = None" "honest d" "strict_prefix b l"
    using eff that names_in_cover [OF assms(4) that(3)] cut_entry [OF c, of l] by metis
qed

lemma uploads_found:
  assumes "tree_ok t" "rooted root" "dirs t (snd (Clean root))" "entry t (uploads_of root) \<noteq> None"
  shows "locate t (path_string (True, uploads_of root)) = Inr (uploads_of root)"
proof -
  let ?m = "snd (Clean root) @ [metadataDirectoryName]"
  have "entry t ?m = Some DirNode" using assms(4) tree_ok_parent [OF assms(1), of ?m] by (auto simp: uploads_of_def)
  then have "dirs t ?m" using assms(3) by simp
  then show ?thesis using locate_dirs [of t ?m uploadsDirectoryName] Clean_good [OF assms(2)] by (auto simp: uploads_of_def)
qed

lemma cleanup_effect:
  assumes "CleanupStaleStaging root d = (x, d')" "rooted root" "tree_ok (dk_entries d)"
  shows "(\<forall>l. entry (dk_entries d') l \<noteq> entry (dk_entries d) l \<longrightarrow>
      strict_prefix (uploads_of root) l \<and> entry (dk_entries d') l = None) \<and>
    (x = None \<and> honest d \<longrightarrow> (\<forall>l. strict_prefix (uploads_of root) l \<longrightarrow> entry (dk_entries d') l = None))"
proof -
  let ?b = "uploads_of root" and ?t = "dk_entries d"
  let ?p = "path_string (True, ?b)"
  have done_same: ?thesis
    if "dk_entries d' = ?t" "x = None \<Longrightarrow> honest d \<Longrightarrow> entry ?t ?b = None"
    using that tree_ok_absent [OF assms(3), of ?b] by (auto simp: strict_prefix_def)
  obtain c d1 where c: "disk_Revalidate root [] d = (c, d1)" by fastforce
  note ce = Revalidate_entries [OF c]
  show ?thesis
  proof (cases c)
    case (Inl e)
    then show ?thesis using assms(1) c ce by (intro done_same) (auto simp: CleanupStaleStaging_def)
  next
    case (Inr r)
    note root = Revalidate_root [OF c [unfolded Inr] assms(2)]
    have up: "Join (Join r metadataDirectoryName) uploadsDirectoryName = ?p" using uploads_path [OF assms(2)] root(1) by simp
    obtain i d2 where i: "disk_Lstat ?p d1 = (i, d2)" by fastforce
    note le = Lstat_effect [OF i]
    have absent: "i = Inl ENotExist \<Longrightarrow> honest d \<Longrightarrow> entry ?t ?b = None"
      using uploads_found [OF assms(3,2) root(2)] le(4) [of ?b] ce by (cases "entry ?t ?b") auto
    obtain v d3 where v: "validateCanonicalDirectory r ?p d2 = (v, d3)" by fastforce
    note ve = validate_entries [OF v]
    obtain n d4 where n: "disk_ReadDir ?p d3 = (n, d4)" by fastforce
    show ?thesis
    proof (cases "\<exists>names. i = Inr DirNode \<and> v = None \<and> n = Inr names")
      case True
      then obtain names where ok: "i = Inr DirNode" "v = None" "n = Inr names" by blast
      have b: "dirs ?t ?b" using validate_dirs [of r ?b d2 d3] v ok(2) uploads_good [OF assms(2)] le(1) ce(1) by simp
      have e3: "dk_entries d3 = ?t" using ve(1) le(1) ce(1) by simp
      note re = ReadDir_effect [OF n _ uploads_good [OF assms(2)], unfolded e3, OF b]
      have "clean_entries r ?p names d4 = (x, d')"
        using assms(1) c Inr up i v n ok by (simp add: CleanupStaleStaging_def Let_def)
      then have run: "clean_entries r ?p (names_in ?b (dk_entries d4)) d4 = (x, d')" using re(1,3) ok(3) by simp
      note eff = clean_listed [OF run, unfolded re(1), OF b uploads_good [OF assms(2)] assms(3)]
      have "honest d \<Longrightarrow> honest d4" using re(2) ve(2) le(2) ce(2) by simp
      then show ?thesis using eff(2) cut_entry [OF eff(1)] by metis
    next
      case False
      have "dk_entries d4 = ?t" if "i = Inr DirNode" "v = None"
        using ReadDir_effect(1) [OF n] validate_dirs [of r ?b d2 d3] v that uploads_good [OF assms(2)] ve le(1) ce(1) by simp
      then show ?thesis
        using assms(1) c Inr up i v n False ve(1) le(1) ce(1) absent
        by (intro done_same) (auto simp: CleanupStaleStaging_def Let_def split: sum.splits node.splits if_splits option.splits)
    qed
  qed
qed


text \<open>The same for the sandbox, below the place its root resolves to.\<close>

lemma sandbox_cleanup_confined:
  assumes "CleanupStaleSandboxStaging tempDir d = (x, d')" "tree_ok (dk_entries d)"
    "entry (dk_entries d') l \<noteq> entry (dk_entries d) l"
  shows "\<exists>r. walk (dk_entries d) walk_links [] (path_elements (Join tempDir sandboxDirName)) = Inr r \<and>
    strict_prefix (uploads_of (path_string (True, r))) l \<and> entry (dk_entries d') l = None"
proof -
  let ?p = "Join tempDir sandboxDirName"
  obtain i d1 where i: "disk_Lstat ?p d = (i, d1)" by fastforce
  obtain c d2 where c: "disk_EvalSymlinks ?p d1 = (c, d2)" by fastforce
  have e: "dk_entries d1 = dk_entries d" "dk_entries d2 = dk_entries d"
    using Lstat_effect(1) [OF i] c next_outcome_same
    by (auto simp: disk_EvalSymlinks_def disk_call_def split: prod.splits option.splits)
  obtain root where run: "c = Inr root" "CleanupStaleStaging root d2 = (x, d')"
    using assms(1,3) i c e by (auto simp: CleanupStaleSandboxStaging_def Let_def split: sum.splits node.splits if_splits)
  obtain r where r: "walk (dk_entries d) walk_links [] (path_elements ?p) = Inr r" "root = path_string (True, r)"
    using c run(1) e next_outcome_same
    by (auto simp: disk_EvalSymlinks_def disk_call_def split: prod.splits option.splits sum.splits)
  show ?thesis using cleanup_effect [OF run(2)] r assms(2,3) e by auto
qed

section \<open>The creation of a staging directory\<close>

lemma Mkdir_effect:
  assumes "disk_Mkdir p d = (x, d')" "locate (dk_entries d) p = Inr l"
  shows "x = Inr u \<Longrightarrow> entry (dk_entries d) l = None \<and> dk_entries d' = (l, DirNode) # dk_entries d"
    "x = Inl e \<Longrightarrow> dk_entries d' = dk_entries d"
  using assms next_outcome_same
  by (fastforce simp: disk_Mkdir_def disk_call_def split: prod.splits option.splits if_splits)+

text \<open>The entries of \<open>S\<close> may have been created, as directories, and nothing else has changed.\<close>

definition grown :: "location set \<Rightarrow> (location \<times> node) list \<Rightarrow> (location \<times> node) list \<Rightarrow> bool" where
  "grown S t t' \<longleftrightarrow> tree_ok t' \<and>
     (\<forall>l. entry t' l = entry t l \<or> l \<in> S \<and> entry t l = None \<and> entry t' l = Some DirNode)"

lemma grown_refl [simp]: "grown S t t \<longleftrightarrow> tree_ok t"
  by (simp add: grown_def)

lemma grown_trans: "grown S t u \<Longrightarrow> grown S' u v \<Longrightarrow> grown (S \<union> S') t v"
  unfolding grown_def by (metis UnCI option.distinct(1))

lemma grown_dirs: "grown S t t' \<Longrightarrow> dirs t l \<Longrightarrow> dirs t' l"
  unfolding grown_def dirs_def by (metis option.distinct(1))

lemma grown_mkdir:
  assumes "tree_ok t" "dirs t l" "\<forall>e \<in> set l. good e" "good e" "entry t (l @ [e]) = None"
  shows "grown {l @ [e]} t ((l @ [e], DirNode) # t)"
proof -
  have new: "entry ((l @ [e], DirNode) # t) m = (if m = l @ [e] then Some DirNode else entry t m)" for m
    by (simp add: entry_def)
  have "entry t l = Some DirNode" using assms(2) by (simp add: dirs_def)
  moreover have "butlast m \<noteq> l @ [e]" if "(m, x) \<in> set t" for m x
    using that assms(1,5) by (fastforce simp: tree_ok_def)
  ultimately have "tree_ok ((l @ [e], DirNode) # t)"
    using assms by (auto simp: tree_ok_def new)
  then show ?thesis using assms(5) by (auto simp: grown_def new)
qed

lemma check_component_effect:
  assumes "check_component root p (disk_Lstat p d) = (x, d')"
  shows "dk_entries d' = dk_entries d"
    "x = None \<Longrightarrow> p = path_string (True, l) \<Longrightarrow> \<forall>e \<in> set l. good e \<Longrightarrow> dirs (dk_entries d) l"
proof -
  obtain i d1 where i: "disk_Lstat p d = (i, d1)" by fastforce
  obtain v d2 where v: "validateCanonicalDirectory root p d1 = (v, d2)" by fastforce
  note same = Lstat_effect(1) [OF i] validate_entries(1) [OF v]
  show "dk_entries d' = dk_entries d" using assms i v same by (auto simp: check_component_def split: sum.splits node.splits)
  assume x: "x = None" and p: "p = path_string (True, l)" "\<forall>e \<in> set l. good e"
  then have "v = None" using assms i v by (auto simp: check_component_def split: sum.splits node.splits)
  then show "dirs (dk_entries d) l" using validate_dirs [of root l d1 d2] v p same(1) by simp
qed

lemma ensure_effect:
  assumes "ensureCanonicalDirectory root (path_string (True, l @ [e])) d = (x, d')" "dirs (dk_entries d) l"
    "\<forall>e \<in> set l. good e" "good e" "tree_ok (dk_entries d)"
  shows "grown {l @ [e]} (dk_entries d) (dk_entries d')" "x = None \<Longrightarrow> dirs (dk_entries d') (l @ [e])"
proof -
  let ?p = "path_string (True, l @ [e])" and ?t = "dk_entries d"
  have g: "\<forall>e \<in> set (l @ [e]). good e" using assms(3,4) by simp
  obtain i d1 where i: "disk_Lstat ?p d = (i, d1)" by fastforce
  obtain y d2 where y: "disk_Mkdir ?p d1 = (y, d2)" by fastforce
  have e1: "dk_entries d1 = ?t" using Lstat_effect(1) [OF i] .
  have "locate (dk_entries d1) ?p = Inr (l @ [e])" using locate_dirs assms(2,3,4) e1 by simp
  note made = Mkdir_effect [OF y this]
  have g2: "grown {l @ [e]} ?t (dk_entries d2)"
    using made e1 assms grown_mkdir [OF assms(5,2,3,4)] by (cases y) auto
  have "grown {l @ [e]} ?t (dk_entries d') \<and> (x = None \<longrightarrow> dirs (dk_entries d') (l @ [e]))"
  proof (cases "i = Inl ENotExist")
    case False
    then have "check_component root ?p (disk_Lstat ?p d) = (x, d')"
      using assms(1) i by (auto simp: ensureCanonicalDirectory_def split: sum.splits os_error.splits)
    note cc = check_component_effect [OF this]
    show ?thesis using cc(1) cc(2) [OF _ refl g] assms(5) by simp
  next
    case True
    show ?thesis
    proof (cases "\<exists>f. y = Inl f \<and> f \<noteq> EExist")
      case stop: True
      then show ?thesis using assms(1) i y True g2 by (auto simp: ensureCanonicalDirectory_def)
    next
      case False
      then have "check_component root ?p (disk_Lstat ?p d2) = (x, d')"
        using assms(1) i y True by (auto simp: ensureCanonicalDirectory_def split: sum.splits)
      note cc = check_component_effect [OF this]
      show ?thesis using cc(1) cc(2) [OF _ refl g] g2 by simp
    qed
  qed
  then show "grown {l @ [e]} ?t (dk_entries d')" "x = None \<Longrightarrow> dirs (dk_entries d') (l @ [e])" by simp_all
qed

lemma hex_good: "sid \<noteq> [] \<Longrightarrow> good (EncodeToString sid)"
proof -
  assume "sid \<noteq> []"
  then have "EncodeToString sid \<noteq> []" using length_EncodeToString [of sid] by (metis length_0_conv mult_is_0 zero_neq_numeral)
  moreover have "c \<in> set ''0123456789abcdef''" if "c \<in> set (EncodeToString sid)" for c
    using that EncodeToString_digits by blast
  then have "CHR ''/'' \<notin> set (EncodeToString sid)" "CHR ''.'' \<notin> set (EncodeToString sid)" by fastforce+
  ultimately show ?thesis by (auto simp: good_def element_def)
qed

lemma make_session_effect:
  assumes "make_session_directory root (path_string (True, l @ [e])) d = (x, d')" "dirs (dk_entries d) l"
    "\<forall>e \<in> set l. good e" "good e" "tree_ok (dk_entries d)"
  shows "grown {l @ [e]} (dk_entries d) (dk_entries d')"
    "x = Inr st \<Longrightarrow> st = new_staging root (path_string (True, l @ [e])) \<and> dirs (dk_entries d') (l @ [e]) \<and>
       entry (dk_entries d) (l @ [e]) = None"
proof -
  let ?p = "path_string (True, l @ [e])" and ?t = "dk_entries d" and ?n = "(l @ [e], DirNode) # dk_entries d"
  obtain y d1 where y: "disk_Mkdir ?p d = (y, d1)" by fastforce
  obtain v d2 where v: "validateCanonicalDirectory root ?p d1 = (v, d2)" by fastforce
  obtain z d3 where z: "disk_Remove ?p d2 = (z, d3)" by fastforce
  have at: "locate ?t ?p = Inr (l @ [e])" using locate_dirs assms(2,3,4) by simp
  note made = Mkdir_effect [OF y at]
  have "grown {l @ [e]} ?t (dk_entries d') \<and> (x = Inr st \<longrightarrow> st = new_staging root ?p \<and>
      dirs (dk_entries d') (l @ [e]) \<and> entry ?t (l @ [e]) = None)"
  proof (cases y)
    case (Inl f)
    then show ?thesis using assms(1,5) y made(2) by (auto simp: make_session_directory_def)
  next
    case (Inr u)
    then have new: "entry ?t (l @ [e]) = None" "dk_entries d2 = ?n"
      using made(1) validate_entries(1) [OF v] by auto
    note g = grown_mkdir [OF assms(5,2,3,4) new(1)]
    have d: "dirs ?n l" "dirs ?n (l @ [e])" using grown_dirs [OF g assms(2)] by (auto simp: entry_def)
    then have "locate (dk_entries d2) ?p = Inr (l @ [e])" using locate_dirs assms(3,4) new(2) by simp
    note gone = Remove_effect(2,3) [OF z this]
    have "\<not> prefix (l @ [e]) a" if "(a, b) \<in> set ?t" for a b
      using tree_ok_absent [OF assms(5) new(1), of a] weak_map_of_SomeI [OF that] by (auto simp: entry_def split: if_splits)
    then have "filter (\<lambda>x. \<not> prefix (l @ [e]) (fst x)) ?t = ?t" by (auto simp: filter_id_conv)
    then have undone: "without (l @ [e]) ?n = ?t" by (simp add: without_def)
    show ?thesis
    proof (cases v)
      case None
      then show ?thesis using assms(1) y v Inr g d(2) new by (auto simp: make_session_directory_def)
    next
      case (Some f)
      then have "x = Inl (wrap_error ''validate session staging directory: '' f)" "d' = d3"
        using assms(1) y v z Inr by (auto simp: make_session_directory_def)
      then show ?thesis using gone undone new(2) g assms(5) by (cases z) auto
    qed
  qed
  then show "grown {l @ [e]} ?t (dk_entries d')"
    "x = Inr st \<Longrightarrow> st = new_staging root ?p \<and> dirs (dk_entries d') (l @ [e]) \<and> entry ?t (l @ [e]) = None" by simp_all
qed

lemma create_effect:
  assumes "CreateSessionStaging root sid d = (x, d')" "rooted root" "tree_ok (dk_entries d)"
    and dir: "dir = uploads_of root @ [EncodeToString sid]"
  shows "grown {butlast (uploads_of root), uploads_of root, dir} (dk_entries d) (dk_entries d') \<and>
    (x = Inr st \<longrightarrow> 0 < length sid \<and> length sid \<le> maxSessionIDBytes \<and>
      st = new_staging (clean_path root) (path_string (True, dir)) \<and> dirs (dk_entries d') dir \<and> entry (dk_entries d) dir = None)"
proof -
  let ?t = "dk_entries d" and ?R = "snd (Clean root)" and ?u = "uploads_of root"
  let ?m = "?R @ [metadataDirectoryName]" and ?S = "{butlast (uploads_of root), uploads_of root, dir}"
  have m: "butlast ?u = ?m" "?u = ?m @ [uploadsDirectoryName]" by (simp_all add: uploads_of_def butlast_append)
  have R: "\<forall>e \<in> set ?R. good e" "\<forall>e \<in> set ?m. good e" "\<forall>e \<in> set ?u. good e"
    using Clean_good [OF assms(2)] by (auto simp: uploads_of_def)
  have stop: ?thesis if "grown T ?t (dk_entries d')" "T \<subseteq> ?S" "\<forall>st. x \<noteq> Inr st" for T
    using that by (auto simp: grown_def)
  obtain c d1 where c: "disk_Revalidate root [] d = (c, d1)" by fastforce
  have e1: "dk_entries d1 = ?t" using Revalidate_entries(1) [OF c] .
  show ?thesis
  proof (cases "0 < length sid \<and> length sid \<le> maxSessionIDBytes \<and> (\<exists>r. c = Inr r)")
    case False
    then have "dk_entries d' = ?t \<and> (\<forall>st. x \<noteq> Inr st)"
      using assms(1) c e1 by (auto simp: CreateSessionStaging_def split: if_splits sum.splits)
    then show ?thesis using assms(3) by (intro stop [of "{}"]) auto
  next
    case True
    then obtain r where ok: "c = Inr r" "sid \<noteq> []" "length sid \<le> maxSessionIDBytes" by auto
    note root = Revalidate_root [OF c [unfolded ok(1)] assms(2)]
    have paths: "Join r metadataDirectoryName = path_string (True, ?m)"
      "Join (path_string (True, ?m)) uploadsDirectoryName = path_string (True, ?m @ [uploadsDirectoryName])"
      "Join (path_string (True, ?m @ [uploadsDirectoryName])) (EncodeToString sid) = path_string (True, ?u @ [EncodeToString sid])"
      using Join_good [OF R(1)] Join_good [OF R(2)] Join_good [OF R(3) hex_good [OF ok(2)]] root(1) m(2) by simp_all
    obtain x1 d2 where x1: "ensureCanonicalDirectory r (path_string (True, ?m)) d1 = (x1, d2)" by fastforce
    obtain x2 d3 where x2: "ensureCanonicalDirectory r (path_string (True, ?m @ [uploadsDirectoryName])) d2 = (x2, d3)" by fastforce
    obtain x3 d4 where x3: "make_session_directory r (path_string (True, ?u @ [EncodeToString sid])) d3 = (x3, d4)" by fastforce
    note ef1 = ensure_effect [OF x1, unfolded e1, OF root(2) R(1) good_names(1) assms(3)]
    have out: "(x, d') = (case x1 of Some e \<Rightarrow> (Inl (wrap_error ''prepare staging metadata directory: '' e), d2)
      | None \<Rightarrow> (case x2 of Some e \<Rightarrow> (Inl (wrap_error ''prepare staging uploads directory: '' e), d3) | None \<Rightarrow> (x3, d4)))"
      using assms(1) c ok x1 x2 x3 paths by (auto simp: CreateSessionStaging_def Let_def split: option.splits)
    show ?thesis
    proof (cases "x1 = None")
      case False
      then show ?thesis using out ef1(1) m(1) by (intro stop [of "{?m}"]) auto
    next
      case x1: True
      have ok2: "tree_ok (dk_entries d2)" using ef1(1) by (simp add: grown_def)
      note ef2 = ensure_effect [OF x2 ef1(2) [OF x1] R(2) good_names(2) ok2]
      have g3: "grown {?m, ?u} ?t (dk_entries d3)" using grown_trans [OF ef1(1) ef2(1)] m(2) by (simp add: insert_commute)
      show ?thesis
      proof (cases "x2 = None")
        case False
        then show ?thesis using out x1 g3 m(1) by (intro stop [of "{?m, ?u}"]) auto
      next
        case True
        have ok3: "tree_ok (dk_entries d3)" using g3 by (simp add: grown_def)
        have u3: "dirs (dk_entries d3) ?u" using ef2(2) [OF True] m(2) by simp
        note ef3 = make_session_effect [OF x3 u3 R(3) hex_good [OF ok(2)] ok3]
        have "grown {?m, ?u, dir} ?t (dk_entries d4)"
          using grown_trans [OF g3 ef3(1)] dir by (simp add: insert_commute)
        moreover have "entry (dk_entries d3) dir = None \<Longrightarrow> entry ?t dir = None" using g3 unfolding grown_def by metis
        moreover have "clean_path root = r" using root(1) assms(2) by (simp add: clean_path_def Clean_def)
        ultimately show ?thesis using out x1 True ef3(2) [of st] ok dir m(1) by auto
      qed
    qed
  qed
qed

text \<open>
  A session's staging directory is new, empty and inside its workspace. For every tree, root, session
  ID and pattern of failing calls, creating one removes and replaces nothing, and creates at most the
  directories \<^verbatim>\<open>.vibebridge\<close>, \<^verbatim>\<open>.vibebridge/uploads\<close> and the one named by the session ID in hexadecimal,
  below the root itself, never through a link. When it succeeds the last of them did not exist
  before, is empty, and is reached through directories only.
\<close>

theorem session_staging_fresh:
  assumes "CreateSessionStaging root sid d = (x, d')" "rooted root" "tree_ok (dk_entries d)"
    and dir: "dir = uploads_of root @ [EncodeToString sid]"
  shows "(\<forall>l. entry (dk_entries d') l \<noteq> entry (dk_entries d) l \<longrightarrow>
      l \<in> {butlast (uploads_of root), uploads_of root, dir} \<and> entry (dk_entries d) l = None \<and>
      entry (dk_entries d') l = Some DirNode) \<and>
    (\<forall>st. x = Inr st \<longrightarrow> 0 < length sid \<and> length sid \<le> maxSessionIDBytes \<and>
      st_workspaceRoot st = clean_path root \<and> st_path st = path_string (True, dir) \<and>
      dirs (dk_entries d') dir \<and> entry (dk_entries d) dir = None \<and>
      (\<forall>l. strict_prefix dir l \<longrightarrow> entry (dk_entries d') l = None))"
proof -
  let ?S = "{butlast (uploads_of root), uploads_of root, dir}"
  note eff = create_effect [OF assms]
  have e: "entry (dk_entries d') l = entry (dk_entries d) l \<or>
      l \<in> ?S \<and> entry (dk_entries d) l = None \<and> entry (dk_entries d') l = Some DirNode" for l
    using eff by (auto simp: grown_def)
  have "entry (dk_entries d') l = None" if "entry (dk_entries d) dir = None" "strict_prefix dir l" for l
  proof -
    have "length (uploads_of root) < length l" "l \<noteq> dir" using prefix_length_less [OF that(2)] dir by auto
    then have "l \<notin> ?S" by auto
    then show ?thesis using e [of l] tree_ok_absent [OF assms(3) that(1)] that(2) by (auto simp: strict_prefix_def)
  qed
  then have "0 < length sid \<and> length sid \<le> maxSessionIDBytes \<and>
      st_workspaceRoot st = clean_path root \<and> st_path st = path_string (True, dir) \<and>
      dirs (dk_entries d') dir \<and> entry (dk_entries d) dir = None \<and>
      (\<forall>l. strict_prefix dir l \<longrightarrow> entry (dk_entries d') l = None)" if "x = Inr st" for st
    using eff [of st] that by (simp add: new_staging_def)
  moreover have "entry (dk_entries d') l \<noteq> entry (dk_entries d) l \<longrightarrow>
      l \<in> ?S \<and> entry (dk_entries d) l = None \<and> entry (dk_entries d') l = Some DirNode" for l using e [of l] by argo
  ultimately show ?thesis by blast
qed

section \<open>Example\<close>

text \<open>A workspace whose uploads hold a link to another directory, a file and a session's directory.\<close>

definition example_disk :: disk where
  "example_disk =
     \<lparr>dk_entries = [([''w''], DirNode), ([''w'', ''.vibebridge''], DirNode), ([''w'', ''.vibebridge'', ''uploads''], DirNode),
        ([''w'', ''.vibebridge'', ''uploads'', ''l''], LinkNode ''../../../home''),
        ([''w'', ''.vibebridge'', ''uploads'', ''f''], FileNode 1),
        ([''w'', ''.vibebridge'', ''uploads'', ''0a''], DirNode),
        ([''w'', ''.vibebridge'', ''uploads'', ''0a'', ''x''], FileNode 2),
        ([''home''], DirNode), ([''home'', ''k''], FileNode 3)],
      dk_wd = None, dk_outcomes = []\<rparr>"

lemma example_tree: "tree_ok (dk_entries example_disk)" "rooted ''/w''" "honest example_disk"
  by (simp_all add: tree_ok_def example_disk_def entry_def good_def element_def rooted_def honest_def)

lemma example_cleaned:
  "fst (CleanupStaleStaging ''/w'' example_disk) = None \<and>
   entry (dk_entries (snd (CleanupStaleStaging ''/w'' example_disk))) [''home'', ''k''] = Some (FileNode 3)"
  by code_simp

lemma example_created:
  "\<not> isl (fst (CreateSessionStaging ''/w'' [0x0b] example_disk))"
  "fst (CreateSessionStaging ''/w'' [0x0a] example_disk) = Inl (PathError ''create session staging directory'' EExist)"
  by code_simp+


theorem session_staging_fresh_witness:
  "\<exists>st. fst (CreateSessionStaging ''/w'' [0x0b] example_disk) = Inr st \<and> st_path st = ''/w/.vibebridge/uploads/0b'' \<and>
     entry (dk_entries (snd (CreateSessionStaging ''/w'' [0x0b] example_disk))) [''home'', ''k''] =
       entry (dk_entries example_disk) [''home'', ''k'']"
proof -
  have dir: "path_string (True, uploads_of ''/w'' @ [EncodeToString [0x0b]]) = ''/w/.vibebridge/uploads/0b''"
    "[''home'', ''k''] \<notin> {butlast (uploads_of ''/w''), uploads_of ''/w'', uploads_of ''/w'' @ [EncodeToString [0x0b]]}"
    by code_simp+
  obtain st where "fst (CreateSessionStaging ''/w'' [0x0b] example_disk) = Inr st"
    using example_created(1) by (cases "fst (CreateSessionStaging ''/w'' [0x0b] example_disk)") auto
  then show ?thesis
    using session_staging_fresh [OF prod.collapse [symmetric] example_tree(2,1) refl, of "[0x0b]"] dir by metis
qed

end
