(* ===== verification/Replay_Buffer.thy ===== *)
theory Replay_Buffer
  imports Prelude
begin

text \<open>
  The byte- and age-bounded buffer that holds terminal output while no client is attached
  (\<^verbatim>\<open>src/internal/server/replay_buffer.go\<close>). The clock the Go struct stores as a function is
  the argument \<open>now\<close> of the operations that read it. The loops of \<^verbatim>\<open>append\<close> and
  \<^verbatim>\<open>pruneExpired\<close> are structural recursions over the entries.
\<close>

section \<open>Model\<close>

record bufferedOutput =
  bo_data :: bytes
  bo_receivedAt :: time

record replayBuffer =
  rb_maxBytes :: int
  rb_maxAge :: duration
  rb_entries :: "bufferedOutput list"
  rb_bytes :: int
  rb_truncated :: bool

definition newReplayBuffer :: "int \<Rightarrow> duration \<Rightarrow> replayBuffer" where
  "newReplayBuffer maxBytes maxAge =
     \<lparr>rb_maxBytes = maxBytes, rb_maxAge = maxAge, rb_entries = [], rb_bytes = 0, rb_truncated = False\<rparr>"

text \<open>The loop of \<^verbatim>\<open>pruneExpired\<close>: leading entries older than the cutoff are dropped.\<close>

fun prune_loop :: "time \<Rightarrow> bufferedOutput list \<Rightarrow> int \<Rightarrow> bool \<Rightarrow> bufferedOutput list \<times> int \<times> bool" where
  "prune_loop cutoff [] n t = ([], n, t)"
| "prune_loop cutoff (e # es) n t =
     (if bo_receivedAt e < cutoff
      then prune_loop cutoff es (n - int (length (bo_data e))) True
      else (e # es, n, t))"

definition pruneExpired :: "time \<Rightarrow> replayBuffer \<Rightarrow> replayBuffer" where
  "pruneExpired now b =
     (let cutoff = now - rb_maxAge b;
          (es, n, t) = prune_loop cutoff (rb_entries b) (rb_bytes b) (rb_truncated b)
      in b\<lparr>rb_entries := es, rb_bytes := n, rb_truncated := t\<rparr>)"

text \<open>The eviction loop of \<^verbatim>\<open>append\<close>: the oldest bytes go until the total fits.\<close>

fun evict_loop :: "int \<Rightarrow> bufferedOutput list \<Rightarrow> int \<Rightarrow> bool \<Rightarrow> bufferedOutput list \<times> int \<times> bool" where
  "evict_loop maxBytes [] n t = ([], n, t)"
| "evict_loop maxBytes (e # es) n t =
     (if n > maxBytes then
        (let overflow = n - maxBytes in
         if overflow < int (length (bo_data e))
         then (e\<lparr>bo_data := drop (nat overflow) (bo_data e)\<rparr> # es, n - overflow, True)
         else evict_loop maxBytes es (n - int (length (bo_data e))) True)
      else (e # es, n, t))"

definition rb_append :: "time \<Rightarrow> bytes \<Rightarrow> replayBuffer \<Rightarrow> replayBuffer" where
  "rb_append now data b =
     (if length data = 0 then b
      else if rb_maxBytes b \<le> 0 \<or> rb_maxAge b \<le> 0 then b\<lparr>rb_truncated := True\<rparr>
      else
        (let b1 = pruneExpired now b;
             tooLong = int (length data) > rb_maxBytes b1;
             data1 = (if tooLong then drop (nat (int (length data) - rb_maxBytes b1)) data else data);
             t1 = (if tooLong then True else rb_truncated b1);
             es = rb_entries b1 @ [\<lparr>bo_data = data1, bo_receivedAt = now\<rparr>];
             n = rb_bytes b1 + int (length data1);
             (es', n', t') = evict_loop (rb_maxBytes b1) es n t1
         in b1\<lparr>rb_entries := es', rb_bytes := n', rb_truncated := t'\<rparr>))"

definition snapshot :: "replayBuffer \<Rightarrow> bytes list" where
  "snapshot b = map bo_data (rb_entries b)"

definition drainWithStatus :: "time \<Rightarrow> replayBuffer \<Rightarrow> replayBuffer \<times> bytes list \<times> bool" where
  "drainWithStatus now b =
     (let b1 = pruneExpired now b;
          output = snapshot b1;
          complete = (\<not> rb_truncated b1)
      in (b1\<lparr>rb_entries := [], rb_bytes := 0, rb_truncated := False\<rparr>, output, complete))"

definition drain :: "time \<Rightarrow> replayBuffer \<Rightarrow> replayBuffer \<times> bytes list" where
  "drain now b = (let (b1, output, _) = drainWithStatus now b in (b1, output))"

section \<open>What the buffer holds\<close>

definition flat :: "bufferedOutput list \<Rightarrow> bytes" where
  "flat es = concat (map bo_data es)"

lemma flat_simps [simp]: "flat [] = []" "flat (e # es) = bo_data e @ flat es" "flat (es @ es') = flat es @ flat es'"
  by (simp_all add: flat_def)

text \<open>The same bytes, each with the time its entry arrived.\<close>

definition tag :: "bufferedOutput list \<Rightarrow> (time \<times> byte) list" where
  "tag es = concat (map (\<lambda>e. map (Pair (bo_receivedAt e)) (bo_data e)) es)"

lemma tag_simps [simp]:
  "tag [] = []" "tag (e # es) = map (Pair (bo_receivedAt e)) (bo_data e) @ tag es" "tag (es @ es') = tag es @ tag es'"
  by (simp_all add: tag_def)

lemma flat_tag: "flat es = map snd (tag es)"
  by (induction es) (simp_all add: comp_def)

lemma length_tag [simp]: "length (tag es) = length (flat es)"
  by (simp add: flat_tag)

definition rb_inv :: "replayBuffer \<Rightarrow> bool" where
  "rb_inv b \<longleftrightarrow> rb_bytes b = int (length (flat (rb_entries b)))
     \<and> rb_bytes b \<le> max 0 (rb_maxBytes b)
     \<and> (rb_maxBytes b \<le> 0 \<or> rb_maxAge b \<le> 0 \<longrightarrow> rb_entries b = [])
     \<and> (\<forall>e \<in> set (rb_entries b). bo_data e \<noteq> [])"

lemma prune_loop_eq:
  "prune_loop c es n t =
     (dropWhile (\<lambda>e. bo_receivedAt e < c) es,
      n - int (length (flat (takeWhile (\<lambda>e. bo_receivedAt e < c) es))),
      t \<or> takeWhile (\<lambda>e. bo_receivedAt e < c) es \<noteq> [])"
  by (induction es arbitrary: n t) auto

lemma length_flat_split:
  "length (flat es) = length (flat (takeWhile P es)) + length (flat (dropWhile P es))"
  by (metis flat_simps(3) length_append takeWhile_dropWhile_id)

lemma pruneExpired_fields [simp]:
  "rb_maxBytes (pruneExpired now b) = rb_maxBytes b"
  "rb_maxAge (pruneExpired now b) = rb_maxAge b"
  "rb_entries (pruneExpired now b) = dropWhile (\<lambda>e. bo_receivedAt e < now - rb_maxAge b) (rb_entries b)"
  "rb_truncated (pruneExpired now b) \<longleftrightarrow>
     rb_truncated b \<or> takeWhile (\<lambda>e. bo_receivedAt e < now - rb_maxAge b) (rb_entries b) \<noteq> []"
  by (simp_all add: pruneExpired_def prune_loop_eq Let_def)

lemma pruneExpired_bytes:
  "rb_bytes b = int (length (flat (rb_entries b))) \<Longrightarrow>
   rb_bytes (pruneExpired now b) = int (length (flat (rb_entries (pruneExpired now b))))"
  using length_flat_split [of "rb_entries b" "\<lambda>e. bo_receivedAt e < now - rb_maxAge b"]
  by (simp add: pruneExpired_def prune_loop_eq Let_def)

lemma sorted_map_dropWhile: "sorted (map f es) \<Longrightarrow> sorted (map f (dropWhile P es))"
  by (metis dropWhile_eq_drop sorted_wrt_drop drop_map)

lemma pruneExpired_inv: "rb_inv b \<Longrightarrow> rb_inv (pruneExpired now b)"
  using pruneExpired_bytes [of b now]
    length_flat_split [of "rb_entries b" "\<lambda>e. bo_receivedAt e < now - rb_maxAge b"]
  by (auto simp: rb_inv_def dest: set_dropWhileD)

text \<open>Eviction keeps exactly the last \<open>maxBytes\<close> bytes and never reorders entries.\<close>

lemma evict_loop_bytes:
  assumes "evict_loop mx es n t = (es', n', t')" and "n = int (length (flat es))" and "0 \<le> mx"
  shows "tag es' = lastn (nat mx) (tag es) \<and> n' = int (length (flat es')) \<and> n' \<le> mx"
  using assms
proof (induction mx es n t arbitrary: es' n' t' rule: evict_loop.induct)
  case (1 mx n t)
  then show ?case by (simp add: lastn_def)
next
  case (2 mx e es n t)
  note P = "2.prems"
  show ?case
  proof (cases "n > mx")
    case False
    with P show ?thesis by auto
  next
    case True
    show ?thesis
    proof (cases "n - mx < int (length (bo_data e))")
      case True
      with P \<open>n > mx\<close> have es': "es' = e\<lparr>bo_data := drop (nat (n - mx)) (bo_data e)\<rparr> # es" and n': "n' = mx"
        by auto
      have "length (tag (e # es)) - nat mx = nat (n - mx)"
        using P \<open>n > mx\<close> by simp
      then have "lastn (nat mx) (tag (e # es)) =
          drop (nat (n - mx)) (map (Pair (bo_receivedAt e)) (bo_data e) @ tag es)"
        by (simp add: lastn_def)
      also have "\<dots> = tag es'"
        using True es' by (simp add: drop_map)
      finally have "tag es' = lastn (nat mx) (tag (e # es))" by simp
      then show ?thesis using n' P \<open>n > mx\<close> length_tag [of es'] by simp
    next
      case False
      from P False \<open>n > mx\<close> have
        "evict_loop mx es (n - int (length (bo_data e))) True = (es', n', t')"
        by (simp add: Let_def)
      moreover have "n - int (length (bo_data e)) = int (length (flat es))"
        using P by simp
      ultimately have IH: "tag es' = lastn (nat mx) (tag es) \<and> n' = int (length (flat es')) \<and> n' \<le> mx"
        using "2.IH" [OF \<open>n > mx\<close> refl False] P(3) by blast
      have "nat mx \<le> length (flat es)" using False P by simp
      then show ?thesis using IH by (simp add: lastn_append_right)
    qed
  qed
qed

lemma evict_loop_times: "evict_loop mx es n t = (es', n', t') \<Longrightarrow> sorted (map bo_receivedAt es) \<Longrightarrow>
   sorted (map bo_receivedAt es') \<and> set (map bo_receivedAt es') \<subseteq> set (map bo_receivedAt es)"
  by (induction mx es n t rule: evict_loop.induct) (auto simp: Let_def split: if_splits)

lemma evict_loop_nonempty: "evict_loop mx es n t = (es', n', t') \<Longrightarrow> \<forall>e \<in> set es. bo_data e \<noteq> [] \<Longrightarrow>
   0 \<le> mx \<Longrightarrow> \<forall>e \<in> set es'. bo_data e \<noteq> []"
  by (induction mx es n t rule: evict_loop.induct) (auto simp: Let_def split: if_splits)

lemma evict_loop_truncated: "evict_loop mx es n t = (es', n', t') \<Longrightarrow> n = int (length (flat es)) \<Longrightarrow>
   t' \<longleftrightarrow> t \<or> n > mx \<and> es \<noteq> []"
  by (induction mx es n t rule: evict_loop.induct) (auto simp: Let_def split: if_splits)

section \<open>Functional behaviour\<close>

definition still_fresh :: "time \<Rightarrow> replayBuffer \<Rightarrow> bufferedOutput list" where
  "still_fresh now b = dropWhile (\<lambda>e. bo_receivedAt e < now - rb_maxAge b) (rb_entries b)"

definition has_expired :: "time \<Rightarrow> replayBuffer \<Rightarrow> bool" where
  "has_expired now b \<longleftrightarrow> takeWhile (\<lambda>e. bo_receivedAt e < now - rb_maxAge b) (rb_entries b) \<noteq> []"

lemma rb_append_kept:
  assumes inv: "rb_inv b" and lim: "0 < rb_maxBytes b" "0 < rb_maxAge b" and d: "d \<noteq> []"
  shows "tag (rb_entries (rb_append now d b)) =
           lastn (nat (rb_maxBytes b)) (tag (still_fresh now b) @ map (Pair now) d)"
    and "rb_bytes (rb_append now d b) = int (length (flat (rb_entries (rb_append now d b))))"
    and "rb_bytes (rb_append now d b) \<le> rb_maxBytes b"
    and "rb_truncated (rb_append now d b) \<longleftrightarrow> rb_truncated b \<or> has_expired now b
           \<or> int (length (flat (still_fresh now b) @ d)) > rb_maxBytes b"
    and "rb_maxBytes (rb_append now d b) = rb_maxBytes b" "rb_maxAge (rb_append now d b) = rb_maxAge b"
    and "\<forall>e \<in> set (rb_entries (rb_append now d b)). bo_data e \<noteq> []"
proof -
  let ?mx = "rb_maxBytes b" and ?b1 = "pruneExpired now b" and ?long = "int (length d) > rb_maxBytes b"
  define d1 where "d1 = (if ?long then drop (nat (int (length d) - ?mx)) d else d)"
  define es where "es = rb_entries ?b1 @ [\<lparr>bo_data = d1, bo_receivedAt = now\<rparr>]"
  obtain es' n' t' where ev:
    "evict_loop ?mx es (rb_bytes ?b1 + int (length d1)) (if ?long then True else rb_truncated ?b1) = (es', n', t')"
    by (metis prod_cases3)
  have app: "rb_append now d b = ?b1\<lparr>rb_entries := es', rb_bytes := n', rb_truncated := t'\<rparr>"
    using ev lim d unfolding rb_append_def es_def d1_def by (cases ?long) (simp_all add: Let_def)
  have n: "rb_bytes ?b1 + int (length d1) = int (length (flat es))"
    using pruneExpired_bytes [of b now] inv by (simp add: rb_inv_def es_def)
  have kept: "tag es' = lastn (nat ?mx) (tag es)" "n' = int (length (flat es'))" "n' \<le> ?mx"
    using evict_loop_bytes [OF ev n] lim by auto
  have d1: "lastn (nat ?mx) (tag es) = lastn (nat ?mx) (tag (still_fresh now b) @ map (Pair now) d)"
  proof (cases ?long)
    case True
    moreover have "nat (int (length d) - ?mx) = length d - nat ?mx"
      using lim by linarith
    ultimately have "length d1 = nat ?mx" and "d1 = lastn (nat ?mx) d"
      using lim by (simp_all add: d1_def lastn_def)
    then show ?thesis using True by (simp add: es_def lastn_append_right map_lastn)
  next
    case False
    then show ?thesis by (simp add: es_def d1_def still_fresh_def)
  qed
  show "tag (rb_entries (rb_append now d b)) = lastn (nat ?mx) (tag (still_fresh now b) @ map (Pair now) d)"
    using app kept d1 by simp
  have "d1 \<noteq> []" using d lim by (auto simp: d1_def)
  then have "\<forall>e \<in> set es. bo_data e \<noteq> []"
    using inv by (auto simp: es_def rb_inv_def dest: set_dropWhileD)
  then show "\<forall>e \<in> set (rb_entries (rb_append now d b)). bo_data e \<noteq> []"
    using evict_loop_nonempty [OF ev] lim app by simp
  show "rb_bytes (rb_append now d b) = int (length (flat (rb_entries (rb_append now d b))))"
    "rb_bytes (rb_append now d b) \<le> ?mx"
    using app kept by simp_all
  show "rb_truncated (rb_append now d b) \<longleftrightarrow> rb_truncated b \<or> has_expired now b
           \<or> int (length (flat (still_fresh now b) @ d)) > ?mx"
  proof (cases ?long)
    case True
    then show ?thesis using evict_loop_truncated [OF ev n] app by simp
  next
    case False
    then have "length (flat es) = length (flat (still_fresh now b) @ d)"
      by (simp add: es_def d1_def still_fresh_def)
    then show ?thesis using evict_loop_truncated [OF ev n] app False n
      by (auto simp: has_expired_def es_def)
  qed
  show "rb_maxBytes (rb_append now d b) = ?mx" "rb_maxAge (rb_append now d b) = rb_maxAge b"
    using app by simp_all
qed

lemma rb_append_flat:
  assumes "rb_inv b" "0 < rb_maxBytes b" "0 < rb_maxAge b" "d \<noteq> []"
  shows "flat (rb_entries (rb_append now d b)) = lastn (nat (rb_maxBytes b)) (flat (still_fresh now b) @ d)"
proof -
  have "map snd (tag (rb_entries (rb_append now d b))) =
        lastn (nat (rb_maxBytes b)) (map snd (tag (still_fresh now b) @ map (Pair now) d))"
    unfolding rb_append_kept(1) [OF assms, of now] by (rule map_lastn)
  then show ?thesis by (simp add: flat_tag comp_def del: length_tag)
qed

lemma rb_append_refused:
  "rb_maxBytes b \<le> 0 \<or> rb_maxAge b \<le> 0 \<Longrightarrow> d \<noteq> [] \<Longrightarrow> rb_append now d b = b\<lparr>rb_truncated := True\<rparr>"
  by (simp add: rb_append_def)

lemma rb_append_Nil [simp]: "rb_append now [] b = b"
  by (simp add: rb_append_def)

lemma rb_append_inv: "rb_inv b \<Longrightarrow> rb_inv (rb_append now d b)"
proof (cases "d = []")
  case False
  assume inv: "rb_inv b"
  show ?thesis
  proof (cases "rb_maxBytes b \<le> 0 \<or> rb_maxAge b \<le> 0")
    case True
    then show ?thesis using inv False by (simp add: rb_append_refused rb_inv_def)
  next
    case nonpos: False
    then show ?thesis
      using rb_append_kept [OF inv _ _ False, of now] by (simp add: rb_inv_def)
  qed
qed simp

lemma drainWithStatus_inv: "rb_inv (fst (drainWithStatus now b))"
  by (simp add: drainWithStatus_def rb_inv_def Let_def)

lemma newReplayBuffer_inv: "rb_inv (newReplayBuffer mx age)"
  by (simp add: newReplayBuffer_def rb_inv_def)

section \<open>The buffer as an output log\<close>

text \<open>
  What a session relies on: a log that remembers every byte appended since the last drain, or
  says that it does not. \<open>rel b h\<close> reads: \<open>h\<close> is what was appended since the last drain.
\<close>

locale output_log =
  fixes append :: "time \<Rightarrow> bytes \<Rightarrow> 'b \<Rightarrow> 'b"
    and drains :: "time \<Rightarrow> 'b \<Rightarrow> 'b \<times> bytes list \<times> bool"
    and rel :: "'b \<Rightarrow> bytes \<Rightarrow> bool"
  assumes append_rel: "rel b h \<Longrightarrow> rel (append now d b) (h @ d)"
    and drain_suffix: "rel b h \<Longrightarrow> drains now b = (b', out, c) \<Longrightarrow> \<exists>lost. h = lost @ concat out"
    and drain_complete: "rel b h \<Longrightarrow> drains now b = (b', out, c) \<Longrightarrow> c \<longleftrightarrow> concat out = h"
    and drain_rel: "rel b h \<Longrightarrow> drains now b = (b', out, c) \<Longrightarrow> rel b' []"
begin

definition appends :: "(time \<times> bytes) list \<Rightarrow> 'b \<Rightarrow> 'b" where
  "appends evs b = fold (\<lambda>(t, d). append t d) evs b"

lemma appends_rel: "rel b h \<Longrightarrow> rel (appends evs b) (h @ concat (map snd evs))"
proof (induction evs arbitrary: b h)
  case Nil
  then show ?case by (simp add: appends_def)
next
  case (Cons e evs)
  obtain t d where e: "e = (t, d)" by (cases e)
  have "rel (appends evs (append t d b)) ((h @ d) @ concat (map snd evs))"
    by (rule Cons.IH [OF append_rel [OF Cons.prems]])
  then show ?case by (simp add: appends_def e)
qed

lemma appends_drain:
  assumes "rel b []" and "drains now (appends evs b) = (b', out, c)"
  shows "\<exists>lost. concat (map snd evs) = lost @ concat out \<and> (c \<longleftrightarrow> lost = [])"
proof -
  have r: "rel (appends evs b) (concat (map snd evs))"
    using appends_rel [OF assms(1)] by simp
  obtain lost where "concat (map snd evs) = lost @ concat out"
    using drain_suffix [OF r assms(2)] by blast
  moreover have "c \<longleftrightarrow> concat out = concat (map snd evs)"
    by (rule drain_complete [OF r assms(2)])
  ultimately show ?thesis by (metis append_self_conv2)
qed

end

definition rb_rel :: "replayBuffer \<Rightarrow> bytes \<Rightarrow> bool" where
  "rb_rel b h \<longleftrightarrow> rb_inv b \<and> (\<exists>lost. h = lost @ flat (rb_entries b) \<and> (lost \<noteq> [] \<longleftrightarrow> rb_truncated b))"

lemma still_fresh_suffix:
  assumes "rb_inv b"
  shows "\<exists>old. flat (rb_entries b) = old @ flat (still_fresh now b) \<and> (old \<noteq> [] \<longleftrightarrow> has_expired now b)"
proof -
  let ?t = "takeWhile (\<lambda>e. bo_receivedAt e < now - rb_maxAge b) (rb_entries b)"
  have "flat (rb_entries b) = flat ?t @ flat (still_fresh now b)"
    by (simp add: still_fresh_def flip: flat_simps(3))
  moreover have "flat ?t \<noteq> [] \<longleftrightarrow> ?t \<noteq> []"
  proof (cases ?t)
    case (Cons e es)
    then have "e \<in> set (rb_entries b)" by (metis list.set_intros(1) set_takeWhileD)
    then show ?thesis using assms Cons by (simp add: rb_inv_def)
  qed simp
  ultimately show ?thesis by (auto simp: has_expired_def)
qed

lemma rb_append_rel: "rb_rel b h \<Longrightarrow> rb_rel (rb_append now d b) (h @ d)"
proof (cases "d = []")
  case False
  assume "rb_rel b h"
  then obtain lost where inv: "rb_inv b" and h: "h = lost @ flat (rb_entries b)"
    and t: "lost \<noteq> [] \<longleftrightarrow> rb_truncated b"
    by (auto simp: rb_rel_def)
  have inv': "rb_inv (rb_append now d b)" using inv by (rule rb_append_inv)
  show ?thesis
  proof (cases "rb_maxBytes b \<le> 0 \<or> rb_maxAge b \<le> 0")
    case True
    then have "rb_entries b = []" using inv by (auto simp: rb_inv_def)
    then show ?thesis using inv' True False by (simp add: rb_rel_def rb_append_refused)
  next
    case nonpos: False
    obtain old where old: "flat (rb_entries b) = old @ flat (still_fresh now b)"
      and ex: "old \<noteq> [] \<longleftrightarrow> has_expired now b"
      using still_fresh_suffix [OF inv] by blast
    let ?all = "flat (still_fresh now b) @ d"
    obtain cut where cut: "?all = cut @ lastn (nat (rb_maxBytes b)) ?all"
      using lastn_is_suffix by blast
    then have "length cut + min (nat (rb_maxBytes b)) (length ?all) = length ?all"
      by (metis length_append length_lastn)
    then have "0 < length cut \<longleftrightarrow> int (length ?all) > rb_maxBytes b"
      using nonpos by arith
    then have cutt: "cut \<noteq> [] \<longleftrightarrow> int (length ?all) > rb_maxBytes b"
      by simp
    note k = rb_append_kept [OF inv _ _ False, of now]
    have "h @ d = (lost @ old @ cut) @ flat (rb_entries (rb_append now d b))"
      using h old cut rb_append_flat [OF inv _ _ False, of now] nonpos by simp
    moreover have "lost @ old @ cut \<noteq> [] \<longleftrightarrow> rb_truncated (rb_append now d b)"
      using t ex cutt k(4) nonpos by auto
    ultimately show ?thesis using inv' unfolding rb_rel_def by blast
  qed
qed simp

lemma drainWithStatus_eq:
  "drainWithStatus now b = (b', out, c) \<longleftrightarrow>
     b' = b\<lparr>rb_entries := [], rb_bytes := 0, rb_truncated := False\<rparr>
     \<and> out = map bo_data (still_fresh now b) \<and> c = (\<not> rb_truncated b \<and> \<not> has_expired now b)"
  by (auto simp: drainWithStatus_def snapshot_def still_fresh_def has_expired_def pruneExpired_def
      prune_loop_eq Let_def)

interpretation rb: output_log rb_append drainWithStatus rb_rel
proof
  fix b h now d b' out c
  assume r: "rb_rel b h"
  then show "rb_rel (rb_append now d b) (h @ d)" by (rule rb_append_rel)
  obtain lost where inv: "rb_inv b" and h: "h = lost @ flat (rb_entries b)"
    and t: "lost \<noteq> [] \<longleftrightarrow> rb_truncated b"
    using r by (auto simp: rb_rel_def)
  obtain old where old: "flat (rb_entries b) = old @ flat (still_fresh now b)"
    and ex: "old \<noteq> [] \<longleftrightarrow> has_expired now b"
    using still_fresh_suffix [OF inv] by blast
  show "\<exists>lost. h = lost @ concat out" if "drainWithStatus now b = (b', out, c)"
    using that h old by (auto simp: drainWithStatus_eq flat_def)
  show "c \<longleftrightarrow> concat out = h" if "drainWithStatus now b = (b', out, c)"
    using that h t old ex by (auto simp: drainWithStatus_eq flat_def)
  show "rb_rel b' []" if "drainWithStatus now b = (b', out, c)"
    using that by (simp add: drainWithStatus_eq rb_rel_def rb_inv_def)
qed

lemma newReplayBuffer_rel: "rb_rel (newReplayBuffer mx age) []"
  using newReplayBuffer_inv by (simp add: rb_rel_def newReplayBuffer_def)

section \<open>Properties\<close>

text \<open>The log of what arrived, with its times, is what the buffer is compared with.\<close>

definition arrivals :: "(time \<times> bytes) list \<Rightarrow> (time \<times> byte) list" where
  "arrivals evs = concat (map (\<lambda>(t, d). map (Pair t) d) evs)"

lemma arrivals_simps [simp]:
  "arrivals [] = []" "arrivals (evs @ [(t, d)]) = arrivals evs @ map (Pair t) d"
  by (simp_all add: arrivals_def)

lemma set_arrivals: "x \<in> set (arrivals evs) \<Longrightarrow> fst x \<in> set (map fst evs)"
  by (auto simp: arrivals_def image_iff) force

lemma sorted_arrivals: "sorted (map fst evs) \<Longrightarrow> sorted (map fst (arrivals evs))"
proof (induction evs rule: rev_induct)
  case (snoc e evs)
  then show ?case
    using set_arrivals [of _ evs]
    by (cases e) (fastforce simp: sorted_append comp_def map_replicate_const)
qed simp

abbreviation fresh :: "time \<Rightarrow> time \<times> 'a \<Rightarrow> bool" where
  "fresh c x \<equiv> c \<le> fst x"

lemma sorted_tag_entries: "sorted (map fst (tag es)) \<Longrightarrow> \<forall>e \<in> set es. bo_data e \<noteq> [] \<Longrightarrow>
  tag (dropWhile (\<lambda>e. bo_receivedAt e < c) es) = filter (fresh c) (tag es)"
proof (induction es)
  case (Cons e es)
  show ?case
  proof (cases "bo_receivedAt e < c")
    case True
    then show ?thesis using Cons by (auto simp: sorted_append filter_empty_conv)
  next
    case False
    then have "\<forall>x \<in> set (tag (e # es)). fresh c x"
      using Cons.prems by (cases "bo_data e") (fastforce simp: sorted_append)+
    then show ?thesis using False by (simp add: filter_True del: tag_simps(2))
  qed
qed simp

lemma appends_tag:
  assumes "0 < mx" "0 < age" "sorted (map fst evs)" "evs \<noteq> []" "\<forall>(t, d) \<in> set evs. d \<noteq> []"
  defines "b \<equiv> fold (\<lambda>(t, d). rb_append t d) evs (newReplayBuffer mx age)"
  shows "tag (rb_entries b) = lastn (nat mx) (filter (fresh (fst (last evs) - age)) (arrivals evs))
    \<and> rb_inv b \<and> rb_maxBytes b = mx \<and> rb_maxAge b = age"
  using assms(1-5) unfolding b_def
proof (induction evs rule: rev_induct)
  case (snoc e evs)
  obtain t d where e: "e = (t, d)" by (cases e)
  let ?b = "fold (\<lambda>(t, d). rb_append t d) evs (newReplayBuffer mx age)"
  have d: "d \<noteq> []" using snoc.prems e by simp
  have prev: "tag (rb_entries ?b) = lastn (nat mx) (filter (fresh (fst (last evs) - age)) (arrivals evs))
      \<and> rb_inv ?b \<and> rb_maxBytes ?b = mx \<and> rb_maxAge ?b = age"
  proof (cases "evs = []")
    case True
    then show ?thesis using newReplayBuffer_inv [of mx age] by (simp add: newReplayBuffer_def)
  next
    case False
    then show ?thesis using snoc by (simp add: sorted_append)
  qed
  then have inv: "rb_inv ?b" and mx: "rb_maxBytes ?b = mx" "rb_maxAge ?b = age" by simp_all
  let ?T = "fst (last evs) - age"
  have srt: "sorted (map fst (arrivals evs))"
    using snoc.prems by (simp add: sorted_append sorted_arrivals)
  then have srt': "sorted (map fst (filter (fresh ?T) (arrivals evs)))"
    by (rule sorted_filter)
  have st: "sorted (map fst (tag (rb_entries ?b)))"
    using prev srt' by (simp add: sorted_map_lastn)
  have "tag (still_fresh t ?b) = filter (fresh (t - age)) (tag (rb_entries ?b))"
    using sorted_tag_entries [OF st] inv mx by (simp add: still_fresh_def rb_inv_def)
  also have "\<dots> = lastn (nat mx) (filter (fresh (t - age)) (filter (fresh ?T) (arrivals evs)))"
    using prev filter_sorted_lastn [OF srt'] by simp
  also have "filter (fresh (t - age)) (filter (fresh ?T) (arrivals evs)) = filter (fresh (t - age)) (arrivals evs)"
  proof (cases "evs = []")
    case False
    then have "fst (last evs) \<le> t"
      using snoc.prems e by (auto simp: sorted_append)
    then show ?thesis by (auto intro: filter_cong)
  qed simp
  finally have sf: "tag (still_fresh t ?b) = lastn (nat mx) (filter (fresh (t - age)) (arrivals evs))" .
  have "filter (fresh (t - age)) (map (Pair t) d) = map (Pair t) d"
    using snoc.prems(2) by (intro filter_True) auto
  then show ?case
    using rb_append_kept [OF inv _ _ d, of t] rb_append_inv [OF inv, of t d] mx snoc.prems sf e
    by (simp add: lastn_append_lastn)
qed simp

text \<open>
  C10. When a client re-attaches at time \<open>now\<close>, what it is replayed is exactly the last
  \<open>maxBytes\<close> bytes of the output that arrived within \<open>maxAge\<close> before \<open>now\<close>, in order,
  whatever the sizes of the reads that delivered it.
\<close>

theorem replay_drain_exact:
  assumes "0 < mx" "0 < age" "sorted (map fst evs @ [now])" "\<forall>(t, d) \<in> set evs. d \<noteq> []"
  shows "concat (snd (drain now (fold (\<lambda>(t, d). rb_append t d) evs (newReplayBuffer mx age)))) =
         lastn (nat mx) (map snd (filter (\<lambda>x. now - age \<le> fst x) (arrivals evs)))"
proof (cases "evs = []")
  case True
  then show ?thesis
    by (simp add: drain_def drainWithStatus_def newReplayBuffer_def pruneExpired_def snapshot_def lastn_def)
next
  case False
  let ?b = "fold (\<lambda>(t, d). rb_append t d) evs (newReplayBuffer mx age)" and ?T = "fst (last evs) - age"
  have srt: "sorted (map fst evs)" and le: "fst (last evs) \<le> now"
    using assms(3) False by (auto simp: sorted_append)
  have b: "tag (rb_entries ?b) = lastn (nat mx) (filter (fresh ?T) (arrivals evs))"
    "rb_inv ?b" "rb_maxAge ?b = age"
    using appends_tag [OF assms(1,2) srt False assms(4)] by simp_all
  have srt': "sorted (map fst (filter (fresh ?T) (arrivals evs)))"
    using sorted_arrivals [OF srt] by (rule sorted_filter)
  have st: "sorted (map fst (tag (rb_entries ?b)))"
    using b(1) srt' by (simp add: sorted_map_lastn)
  have "tag (still_fresh now ?b) = lastn (nat mx) (filter (fresh (now - age)) (filter (fresh ?T) (arrivals evs)))"
    using sorted_tag_entries [OF st] b filter_sorted_lastn [OF srt']
    by (simp add: still_fresh_def rb_inv_def)
  also have "filter (fresh (now - age)) (filter (fresh ?T) (arrivals evs)) = filter (fresh (now - age)) (arrivals evs)"
    using le by (auto intro: filter_cong)
  finally have "flat (still_fresh now ?b) = lastn (nat mx) (map snd (filter (fresh (now - age)) (arrivals evs)))"
    by (simp add: flat_tag map_lastn del: length_tag)
  moreover have "concat (snd (drain now ?b)) = flat (still_fresh now ?b)"
    using drainWithStatus_eq [of now ?b "fst (drainWithStatus now ?b)" "fst (snd (drainWithStatus now ?b))"
        "snd (snd (drainWithStatus now ?b))"]
    by (simp add: drain_def flat_def split_beta)
  ultimately show ?thesis by simp
qed

theorem replay_drain_exact_witness:
  "concat (snd (drain 12 (fold (\<lambda>(t, d). rb_append t d) [(1, [1, 2, 3]), (9, [4]), (10, [5, 6, 7])]
     (newReplayBuffer 3 5)))) = [5, 6, 7]"
  using replay_drain_exact [of 3 5 "[(1, [1, 2, 3]), (9, [4]), (10, [5, 6, 7])]" 12]
  by (simp add: arrivals_def lastn_def)

text \<open>
  What is replayed is always a suffix of what arrived since the last drain, and the drain
  reports completeness exactly when no byte was lost, for every sequence of arrivals, limits
  and clock readings.
\<close>

theorem replay_drain_complete:
  "case drainWithStatus now (fold (\<lambda>(t, d). rb_append t d) evs (newReplayBuffer mx age)) of (b, out, complete) \<Rightarrow>
     \<exists>lost. concat (map snd evs) = lost @ concat out \<and> (complete \<longleftrightarrow> lost = [])"
  using rb.appends_drain [OF newReplayBuffer_rel, of now evs mx age]
  unfolding rb.appends_def by (auto split: prod.splits)

end
