(* ===== verification/Session_Lifecycle.thy ===== *)
theory Session_Lifecycle
  imports Prelude
begin

text \<open>
  The lifecycle state machine of one PTY session
  (\<^verbatim>\<open>src/internal/server/session_lifecycle.go\<close>). Each method returns the next state and the
  boolean the Go method returns. The error argument of \<^verbatim>\<open>finish\<close> is only tested against
  \<^verbatim>\<open>nil\<close>, so it is a boolean here.
\<close>

section \<open>Model\<close>

datatype sessionState = Starting | Connected | Detached | Ending | Ended | Failed

definition newSessionLifecycle :: sessionState where
  "newSessionLifecycle = Starting"

definition started :: "sessionState \<Rightarrow> sessionState \<times> bool" where
  "started l = (if l \<noteq> Starting then (l, False) else (Detached, True))"

definition attach :: "sessionState \<Rightarrow> sessionState \<times> bool" where
  "attach l = (if l \<noteq> Detached then (l, False) else (Connected, True))"

definition detach :: "sessionState \<Rightarrow> sessionState \<times> bool" where
  "detach l = (if l \<noteq> Connected then (l, False) else (Detached, True))"

definition beginEnding :: "sessionState \<Rightarrow> sessionState \<times> bool" where
  "beginEnding l =
     (case l of Starting \<Rightarrow> (Ending, True) | Connected \<Rightarrow> (Ending, True) | Detached \<Rightarrow> (Ending, True)
      | _ \<Rightarrow> (l, False))"

definition finish :: "bool \<Rightarrow> sessionState \<Rightarrow> sessionState \<times> bool" where
  "finish runErr l =
     (case l of Ended \<Rightarrow> (l, False) | Failed \<Rightarrow> (l, False)
      | Ending \<Rightarrow> (Ended, True)
      | _ \<Rightarrow> (if runErr then Failed else Ended, True))"

definition lc_done :: "sessionState \<Rightarrow> bool" where
  "lc_done l \<longleftrightarrow> l = Ended \<or> l = Failed"

definition acceptsOutput :: "sessionState \<Rightarrow> bool" where
  "acceptsOutput l \<longleftrightarrow> l = Connected \<or> l = Detached"

definition publicState :: "sessionState \<Rightarrow> string" where
  "publicState l =
     (case l of Connected \<Rightarrow> ''connected'' | Starting \<Rightarrow> ''detached'' | Detached \<Rightarrow> ''detached''
      | _ \<Rightarrow> ''ended'')"

lemmas [model_defs] = started_def attach_def detach_def beginEnding_def finish_def

text \<open>The calls the session makes on its lifecycle, and one step of the machine.\<close>

datatype lc_call = CStarted | CAttach | CDetach | CBeginEnding | CFinish bool

fun lc_step :: "sessionState \<Rightarrow> lc_call \<Rightarrow> sessionState \<times> bool" where
  "lc_step l CStarted = started l"
| "lc_step l CAttach = attach l"
| "lc_step l CDetach = detach l"
| "lc_step l CBeginEnding = beginEnding l"
| "lc_step l (CFinish runErr) = finish runErr l"

section \<open>The specified transition graph\<close>

inductive lc_edge :: "sessionState \<Rightarrow> lc_call \<Rightarrow> sessionState \<Rightarrow> bool" where
  start: "lc_edge Starting CStarted Detached"
| attach: "lc_edge Detached CAttach Connected"
| detach: "lc_edge Connected CDetach Detached"
| ending: "l \<in> {Starting, Connected, Detached} \<Longrightarrow> lc_edge l CBeginEnding Ending"
| ended: "lc_edge Ending (CFinish e) Ended"
| exited: "l \<in> {Starting, Connected, Detached} \<Longrightarrow> lc_edge l (CFinish False) Ended"
| failed: "l \<in> {Starting, Connected, Detached} \<Longrightarrow> lc_edge l (CFinish True) Failed"

inductive_simps lc_edge_simps [simp]:
  "lc_edge l CStarted l'" "lc_edge l CAttach l'" "lc_edge l CDetach l'"
  "lc_edge l CBeginEnding l'" "lc_edge l (CFinish e) l'"

lemma lc_step_edge: "lc_step l c = (l', True) \<longleftrightarrow> lc_edge l c l'"
  by (cases c; cases l) (auto simp: model_defs)

lemma lc_step_stutter: "lc_step l c = (l', False) \<Longrightarrow> l' = l"
  by (cases c; cases l) (auto simp: model_defs)

lemma lc_done_step: "lc_done l \<Longrightarrow> lc_step l c = (l, False)"
  by (cases c) (auto simp: model_defs lc_done_def)

lemma lc_done_run: "lc_done l \<Longrightarrow> run lc_step l cs = (l, replicate (length cs) False)"
  by (induction cs) (auto simp: lc_done_step run.simps)

text \<open>A session ends at most once: \<^verbatim>\<open>finish\<close> succeeds once, whatever calls surround it.\<close>

interpretation lc_finish: one_shot lc_step "\<lambda>_. True" "\<lambda>_. True"
  "\<lambda>c r (_ :: unit). (\<exists>e. c = CFinish e) \<and> r" "\<lambda>l (_ :: unit). lc_done l"
proof
  fix l :: sessionState and c :: lc_call and k :: unit
  assume "(\<exists>e. c = CFinish e) \<and> snd (lc_step l c)"
  then show "lc_done (fst (lc_step l c))"
    by (cases l) (auto simp: finish_def lc_done_def)
qed (auto simp: lc_done_step)

interpretation lc_ending: one_shot lc_step "\<lambda>_. True" "\<lambda>_. True"
  "\<lambda>c r (_ :: unit). c = CBeginEnding \<and> r" "\<lambda>l (_ :: unit). l = Ending \<or> lc_done l"
proof
  fix l :: sessionState and c :: lc_call and k :: unit
  assume "c = CBeginEnding \<and> snd (lc_step l c)"
  then show "fst (lc_step l c) = Ending \<or> lc_done (fst (lc_step l c))"
    by (cases l) (auto simp: beginEnding_def)
next
  fix l :: sessionState and c :: lc_call and k :: unit
  assume "l = Ending \<or> lc_done l"
  then show "fst (lc_step l c) = Ending \<or> lc_done (fst (lc_step l c))"
    by (cases c) (auto simp: model_defs lc_done_def)
next
  fix l :: sessionState and c :: lc_call and k :: unit
  assume "l = Ending \<or> lc_done l"
  then show "\<not> (c = CBeginEnding \<and> snd (lc_step l c))"
    by (auto simp: model_defs lc_done_def)
qed

section \<open>Properties\<close>

lemma lc_done_stays: "lc_done l \<Longrightarrow> fst (run lc_step l cs) = l"
  by (simp add: lc_done_run)

lemma lc_finish_done: "(CFinish e, True) \<in> set (zip cs (snd (run lc_step l cs))) \<Longrightarrow> lc_done (fst (run lc_step l cs))"
proof (induction cs arbitrary: l)
  case (Cons c cs)
  show ?case
  proof (cases "c = CFinish e \<and> snd (lc_step l c)")
    case True
    then have "lc_done (fst (lc_step l c))"
      by (cases l) (auto simp: finish_def lc_done_def)
    then show ?thesis by (simp add: lc_done_stays)
  next
    case False
    then show ?thesis using Cons by auto
  qed
qed simp

text \<open>
  The lifecycle methods implement the transition graph exactly: a call returns true when
  the graph has an edge for it from the current state, and then moves along it; otherwise it
  returns false and leaves the state alone.
\<close>

theorem lifecycle_refines_graph:
  "case lc_step l c of (l', r) \<Rightarrow> if r then lc_edge l c l' else l' = l \<and> (\<nexists>m. lc_edge l c m)"
  by (cases c; cases l) (auto simp: model_defs)

text \<open>
  A session ends once: in any sequence of lifecycle calls at most one \<^verbatim>\<open>finish\<close> and at most
  one \<^verbatim>\<open>beginEnding\<close> succeed, and after a successful \<^verbatim>\<open>finish\<close> the session stays done and
  refuses output whatever is called next.
\<close>

theorem lifecycle_ends_once:
  "length (filter (\<lambda>(c, r). (\<exists>e. c = CFinish e) \<and> r) (zip cs (snd (run lc_step l cs)))) \<le> 1
   \<and> length (filter (\<lambda>(c, r). c = CBeginEnding \<and> r) (zip cs (snd (run lc_step l cs)))) \<le> 1
   \<and> ((\<exists>e. (CFinish e, True) \<in> set (zip cs (snd (run lc_step l cs)))) \<longrightarrow>
        lc_done (fst (run lc_step l cs)) \<and> \<not> acceptsOutput (fst (run lc_step l cs)))"
  using lc_finish.fires_at_most_once [where s = l and cs = cs and k = "()"]
    lc_ending.fires_at_most_once [where s = l and cs = cs and k = "()"]
    lc_finish_done [of _ cs l]
  by (auto simp: lc_finish.fired_def lc_ending.fired_def list.pred_True acceptsOutput_def lc_done_def)

theorem lifecycle_ends_once_witness:
  "lc_done (fst (run lc_step newSessionLifecycle [CStarted, CAttach, CFinish True, CAttach]))"
  using lifecycle_ends_once [of "[CStarted, CAttach, CFinish True, CAttach]" newSessionLifecycle]
  by (auto simp: newSessionLifecycle_def model_defs)

end
