(* ===== verification/Prompt_Action.thy ===== *)
theory Prompt_Action
  imports Utf8_Stream
begin

text \<open>
  The registry of prompt actions of one PTY session
  (\<^verbatim>\<open>src/internal/promptaction/registry.go\<close>): a prompt is prepared, shown to the user as a
  preview, and then committed, that is written to the terminal, at most once.

  The map of entries is keyed by the bytes of the action ID; the entries are owned by the map
  alone, so the pointers of the Go map are values here. \<^verbatim>\<open>sha256\<close> is the parameter \<open>sha256\<close>.
  The writer passed to \<^verbatim>\<open>Commit\<close> is \<open>None\<close> for a nil function and otherwise the function that
  gives its error; the calls made to it are part of the result. The receiver is never nil.
\<close>

section \<open>Model\<close>

datatype action_error =
    ErrInvalidAction | ErrPendingActionLimit | ErrTrackedActionLimit | ErrActionConflict
  | ErrActionNotFound | ErrActionCancelled | ErrActionCommitted | ErrActionCommitFailed
  | ErrRegistryClosed | CommitWriteError string

datatype State = StatePrepared | StateCommitted | stateCancelled | stateCommitFailed

record Action =
  Preview :: string
  TerminalInput :: bytes

record PrepareResult =
  pr_State :: State
  pr_Preview :: string

record registryEntry =
  re_digest :: bytes
  re_state :: State
  re_preview :: string
  re_terminalInput :: bytes

record Registry =
  rg_entries :: "bytes \<rightharpoonup> registryEntry"
  rg_pending :: int
  rg_closed :: bool

definition NewRegistry :: Registry where
  "NewRegistry = \<lparr>rg_entries = Map.empty, rg_pending = 0, rg_closed = False\<rparr>"

abbreviation "maxTrackedActions \<equiv> 4096 :: nat"
abbreviation "maxPendingActions \<equiv> 16 :: int"
abbreviation "maxActionIDBytes \<equiv> 64 :: nat"
abbreviation "maxPreviewBytes \<equiv> 49152 :: nat"
abbreviation "maxTerminalInputBytes \<equiv> 49153 :: nat"

definition validActionID :: "bytes \<Rightarrow> bool" where
  "validActionID actionID \<longleftrightarrow> length actionID > 0 \<and> length actionID \<le> maxActionIDBytes"

definition validAction :: "Action \<Rightarrow> bool" where
  "validAction action \<longleftrightarrow>
     Preview action \<noteq> '''' \<and> utf8_valid (string_bytes (Preview action))
     \<and> length (Preview action) \<le> maxPreviewBytes
     \<and> length (TerminalInput action) > 0 \<and> length (TerminalInput action) \<le> maxTerminalInputBytes"

text \<open>What \<^verbatim>\<open>actionDigest\<close> feeds to the hash: both fields, each behind its 64-bit length.\<close>

definition digest_input :: "Action \<Rightarrow> bytes" where
  "digest_input action =
     PutUint64 (of_nat (length (Preview action))) @ string_bytes (Preview action)
     @ PutUint64 (of_nat (length (TerminalInput action))) @ TerminalInput action"

definition actionDigest :: "(bytes \<Rightarrow> bytes) \<Rightarrow> Action \<Rightarrow> bytes" where
  "actionDigest sha256 action = sha256 (digest_input action)"

definition Prepare ::
  "(bytes \<Rightarrow> bytes) \<Rightarrow> bytes \<Rightarrow> Action \<Rightarrow> Registry \<Rightarrow> Registry \<times> (action_error + PrepareResult)" where
  "Prepare sha256 actionID action r =
     (if \<not> validActionID actionID \<or> \<not> validAction action then (r, Inl ErrInvalidAction)
      else
        (let digest = actionDigest sha256 action in
         if rg_closed r then (r, Inl ErrRegistryClosed)
         else case rg_entries r actionID of
           Some entry \<Rightarrow>
             (if re_digest entry \<noteq> digest then (r, Inl ErrActionConflict)
              else case re_state entry of
                StatePrepared \<Rightarrow> (r, Inr \<lparr>pr_State = StatePrepared, pr_Preview = re_preview entry\<rparr>)
              | StateCommitted \<Rightarrow> (r, Inr \<lparr>pr_State = StateCommitted, pr_Preview = ''''\<rparr>)
              | stateCancelled \<Rightarrow> (r, Inl ErrActionCancelled)
              | stateCommitFailed \<Rightarrow> (r, Inl ErrActionCommitFailed))
         | None \<Rightarrow>
             (if card (dom (rg_entries r)) \<ge> maxTrackedActions then (r, Inl ErrTrackedActionLimit)
              else if rg_pending r \<ge> maxPendingActions then (r, Inl ErrPendingActionLimit)
              else
                (r\<lparr>rg_entries := (rg_entries r)(actionID \<mapsto>
                     \<lparr>re_digest = digest, re_state = StatePrepared, re_preview = Preview action,
                      re_terminalInput = TerminalInput action\<rparr>),
                   rg_pending := rg_pending r + 1\<rparr>,
                 Inr \<lparr>pr_State = StatePrepared, pr_Preview = Preview action\<rparr>))))"

definition finalizeEntry :: "bytes \<Rightarrow> registryEntry \<Rightarrow> State \<Rightarrow> Registry \<Rightarrow> Registry" where
  "finalizeEntry key entry state r =
     r\<lparr>rg_entries := (rg_entries r)(key \<mapsto>
         entry\<lparr>re_state := state, re_preview := '''', re_terminalInput := []\<rparr>),
       rg_pending := (if rg_pending r > 0 then rg_pending r - 1 else rg_pending r)\<rparr>"

text \<open>The result of \<^verbatim>\<open>Commit\<close>: the arguments of the calls made to the writer, and the error.\<close>

definition Commit ::
  "bytes \<Rightarrow> (bytes \<Rightarrow> string option) option \<Rightarrow> Registry \<Rightarrow> Registry \<times> bytes list \<times> action_error option" where
  "Commit actionID writer r =
     (if \<not> validActionID actionID \<or> writer = None then (r, [], Some ErrInvalidAction)
      else if rg_closed r then (r, [], Some ErrRegistryClosed)
      else case rg_entries r actionID of
        None \<Rightarrow> (r, [], Some ErrActionNotFound)
      | Some entry \<Rightarrow>
          (case re_state entry of
             StateCommitted \<Rightarrow> (r, [], None)
           | stateCancelled \<Rightarrow> (r, [], Some ErrActionCancelled)
           | stateCommitFailed \<Rightarrow> (r, [], Some ErrActionCommitFailed)
           | StatePrepared \<Rightarrow>
               (let input = re_terminalInput entry in
                case the writer input of
                  Some err \<Rightarrow>
                    (finalizeEntry actionID entry stateCommitFailed r, [input], Some (CommitWriteError err))
                | None \<Rightarrow> (finalizeEntry actionID entry StateCommitted r, [input], None))))"

definition Cancel :: "bytes \<Rightarrow> Registry \<Rightarrow> Registry \<times> action_error option" where
  "Cancel actionID r =
     (if \<not> validActionID actionID then (r, Some ErrInvalidAction)
      else if rg_closed r then (r, Some ErrRegistryClosed)
      else case rg_entries r actionID of
        None \<Rightarrow> (r, Some ErrActionNotFound)
      | Some entry \<Rightarrow>
          (case re_state entry of
             StatePrepared \<Rightarrow> (finalizeEntry actionID entry stateCancelled r, None)
           | stateCancelled \<Rightarrow> (r, None)
           | StateCommitted \<Rightarrow> (r, Some ErrActionCommitted)
           | stateCommitFailed \<Rightarrow> (r, Some ErrActionCommitFailed)))"

definition Close :: "Registry \<Rightarrow> Registry" where
  "Close r =
     (if rg_closed r then r
      else r\<lparr>rg_entries := Map.empty, rg_pending := 0, rg_closed := True\<rparr>)"

text \<open>A session's calls on its registry, in the order its mutex serialises them.\<close>

datatype reg_call =
    CPrepare bytes Action
  | CCommit bytes "(bytes \<Rightarrow> string option) option"
  | CCancel bytes
  | CClose

datatype reg_result =
    RPrepare "action_error + PrepareResult"
  | RCommit "bytes list" "action_error option"
  | RCancel "action_error option"
  | RClose

fun reg_step :: "(bytes \<Rightarrow> bytes) \<Rightarrow> Registry \<Rightarrow> reg_call \<Rightarrow> Registry \<times> reg_result" where
  "reg_step sha r (CPrepare actionID a) = (let (r', res) = Prepare sha actionID a r in (r', RPrepare res))"
| "reg_step sha r (CCommit actionID w) = (let (r', ws, e) = Commit actionID w r in (r', RCommit ws e))"
| "reg_step sha r (CCancel actionID) = (let (r', e) = Cancel actionID r in (r', RCancel e))"
| "reg_step sha r CClose = (Close r, RClose)"

section \<open>The length-prefixed digest input\<close>

lemma digest_input_inj:
  assumes "validAction a" "validAction b" and eq: "digest_input a = digest_input b"
  shows "a = b"
proof -
  have "length (Preview a) < 2 ^ 64" "length (Preview b) < 2 ^ 64"
    using assms(1,2) by (simp_all add: validAction_def)
  moreover have "(of_nat (length (Preview a)) :: u64) = of_nat (length (Preview b))"
    using eq by (simp add: digest_input_def append_same_length)
  ultimately have "length (Preview a) = length (Preview b)"
    by (simp add: of_nat_u64_inj)
  then have "Preview a = Preview b" "TerminalInput a = TerminalInput b"
    using eq by (simp_all add: digest_input_def append_same_length)
  then show ?thesis by simp
qed

section \<open>Invariant\<close>

definition entry_ok :: "(bytes \<Rightarrow> bytes) \<Rightarrow> registryEntry \<Rightarrow> bool" where
  "entry_ok sha e \<longleftrightarrow>
     (if re_state e = StatePrepared
      then \<exists>a. validAction a \<and> re_digest e = actionDigest sha a
             \<and> re_preview e = Preview a \<and> re_terminalInput e = TerminalInput a
      else re_preview e = '''' \<and> re_terminalInput e = [])
     \<and> (\<exists>a. validAction a \<and> re_digest e = actionDigest sha a)"

definition prepared :: "Registry \<Rightarrow> bytes set" where
  "prepared r = {k. \<exists>e. rg_entries r k = Some e \<and> re_state e = StatePrepared}"

definition reg_inv :: "(bytes \<Rightarrow> bytes) \<Rightarrow> Registry \<Rightarrow> bool" where
  "reg_inv sha r \<longleftrightarrow>
     finite (dom (rg_entries r)) \<and> card (dom (rg_entries r)) \<le> maxTrackedActions
     \<and> rg_pending r = int (card (prepared r)) \<and> rg_pending r \<le> maxPendingActions
     \<and> (\<forall>k e. rg_entries r k = Some e \<longrightarrow> validActionID k \<and> entry_ok sha e)
     \<and> (rg_closed r \<longrightarrow> rg_entries r = Map.empty)"

lemma finite_prepared: "finite (dom (rg_entries r)) \<Longrightarrow> finite (prepared r)"
  by (rule finite_subset [of _ "dom (rg_entries r)"]) (auto simp: prepared_def)

lemma prepared_upd:
  "prepared (r\<lparr>rg_entries := (rg_entries r)(k \<mapsto> e)\<rparr>) =
     (if re_state e = StatePrepared then insert k (prepared r) else prepared r - {k})"
  by (auto simp: prepared_def)

lemma prepared_pending [simp]: "prepared (r\<lparr>rg_pending := n\<rparr>) = prepared r"
  by (simp add: prepared_def)

lemma NewRegistry_inv: "reg_inv sha NewRegistry"
  by (simp add: reg_inv_def NewRegistry_def prepared_def)

lemma reg_Close_inv: "reg_inv sha r \<Longrightarrow> reg_inv sha (Close r)"
  by (simp add: reg_inv_def Close_def prepared_def)

lemma Prepare_inv:
  assumes inv: "reg_inv sha r"
  shows "reg_inv sha (fst (Prepare sha k a r))"
proof (cases "validActionID k \<and> validAction a \<and> \<not> rg_closed r \<and> rg_entries r k = None
    \<and> card (dom (rg_entries r)) < maxTrackedActions \<and> rg_pending r < maxPendingActions")
  case True
  let ?e = "\<lparr>re_digest = actionDigest sha a, re_state = StatePrepared, re_preview = Preview a,
    re_terminalInput = TerminalInput a\<rparr>"
  let ?r = "r\<lparr>rg_entries := (rg_entries r)(k \<mapsto> ?e)\<rparr>"
  have "fst (Prepare sha k a r) = ?r\<lparr>rg_pending := rg_pending r + 1\<rparr>"
    using True by (simp add: Prepare_def)
  moreover have "k \<notin> prepared r" "prepared ?r = insert k (prepared r)" "k \<notin> dom (rg_entries r)"
    using True by (auto simp: prepared_def split: if_splits)
  moreover have "finite (prepared r)"
    using inv by (simp add: reg_inv_def finite_prepared)
  moreover have "entry_ok sha ?e" using True by (auto simp: entry_ok_def)
  ultimately show ?thesis using inv True by (simp add: reg_inv_def)
next
  case False
  then have "fst (Prepare sha k a r) = r"
    by (auto simp: Prepare_def Let_def split: option.splits State.splits)
  then show ?thesis using inv by simp
qed

lemma finalizeEntry_inv:
  assumes inv: "reg_inv sha r" and e: "rg_entries r k = Some e" "re_state e = StatePrepared"
    and st: "st \<noteq> StatePrepared"
  shows "reg_inv sha (finalizeEntry k e st r)"
proof -
  let ?e = "e\<lparr>re_state := st, re_preview := '''', re_terminalInput := []\<rparr>"
  let ?r = "r\<lparr>rg_entries := (rg_entries r)(k \<mapsto> ?e)\<rparr>"
  have k: "k \<in> prepared r" and fin: "finite (prepared r)"
    using inv e by (simp add: prepared_def) (use inv in \<open>simp add: reg_inv_def finite_prepared\<close>)
  then have "0 < card (prepared r)" by (auto simp: card_gt_0_iff)
  then have "finalizeEntry k e st r = ?r\<lparr>rg_pending := rg_pending r - 1\<rparr>"
    using inv by (simp add: finalizeEntry_def reg_inv_def)
  moreover have "prepared ?r = prepared r - {k}"
    using st by (simp add: prepared_upd)
  moreover have "int (card (prepared r - {k})) = int (card (prepared r)) - 1"
    using k fin by (simp add: card_Diff_singleton of_nat_diff \<open>0 < card (prepared r)\<close> Suc_leI)
  moreover have "insert k (dom (rg_entries r)) = dom (rg_entries r)" using e by auto
  moreover have "\<not> rg_closed r" using inv e by (auto simp: reg_inv_def)
  moreover have "entry_ok sha ?e" "validActionID k"
    using inv e st by (auto simp: reg_inv_def entry_ok_def)
  ultimately show ?thesis using inv st \<open>0 < card (prepared r)\<close>
    by (simp add: reg_inv_def)
qed

text \<open>The outcome of a commit, by the state of the entry.\<close>

lemma Commit_stays:
  "\<not> (validActionID k \<and> w \<noteq> None \<and> \<not> rg_closed r \<and> (\<exists>e. rg_entries r k = Some e \<and> re_state e = StatePrepared))
   \<Longrightarrow> \<exists>e. Commit k w r = (r, [], e)"
  by (simp add: Commit_def split: option.splits State.splits) auto

lemma Commit_cases:
  obtains (stays) e where "Commit k w r = (r, [], e)"
  | (writes) e f where "validActionID k" "\<not> rg_closed r" "rg_entries r k = Some e" "re_state e = StatePrepared"
      "w = Some f"
      "Commit k w r = (finalizeEntry k e (if f (re_terminalInput e) = None then StateCommitted else stateCommitFailed) r,
         [re_terminalInput e], map_option CommitWriteError (f (re_terminalInput e)))"
proof (cases "validActionID k \<and> w \<noteq> None \<and> \<not> rg_closed r \<and> (\<exists>e. rg_entries r k = Some e \<and> re_state e = StatePrepared)")
  case True
  then obtain f e where "w = Some f" "rg_entries r k = Some e" "re_state e = StatePrepared" by auto
  then show ?thesis using True writes [of e f]
    by (cases "f (re_terminalInput e)") (simp_all add: Commit_def Let_def)
next
  case False
  then show ?thesis using Commit_stays stays by blast
qed

lemma Commit_inv: "reg_inv sha r \<Longrightarrow> reg_inv sha (fst (Commit k w r))"
  by (cases k w r rule: Commit_cases) (simp_all add: finalizeEntry_inv)

lemma reg_Cancel_inv: "reg_inv sha r \<Longrightarrow> reg_inv sha (fst (Cancel k r))"
  by (simp add: Cancel_def finalizeEntry_inv split: option.splits State.splits)

lemma reg_step_inv: "reg_inv sha r \<Longrightarrow> reg_inv sha (fst (reg_step sha r c))"
  by (cases c) (simp_all add: split_beta Prepare_inv Commit_inv reg_Cancel_inv reg_Close_inv)


section \<open>Histories\<close>

definition binds_digest :: "Registry \<Rightarrow> bytes \<Rightarrow> bytes \<Rightarrow> bool" where
  "binds_digest r k d \<longleftrightarrow> rg_closed r \<or> (\<exists>e. rg_entries r k = Some e \<and> re_digest e = d)"

text \<open>A call speaks about an action ID when it accepts a preparation or writes to the terminal.\<close>

fun says_digest :: "(bytes \<Rightarrow> bytes) \<Rightarrow> Registry \<Rightarrow> reg_call \<Rightarrow> bytes \<Rightarrow> bytes \<Rightarrow> bool" where
  "says_digest sha r (CPrepare k' a) k d \<longleftrightarrow>
     k' = k \<and> d = actionDigest sha a \<and> (\<exists>res. snd (Prepare sha k' a r) = Inr res)"
| "says_digest sha r (CCommit k' w) k d \<longleftrightarrow>
     k' = k \<and> fst (snd (Commit k' w r)) \<noteq> [] \<and> (\<exists>e. rg_entries r k = Some e \<and> re_digest e = d)"
| "says_digest sha r _ k d \<longleftrightarrow> False"

lemma Prepare_accepts:
  assumes "snd (Prepare sha k a r) = Inr res"
  shows "validAction a \<and> \<not> rg_closed r \<and> \<not> rg_closed (fst (Prepare sha k a r))
    \<and> (\<exists>e. rg_entries (fst (Prepare sha k a r)) k = Some e \<and> re_digest e = actionDigest sha a)
    \<and> (\<forall>e. rg_entries r k = Some e \<longrightarrow> re_digest e = actionDigest sha a)"
  using assms
  by (cases "rg_entries r k") (auto simp: Prepare_def Let_def split: if_splits State.splits)

lemma Prepare_binds: "binds_digest r k d \<Longrightarrow> binds_digest (fst (Prepare sha k' a r)) k d"
  by (auto simp: binds_digest_def Prepare_def Let_def split: option.splits State.splits)

lemma finalizeEntry_binds:
  "rg_entries r k' = Some e \<Longrightarrow> binds_digest r k d \<Longrightarrow> binds_digest (finalizeEntry k' e st r) k d"
  by (auto simp: binds_digest_def finalizeEntry_def)

lemma Commit_binds: "binds_digest r k d \<Longrightarrow> binds_digest (fst (Commit k' w r)) k d"
  by (cases k' w r rule: Commit_cases) (simp_all add: finalizeEntry_binds)

lemma Cancel_binds: "binds_digest r k d \<Longrightarrow> binds_digest (fst (Cancel k' r)) k d"
  by (simp add: Cancel_def finalizeEntry_binds split: option.splits State.splits)

lemma Close_binds: "binds_digest r k d \<Longrightarrow> binds_digest (Close r) k d"
  by (simp add: Close_def binds_digest_def)

interpretation reg: agreement "reg_step sha" "reg_inv sha" "\<lambda>_. True" "says_digest sha" binds_digest
  for sha
proof
  fix r c k d e
  assume inv: "reg_inv sha r"
  then show "reg_inv sha (fst (reg_step sha r c))" by (rule reg_step_inv)
  show stays: "binds_digest (fst (reg_step sha r c)) k d" if "binds_digest r k d"
    using that by (cases c) (simp_all add: split_beta Prepare_binds Commit_binds Cancel_binds Close_binds)
  show "binds_digest (fst (reg_step sha r c)) k d" if "says_digest sha r c k d"
  proof (cases c)
    case (CPrepare k' a)
    then show ?thesis
      using that Prepare_accepts [of sha k' a r] by (auto simp: binds_digest_def split_beta)
  next
    case (CCommit k' w)
    then show ?thesis
      using that Commit_binds [of r k d k' w] by (simp add: binds_digest_def split_beta)
  qed (use that in auto)
  show "e = d" if "binds_digest r k d" "says_digest sha r c k e"
  proof (cases c)
    case (CPrepare k' a)
    then show ?thesis using that Prepare_accepts [of sha k' a r] by (auto simp: binds_digest_def)
  next
    case (CCommit k' w)
    then show ?thesis using that
      by (cases k' w r rule: Commit_cases) (auto simp: binds_digest_def)
  qed (use that in auto)
qed

text \<open>The writer runs at most once: an entry that was written is no longer prepared.\<close>

definition settled :: "Registry \<Rightarrow> bytes \<Rightarrow> bool" where
  "settled r k \<longleftrightarrow> rg_closed r \<or> (\<exists>e. rg_entries r k = Some e \<and> re_state e \<noteq> StatePrepared)"

definition writes :: "reg_call \<Rightarrow> reg_result \<Rightarrow> bytes \<Rightarrow> bool" where
  "writes c res k \<longleftrightarrow> (\<exists>w ws e. c = CCommit k w \<and> res = RCommit ws e \<and> ws \<noteq> [])"

lemma writes_simps [simp]:
  "writes (CCommit k' w) (RCommit ws e) k \<longleftrightarrow> k' = k \<and> ws \<noteq> []"
  "\<not> writes (CPrepare k' a) res k" "\<not> writes (CCancel k') res k" "\<not> writes CClose res k"
  by (auto simp: writes_def)

lemma finalizeEntry_settled:
  "settled r k \<Longrightarrow> st \<noteq> StatePrepared \<Longrightarrow> settled (finalizeEntry k' e st r) k"
  "st \<noteq> StatePrepared \<Longrightarrow> settled (finalizeEntry k e st r) k"
  by (auto simp: settled_def finalizeEntry_def)

lemma settled_step: "settled r k \<Longrightarrow> settled (fst (reg_step sha r c)) k"
proof (cases c)
  case (CPrepare k' a)
  assume "settled r k"
  then show ?thesis unfolding CPrepare
    by (auto simp: settled_def Prepare_def Let_def split_beta split: option.splits State.splits)
next
  case (CCommit k' w)
  assume "settled r k"
  then show ?thesis unfolding CCommit
    by (cases k' w r rule: Commit_cases) (simp_all add: finalizeEntry_settled split_beta)
next
  case (CCancel k')
  assume "settled r k"
  then show ?thesis unfolding CCancel
    by (simp add: Cancel_def finalizeEntry_settled split_beta split: option.splits State.splits)
qed (simp add: Close_def settled_def)

interpretation reg_once: one_shot "reg_step sha" "reg_inv sha" "\<lambda>_. True" writes settled
  for sha
proof
  fix r c k
  assume inv: "reg_inv sha r"
  show "settled (fst (reg_step sha r c)) k" if "settled r k"
    using that by (rule settled_step)
  show "settled (fst (reg_step sha r c)) k" if "writes c (snd (reg_step sha r c)) k"
  proof (cases c)
    case (CCommit k' w)
    then show ?thesis using that
      by (cases k' w r rule: Commit_cases) (auto simp: split_beta finalizeEntry_settled)
  qed (use that in \<open>auto simp: split_beta\<close>)
  show "\<not> writes c (snd (reg_step sha r c)) k" if "settled r k"
  proof (cases c)
    case (CCommit k' w)
    then show ?thesis using that
      by (cases k' w r rule: Commit_cases) (auto simp: split_beta settled_def)
  qed (auto simp: split_beta)
qed

section \<open>Properties\<close>

text \<open>
  C4. In any sequence of calls on a new registry, the writer of the terminal is called at most
  once per action ID, however commits, preparations, cancellations and write failures follow
  each other.
\<close>

theorem commit_writes_at_most_once:
  "length (filter (\<lambda>(c, res). \<exists>w ws e. c = CCommit k w \<and> res = RCommit ws e \<and> ws \<noteq> [])
     (zip cs (snd (run (reg_step sha256) NewRegistry cs)))) \<le> 1"
  using reg_once.fires_at_most_once [OF NewRegistry_inv, of cs k]
  by (simp add: reg_once.fired_def writes_def list.pred_True)



text \<open>
  The registry stays bounded and its counter exact: after any sequence of calls it tracks at
  most 4096 action IDs, the pending counter is the number of prepared entries and at most 16,
  and only prepared entries still hold a preview or terminal bytes.
\<close>

theorem registry_bounded:
  fixes cs :: "reg_call list" and sha256 :: "bytes \<Rightarrow> bytes"
  defines "r \<equiv> fst (run (reg_step sha256) NewRegistry cs)"
  shows "card (dom (rg_entries r)) \<le> 4096 \<and> rg_pending r \<le> 16
    \<and> rg_pending r = int (card {k. \<exists>e. rg_entries r k = Some e \<and> re_state e = StatePrepared})
    \<and> (\<forall>k e. rg_entries r k = Some e \<and> re_state e \<noteq> StatePrepared \<longrightarrow> re_preview e = '''' \<and> re_terminalInput e = [])"
proof -
  have "reg_inv sha256 r"
    using reg.run_inv [OF NewRegistry_inv] by (simp add: r_def list.pred_True)
  then show ?thesis
    by (auto simp: reg_inv_def prepared_def entry_ok_def split: if_splits)
qed

theorem registry_bounded_witness:
  "rg_pending (fst (run (reg_step id) NewRegistry
     [CPrepare [7] \<lparr>Preview = ''Hi'', TerminalInput = [72]\<rparr>, CCancel [7]])) \<le> 16"
  using registry_bounded [of id "[CPrepare [7] \<lparr>Preview = ''Hi'', TerminalInput = [72]\<rparr>, CCancel [7]]"]
  by simp

end
