(* ===== verification/Tool_Adapter.thy ===== *)
theory Tool_Adapter
  imports Go_Strings
begin

text \<open>
  The tool adapters that turn a prompt and the paths of verified attachments into terminal
  input (\<^verbatim>\<open>src/internal/tooladapter/adapter.go\<close>), for the Unix build, where
  \<^verbatim>\<open>filepath.VolumeName\<close> is empty and \<^verbatim>\<open>filepath.IsAbs\<close> tests for a leading slash.
\<close>

section \<open>Model\<close>

definition Generic :: string where "Generic = ''generic''"
definition Codex :: string where "Codex = ''codex''"
definition Claude :: string where "Claude = ''claude''"

datatype adapter_error = ErrUnknownAdapter | ErrInvalidPromptAction

record AttachmentPromptRequest =
  Prompt :: string
  RelativePaths :: "string list"
  Submit :: bool

record PreparedAction =
  pa_Preview :: string
  pa_TerminalInput :: bytes

record Adapter =
  ad_kind :: string

definition IsSupported :: "string \<Rightarrow> bool" where
  "IsSupported name \<longleftrightarrow> name = Generic \<or> name = Codex \<or> name = Claude"

definition New :: "string \<Rightarrow> adapter_error + Adapter" where
  "New name = (if \<not> IsSupported name then Inl ErrUnknownAdapter else Inr \<lparr>ad_kind = name\<rparr>)"

definition hasWindowsVolumePrefix :: "string \<Rightarrow> bool" where
  "hasWindowsVolumePrefix path =
     (if length path < 2 \<or> path ! 1 \<noteq> CHR '':'' then False
      else (let first = of_char (path ! 0) :: nat in
            (65 \<le> first \<and> first \<le> 90) \<or> (97 \<le> first \<and> first \<le> 122)))"

definition validPrompt :: "string \<Rightarrow> bool" where
  "validPrompt prompt =
     (if TrimSpace prompt = '''' \<or> \<not> valid_string prompt then False
      else list_all (\<lambda>r. \<not> (r \<noteq> 10 \<and> r \<noteq> 9 \<and> (IsControl r \<or> Cf r))) (runes (string_bytes prompt)))"

definition validRelativeReference :: "string \<Rightarrow> bool" where
  "validRelativeReference path =
     (if path = '''' \<or> \<not> valid_string path \<or> has_prefix path ''/'' \<or> hasWindowsVolumePrefix path
         \<or> has_prefix path [CHR 92] \<or> has_prefix path ''/'' \<or> CHR 96 \<in> set path
      then False
      else list_all (\<lambda>r. \<not> (IsControl r \<or> Cf r)) (runes (string_bytes path)))"

definition finalizeAction :: "string \<Rightarrow> bool \<Rightarrow> PreparedAction" where
  "finalizeAction preview submit =
     (let terminalInput = string_bytes preview;
          terminalInput = (if submit then terminalInput @ [13] else terminalInput)
      in \<lparr>pa_Preview = preview, pa_TerminalInput = terminalInput\<rparr>)"

definition prepareGeneric :: "AttachmentPromptRequest \<Rightarrow> PreparedAction" where
  "prepareGeneric request =
     finalizeAction
       (Prompt request @ [CHR 10, CHR 10] @ ''Use the following local files:''
        @ concat (map (\<lambda>path. [CHR 10] @ ''- '' @ [CHR 96] @ path @ [CHR 96]) (RelativePaths request)))
       (Submit request)"

definition prepareCodex :: "AttachmentPromptRequest \<Rightarrow> PreparedAction" where
  "prepareCodex request =
     finalizeAction (Prompt request @ concat (map (\<lambda>path. '' @'' @ path) (RelativePaths request)))
       (Submit request)"

definition prepareClaude :: "AttachmentPromptRequest \<Rightarrow> PreparedAction" where
  "prepareClaude request =
     finalizeAction
       (Prompt request @ [CHR 10] @ concat (map (\<lambda>path. [CHR 10] @ ''@'' @ path) (RelativePaths request)))
       (Submit request)"

definition ad_Prepare :: "Adapter \<Rightarrow> AttachmentPromptRequest \<Rightarrow> adapter_error + PreparedAction" where
  "ad_Prepare a request =
     (if \<not> validPrompt (Prompt request) \<or> length (RelativePaths request) = 0 then Inl ErrInvalidPromptAction
      else if list_ex (\<lambda>path. \<not> validRelativeReference path \<or> (ad_kind a \<noteq> Generic \<and> CHR ''@'' \<in> set path))
                (RelativePaths request)
      then Inl ErrInvalidPromptAction
      else if ad_kind a = Codex then Inr (prepareCodex request)
      else if ad_kind a = Claude then Inr (prepareClaude request)
      else Inr (prepareGeneric request))"

section \<open>What reaches the terminal\<close>

text \<open>A byte that is not a control character, apart from tab and line feed.\<close>

definition harmless :: "byte \<Rightarrow> bool" where
  "harmless b \<longleftrightarrow> 0x80 \<le> b \<or> b = 9 \<or> b = 10 \<or> (0x20 \<le> b \<and> b \<noteq> 0x7F)"

lemma runes_harmless:
  assumes "valid_string s" "\<forall>r \<in> set (runes (string_bytes s)). r = 9 \<or> r = 10 \<or> \<not> IsControl r"
  shows "\<forall>b \<in> set (string_bytes s). harmless b"
proof
  fix b assume b: "b \<in> set (string_bytes s)"
  show "harmless b"
  proof (cases "b < 0x80")
    case True
    then have r: "unat b \<in> set (runes (string_bytes s))"
      using ascii_in_runes [of "string_bytes s" b] assms(1) b by (simp add: valid_string_def)
    then consider "unat b = 9" | "unat b = 10" | "\<not> IsControl (unat b)" using assms(2) by blast
    then show ?thesis
    proof cases
      case 3
      then have "0x20 \<le> unat b" "unat b \<noteq> 0x7F" by (auto simp: IsControl_def)
      then show ?thesis by (auto simp: harmless_def word_le_nat_alt)
    qed (simp_all add: harmless_def word_unat_eq_iff)
  qed (simp add: harmless_def not_less)
qed

lemma validPrompt_harmless: "validPrompt s \<Longrightarrow> \<forall>b \<in> set (string_bytes s). harmless b"
  by (rule runes_harmless) (auto simp: validPrompt_def list_all_iff split: if_splits)

lemma validRelativeReference_harmless:
  "validRelativeReference s \<Longrightarrow> \<forall>b \<in> set (string_bytes s). harmless b"
  by (rule runes_harmless) (auto simp: validRelativeReference_def list_all_iff split: if_splits)

lemma harmless_concat:
  "(\<And>p. p \<in> set ps \<Longrightarrow> \<forall>b \<in> set (string_bytes (f p)). harmless b) \<Longrightarrow>
   \<forall>b \<in> set (string_bytes (concat (map f ps))). harmless b"
  by (induction ps) auto

lemma count_list_concat_map:
  "(\<And>p. p \<in> set ps \<Longrightarrow> count_list (f p) c = n) \<Longrightarrow> count_list (concat (map f ps)) c = n * length ps"
  by (induction ps) (simp_all add: count_list_append)

text \<open>The preview an accepted request gets, by the kind of the adapter.\<close>

lemma ad_Prepare_accepts:
  assumes "ad_Prepare a request = Inr act"
  shows "validPrompt (Prompt request) \<and> RelativePaths request \<noteq> []
    \<and> (\<forall>p \<in> set (RelativePaths request). validRelativeReference p \<and> (ad_kind a \<noteq> Generic \<longrightarrow> CHR ''@'' \<notin> set p))
    \<and> act = (if ad_kind a = Codex then prepareCodex request
             else if ad_kind a = Claude then prepareClaude request else prepareGeneric request)"
  using assms by (auto simp: ad_Prepare_def list_ex_iff split: if_splits)

lemmas prepare_defs = prepareCodex_def prepareClaude_def prepareGeneric_def finalizeAction_def Let_def

section \<open>Properties\<close>

text \<open>
  An accepted attachment prompt cannot smuggle control characters into the terminal: the
  terminal input is the preview, with one carriage return at the end exactly when submission
  was asked for, and the preview holds no control byte but tabs and line feeds, so neither an
  escape sequence nor an early carriage return.
\<close>

theorem adapter_input_harmless:
  assumes "ad_Prepare a request = Inr act"
  shows "pa_TerminalInput act = string_bytes (pa_Preview act) @ (if Submit request then [13] else [])
    \<and> (\<forall>b \<in> set (string_bytes (pa_Preview act)). harmless b)"
proof -
  note acc = ad_Prepare_accepts [OF assms]
  have prompt: "\<forall>b \<in> set (string_bytes (Prompt request)). harmless b"
    using acc validPrompt_harmless by blast
  have path: "\<forall>b \<in> set (string_bytes p). harmless b" if "p \<in> set (RelativePaths request)" for p
    using acc that validRelativeReference_harmless by blast
  consider "act = prepareCodex request" | "act = prepareClaude request" | "act = prepareGeneric request"
    using acc by metis
  then show ?thesis
  proof cases
    case 1
    have "\<forall>b \<in> set (string_bytes (concat (map (\<lambda>p. '' @'' @ p) (RelativePaths request)))). harmless b"
      by (rule harmless_concat) (use path in \<open>auto simp: harmless_def\<close>)
    then show ?thesis using prompt 1 by (auto simp: prepare_defs)
  next
    case 2
    have "\<forall>b \<in> set (string_bytes (concat (map (\<lambda>p. [CHR 10] @ ''@'' @ p) (RelativePaths request)))). harmless b"
      by (rule harmless_concat) (use path in \<open>auto simp: harmless_def\<close>)
    then show ?thesis using prompt 2 by (auto simp: prepare_defs) (simp add: harmless_def)
  next
    case 3
    have "\<forall>b \<in> set (string_bytes (concat (map (\<lambda>p. [CHR 10] @ ''- '' @ [CHR 96] @ p @ [CHR 96])
        (RelativePaths request)))). harmless b"
      by (rule harmless_concat) (use path in \<open>auto simp: harmless_def\<close>)
    then show ?thesis using prompt 3 by (auto simp: prepare_defs) (simp_all add: harmless_def)
  qed
qed

text \<open>
  An accepted attachment prompt refers to exactly the files it was given: for the adapters
  with inline references the preview has one reference mark per path beyond those of the
  prompt, and for the generic adapter one pair of back quotes per path.
\<close>

theorem adapter_references_exact:
  assumes "ad_Prepare a request = Inr act"
  shows "if ad_kind a = Codex \<or> ad_kind a = Claude
    then count_list (pa_Preview act) CHR ''@'' =
           count_list (Prompt request) CHR ''@'' + length (RelativePaths request)
    else count_list (pa_Preview act) CHR 96 =
           count_list (Prompt request) CHR 96 + 2 * length (RelativePaths request)"
proof -
  note acc = ad_Prepare_accepts [OF assms]
  let ?ps = "RelativePaths request"
  have gen: "count_list p CHR 96 = 0" if "p \<in> set ?ps" for p
    using acc that by (auto simp: validRelativeReference_def count_list_0_iff split: if_splits)
  have at: "count_list p CHR ''@'' = 0" if "p \<in> set ?ps" "ad_kind a = Codex \<or> ad_kind a = Claude" for p
    using acc that by (auto simp: count_list_0_iff Generic_def Codex_def Claude_def)
  have 1: "count_list (concat (map (\<lambda>p. '' @'' @ p) ?ps)) CHR ''@'' = 1 * length ?ps"
    if "ad_kind a = Codex"
    by (rule count_list_concat_map) (use at that in \<open>simp add: count_list_append\<close>)
  have 2: "count_list (concat (map (\<lambda>p. [CHR 10] @ ''@'' @ p) ?ps)) CHR ''@'' = 1 * length ?ps"
    if "ad_kind a = Claude"
    by (rule count_list_concat_map) (use at that in \<open>simp add: count_list_append\<close>)
  have 3: "count_list (concat (map (\<lambda>p. [CHR 10] @ ''- '' @ [CHR 96] @ p @ [CHR 96]) ?ps)) CHR 96 = 2 * length ?ps"
    by (rule count_list_concat_map) (use gen in \<open>simp add: count_list_append\<close>)
  show ?thesis
    using acc 1 2 3 by (auto simp: prepare_defs count_list_append Codex_def Claude_def)
qed

lemma sample_accepted:
  "ad_Prepare \<lparr>ad_kind = Codex\<rparr> \<lparr>Prompt = ''fix'', RelativePaths = [''b''], Submit = True\<rparr> =
     Inr (prepareCodex \<lparr>Prompt = ''fix'', RelativePaths = [''b''], Submit = True\<rparr>)"
  using graphic_string [of "''fix''"] graphic_string [of "''b''"]
  by (simp add: graphic_def ad_Prepare_def validPrompt_def validRelativeReference_def IsControl_def Cf_def in_ranges_def
      has_prefix_def hasWindowsVolumePrefix_def Codex_def Generic_def)

theorem adapter_input_harmless_witness:
  "pa_TerminalInput (prepareCodex \<lparr>Prompt = ''fix'', RelativePaths = [''b''], Submit = True\<rparr>) =
   string_bytes ''fix @b'' @ [13]"
  using adapter_input_harmless [OF sample_accepted] by (simp add: prepare_defs)

theorem adapter_references_exact_witness:
  "count_list (pa_Preview (prepareCodex \<lparr>Prompt = ''fix'', RelativePaths = [''b''], Submit = True\<rparr>)) CHR ''@'' = 1"
  using adapter_references_exact [OF sample_accepted] by simp

end
