(* ===== verification/Transfer_Safety.thy ===== *)
theory Transfer_Safety
  imports Transfer_Manager
begin

text \<open>
  The invariant of the transfer manager and what follows from it over arbitrary sequences of
  calls and arbitrary patterns of system call failures: verified content, quotas, and
  publication that can be retried.
\<close>

section \<open>Invariant\<close>

definition scanned :: "bytes \<Rightarrow> utf8StreamValidator" where
  "scanned p = \<lparr>us_invalid = fst (scan p), us_tail = snd (scan p)\<rparr>"

lemma us_Write_scanned: "us_Write d (scanned p) = scanned (p @ d)"
  using fold_us_Write [of "[d]" p] by (simp add: scanned_def)

definition limits_ok :: "managerLimits \<Rightarrow> bool" where
  "limits_ok l \<longleftrightarrow> unat (ml_maxFileBytes l) < 2 ^ 63 \<and> ml_maxChunkBytes l < 2 ^ 63"

definition transfer_ok :: "managerLimits \<Rightarrow> bytes \<Rightarrow> activeTransfer \<Rightarrow> bool" where
  "transfer_ok l k t \<longleftrightarrow> at_transferID t = k
     \<and> at_partialName t \<noteq> finalName t \<and> CHR ''/'' \<notin> set (finalName t)
     \<and> at_totalSize t \<le> ml_maxFileBytes l
     \<and> unat (at_receivedBytes t) = length (at_hasher t) \<and> length (at_hasher t) \<le> unat (at_totalSize t)
     \<and> at_sniff t = take contentSniffBytes (at_hasher t)
     \<and> (cp_text (at_policy t) \<longrightarrow> at_text t = scanned (at_hasher t))"

definition quota_ok :: "Manager \<Rightarrow> SessionStaging \<Rightarrow> bool" where
  "quota_ok m s \<longleftrightarrow>
     unat (mg_reservedBytes m) =
       total_of (\<lambda>t. unat (at_totalSize t)) (mg_active m) + unat (st_completedBytesReserved s)
     \<and> mg_reservedBytes m \<le> ml_maxSessionBytes (mg_limits m)
     \<and> total_of (\<lambda>c. unat (ca_SizeBytes c)) (mg_completed m) \<le> unat (st_completedBytesReserved s)"

definition man_ok :: "Manager \<Rightarrow> SessionStaging \<Rightarrow> bool" where
  "man_ok m s \<longleftrightarrow> limits_ok (mg_limits m) \<and> finite (dom (mg_active m)) \<and> finite (dom (mg_completed m))
     \<and> (\<forall>k t. mg_active m k = Some t \<longrightarrow> transfer_ok (mg_limits m) k t) \<and> quota_ok m s"

definition tm_inv :: "libs \<Rightarrow> tm \<Rightarrow> bool" where
  "tm_inv lb st \<longleftrightarrow> quiet (tm_w st) \<and> man_ok (tm_m st) (tm_staging st)
     \<and> store_ok (lb_sha256 lb) (tm_m st) (w_fs (tm_w st))"

text \<open>The parts of the manager that the invariant does not mention.\<close>

lemma store_ok_cong:
  "mg_active m' = mg_active m \<Longrightarrow> mg_completed m' = mg_completed m \<Longrightarrow> store_ok sha m' f = store_ok sha m f"
  by (simp add: store_ok_def name_of_def cong: option.case_cong)

lemma man_irrelevant [simp]:
  "man_ok (m\<lparr>mg_cancelled := x\<rparr>) s = man_ok m s" "man_ok (m\<lparr>mg_cancelledOrder := y\<rparr>) s = man_ok m s"
  "man_ok (m\<lparr>mg_closing := b\<rparr>) s = man_ok m s" "man_ok (m\<lparr>mg_closed := b\<rparr>) s = man_ok m s"
  "man_ok (m\<lparr>mg_directory := d\<rparr>) s = man_ok m s"
  "man_ok m (s\<lparr>st_openDirectories := n\<rparr>) = man_ok m s" "man_ok m (s\<lparr>st_transferManagerOpen := b\<rparr>) = man_ok m s"
  by (simp_all add: man_ok_def quota_ok_def)

lemma store_irrelevant [simp]:
  "store_ok sha (m\<lparr>mg_cancelled := x\<rparr>) f = store_ok sha m f" "store_ok sha (m\<lparr>mg_cancelledOrder := y\<rparr>) f = store_ok sha m f"
  "store_ok sha (m\<lparr>mg_closing := b\<rparr>) f = store_ok sha m f" "store_ok sha (m\<lparr>mg_closed := b\<rparr>) f = store_ok sha m f"
  "store_ok sha (m\<lparr>mg_directory := d\<rparr>) f = store_ok sha m f" "store_ok sha (m\<lparr>mg_reservedBytes := r\<rparr>) f = store_ok sha m f"
  by (rule store_ok_cong; simp)+

lemma tm_inv_world:
  "tm_inv lb st \<Longrightarrow> quiet w \<Longrightarrow> store_ok (lb_sha256 lb) (tm_m st) (w_fs w) \<Longrightarrow> tm_inv lb (st\<lparr>tm_w := w\<rparr>)"
  by (simp add: tm_inv_def)

lemma recordCancelled_inv [simp]: "tm_inv lb (recordCancelledLocked k st) = tm_inv lb st"
  by (simp add: recordCancelledLocked_def tm_inv_def Let_def)

section \<open>Releasing transfers\<close>

lemma man_ok_drop_active:
  assumes ok: "man_ok m s" and t: "mg_active m k = Some t"
  shows "man_ok (m\<lparr>mg_active := (mg_active m)(k := None),
      mg_reservedBytes := (if at_totalSize t \<le> mg_reservedBytes m then mg_reservedBytes m - at_totalSize t else 0)\<rparr>) s"
proof -
  have fin: "finite (dom (mg_active m))" using ok by (simp add: man_ok_def)
  note tot = total_of_del [OF fin t, of "\<lambda>t. unat (at_totalSize t)"]
  have q: "quota_ok m s" using ok by (simp add: man_ok_def)
  then have le: "at_totalSize t \<le> mg_reservedBytes m" using tot by (simp add: quota_ok_def word_le_nat_alt)
  have "mg_reservedBytes m - at_totalSize t \<le> ml_maxSessionBytes (mg_limits m)"
    using q unat_diff_le [OF le] unfolding quota_ok_def word_le_nat_alt by linarith
  then show ?thesis
    using ok q tot le unat_diff_le [OF le] by (auto simp: man_ok_def quota_ok_def)
qed

lemma drop_active_inv:
  assumes inv: "tm_inv lb st" and t: "mg_active (tm_m st) k = Some t"
    and w: "quiet w" "w_fs w = removed (at_partialName t) s" "store_ok (lb_sha256 lb) (tm_m st) s"
  shows "tm_inv lb (releaseActiveLocked k t (st\<lparr>tm_w := w\<rparr>))"
proof -
  let ?m = "(tm_m st)\<lparr>mg_active := (mg_active (tm_m st))(k := None)\<rparr>"
  have "mg_completed (tm_m st) k = None" using w(3) t by (simp add: store_ok_def)
  then have "store_ok (lb_sha256 lb) ?m (removed (at_partialName t) s)"
    by (intro store_ok_remove [OF w(3), of k]) (use t in \<open>auto simp: name_of_def split: if_splits\<close>)
  then show ?thesis
    using inv w(1,2) man_ok_drop_active [OF _ t, of "tm_staging st"]
    by (simp add: tm_inv_def releaseActiveLocked_def Let_def)
qed

lemma sd_remove_active:
  assumes inv: "tm_inv lb st" and t: "mg_active (tm_m st) k = Some t"
    and w0: "quiet w0" "store_ok (lb_sha256 lb) (tm_m st) (w_fs w0)"
    and r: "sd_remove d (at_partialName t) w0 = (r, w)"
  shows "r \<noteq> None \<Longrightarrow> tm_inv lb (st\<lparr>tm_w := w\<rparr>)" "r = None \<Longrightarrow> tm_inv lb (releaseActiveLocked k t (st\<lparr>tm_w := w\<rparr>))"
proof -
  have y: "quiet w" "remove_post (at_partialName t) (w_fs w0) r (w_fs w)"
    using sd_remove_yields [OF w0(1), of d "at_partialName t"] r by simp_all
  show "tm_inv lb (st\<lparr>tm_w := w\<rparr>)" if "r \<noteq> None"
    using y that w0(2) by (intro tm_inv_world [OF inv]) (auto simp: remove_post_def)
  show "tm_inv lb (releaseActiveLocked k t (st\<lparr>tm_w := w\<rparr>))" if "r = None"
    using y that w0(2) by (intro drop_active_inv [OF inv t, of w "w_fs w0"]) (auto simp: remove_post_def)
qed

lemma failTransferLocked_inv:
  assumes "tm_inv lb st" "mg_active (tm_m st) k = Some t"
  shows "tm_inv lb (snd (failTransferLocked k t e st))"
  using assms sd_remove_active [OF assms, of "tm_w st" "mg_directory (tm_m st)"]
  by (auto simp: failTransferLocked_def tm_inv_def split: prod.splits option.splits)

lemma abortAfterWriteFailureLocked_inv:
  assumes "tm_inv lb st" "mg_active (tm_m st) k = Some t"
  shows "tm_inv lb (snd (abortAfterWriteFailureLocked k t e st))"
  using assms sd_remove_active [OF assms, of "tm_w st" "mg_directory (tm_m st)"]
  by (auto simp: abortAfterWriteFailureLocked_def tm_inv_def split: prod.splits option.splits)

lemma cleanup_inv:
  assumes inv: "tm_inv lb st" and t: "mg_active (tm_m st) k = Some t"
    and c: "cleanupActiveTransferLocked t st = (r, st')"
  shows "tm_m st' = tm_m st" "r \<noteq> None \<Longrightarrow> tm_inv lb st'" "r = None \<Longrightarrow> tm_inv lb (releaseActiveLocked k t st')"
proof -
  define u where "u = (if at_publicationAttempted t
            then sd_removePublishedLink (mg_directory (tm_m st)) (at_partialName t) (finalName t) (tm_w st)
            else (None, tm_w st))"
  have ne: "at_partialName t \<noteq> finalName t" and q: "quiet (tm_w st)"
    and ok: "store_ok (lb_sha256 lb) (tm_m st) (w_fs (tm_w st))"
    using inv t by (auto simp: tm_inv_def man_ok_def transfer_ok_def)
  have "quiet (snd u) \<and> store_ok (lb_sha256 lb) (tm_m st) (w_fs (snd u))"
    using sd_removePublishedLink_yields [OF q, of "mg_directory (tm_m st)" "at_partialName t" "finalName t"]
      store_ok_unlink [OF ok t ne] ok q by (auto simp: u_def yields_def)
  then have w1: "quiet w1 \<and> store_ok (lb_sha256 lb) (tm_m st) (w_fs w1)" if "u = (e, w1)" for e w1
    using that by simp
  have def_c: "cleanupActiveTransferLocked t st = (case u of (Some e, w) \<Rightarrow> (Some e, st\<lparr>tm_w := w\<rparr>)
      | (None, w) \<Rightarrow> (case sd_remove (mg_directory (tm_m st)) (at_partialName t) w of (r, w) \<Rightarrow> (r, st\<lparr>tm_w := w\<rparr>)))"
    by (simp add: cleanupActiveTransferLocked_def u_def finalName_def Let_def)
  show "tm_m st' = tm_m st" using c by (auto simp: def_c split: prod.splits option.splits)
  show "r \<noteq> None \<Longrightarrow> tm_inv lb st'" "r = None \<Longrightarrow> tm_inv lb (releaseActiveLocked k t st')"
    using c w1 sd_remove_active [OF inv t] tm_inv_world [OF inv]
    by (auto simp: def_c split: prod.splits option.splits)
qed

section \<open>Every call keeps the invariant\<close>

lemma rand_quiet: "quiet w \<Longrightarrow> rand_read w = (r, w') \<Longrightarrow> quiet w' \<and> w_fs w' = w_fs w"
  by (auto simp: rand_read_def quiet_def split: list.splits)

lemma prefix_quiet:
  "quiet w \<Longrightarrow> generatedStoragePrefix w = (r, w') \<Longrightarrow>
   quiet w' \<and> w_fs w' = w_fs w \<and> (\<forall>p. r = Inr p \<longrightarrow> set p \<subseteq> set ''0123456789abcdef'')"
  using EncodeToString_digits
  by (fastforce simp: generatedStoragePrefix_def dest: rand_quiet split: prod.splits option.splits simp del: set_simps)

lemma createPartial_store:
  assumes "quiet w" "store_ok sha m (w_fs w)" "createPartialLocked n d w = (r, w')"
  shows "quiet w' \<and> store_ok sha m (w_fs w') \<and>
    (\<forall>p name. r = Inr (p, name) \<longrightarrow> name = p @ ''.partial'' \<and> set p \<subseteq> set ''0123456789abcdef''
       \<and> (\<exists>s. store_ok sha m s \<and> fs_entries s name = None \<and> w_fs w' = created name s))"
  using assms
proof (induction n arbitrary: w)
  case 0
  then show ?case by auto
next
  case (Suc n)
  obtain g w1 where g: "generatedStoragePrefix w = (g, w1)" by (metis prod.exhaust)
  have w1: "quiet w1" "w_fs w1 = w_fs w" "\<And>p. g = Inr p \<Longrightarrow> set p \<subseteq> set ''0123456789abcdef''"
    using prefix_quiet [OF Suc.prems(1) g] by blast+
  show ?case
  proof (cases g)
    case (Inl e)
    then show ?thesis using Suc.prems g w1 by auto
  next
    case (Inr p)
    let ?name = "p @ ''.partial''"
    obtain c w2 where c: "sd_create d ?name w1 = (c, w2)" by (metis prod.exhaust)
    have y: "quiet w2" "create_post ?name (w_fs w) c (w_fs w2)"
      using sd_create_yields [OF w1(1), of d ?name] c w1(2) by simp_all
    have ok2: "store_ok sha m (w_fs w2)"
      using y(2) Suc.prems(2) store_ok_created [OF Suc.prems(2)]
      by (auto simp: create_post_def split: option.splits)
    show ?thesis
    proof (cases c)
      case None
      then have "fs_entries (w_fs w) ?name = None \<and> w_fs w2 = created ?name (w_fs w)"
        using y(2) by (simp add: create_post_def)
      then show ?thesis using Suc.prems g c Inr None y ok2 w1(3) by auto
    next
      case (Some e)
      then show ?thesis
        using Suc.prems g c Inr y ok2 Suc.IH [OF y(1) ok2]
        by (cases "is_exist e") auto
    qed
  qed
qed

lemma store_ok_begin:
  assumes ok: "store_ok sha m s" and fresh: "fs_entries s n = None"
    and k: "mg_active m k = None" "mg_completed m k = None"
    and t: "at_partialName t = n" "at_hasher t = []"
  shows "store_ok sha (m\<lparr>mg_active := (mg_active m)(k \<mapsto> t)\<rparr>) (created n s)"
proof -
  let ?m = "m\<lparr>mg_active := (mg_active m)(k \<mapsto> t)\<rparr>"
  have c: "store_ok sha m (created n s)" by (rule store_ok_created [OF ok fresh])
  have nm: "name_of ?m j = (if j = k then Some n else name_of m j)" for j
    using t by (simp add: name_of_def cong: option.case_cong)
  have own: "active_file t (created n s)" using t by (simp add: active_file_def created_def)
  have other: "fs_entries (created n s) n' \<noteq> fs_entries (created n s) n" if "name_of m j = Some n'" for j n'
    using store_ok_entry [OF ok that] fresh by (auto simp: created_def)
  show ?thesis
    unfolding store_ok_def
  proof (intro conjI allI impI)
    fix k1 k2 n1 n2 assume a: "k1 \<noteq> k2 \<and> name_of ?m k1 = Some n1 \<and> name_of ?m k2 = Some n2"
    then show "fs_entries (created n s) n1 \<noteq> fs_entries (created n s) n2"
      using other [of k1 n1] other [of k2 n2] store_ok_distinct [OF c, of k1 k2 n1 n2]
      by (cases "k1 = k"; cases "k2 = k") (auto simp: nm)
  next
    fix j u assume u: "mg_active ?m j = Some u"
    show "active_file u (created n s)" using u own c by (cases "j = k") (auto simp: store_ok_def)
    show "mg_completed ?m j = None" using u k c by (cases "j = k") (auto simp: store_ok_def)
  qed (use c in \<open>auto simp: store_ok_def\<close>)
qed

lemma man_ok_begin:
  assumes ok: "man_ok m s" and k: "mg_active m k = None" and t: "transfer_ok (mg_limits m) k t"
    and fits: "\<not> mg_reservedBytes m > ml_maxSessionBytes (mg_limits m)"
      "\<not> at_totalSize t > ml_maxSessionBytes (mg_limits m) - mg_reservedBytes m"
  shows "man_ok (m\<lparr>mg_active := (mg_active m)(k \<mapsto> t), mg_reservedBytes := mg_reservedBytes m + at_totalSize t\<rparr>) s"
proof -
  have fin: "finite (dom (mg_active m))" and q: "quota_ok m s" using ok by (auto simp: man_ok_def)
  have le: "mg_reservedBytes m \<le> ml_maxSessionBytes (mg_limits m)" using fits(1) by simp
  have sum: "unat (mg_reservedBytes m) + unat (at_totalSize t) \<le> unat (ml_maxSessionBytes (mg_limits m))"
    using fits(2) le by (simp add: word_less_nat_alt word_le_nat_alt unat_diff_le [unfolded word_le_nat_alt])
  moreover have "unat (ml_maxSessionBytes (mg_limits m)) < 2 ^ LENGTH(64)" by (rule unsigned_less)
  ultimately have add: "unat (mg_reservedBytes m + at_totalSize t) = unat (mg_reservedBytes m) + unat (at_totalSize t)"
    by (intro unat_add_noo) linarith
  then show ?thesis
    using ok q t sum total_of_upd [OF fin k, of "\<lambda>t. unat (at_totalSize t)" t]
    by (auto simp: man_ok_def quota_ok_def word_le_nat_alt)
qed

lemma parse_final:
  assumes "parseContentPolicy pm e c = Inr p" "set pre \<subseteq> set ''0123456789abcdef''"
  shows "pre @ ''.partial'' \<noteq> pre @ cp_extension p" "CHR ''/'' \<notin> set (pre @ cp_extension p)"
  using parseContentPolicy_suffix [OF assms(1)] assms(2)
  by (auto simp: policy_table_def)

lemma begin_check_ok:
  assumes "begin_check lb request m = Inr p"
  shows "br_TotalSizeBytes request \<le> ml_maxFileBytes (mg_limits m)"
    "parseContentPolicy (lb_parseMediaType lb) (br_DeclaredExtension request) (br_DeclaredContentType request) = Inr p"
    "mg_active m (br_TransferID request) = None" "mg_completed m (br_TransferID request) = None"
    "\<not> mg_reservedBytes m > ml_maxSessionBytes (mg_limits m)"
    "\<not> br_TotalSizeBytes request > ml_maxSessionBytes (mg_limits m) - mg_reservedBytes m"
  using assms by (auto simp: begin_check_def Let_def split: if_splits sum.splits)

lemma Begin_inv:
  assumes inv: "tm_inv lb st"
  shows "tm_inv lb (snd (Begin lb request st))"
proof -
  let ?m = "tm_m st" and ?k = "br_TransferID request"
  obtain r w where c: "createPartialLocked storageNameAttempts (mg_directory ?m) (tm_w st) = (r, w)"
    by (metis prod.exhaust)
  have w: "quiet w" "store_ok (lb_sha256 lb) ?m (w_fs w)"
    using createPartial_store [OF _ _ c, of "lb_sha256 lb" ?m] inv by (simp_all add: tm_inv_def)
  obtain agg e where ag: "ag_Reserve (br_TotalSizeBytes request) (tm_agg st) = (agg, e)" by (metis prod.exhaust)
  show ?thesis
  proof (cases "begin_check lb request ?m")
    case (Inl e)
    then show ?thesis using inv by (simp add: Begin_def Let_def)
  next
    case (Inr p)
    note ok = begin_check_ok [OF Inr]
    show ?thesis
    proof (cases "e = None \<and> (\<exists>pre name. r = Inr (pre, name))")
      case True
      then obtain pre name where r: "r = Inr (pre, name)" by blast
      obtain s where s: "name = pre @ ''.partial''" "set pre \<subseteq> set ''0123456789abcdef''"
        "store_ok (lb_sha256 lb) ?m s" "fs_entries s name = None" "w_fs w = created name s"
        using createPartial_store [OF _ _ c, of "lb_sha256 lb" ?m] inv r by (auto simp: tm_inv_def)
      let ?t = "new_transfer request p pre name"
      have "transfer_ok (mg_limits ?m) ?k ?t"
        using ok(1) parse_final [OF ok(2) s(2)] s(1)
        by (simp add: transfer_ok_def new_transfer_def finalName_def newValidator_def scanned_def)
      then have "man_ok (?m\<lparr>mg_active := (mg_active ?m)(?k \<mapsto> ?t),
          mg_reservedBytes := mg_reservedBytes ?m + br_TotalSizeBytes request\<rparr>) (tm_staging st)"
        using man_ok_begin [of ?m "tm_staging st" ?k ?t] ok inv by (simp add: tm_inv_def new_transfer_def)
      moreover have "store_ok (lb_sha256 lb) (?m\<lparr>mg_active := (mg_active ?m)(?k \<mapsto> ?t)\<rparr>) (w_fs w)"
        using store_ok_begin [OF s(3,4) ok(3,4), of ?t] s(5) by (simp add: new_transfer_def)
      ultimately show ?thesis
        using w(1) Inr True ag c r by (simp add: tm_inv_def Begin_def Let_def)
    next
      case False
      then show ?thesis using Inr ag c w inv
        by (auto simp: Begin_def tm_inv_def Let_def split: option.splits sum.splits)
    qed
  qed
qed

lemma sint_offset:
  fixes n :: u64
  assumes "unat n < 2 ^ 63"
  shows "sint n = int (unat n)" "nat (sint n) = unat n"
proof -
  have self: "signed_take_bit 63 (int m) = int m" if "m < 2 ^ 63" for m
    by (rule signed_take_bit_int_eq_self) (use that in auto)
  show "sint n = int (unat n)"
    unfolding sint_uint uint_nat using self [OF assms] by simp
  then show "nat (sint n) = unat n" by (metis nat_int)
qed

lemma absorb_ok:
  assumes ok: "transfer_ok l k t" and d: "length d \<le> unat (at_totalSize t) - length (at_hasher t)"
  shows "transfer_ok l k (absorb d t)"
proof -
  have len: "length (at_hasher t) + length d \<le> unat (at_totalSize t)"
    and rec: "unat (at_receivedBytes t) = length (at_hasher t)"
    using ok d by (auto simp: transfer_ok_def)
  moreover have "unat (at_totalSize t) < 2 ^ LENGTH(64)" by (rule unsigned_less)
  ultimately have small: "length d < 2 ^ LENGTH(64)" "length (at_hasher t) + length d < 2 ^ LENGTH(64)" by linarith+
  have "unat (of_nat (length d) :: u64) = length d" by (rule of_nat_inverse [OF refl small(1)])
  then have "unat (at_receivedBytes t + of_nat (length d)) = length (at_hasher t) + length d"
    using rec small(2) by (subst unat_add_noo) simp_all
  then show ?thesis
    using ok len by (auto simp: transfer_ok_def absorb_def finalName_def us_Write_scanned min_def)
qed

lemma man_ok_replace:
  assumes "man_ok m s" "mg_active m k = Some t" "transfer_ok (mg_limits m) k t'" "at_totalSize t' = at_totalSize t"
  shows "man_ok (m\<lparr>mg_active := (mg_active m)(k \<mapsto> t')\<rparr>) s"
  using assms total_of_replace [of "mg_active m" k t "\<lambda>t. unat (at_totalSize t)" t']
  by (auto simp: man_ok_def quota_ok_def)

text \<open>What a chunk that passes the checks guarantees about its place in the file.\<close>

lemma chunk_fits:
  assumes ok: "transfer_ok l k t" "limits_ok l"
    and small: "\<not> of_nat (length d) > at_totalSize t - at_receivedBytes t" "int (length d) \<le> mc" "mc < 2 ^ 63"
  shows "length (at_hasher t) + length d \<le> unat (at_totalSize t)"
    "nat (sint (at_receivedBytes t)) = length (at_hasher t)"
proof -
  have rec: "unat (at_receivedBytes t) = length (at_hasher t)" "length (at_hasher t) \<le> unat (at_totalSize t)"
    "unat (at_totalSize t) < 2 ^ 63"
    using ok by (auto simp: transfer_ok_def limits_ok_def word_le_nat_alt)
  have "length d < 2 ^ LENGTH(64)" using small(2,3) by simp
  then have "unat (of_nat (length d) :: u64) = length d" by (rule of_nat_inverse [OF refl])
  moreover have "unat (at_totalSize t - at_receivedBytes t) = unat (at_totalSize t) - length (at_hasher t)"
    using rec by (subst unat_diff_le) (simp_all add: word_le_nat_alt)
  ultimately show "length (at_hasher t) + length d \<le> unat (at_totalSize t)"
    using small(1) rec by (simp add: word_less_nat_alt)
  show "nat (sint (at_receivedBytes t)) = length (at_hasher t)"
    using rec by (subst sint_offset) auto
qed

text \<open>A chunk that passes all checks of \<^verbatim>\<open>Chunk\<close> for the transfer \<open>t\<close>.\<close>

definition chunk_ok :: "libs \<Rightarrow> ChunkRequest \<Rightarrow> Manager \<Rightarrow> activeTransfer \<Rightarrow> bool" where
  "chunk_ok lb request m t \<longleftrightarrow> \<not> mg_closed m \<and> \<not> mg_closing m
     \<and> validTransferID (cr_TransferID request) \<and> length (cr_ChunkSHA256 request) = sha256_Size \<and> cr_Data request \<noteq> []
     \<and> mg_active m (cr_TransferID request) = Some t
     \<and> int (length (cr_Data request)) \<le> ml_maxChunkBytes (mg_limits m)
     \<and> cr_OffsetBytes request = at_receivedBytes t
     \<and> \<not> of_nat (length (cr_Data request)) > at_totalSize t - at_receivedBytes t
     \<and> equalHash (lb_sha256 lb (cr_Data request)) (cr_ChunkSHA256 request)"

lemma Chunk_cases:
  obtains (refused) e where "Chunk lb request st = (Some e, st)"
  | (tried) t where "chunk_ok lb request (tm_m st) t"
      "Chunk lb request st =
        (case sd_writeAt (mg_directory (tm_m st)) (at_partialName t) (sint (at_receivedBytes t)) (cr_Data request) (tm_w st) of
           (Some e, w) \<Rightarrow>
             (case abortAfterWriteFailureLocked (cr_TransferID request) t e (st\<lparr>tm_w := w\<rparr>) of (err, st) \<Rightarrow> (Some err, st))
         | (None, w) \<Rightarrow>
             (None, st\<lparr>tm_m := (tm_m st)\<lparr>mg_active := (mg_active (tm_m st))(cr_TransferID request \<mapsto>
                absorb (cr_Data request) t)\<rparr>, tm_w := w\<rparr>))"
proof (cases "\<exists>t. chunk_ok lb request (tm_m st) t")
  case True
  then obtain t where t: "chunk_ok lb request (tm_m st) t" by blast
  show ?thesis
    by (rule tried [OF t], use t in \<open>simp add: Chunk_def chunk_ok_def Let_def\<close>)
next
  case False
  then have "\<exists>e. Chunk lb request st = (Some e, st)"
    by (cases "mg_active (tm_m st) (cr_TransferID request)") (auto simp: Chunk_def chunk_ok_def Let_def not_less)
  then show ?thesis using refused by blast
qed

lemma Chunk_inv:
  assumes inv: "tm_inv lb st"
  shows "tm_inv lb (snd (Chunk lb request st))"
proof (cases lb request st rule: Chunk_cases)
  case (refused e)
  then show ?thesis using inv by simp
next
  case (tried t)
  let ?m = "tm_m st" and ?k = "cr_TransferID request" and ?d = "cr_Data request" and ?s = "w_fs (tm_w st)"
  have t: "mg_active ?m ?k = Some t" using tried(1) by (simp add: chunk_ok_def)
  have q: "quiet (tm_w st)" and man: "man_ok ?m (tm_staging st)" and ok: "store_ok (lb_sha256 lb) ?m ?s"
    using inv by (auto simp: tm_inv_def)
  have tok: "transfer_ok (mg_limits ?m) ?k t" and lim: "limits_ok (mg_limits ?m)"
    using man t by (auto simp: man_ok_def)
  note fits = chunk_fits [OF tok lim, of ?d "ml_maxChunkBytes (mg_limits ?m)"]
  have fit: "length (at_hasher t) + length ?d \<le> unat (at_totalSize t)"
    and off: "nat (sint (at_receivedBytes t)) = length (at_hasher t)"
    using fits tried(1) lim by (auto simp: chunk_ok_def limits_ok_def)
  obtain r w where wr:
    "sd_writeAt (mg_directory ?m) (at_partialName t) (sint (at_receivedBytes t)) ?d (tm_w st) = (r, w)"
    by (metis prod.exhaust)
  have y: "quiet w" "write_post (at_partialName t) (sint (at_receivedBytes t)) ?d ?s r (w_fs w)"
    using sd_writeAt_yields [OF q, of "mg_directory ?m" "at_partialName t" "sint (at_receivedBytes t)" ?d] wr by simp_all
  have part: "store_ok (lb_sha256 lb) ?m (w_fs w)"
    using y(2) ok store_ok_written(1) [OF ok t _ off, of _ "take j ?d" for j] fit
    by (auto simp: write_post_def)
  show ?thesis
  proof (cases r)
    case None
    then obtain i where i: "fs_entries ?s (at_partialName t) = Some (FileNode i)"
      "w_fs w = written i (sint (at_receivedBytes t)) ?d ?s"
      using y(2) by (auto simp: write_post_def)
    have ab: "transfer_ok (mg_limits ?m) ?k (absorb ?d t)"
      using fit by (intro absorb_ok [OF tok]) simp
    have "store_ok (lb_sha256 lb) (?m\<lparr>mg_active := (mg_active ?m)(?k \<mapsto> absorb ?d t)\<rparr>) (w_fs w)"
      unfolding i(2) by (rule store_ok_written(2) [OF ok t i(1) off fit]) (simp_all add: absorb_def)
    moreover have "man_ok (?m\<lparr>mg_active := (mg_active ?m)(?k \<mapsto> absorb ?d t)\<rparr>) (tm_staging st)"
      by (rule man_ok_replace [OF man t ab]) (simp add: absorb_def)
    ultimately show ?thesis using tried(2) wr None y(1) by (simp add: tm_inv_def)
  next
    case (Some e)
    have "tm_inv lb (st\<lparr>tm_w := w\<rparr>)" by (rule tm_inv_world [OF inv y(1) part])
    then have "tm_inv lb (snd (abortAfterWriteFailureLocked ?k t e (st\<lparr>tm_w := w\<rparr>)))"
      by (rule abortAfterWriteFailureLocked_inv) (simp add: t)
    then show ?thesis using tried(2) wr Some by (simp add: split_beta)
  qed
qed

lemma tm_Cancel_inv:
  assumes inv: "tm_inv lb st"
  shows "tm_inv lb (snd (tm_Cancel k st))"
proof (cases "mg_active (tm_m st) k")
  case None
  then show ?thesis using inv by (simp add: tm_Cancel_def Let_def)
next
  case (Some t)
  obtain r st' where c: "cleanupActiveTransferLocked t st = (r, st')" by (metis prod.exhaust)
  show ?thesis using cleanup_inv [OF inv Some c] inv Some c
    by (cases r) (simp_all add: tm_Cancel_def Let_def)
qed

lemma close_loop_inv: "tm_inv lb st \<Longrightarrow> tm_inv lb (snd (close_loop ks errs st))"
proof (induction ks arbitrary: errs st)
  case (Cons k ks)
  show ?case
  proof (cases "mg_active (tm_m st) k")
    case (Some t)
    obtain r st' where c: "cleanupActiveTransferLocked t st = (r, st')" by (metis prod.exhaust)
    show ?thesis using cleanup_inv [OF Cons.prems Some c] Cons.IH Some c by (cases r) simp_all
  qed (use Cons in simp)
qed simp

lemma tm_Close_inv:
  assumes "tm_inv lb st"
  shows "tm_inv lb (snd (tm_Close order st))"
proof -
  let ?st = "st\<lparr>tm_m := (tm_m st)\<lparr>mg_closing := True\<rparr>\<rparr>"
  obtain errs st1 where c: "close_loop order [] ?st = (errs, st1)" by (metis prod.exhaust)
  have "tm_inv lb ?st" using assms by (simp add: tm_inv_def)
  then have st1: "tm_inv lb st1" using close_loop_inv [of lb ?st order "[]"] c by simp
  obtain e d s w where d: "sd_close (mg_directory (tm_m st1)) (tm_staging st1) (tm_w st1) = (e, d, s, w)"
    by (metis prod_cases4)
  obtain r w1 where cl: "os_close (tm_w st1) = (r, w1)" by (metis prod.exhaust)
  have "quiet w1" "w_fs w1 = w_fs (tm_w st1)"
    using os_close_snd [of "tm_w st1"] cl st1 by (simp_all add: tm_inv_def)
  then have "quiet w" "w_fs w = w_fs (tm_w st1)" "man_ok m s = man_ok m (tm_staging st1)" for m
    using d st1 cl by (auto simp: sd_close_def tm_inv_def Let_def split: if_splits sum.splits)
  then show ?thesis
    using assms st1 c d by (simp add: tm_Close_def tm_inv_def releaseTransferManager_def)
qed

lemma man_ok_publish:
  assumes ok: "man_ok m s" and t: "mg_active m k = Some t" and c: "mg_completed m k = None" "ca_SizeBytes c = at_totalSize t"
  shows "man_ok (m\<lparr>mg_active := (mg_active m)(k := None), mg_completed := (mg_completed m)(k \<mapsto> c)\<rparr>)
    (recordCompletedBytes (at_totalSize t) s)"
proof -
  have fin: "finite (dom (mg_active m))" "finite (dom (mg_completed m))" and q: "quota_ok m s"
    using ok by (auto simp: man_ok_def)
  note a = total_of_del [OF fin(1) t, of "\<lambda>t. unat (at_totalSize t)"]
  note b = total_of_upd [OF fin(2) c(1), of "\<lambda>c. unat (ca_SizeBytes c)" c]
  have "unat (mg_reservedBytes m) < 2 ^ LENGTH(64)" by (rule unsigned_less)
  then have "unat (st_completedBytesReserved s + at_totalSize t) = unat (st_completedBytesReserved s) + unat (at_totalSize t)"
    using q a by (intro unat_add_noo) (simp add: quota_ok_def)
  then show ?thesis using ok q a b c fin by (auto simp: man_ok_def quota_ok_def recordCompletedBytes_def)
qed

text \<open>A transfer that passes the checks of \<^verbatim>\<open>Complete\<close>.\<close>

definition complete_ok :: "libs \<Rightarrow> bytes \<Rightarrow> tm \<Rightarrow> activeTransfer \<Rightarrow> string \<Rightarrow> bool" where
  "complete_ok lb k st t rel \<longleftrightarrow> \<not> mg_closed (tm_m st) \<and> \<not> mg_closing (tm_m st) \<and> validTransferID k
     \<and> mg_completed (tm_m st) k = None \<and> mg_active (tm_m st) k = Some t
     \<and> at_receivedBytes t = at_totalSize t
     \<and> equalHash (lb_sha256 lb (at_hasher t)) (at_expectedSHA256 t)
     \<and> matchesBytes (lb_parseMediaType lb) (lb_detectContentType lb) (at_policy t) (at_sniff t)
         (at_totalSize t) (us_Valid (at_text t))
     \<and> Rel_local (st_workspaceRoot (tm_staging st)) (Join (st_path (tm_staging st)) (finalName t)) = Some rel"

definition completed_of :: "libs \<Rightarrow> activeTransfer \<Rightarrow> string \<Rightarrow> CompletedAttachment" where
  "completed_of lb t rel =
     \<lparr>ca_TransferID = at_transferID t, ca_DisplayName = at_displayName t, ca_RelativePath = rel,
      ca_ContentType = cp_contentType (at_policy t), ca_Extension = cp_extension (at_policy t),
      ca_SizeBytes = at_totalSize t, ca_SHA256 = lb_sha256 lb (at_hasher t)\<rparr>"

lemma finalName_attempted [simp]: "finalName (t\<lparr>at_publicationAttempted := b\<rparr>) = finalName t"
  by (simp add: finalName_def)

lemma Complete_cases:
  obtains (stays) r where "Complete lb k st = (r, st)" "\<forall>c. r = Inr c \<longrightarrow> mg_completed (tm_m st) k = Some c"
  | (fails) t e where "mg_active (tm_m st) k = Some t"
      "Complete lb k st = (case failTransferLocked k t e st of (e, st) \<Rightarrow> (Inl e, st))"
  | (publishes) t rel m where "complete_ok lb k st t rel"
      "m = (tm_m st)\<lparr>mg_active := (mg_active (tm_m st))(k \<mapsto> t\<lparr>at_publicationAttempted := True\<rparr>)\<rparr>"
      "Complete lb k st =
        (case sd_rename (mg_directory (tm_m st)) (at_partialName t) (finalName t) (tm_w st) of
           (Some e, w) \<Rightarrow> (Inl (WrappedFile ''publish verified attachment'' e), st\<lparr>tm_m := m, tm_w := w\<rparr>)
         | (None, w) \<Rightarrow>
             (Inr (completed_of lb t rel),
              st\<lparr>tm_m := m\<lparr>mg_active := (mg_active m)(k := None),
                           mg_completed := (mg_completed m)(k \<mapsto> completed_of lb t rel)\<rparr>,
                 tm_staging := recordCompletedBytes (at_totalSize t) (tm_staging st), tm_w := w\<rparr>))"
proof (cases "\<exists>t rel. complete_ok lb k st t rel")
  case True
  then obtain t rel where t: "complete_ok lb k st t rel" by blast
  show ?thesis
    by (rule publishes [OF t refl], use t in \<open>simp add: Complete_def complete_ok_def completed_of_def Let_def split: prod.splits option.splits\<close>)
next
  case False
  show ?thesis
  proof (cases "mg_closed (tm_m st) \<or> mg_closing (tm_m st) \<or> \<not> validTransferID k \<or> mg_completed (tm_m st) k \<noteq> None
      \<or> mg_active (tm_m st) k = None")
    case True
    then have "\<exists>r. Complete lb k st = (r, st) \<and> (\<forall>c. r = Inr c \<longrightarrow> mg_completed (tm_m st) k = Some c)"
      by (auto simp: Complete_def Let_def split: option.splits)
    then show ?thesis using stays by blast
  next
    case rest: False
    then obtain t where t: "mg_active (tm_m st) k = Some t" by auto
    let ?hash = "equalHash (lb_sha256 lb (at_hasher t)) (at_expectedSHA256 t)"
    let ?match = "matchesBytes (lb_parseMediaType lb) (lb_detectContentType lb) (at_policy t) (at_sniff t)
         (at_totalSize t) (us_Valid (at_text t))"
    consider "at_receivedBytes t \<noteq> at_totalSize t" | "at_receivedBytes t = at_totalSize t" "\<not> ?hash"
      | "at_receivedBytes t = at_totalSize t" "?hash" "\<not> ?match"
      | "at_receivedBytes t = at_totalSize t" "?hash" "?match"
        "Rel_local (st_workspaceRoot (tm_staging st)) (Join (st_path (tm_staging st)) (finalName t)) = None"
      using False rest t unfolding complete_ok_def by (metis option.exhaust)
    then show ?thesis
    proof cases
      case 1
      then show ?thesis
        using rest t by (intro fails [OF t, of ErrTotalSizeMismatch]) (simp add: Complete_def Let_def)
    next
      case 2
      then show ?thesis
        using rest t by (intro fails [OF t, of ErrTotalChecksumMismatch]) (simp add: Complete_def Let_def)
    next
      case 3
      then show ?thesis
        using rest t by (intro fails [OF t, of ErrContentTypeMismatch]) (simp add: Complete_def Let_def)
    next
      case 4
      then show ?thesis
        using rest t by (intro stays) (simp add: Complete_def Let_def, simp)
    qed
  qed
qed

lemma Complete_inv:
  assumes inv: "tm_inv lb st"
  shows "tm_inv lb (snd (Complete lb k st))"
proof (rule Complete_cases [of lb k st], goal_cases stays fails publishes)
  case (stays r)
  then show ?thesis using inv by simp
next
  case (fails t e)
  then show ?thesis using failTransferLocked_inv [OF inv fails(1), of e] by (simp add: split_beta)
next
  case (publishes t rel m)
  let ?m = "tm_m st" and ?s = "w_fs (tm_w st)" and ?t = "t\<lparr>at_publicationAttempted := True\<rparr>"
  have t: "mg_active ?m k = Some t" and nc: "mg_completed ?m k = None" using publishes(1) by (simp_all add: complete_ok_def)
  have q: "quiet (tm_w st)" and man: "man_ok ?m (tm_staging st)" and ok: "store_ok (lb_sha256 lb) ?m ?s"
    using inv by (auto simp: tm_inv_def)
  have tok: "transfer_ok (mg_limits ?m) k t" using man t by (simp add: man_ok_def)
  then have ne: "at_partialName t \<noteq> finalName t" "CHR ''/'' \<notin> set (finalName t)"
    and full: "length (at_hasher t) = unat (at_totalSize t)"
    using publishes(1) by (auto simp: transfer_ok_def complete_ok_def)
  obtain r w where rn: "sd_rename (mg_directory ?m) (at_partialName t) (finalName t) (tm_w st) = (r, w)"
    by (metis prod.exhaust)
  have y: "quiet w" "rename_post (at_partialName t) (finalName t) ?s r (w_fs w)"
    using sd_rename_yields [OF q, of "mg_directory ?m" "at_partialName t" "finalName t"] rn by simp_all
  have man': "man_ok m (tm_staging st)"
    unfolding publishes(2) by (rule man_ok_replace [OF man t]) (use tok in \<open>simp_all add: transfer_ok_def finalName_def\<close>)
  have nm: "name_of m = name_of ?m"
    using t by (auto simp: publishes(2) name_of_def fun_eq_iff split: option.splits)
  have repl: "store_ok (lb_sha256 lb) m f" if "store_ok (lb_sha256 lb) ?m f" for f
    using that t unfolding store_ok_def nm by (auto simp: publishes(2) active_file_def split: if_splits)
  show ?thesis
  proof (cases r)
    case (Some e)
    then have "store_ok (lb_sha256 lb) ?m (w_fs w)" using store_ok_rename_error [OF ok t ne(1)] y(2) by blast
    then show ?thesis using publishes(3) rn Some y(1) man' repl by (simp add: tm_inv_def)
  next
    case None
    let ?c = "completed_of lb t rel"
    let ?m' = "m\<lparr>mg_active := (mg_active m)(k := None), mg_completed := (mg_completed m)(k \<mapsto> ?c)\<rparr>"
    have "Base rel = finalName t"
      using Base_Rel_local [OF ne(2)] publishes(1) unfolding complete_ok_def by blast
    then have "store_ok (lb_sha256 lb) ?m' (w_fs w)"
      using y(2) None full
      by (intro store_ok_published [OF ok t ne(1)]) (auto simp: completed_of_def publishes(2))
    moreover have "man_ok ?m' (recordCompletedBytes (at_totalSize t) (tm_staging st))"
      using man_ok_publish [OF man', of k ?t ?c] nc by (simp add: publishes(2) completed_of_def)
    ultimately show ?thesis using publishes(3) rn None y(1) by (simp add: tm_inv_def)
  qed
qed

lemma man_ok_drop_completed:
  assumes ok: "man_ok m s" and c: "mg_completed m k = Some c"
  shows "man_ok (m\<lparr>mg_completed := (mg_completed m)(k := None),
      mg_reservedBytes := (if ca_SizeBytes c \<le> mg_reservedBytes m then mg_reservedBytes m - ca_SizeBytes c else 0)\<rparr>)
    (releaseCompletedBytes (ca_SizeBytes c) s)"
proof -
  have fin: "finite (dom (mg_completed m))" and q: "quota_ok m s" using ok by (auto simp: man_ok_def)
  note tot = total_of_del [OF fin c, of "\<lambda>c. unat (ca_SizeBytes c)"]
  have st: "ca_SizeBytes c \<le> st_completedBytesReserved s" and le: "ca_SizeBytes c \<le> mg_reservedBytes m"
    using q tot by (simp_all add: quota_ok_def word_le_nat_alt)
  have "mg_reservedBytes m - ca_SizeBytes c \<le> ml_maxSessionBytes (mg_limits m)"
    using q unat_diff_le [OF le] unfolding quota_ok_def word_le_nat_alt by linarith
  then show ?thesis
    using ok q tot st le unat_diff_le [OF le] unat_diff_le [OF st]
    by (auto simp: man_ok_def quota_ok_def releaseCompletedBytes_def)
qed

lemma discard_active_inv: "tm_inv lb st \<Longrightarrow> tm_inv lb (snd (discard_active k st))"
proof (cases "mg_active (tm_m st) k")
  case (Some t)
  assume inv: "tm_inv lb st"
  obtain r st' where c: "cleanupActiveTransferLocked t st = (r, st')" by (metis prod.exhaust)
  show ?thesis using cleanup_inv [OF inv Some c] Some c by (cases r) (simp_all add: discard_active_def)
qed (simp add: discard_active_def)

lemma discard_completed_inv:
  assumes inv: "tm_inv lb st"
  shows "tm_inv lb (snd (discard_completed k st))"
proof (cases "mg_completed (tm_m st) k")
  case (Some c)
  let ?m = "tm_m st" and ?n = "Base (ca_RelativePath c)" and ?s = "w_fs (tm_w st)"
  have ok: "store_ok (lb_sha256 lb) ?m ?s" and q: "quiet (tm_w st)" and man: "man_ok ?m (tm_staging st)"
    using inv by (auto simp: tm_inv_def)
  obtain r w where rm: "sd_remove (mg_directory ?m) ?n (tm_w st) = (r, w)" by (metis prod.exhaust)
  have y: "quiet w" "remove_post ?n ?s r (w_fs w)"
    using sd_remove_yields [OF q, of "mg_directory ?m" ?n] rm by simp_all
  show ?thesis
  proof (cases r)
    case None
    have na: "mg_active ?m k = None" using store_ok_disjoint [OF ok Some] .
    have "store_ok (lb_sha256 lb) (?m\<lparr>mg_completed := (mg_completed ?m)(k := None)\<rparr>) (removed ?n ?s)"
      by (intro store_ok_remove [OF ok, of k]) (use Some na in \<open>auto simp: name_of_def split: if_splits\<close>)
    then show ?thesis
      using man_ok_drop_completed [OF man Some] None y rm Some
      by (simp add: tm_inv_def discard_completed_def releaseCompletedLocked_def remove_post_def Let_def split: if_splits)
  next
    case (Some e)
    then show ?thesis using y rm inv \<open>mg_completed ?m k = Some c\<close>
      by (simp add: tm_inv_def discard_completed_def remove_post_def)
  qed
qed (use inv in \<open>simp add: discard_completed_def\<close>)

lemma discard_loop_inv: "tm_inv lb st \<Longrightarrow> tm_inv lb (snd (discard_loop ks st))"
proof (induction ks arbitrary: st)
  case (Cons k ks)
  obtain e1 st1 where a: "discard_active k st = (e1, st1)" by (metis prod.exhaust)
  obtain e2 st2 where c: "discard_completed k st1 = (e2, st2)" by (metis prod.exhaust)
  have 1: "tm_inv lb st1" using discard_active_inv [OF Cons.prems, of k] a by simp
  have "tm_inv lb st2" using discard_completed_inv [OF 1, of k] c by simp
  then show ?case using 1 a c Cons.IH [of "recordCancelledLocked k st2"]
    by (simp split: option.splits)
qed simp

lemma Discard_inv: "tm_inv lb st \<Longrightarrow> tm_inv lb (snd (Discard ks st))"
  by (simp add: Discard_def discard_loop_inv Let_def split: option.splits)

section \<open>Sessions\<close>

datatype tm_call =
    TBegin BeginRequest | TChunk ChunkRequest | TComplete bytes | TCancel bytes | TDiscard "bytes list"
  | TClose "bytes list"

datatype tm_result = RError "transfer_error option" | RCompleted "transfer_error + CompletedAttachment"

fun tm_step :: "libs \<Rightarrow> tm \<Rightarrow> tm_call \<Rightarrow> tm \<times> tm_result" where
  "tm_step lb st (TBegin r) = (let (e, st) = Begin lb r st in (st, RError e))"
| "tm_step lb st (TChunk r) = (let (e, st) = Chunk lb r st in (st, RError e))"
| "tm_step lb st (TComplete k) = (let (r, st) = Complete lb k st in (st, RCompleted r))"
| "tm_step lb st (TCancel k) = (let (e, st) = tm_Cancel k st in (st, RError e))"
| "tm_step lb st (TDiscard ks) = (let (e, st) = Discard ks st in (st, RError e))"
| "tm_step lb st (TClose order) = (let (e, st) = tm_Close order st in (st, RError e))"

interpretation tms: step_machine "tm_step lb" "tm_inv lb" "\<lambda>_. True" for lb
proof
  fix st c
  assume "tm_inv lb st"
  then show "tm_inv lb (fst (tm_step lb st c))"
    by (cases c) (simp_all add: split_beta Begin_inv Chunk_inv Complete_inv tm_Cancel_inv Discard_inv tm_Close_inv)
qed

lemma probe_yields: "quiet w \<Longrightarrow> fs_wf (w_fs w) \<Longrightarrow> yields (probeHardLinkPublication w) (\<lambda>_ s. fs_wf s)"
proof -
  assume w: "quiet w" "fs_wf (w_fs w)"
  have link: "yields (os_link a b u) (\<lambda>_ s. fs_wf s)" if "quiet u" "fs_wf (w_fs u)" for a b u
    using yields_os_link [OF that(1), of a b] that(2)
    by (auto simp: yields_def fs_wf_def split: sum.splits if_splits)
  have rem: "yields (os_remove a u) (\<lambda>_ s. fs_wf s)" if "quiet u" "fs_wf (w_fs u)" for a u
    using yields_os_remove [OF that(1), of a] that(2) by (auto simp: yields_def split: sum.splits)
  have rems: "quiet (snd (os_remove a u))" "fs_wf (w_fs (snd (os_remove a u)))" if "quiet u" "fs_wf (w_fs u)" for a u
    using rem [OF that, of a] by (auto simp: yields_def)
  have cre: "yields (os_create_excl a u) (\<lambda>_ s. fs_wf s)" if "quiet u" "fs_wf (w_fs u)" for a u
    using yields_os_create [OF that(1), of a] that(2) by (auto simp: yields_def split: sum.splits)
  obtain g w1 where g: "generatedStoragePrefix w = (g, w1)" by (metis prod.exhaust)
  have w1: "quiet w1" "fs_wf (w_fs w1)" using prefix_quiet [OF w(1) g] w(2) by auto
  have cl: "yields (os_close u) (\<lambda>_ s. fs_wf s)" if "quiet u" "fs_wf (w_fs u)" for u
    using yields_os_query(1) [OF that(1)] that(2) by (auto simp: yields_def)
  show ?thesis
    unfolding probeHardLinkPublication_def g
    using w1 by (cases g) (auto intro!: yields_check [OF cre] yields_check [OF cl] yields_check [OF link]
        simp: Let_def rems split: prod.splits sum.splits, (metis rems(1) rems(2) snd_conv)+)
qed

text \<open>A manager opened on a staging directory starts in the invariant.\<close>

lemma openStagingDirectory_ok:
  assumes "quiet w" "fs_wf (w_fs w)" "openStagingDirectory s w = (Inr d, s', w')"
  shows "quiet w'" "fs_wf (w_fs w')" "s' = s\<lparr>st_openDirectories := st_openDirectories s + 1\<rparr>"
proof -
  have q: "yields (os_canonical u) (\<lambda>_ f. f = w_fs u)" "yields (os_stat_root u) (\<lambda>_ f. f = w_fs u)"
    "yields (os_stat_path u) (\<lambda>_ f. f = w_fs u)" if "quiet u" for u
    using that by (rule yields_os_query)+
  have keep: "quiet u' \<and> fs_wf (w_fs u')" if "f u = (r, u')" "quiet u" "fs_wf (w_fs u)"
    "yields (f u) (\<lambda>_ g. g = w_fs u)" for f :: "world \<Rightarrow> (os_error + 'a) \<times> world" and u u' r
    using that by simp
  have val: "quiet u' \<and> fs_wf (w_fs u')" if "validateBoundDirectory d0 u = (None, u')" "quiet u" "fs_wf (w_fs u)" for d0 u u'
  proof -
    have "yields (validateBoundDirectory d0 u) (\<lambda>_ g. g = w_fs u)"
      unfolding validateBoundDirectory_def using that(2)
      by (auto intro!: yields_check [OF yields_os_query(5)] yields_check [OF yields_os_query(6)]
          yields_check [OF yields_os_query(7)])
    then show ?thesis using that by simp
  qed
  have prb: "quiet u' \<and> fs_wf (w_fs u')" if "probeHardLinkPublication u = (None, u')" "quiet u" "fs_wf (w_fs u)" for u u'
    using probe_yields [OF that(2,3)] that(1) by simp
  have "quiet w' \<and> fs_wf (w_fs w') \<and> s' = s\<lparr>st_openDirectories := st_openDirectories s + 1\<rparr>"
    using assms q unfolding openStagingDirectory_def check_def Let_def
    by (auto dest!: val prb keep split: if_splits prod.splits sum.splits option.splits)
  then show "quiet w'" "fs_wf (w_fs w')" "s' = s\<lparr>st_openDirectories := st_openDirectories s + 1\<rparr>" by simp_all
qed

lemma newTransferManager_inv:
  assumes "newTransferManager l s w = (Inr m, s', w')" "quiet w" "fs_wf (w_fs w)"
    and "st_completedBytesReserved s \<le> ml_maxSessionBytes l" "ml_maxChunkBytes l < 2 ^ 63"
  shows "tm_inv lb \<lparr>tm_m = m, tm_staging = s', tm_agg = agg, tm_w = w'\<rparr>"
proof -
  obtain s1 where c: "claimTransferManager s = (None, s1)"
    using assms(1) by (auto simp: newTransferManager_def split: if_splits prod.splits option.splits)
  then have s1: "s1 = s\<lparr>st_transferManagerOpen := True\<rparr>"
    by (auto simp: claimTransferManager_def split: if_splits)
  have lim: "\<not> ml_maxFileBytes l > 0x7FFFFFFFFFFFFFFF"
    using assms(1) by (auto simp: newTransferManager_def split: if_splits)
  obtain d where d: "openStagingDirectory s1 w = (Inr d, s', w')"
    and m: "m = \<lparr>mg_directory = d, mg_limits = l, mg_active = Map.empty, mg_completed = Map.empty,
       mg_cancelled = {}, mg_cancelledOrder = [], mg_reservedBytes = st_completedBytesReserved s',
       mg_closing = False, mg_closed = False\<rparr>"
    using assms(1) c by (auto simp: newTransferManager_def split: if_splits prod.splits sum.splits)
  note o = openStagingDirectory_ok [OF assms(2,3) d]
  have "unat (ml_maxFileBytes l) < 2 ^ 63"
    using lim by (simp add: not_less word_le_nat_alt)
  moreover have "st_completedBytesReserved s' = st_completedBytesReserved s" using o(3) s1 by simp
  ultimately show ?thesis
    using o m assms(4,5)
    by (simp add: tm_inv_def man_ok_def quota_ok_def limits_ok_def store_ok_def name_of_def)
qed

lemma session_inv:
  assumes "NewManager s w = (Inr m, s', w')" "quiet w" "fs_wf (w_fs w)"
    and "st_completedBytesReserved s \<le> 100 * 1024 * 1024"
  shows "tm_inv lb (fst (run (tm_step lb) \<lparr>tm_m = m, tm_staging = s', tm_agg = agg, tm_w = w'\<rparr> cs))"
proof -
  have "tm_inv lb \<lparr>tm_m = m, tm_staging = s', tm_agg = agg, tm_w = w'\<rparr>"
    by (rule newTransferManager_inv [OF assms(1) [unfolded NewManager_def] assms(2,3)])
      (use assms(4) in \<open>simp_all add: default_limits_def\<close>)
  then show ?thesis using tms.run_inv by (simp add: list.pred_True)
qed

lemma scanned_valid: "us_Valid (scanned p) \<longleftrightarrow> utf8_valid p \<and> 0 \<notin> set p"
  using scan_valid [of p] by (auto simp: us_Valid_def scanned_def prod_eq_iff)

section \<open>Properties\<close>

text \<open>
  C9. What is published is what was declared and received: when, after any sequence of calls and
  system call failures, completing an active transfer succeeds, the published entry is a
  regular file whose content is exactly the accepted chunks in order, has the declared size and
  the declared SHA-256, and is valid UTF-8 without NUL bytes when the declared type is text.
\<close>

theorem complete_publishes_verified:
  assumes "NewManager s w = (Inr m, s', w')" "quiet w" "fs_wf (w_fs w)"
    and "st_completedBytesReserved s \<le> 100 * 1024 * 1024"
    and st: "st = fst (run (tm_step lb) \<lparr>tm_m = m, tm_staging = s', tm_agg = agg, tm_w = w'\<rparr> cs)"
    and t: "mg_active (tm_m st) k = Some t" and c: "Complete lb k st = (Inr c, st')"
  shows "\<exists>i. fs_entries (w_fs (tm_w st')) (Base (ca_RelativePath c)) = Some (FileNode i)
    \<and> fs_data (w_fs (tm_w st')) i = at_hasher t
    \<and> lb_sha256 lb (at_hasher t) = at_expectedSHA256 t \<and> length (at_hasher t) = unat (at_totalSize t)
    \<and> (cp_text (at_policy t) \<longrightarrow> utf8_valid (at_hasher t) \<and> 0 \<notin> set (at_hasher t))"
proof -
  have inv: "tm_inv lb st" unfolding st by (rule session_inv [OF assms(1-4)])
  show ?thesis
  proof (rule Complete_cases [of lb k st], goal_cases stays fails publishes)
    case (stays r)
    then have "mg_completed (tm_m st) k = Some c" using c by simp
    then have "mg_active (tm_m st) k = None" using inv by (auto simp: tm_inv_def dest: store_ok_disjoint)
    then show ?case using t by simp
  next
    case (fails t' e)
    then show ?case using c by (simp add: split_beta)
  next
    case (publishes t' rel m')
    have [simp]: "t' = t" using publishes(1) t by (simp add: complete_ok_def)
    have tok: "transfer_ok (mg_limits (tm_m st)) k t" and q: "quiet (tm_w st)"
      and ok: "store_ok (lb_sha256 lb) (tm_m st) (w_fs (tm_w st))"
      using inv t by (auto simp: tm_inv_def man_ok_def)
    have full: "length (at_hasher t) = unat (at_totalSize t)"
      and hash: "lb_sha256 lb (at_hasher t) = at_expectedSHA256 t"
      and utf: "cp_text (at_policy t) \<longrightarrow> utf8_valid (at_hasher t) \<and> 0 \<notin> set (at_hasher t)"
      using publishes(1) tok scanned_valid [of "at_hasher t"]
      by (auto simp: complete_ok_def transfer_ok_def equalHash_def matchesBytes_def split: if_splits)
    have rel: "Base rel = finalName t"
      using publishes(1) tok Base_Rel_local [of "finalName t"] by (auto simp: complete_ok_def transfer_ok_def)
    obtain r w1 where rn: "sd_rename (mg_directory (tm_m st)) (at_partialName t) (finalName t) (tm_w st) = (r, w1)"
      by (metis prod.exhaust)
    then have r: "r = None" and c': "c = completed_of lb t rel" and st': "tm_w st' = w1"
      using publishes(3) c by (auto split: option.splits)
    have "rename_post (at_partialName t) (finalName t) (w_fs (tm_w st)) None (w_fs w1)"
      using sd_rename_yields [OF q, of "mg_directory (tm_m st)" "at_partialName t" "finalName t"] rn r by simp
    then obtain i where i: "fs_entries (w_fs (tm_w st)) (at_partialName t) = Some (FileNode i)"
      "w_fs w1 = (w_fs (tm_w st))\<lparr>fs_entries := (fs_entries (w_fs (tm_w st)))(finalName t \<mapsto> FileNode i, at_partialName t := None)\<rparr>"
      by (auto simp: rename_post_def)
    have "active_file t (w_fs (tm_w st))" using ok t by (simp add: store_ok_def)
    then have "take (length (at_hasher t)) (fs_data (w_fs (tm_w st)) i) = at_hasher t"
      "length (fs_data (w_fs (tm_w st)) i) \<le> unat (at_totalSize t)"
      using i(1) unfolding active_file_def by (metis option.inject node.inject(1))+
    then have "fs_data (w_fs (tm_w st)) i = at_hasher t" using full by (metis take_all)
    moreover have "finalName t \<noteq> at_partialName t" using tok by (auto simp: transfer_ok_def)
    ultimately show ?case using i(2) rel c' st' full hash utf by (simp add: completed_of_def)
  qed
qed

text \<open>
  C13. Published files stay intact: after any sequence of calls and system call failures, every
  attachment the manager lists as completed is a regular file of the recorded size whose
  content has the recorded SHA-256, and no two transfers share a file.
\<close>

theorem completed_files_intact:
  assumes "NewManager s w = (Inr m, s', w')" "quiet w" "fs_wf (w_fs w)"
    and "st_completedBytesReserved s \<le> 100 * 1024 * 1024"
    and st: "st = fst (run (tm_step lb) \<lparr>tm_m = m, tm_staging = s', tm_agg = agg, tm_w = w'\<rparr> cs)"
    and c: "mg_completed (tm_m st) k = Some c"
  shows "(\<exists>i. fs_entries (w_fs (tm_w st)) (Base (ca_RelativePath c)) = Some (FileNode i)
      \<and> length (fs_data (w_fs (tm_w st)) i) = unat (ca_SizeBytes c)
      \<and> lb_sha256 lb (fs_data (w_fs (tm_w st)) i) = ca_SHA256 c)
    \<and> (\<forall>k' n. k' \<noteq> k \<and> name_of (tm_m st) k' = Some n \<longrightarrow>
         fs_entries (w_fs (tm_w st)) n \<noteq> fs_entries (w_fs (tm_w st)) (Base (ca_RelativePath c)))"
proof -
  have ok: "store_ok (lb_sha256 lb) (tm_m st) (w_fs (tm_w st))"
    using session_inv [OF assms(1-4), of lb agg cs] st by (simp add: tm_inv_def)
  have "name_of (tm_m st) k = Some (Base (ca_RelativePath c))"
    using c store_ok_disjoint [OF ok c] by (simp add: name_of_def)
  then show ?thesis
    using ok c store_ok_distinct [OF ok] unfolding store_ok_def completed_file_def by blast
qed

text \<open>
  C21. The session quota holds whatever happens: after any sequence of calls and system call
  failures the declared sizes of the active transfers and the sizes of the completed ones sum
  to at most the limit of 100 MiB, and the counter of reserved bytes never underestimates that
  sum.
\<close>

theorem session_quota_respected:
  assumes "NewManager s w = (Inr m, s', w')" "quiet w" "fs_wf (w_fs w)"
    and "st_completedBytesReserved s \<le> 100 * 1024 * 1024"
    and st: "st = fst (run (tm_step lb) \<lparr>tm_m = m, tm_staging = s', tm_agg = agg, tm_w = w'\<rparr> cs)"
  shows "total_of (\<lambda>t. unat (at_totalSize t)) (mg_active (tm_m st))
      + total_of (\<lambda>c. unat (ca_SizeBytes c)) (mg_completed (tm_m st)) \<le> unat (mg_reservedBytes (tm_m st))
    \<and> mg_reservedBytes (tm_m st) \<le> ml_maxSessionBytes (mg_limits (tm_m st))"
  using session_inv [OF assms(1-4), of lb agg cs] st
  by (simp add: tm_inv_def man_ok_def quota_ok_def)

section \<open>A leak\<close>

text \<open>
  When the partial file cannot be created, \<^verbatim>\<open>Begin\<close> returns an error and registers nothing, but
  the bytes it reserved in the shared tracker are not released.
\<close>

lemma begin_failure_leaks_aggregate:
  assumes "begin_check lb request (tm_m st) = Inr p"
    and "ag_Reserve (br_TotalSizeBytes request) (tm_agg st) = (agg, None)"
    and "createPartialLocked storageNameAttempts (mg_directory (tm_m st)) (tm_w st) = (Inl e, w)"
  shows "Begin lb request st = (Some e, st\<lparr>tm_agg := agg, tm_w := w\<rparr>)"
  using assms by (simp add: Begin_def)

section \<open>A sample session\<close>

definition sample_lb :: libs where
  "sample_lb = \<lparr>lb_sha256 = (\<lambda>_. replicate 32 0), lb_parseMediaType = (\<lambda>s. Some (s, [])),
     lb_detectContentType = (\<lambda>_. ''text/plain'')\<rparr>"

definition sample_fs :: fs where
  "sample_fs = \<lparr>fs_entries = Map.empty, fs_data = (\<lambda>_. []), fs_next = 0, fs_canonical = True,
     fs_pathId = 7, fs_handleId = 7\<rparr>"

definition sample_world :: world where
  "sample_world = \<lparr>w_fs = sample_fs, w_events = [], w_random = [Some (replicate 16 0), Some (replicate 16 1)]\<rparr>"

definition sample_staging :: SessionStaging where
  "sample_staging = \<lparr>st_workspaceRoot = ''/w'', st_path = ''/w/u'', st_cleaned = False, st_openDirectories = 0,
     st_transferManagerOpen = False, st_completedBytesReserved = 0\<rparr>"

definition sample_manager :: Manager where
  "sample_manager = \<lparr>mg_directory = \<lparr>sd_identity = 7, sd_closed = False\<rparr>, mg_limits = default_limits,
     mg_active = Map.empty, mg_completed = Map.empty, mg_cancelled = {}, mg_cancelledOrder = [],
     mg_reservedBytes = 0, mg_closing = False, mg_closed = False\<rparr>"

definition sample_tm :: tm where
  "sample_tm = \<lparr>tm_m = sample_manager,
     tm_staging = sample_staging\<lparr>st_transferManagerOpen := True, st_openDirectories := 1\<rparr>, tm_agg = None,
     tm_w = sample_world\<lparr>w_fs := sample_fs\<lparr>fs_next := 1\<rparr>, w_random := [Some (replicate 16 1)]\<rparr>\<rparr>"

definition sample_begin :: BeginRequest where
  "sample_begin = \<lparr>br_TransferID = [1], br_DisplayName = ''a'', br_DeclaredContentType = ''text/plain'',
     br_DeclaredExtension = ''txt'', br_TotalSizeBytes = 2, br_TotalSHA256 = replicate 32 0\<rparr>"

definition sample_chunk :: ChunkRequest where
  "sample_chunk = \<lparr>cr_TransferID = [1], cr_OffsetBytes = 0, cr_Data = [72, 105], cr_ChunkSHA256 = replicate 32 0\<rparr>"

definition sample_prefix :: string where
  "sample_prefix = EncodeToString (replicate 16 1)"


lemma sample_new:
  "NewManager sample_staging sample_world = (Inr sample_manager, tm_staging sample_tm, tm_w sample_tm)"
  by (simp add: NewManager_def newTransferManager_def claimTransferManager_def openStagingDirectory_def
      probeHardLinkPublication_def os_eval sample_staging_def sample_world_def sample_fs_def sample_tm_def
      sample_manager_def default_limits_def fun_upd_idem)

lemma sample_names:
  "validGeneratedStagingName (sample_prefix @ ''.partial'')" "validGeneratedStagingName (sample_prefix @ ''.txt'')"
  by code_simp+

definition sample_transfer :: activeTransfer where
  "sample_transfer = new_transfer sample_begin
     \<lparr>cp_extension = ''.txt'', cp_contentType = ''text/plain'', cp_text = True, cp_binaryKind = ''''\<rparr>
     sample_prefix (sample_prefix @ ''.partial'')"

lemma sample_policy:
  "parseContentPolicy (lb_parseMediaType sample_lb) ''txt'' ''text/plain'' =
     Inr \<lparr>cp_extension = ''.txt'', cp_contentType = ''text/plain'', cp_text = True, cp_binaryKind = ''''\<rparr>"
  using graphic_string [of "''txt''"] graphic_string [of "''text/plain''"]
  by (simp add: graphic_def parseContentPolicy_def sample_lb_def trim_prefix_def has_prefix_def ToLower_def
      lower_char_def ContainsAny_def supportedContentPolicies_def policy_table_def text_def_def)

lemma sample_display: "validDisplayName ''a''"
  using graphic_string [of "''a''"]
  by (simp add: graphic_def validDisplayName_def category_C_def IsControl_def Cf_def in_ranges_def)

lemma sample_partial:
  "createPartialLocked 4 \<lparr>sd_identity = 7, sd_closed = False\<rparr> (tm_w sample_tm) =
     (Inr (sample_prefix, sample_prefix @ ''.partial''),
      \<lparr>w_fs = created (sample_prefix @ ''.partial'') (sample_fs\<lparr>fs_next := 1\<rparr>), w_events = [], w_random = []\<rparr>)"
proof -
  have 4: "(4 :: nat) = Suc 3" by simp
  show ?thesis
    unfolding 4 createPartialLocked.simps using sample_names(1)
    by (simp add: sd_create_def os_eval sample_tm_def sample_world_def sample_fs_def sample_prefix_def created_def Let_def)
qed

lemma sample_begin_eq:
  "Begin sample_lb sample_begin sample_tm =
     (None, sample_tm\<lparr>tm_m := sample_manager\<lparr>mg_active := [[1] \<mapsto> sample_transfer], mg_reservedBytes := 2\<rparr>,
        tm_w := \<lparr>w_fs = created (sample_prefix @ ''.partial'') (sample_fs\<lparr>fs_next := 1\<rparr>), w_events = [], w_random = []\<rparr>\<rparr>)"
proof -
  have "begin_check sample_lb sample_begin sample_manager =
      Inr \<lparr>cp_extension = ''.txt'', cp_contentType = ''text/plain'', cp_text = True, cp_binaryKind = ''''\<rparr>"
    using sample_policy sample_display
    by (simp add: begin_check_def sample_begin_def sample_manager_def validTransferID_def default_limits_def)
  moreover have "tm_m sample_tm = sample_manager" "tm_agg sample_tm = None" by (simp_all add: sample_tm_def)
  moreover have "mg_directory sample_manager = \<lparr>sd_identity = 7, sd_closed = False\<rparr>"
    "mg_active sample_manager = Map.empty" "mg_reservedBytes sample_manager = 0"
    "br_TransferID sample_begin = [1]" "br_TotalSizeBytes sample_begin = 2"
    by (simp_all add: sample_manager_def sample_begin_def)
  ultimately show ?thesis
    using sample_partial by (simp add: Begin_def ag_Reserve_def sample_transfer_def sample_tm_def)
qed

definition sample_received :: tm where
  "sample_received = sample_tm\<lparr>
     tm_m := sample_manager\<lparr>mg_active := [[1] \<mapsto> absorb [72, 105] sample_transfer], mg_reservedBytes := 2\<rparr>,
     tm_w := \<lparr>w_fs = written 1 0 [72, 105] (created (sample_prefix @ ''.partial'') (sample_fs\<lparr>fs_next := 1\<rparr>)),
              w_events = [], w_random = []\<rparr>\<rparr>"

lemma sample_transfer_fields [simp]:
  "at_partialName sample_transfer = sample_prefix @ ''.partial''" "at_receivedBytes sample_transfer = 0"
  "at_totalSize sample_transfer = 2" "finalName sample_transfer = sample_prefix @ ''.txt''"
  "at_hasher sample_transfer = []" "at_sniff sample_transfer = []" "at_expectedSHA256 sample_transfer = replicate 32 0"
  "cp_text (at_policy sample_transfer)" "at_text sample_transfer = newValidator"
  by (simp_all add: sample_transfer_def new_transfer_def sample_begin_def finalName_def)

lemma sample_chunk_eq:
  "Chunk sample_lb sample_chunk (snd (Begin sample_lb sample_begin sample_tm)) = (None, sample_received)"
proof -
  let ?w = "\<lparr>w_fs = created (sample_prefix @ ''.partial'') (sample_fs\<lparr>fs_next := 1\<rparr>), w_events = [], w_random = []\<rparr>"
  have "sd_writeAt \<lparr>sd_identity = 7, sd_closed = False\<rparr> (sample_prefix @ ''.partial'') 0 [72, 105] ?w =
      (None, ?w\<lparr>w_fs := written 1 0 [72, 105] (w_fs ?w)\<rparr>)"
    using sample_names(1)
    by (simp add: sd_writeAt_def write_and_close_def os_eval created_def sample_fs_def SameFile_def written_def)
  then show ?thesis
    unfolding sample_begin_eq
    by (simp add: Chunk_def sample_chunk_def validTransferID_def sample_manager_def default_limits_def
        equalHash_def sample_lb_def sample_tm_def sample_received_def Let_def)
qed

lemma sample_run:
  "fst (run (tm_step sample_lb) sample_tm [TBegin sample_begin, TChunk sample_chunk]) = sample_received"
  using sample_chunk_eq by (simp add: split_beta)

lemma sample_text: "us_Valid (us_Write [72, 105] newValidator)"
proof -
  have n: "newValidator = scanned []" by (simp add: newValidator_def scanned_def)
  show ?thesis unfolding n us_Write_scanned scanned_valid by (simp add: utf8_valid_ascii)
qed

lemma sample_markup: "\<not> looksLikeActiveMarkup [72, 105]"
  by (simp add: looksLikeActiveMarkup_def TrimSpace_bytes_def ascii_facts IsSpace_def in_ranges_def bytes_string_def
      ToLower_def lower_char_def has_prefix_def)

lemma sample_absorbed [simp]:
  "at_partialName (absorb d sample_transfer) = sample_prefix @ ''.partial''"
  "at_totalSize (absorb d sample_transfer) = 2" "finalName (absorb d sample_transfer) = sample_prefix @ ''.txt''"
  "at_receivedBytes (absorb [72, 105] sample_transfer) = 2" "at_hasher (absorb d sample_transfer) = d"
  "at_sniff (absorb [72, 105] sample_transfer) = [72, 105]" "at_expectedSHA256 (absorb d sample_transfer) = replicate 32 0"
  "cp_text (at_policy (absorb d sample_transfer))" "at_text (absorb d sample_transfer) = us_Write d newValidator"
  by (simp_all add: absorb_def finalName_def) (simp_all add: sample_transfer_def new_transfer_def)

lemma sample_complete:
  "\<exists>c st. Complete sample_lb [1] sample_received = (Inr c, st)"
proof -
  let ?w = "tm_w sample_received"
  have "fst (sd_rename \<lparr>sd_identity = 7, sd_closed = False\<rparr> (sample_prefix @ ''.partial'') (sample_prefix @ ''.txt'') ?w) = None"
    using sample_names
    by (simp add: sd_rename_def publish_def removePublicationEntry_def os_eval created_def written_def sample_fs_def
        SameFile_def sample_received_def)
  then show ?thesis
    using sample_text sample_markup
    by (simp add: Complete_def sample_received_def sample_tm_def sample_manager_def validTransferID_def
        equalHash_def sample_lb_def matchesBytes_def trim_prefix_def has_prefix_def Rel_local_def Join_def
        sample_staging_def Let_def split: prod.splits option.splits) auto
qed

lemma sample_world_ok: "quiet sample_world" "fs_wf (w_fs sample_world)" "st_completedBytesReserved sample_staging \<le> 100 * 1024 * 1024"
  by (simp_all add: sample_world_def quiet_def fs_wf_def sample_fs_def sample_staging_def)

lemma sample_tm_eq: "sample_tm = \<lparr>tm_m = sample_manager, tm_staging = tm_staging sample_tm, tm_agg = None, tm_w = tm_w sample_tm\<rparr>"
  by (simp add: sample_tm_def)

lemma sample_run': "sample_received = fst (run (tm_step sample_lb)
    \<lparr>tm_m = sample_manager, tm_staging = tm_staging sample_tm, tm_agg = None, tm_w = tm_w sample_tm\<rparr>
    [TBegin sample_begin, TChunk sample_chunk])"
  using sample_run sample_tm_eq by simp

theorem complete_publishes_verified_witness:
  "\<exists>c st i. Complete sample_lb [1] sample_received = (Inr c, st)
     \<and> fs_entries (w_fs (tm_w st)) (Base (ca_RelativePath c)) = Some (FileNode i)
     \<and> fs_data (w_fs (tm_w st)) i = [72, 105]"
proof -
  obtain c st where c: "Complete sample_lb [1] sample_received = (Inr c, st)" using sample_complete by blast
  have "mg_active (tm_m sample_received) [1] = Some (absorb [72, 105] sample_transfer)"
    by (simp add: sample_received_def)
  from complete_publishes_verified [OF sample_new sample_world_ok sample_run' this c]
  show ?thesis using c by auto
qed

lemma sample_completed:
  "\<exists>c st. Complete sample_lb [1] sample_received = (Inr c, st) \<and> mg_completed (tm_m st) [1] = Some c
     \<and> st = fst (run (tm_step sample_lb)
         \<lparr>tm_m = sample_manager, tm_staging = tm_staging sample_tm, tm_agg = None, tm_w = tm_w sample_tm\<rparr>
         [TBegin sample_begin, TChunk sample_chunk, TComplete [1]])"
proof -
  obtain c st where c: "Complete sample_lb [1] sample_received = (Inr c, st)" using sample_complete by blast
  have nc: "mg_completed (tm_m sample_received) [1] = None" by (simp add: sample_received_def sample_manager_def)
  have "mg_completed (tm_m st) [1] = Some c"
    by (rule Complete_cases [of sample_lb "[1]" sample_received]) (use c nc in \<open>auto simp: split_beta split: prod.splits option.splits\<close>)
  moreover have "fst (run (tm_step sample_lb) sample_tm [TBegin sample_begin, TChunk sample_chunk, TComplete [1]]) = st"
    using sample_chunk_eq c by (simp add: split_beta)
  ultimately show ?thesis using c sample_tm_eq by auto
qed

theorem completed_files_intact_witness:
  "\<exists>c st i. Complete sample_lb [1] sample_received = (Inr c, st)
     \<and> fs_entries (w_fs (tm_w st)) (Base (ca_RelativePath c)) = Some (FileNode i)
     \<and> lb_sha256 sample_lb (fs_data (w_fs (tm_w st)) i) = ca_SHA256 c"
proof -
  obtain c st where c: "Complete sample_lb [1] sample_received = (Inr c, st)" "mg_completed (tm_m st) [1] = Some c"
    "st = fst (run (tm_step sample_lb)
         \<lparr>tm_m = sample_manager, tm_staging = tm_staging sample_tm, tm_agg = None, tm_w = tm_w sample_tm\<rparr>
         [TBegin sample_begin, TChunk sample_chunk, TComplete [1]])"
    using sample_completed by blast
  from completed_files_intact [OF sample_new sample_world_ok c(3,2)] show ?thesis using c(1) by blast
qed

theorem session_quota_respected_witness:
  "total_of (\<lambda>t. unat (at_totalSize t)) (mg_active (tm_m sample_received)) \<le> 2"
  using session_quota_respected [OF sample_new sample_world_ok sample_run']
  by (simp add: sample_received_def)

end
