(* ===== verification/Negotiation.thy ===== *)
theory Negotiation
  imports Prelude Go_Strings
begin

text \<open>
  The wire envelope and the opening exchange of Protocol V1
  (\<^verbatim>\<open>src/internal/protocol/negotiation.go\<close>). The envelope and its payloads are the messages of
  \<^verbatim>\<open>proto/vibebridge/v1/envelope.proto\<close>: a message is a record, the \<^verbatim>\<open>oneof\<close> is a datatype, an
  enumeration is an open integer type as in proto3, and a sub-message that the code compares
  with nil is an option. The protobuf codec is generated and third-party code: \<open>marshal\<close> and
  \<open>unmarshal\<close> are parameters of the operations that call it, with \<open>None\<close> for its errors.
\<close>

section \<open>Messages\<close>

type_synonym enum32 = int

abbreviation (input) PEER_ROLE_AGENT :: enum32 where "PEER_ROLE_AGENT \<equiv> 1"
abbreviation (input) PEER_ROLE_CLIENT :: enum32 where "PEER_ROLE_CLIENT \<equiv> 2"

record ProtocolVersion =
  v_Major :: u32
  v_Minor :: u32

record ProtocolVersionRange =
  r_Minimum :: "ProtocolVersion option"
  r_Maximum :: "ProtocolVersion option"

record Hello =
  h_PeerRole :: enum32
  h_SupportedVersions :: "ProtocolVersionRange option"
  h_Capabilities :: "string list"
  h_MaxEnvelopeBytes :: u32
  h_DeviceId :: bytes
  h_PublicKeyFingerprint :: string
  h_RevocationEpoch :: u64

record AttachmentBegin =
  ab_TransferId :: bytes
  ab_DisplayName :: string
  ab_DeclaredContentType :: string
  ab_DeclaredExtension :: string
  ab_TotalSizeBytes :: u64
  ab_TotalSha256 :: bytes

record AttachmentChunk =
  ac_TransferId :: bytes
  ac_OffsetBytes :: u64
  ac_Data :: bytes
  ac_ChunkSha256 :: bytes

record AttachmentPromptPrepare =
  pp_ActionId :: bytes
  pp_TransferIds :: "bytes list"
  pp_Prompt :: string
  pp_AppendEnter :: bool

record AttachmentTransferStatus =
  ts_TransferId :: bytes
  ts_Disposition :: enum32
  ts_NextOffsetBytes :: u64

record AttachmentPromptPreview =
  pv_ActionId :: bytes
  pv_Disposition :: enum32
  pv_Preview :: string
  pv_AppendEnter :: bool

datatype payload =
    NoPayload
  | Envelope_Hello Hello
  | Envelope_AttachSession u64
  | Envelope_TerminalInput bytes
  | Envelope_TerminalOutput bytes
  | Envelope_TerminalResize u32 u32
  | Envelope_SessionStatus enum32
  | Envelope_EndSession
  | Envelope_Ping
  | Envelope_Pong
  | Envelope_Error enum32
  | Envelope_Acknowledgement
  | Envelope_ProcessExit enum32
  | Envelope_AttachmentBegin "AttachmentBegin option"
  | Envelope_AttachmentChunk "AttachmentChunk option"
  | Envelope_AttachmentComplete "bytes option"
  | Envelope_AttachmentCancel "bytes option"
  | Envelope_AttachmentPromptPrepare "AttachmentPromptPrepare option"
  | Envelope_AttachmentPromptPreview AttachmentPromptPreview
  | Envelope_AttachmentPromptCommit "bytes option"
  | Envelope_AttachmentPromptCancel "bytes option"
  | Envelope_AttachmentTransferStatusRequest "bytes option"
  | Envelope_AttachmentTransferStatus AttachmentTransferStatus
  | Envelope_AttachmentDiscard "bytes list option"

record Envelope =
  env_ProtocolMajor :: u32
  env_ProtocolMinor :: u32
  env_ConnectionId :: bytes
  env_SessionId :: bytes
  env_SessionGeneration :: u64
  env_Sequence :: u64
  env_Acknowledge :: u64
  env_SentAt :: "time option"
  env_Payload :: payload

fun GetHello :: "Envelope \<Rightarrow> Hello option" where
  "GetHello e = (case env_Payload e of Envelope_Hello h \<Rightarrow> Some h | _ \<Rightarrow> None)"

fun GetAttachSession :: "Envelope \<Rightarrow> u64 option" where
  "GetAttachSession e = (case env_Payload e of Envelope_AttachSession n \<Rightarrow> Some n | _ \<Rightarrow> None)"

type_synonym marshal = "Envelope \<Rightarrow> bytes option"
type_synonym unmarshal = "bytes \<Rightarrow> Envelope option"

section \<open>Constants\<close>

abbreviation (input) CurrentMajor :: u32 where "CurrentMajor \<equiv> 1"
abbreviation (input) CurrentMinor :: u32 where "CurrentMinor \<equiv> 0"

definition MaxEnvelopeBytes :: u32 where "MaxEnvelopeBytes = 64 * 1024"

abbreviation (input) connectionIDBytes :: nat where "connectionIDBytes \<equiv> 16"
abbreviation (input) maxCapabilities :: nat where "maxCapabilities \<equiv> 64"
abbreviation (input) maxCapabilityLen :: nat where "maxCapabilityLen \<equiv> 128"

definition CapabilityTerminalBinaryOutput :: string where
  "CapabilityTerminalBinaryOutput = ''terminal.binary_output''"
definition CapabilityTerminalSequencedIO :: string where
  "CapabilityTerminalSequencedIO = ''terminal.sequenced_io_v1''"
definition CapabilityTerminalResizeEnd :: string where
  "CapabilityTerminalResizeEnd = ''terminal.resize_end_v1''"
definition CapabilitySessionProcessExit :: string where
  "CapabilitySessionProcessExit = ''session.process_exit_v1''"
definition CapabilitySessionResume :: string where
  "CapabilitySessionResume = ''session.resume_v1''"
definition CapabilityControlError :: string where
  "CapabilityControlError = ''control.error_v1''"
definition CapabilityControlHealth :: string where
  "CapabilityControlHealth = ''control.health_v1''"
definition CapabilityAttachmentTransfer :: string where
  "CapabilityAttachmentTransfer = ''attachment.transfer_v1''"
definition CapabilityAttachmentPromptAction :: string where
  "CapabilityAttachmentPromptAction = ''attachment.prompt_action_v1''"

lemmas capability_names =
  CapabilityTerminalBinaryOutput_def CapabilityTerminalSequencedIO_def
  CapabilityTerminalResizeEnd_def CapabilitySessionProcessExit_def CapabilitySessionResume_def
  CapabilityControlError_def CapabilityControlHealth_def CapabilityAttachmentTransfer_def
  CapabilityAttachmentPromptAction_def

section \<open>The client's Hello\<close>

datatype hello_error =
    HelloSize
  | HelloDecode
  | HelloVersion
  | HelloConnectionID
  | HelloMetadata
  | HelloMissing
  | HelloPeerRole
  | HelloMaxEnvelopeBytes
  | HelloRangeRequired
  | HelloRangeIncompatible
  | HelloRangeExcludesCurrent
  | HelloTooManyCapabilities
  | HelloInvalidCapability
  | HelloDuplicateCapability
  | HelloRequires string string
  | HelloUnsupportedNegotiated
  | IdentityDeviceID
  | IdentityFingerprint

record NegotiatedHello =
  n_Major :: u32
  n_Minor :: u32
  n_PeerMaxEnvelopeBytes :: u32
  n_ConnectionID :: bytes
  n_capabilities :: "string set"

definition HasCapability :: "NegotiatedHello \<Rightarrow> string \<Rightarrow> bool" where
  "HasCapability n capability \<longleftrightarrow> capability \<in> n_capabilities n"

text \<open>The loop that fills the capability map.\<close>

fun collect_capabilities :: "string set \<Rightarrow> string list \<Rightarrow> hello_error + string set" where
  "collect_capabilities caps [] = Inr caps"
| "collect_capabilities caps (c # cs) =
     (if c = '''' \<or> length c > maxCapabilityLen \<or> TrimSpace c \<noteq> c then Inl HelloInvalidCapability
      else if c \<in> caps then Inl HelloDuplicateCapability
      else collect_capabilities (insert c caps) cs)"

text \<open>The loop over the capabilities that need sequenced I/O.\<close>

definition sequenced_dependents :: "string list" where
  "sequenced_dependents =
     [CapabilityTerminalResizeEnd, CapabilitySessionProcessExit, CapabilityControlError,
      CapabilityControlHealth, CapabilityAttachmentTransfer, CapabilityAttachmentPromptAction]"

fun check_sequenced :: "string set \<Rightarrow> string list \<Rightarrow> hello_error option" where
  "check_sequenced caps [] = None"
| "check_sequenced caps (d # ds) =
     (if d \<in> caps \<and> CapabilityTerminalSequencedIO \<notin> caps
      then Some (HelloRequires d CapabilityTerminalSequencedIO)
      else check_sequenced caps ds)"

definition check_dependencies :: "string set \<Rightarrow> hello_error option" where
  "check_dependencies caps =
     (case check_sequenced caps sequenced_dependents of
        Some e \<Rightarrow> Some e
      | None \<Rightarrow>
          (if CapabilityAttachmentTransfer \<in> caps \<and> CapabilityControlError \<notin> caps
           then Some (HelloRequires CapabilityAttachmentTransfer CapabilityControlError)
           else if CapabilityAttachmentPromptAction \<in> caps \<and> CapabilityAttachmentTransfer \<notin> caps
           then Some (HelloRequires CapabilityAttachmentPromptAction CapabilityAttachmentTransfer)
           else if CapabilityAttachmentPromptAction \<in> caps \<and> CapabilityControlError \<notin> caps
           then Some (HelloRequires CapabilityAttachmentPromptAction CapabilityControlError)
           else None))"

definition check_range :: "ProtocolVersionRange option \<Rightarrow> hello_error option" where
  "check_range rangeValue =
     (case rangeValue of
        None \<Rightarrow> Some HelloRangeRequired
      | Some r \<Rightarrow>
          (case (r_Minimum r, r_Maximum r) of
             (Some minimum, Some maximum) \<Rightarrow>
               (if v_Major minimum \<noteq> v_Major maximum \<or> v_Major minimum \<noteq> CurrentMajor
                   \<or> v_Minor minimum > v_Minor maximum
                then Some HelloRangeIncompatible
                else if CurrentMinor < v_Minor minimum \<or> CurrentMinor > v_Minor maximum
                then Some HelloRangeExcludesCurrent
                else None)
           | _ \<Rightarrow> Some HelloRangeRequired))"

definition AcceptClientHello :: "unmarshal \<Rightarrow> bytes \<Rightarrow> hello_error + NegotiatedHello" where
  "AcceptClientHello unmarshal encoded =
     (if encoded = [] \<or> length encoded > unat MaxEnvelopeBytes then Inl HelloSize
      else case unmarshal encoded of
        None \<Rightarrow> Inl HelloDecode
      | Some envelope \<Rightarrow>
          if env_ProtocolMajor envelope \<noteq> CurrentMajor \<or> env_ProtocolMinor envelope \<noteq> CurrentMinor
          then Inl HelloVersion
          else if length (env_ConnectionId envelope) \<noteq> connectionIDBytes then Inl HelloConnectionID
          else if env_SessionId envelope \<noteq> [] \<or> env_SessionGeneration envelope \<noteq> 0
                  \<or> env_Sequence envelope \<noteq> 1 \<or> env_Acknowledge envelope \<noteq> 0
          then Inl HelloMetadata
          else case GetHello envelope of
            None \<Rightarrow> Inl HelloMissing
          | Some hello \<Rightarrow>
              if h_PeerRole hello \<noteq> PEER_ROLE_CLIENT then Inl HelloPeerRole
              else if h_MaxEnvelopeBytes hello = 0 then Inl HelloMaxEnvelopeBytes
              else case check_range (h_SupportedVersions hello) of
                Some e \<Rightarrow> Inl e
              | None \<Rightarrow>
                  if length (h_Capabilities hello) > maxCapabilities then Inl HelloTooManyCapabilities
                  else case collect_capabilities {} (h_Capabilities hello) of
                    Inl e \<Rightarrow> Inl e
                  | Inr caps \<Rightarrow>
                      case check_dependencies caps of
                        Some e \<Rightarrow> Inl e
                      | None \<Rightarrow>
                          Inr \<lparr>n_Major = CurrentMajor, n_Minor = CurrentMinor,
                               n_PeerMaxEnvelopeBytes = h_MaxEnvelopeBytes hello,
                               n_ConnectionID = env_ConnectionId envelope,
                               n_capabilities = caps\<rparr>)"

section \<open>The agent's Hello\<close>

record AgentIdentity =
  id_DeviceID :: bytes
  id_PublicKeyFingerprint :: string
  id_RevocationEpoch :: u64

definition validateAgentIdentity :: "AgentIdentity \<Rightarrow> hello_error option" where
  "validateAgentIdentity identity =
     (if id_DeviceID identity = [] then Some IdentityDeviceID
      else if id_PublicKeyFingerprint identity = '''' then Some IdentityFingerprint
      else None)"

definition agent_capabilities :: "string list" where
  "agent_capabilities =
     [CapabilityTerminalBinaryOutput, CapabilityTerminalSequencedIO, CapabilityTerminalResizeEnd,
      CapabilitySessionProcessExit, CapabilitySessionResume, CapabilityControlError,
      CapabilityControlHealth, CapabilityAttachmentTransfer, CapabilityAttachmentPromptAction]"

definition NewAgentHello ::
    "bytes \<Rightarrow> u32 \<Rightarrow> u32 \<Rightarrow> time \<Rightarrow> AgentIdentity option \<Rightarrow> hello_error + Envelope" where
  "NewAgentHello connectionID major minor sentAt identity =
     (if length connectionID \<noteq> connectionIDBytes then Inl HelloConnectionID
      else if major \<noteq> CurrentMajor \<or> minor \<noteq> CurrentMinor then Inl HelloUnsupportedNegotiated
      else
        let version = \<lparr>v_Major = CurrentMajor, v_Minor = CurrentMinor\<rparr>;
            hello = \<lparr>h_PeerRole = PEER_ROLE_AGENT,
                     h_SupportedVersions = Some \<lparr>r_Minimum = Some version, r_Maximum = Some version\<rparr>,
                     h_Capabilities = agent_capabilities, h_MaxEnvelopeBytes = MaxEnvelopeBytes,
                     h_DeviceId = [], h_PublicKeyFingerprint = '''', h_RevocationEpoch = 0\<rparr>;
            envelope = (\<lambda>h. \<lparr>env_ProtocolMajor = major, env_ProtocolMinor = minor,
                             env_ConnectionId = connectionID, env_SessionId = [],
                             env_SessionGeneration = 0, env_Sequence = 1, env_Acknowledge = 0,
                             env_SentAt = Some sentAt, env_Payload = Envelope_Hello h\<rparr>)
        in case identity of
             None \<Rightarrow> Inr (envelope hello)
           | Some i \<Rightarrow>
               (case validateAgentIdentity i of
                  Some e \<Rightarrow> Inl e
                | None \<Rightarrow>
                    Inr (envelope (hello\<lparr>h_DeviceId := id_DeviceID i,
                                         h_PublicKeyFingerprint := id_PublicKeyFingerprint i,
                                         h_RevocationEpoch := id_RevocationEpoch i\<rparr>))))"

section \<open>What an accepted Hello is\<close>

text \<open>The capability dependencies, as one relation.\<close>

definition requires :: "(string \<times> string) list" where
  "requires =
     map (\<lambda>d. (d, CapabilityTerminalSequencedIO)) sequenced_dependents @
     [(CapabilityAttachmentTransfer, CapabilityControlError),
      (CapabilityAttachmentPromptAction, CapabilityAttachmentTransfer),
      (CapabilityAttachmentPromptAction, CapabilityControlError)]"

definition capabilities_closed :: "string set \<Rightarrow> bool" where
  "capabilities_closed caps \<longleftrightarrow> list_all (\<lambda>(a, b). a \<in> caps \<longrightarrow> b \<in> caps) requires"

definition capability_name_ok :: "string \<Rightarrow> bool" where
  "capability_name_ok c \<longleftrightarrow> c \<noteq> '''' \<and> length c \<le> maxCapabilityLen \<and> TrimSpace c = c"

definition range_includes_current :: "ProtocolVersionRange \<Rightarrow> bool" where
  "range_includes_current r \<longleftrightarrow>
     (\<exists>lo hi. r_Minimum r = Some lo \<and> r_Maximum r = Some hi \<and>
        v_Major lo = CurrentMajor \<and> v_Major hi = CurrentMajor \<and>
        v_Minor lo \<le> CurrentMinor \<and> CurrentMinor \<le> v_Minor hi)"

definition client_hello_ok :: "Envelope \<Rightarrow> Hello \<Rightarrow> bool" where
  "client_hello_ok e h \<longleftrightarrow>
     env_ProtocolMajor e = CurrentMajor \<and> env_ProtocolMinor e = CurrentMinor \<and>
     length (env_ConnectionId e) = connectionIDBytes \<and>
     env_SessionId e = [] \<and> env_SessionGeneration e = 0 \<and>
     env_Sequence e = 1 \<and> env_Acknowledge e = 0 \<and>
     env_Payload e = Envelope_Hello h \<and> h_PeerRole h = PEER_ROLE_CLIENT \<and>
     h_MaxEnvelopeBytes h \<noteq> 0 \<and>
     (\<exists>r. h_SupportedVersions h = Some r \<and> range_includes_current r) \<and>
     length (h_Capabilities h) \<le> maxCapabilities \<and>
     list_all capability_name_ok (h_Capabilities h) \<and> distinct (h_Capabilities h) \<and>
     capabilities_closed (set (h_Capabilities h))"

lemma collect_capabilities_Inr:
  "collect_capabilities caps cs = Inr caps' \<longleftrightarrow>
     list_all capability_name_ok cs \<and> distinct cs \<and> set cs \<inter> caps = {} \<and> caps' = set cs \<union> caps"
  by (induction caps cs rule: collect_capabilities.induct)
     (auto simp: capability_name_ok_def)

lemma check_sequenced_None:
  "check_sequenced caps ds = None \<longleftrightarrow>
     list_all (\<lambda>d. d \<in> caps \<longrightarrow> CapabilityTerminalSequencedIO \<in> caps) ds"
  by (induction ds) auto

lemma check_dependencies_None: "check_dependencies caps = None \<longleftrightarrow> capabilities_closed caps"
proof (cases "check_sequenced caps sequenced_dependents")
  case None
  then have "list_all (\<lambda>d. d \<in> caps \<longrightarrow> CapabilityTerminalSequencedIO \<in> caps) sequenced_dependents"
    by (simp only: check_sequenced_None)
  then show ?thesis
    by (auto simp: None check_dependencies_def capabilities_closed_def requires_def
        list.pred_map comp_def)
next
  case (Some x)
  then have "\<not> list_all (\<lambda>d. d \<in> caps \<longrightarrow> CapabilityTerminalSequencedIO \<in> caps) sequenced_dependents"
    by (simp flip: check_sequenced_None)
  then show ?thesis
    by (simp add: Some check_dependencies_def capabilities_closed_def requires_def
        list.pred_map comp_def)
qed

lemma check_range_None:
  "check_range rv = None \<longleftrightarrow> (\<exists>r. rv = Some r \<and> range_includes_current r)"
proof (cases rv)
  case (Some r)
  show ?thesis
    by (cases "r_Minimum r"; cases "r_Maximum r")
       (auto simp: Some check_range_def range_includes_current_def word_gt_0)
qed (simp add: check_range_def)

lemma GetHello_Some: "GetHello e = Some h \<longleftrightarrow> env_Payload e = Envelope_Hello h"
  by (auto split: payload.splits)

text \<open>
  Hello negotiation accepts exactly the well-formed client Hellos: an envelope of 1 to 64 KiB
  that decodes to version 1.0 with a 16-byte connection ID, no session, sequence 1 and no
  acknowledgement, whose Hello has the client role, a positive envelope limit, a version range
  that contains 1.0, and at most 64 distinct trimmed capability names closed under the
  dependencies between capabilities; and what it negotiates is that Hello's limit, connection
  ID and capability set. Everything else is rejected with an error.
\<close>

theorem accept_client_hello_exact:
  "AcceptClientHello unmarshal encoded = Inr n \<longleftrightarrow>
     encoded \<noteq> [] \<and> length encoded \<le> unat MaxEnvelopeBytes \<and>
     (\<exists>e h. unmarshal encoded = Some e \<and> client_hello_ok e h \<and>
        n = \<lparr>n_Major = 1, n_Minor = 0, n_PeerMaxEnvelopeBytes = h_MaxEnvelopeBytes h,
             n_ConnectionID = env_ConnectionId e, n_capabilities = set (h_Capabilities h)\<rparr>)"
proof (cases "encoded = [] \<or> length encoded > unat MaxEnvelopeBytes \<or> unmarshal encoded = None")
  case True
  then show ?thesis by (auto simp: AcceptClientHello_def)
next
  case False
  then obtain e where e: "unmarshal encoded = Some e" by auto
  show ?thesis
  proof (cases "GetHello e")
    case None
    then have "env_Payload e \<noteq> Envelope_Hello h" for h by (metis GetHello_Some option.distinct(1))
    with False None e show ?thesis
      by (simp add: AcceptClientHello_def client_hello_ok_def del: GetHello.simps)
  next
    case (Some h)
    have uniq: "env_Payload e = Envelope_Hello h' \<longleftrightarrow> h' = h" for h'
      using Some by (simp only: GetHello_Some) auto
    show ?thesis
    proof (cases "collect_capabilities {} (h_Capabilities h)")
      case (Inl x)
      then have "\<not> (list_all capability_name_ok (h_Capabilities h) \<and> distinct (h_Capabilities h))"
        using collect_capabilities_Inr [of "{}" "h_Capabilities h" "set (h_Capabilities h)"] by auto
      with False Some e Inl show ?thesis
        by (auto simp: AcceptClientHello_def client_hello_ok_def uniq
            simp del: GetHello.simps split: option.split)
    next
      case (Inr caps)
      then have caps: "list_all capability_name_ok (h_Capabilities h)" "distinct (h_Capabilities h)"
        "caps = set (h_Capabilities h)"
        by (simp_all add: collect_capabilities_Inr)
      show ?thesis
        using False Some e Inr caps
          check_range_None [of "h_SupportedVersions h"] check_dependencies_None [of caps]
        by (auto simp: AcceptClientHello_def client_hello_ok_def uniq
            simp del: GetHello.simps split: option.splits)
    qed
  qed
qed

lemma agent_capabilities_ok:
  "list_all capability_name_ok agent_capabilities" "distinct agent_capabilities"
  "length agent_capabilities \<le> maxCapabilities" "capabilities_closed (set agent_capabilities)"
proof -
  have "list_all (list_all graphic) agent_capabilities"
    by (simp add: agent_capabilities_def capability_names graphic_def)
  moreover have "list_all (\<lambda>c. c \<noteq> '''' \<and> length c \<le> maxCapabilityLen) agent_capabilities"
    by (simp add: agent_capabilities_def capability_names)
  ultimately show "list_all capability_name_ok agent_capabilities"
    by (auto simp: list_all_iff [where xs = agent_capabilities] capability_name_ok_def graphic_string)
  show "distinct agent_capabilities"
    by (simp add: agent_capabilities_def capability_names)
  show "length agent_capabilities \<le> maxCapabilities"
    by (simp add: agent_capabilities_def)
  show "capabilities_closed (set agent_capabilities)"
    by (simp add: capabilities_closed_def requires_def sequenced_dependents_def agent_capabilities_def)
qed

text \<open>
  The agent's own Hello obeys the rules it imposes: when it is built, its capabilities are
  well-formed, distinct and closed under the dependencies, so that with the peer role changed
  to client the envelope would be accepted.
\<close>

theorem agent_hello_self_consistent:
  "NewAgentHello connectionID major minor sentAt identity = Inr e \<Longrightarrow>
     \<exists>h. env_Payload e = Envelope_Hello h \<and> h_PeerRole h = PEER_ROLE_AGENT \<and>
       client_hello_ok (e\<lparr>env_Payload := Envelope_Hello (h\<lparr>h_PeerRole := PEER_ROLE_CLIENT\<rparr>)\<rparr>)
         (h\<lparr>h_PeerRole := PEER_ROLE_CLIENT\<rparr>) \<and>
       (\<forall>i. identity = Some i \<longrightarrow> h_DeviceId h = id_DeviceID i \<and> id_DeviceID i \<noteq> [] \<and>
          h_PublicKeyFingerprint h = id_PublicKeyFingerprint i \<and> id_PublicKeyFingerprint i \<noteq> '''' \<and>
          h_RevocationEpoch h = id_RevocationEpoch i)"
proof -
  assume ok: "NewAgentHello connectionID major minor sentAt identity = Inr e"
  define h where "h = \<lparr>h_PeerRole = PEER_ROLE_AGENT,
    h_SupportedVersions = Some \<lparr>r_Minimum = Some \<lparr>v_Major = CurrentMajor, v_Minor = CurrentMinor\<rparr>,
      r_Maximum = Some \<lparr>v_Major = CurrentMajor, v_Minor = CurrentMinor\<rparr>\<rparr>,
    h_Capabilities = agent_capabilities, h_MaxEnvelopeBytes = MaxEnvelopeBytes,
    h_DeviceId = (case identity of None \<Rightarrow> [] | Some i \<Rightarrow> id_DeviceID i),
    h_PublicKeyFingerprint = (case identity of None \<Rightarrow> '''' | Some i \<Rightarrow> id_PublicKeyFingerprint i),
    h_RevocationEpoch = (case identity of None \<Rightarrow> 0 | Some i \<Rightarrow> id_RevocationEpoch i)\<rparr>"
  have e: "e = \<lparr>env_ProtocolMajor = 1, env_ProtocolMinor = 0, env_ConnectionId = connectionID,
      env_SessionId = [], env_SessionGeneration = 0, env_Sequence = 1, env_Acknowledge = 0,
      env_SentAt = Some sentAt, env_Payload = Envelope_Hello h\<rparr> \<and> length connectionID = 16 \<and>
      (\<forall>i. identity = Some i \<longrightarrow> id_DeviceID i \<noteq> [] \<and> id_PublicKeyFingerprint i \<noteq> '''')"
    using ok by (auto simp: NewAgentHello_def Let_def h_def validateAgentIdentity_def
        split: if_splits option.splits)
  then show ?thesis
    by (intro exI [of _ h])
       (auto simp: client_hello_ok_def h_def range_includes_current_def MaxEnvelopeBytes_def
        agent_capabilities_ok)
qed


theorem agent_hello_self_consistent_witness:
  "\<exists>e h. NewAgentHello (replicate 16 0) 1 0 5 (Some \<lparr>id_DeviceID = [1], id_PublicKeyFingerprint = ''ab'',
       id_RevocationEpoch = 3\<rparr>) = Inr e \<and> env_Payload e = Envelope_Hello h \<and>
     client_hello_ok (e\<lparr>env_Payload := Envelope_Hello (h\<lparr>h_PeerRole := PEER_ROLE_CLIENT\<rparr>)\<rparr>)
       (h\<lparr>h_PeerRole := PEER_ROLE_CLIENT\<rparr>) \<and> h_DeviceId h = [1]"
proof -
  let ?i = "\<lparr>id_DeviceID = [1], id_PublicKeyFingerprint = ''ab'', id_RevocationEpoch = 3\<rparr> :: AgentIdentity"
  obtain e where "NewAgentHello (replicate 16 0) 1 0 5 (Some ?i) = Inr e"
    by (simp add: NewAgentHello_def Let_def validateAgentIdentity_def)
  then show ?thesis
    using agent_hello_self_consistent [of "replicate 16 0" 1 0 5 "Some ?i" e] by auto
qed

end
