(* ===== verification/Agent_Stream.thy ===== *)
theory Agent_Stream
  imports Negotiation
begin

text \<open>
  The ordered stream of one connection after the Hello exchange
  (\<^verbatim>\<open>src/internal/protocol/stream.go\<close>). The state is the \<^verbatim>\<open>AgentStream\<close> struct; an operation
  takes it and returns the next state and either an error or its result. Sequence counters are
  64-bit words and wrap as in Go. The protobuf codec is a parameter, as in \<open>Negotiation\<close>.
\<close>

section \<open>Constants and messages\<close>

abbreviation MaxTerminalInputBytes :: nat where "MaxTerminalInputBytes \<equiv> 32 * 1024"
abbreviation MaxTerminalDimension :: u32 where "MaxTerminalDimension \<equiv> 65535"
abbreviation MaxAttachmentPromptBytes :: nat where "MaxAttachmentPromptBytes \<equiv> 32 * 1024"
abbreviation MaxAttachmentPromptPreviewBytes :: nat where
  "MaxAttachmentPromptPreviewBytes \<equiv> 48 * 1024"
abbreviation maxAttachmentTransferIDBytes :: nat where "maxAttachmentTransferIDBytes \<equiv> 64"
abbreviation maxAttachmentPromptActionIDBytes :: nat where "maxAttachmentPromptActionIDBytes \<equiv> 64"
abbreviation maxAttachmentPromptTransfers :: nat where "maxAttachmentPromptTransfers \<equiv> 10"
abbreviation maxAttachmentDiscardTransfers :: nat where "maxAttachmentDiscardTransfers \<equiv> 10"
abbreviation sha256_Size :: nat where "sha256_Size \<equiv> 32"

abbreviation (input) RESUME_DISPOSITION_FRESH :: enum32 where "RESUME_DISPOSITION_FRESH \<equiv> 1"
abbreviation (input) RESUME_DISPOSITION_RESUMED :: enum32 where "RESUME_DISPOSITION_RESUMED \<equiv> 2"
abbreviation (input) RESUME_DISPOSITION_RESYNC_REQUIRED :: enum32 where
  "RESUME_DISPOSITION_RESYNC_REQUIRED \<equiv> 3"
abbreviation (input) PROCESS_EXIT_OUTCOME_SUCCESS :: enum32 where "PROCESS_EXIT_OUTCOME_SUCCESS \<equiv> 1"
abbreviation (input) PROCESS_EXIT_OUTCOME_FAILURE :: enum32 where "PROCESS_EXIT_OUTCOME_FAILURE \<equiv> 2"
abbreviation (input) TRANSFER_DISPOSITION_UNKNOWN :: enum32 where "TRANSFER_DISPOSITION_UNKNOWN \<equiv> 1"
abbreviation (input) TRANSFER_DISPOSITION_ACTIVE :: enum32 where "TRANSFER_DISPOSITION_ACTIVE \<equiv> 2"
abbreviation (input) TRANSFER_DISPOSITION_COMPLETED :: enum32 where "TRANSFER_DISPOSITION_COMPLETED \<equiv> 3"
abbreviation (input) TRANSFER_DISPOSITION_CANCELLED :: enum32 where "TRANSFER_DISPOSITION_CANCELLED \<equiv> 4"
abbreviation (input) PROMPT_DISPOSITION_PREPARED :: enum32 where "PROMPT_DISPOSITION_PREPARED \<equiv> 1"
abbreviation (input) PROMPT_DISPOSITION_COMMITTED :: enum32 where "PROMPT_DISPOSITION_COMMITTED \<equiv> 2"
abbreviation (input) ERROR_CODE_SESSION_START_FAILED :: enum32 where "ERROR_CODE_SESSION_START_FAILED \<equiv> 1"
abbreviation (input) ERROR_CODE_SESSION_ALREADY_ACTIVE :: enum32 where
  "ERROR_CODE_SESSION_ALREADY_ACTIVE \<equiv> 2"
abbreviation (input) ERROR_CODE_TERMINAL_INPUT_FAILED :: enum32 where "ERROR_CODE_TERMINAL_INPUT_FAILED \<equiv> 3"
abbreviation (input) ERROR_CODE_TERMINAL_RESIZE_FAILED :: enum32 where
  "ERROR_CODE_TERMINAL_RESIZE_FAILED \<equiv> 4"
abbreviation (input) ERROR_CODE_UNSUPPORTED_MESSAGE :: enum32 where "ERROR_CODE_UNSUPPORTED_MESSAGE \<equiv> 5"
abbreviation (input) ERROR_CODE_ATTACHMENT_TRANSFER_FAILED :: enum32 where
  "ERROR_CODE_ATTACHMENT_TRANSFER_FAILED \<equiv> 6"
abbreviation (input) ERROR_CODE_ATTACHMENT_PROMPT_ACTION_FAILED :: enum32 where
  "ERROR_CODE_ATTACHMENT_PROMPT_ACTION_FAILED \<equiv> 7"

text \<open>The kind \<open>KindZero\<close> is Go's zero value, which no decoded message has.\<close>

datatype ClientStreamMessageKind =
    KindZero
  | KindAttachSession
  | KindTerminalInput
  | KindTerminalResize
  | KindEndSession
  | KindAcknowledgement
  | KindPing
  | KindAttachmentBegin
  | KindAttachmentChunk
  | KindAttachmentComplete
  | KindAttachmentCancel
  | KindAttachmentDiscard
  | KindAttachmentTransferStatusRequest
  | KindAttachmentPromptPrepare
  | KindAttachmentPromptCommit
  | KindAttachmentPromptCancel

record ClientStreamMessage =
  m_Kind :: ClientStreamMessageKind
  m_Sequence :: u64
  m_Data :: bytes
  m_SessionID :: bytes
  m_SessionGeneration :: u64
  m_LastAcknowledgedSequence :: u64
  m_Columns :: u32
  m_Rows :: u32
  m_TransferID :: bytes
  m_DisplayName :: string
  m_DeclaredContentType :: string
  m_DeclaredExtension :: string
  m_TotalSizeBytes :: u64
  m_TotalSHA256 :: bytes
  m_OffsetBytes :: u64
  m_ChunkSHA256 :: bytes
  m_ActionID :: bytes
  m_TransferIDs :: "bytes list"
  m_Prompt :: string
  m_AppendEnter :: bool

definition zero_message :: ClientStreamMessage where
  "zero_message =
     \<lparr>m_Kind = KindZero, m_Sequence = 0, m_Data = [], m_SessionID = [], m_SessionGeneration = 0,
      m_LastAcknowledgedSequence = 0, m_Columns = 0, m_Rows = 0, m_TransferID = [],
      m_DisplayName = '''', m_DeclaredContentType = '''', m_DeclaredExtension = '''',
      m_TotalSizeBytes = 0, m_TotalSHA256 = [], m_OffsetBytes = 0, m_ChunkSHA256 = [],
      m_ActionID = [], m_TransferIDs = [], m_Prompt = '''', m_AppendEnter = False\<rparr>"

section \<open>State\<close>

record AgentStream =
  s_connectionID :: bytes
  s_peerMaxEnvelopeSize :: u32
  s_nextOutbound :: u64
  s_nextInbound :: u64
  s_highestInbound :: u64
  s_highestPeerAck :: u64
  s_pendingPingSequences :: "u64 list"
  s_sessionResume :: bool
  s_terminalResizeEnd :: bool
  s_sessionProcessExit :: bool
  s_controlError :: bool
  s_controlHealth :: bool
  s_attachmentTransfer :: bool
  s_attachmentPromptAction :: bool
  s_sessionBound :: bool
  s_sessionID :: bytes
  s_sessionGeneration :: u64

datatype stream_error =
    StreamConnectionID
  | StreamPeerLimit
  | StreamSize
  | StreamDecode
  | StreamVersion
  | StreamConnectionMismatch
  | StreamSessionMismatch
  | StreamAttachFirst
  | StreamAttachMetadata
  | StreamAttachCursor
  | StreamUnexpectedSession
  | StreamSequence u64 u64
  | StreamAcknowledgement
  | StreamAttachState
  | StreamInputSize
  | StreamResizeNotNegotiated
  | StreamDimensions
  | StreamHealthNotNegotiated
  | StreamTransferNotNegotiated
  | StreamTransferMetadata
  | StreamDuplicateTransfer
  | StreamPromptNotNegotiated
  | StreamPromptMetadata
  | StreamUnsupportedPayload
  | StreamCommit u64 u64
  | StreamEmptyOutput
  | StreamUnbound
  | StreamMarshal
  | StreamLimit
  | StreamLimitTooSmall
  | StreamResumeNotNegotiated
  | StreamAlreadyBound
  | StreamAttachNotCommitted
  | StreamSessionIdentity
  | StreamDisposition
  | StreamExitNotNegotiated
  | StreamOutcome
  | StreamOffset
  | StreamPreview
  | StreamErrorNotNegotiated
  | StreamErrorCode
  | StreamErrorBeforeBind
  | StreamNoPing

definition NewAgentStream :: "NegotiatedHello \<Rightarrow> stream_error + AgentStream" where
  "NewAgentStream negotiated =
     (if length (n_ConnectionID negotiated) \<noteq> connectionIDBytes then Inl StreamConnectionID
      else if n_PeerMaxEnvelopeBytes negotiated = 0 then Inl StreamPeerLimit
      else Inr
        \<lparr>s_connectionID = n_ConnectionID negotiated,
         s_peerMaxEnvelopeSize = n_PeerMaxEnvelopeBytes negotiated,
         s_nextOutbound = 2, s_nextInbound = 2, s_highestInbound = 1, s_highestPeerAck = 0,
         s_pendingPingSequences = [],
         s_sessionResume = HasCapability negotiated CapabilitySessionResume,
         s_terminalResizeEnd = HasCapability negotiated CapabilityTerminalResizeEnd,
         s_sessionProcessExit = HasCapability negotiated CapabilitySessionProcessExit,
         s_controlError = HasCapability negotiated CapabilityControlError,
         s_controlHealth = HasCapability negotiated CapabilityControlHealth,
         s_attachmentTransfer = HasCapability negotiated CapabilityAttachmentTransfer,
         s_attachmentPromptAction = HasCapability negotiated CapabilityAttachmentPromptAction,
         s_sessionBound = False, s_sessionID = [], s_sessionGeneration = 0\<rparr>)"

section \<open>Inbound\<close>

definition validAttachmentTransferID :: "bytes \<Rightarrow> bool" where
  "validAttachmentTransferID transferID \<longleftrightarrow>
     length transferID > 0 \<and> length transferID \<le> maxAttachmentTransferIDBytes"

definition validAttachmentPromptActionID :: "bytes \<Rightarrow> bool" where
  "validAttachmentPromptActionID actionID \<longleftrightarrow>
     length actionID > 0 \<and> length actionID \<le> maxAttachmentPromptActionIDBytes"

definition validateInboundEnvelope :: "AgentStream \<Rightarrow> Envelope \<Rightarrow> stream_error option" where
  "validateInboundEnvelope s e =
     (let session_check =
        (if s_sessionResume s then
           (if s_sessionBound s then
              (if env_SessionId e \<noteq> s_sessionID s \<or> env_SessionGeneration e \<noteq> s_sessionGeneration s
               then Some StreamSessionMismatch else None)
            else
              (case GetAttachSession e of
                 None \<Rightarrow> Some StreamAttachFirst
               | Some lastAck \<Rightarrow>
                   (let fresh = (env_SessionId e = [] \<and> env_SessionGeneration e = 0);
                        resume = (length (env_SessionId e) = connectionIDBytes
                                  \<and> env_SessionGeneration e > 0)
                    in if \<not> fresh \<and> \<not> resume then Some StreamAttachMetadata
                       else if fresh \<and> lastAck \<noteq> 0 then Some StreamAttachCursor
                       else None)))
         else if env_SessionId e \<noteq> [] \<or> env_SessionGeneration e \<noteq> 0
         then Some StreamUnexpectedSession else None)
      in
      if env_ProtocolMajor e \<noteq> CurrentMajor \<or> env_ProtocolMinor e \<noteq> CurrentMinor
      then Some StreamVersion
      else if env_ConnectionId e \<noteq> s_connectionID s then Some StreamConnectionMismatch
      else case session_check of
        Some err \<Rightarrow> Some err
      | None \<Rightarrow>
          if env_Sequence e \<noteq> s_nextInbound s
          then Some (StreamSequence (env_Sequence e) (s_nextInbound s))
          else if env_Acknowledge e < s_highestPeerAck s \<or> env_Acknowledge e \<ge> s_nextOutbound s
          then Some StreamAcknowledgement
          else None)"

text \<open>The loops over the transfer IDs of a discard (which rejects duplicates) and a prompt.\<close>

fun discard_ids :: "bytes set \<Rightarrow> bytes list \<Rightarrow> stream_error + bytes list" where
  "discard_ids seen [] = Inr []"
| "discard_ids seen (t # ts) =
     (if \<not> validAttachmentTransferID t then Inl StreamTransferMetadata
      else if t \<in> seen then Inl StreamDuplicateTransfer
      else case discard_ids (insert t seen) ts of Inl e \<Rightarrow> Inl e | Inr us \<Rightarrow> Inr (t # us))"

fun prompt_ids :: "bytes list \<Rightarrow> stream_error + bytes list" where
  "prompt_ids [] = Inr []"
| "prompt_ids (t # ts) =
     (if \<not> validAttachmentTransferID t then Inl StreamTransferMetadata
      else case prompt_ids ts of Inl e \<Rightarrow> Inl e | Inr us \<Rightarrow> Inr (t # us))"

definition attachment_payload ::
    "AgentStream \<Rightarrow> bool \<Rightarrow> stream_error + ClientStreamMessage \<Rightarrow> stream_error + ClientStreamMessage" where
  "attachment_payload s bad r =
     (if \<not> s_attachmentTransfer s then Inl StreamTransferNotNegotiated
      else if bad then Inl StreamTransferMetadata else r)"

definition prompt_payload ::
    "AgentStream \<Rightarrow> bool \<Rightarrow> stream_error + ClientStreamMessage \<Rightarrow> stream_error + ClientStreamMessage" where
  "prompt_payload s bad r =
     (if \<not> s_attachmentPromptAction s then Inl StreamPromptNotNegotiated
      else if bad then Inl StreamPromptMetadata else r)"

text \<open>The switch over the payload of a validated envelope.\<close>

definition decode_payload :: "AgentStream \<Rightarrow> Envelope \<Rightarrow> stream_error + ClientStreamMessage" where
  "decode_payload s envelope =
     (let message = zero_message\<lparr>m_Sequence := env_Sequence envelope\<rparr> in
      case env_Payload envelope of
        Envelope_AttachSession lastAck \<Rightarrow>
          if \<not> s_sessionResume s \<or> s_sessionBound s then Inl StreamAttachState
          else Inr (message\<lparr>m_Kind := KindAttachSession, m_SessionID := env_SessionId envelope,
                      m_SessionGeneration := env_SessionGeneration envelope,
                      m_LastAcknowledgedSequence := lastAck\<rparr>)
      | Envelope_TerminalInput data \<Rightarrow>
          if data = [] \<or> length data > MaxTerminalInputBytes then Inl StreamInputSize
          else Inr (message\<lparr>m_Kind := KindTerminalInput, m_Data := data\<rparr>)
      | Envelope_TerminalResize columns rows \<Rightarrow>
          if \<not> s_terminalResizeEnd s then Inl StreamResizeNotNegotiated
          else if columns = 0 \<or> columns > MaxTerminalDimension \<or> rows = 0 \<or> rows > MaxTerminalDimension
          then Inl StreamDimensions
          else Inr (message\<lparr>m_Kind := KindTerminalResize, m_Columns := columns, m_Rows := rows\<rparr>)
      | Envelope_EndSession \<Rightarrow>
          if \<not> s_terminalResizeEnd s then Inl StreamResizeNotNegotiated
          else Inr (message\<lparr>m_Kind := KindEndSession\<rparr>)
      | Envelope_Acknowledgement \<Rightarrow> Inr (message\<lparr>m_Kind := KindAcknowledgement\<rparr>)
      | Envelope_Ping \<Rightarrow>
          if \<not> s_controlHealth s then Inl StreamHealthNotNegotiated
          else Inr (message\<lparr>m_Kind := KindPing\<rparr>)
      | Envelope_AttachmentBegin begin \<Rightarrow>
          attachment_payload s
            (case begin of None \<Rightarrow> True
             | Some b \<Rightarrow> \<not> validAttachmentTransferID (ab_TransferId b) \<or> ab_TotalSizeBytes b = 0
                         \<or> length (ab_TotalSha256 b) \<noteq> sha256_Size)
            (let b = the begin in
             Inr (message\<lparr>m_Kind := KindAttachmentBegin, m_TransferID := ab_TransferId b,
                    m_DisplayName := ab_DisplayName b,
                    m_DeclaredContentType := ab_DeclaredContentType b,
                    m_DeclaredExtension := ab_DeclaredExtension b,
                    m_TotalSizeBytes := ab_TotalSizeBytes b, m_TotalSHA256 := ab_TotalSha256 b\<rparr>))
      | Envelope_AttachmentChunk chunk \<Rightarrow>
          attachment_payload s
            (case chunk of None \<Rightarrow> True
             | Some c \<Rightarrow> \<not> validAttachmentTransferID (ac_TransferId c) \<or> ac_Data c = []
                         \<or> length (ac_ChunkSha256 c) \<noteq> sha256_Size)
            (let c = the chunk in
             Inr (message\<lparr>m_Kind := KindAttachmentChunk, m_TransferID := ac_TransferId c,
                    m_OffsetBytes := ac_OffsetBytes c, m_Data := ac_Data c,
                    m_ChunkSHA256 := ac_ChunkSha256 c\<rparr>))
      | Envelope_AttachmentComplete transferID \<Rightarrow>
          attachment_payload s
            (case transferID of None \<Rightarrow> True | Some t \<Rightarrow> \<not> validAttachmentTransferID t)
            (Inr (message\<lparr>m_Kind := KindAttachmentComplete, m_TransferID := the transferID\<rparr>))
      | Envelope_AttachmentCancel transferID \<Rightarrow>
          attachment_payload s
            (case transferID of None \<Rightarrow> True | Some t \<Rightarrow> \<not> validAttachmentTransferID t)
            (Inr (message\<lparr>m_Kind := KindAttachmentCancel, m_TransferID := the transferID\<rparr>))
      | Envelope_AttachmentDiscard ids \<Rightarrow>
          attachment_payload s
            (case ids of None \<Rightarrow> True
             | Some ts \<Rightarrow> ts = [] \<or> length ts > maxAttachmentDiscardTransfers)
            (case discard_ids {} (the ids) of
               Inl e \<Rightarrow> Inl e
             | Inr ts \<Rightarrow> Inr (message\<lparr>m_Kind := KindAttachmentDiscard, m_TransferIDs := ts\<rparr>))
      | Envelope_AttachmentTransferStatusRequest transferID \<Rightarrow>
          attachment_payload s
            (case transferID of None \<Rightarrow> True | Some t \<Rightarrow> \<not> validAttachmentTransferID t)
            (Inr (message\<lparr>m_Kind := KindAttachmentTransferStatusRequest,
                    m_TransferID := the transferID\<rparr>))
      | Envelope_AttachmentPromptPrepare prepare \<Rightarrow>
          prompt_payload s
            (case prepare of None \<Rightarrow> True
             | Some p \<Rightarrow> \<not> validAttachmentPromptActionID (pp_ActionId p)
                 \<or> pp_TransferIds p = [] \<or> length (pp_TransferIds p) > maxAttachmentPromptTransfers
                 \<or> pp_Prompt p = '''' \<or> length (pp_Prompt p) > MaxAttachmentPromptBytes)
            (let p = the prepare in
             case prompt_ids (pp_TransferIds p) of
               Inl e \<Rightarrow> Inl e
             | Inr ts \<Rightarrow> Inr (message\<lparr>m_Kind := KindAttachmentPromptPrepare,
                                m_ActionID := pp_ActionId p, m_TransferIDs := ts,
                                m_Prompt := pp_Prompt p, m_AppendEnter := pp_AppendEnter p\<rparr>))
      | Envelope_AttachmentPromptCommit actionID \<Rightarrow>
          prompt_payload s
            (case actionID of None \<Rightarrow> True | Some a \<Rightarrow> \<not> validAttachmentPromptActionID a)
            (Inr (message\<lparr>m_Kind := KindAttachmentPromptCommit, m_ActionID := the actionID\<rparr>))
      | Envelope_AttachmentPromptCancel actionID \<Rightarrow>
          prompt_payload s
            (case actionID of None \<Rightarrow> True | Some a \<Rightarrow> \<not> validAttachmentPromptActionID a)
            (Inr (message\<lparr>m_Kind := KindAttachmentPromptCancel, m_ActionID := the actionID\<rparr>))
      | _ \<Rightarrow> Inl StreamUnsupportedPayload)"

definition DecodeClientMessage ::
    "unmarshal \<Rightarrow> bytes \<Rightarrow> AgentStream \<Rightarrow> AgentStream \<times> (stream_error + ClientStreamMessage)" where
  "DecodeClientMessage unmarshal encoded s =
     (if encoded = [] \<or> length encoded > unat MaxEnvelopeBytes then (s, Inl StreamSize)
      else case unmarshal encoded of
        None \<Rightarrow> (s, Inl StreamDecode)
      | Some envelope \<Rightarrow>
          (case validateInboundEnvelope s envelope of
             Some e \<Rightarrow> (s, Inl e)
           | None \<Rightarrow>
               (case decode_payload s envelope of
                  Inl e \<Rightarrow> (s, Inl e)
                | Inr message \<Rightarrow>
                    (s\<lparr>s_highestPeerAck := env_Acknowledge envelope\<rparr>, Inr message))))"

definition CommitClientMessage ::
    "ClientStreamMessage \<Rightarrow> AgentStream \<Rightarrow> AgentStream \<times> stream_error option" where
  "CommitClientMessage message s =
     (if m_Sequence message \<noteq> s_nextInbound s
      then (s, Some (StreamCommit (m_Sequence message) (s_nextInbound s)))
      else
        (s\<lparr>s_highestInbound := m_Sequence message, s_nextInbound := s_nextInbound s + 1,
           s_pendingPingSequences :=
             (if m_Kind message = KindPing
              then s_pendingPingSequences s @ [m_Sequence message]
              else s_pendingPingSequences s)\<rparr>, None))"

section \<open>Outbound\<close>

text \<open>\<^verbatim>\<open>marshalLocked\<close>: the codec's own error first, then the negotiated limit.\<close>

definition marshalLocked :: "marshal \<Rightarrow> AgentStream \<Rightarrow> Envelope \<Rightarrow> stream_error + bytes" where
  "marshalLocked marshal s envelope =
     (case marshal envelope of
        None \<Rightarrow> Inl StreamMarshal
      | Some encoded \<Rightarrow>
          (if length encoded > unat (min MaxEnvelopeBytes (s_peerMaxEnvelopeSize s))
           then Inl StreamLimit else Inr encoded))"

definition terminalOutputEnvelope :: "AgentStream \<Rightarrow> bytes \<Rightarrow> time \<Rightarrow> Envelope" where
  "terminalOutputEnvelope s data sentAt =
     \<lparr>env_ProtocolMajor = CurrentMajor, env_ProtocolMinor = CurrentMinor,
      env_ConnectionId = s_connectionID s, env_SessionId = s_sessionID s,
      env_SessionGeneration = s_sessionGeneration s, env_Sequence = s_nextOutbound s,
      env_Acknowledge = s_highestInbound s, env_SentAt = Some sentAt,
      env_Payload = Envelope_TerminalOutput data\<rparr>"

text \<open>
  \<^verbatim>\<open>encodeLocked\<close>, whose callers pass an envelope with only its payload set: every other field
  is assigned here.
\<close>

definition locked_envelope :: "AgentStream \<Rightarrow> payload \<Rightarrow> time \<Rightarrow> Envelope" where
  "locked_envelope s p sentAt =
     \<lparr>env_ProtocolMajor = CurrentMajor, env_ProtocolMinor = CurrentMinor,
      env_ConnectionId = s_connectionID s, env_SessionId = s_sessionID s,
      env_SessionGeneration = s_sessionGeneration s, env_Sequence = s_nextOutbound s,
      env_Acknowledge = s_highestInbound s, env_SentAt = Some sentAt, env_Payload = p\<rparr>"

type_synonym encoding = "AgentStream \<times> (stream_error + bytes)"

definition encodeLocked :: "marshal \<Rightarrow> payload \<Rightarrow> time \<Rightarrow> AgentStream \<Rightarrow> encoding" where
  "encodeLocked marshal p sentAt s =
     (case marshalLocked marshal s (locked_envelope s p sentAt) of
        Inl e \<Rightarrow> (s, Inl e)
      | Inr encoded \<Rightarrow> (s\<lparr>s_nextOutbound := s_nextOutbound s + 1\<rparr>, Inr encoded))"

definition EncodeTerminalOutput :: "marshal \<Rightarrow> bytes \<Rightarrow> time \<Rightarrow> AgentStream \<Rightarrow> encoding" where
  "EncodeTerminalOutput marshal data sentAt s =
     (if data = [] then (s, Inl StreamEmptyOutput)
      else if s_sessionResume s \<and> \<not> s_sessionBound s then (s, Inl StreamUnbound)
      else case marshalLocked marshal s (terminalOutputEnvelope s data sentAt) of
        Inl e \<Rightarrow> (s, Inl e)
      | Inr encoded \<Rightarrow> (s\<lparr>s_nextOutbound := s_nextOutbound s + 1\<rparr>, Inr encoded))"

text \<open>
  The binary search of \<^verbatim>\<open>EncodeTerminalOutputChunk\<close> over prefix lengths, with its
  \<^verbatim>\<open>int\<close> variables: the best encoding so far and its length, and the interval left.
\<close>

function chunk_search ::
    "(nat \<Rightarrow> stream_error + bytes) \<Rightarrow> int \<Rightarrow> int \<Rightarrow> bytes \<times> nat \<Rightarrow> bytes \<times> nat" where
  "chunk_search enc low high best =
     (if low \<le> high then
        let middle = low + (high - low) div 2 in
        case enc (nat middle) of
          Inr encoded \<Rightarrow> chunk_search enc (middle + 1) high (encoded, nat middle)
        | Inl _ \<Rightarrow> chunk_search enc low (middle - 1) best
      else best)"
  by auto
termination
  by (relation "measure (\<lambda>(_, low, high, _). nat (high + 1 - low))") auto

declare chunk_search.simps [simp del]

definition EncodeTerminalOutputChunk ::
    "marshal \<Rightarrow> bytes \<Rightarrow> time \<Rightarrow> AgentStream \<Rightarrow> AgentStream \<times> (stream_error + bytes \<times> nat)" where
  "EncodeTerminalOutputChunk marshal data sentAt s =
     (if data = [] then (s, Inl StreamEmptyOutput)
      else if s_sessionResume s \<and> \<not> s_sessionBound s then (s, Inl StreamUnbound)
      else
        let (best, bestLength) =
          chunk_search
            (\<lambda>middle. marshalLocked marshal s (terminalOutputEnvelope s (take middle data) sentAt))
            1 (int (length data)) ([], 0)
        in if bestLength = 0 then (s, Inl StreamLimitTooSmall)
           else (s\<lparr>s_nextOutbound := s_nextOutbound s + 1\<rparr>, Inr (best, bestLength)))"

definition BindSession :: "bytes \<Rightarrow> u64 \<Rightarrow> AgentStream \<Rightarrow> AgentStream \<times> stream_error option" where
  "BindSession sessionID generation s =
     (if \<not> s_sessionResume s then (s, Some StreamResumeNotNegotiated)
      else if s_sessionBound s then (s, Some StreamAlreadyBound)
      else if s_highestInbound s < 2 then (s, Some StreamAttachNotCommitted)
      else if length sessionID \<noteq> connectionIDBytes \<or> generation = 0
      then (s, Some StreamSessionIdentity)
      else (s\<lparr>s_sessionID := sessionID, s_sessionGeneration := generation,
              s_sessionBound := True\<rparr>, None))"

definition EncodeSessionStatus :: "marshal \<Rightarrow> enum32 \<Rightarrow> time \<Rightarrow> AgentStream \<Rightarrow> encoding" where
  "EncodeSessionStatus marshal disposition sentAt s =
     (if \<not> s_sessionResume s \<or> \<not> s_sessionBound s then (s, Inl StreamUnbound)
      else if disposition \<notin> {RESUME_DISPOSITION_FRESH, RESUME_DISPOSITION_RESUMED,
                             RESUME_DISPOSITION_RESYNC_REQUIRED}
      then (s, Inl StreamDisposition)
      else encodeLocked marshal (Envelope_SessionStatus disposition) sentAt s)"

definition EncodeProcessExit :: "marshal \<Rightarrow> enum32 \<Rightarrow> time \<Rightarrow> AgentStream \<Rightarrow> encoding" where
  "EncodeProcessExit marshal outcome sentAt s =
     (if \<not> s_sessionProcessExit s then (s, Inl StreamExitNotNegotiated)
      else if s_sessionResume s \<and> \<not> s_sessionBound s then (s, Inl StreamUnbound)
      else if outcome \<notin> {PROCESS_EXIT_OUTCOME_SUCCESS, PROCESS_EXIT_OUTCOME_FAILURE}
      then (s, Inl StreamOutcome)
      else encodeLocked marshal (Envelope_ProcessExit outcome) sentAt s)"

definition EncodeAttachmentTransferStatus ::
    "marshal \<Rightarrow> bytes \<Rightarrow> enum32 \<Rightarrow> u64 \<Rightarrow> time \<Rightarrow> AgentStream \<Rightarrow> encoding" where
  "EncodeAttachmentTransferStatus marshal transferID disposition nextOffsetBytes sentAt s =
     (if \<not> s_attachmentTransfer s then (s, Inl StreamTransferNotNegotiated)
      else if s_sessionResume s \<and> \<not> s_sessionBound s then (s, Inl StreamUnbound)
      else if \<not> validAttachmentTransferID transferID then (s, Inl StreamTransferMetadata)
      else if disposition \<noteq> TRANSFER_DISPOSITION_ACTIVE \<and>
              disposition \<notin> {TRANSFER_DISPOSITION_UNKNOWN, TRANSFER_DISPOSITION_COMPLETED,
                              TRANSFER_DISPOSITION_CANCELLED}
      then (s, Inl StreamDisposition)
      else if disposition \<noteq> TRANSFER_DISPOSITION_ACTIVE \<and> nextOffsetBytes \<noteq> 0
      then (s, Inl StreamOffset)
      else encodeLocked marshal
        (Envelope_AttachmentTransferStatus
          \<lparr>ts_TransferId = transferID, ts_Disposition = disposition,
           ts_NextOffsetBytes = nextOffsetBytes\<rparr>) sentAt s)"

definition EncodeAttachmentPromptPreview ::
    "marshal \<Rightarrow> bytes \<Rightarrow> enum32 \<Rightarrow> string \<Rightarrow> bool \<Rightarrow> time \<Rightarrow> AgentStream \<Rightarrow> encoding" where
  "EncodeAttachmentPromptPreview marshal actionID disposition preview appendEnter sentAt s =
     (if \<not> s_attachmentPromptAction s then (s, Inl StreamPromptNotNegotiated)
      else if s_sessionResume s \<and> \<not> s_sessionBound s then (s, Inl StreamUnbound)
      else if \<not> validAttachmentPromptActionID actionID then (s, Inl StreamPromptMetadata)
      else if disposition = PROMPT_DISPOSITION_PREPARED \<and>
              (preview = '''' \<or> length preview > MaxAttachmentPromptPreviewBytes)
      then (s, Inl StreamPreview)
      else if disposition = PROMPT_DISPOSITION_COMMITTED \<and> (preview \<noteq> '''' \<or> appendEnter)
      then (s, Inl StreamPreview)
      else if disposition \<noteq> PROMPT_DISPOSITION_PREPARED \<and> disposition \<noteq> PROMPT_DISPOSITION_COMMITTED
      then (s, Inl StreamDisposition)
      else encodeLocked marshal
        (Envelope_AttachmentPromptPreview
          \<lparr>pv_ActionId = actionID, pv_Disposition = disposition, pv_Preview = preview,
           pv_AppendEnter = appendEnter\<rparr>) sentAt s)"

definition EncodeError :: "marshal \<Rightarrow> enum32 \<Rightarrow> time \<Rightarrow> AgentStream \<Rightarrow> encoding" where
  "EncodeError marshal code sentAt s =
     (if \<not> s_controlError s then (s, Inl StreamErrorNotNegotiated)
      else if code \<notin> {ERROR_CODE_SESSION_START_FAILED, ERROR_CODE_SESSION_ALREADY_ACTIVE,
                      ERROR_CODE_TERMINAL_INPUT_FAILED, ERROR_CODE_TERMINAL_RESIZE_FAILED,
                      ERROR_CODE_UNSUPPORTED_MESSAGE, ERROR_CODE_ATTACHMENT_TRANSFER_FAILED,
                      ERROR_CODE_ATTACHMENT_PROMPT_ACTION_FAILED}
      then (s, Inl StreamErrorCode)
      else if s_sessionResume s \<and> \<not> s_sessionBound s \<and> code \<noteq> ERROR_CODE_SESSION_START_FAILED
              \<and> code \<noteq> ERROR_CODE_SESSION_ALREADY_ACTIVE
      then (s, Inl StreamErrorBeforeBind)
      else encodeLocked marshal (Envelope_Error code) sentAt s)"

definition EncodePong :: "marshal \<Rightarrow> time \<Rightarrow> AgentStream \<Rightarrow> encoding" where
  "EncodePong marshal sentAt s =
     (if \<not> s_controlHealth s then (s, Inl StreamHealthNotNegotiated)
      else if s_sessionResume s \<and> \<not> s_sessionBound s then (s, Inl StreamUnbound)
      else if s_pendingPingSequences s = [] then (s, Inl StreamNoPing)
      else case encodeLocked marshal Envelope_Pong sentAt s of
        (s', Inl e) \<Rightarrow> (s', Inl e)
      | (s', Inr encoded) \<Rightarrow>
          (s'\<lparr>s_pendingPingSequences := tl (s_pendingPingSequences s')\<rparr>, Inr encoded))"

definition EncodeAcknowledgement :: "marshal \<Rightarrow> time \<Rightarrow> AgentStream \<Rightarrow> encoding" where
  "EncodeAcknowledgement marshal sentAt s = encodeLocked marshal Envelope_Acknowledgement sentAt s"

definition UsesControlHealth :: "AgentStream \<Rightarrow> bool" where
  "UsesControlHealth s = s_controlHealth s"

definition UsesControlError :: "AgentStream \<Rightarrow> bool" where
  "UsesControlError s = s_controlError s"

definition UsesSessionProcessExit :: "AgentStream \<Rightarrow> bool" where
  "UsesSessionProcessExit s = s_sessionProcessExit s"

definition UsesTerminalResizeEnd :: "AgentStream \<Rightarrow> bool" where
  "UsesTerminalResizeEnd s = s_terminalResizeEnd s"

definition UsesSessionResume :: "AgentStream \<Rightarrow> bool" where
  "UsesSessionResume s = s_sessionResume s"

definition HighestOutboundSequence :: "AgentStream \<Rightarrow> u64" where
  "HighestOutboundSequence s = s_nextOutbound s - 1"

section \<open>Calls\<close>

text \<open>A connection is driven by calls to the stream, in any order the goroutines make them.\<close>

datatype stream_call =
    CDecode bytes
  | CCommit ClientStreamMessage
  | COutput bytes time
  | COutputChunk bytes time
  | CBind bytes u64
  | CSessionStatus enum32 time
  | CProcessExit enum32 time
  | CTransferStatus bytes enum32 u64 time
  | CPromptPreview bytes enum32 string bool time
  | CError enum32 time
  | CPong time
  | CAcknowledgement time

datatype stream_result =
    RFailed stream_error
  | RMessage ClientStreamMessage
  | RCommitted ClientStreamMessage
  | RBound
  | REncoded bytes

definition encoded_result :: "encoding \<Rightarrow> AgentStream \<times> stream_result" where
  "encoded_result r = (fst r, case snd r of Inl e \<Rightarrow> RFailed e | Inr b \<Rightarrow> REncoded b)"

fun stream_step ::
    "marshal \<Rightarrow> unmarshal \<Rightarrow> AgentStream \<Rightarrow> stream_call \<Rightarrow> AgentStream \<times> stream_result" where
  "stream_step marshal unmarshal s (CDecode b) =
     (let (s', r) = DecodeClientMessage unmarshal b s
      in (s', case r of Inl e \<Rightarrow> RFailed e | Inr m \<Rightarrow> RMessage m))"
| "stream_step marshal unmarshal s (CCommit m) =
     (let (s', r) = CommitClientMessage m s
      in (s', case r of Some e \<Rightarrow> RFailed e | None \<Rightarrow> RCommitted m))"
| "stream_step marshal unmarshal s (COutput d t) = encoded_result (EncodeTerminalOutput marshal d t s)"
| "stream_step marshal unmarshal s (COutputChunk d t) =
     (let (s', r) = EncodeTerminalOutputChunk marshal d t s
      in (s', case r of Inl e \<Rightarrow> RFailed e | Inr (b, n) \<Rightarrow> REncoded b))"
| "stream_step marshal unmarshal s (CBind i g) =
     (let (s', r) = BindSession i g s
      in (s', case r of Some e \<Rightarrow> RFailed e | None \<Rightarrow> RBound))"
| "stream_step marshal unmarshal s (CSessionStatus d t) =
     encoded_result (EncodeSessionStatus marshal d t s)"
| "stream_step marshal unmarshal s (CProcessExit x t) =
     encoded_result (EncodeProcessExit marshal x t s)"
| "stream_step marshal unmarshal s (CTransferStatus i d n t) =
     encoded_result (EncodeAttachmentTransferStatus marshal i d n t s)"
| "stream_step marshal unmarshal s (CPromptPreview i d p a t) =
     encoded_result (EncodeAttachmentPromptPreview marshal i d p a t s)"
| "stream_step marshal unmarshal s (CError c t) = encoded_result (EncodeError marshal c t s)"
| "stream_step marshal unmarshal s (CPong t) = encoded_result (EncodePong marshal t s)"
| "stream_step marshal unmarshal s (CAcknowledgement t) =
     encoded_result (EncodeAcknowledgement marshal t s)"

end
