(* ===== verification/Stream_Order.thy ===== *)
theory Stream_Order
  imports Agent_Stream
begin

text \<open>
  What the connection stream promises: outbound envelopes are numbered without gaps and never
  exceed the peer's limit, inbound messages are accepted and committed one sequence number at a
  time, only what was negotiated crosses the stream, a Pong answers a committed Ping, a session
  is bound once, and the chunk search finds the longest prefix that fits.
\<close>

section \<open>Single calls\<close>

lemma terminalOutputEnvelope_locked:
  "terminalOutputEnvelope s d t = locked_envelope s (Envelope_TerminalOutput d) t"
  by (simp add: terminalOutputEnvelope_def locked_envelope_def)

text \<open>Which payloads may leave the stream in a state.\<close>

definition session_ready :: "AgentStream \<Rightarrow> bool" where
  "session_ready s \<longleftrightarrow> (s_sessionResume s \<longrightarrow> s_sessionBound s)"

fun sendable :: "AgentStream \<Rightarrow> payload \<Rightarrow> bool" where
  "sendable s (Envelope_TerminalOutput d) \<longleftrightarrow> d \<noteq> [] \<and> session_ready s"
| "sendable s (Envelope_SessionStatus d) \<longleftrightarrow> s_sessionResume s \<and> s_sessionBound s"
| "sendable s (Envelope_ProcessExit x) \<longleftrightarrow> s_sessionProcessExit s \<and> session_ready s"
| "sendable s (Envelope_AttachmentTransferStatus x) \<longleftrightarrow> s_attachmentTransfer s \<and> session_ready s"
| "sendable s (Envelope_AttachmentPromptPreview x) \<longleftrightarrow> s_attachmentPromptAction s \<and> session_ready s"
| "sendable s (Envelope_Error c) \<longleftrightarrow>
     s_controlError s \<and> (session_ready s \<or> c = ERROR_CODE_SESSION_START_FAILED
                          \<or> c = ERROR_CODE_SESSION_ALREADY_ACTIVE)"
| "sendable s Envelope_Pong \<longleftrightarrow> s_controlHealth s \<and> session_ready s \<and> s_pendingPingSequences s \<noteq> []"
| "sendable s Envelope_Acknowledgement \<longleftrightarrow> True"
| "sendable s _ \<longleftrightarrow> False"

lemma chunk_search_result:
  "chunk_search enc low high best = (b, n) \<Longrightarrow> 1 \<le> low \<Longrightarrow>
     (b, n) = best \<or> enc n = Inr b \<and> low \<le> int n \<and> int n \<le> high"
proof (induction enc low high best rule: chunk_search.induct)
  case (1 enc low high best)
  show ?case
  proof (cases "low \<le> high")
    case True
    let ?m = "low + (high - low) div 2"
    have m: "low \<le> ?m" "?m \<le> high" using True by auto
    show ?thesis
    proof (cases "enc (nat ?m)")
      case (Inl e)
      then have "chunk_search enc low (?m - 1) best = (b, n)"
        using 1(3) True by (simp add: chunk_search.simps [of enc low high] Let_def)
      from 1(1) [OF True refl Inl this 1(4)] show ?thesis using m by auto
    next
      case (Inr x)
      then have "chunk_search enc (?m + 1) high (x, nat ?m) = (b, n)"
        using 1(3) True by (simp add: chunk_search.simps [of enc low high] Let_def)
      from 1(2) [OF True refl Inr this] show ?thesis using m Inr 1(4) by auto
    qed
  next
    case False
    then show ?thesis using 1(3) by (simp add: chunk_search.simps [of enc low high] Let_def)
  qed
qed

lemma chunk_Inr:
  assumes "EncodeTerminalOutputChunk marshal data t s = (s', Inr (b, n))"
  shows "1 \<le> n" "n \<le> length data" "session_ready s"
    "marshalLocked marshal s (terminalOutputEnvelope s (take n data) t) = Inr b"
    "s' = s\<lparr>s_nextOutbound := s_nextOutbound s + 1\<rparr>"
proof -
  let ?enc = "\<lambda>m. marshalLocked marshal s (terminalOutputEnvelope s (take m data) t)"
  obtain b' n' where cs: "chunk_search ?enc 1 (int (length data)) ([], 0) = (b', n')" by fastforce
  with assms have bn: "n' \<noteq> 0" "b' = b" "n' = n" and s': "s' = s\<lparr>s_nextOutbound := s_nextOutbound s + 1\<rparr>"
    and ready: "session_ready s"
    by (auto simp: EncodeTerminalOutputChunk_def session_ready_def split: if_splits)
  from chunk_search_result [OF cs] bn
  show "1 \<le> n" "n \<le> length data" "?enc n = Inr b" by auto
  show "session_ready s" "s' = s\<lparr>s_nextOutbound := s_nextOutbound s + 1\<rparr>" by fact+
qed

lemma chunk_Inl:
  "EncodeTerminalOutputChunk marshal data t s = (s', Inl e) \<Longrightarrow> s' = s"
  by (auto simp: EncodeTerminalOutputChunk_def split: if_splits prod.splits)

lemma encodeLocked_cases:
  obtains e where "encodeLocked marshal p t s = (s, Inl e)"
  | b where "encodeLocked marshal p t s = (s\<lparr>s_nextOutbound := s_nextOutbound s + 1\<rparr>, Inr b)"
      "marshalLocked marshal s (locked_envelope s p t) = Inr b"
  by (cases "marshalLocked marshal s (locked_envelope s p t)") (auto simp: encodeLocked_def)

text \<open>
  A call that encodes sends one envelope with the next sequence number and a payload the state
  allows, and moves nothing but the outbound counter and, for a Pong, the pending Pings.
\<close>

definition sends :: "marshal \<Rightarrow> AgentStream \<Rightarrow> stream_call \<Rightarrow> AgentStream \<Rightarrow> bytes \<Rightarrow> bool" where
  "sends marshal s c s' b \<longleftrightarrow>
     (\<exists>p t. sendable s p \<and> marshalLocked marshal s (locked_envelope s p t) = Inr b \<and>
        (p = Envelope_Pong \<longleftrightarrow> (\<exists>t. c = CPong t)) \<and>
        s' = s\<lparr>s_nextOutbound := s_nextOutbound s + 1,
               s_pendingPingSequences :=
                 (if p = Envelope_Pong then tl (s_pendingPingSequences s)
                  else s_pendingPingSequences s)\<rparr>)"

lemma encodeLocked_sends:
  "encodeLocked marshal p t s = (s', Inr b) \<Longrightarrow> sendable s p \<Longrightarrow> p \<noteq> Envelope_Pong \<Longrightarrow>
   \<forall>t. c \<noteq> CPong t \<Longrightarrow> sends marshal s c s' b"
  by (cases rule: encodeLocked_cases [of marshal p t s])
     (auto simp: sends_def intro!: exI [of _ p] exI [of _ t])

lemma encoded_result_Inl [simp]: "encoded_result (s, Inl e) = (s, RFailed e)"
  by (simp add: encoded_result_def)

lemma encoded_result_encoded: "encoded_result r = (s', REncoded b) \<longleftrightarrow> r = (s', Inr b)"
  by (cases r) (auto simp: encoded_result_def split: sum.splits)

lemma encoded_sends:
  "encoded_result (encodeLocked marshal p t s) = (s', REncoded b) \<Longrightarrow> sendable s p \<Longrightarrow>
   p \<noteq> Envelope_Pong \<Longrightarrow> \<forall>t. c \<noteq> CPong t \<Longrightarrow> sends marshal s c s' b"
  by (rule encodeLocked_sends) (simp_all add: encoded_result_encoded)

lemmas encoder_defs =
  EncodeTerminalOutput_def EncodeSessionStatus_def EncodeProcessExit_def
  EncodeAttachmentTransferStatus_def EncodeAttachmentPromptPreview_def EncodeError_def
  EncodeAcknowledgement_def

lemma step_REncoded:
  assumes "stream_step marshal unmarshal s c = (s', REncoded b)"
  shows "sends marshal s c s' b"
proof (cases c)
  case (COutputChunk d t)
  then obtain n where "EncodeTerminalOutputChunk marshal d t s = (s', Inr (b, n))"
    using assms by (auto split: prod.splits sum.splits)
  from chunk_Inr [OF this] show ?thesis
    using COutputChunk
    by (auto simp: sends_def terminalOutputEnvelope_locked
        intro!: exI [of _ "Envelope_TerminalOutput (take n d)"] exI [of _ t])
next
  case (COutput d t)
  then have "encodeLocked marshal (Envelope_TerminalOutput d) t s = (s', Inr b)"
    and "d \<noteq> [] \<and> session_ready s"
    using assms
    by (auto simp: encoded_result_def EncodeTerminalOutput_def encodeLocked_def session_ready_def
        terminalOutputEnvelope_locked split: if_splits sum.splits)
  then show ?thesis
    using COutput by (intro encodeLocked_sends [of marshal "Envelope_TerminalOutput d" t]) simp_all
next
  case (CPong t)
  then have r: "EncodePong marshal t s = (s', Inr b)"
    using assms by (auto simp: encoded_result_def prod_eq_iff split: sum.splits)
  then show ?thesis
    by (cases rule: encodeLocked_cases [of marshal Envelope_Pong t s])
       (auto simp: CPong EncodePong_def sends_def session_ready_def split: if_splits
         intro!: exI [of _ Envelope_Pong] exI [of _ t])
qed (use assms in \<open>auto simp: encoder_defs session_ready_def elim!: encoded_sends
       split: if_splits sum.splits prod.splits option.splits\<close>)

lemma step_RFailed: "stream_step marshal unmarshal s c = (s', RFailed e) \<Longrightarrow> s' = s"
proof (cases c)
  case (COutputChunk d t)
  then show "stream_step marshal unmarshal s c = (s', RFailed e) \<Longrightarrow> s' = s"
    by (auto split: prod.splits sum.splits dest: chunk_Inl)
qed (auto simp: encoded_result_def encoder_defs EncodePong_def encodeLocked_def
       DecodeClientMessage_def CommitClientMessage_def BindSession_def
       split: if_splits sum.splits prod.splits option.splits)

text \<open>A call that returns a message has checked its envelope against the counters.\<close>

definition inbound_ok :: "AgentStream \<Rightarrow> Envelope \<Rightarrow> bool" where
  "inbound_ok s e \<longleftrightarrow>
     env_ProtocolMajor e = CurrentMajor \<and> env_ProtocolMinor e = CurrentMinor \<and>
     env_ConnectionId e = s_connectionID s \<and> env_Sequence e = s_nextInbound s \<and>
     s_highestPeerAck s \<le> env_Acknowledge e \<and> env_Acknowledge e < s_nextOutbound s \<and>
     env_SessionId e =
       (if s_sessionResume s \<and> \<not> s_sessionBound s then env_SessionId e
        else if s_sessionResume s then s_sessionID s else []) \<and>
     env_SessionGeneration e =
       (if s_sessionResume s \<and> \<not> s_sessionBound s then env_SessionGeneration e
        else if s_sessionResume s then s_sessionGeneration s else 0)"

lemma validate_None: "validateInboundEnvelope s e = None \<Longrightarrow> inbound_ok s e"
  by (auto simp: validateInboundEnvelope_def inbound_ok_def Let_def simp del: GetAttachSession.simps
      split: if_splits option.splits)

lemma decode_sequence: "decode_payload s e = Inr m \<Longrightarrow> m_Sequence m = env_Sequence e"
  by (auto simp: decode_payload_def attachment_payload_def prompt_payload_def Let_def
      split: payload.splits if_splits sum.splits)

lemma step_RMessage:
  assumes "stream_step marshal unmarshal s c = (s', RMessage m)"
  obtains b e where "c = CDecode b" "unmarshal b = Some e" "validateInboundEnvelope s e = None"
    "decode_payload s e = Inr m" "s' = s\<lparr>s_highestPeerAck := env_Acknowledge e\<rparr>"
  using assms
  by (cases c) (auto simp: encoded_result_def DecodeClientMessage_def
      split: if_splits sum.splits prod.splits option.splits)

lemma step_RCommitted:
  assumes "stream_step marshal unmarshal s c = (s', RCommitted m)"
  shows "c = CCommit m" "m_Sequence m = s_nextInbound s"
    "s' = s\<lparr>s_highestInbound := s_nextInbound s, s_nextInbound := s_nextInbound s + 1,
       s_pendingPingSequences :=
         (if m_Kind m = KindPing then s_pendingPingSequences s @ [m_Sequence m]
          else s_pendingPingSequences s)\<rparr>"
  using assms
  by (cases c; auto simp: encoded_result_def CommitClientMessage_def
      split: if_splits sum.splits prod.splits option.splits)+

lemma step_RBound:
  assumes "stream_step marshal unmarshal s c = (s', RBound)"
  obtains i g where "c = CBind i g" "s_sessionResume s" "\<not> s_sessionBound s" "length i = 16" "g \<noteq> 0"
    "2 \<le> s_highestInbound s"
    "s' = s\<lparr>s_sessionID := i, s_sessionGeneration := g, s_sessionBound := True\<rparr>"
  using assms
  by (cases c) (auto simp: encoded_result_def BindSession_def not_less
      split: if_splits sum.splits prod.splits option.splits)

text \<open>The five kinds of step, for case analysis.\<close>

lemma stream_step_cases:
  obtains
    (failed) e where "stream_step marshal unmarshal s c = (s, RFailed e)"
  | (sent) s' b where "stream_step marshal unmarshal s c = (s', REncoded b)" "sends marshal s c s' b"
  | (message) b e m where
      "stream_step marshal unmarshal s c = (s\<lparr>s_highestPeerAck := env_Acknowledge e\<rparr>, RMessage m)"
      "c = CDecode b" "unmarshal b = Some e" "validateInboundEnvelope s e = None"
      "decode_payload s e = Inr m"
  | (committed) m where
      "stream_step marshal unmarshal s c =
         (s\<lparr>s_highestInbound := s_nextInbound s, s_nextInbound := s_nextInbound s + 1,
            s_pendingPingSequences :=
              (if m_Kind m = KindPing then s_pendingPingSequences s @ [m_Sequence m]
               else s_pendingPingSequences s)\<rparr>, RCommitted m)"
      "c = CCommit m" "m_Sequence m = s_nextInbound s"
  | (bound) i g where
      "stream_step marshal unmarshal s c =
         (s\<lparr>s_sessionID := i, s_sessionGeneration := g, s_sessionBound := True\<rparr>, RBound)"
      "c = CBind i g" "s_sessionResume s" "\<not> s_sessionBound s" "length i = 16" "g \<noteq> 0"
proof -
  obtain s' r where st: "stream_step marshal unmarshal s c = (s', r)" by fastforce
  show thesis
  proof (cases r)
    case (RFailed e)
    with st show ?thesis using step_RFailed failed by metis
  next
    case (RMessage m)
    show ?thesis
      by (rule step_RMessage [OF st [unfolded RMessage]]) (use st RMessage in \<open>auto intro: message\<close>)
  next
    case (RCommitted m)
    from step_RCommitted [OF st [unfolded RCommitted]] st RCommitted show ?thesis
      by (intro committed [of m]) simp_all
  next
    case RBound
    show ?thesis
      by (rule step_RBound [OF st [unfolded RBound]]) (use st RBound in \<open>auto intro: bound\<close>)
  next
    case (REncoded b)
    with st show ?thesis using step_REncoded sent by metis
  qed
qed

section \<open>Counters\<close>

abbreviation is_encoded :: "stream_call \<Rightarrow> stream_result \<Rightarrow> bool" where
  "is_encoded c r \<equiv> \<exists>b. r = REncoded b"

abbreviation is_committed :: "stream_call \<Rightarrow> stream_result \<Rightarrow> bool" where
  "is_committed c r \<equiv> \<exists>m. r = RCommitted m"

interpretation outbound: counter "stream_step marshal unmarshal" s_nextOutbound is_encoded
  for marshal unmarshal
proof
  fix s c
  show "s_nextOutbound (fst (stream_step marshal unmarshal s c)) =
    (if \<exists>b. snd (stream_step marshal unmarshal s c) = REncoded b then s_nextOutbound s + 1
     else s_nextOutbound s)"
    by (cases rule: stream_step_cases [of marshal unmarshal s c]) (auto simp: sends_def)
qed

interpretation inbound: counter "stream_step marshal unmarshal" s_nextInbound is_committed
  for marshal unmarshal
proof
  fix s c
  show "s_nextInbound (fst (stream_step marshal unmarshal s c)) =
    (if \<exists>m. snd (stream_step marshal unmarshal s c) = RCommitted m then s_nextInbound s + 1
     else s_nextInbound s)"
    by (cases rule: stream_step_cases [of marshal unmarshal s c]) (auto simp: sends_def)
qed

section \<open>What never changes\<close>

definition stream_inv :: "NegotiatedHello \<Rightarrow> AgentStream \<Rightarrow> bool" where
  "stream_inv n s \<longleftrightarrow>
     s_connectionID s = n_ConnectionID n \<and> s_peerMaxEnvelopeSize s = n_PeerMaxEnvelopeBytes n \<and>
     s_sessionResume s = HasCapability n CapabilitySessionResume \<and>
     s_terminalResizeEnd s = HasCapability n CapabilityTerminalResizeEnd \<and>
     s_sessionProcessExit s = HasCapability n CapabilitySessionProcessExit \<and>
     s_controlError s = HasCapability n CapabilityControlError \<and>
     s_controlHealth s = HasCapability n CapabilityControlHealth \<and>
     s_attachmentTransfer s = HasCapability n CapabilityAttachmentTransfer \<and>
     s_attachmentPromptAction s = HasCapability n CapabilityAttachmentPromptAction \<and>
     s_highestInbound s + 1 = s_nextInbound s \<and>
     (if s_sessionBound s
      then HasCapability n CapabilitySessionResume \<and> length (s_sessionID s) = 16 \<and> s_sessionGeneration s \<noteq> 0
      else s_sessionID s = [] \<and> s_sessionGeneration s = 0)"

lemma stream_inv_step:
  assumes "stream_inv n s"
  shows "stream_inv n (fst (stream_step marshal unmarshal s c))"
proof (cases rule: stream_step_cases [of marshal unmarshal s c])
  case (sent s' b)
  obtain p t where "s' = s\<lparr>s_nextOutbound := s_nextOutbound s + 1, s_pendingPingSequences :=
      (if p = Envelope_Pong then tl (s_pendingPingSequences s) else s_pendingPingSequences s)\<rparr>"
    using sent(2) unfolding sends_def by blast
  with sent(1) show ?thesis using assms by (cases "s_sessionBound s") (simp_all add: stream_inv_def)
qed (use assms in \<open>cases "s_sessionBound s"; simp add: stream_inv_def\<close>)+

interpretation stream: step_machine "stream_step marshal unmarshal" "stream_inv n" "\<lambda>_. True"
  for marshal unmarshal n
  by unfold_locales (rule stream_inv_step)

lemma stream_inv_run:
  "stream_inv n s \<Longrightarrow> stream_inv n (fst (run (stream_step marshal unmarshal) s cs))"
  by (rule stream.run_inv) (simp_all add: list_all_iff)

lemma NewAgentStream_Inr:
  assumes "NewAgentStream n = Inr s"
  shows "stream_inv n s" "s_nextOutbound s = 2" "s_nextInbound s = 2" "\<not> s_sessionBound s"
    "s_pendingPingSequences s = []"
  using assms by (auto simp: NewAgentStream_def stream_inv_def split: if_splits)

lemma marshalLocked_Inr:
  "marshalLocked marshal s e = Inr b \<longleftrightarrow>
     marshal e = Some b \<and> length b \<le> unat (min MaxEnvelopeBytes (s_peerMaxEnvelopeSize s))"
  by (auto simp: marshalLocked_def split: option.splits)

section \<open>Ordering\<close>

text \<open>The state a run has reached before its \<open>i\<close>-th call, and the result of that call.\<close>

lemma stream_position:
  assumes "NewAgentStream n = Inr s0" "i < length cs"
    and "rs = snd (run (stream_step marshal unmarshal) s0 cs)"
  obtains s where "stream_inv n s" "rs ! i = snd (stream_step marshal unmarshal s (cs ! i))"
    "s_nextOutbound s = 2 + of_nat (tally is_encoded (take i cs) (take i rs))"
    "s_nextInbound s = 2 + of_nat (tally is_committed (take i cs) (take i rs))"
    "s_highestInbound s = 1 + of_nat (tally is_committed (take i cs) (take i rs))"
    "s = fst (run (stream_step marshal unmarshal) s0 (take i cs))"
proof -
  let ?f = "stream_step marshal unmarshal" and ?s = "fst (run (stream_step marshal unmarshal) s0 (take i cs))"
  note new = NewAgentStream_Inr [OF assms(1)]
  have inv: "stream_inv n ?s" by (rule stream_inv_run) (rule new(1))
  have out: "s_nextOutbound ?s = 2 + of_nat (tally is_encoded (take i cs) (take i rs))"
    using outbound.run_reading_take [of marshal unmarshal s0 i cs] by (simp add: assms(3) new)
  have inn: "s_nextInbound ?s = 2 + of_nat (tally is_committed (take i cs) (take i rs))"
    using inbound.run_reading_take [of marshal unmarshal s0 i cs] by (simp add: assms(3) new)
  have "s_highestInbound ?s + 1 = s_nextInbound ?s" using inv by (simp add: stream_inv_def)
  then have "s_highestInbound ?s = s_nextInbound ?s - 1" by (simp add: eq_diff_eq)
  then have ack: "s_highestInbound ?s = 1 + of_nat (tally is_committed (take i cs) (take i rs))"
    unfolding inn by simp
  have r: "rs ! i = snd (?f ?s (cs ! i))"
    using snd_run_nth [OF assms(2), of ?f s0] by (simp add: assms(3))
  show thesis by (rule that [OF inv r out inn ack refl])
qed

text \<open>
  C12. Outbound ordering. In any sequence of calls on a new stream, whatever messages the peer
  sends, the k-th envelope that is encoded carries sequence number k + 1 (the Hello was 1),
  acknowledges exactly the inbound messages committed before it, names the negotiated connection
  and version, and its encoding fits both the 64 KiB limit and the limit the peer announced.
\<close>

theorem outbound_sequenced:
  assumes "NewAgentStream n = Inr s0" "i < length cs"
    and "rs = snd (run (stream_step marshal unmarshal) s0 cs)" "rs ! i = REncoded b"
  shows "\<exists>e. marshal e = Some b \<and>
    env_Sequence e = 2 + of_nat (tally is_encoded (take i cs) (take i rs)) \<and>
    env_Acknowledge e = 1 + of_nat (tally is_committed (take i cs) (take i rs)) \<and>
    env_ConnectionId e = n_ConnectionID n \<and> env_ProtocolMajor e = 1 \<and> env_ProtocolMinor e = 0 \<and>
    length b \<le> unat MaxEnvelopeBytes \<and> length b \<le> unat (n_PeerMaxEnvelopeBytes n)"
proof -
  obtain s where s: "stream_inv n s" "rs ! i = snd (stream_step marshal unmarshal s (cs ! i))"
    "s_nextOutbound s = 2 + of_nat (tally is_encoded (take i cs) (take i rs))"
    "s_highestInbound s = 1 + of_nat (tally is_committed (take i cs) (take i rs))"
    by (rule stream_position [OF assms(1-3)])
  have "sends marshal s (cs ! i) (fst (stream_step marshal unmarshal s (cs ! i))) b"
    using s(2) assms(4) by (intro step_REncoded) (simp add: prod_eq_iff)
  then obtain p t where "marshalLocked marshal s (locked_envelope s p t) = Inr b"
    by (auto simp: sends_def)
  moreover have "s_connectionID s = n_ConnectionID n" "s_peerMaxEnvelopeSize s = n_PeerMaxEnvelopeBytes n"
    using s(1) by (simp_all add: stream_inv_def)
  ultimately show ?thesis
    using s(3,4)
    by (intro exI [of _ "locked_envelope s p t"])
       (auto simp: marshalLocked_Inr locked_envelope_def min_def word_le_nat_alt split: if_splits)
qed

text \<open>
  C11. Inbound ordering. In any sequence of calls on a new stream, a message is handed to the
  caller, and a message is committed, only with the sequence number that follows the messages
  committed so far, so each number is committed exactly once and in order and a replayed or
  reordered envelope is refused; the envelope of a returned message belongs to the negotiated
  connection and acknowledges only envelopes that were sent.
\<close>

theorem inbound_in_order:
  assumes "NewAgentStream n = Inr s0" "i < length cs"
    and "rs = snd (run (stream_step marshal unmarshal) s0 cs)"
  shows "(\<forall>m. rs ! i = RCommitted m \<longrightarrow>
      m_Sequence m = 2 + of_nat (tally is_committed (take i cs) (take i rs))) \<and>
    (\<forall>m. rs ! i = RMessage m \<longrightarrow>
      (\<exists>b e. cs ! i = CDecode b \<and> unmarshal b = Some e \<and> env_ConnectionId e = n_ConnectionID n \<and>
        env_Sequence e = m_Sequence m \<and>
        m_Sequence m = 2 + of_nat (tally is_committed (take i cs) (take i rs)) \<and>
        env_Acknowledge e < 2 + of_nat (tally is_encoded (take i cs) (take i rs))))"
proof -
  obtain s where s: "stream_inv n s" "rs ! i = snd (stream_step marshal unmarshal s (cs ! i))"
    "s_nextOutbound s = 2 + of_nat (tally is_encoded (take i cs) (take i rs))"
    "s_nextInbound s = 2 + of_nat (tally is_committed (take i cs) (take i rs))"
    by (rule stream_position [OF assms(1-3)])
  have "s_connectionID s = n_ConnectionID n" using s(1) by (simp add: stream_inv_def)
  then show ?thesis
  proof (cases rule: stream_step_cases [of marshal unmarshal s "cs ! i"])
    case (message b e m)
    then have "inbound_ok s e" "m_Sequence m = env_Sequence e"
      by (simp_all add: validate_None decode_sequence)
    then show ?thesis
      using message(1-3) s(2-4) \<open>s_connectionID s = n_ConnectionID n\<close> by (simp add: inbound_ok_def)
  qed (use s(2,4) in simp_all)
qed

section \<open>Only what was negotiated\<close>

text \<open>What a message the stream returns may look like, for a connection that negotiated \<open>n\<close>.\<close>

definition transfer_message_ok :: "NegotiatedHello \<Rightarrow> ClientStreamMessage \<Rightarrow> bool" where
  "transfer_message_ok n m \<longleftrightarrow>
     HasCapability n CapabilityAttachmentTransfer \<and> validAttachmentTransferID (m_TransferID m)"

definition action_message_ok :: "NegotiatedHello \<Rightarrow> ClientStreamMessage \<Rightarrow> bool" where
  "action_message_ok n m \<longleftrightarrow>
     HasCapability n CapabilityAttachmentPromptAction \<and> validAttachmentPromptActionID (m_ActionID m)"

fun message_ok :: "NegotiatedHello \<Rightarrow> ClientStreamMessageKind \<Rightarrow> ClientStreamMessage \<Rightarrow> bool" where
  "message_ok n KindZero m \<longleftrightarrow> False"
| "message_ok n KindAttachSession m \<longleftrightarrow> HasCapability n CapabilitySessionResume"
| "message_ok n KindTerminalInput m \<longleftrightarrow> m_Data m \<noteq> [] \<and> length (m_Data m) \<le> MaxTerminalInputBytes"
| "message_ok n KindTerminalResize m \<longleftrightarrow> HasCapability n CapabilityTerminalResizeEnd \<and>
     m_Columns m \<noteq> 0 \<and> m_Columns m \<le> MaxTerminalDimension \<and>
     m_Rows m \<noteq> 0 \<and> m_Rows m \<le> MaxTerminalDimension"
| "message_ok n KindEndSession m \<longleftrightarrow> HasCapability n CapabilityTerminalResizeEnd"
| "message_ok n KindAcknowledgement m \<longleftrightarrow> True"
| "message_ok n KindPing m \<longleftrightarrow> HasCapability n CapabilityControlHealth"
| "message_ok n KindAttachmentBegin m \<longleftrightarrow> transfer_message_ok n m \<and> m_TotalSizeBytes m \<noteq> 0 \<and>
     length (m_TotalSHA256 m) = sha256_Size"
| "message_ok n KindAttachmentChunk m \<longleftrightarrow> transfer_message_ok n m \<and> m_Data m \<noteq> [] \<and>
     length (m_ChunkSHA256 m) = sha256_Size"
| "message_ok n KindAttachmentComplete m \<longleftrightarrow> transfer_message_ok n m"
| "message_ok n KindAttachmentCancel m \<longleftrightarrow> transfer_message_ok n m"
| "message_ok n KindAttachmentTransferStatusRequest m \<longleftrightarrow> transfer_message_ok n m"
| "message_ok n KindAttachmentDiscard m \<longleftrightarrow> HasCapability n CapabilityAttachmentTransfer \<and>
     m_TransferIDs m \<noteq> [] \<and> length (m_TransferIDs m) \<le> maxAttachmentDiscardTransfers \<and>
     list_all validAttachmentTransferID (m_TransferIDs m) \<and> distinct (m_TransferIDs m)"
| "message_ok n KindAttachmentPromptPrepare m \<longleftrightarrow> action_message_ok n m \<and>
     m_TransferIDs m \<noteq> [] \<and> length (m_TransferIDs m) \<le> maxAttachmentPromptTransfers \<and>
     list_all validAttachmentTransferID (m_TransferIDs m) \<and>
     m_Prompt m \<noteq> '''' \<and> length (m_Prompt m) \<le> MaxAttachmentPromptBytes"
| "message_ok n KindAttachmentPromptCommit m \<longleftrightarrow> action_message_ok n m"
| "message_ok n KindAttachmentPromptCancel m \<longleftrightarrow> action_message_ok n m"

lemma discard_ids_Inr:
  "discard_ids seen ts = Inr us \<Longrightarrow>
     us = ts \<and> list_all validAttachmentTransferID ts \<and> distinct ts \<and> set ts \<inter> seen = {}"
  by (induction seen ts arbitrary: us rule: discard_ids.induct)
     (auto split: sum.splits if_splits)

lemma prompt_ids_Inr:
  "prompt_ids ts = Inr us \<Longrightarrow> us = ts \<and> list_all validAttachmentTransferID ts"
  by (induction ts arbitrary: us) (auto split: sum.splits if_splits)

lemma attachment_payload_Inr:
  "attachment_payload s bad r = Inr m \<longleftrightarrow> s_attachmentTransfer s \<and> \<not> bad \<and> r = Inr m"
  by (simp add: attachment_payload_def)

lemma prompt_payload_Inr:
  "prompt_payload s bad r = Inr m \<longleftrightarrow> s_attachmentPromptAction s \<and> \<not> bad \<and> r = Inr m"
  by (simp add: prompt_payload_def)

lemma decode_payload_ok:
  assumes "stream_inv n s" "decode_payload s e = Inr m"
  shows "message_ok n (m_Kind m) m"
proof -
  have caps: "s_sessionResume s = HasCapability n CapabilitySessionResume"
    "s_terminalResizeEnd s = HasCapability n CapabilityTerminalResizeEnd"
    "s_controlHealth s = HasCapability n CapabilityControlHealth"
    "s_attachmentTransfer s = HasCapability n CapabilityAttachmentTransfer"
    "s_attachmentPromptAction s = HasCapability n CapabilityAttachmentPromptAction"
    using assms(1) by (simp_all add: stream_inv_def)
  show ?thesis
    using assms(2)
    by (cases "env_Payload e")
       (auto simp: decode_payload_def Let_def caps attachment_payload_Inr prompt_payload_Inr
        transfer_message_ok_def action_message_ok_def not_less
        dest!: discard_ids_Inr prompt_ids_Inr
        split: if_splits option.splits sum.splits)
qed

lemma decode_attach:
  "decode_payload s e = Inr m \<Longrightarrow>
     m_Kind m = KindAttachSession \<longleftrightarrow> (\<exists>k. env_Payload e = Envelope_AttachSession k)"
  "decode_payload s e = Inr m \<Longrightarrow> env_Payload e = Envelope_AttachSession k \<Longrightarrow> \<not> s_sessionBound s"
  by (cases "env_Payload e";
      auto simp: decode_payload_def Let_def attachment_payload_Inr prompt_payload_Inr
        zero_message_def split: if_splits option.splits sum.splits)+

lemma unbound_attach:
  "validateInboundEnvelope s e = None \<Longrightarrow> s_sessionResume s \<Longrightarrow> \<not> s_sessionBound s \<Longrightarrow>
     \<exists>k. env_Payload e = Envelope_AttachSession k"
  by (cases "env_Payload e")
     (auto simp: validateInboundEnvelope_def Let_def split: if_splits)

lemma bound_step:
  "s_sessionBound (fst (stream_step marshal unmarshal s c)) \<longleftrightarrow>
     s_sessionBound s \<or> snd (stream_step marshal unmarshal s c) = RBound"
  by (cases rule: stream_step_cases [of marshal unmarshal s c]) (auto simp: sends_def)

lemma bound_run:
  "s_sessionBound (fst (run (stream_step marshal unmarshal) s cs)) \<longleftrightarrow>
     s_sessionBound s \<or> RBound \<in> set (snd (run (stream_step marshal unmarshal) s cs))"
  by (induction cs arbitrary: s) (auto simp: bound_step)

text \<open>
  C23. Negotiated messages only. Every message the stream hands to the agent is of a kind whose
  capability the client negotiated and has the shape its consumer relies on: input of 1 to 32768
  bytes, terminal dimensions in 1 to 65535, identifiers of 1 to 64 bytes, 32-byte digests, at
  most ten transfer IDs, distinct ones in a discard. On a resumable connection nothing but an
  AttachSession is accepted until a session is bound, and from then on no second one is.
\<close>

theorem decoded_messages_negotiated:
  assumes "NewAgentStream n = Inr s0" "i < length cs"
    and "rs = snd (run (stream_step marshal unmarshal) s0 cs)" "rs ! i = RMessage m"
  shows "message_ok n (m_Kind m) m \<and>
    (HasCapability n CapabilitySessionResume \<longrightarrow>
      (m_Kind m = KindAttachSession \<longleftrightarrow> RBound \<notin> set (take i rs)))"
proof -
  obtain s where s: "stream_inv n s" "rs ! i = snd (stream_step marshal unmarshal s (cs ! i))"
    "s = fst (run (stream_step marshal unmarshal) s0 (take i cs))"
    by (rule stream_position [OF assms(1-3)])
  have bound: "s_sessionBound s \<longleftrightarrow> RBound \<in> set (take i rs)"
    using bound_run [of marshal unmarshal s0 "take i cs"] NewAgentStream_Inr(4) [OF assms(1)]
    by (simp add: s(3) assms(3) snd_run_take)
  have "stream_step marshal unmarshal s (cs ! i) =
      (fst (stream_step marshal unmarshal s (cs ! i)), RMessage m)"
    using s(2) assms(4) by (simp add: prod_eq_iff)
  then obtain e where e: "validateInboundEnvelope s e = None" "decode_payload s e = Inr m"
    by (rule step_RMessage)
  moreover have "s_sessionResume s = HasCapability n CapabilitySessionResume"
    using s(1) by (simp add: stream_inv_def)
  ultimately show ?thesis
    using decode_payload_ok [OF s(1) e(2)] decode_attach [OF e(2)] unbound_attach [OF e(1)] bound
    by auto
qed

section \<open>Pings, sessions and chunks\<close>

definition pings :: "stream_call \<Rightarrow> stream_result \<Rightarrow> bool" where
  "pings c r \<longleftrightarrow> (\<exists>m. r = RCommitted m \<and> m_Kind m = KindPing)"

definition pongs :: "stream_call \<Rightarrow> stream_result \<Rightarrow> bool" where
  "pongs c r \<longleftrightarrow> (\<exists>t b. c = CPong t \<and> r = REncoded b)"

lemma pending_step:
  "length (s_pendingPingSequences (fst (stream_step marshal unmarshal s c))) +
     (if pongs c (snd (stream_step marshal unmarshal s c)) then 1 else 0) =
   length (s_pendingPingSequences s) +
     (if pings c (snd (stream_step marshal unmarshal s c)) then 1 else 0)"
proof (cases rule: stream_step_cases [of marshal unmarshal s c])
  case (sent s' b)
  obtain p t where p: "sendable s p" "p = Envelope_Pong \<longleftrightarrow> (\<exists>t. c = CPong t)"
    and s': "s_pendingPingSequences s' =
      (if p = Envelope_Pong then tl (s_pendingPingSequences s) else s_pendingPingSequences s)"
    using sent(2) by (auto simp: sends_def)
  have "pongs c (REncoded b) \<longleftrightarrow> p = Envelope_Pong" using p(2) by (simp add: pongs_def)
  moreover have "p = Envelope_Pong \<Longrightarrow> s_pendingPingSequences s \<noteq> []" using p(1) by auto
  ultimately show ?thesis using sent(1) s' by (cases "s_pendingPingSequences s") (auto simp: pings_def)
qed (auto simp: pings_def pongs_def)

text \<open>
  Pongs answer Pings. After any sequence of calls the Pongs encoded and the Pings still
  pending add up to the Pings committed, so no Pong is sent without a committed Ping of its own.
\<close>

theorem pongs_answer_pings:
  "tally pongs cs (snd (run (stream_step marshal unmarshal) s cs)) +
     length (s_pendingPingSequences (fst (run (stream_step marshal unmarshal) s cs))) =
   tally pings cs (snd (run (stream_step marshal unmarshal) s cs)) + length (s_pendingPingSequences s)"
proof (induction cs arbitrary: s)
  case (Cons c cs)
  show ?case
    using Cons.IH [of "fst (stream_step marshal unmarshal s c)"] pending_step [of marshal unmarshal s c]
    by (simp split: if_splits)
qed simp

text \<open>A session is bound at most once, and the binding stays.\<close>

interpretation bind_once: one_shot "stream_step marshal unmarshal" "\<lambda>_. True" "\<lambda>_. True"
  "\<lambda>c r (_ :: unit). r = RBound" "\<lambda>s _. s_sessionBound s" for marshal unmarshal
proof
  fix s c k
  show "snd (stream_step marshal unmarshal s c) = RBound \<Longrightarrow>
      s_sessionBound (fst (stream_step marshal unmarshal s c))"
    "s_sessionBound s \<Longrightarrow> s_sessionBound (fst (stream_step marshal unmarshal s c))"
    by (simp_all add: bound_step)
  show "s_sessionBound s \<Longrightarrow> snd (stream_step marshal unmarshal s c) \<noteq> RBound"
    by (cases rule: stream_step_cases [of marshal unmarshal s c]) auto
qed simp_all

lemma identity_stays:
  "s_sessionBound s \<Longrightarrow>
     s_sessionID (fst (run (stream_step marshal unmarshal) s cs)) = s_sessionID s \<and>
     s_sessionGeneration (fst (run (stream_step marshal unmarshal) s cs)) = s_sessionGeneration s \<and>
     s_sessionResume (fst (run (stream_step marshal unmarshal) s cs)) = s_sessionResume s"
proof (induction cs arbitrary: s)
  case (Cons c cs)
  have "s_sessionID (fst (stream_step marshal unmarshal s c)) = s_sessionID s \<and>
      s_sessionGeneration (fst (stream_step marshal unmarshal s c)) = s_sessionGeneration s \<and>
      s_sessionResume (fst (stream_step marshal unmarshal s c)) = s_sessionResume s"
    using Cons.prems
    by (cases rule: stream_step_cases [of marshal unmarshal s c]) (auto simp: sends_def)
  then show ?case using Cons.IH [of "fst (stream_step marshal unmarshal s c)"] Cons.prems
    by (simp add: bound_step)
qed simp

text \<open>
  One session per connection. In any sequence of calls a stream binds a session at most once;
  after the call that binds it to a session ID and generation, every envelope that is encoded
  carries exactly that ID and generation, and every message that is returned arrived in an
  envelope with them.
\<close>

theorem session_binding_permanent:
  assumes "i < j" "j < length cs" "cs ! i = CBind sid gen"
    and "rs = snd (run (stream_step marshal unmarshal) s0 cs)" "rs ! i = RBound"
  shows "tally (\<lambda>c r. r = RBound) cs rs \<le> 1 \<and>
    (\<forall>b. rs ! j = REncoded b \<longrightarrow>
      (\<exists>e. marshal e = Some b \<and> env_SessionId e = sid \<and> env_SessionGeneration e = gen)) \<and>
    (\<forall>m. rs ! j = RMessage m \<longrightarrow>
      (\<exists>b e. cs ! j = CDecode b \<and> unmarshal b = Some e \<and> env_SessionId e = sid \<and>
        env_SessionGeneration e = gen))"
proof (intro conjI)
  let ?f = "stream_step marshal unmarshal"
  have eq: "tally (\<lambda>c r. r = RBound) = bind_once.fired ()"
    by (intro ext) (simp add: tally_def bind_once.fired_def)
  show "tally (\<lambda>c r. r = RBound) cs rs \<le> 1"
    unfolding eq assms(4) by (rule bind_once.fires_at_most_once) (simp_all add: list_all_iff)
  define s where "s = fst (run ?f s0 (take j cs))"
  let ?t = "fst (run ?f s0 (take i cs))" and ?u = "fst (run ?f s0 (take (Suc i) cs))"
  have "snd (?f ?t (cs ! i)) = RBound"
    using snd_run_nth [of i cs ?f s0] assms by simp
  then have u: "s_sessionBound ?u \<and> s_sessionResume ?u \<and> s_sessionID ?u = sid \<and> s_sessionGeneration ?u = gen"
    using assms(1,2)
    by (cases rule: stream_step_cases [of marshal unmarshal ?t "cs ! i"])
       (auto simp: fst_run_take_Suc assms(3))
  have "take j cs = take (Suc i) cs @ drop (Suc i) (take j cs)"
    using assms(1) by (metis Suc_leI append_take_drop_id min.absorb1 take_take)
  then have s: "s = fst (run ?f ?u (drop (Suc i) (take j cs)))"
    unfolding s_def by (metis fst_run_append)
  have bound: "s_sessionBound s" "s_sessionID s = sid" "s_sessionGeneration s = gen" "s_sessionResume s"
    unfolding s using u identity_stays [of ?u] bound_run [of marshal unmarshal ?u] by auto
  have r: "rs ! j = snd (?f s (cs ! j))"
    using snd_run_nth [OF assms(2), of ?f s0] assms(4) by (simp add: s_def)
  show "\<forall>b. rs ! j = REncoded b \<longrightarrow>
      (\<exists>e. marshal e = Some b \<and> env_SessionId e = sid \<and> env_SessionGeneration e = gen)"
    unfolding r using bound
    by (cases rule: stream_step_cases [of marshal unmarshal s "cs ! j"])
       (auto simp: sends_def marshalLocked_Inr, auto simp: locked_envelope_def)
  show "\<forall>m. rs ! j = RMessage m \<longrightarrow>
      (\<exists>b e. cs ! j = CDecode b \<and> unmarshal b = Some e \<and> env_SessionId e = sid \<and>
        env_SessionGeneration e = gen)"
    unfolding r using bound
    by (cases rule: stream_step_cases [of marshal unmarshal s "cs ! j"])
       (auto simp: inbound_ok_def dest!: validate_None split: if_splits)
qed

text \<open>The chunk search on an encoder that, when it accepts a length, accepts every shorter one.\<close>

definition fits :: "(nat \<Rightarrow> stream_error + bytes) \<Rightarrow> nat \<Rightarrow> bool" where
  "fits enc k \<longleftrightarrow> (\<exists>b. enc k = Inr b)"

lemma chunk_search_maximal:
  assumes mono: "\<And>k l. 1 \<le> k \<Longrightarrow> k \<le> l \<Longrightarrow> l \<le> len \<Longrightarrow> fits enc l \<Longrightarrow> fits enc k"
    and "high \<le> int len" "low = int (snd best) + 1" "low \<le> high + 1"
    and "\<And>k. high < int k \<Longrightarrow> k \<le> len \<Longrightarrow> \<not> fits enc k"
    and "snd best \<noteq> 0 \<Longrightarrow> enc (snd best) = Inr (fst best)"
    and "1 \<le> k" "k \<le> len"
  shows "fits enc k \<longleftrightarrow> k \<le> snd (chunk_search enc low high best)"
  using assms(2-6)
proof (induction "nat (high + 1 - low)" arbitrary: low high best rule: less_induct)
  case less
  show ?case
  proof (cases "low \<le> high")
    case True
    let ?m = "low + (high - low) div 2"
    have m: "low \<le> ?m" "?m \<le> high" using True by auto
    then have m1: "1 \<le> nat ?m" "nat ?m \<le> len" using less.prems(1,2) by linarith+
    show ?thesis
    proof (cases "enc (nat ?m)")
      case (Inl e)
      then have no: "\<not> fits enc (nat ?m)" by (simp add: fits_def)
      have "\<not> fits enc j" if "?m - 1 < int j" "j \<le> len" for j
        using no mono [of "nat ?m" j] m1 that by (auto simp: nat_le_iff)
      then have "fits enc k \<longleftrightarrow> k \<le> snd (chunk_search enc low (?m - 1) best)"
        using less.hyps [of "?m - 1" low best] less.prems m by simp
      then show ?thesis using Inl True by (simp add: chunk_search.simps [of enc low high] Let_def)
    next
      case (Inr x)
      have "fits enc k \<longleftrightarrow> k \<le> snd (chunk_search enc (?m + 1) high (x, nat ?m))"
        using less.hyps [of high "?m + 1" "(x, nat ?m)"] less.prems m m1 Inr by simp
      then show ?thesis using Inr True by (simp add: chunk_search.simps [of enc low high] Let_def)
    qed
  next
    case False
    then have res: "chunk_search enc low high best = best" by (simp add: chunk_search.simps)
    have high: "high = int (snd best)" using False less.prems(2,3) by linarith
    show ?thesis
    proof (cases "k \<le> snd best")
      case True
      then have "fits enc (snd best)" using less.prems(5) assms(7) by (simp add: fits_def)
      then show ?thesis
        unfolding res using mono [of k "snd best"] True assms(7) less.prems(1) high by simp
    next
      case above: False
      then show ?thesis unfolding res using less.prems(4) [of k] assms(8) high by simp
    qed
  qed
qed

text \<open>
  C24. Largest chunk. If a prefix that fits the negotiated limit leaves every shorter prefix
  fitting too (the size of an encoding grows with the data it carries), then on a stream that may
  send output the search for a chunk ends with the longest prefix that fits, encoded with the
  next sequence number, or with an error exactly when not even one byte fits.
\<close>

theorem chunk_largest_prefix:
  assumes "data \<noteq> []" "session_ready s"
    and "enc = (\<lambda>k. marshalLocked marshal s (terminalOutputEnvelope s (take k data) t))"
    and "\<And>k l. 1 \<le> k \<Longrightarrow> k \<le> l \<Longrightarrow> l \<le> length data \<Longrightarrow> fits enc l \<Longrightarrow> fits enc k"
  shows "(\<not> fits enc 1 \<and> EncodeTerminalOutputChunk marshal data t s = (s, Inl StreamLimitTooSmall)) \<or>
    (\<exists>b n. EncodeTerminalOutputChunk marshal data t s =
        (s\<lparr>s_nextOutbound := s_nextOutbound s + 1\<rparr>, Inr (b, n)) \<and>
      1 \<le> n \<and> n \<le> length data \<and> enc n = Inr b \<and>
      (\<forall>k. 1 \<le> k \<and> k \<le> length data \<longrightarrow> (fits enc k \<longleftrightarrow> k \<le> n)))"
proof -
  have max: "fits enc k \<longleftrightarrow> k \<le> snd (chunk_search enc 1 (int (length data)) ([], 0))"
    if "1 \<le> k" "k \<le> length data" for k
    using that assms(4) by (intro chunk_search_maximal [of "length data" enc]) auto
  have run: "EncodeTerminalOutputChunk marshal data t s =
      (let (best, bestLength) = chunk_search enc 1 (int (length data)) ([], 0)
       in if bestLength = 0 then (s, Inl StreamLimitTooSmall)
          else (s\<lparr>s_nextOutbound := s_nextOutbound s + 1\<rparr>, Inr (best, bestLength)))"
    using assms(1-3) by (auto simp: EncodeTerminalOutputChunk_def session_ready_def)
  obtain b n where bn: "chunk_search enc 1 (int (length data)) ([], 0) = (b, n)" by fastforce
  show ?thesis
  proof (cases "n = 0")
    case True
    then show ?thesis using run bn max [of 1] assms(1) by (cases data) auto
  next
    case False
    then have "enc n = Inr b \<and> 1 \<le> int n \<and> int n \<le> int (length data)"
      using chunk_search_result [OF bn] by simp
    then show ?thesis using run bn max False by auto
  qed
qed

section \<open>A sample connection\<close>

text \<open>
  A codec for the witnesses: an inbound byte is the sequence number of a Ping, and an outbound
  envelope is its sequence number, a header byte and the terminal data.
\<close>

definition sample_hello :: NegotiatedHello where
  "sample_hello = \<lparr>n_Major = 1, n_Minor = 0, n_PeerMaxEnvelopeBytes = 4, n_ConnectionID = replicate 16 7,
     n_capabilities = {CapabilityControlHealth, CapabilityTerminalSequencedIO}\<rparr>"

definition sample_marshal :: marshal where
  "sample_marshal e = Some (ucast (env_Sequence e) # 0 #
     (case env_Payload e of Envelope_TerminalOutput d \<Rightarrow> d | _ \<Rightarrow> []))"

definition sample_unmarshal :: unmarshal where
  "sample_unmarshal b = Some \<lparr>env_ProtocolMajor = 1, env_ProtocolMinor = 0,
     env_ConnectionId = replicate 16 7, env_SessionId = [], env_SessionGeneration = 0,
     env_Sequence = ucast (hd b), env_Acknowledge = 1, env_SentAt = None, env_Payload = Envelope_Ping\<rparr>"

definition sample_stream :: AgentStream where
  "sample_stream = \<lparr>s_connectionID = replicate 16 7, s_peerMaxEnvelopeSize = 4, s_nextOutbound = 2,
     s_nextInbound = 2, s_highestInbound = 1, s_highestPeerAck = 0, s_pendingPingSequences = [],
     s_sessionResume = False, s_terminalResizeEnd = False, s_sessionProcessExit = False,
     s_controlError = False, s_controlHealth = True, s_attachmentTransfer = False,
     s_attachmentPromptAction = False, s_sessionBound = False, s_sessionID = [], s_sessionGeneration = 0\<rparr>"

definition sample_ping :: ClientStreamMessage where
  "sample_ping = zero_message\<lparr>m_Kind := KindPing, m_Sequence := 2\<rparr>"

definition sample_calls :: "stream_call list" where
  "sample_calls = [CDecode [2], CCommit sample_ping, CPong 0, CAcknowledgement 1]"

lemma sample_stream_new: "NewAgentStream sample_hello = Inr sample_stream"
  by (simp add: NewAgentStream_def sample_hello_def sample_stream_def HasCapability_def capability_names)

lemma stream_sample_run:
  "snd (run (stream_step sample_marshal sample_unmarshal) sample_stream sample_calls) =
     [RMessage sample_ping, RCommitted sample_ping, REncoded [2, 0], REncoded [3, 0]]"
  by (simp add: sample_calls_def sample_stream_def sample_ping_def sample_unmarshal_def
      sample_marshal_def run.simps(2) DecodeClientMessage_def validateInboundEnvelope_def
      decode_payload_def zero_message_def CommitClientMessage_def EncodePong_def
      EncodeAcknowledgement_def encodeLocked_def marshalLocked_def locked_envelope_def
      encoded_result_def MaxEnvelopeBytes_def min_def Let_def word_le_nat_alt)

lemma stream_sample_facts: "length sample_calls = 4" "m_Kind sample_ping = KindPing"
  by (simp_all add: sample_calls_def sample_ping_def)

theorem outbound_sequenced_witness:
  "\<exists>e. sample_marshal e = Some [3, 0] \<and> env_Sequence e = 3 \<and> env_Acknowledge e = 2 \<and>
     length ([3, 0] :: bytes) \<le> unat (n_PeerMaxEnvelopeBytes sample_hello)"
  using outbound_sequenced [OF sample_stream_new, of 3 sample_calls _ sample_marshal sample_unmarshal "[3, 0]", OF _ refl]
  by (simp add: stream_sample_run) (auto simp: sample_calls_def)

theorem inbound_in_order_witness:
  "\<exists>b e. sample_calls ! 0 = CDecode b \<and> sample_unmarshal b = Some e \<and> env_Sequence e = 2 \<and>
     m_Sequence sample_ping = 2"
  using inbound_in_order [OF sample_stream_new, of 0 sample_calls _ sample_marshal sample_unmarshal, OF _ refl]
  by (simp add: stream_sample_run) (auto simp: sample_calls_def)

theorem decoded_messages_negotiated_witness: "message_ok sample_hello KindPing sample_ping"
  using decoded_messages_negotiated
    [OF sample_stream_new, of 0 sample_calls _ sample_marshal sample_unmarshal sample_ping, OF _ refl]
  by (simp add: stream_sample_run stream_sample_facts)

theorem session_binding_permanent_witness:
  "\<exists>e. sample_marshal e = Some [2, 0] \<and> env_SessionId e = replicate 16 1 \<and> env_SessionGeneration e = 5"
proof -
  let ?s = "sample_stream\<lparr>s_sessionResume := True, s_highestInbound := 2\<rparr>"
  let ?cs = "[CBind (replicate 16 1) 5, CAcknowledgement 0]"
  have "snd (run (stream_step sample_marshal sample_unmarshal) ?s ?cs) = [RBound, REncoded [2, 0]]"
    by (simp add: sample_stream_def BindSession_def EncodeAcknowledgement_def encodeLocked_def
        marshalLocked_def locked_envelope_def sample_marshal_def encoded_result_def
        MaxEnvelopeBytes_def min_def word_le_nat_alt)
  then show ?thesis
    using session_binding_permanent [of 0 1 ?cs "replicate 16 1" 5 _ sample_marshal sample_unmarshal ?s, OF _ _ _ refl]
    by simp
qed

theorem chunk_largest_prefix_witness:
  "\<exists>b s'. EncodeTerminalOutputChunk sample_marshal [10, 11, 12] 0 sample_stream = (s', Inr (b, 2))"
proof -
  let ?enc = "\<lambda>k. marshalLocked sample_marshal sample_stream
    (terminalOutputEnvelope sample_stream (take k [10, 11, 12]) 0)"
  have f: "fits ?enc k \<longleftrightarrow> k \<le> 2" for k
    by (auto simp: fits_def marshalLocked_Inr sample_marshal_def terminalOutputEnvelope_def
        sample_stream_def MaxEnvelopeBytes_def min_def word_le_nat_alt)
  have ready: "session_ready sample_stream" by (simp add: session_ready_def sample_stream_def)
  obtain b n s' where "EncodeTerminalOutputChunk sample_marshal [10, 11, 12] 0 sample_stream = (s', Inr (b, n))"
    and n: "n \<le> 3" "\<forall>k. 1 \<le> k \<and> k \<le> 3 \<longrightarrow> (k \<le> 2 \<longleftrightarrow> k \<le> n)"
    using chunk_largest_prefix [OF _ ready refl, of "[10, 11, 12]" sample_marshal 0] unfolding f
    by auto
  moreover have "n = 2"
    using n(1) spec [OF n(2), of 2] spec [OF n(2), of 3] by auto
  ultimately show ?thesis by blast
qed

end
