(* ===== verification/Relay_Ticket.thy ===== *)
theory Relay_Ticket
  imports Prelude Go_Strings
begin

text \<open>
  Relay tickets: issuing, verification with replay protection, and the revocation gate
  (\<^verbatim>\<open>src/internal/relay/ticket.go\<close>, \<^verbatim>\<open>epoch.go\<close>, and the minting of ticket pairs in
  \<^verbatim>\<open>src/internal/relayclient/ticket_mint.go\<close>). Ed25519, SHA-256 and the protobuf encoding of a
  ticket are parameters. The clock readings and random bytes of a call are arguments of it.
  \<^verbatim>\<open>Verify\<close> takes its lock twice, so it is the composition of two atomic steps, \<open>verify_check\<close>
  and \<open>verify_finish\<close>, which calls on other goroutines may separate.
\<close>

section \<open>Tickets\<close>

abbreviation (input) RELAY_ENDPOINT_AGENT :: int where "RELAY_ENDPOINT_AGENT \<equiv> 1"
abbreviation (input) RELAY_ENDPOINT_CLIENT :: int where "RELAY_ENDPOINT_CLIENT \<equiv> 2"

abbreviation (input) CurrentTicketVersion :: u32 where "CurrentTicketVersion \<equiv> 1"
abbreviation (input) ticketIDBytes :: nat where "ticketIDBytes \<equiv> 16"
abbreviation (input) routeIDBytes :: nat where "routeIDBytes \<equiv> 16"
abbreviation (input) ticketNonceBytes :: nat where "ticketNonceBytes \<equiv> 16"
abbreviation (input) DeviceIDBytes :: nat where "DeviceIDBytes \<equiv> 16"
abbreviation (input) ed25519_PublicKeySize :: nat where "ed25519_PublicKeySize \<equiv> 32"
abbreviation (input) ed25519_PrivateKeySize :: nat where "ed25519_PrivateKeySize \<equiv> 64"
abbreviation (input) ed25519_SignatureSize :: nat where "ed25519_SignatureSize \<equiv> 64"

definition ticketReplayTTL :: duration where
  "ticketReplayTTL = 10 * minute"

record RelayTicket =
  rt_Version :: u32
  rt_TicketId :: bytes
  rt_RouteId :: bytes
  rt_Endpoint :: int
  rt_DeviceId :: bytes
  rt_ExpiresAt :: "time option"
  rt_MaxConnections :: u32
  rt_Nonce :: bytes
  rt_IssuerSignature :: bytes
  rt_IssuerEpoch :: u64

datatype ticket_error =
    ErrTicketVersion
  | ErrTicketSignature
  | ErrTicketExpired
  | ErrTicketMalformed
  | ErrTicketUnspecified
  | ErrTicketReplayed
  | ErrTicketIssued
  | ErrTicketRevoked
  | ErrIssuerKey
  | ErrRouteIDLength
  | ErrDeviceIDLength
  | ErrMaxConnections
  | ErrRandom
  | ErrEncodeTicket
  | ErrLifetime
  | ErrNilIssuer

text \<open>The parameters that stand for the cryptographic and codec libraries.\<close>

record ticket_crypto =
  ed_Public :: "bytes \<Rightarrow> bytes"
  ed_Sign :: "bytes \<Rightarrow> bytes \<Rightarrow> bytes"
  ed_Verify :: "bytes \<Rightarrow> bytes \<Rightarrow> bytes \<Rightarrow> bool"
  marshal_ticket :: "RelayTicket \<Rightarrow> bytes option"
  Sum256 :: "bytes \<Rightarrow> bytes"

definition encodeTicketBody :: "ticket_crypto \<Rightarrow> RelayTicket \<Rightarrow> bytes option" where
  "encodeTicketBody cr ticket = marshal_ticket cr (ticket\<lparr>rt_IssuerSignature := []\<rparr>)"

definition signTicket :: "ticket_crypto \<Rightarrow> bytes \<Rightarrow> RelayTicket \<Rightarrow> ticket_error + bytes" where
  "signTicket cr private ticket =
     (case encodeTicketBody cr ticket of
        None \<Rightarrow> Inl ErrEncodeTicket
      | Some body \<Rightarrow> Inr (ed_Sign cr private body))"

definition ticketDigest :: "ticket_crypto \<Rightarrow> RelayTicket \<Rightarrow> bytes" where
  "ticketDigest cr ticket =
     (case encodeTicketBody cr ticket of
        None \<Rightarrow> Sum256 cr (string_bytes ''relay-ticket-encode-error'')
      | Some body \<Rightarrow> Sum256 cr body)"

definition ticketFingerprint :: "ticket_crypto \<Rightarrow> RelayTicket \<Rightarrow> string" where
  "ticketFingerprint cr ticket = EncodeToString (take 4 (ticketDigest cr ticket))"

record Ticket =
  tk_wire :: RelayTicket
  tk_issuer :: bytes
  tk_expires :: time

definition tk_ID :: "Ticket \<Rightarrow> bytes" where "tk_ID t = rt_TicketId (tk_wire t)"
definition tk_RouteID :: "Ticket \<Rightarrow> bytes" where "tk_RouteID t = rt_RouteId (tk_wire t)"
definition tk_Endpoint :: "Ticket \<Rightarrow> int" where "tk_Endpoint t = rt_Endpoint (tk_wire t)"
definition tk_DeviceID :: "Ticket \<Rightarrow> bytes" where "tk_DeviceID t = rt_DeviceId (tk_wire t)"
definition tk_MaxConnections :: "Ticket \<Rightarrow> u32" where
  "tk_MaxConnections t = rt_MaxConnections (tk_wire t)"
definition tk_ExpiresAt :: "Ticket \<Rightarrow> time" where "tk_ExpiresAt t = tk_expires t"
definition tk_Issuer :: "Ticket \<Rightarrow> bytes" where "tk_Issuer t = tk_issuer t"
definition tk_IssuerEpoch :: "Ticket \<Rightarrow> u64" where "tk_IssuerEpoch t = rt_IssuerEpoch (tk_wire t)"

section \<open>Issuing\<close>

record Issuer =
  is_private :: bytes
  is_public :: bytes

record IssueInput =
  ii_RouteID :: bytes
  ii_DeviceID :: bytes
  ii_Endpoint :: int
  ii_MaxConnections :: u32
  ii_Lifetime :: duration
  ii_ExpiresAt :: time
  ii_IssuerEpoch :: u64

definition NewIssuer :: "ticket_crypto \<Rightarrow> bytes \<Rightarrow> ticket_error + Issuer" where
  "NewIssuer cr private =
     (if length private \<noteq> ed25519_PrivateKeySize then Inl ErrIssuerKey
      else Inr \<lparr>is_private = private, is_public = ed_Public cr private\<rparr>)"

definition is_PublicKey :: "Issuer \<Rightarrow> bytes" where
  "is_PublicKey issuer = is_public issuer"

text \<open>
  What the random source fills the next buffer with; \<open>None\<close> when it fails or is not configured.
\<close>

type_synonym random = "nat \<Rightarrow> bytes option"

definition randomBytes :: "random \<Rightarrow> nat \<Rightarrow> ticket_error + bytes" where
  "randomBytes r n = (case r n of None \<Rightarrow> Inl ErrRandom | Some b \<Rightarrow> Inr b)"

text \<open>
  \<^verbatim>\<open>Issue\<close> with the clock reading \<open>now\<close> and the random source's answers to its two calls, for
  the ticket ID and for the nonce.
\<close>

definition Issue ::
    "ticket_crypto \<Rightarrow> Issuer \<Rightarrow> IssueInput \<Rightarrow> time \<Rightarrow> random \<Rightarrow> random \<Rightarrow> ticket_error + RelayTicket" where
  "Issue cr issuer input now rid rnonce =
     (if length (ii_RouteID input) \<noteq> routeIDBytes then Inl ErrRouteIDLength
      else if length (ii_DeviceID input) \<noteq> DeviceIDBytes then Inl ErrDeviceIDLength
      else if ii_Endpoint input \<notin> {RELAY_ENDPOINT_AGENT, RELAY_ENDPOINT_CLIENT}
      then Inl ErrTicketUnspecified
      else if ii_MaxConnections input = 0 then Inl ErrMaxConnections
      else
        let lifetime = (if ii_Lifetime input \<le> 0 then 2 * minute else ii_Lifetime input);
            expires = (if ii_ExpiresAt input \<noteq> zero_time then ii_ExpiresAt input else now + lifetime)
        in case randomBytes rid ticketIDBytes of
             Inl e \<Rightarrow> Inl e
           | Inr ticketID \<Rightarrow>
               (case randomBytes rnonce ticketNonceBytes of
                  Inl e \<Rightarrow> Inl e
                | Inr nonce \<Rightarrow>
                    let ticket = \<lparr>rt_Version = CurrentTicketVersion, rt_TicketId = ticketID,
                          rt_RouteId = ii_RouteID input, rt_Endpoint = ii_Endpoint input,
                          rt_DeviceId = ii_DeviceID input, rt_ExpiresAt = Some expires,
                          rt_MaxConnections = ii_MaxConnections input, rt_Nonce = nonce,
                          rt_IssuerSignature = [], rt_IssuerEpoch = ii_IssuerEpoch input\<rparr>
                    in case signTicket cr (is_private issuer) ticket of
                         Inl e \<Rightarrow> Inl e
                       | Inr signature \<Rightarrow> Inr (ticket\<lparr>rt_IssuerSignature := signature\<rparr>)))"

subsection \<open>Minting a pair\<close>

record PairInput =
  pi_RouteID :: bytes
  pi_AgentID :: bytes
  pi_ClientID :: bytes
  pi_Lifetime :: duration
  pi_MaxConnections :: u32
  pi_IssuedAt :: time
  pi_IssuerEpoch :: u64

text \<open>The closure \<^verbatim>\<open>mint\<close>, and \<^verbatim>\<open>Pair\<close> with the clock and random source of each of its two calls.\<close>

definition pair_mint ::
    "ticket_crypto \<Rightarrow> Issuer \<Rightarrow> PairInput \<Rightarrow> int \<Rightarrow> bytes \<Rightarrow> time \<Rightarrow> random \<Rightarrow> random \<Rightarrow>
     ticket_error + RelayTicket" where
  "pair_mint cr issuer pin endpoint deviceID now rid rnonce =
     Issue cr issuer
       \<lparr>ii_RouteID = pi_RouteID pin, ii_DeviceID = deviceID, ii_Endpoint = endpoint,
        ii_MaxConnections = (if pi_MaxConnections pin = 0 then 1 else pi_MaxConnections pin),
        ii_Lifetime = pi_Lifetime pin,
        ii_ExpiresAt = (if pi_IssuedAt pin \<noteq> zero_time then pi_IssuedAt pin + pi_Lifetime pin
                        else zero_time),
        ii_IssuerEpoch = pi_IssuerEpoch pin\<rparr> now rid rnonce"

definition Pair_tickets ::
    "ticket_crypto \<Rightarrow> Issuer option \<Rightarrow> PairInput \<Rightarrow> time \<times> random \<times> random \<Rightarrow> time \<times> random \<times> random \<Rightarrow>
     ticket_error + RelayTicket \<times> RelayTicket" where
  "Pair_tickets cr issuer pin call1 call2 =
     (case issuer of
        None \<Rightarrow> Inl ErrNilIssuer
      | Some i \<Rightarrow>
          if length (pi_RouteID pin) \<noteq> 16 then Inl ErrRouteIDLength
          else if length (pi_AgentID pin) \<noteq> 16 then Inl ErrDeviceIDLength
          else if length (pi_ClientID pin) \<noteq> 16 then Inl ErrDeviceIDLength
          else if pi_Lifetime pin \<le> 0 then Inl ErrLifetime
          else if pi_Lifetime pin > 10 * minute then Inl ErrLifetime
          else
            (case call1 of (now1, id1, nonce1) \<Rightarrow>
             case pair_mint cr i pin RELAY_ENDPOINT_AGENT (pi_AgentID pin) now1 id1 nonce1 of
               Inl e \<Rightarrow> Inl e
             | Inr agentTicket \<Rightarrow>
                 (case call2 of (now2, id2, nonce2) \<Rightarrow>
                  case pair_mint cr i pin RELAY_ENDPOINT_CLIENT (pi_ClientID pin) now2 id2 nonce2 of
                    Inl e \<Rightarrow> Inl e
                  | Inr clientTicket \<Rightarrow> Inr (agentTicket, clientTicket))))"

definition PublicKeyBytes :: "Issuer option \<Rightarrow> bytes" where
  "PublicKeyBytes issuer = (case issuer of None \<Rightarrow> [] | Some i \<Rightarrow> is_PublicKey i)"

definition ParsePublicKey :: "bytes \<Rightarrow> ticket_error + bytes" where
  "ParsePublicKey raw = (if length raw \<noteq> ed25519_PublicKeySize then Inl ErrIssuerKey else Inr raw)"

section \<open>Verification\<close>

text \<open>
  The optional revocation callback runs in a world \<open>'w\<close> (the device store it consults) and
  returns \<open>None\<close> to allow a ticket. The issuer map is the list of its values, in the order a
  \<^verbatim>\<open>range\<close> loop meets them, and the replay map is an association list with one entry per ticket ID.
\<close>

datatype authorizer_error = NilStore | NoEpoch | DeviceRevoked bytes

type_synonym 'w Authorizer = "'w \<Rightarrow> bytes \<Rightarrow> u64 \<Rightarrow> authorizer_error option"

definition StoreAuthorizer :: "('w \<Rightarrow> u64) option \<Rightarrow> 'w Authorizer" where
  "StoreAuthorizer source w deviceID issuerEpoch =
     (case source of
        None \<Rightarrow> Some NilStore
      | Some RevocationEpoch \<Rightarrow>
          (if issuerEpoch = 0 then Some NoEpoch
           else if issuerEpoch < RevocationEpoch w then Some (DeviceRevoked deviceID)
           else None))"

record 'w Verifier =
  vf_issuers :: "bytes list"
  vf_replay :: "(bytes \<times> time) list"
  vf_authorizer :: "'w Authorizer option"

definition NewVerifier :: "bytes list \<Rightarrow> 'w Verifier" where
  "NewVerifier issuers =
     \<lparr>vf_issuers = remdups (filter (\<lambda>key. length key = ed25519_PublicKeySize) issuers),
      vf_replay = [], vf_authorizer = None\<rparr>"

definition SetAuthorizer :: "'w Authorizer option \<Rightarrow> 'w Verifier \<Rightarrow> 'w Verifier" where
  "SetAuthorizer authorizer v = v\<lparr>vf_authorizer := authorizer\<rparr>"

definition vf_Authorizer :: "'w Verifier \<Rightarrow> 'w Authorizer option" where
  "vf_Authorizer v = vf_authorizer v"

definition sweepLocked :: "time \<Rightarrow> 'w Verifier \<Rightarrow> 'w Verifier" where
  "sweepLocked now v =
     (if vf_replay v = [] then v
      else v\<lparr>vf_replay := filter (\<lambda>(key, recorded). \<not> recorded < now - ticketReplayTTL) (vf_replay v)\<rparr>)"

definition checkAndRecordReplay :: "bytes \<Rightarrow> time \<Rightarrow> 'w Verifier \<Rightarrow> 'w Verifier \<times> bool" where
  "checkAndRecordReplay ticketID now v =
     (let v1 = sweepLocked now v in
      if map_of (vf_replay v1) ticketID \<noteq> None then (v1, False)
      else (v1\<lparr>vf_replay := (ticketID, now) # vf_replay v1\<rparr>, True))"

definition forgetReplay :: "bytes \<Rightarrow> 'w Verifier \<Rightarrow> 'w Verifier" where
  "forgetReplay ticketID v = v\<lparr>vf_replay := filter (\<lambda>(key, _). key \<noteq> ticketID) (vf_replay v)\<rparr>"

definition SweepNow :: "time \<Rightarrow> 'w Verifier \<Rightarrow> 'w Verifier" where
  "SweepNow now v = sweepLocked now v"

definition ReplaySize :: "'w Verifier \<Rightarrow> nat" where
  "ReplaySize v = length (vf_replay v)"

definition verifySignature :: "ticket_crypto \<Rightarrow> 'w Verifier \<Rightarrow> RelayTicket \<Rightarrow> ticket_error + bytes" where
  "verifySignature cr v wire =
     (case encodeTicketBody cr wire of
        None \<Rightarrow> Inl ErrTicketSignature
      | Some body \<Rightarrow>
          (case filter (\<lambda>publicKey. ed_Verify cr publicKey body (rt_IssuerSignature wire)) (vf_issuers v) of
             [] \<Rightarrow> Inl ErrTicketSignature
           | publicKey # _ \<Rightarrow> Inr publicKey))"

text \<open>The checks that read no state: shape, version and expiry at the clock reading \<open>now\<close>.\<close>

definition verify_shape :: "RelayTicket option \<Rightarrow> time \<Rightarrow> ticket_error + RelayTicket \<times> time" where
  "verify_shape wire now =
     (case wire of
        None \<Rightarrow> Inl ErrTicketMalformed
      | Some w \<Rightarrow>
          if rt_Version w \<noteq> CurrentTicketVersion then Inl ErrTicketVersion
          else if length (rt_TicketId w) \<noteq> ticketIDBytes then Inl ErrTicketMalformed
          else if length (rt_RouteId w) \<noteq> routeIDBytes then Inl ErrTicketMalformed
          else if length (rt_DeviceId w) \<noteq> DeviceIDBytes then Inl ErrTicketMalformed
          else if length (rt_Nonce w) \<noteq> ticketNonceBytes then Inl ErrTicketMalformed
          else if rt_Endpoint w \<notin> {RELAY_ENDPOINT_AGENT, RELAY_ENDPOINT_CLIENT}
          then Inl ErrTicketUnspecified
          else if rt_MaxConnections w = 0 then Inl ErrTicketMalformed
          else if length (rt_IssuerSignature w) \<noteq> ed25519_SignatureSize then Inl ErrTicketSignature
          else case rt_ExpiresAt w of
            None \<Rightarrow> Inl ErrTicketMalformed
          | Some expires \<Rightarrow>
              if expires = zero_time then Inl ErrTicketMalformed
              else if \<not> now + 30 * second < expires \<and> now > expires then Inl ErrTicketExpired
              else if expires > now + ticketReplayTTL then Inl ErrTicketIssued
              else Inr (w, expires))"

text \<open>
  \<^verbatim>\<open>Verify\<close> up to the recording of the ticket ID, with its readings of the two clocks, and the
  rest of it: signature, authorizer, and the roll-back of the record.
\<close>

definition verify_check ::
    "RelayTicket option \<Rightarrow> time \<Rightarrow> time \<Rightarrow> 'w Verifier \<Rightarrow> 'w Verifier \<times> (ticket_error + RelayTicket \<times> time)" where
  "verify_check wire now replayNow v =
     (case verify_shape wire now of
        Inl e \<Rightarrow> (v, Inl e)
      | Inr (w, expires) \<Rightarrow>
          (let (v1, fresh) = checkAndRecordReplay (rt_TicketId w) replayNow v in
           if fresh then (v1, Inr (w, expires)) else (v1, Inl ErrTicketReplayed)))"

definition verify_finish ::
    "ticket_crypto \<Rightarrow> 'w \<Rightarrow> RelayTicket \<Rightarrow> time \<Rightarrow> 'w Verifier \<Rightarrow> 'w Verifier \<times> (ticket_error + Ticket)" where
  "verify_finish cr world wire expires v =
     (case verifySignature cr v wire of
        Inl e \<Rightarrow> (forgetReplay (rt_TicketId wire) v, Inl e)
      | Inr issuer \<Rightarrow>
          (let rejected = (case vf_authorizer v of
                             None \<Rightarrow> False
                           | Some authorizer \<Rightarrow> authorizer world (rt_DeviceId wire) (rt_IssuerEpoch wire) \<noteq> None)
           in if rejected then (forgetReplay (rt_TicketId wire) v, Inl ErrTicketRevoked)
              else (v, Inr \<lparr>tk_wire = wire, tk_issuer = issuer, tk_expires = expires\<rparr>)))"

definition Verify ::
    "ticket_crypto \<Rightarrow> 'w \<Rightarrow> RelayTicket option \<Rightarrow> time \<Rightarrow> time \<Rightarrow> 'w Verifier \<Rightarrow>
     'w Verifier \<times> (ticket_error + Ticket)" where
  "Verify cr world wire now replayNow v =
     (case verify_check wire now replayNow v of
        (v1, Inl e) \<Rightarrow> (v1, Inl e)
      | (v1, Inr (w, expires)) \<Rightarrow> verify_finish cr world w expires v1)"

end
