(* ===== verification/Relay_Replay.thy ===== *)
theory Relay_Replay
  imports Relay_Ticket
begin

text \<open>
  What ticket verification guarantees: what it accepts, that a freshly issued ticket passes, that
  the revocation gate stops tickets minted before a revocation, and that no ticket is accepted
  twice even when verifications interleave.
\<close>

section \<open>What is accepted\<close>

definition ticket_shape_ok :: "RelayTicket \<Rightarrow> bool" where
  "ticket_shape_ok w \<longleftrightarrow>
     rt_Version w = CurrentTicketVersion \<and> length (rt_TicketId w) = ticketIDBytes \<and>
     length (rt_RouteId w) = routeIDBytes \<and> length (rt_DeviceId w) = DeviceIDBytes \<and>
     length (rt_Nonce w) = ticketNonceBytes \<and> rt_Endpoint w \<in> {1, 2} \<and>
     rt_MaxConnections w \<noteq> 0 \<and> length (rt_IssuerSignature w) = ed25519_SignatureSize"

lemma verify_shape_Inr:
  "verify_shape wire now = Inr (w, e) \<longleftrightarrow>
     wire = Some w \<and> ticket_shape_ok w \<and> rt_ExpiresAt w = Some e \<and> e \<noteq> zero_time \<and>
     now \<le> e \<and> e \<le> now + ticketReplayTTL"
proof (cases "ticket_shape_ok (the wire) \<and> wire \<noteq> None")
  case True
  then obtain w' where "wire = Some w'" "ticket_shape_ok w'" by auto
  then show ?thesis
    by (cases "rt_ExpiresAt w'") (auto simp: verify_shape_def ticket_shape_ok_def)
next
  case False
  then have "verify_shape wire now \<noteq> Inr (w, e)"
    by (cases wire) (auto simp: verify_shape_def ticket_shape_ok_def split: if_splits)
  then show ?thesis using False by auto
qed

lemma sweepLocked_replay:
  "vf_replay (sweepLocked now v) = filter (\<lambda>(k, r). now - ticketReplayTTL \<le> r) (vf_replay v)"
  by (simp add: sweepLocked_def not_less)

lemma sweepLocked_other [simp]:
  "vf_issuers (sweepLocked now v) = vf_issuers v" "vf_authorizer (sweepLocked now v) = vf_authorizer v"
  by (simp_all add: sweepLocked_def)

definition signed_by :: "ticket_crypto \<Rightarrow> bytes \<Rightarrow> RelayTicket \<Rightarrow> bool" where
  "signed_by cr key w \<longleftrightarrow>
     (\<exists>body. encodeTicketBody cr w = Some body \<and> ed_Verify cr key body (rt_IssuerSignature w))"

lemma verifySignature_Inr:
  "verifySignature cr v w = Inr key \<Longrightarrow> key \<in> set (vf_issuers v) \<and> signed_by cr key w"
proof -
  assume "verifySignature cr v w = Inr key"
  then obtain body rest where b: "encodeTicketBody cr w = Some body"
    and "filter (\<lambda>k. ed_Verify cr k body (rt_IssuerSignature w)) (vf_issuers v) = key # rest"
    by (auto simp: verifySignature_def split: option.splits list.splits)
  then have "key \<in> set (filter (\<lambda>k. ed_Verify cr k body (rt_IssuerSignature w)) (vf_issuers v))" by simp
  then show ?thesis using b by (auto simp: signed_by_def)
qed

lemma verifySignature_Inl:
  "verifySignature cr v w = Inl e \<Longrightarrow> key \<in> set (vf_issuers v) \<Longrightarrow> \<not> signed_by cr key w"
  by (auto simp: verifySignature_def signed_by_def filter_empty_conv split: option.splits list.splits)

definition allowed :: "'w Verifier \<Rightarrow> 'w \<Rightarrow> RelayTicket \<Rightarrow> bool" where
  "allowed v world w \<longleftrightarrow>
     (case vf_authorizer v of None \<Rightarrow> True
      | Some authorizer \<Rightarrow> authorizer world (rt_DeviceId w) (rt_IssuerEpoch w) = None)"

text \<open>A ticket ID is remembered when it was recorded at most ten minutes ago.\<close>

definition remembered :: "'w Verifier \<Rightarrow> time \<Rightarrow> bytes \<Rightarrow> bool" where
  "remembered v now ticketID \<longleftrightarrow> (\<exists>r. (ticketID, r) \<in> set (vf_replay v) \<and> now - ticketReplayTTL \<le> r)"

lemma checkAndRecordReplay_fresh:
  "snd (checkAndRecordReplay tid now v) \<longleftrightarrow> \<not> remembered v now tid"
  by (auto simp: checkAndRecordReplay_def Let_def sweepLocked_replay remembered_def
      map_of_eq_None_iff image_iff split: if_splits)

lemma checkAndRecordReplay_other [simp]:
  "vf_issuers (fst (checkAndRecordReplay tid now v)) = vf_issuers v"
  "vf_authorizer (fst (checkAndRecordReplay tid now v)) = vf_authorizer v"
  by (simp_all add: checkAndRecordReplay_def Let_def)

lemma Verify_Inr_iff:
  "(\<exists>t. snd (Verify cr world wire now replayNow v) = Inr t \<and> tk_wire t = w) \<longleftrightarrow>
     wire = Some w \<and> ticket_shape_ok w \<and>
     (\<exists>e. rt_ExpiresAt w = Some e \<and> e \<noteq> zero_time \<and> now \<le> e \<and> e \<le> now + ticketReplayTTL) \<and>
     \<not> remembered v replayNow (rt_TicketId w) \<and>
     (\<exists>key \<in> set (vf_issuers v). signed_by cr key w) \<and> allowed v world w"
proof (cases "verify_shape wire now")
  case (Inl e)
  then have "\<not> (wire = Some w \<and> ticket_shape_ok w \<and> rt_ExpiresAt w = Some e' \<and> e' \<noteq> zero_time \<and>
     now \<le> e' \<and> e' \<le> now + ticketReplayTTL)" for e'
    using verify_shape_Inr [of wire now w e'] by simp
  then show ?thesis using Inl by (auto simp: Verify_def verify_check_def)
next
  case (Inr p)
  obtain w' e where p: "p = (w', e)" by fastforce
  note shape = Inr [unfolded p verify_shape_Inr]
  obtain v1 fresh where rec: "checkAndRecordReplay (rt_TicketId w') replayNow v = (v1, fresh)" by fastforce
  then have fresh: "fresh \<longleftrightarrow> \<not> remembered v replayNow (rt_TicketId w')"
    and v1: "vf_issuers v1 = vf_issuers v" "vf_authorizer v1 = vf_authorizer v"
    using checkAndRecordReplay_fresh [of "rt_TicketId w'" replayNow v]
      checkAndRecordReplay_other [of "rt_TicketId w'" replayNow v] by simp_all
  have run: "Verify cr world wire now replayNow v =
      (if fresh then verify_finish cr world w' e v1 else (v1, Inl ErrTicketReplayed))"
    using Inr rec by (simp add: p Verify_def verify_check_def)
  show ?thesis
  proof (cases "verifySignature cr v1 w'")
    case (Inl x)
    then have "\<not> (\<exists>key \<in> set (vf_issuers v). signed_by cr key w')"
      using verifySignature_Inl [OF Inl] v1 by auto
    then show ?thesis using run shape Inl by (auto simp: verify_finish_def)
  next
    case (Inr key)
    then have "\<exists>key \<in> set (vf_issuers v). signed_by cr key w'"
      using verifySignature_Inr [OF Inr] v1 by auto
    moreover have "allowed v world w' = allowed v1 world w'" by (simp add: allowed_def v1)
    ultimately show ?thesis
      using run shape Inr fresh
      by (auto simp: verify_finish_def Let_def allowed_def split: option.splits)
  qed
qed


section \<open>Issued tickets pass\<close>

text \<open>The documented behaviour of the libraries, as far as an issued ticket relies on it.\<close>

definition crypto_ok :: "ticket_crypto \<Rightarrow> bool" where
  "crypto_ok cr \<longleftrightarrow>
     (\<forall>k m. length (ed_Sign cr k m) = ed25519_SignatureSize) \<and>
     (\<forall>k m. ed_Verify cr (ed_Public cr k) m (ed_Sign cr k m)) \<and>
     (\<forall>k. length k = ed25519_PrivateKeySize \<longrightarrow> length (ed_Public cr k) = ed25519_PublicKeySize)"

definition random_ok :: "random \<Rightarrow> bool" where
  "random_ok r \<longleftrightarrow> (\<forall>n b. r n = Some b \<longrightarrow> length b = n)"

lemma randomBytes_Inr: "randomBytes r n = Inr b \<Longrightarrow> random_ok r \<Longrightarrow> length b = n"
  by (auto simp: randomBytes_def random_ok_def split: option.splits)

lemma encode_body_signature: "encodeTicketBody cr (w\<lparr>rt_IssuerSignature := s\<rparr>) = encodeTicketBody cr w"
  by (simp add: encodeTicketBody_def)

lemma Issue_Inr:
  assumes "crypto_ok cr" "random_ok rid" "random_ok rnonce"
    and "Issue cr issuer input now rid rnonce = Inr t"
  shows "ticket_shape_ok t" "rt_RouteId t = ii_RouteID input" "rt_DeviceId t = ii_DeviceID input"
    "rt_Endpoint t = ii_Endpoint input" "rt_MaxConnections t = ii_MaxConnections input"
    "rt_IssuerEpoch t = ii_IssuerEpoch input"
    "rt_ExpiresAt t = Some (if ii_ExpiresAt input \<noteq> zero_time then ii_ExpiresAt input
       else now + (if ii_Lifetime input \<le> 0 then 2 * minute else ii_Lifetime input))"
    "is_public issuer = ed_Public cr (is_private issuer) \<Longrightarrow> signed_by cr (is_public issuer) t"
proof -
  obtain tid nonce sig t0 where tid: "randomBytes rid ticketIDBytes = Inr tid"
    and nonce: "randomBytes rnonce ticketNonceBytes = Inr nonce"
    and sig: "signTicket cr (is_private issuer) t0 = Inr sig" and t: "t = t0\<lparr>rt_IssuerSignature := sig\<rparr>"
    and t0: "t0 = \<lparr>rt_Version = CurrentTicketVersion, rt_TicketId = tid,
        rt_RouteId = ii_RouteID input, rt_Endpoint = ii_Endpoint input, rt_DeviceId = ii_DeviceID input,
        rt_ExpiresAt = Some (if ii_ExpiresAt input \<noteq> zero_time then ii_ExpiresAt input
          else now + (if ii_Lifetime input \<le> 0 then 2 * minute else ii_Lifetime input)),
        rt_MaxConnections = ii_MaxConnections input, rt_Nonce = nonce,
        rt_IssuerSignature = [], rt_IssuerEpoch = ii_IssuerEpoch input\<rparr>"
    and ok: "length (ii_RouteID input) = 16" "length (ii_DeviceID input) = 16"
      "ii_Endpoint input \<in> {1, 2}" "ii_MaxConnections input \<noteq> 0"
    using assms(4) unfolding Issue_def Let_def by (auto split: if_splits sum.splits)
  obtain body where body: "encodeTicketBody cr t0 = Some body" "sig = ed_Sign cr (is_private issuer) body"
    using sig by (auto simp: signTicket_def split: option.splits)
  have "length sig = 64" using assms(1) body(2) by (simp add: crypto_ok_def)
  then show "ticket_shape_ok t"
    using randomBytes_Inr [OF tid assms(2)] randomBytes_Inr [OF nonce assms(3)] ok
    by (simp add: t t0 ticket_shape_ok_def)
  show "is_public issuer = ed_Public cr (is_private issuer) \<Longrightarrow> signed_by cr (is_public issuer) t"
    using assms(1) body unfolding t by (simp add: signed_by_def encode_body_signature crypto_ok_def)
qed (use assms(4) in \<open>auto simp: Issue_def Let_def split: if_splits sum.splits\<close>)

text \<open>
  Issue then verify. With Ed25519 and the random source behaving as documented, a ticket that
  an issuer mints is accepted by a verifier that knows the issuer's public key at any moment from
  ten minutes before the ticket's expiry up to the expiry, provided its ID is not remembered and
  the authorizer allows it; the accepted ticket has the route, endpoint, device, connection cap
  and epoch that were asked for.
\<close>

theorem issued_ticket_verifies:
  assumes "crypto_ok cr" "random_ok rid" "random_ok rnonce"
    and "NewIssuer cr private = Inr issuer"
    and "Issue cr issuer input issuedAt rid rnonce = Inr t"
    and "is_PublicKey issuer \<in> set keys" "v = (NewVerifier keys)\<lparr>vf_replay := seen, vf_authorizer := auth\<rparr>"
    and "rt_ExpiresAt t = Some e" "e \<noteq> zero_time" "now \<le> e" "e \<le> now + ticketReplayTTL"
    and "\<not> remembered v replayNow (rt_TicketId t)" "allowed v world t"
  shows "\<exists>tk. snd (Verify cr world (Some t) now replayNow v) = Inr tk \<and>
    tk_RouteID tk = ii_RouteID input \<and> tk_Endpoint tk = ii_Endpoint input \<and>
    tk_DeviceID tk = ii_DeviceID input \<and> tk_MaxConnections tk = ii_MaxConnections input \<and>
    tk_IssuerEpoch tk = ii_IssuerEpoch input"
proof -
  note issued = Issue_Inr [OF assms(1-3) assms(5)]
  have pub: "is_public issuer = ed_Public cr (is_private issuer)" "length (is_public issuer) = 32"
    using assms(1,4) by (auto simp: NewIssuer_def crypto_ok_def split: if_splits)
  have "is_public issuer \<in> set (vf_issuers v)"
    using assms(6) pub(2) by (simp add: assms(7) NewVerifier_def is_PublicKey_def)
  then obtain tk where "snd (Verify cr world (Some t) now replayNow v) = Inr tk" "tk_wire tk = t"
    using Verify_Inr_iff [of cr world "Some t" now replayNow v t] issued(1) issued(8) [OF pub(1)]
      assms(8-13) by blast
  then show ?thesis
    using issued(2-6)
    by (auto simp: tk_RouteID_def tk_Endpoint_def tk_DeviceID_def tk_MaxConnections_def tk_IssuerEpoch_def)
qed

text \<open>
  A minted pair meets on one route. When minting succeeds, the two tickets are well-formed, have
  the two different endpoints and the devices asked for, and share the route, the connection cap
  and the epoch. They share the expiry when an issue time is given; otherwise each expires one
  lifetime after its own clock reading.
\<close>

theorem minted_pair_matches:
  assumes "crypto_ok cr" "random_ok id1" "random_ok nonce1" "random_ok id2" "random_ok nonce2"
    and "Pair_tickets cr issuer pin (now1, id1, nonce1) (now2, id2, nonce2) = Inr (a, c)"
  shows "ticket_shape_ok a \<and> ticket_shape_ok c \<and>
    rt_Endpoint a = RELAY_ENDPOINT_AGENT \<and> rt_Endpoint c = RELAY_ENDPOINT_CLIENT \<and>
    rt_DeviceId a = pi_AgentID pin \<and> rt_DeviceId c = pi_ClientID pin \<and>
    rt_RouteId a = pi_RouteID pin \<and> rt_RouteId c = pi_RouteID pin \<and>
    rt_MaxConnections a = rt_MaxConnections c \<and> rt_IssuerEpoch a = rt_IssuerEpoch c \<and>
    (if pi_IssuedAt pin \<noteq> zero_time \<and> pi_IssuedAt pin + pi_Lifetime pin \<noteq> zero_time
     then rt_ExpiresAt a = rt_ExpiresAt c
     else rt_ExpiresAt a = Some (now1 + pi_Lifetime pin) \<and> rt_ExpiresAt c = Some (now2 + pi_Lifetime pin))"
proof -
  obtain i where a: "pair_mint cr i pin RELAY_ENDPOINT_AGENT (pi_AgentID pin) now1 id1 nonce1 = Inr a"
    and c: "pair_mint cr i pin RELAY_ENDPOINT_CLIENT (pi_ClientID pin) now2 id2 nonce2 = Inr c"
    and "0 < pi_Lifetime pin"
    using assms(6) by (auto simp: Pair_tickets_def split: option.splits if_splits sum.splits)
  then show ?thesis
    using Issue_Inr(1-7) [OF assms(1-3) a [unfolded pair_mint_def]]
      Issue_Inr(1-7) [OF assms(1,4,5) c [unfolded pair_mint_def]] by auto
qed

section \<open>Revocation\<close>

lemma verify_check_other [simp]:
  "vf_issuers (fst (verify_check wire now replayNow v)) = vf_issuers v"
  "vf_authorizer (fst (verify_check wire now replayNow v)) = vf_authorizer v"
  by (auto simp: verify_check_def split_beta split: sum.split)

lemma epoch_gate_rejects:
  assumes "vf_authorizer v = Some (StoreAuthorizer (Some epoch))"
    and "rt_IssuerEpoch w = 0 \<or> rt_IssuerEpoch w < epoch store"
    and "\<not> remembered v replayNow (rt_TicketId w)"
  shows "(\<exists>err. snd (Verify cr store (Some w) now replayNow v) = Inl err) \<and>
    \<not> remembered (fst (Verify cr store (Some w) now replayNow v)) replayNow (rt_TicketId w)"
proof -
  obtain v1 r where vc: "verify_check (Some w) now replayNow v = (v1, r)" by fastforce
  have auth: "vf_authorizer v1 = Some (StoreAuthorizer (Some epoch))"
    using verify_check_other(2) [of "Some w" now replayNow v] vc assms(1) by simp
  have r: "r = Inr (w', e) \<Longrightarrow> w' = w" for w' e
    using vc by (auto simp: verify_check_def verify_shape_Inr split: sum.splits if_splits prod.splits)
  have rej: "StoreAuthorizer (Some epoch) store (rt_DeviceId w) (rt_IssuerEpoch w) \<noteq> None"
    using assms(2) by (auto simp: StoreAuthorizer_def)
  have "r = Inl x \<Longrightarrow> v1 = v" for x
    using vc checkAndRecordReplay_fresh [of "rt_TicketId w" replayNow v] assms(3)
    by (auto simp: verify_check_def verify_shape_Inr split: sum.splits if_splits prod.splits)
  then show ?thesis
    using vc r rej auth assms(3)
    by (cases r) (auto simp: Verify_def verify_finish_def forgetReplay_def remembered_def split: sum.splits)
qed

text \<open>
  Revocation gate. A verifier that consults a device store through the epoch authorizer accepts
  no ticket whose epoch is below the store's current revocation epoch, nor one without an epoch:
  it reports the ticket as revoked (or fails earlier) and leaves its ID unrecorded.
\<close>

theorem revoked_ticket_rejected:
  assumes "vf_authorizer v = Some (StoreAuthorizer (Some epoch))"
    and "rt_IssuerEpoch w = 0 \<or> rt_IssuerEpoch w < epoch store"
    and "\<not> remembered v replayNow (rt_TicketId w)"
  shows "(\<exists>err. snd (Verify cr store (Some w) now replayNow v) = Inl err) \<and>
    \<not> remembered (fst (Verify cr store (Some w) now replayNow v)) replayNow (rt_TicketId w)"
  by (rule epoch_gate_rejects [OF assms])

section \<open>No ticket twice\<close>

text \<open>
  Verifications on several goroutines: a clock, the shared verifier and, per goroutine, the ticket
  whose verification has recorded its ID and not finished (with its expiry and the time of the
  record). A goroutine checks a ticket, finishes the one it holds, or sweeps; time passes between
  these steps. Each check reads the clock once. A verification that has not finished ten minutes
  after it recorded its ID would find its record swept, so time advances only while every pending
  verification is younger than that.
\<close>

record 'w relay_sys =
  sy_verifier :: "'w Verifier"
  sy_flight :: "nat \<rightharpoonup> RelayTicket \<times> time \<times> time"
  sy_clock :: time

datatype 'w relay_call =
    VTick int
  | VCheck nat "RelayTicket option"
  | VFinish nat 'w
  | VSweep

datatype relay_result = VNothing | VAccepted Ticket | VRejected ticket_error

definition in_time :: "'w relay_sys \<Rightarrow> int \<Rightarrow> bool" where
  "in_time s d \<longleftrightarrow> (\<forall>g w e t. sy_flight s g = Some (w, e, t) \<longrightarrow> sy_clock s + d \<le> t + ticketReplayTTL)"

fun relay_step ::
    "ticket_crypto \<Rightarrow> 'w relay_sys \<Rightarrow> 'w relay_call \<Rightarrow> 'w relay_sys \<times> relay_result" where
  "relay_step cr s (VTick d) =
     (if 0 \<le> d \<and> in_time s d then (s\<lparr>sy_clock := sy_clock s + d\<rparr>, VNothing) else (s, VNothing))"
| "relay_step cr s (VCheck g wire) =
     (if sy_flight s g \<noteq> None then (s, VNothing)
      else case verify_check wire (sy_clock s) (sy_clock s) (sy_verifier s) of
        (v, Inl e) \<Rightarrow> (s\<lparr>sy_verifier := v\<rparr>, VRejected e)
      | (v, Inr (w, e)) \<Rightarrow>
          (s\<lparr>sy_verifier := v, sy_flight := (sy_flight s)(g \<mapsto> (w, e, sy_clock s))\<rparr>, VNothing))"
| "relay_step cr s (VFinish g world) =
     (case sy_flight s g of
        None \<Rightarrow> (s, VNothing)
      | Some (w, e, t) \<Rightarrow>
          (case verify_finish cr world w e (sy_verifier s) of
             (v, r) \<Rightarrow>
               (s\<lparr>sy_verifier := v, sy_flight := (sy_flight s)(g := None)\<rparr>,
                (case r of Inl err \<Rightarrow> VRejected err | Inr tk \<Rightarrow> VAccepted tk))))"
| "relay_step cr s VSweep = (s\<lparr>sy_verifier := SweepNow (sy_clock s) (sy_verifier s)\<rparr>, VNothing)"

abbreviation record_of :: "'w relay_sys \<Rightarrow> RelayTicket \<Rightarrow> time option" where
  "record_of s w \<equiv> map_of (vf_replay (sy_verifier s)) (rt_TicketId w)"

definition sys_inv :: "'w relay_sys \<Rightarrow> bool" where
  "sys_inv s \<longleftrightarrow>
     distinct (map fst (vf_replay (sy_verifier s))) \<and>
     (\<forall>g w e t. sy_flight s g = Some (w, e, t) \<longrightarrow>
        record_of s w = Some t \<and> rt_ExpiresAt w = Some e \<and> e \<le> t + ticketReplayTTL \<and>
        sy_clock s \<le> t + ticketReplayTTL) \<and>
     (\<forall>g h w e t w' e' t'. sy_flight s g = Some (w, e, t) \<and> sy_flight s h = Some (w', e', t') \<and>
        rt_TicketId w = rt_TicketId w' \<longrightarrow> g = h)"

definition flying :: "'w relay_sys \<Rightarrow> RelayTicket \<Rightarrow> bool" where
  "flying s w \<longleftrightarrow> (\<exists>g e t. sy_flight s g = Some (w, e, t))"

definition id_flying :: "'w relay_sys \<Rightarrow> bytes \<Rightarrow> bool" where
  "id_flying s tid \<longleftrightarrow> (\<exists>g w e t. sy_flight s g = Some (w, e, t) \<and> rt_TicketId w = tid)"

definition ticket_spent :: "'w relay_sys \<Rightarrow> RelayTicket \<Rightarrow> bool" where
  "ticket_spent s w \<longleftrightarrow>
     (\<exists>e. rt_ExpiresAt w = Some e \<and>
       ((e < sy_clock s \<and> \<not> flying s w) \<or>
        (\<exists>r. record_of s w = Some r \<and> e \<le> r + ticketReplayTTL \<and> \<not> id_flying s (rt_TicketId w))))"

lemma map_of_filter_distinct:
  "distinct (map fst xs) \<Longrightarrow>
     map_of (filter (\<lambda>(k, r). P k r) xs) k = (case map_of xs k of Some r \<Rightarrow> if P k r then Some r else None | None \<Rightarrow> None)"
  by (induction xs) (auto simp: image_iff map_of_eq_None_iff split: option.splits dest: map_of_SomeD)

lemma distinct_map_fst_filter: "distinct (map fst xs) \<Longrightarrow> distinct (map fst (filter P xs))"
  by (induction xs) auto

text \<open>A sweep keeps the records young enough, a roll-back drops the one it names.\<close>

lemma record_sweep:
  assumes "distinct (map fst (vf_replay v))"
  shows "map_of (vf_replay (sweepLocked now v)) k =
    (case map_of (vf_replay v) k of
       Some r \<Rightarrow> if now - ticketReplayTTL \<le> r then Some r else None | None \<Rightarrow> None)"
  using map_of_filter_distinct [OF assms, of "\<lambda>_ r. now - ticketReplayTTL \<le> r" k]
  by (simp add: sweepLocked_replay)

lemma record_forget:
  assumes "distinct (map fst (vf_replay v))"
  shows "map_of (vf_replay (forgetReplay tid v)) k = (if k = tid then None else map_of (vf_replay v) k)"
  using map_of_filter_distinct [OF assms, of "\<lambda>key _. key \<noteq> tid" k]
  by (simp add: forgetReplay_def split: option.splits)

lemma distinct_replay [simp]:
  "distinct (map fst (vf_replay v)) \<Longrightarrow> distinct (map fst (vf_replay (sweepLocked now v)))"
  "distinct (map fst (vf_replay v)) \<Longrightarrow> distinct (map fst (vf_replay (forgetReplay tid v)))"
  by (simp_all add: sweepLocked_replay forgetReplay_def distinct_map_fst_filter)

text \<open>What the two halves of a verification do to the verifier.\<close>

lemma verify_check_cases:
  obtains (shape) err where "verify_check wire now now v = (v, Inl err)"
  | (known) err where "verify_check wire now now v = (sweepLocked now v, Inl err)"
  | (fresh) w e where "wire = Some w" "rt_ExpiresAt w = Some e" "now \<le> e" "e \<le> now + ticketReplayTTL"
      "map_of (vf_replay (sweepLocked now v)) (rt_TicketId w) = None"
      "verify_check wire now now v =
         ((sweepLocked now v)\<lparr>vf_replay := (rt_TicketId w, now) # vf_replay (sweepLocked now v)\<rparr>, Inr (w, e))"
proof (cases "verify_shape wire now")
  case (Inl err)
  then show thesis by (intro shape [of err]) (simp add: verify_check_def)
next
  case (Inr p)
  obtain w e where p: "p = (w, e)" by fastforce
  note shape_ok = Inr [unfolded p verify_shape_Inr]
  show thesis
  proof (cases "map_of (vf_replay (sweepLocked now v)) (rt_TicketId w)")
    case None
    then have "verify_check wire now now v =
       ((sweepLocked now v)\<lparr>vf_replay := (rt_TicketId w, now) # vf_replay (sweepLocked now v)\<rparr>, Inr (w, e))"
      using Inr p by (simp add: verify_check_def checkAndRecordReplay_def Let_def)
    then show thesis using shape_ok None by (intro fresh [of w e]) simp_all
  next
    case (Some r)
    then show thesis
      using Inr p
      by (intro known [of ErrTicketReplayed]) (simp add: verify_check_def checkAndRecordReplay_def Let_def)
  qed
qed

lemma verify_finish_cases:
  obtains (rejected) err where "verify_finish cr world w e v = (forgetReplay (rt_TicketId w) v, Inl err)"
  | (accepted) key where "verify_finish cr world w e v = (v, Inr \<lparr>tk_wire = w, tk_issuer = key, tk_expires = e\<rparr>)"
proof (cases "verifySignature cr v w")
  case (Inl err)
  then show thesis by (intro rejected [of err]) (simp add: verify_finish_def)
next
  case (Inr key)
  then show thesis
    using rejected [of ErrTicketRevoked] accepted [of key]
    by (cases "case vf_authorizer v of None \<Rightarrow> False
          | Some authorizer \<Rightarrow> authorizer world (rt_DeviceId w) (rt_IssuerEpoch w) \<noteq> None")
       (simp_all add: verify_finish_def Let_def)
qed

lemma sys_invD:
  assumes "sys_inv s"
  shows "distinct (map fst (vf_replay (sy_verifier s)))"
    "sy_flight s g = Some (w, e, t) \<Longrightarrow> record_of s w = Some t"
    "sy_flight s g = Some (w, e, t) \<Longrightarrow> rt_ExpiresAt w = Some e"
    "sy_flight s g = Some (w, e, t) \<Longrightarrow> e \<le> t + ticketReplayTTL"
    "sy_flight s g = Some (w, e, t) \<Longrightarrow> sy_clock s \<le> t + ticketReplayTTL"
    "sy_flight s g = Some (w, e, t) \<Longrightarrow> sy_flight s h = Some (w', e', t') \<Longrightarrow>
       rt_TicketId w = rt_TicketId w' \<Longrightarrow> g = h"
  using assms unfolding sys_inv_def by blast+

text \<open>Sweeping at the current time keeps the records of all pending verifications.\<close>

lemma sys_inv_sweep:
  assumes "sys_inv s"
  shows "sys_inv (s\<lparr>sy_verifier := sweepLocked (sy_clock s) (sy_verifier s)\<rparr>)"
proof -
  note d = sys_invD(1) [OF assms]
  have "map_of (vf_replay (sweepLocked (sy_clock s) (sy_verifier s))) (rt_TicketId w) = Some t"
    if f: "sy_flight s g = Some (w, e, t)" for g w e t
    using sys_invD(2,5) [OF assms f] by (simp add: record_sweep [OF d])
  then show ?thesis
    using assms unfolding sys_inv_def by (auto simp: d)
qed

lemma sys_inv_step:
  assumes "sys_inv s"
  shows "sys_inv (fst (relay_step cr s c))"
proof (cases c)
  case (VTick d)
  then show ?thesis using assms by (auto simp: sys_inv_def in_time_def)
next
  case VSweep
  then show ?thesis using sys_inv_sweep [OF assms] by (simp add: SweepNow_def)
next
  case (VCheck g wire)
  note sw = sys_inv_sweep [OF assms]
  show ?thesis
  proof (cases "sy_flight s g")
    case None
    show ?thesis
    proof (cases rule: verify_check_cases [of wire "sy_clock s" "sy_verifier s"])
      case (fresh w e)
      let ?v = "sweepLocked (sy_clock s) (sy_verifier s)"
      have new: "rt_TicketId w' \<noteq> rt_TicketId w" if "sy_flight s h = Some (w', e', t')" for h w' e' t'
        using sys_invD(2) [OF sw, of h w' e' t'] that fresh(5) by auto
      have d: "distinct (map fst ((rt_TicketId w, sy_clock s) # vf_replay ?v))"
        using sys_invD(1) [OF sw] fresh(5) by (simp add: map_of_eq_None_iff)
      have "sys_inv (s\<lparr>sy_verifier := ?v\<lparr>vf_replay := (rt_TicketId w, sy_clock s) # vf_replay ?v\<rparr>,
          sy_flight := (sy_flight s)(g \<mapsto> (w, e, sy_clock s))\<rparr>)"
        using sw d new fresh(2,4) None unfolding sys_inv_def
        by (auto simp: ticketReplayTTL_def) metis+
      then show ?thesis using None fresh(6) by (simp add: VCheck)
    qed (use None VCheck sw assms in simp_all)
  qed (use VCheck assms in simp)
next
  case (VFinish g world)
  show ?thesis
  proof (cases "sy_flight s g")
    case (Some p)
    obtain w e t where p: "p = (w, e, t)" by (cases p) auto
    note d = sys_invD(1) [OF assms]
    show ?thesis
    proof (cases rule: verify_finish_cases [of cr world w e "sy_verifier s"])
      case (rejected err)
      have "rt_TicketId w' \<noteq> rt_TicketId w" if "h \<noteq> g" "sy_flight s h = Some (w', e', t')" for h w' e' t'
        using sys_invD(6) [OF assms that(2), of g w e t] that(1) Some p by auto
      then have "sys_inv (s\<lparr>sy_verifier := forgetReplay (rt_TicketId w) (sy_verifier s),
          sy_flight := (sy_flight s)(g := None)\<rparr>)"
        using assms unfolding sys_inv_def by (auto simp: d record_forget [OF d])
      then show ?thesis using Some p rejected by (simp add: VFinish)
    next
      case (accepted key)
      have "sys_inv (s\<lparr>sy_flight := (sy_flight s)(g := None)\<rparr>)"
        using assms unfolding sys_inv_def by (auto; blast)
      then show ?thesis using Some p accepted by (simp add: VFinish)
    qed
  qed (use VFinish assms in simp)
qed

lemma spent_sweep:
  assumes "sys_inv s" "ticket_spent s w"
  shows "ticket_spent (s\<lparr>sy_verifier := sweepLocked (sy_clock s) (sy_verifier s)\<rparr>) w"
proof -
  let ?s = "s\<lparr>sy_verifier := sweepLocked (sy_clock s) (sy_verifier s)\<rparr>"
  have fl: "flying ?s w = flying s w" "id_flying ?s (rt_TicketId w) = id_flying s (rt_TicketId w)"
    "flying s w \<Longrightarrow> id_flying s (rt_TicketId w)"
    by (auto simp: flying_def id_flying_def)
  obtain e where e: "rt_ExpiresAt w = Some e" and
    "e < sy_clock s \<and> \<not> flying s w \<or>
     (\<exists>r. record_of s w = Some r \<and> e \<le> r + ticketReplayTTL \<and> \<not> id_flying s (rt_TicketId w))"
    using assms(2) unfolding ticket_spent_def by blast
  then consider "e < sy_clock s" "\<not> flying s w"
    | r where "record_of s w = Some r" "e \<le> r + ticketReplayTTL" "\<not> id_flying s (rt_TicketId w)"
    by blast
  then show ?thesis
  proof cases
    case 1
    then show ?thesis using e fl unfolding ticket_spent_def by simp
  next
    case (2 r)
    then show ?thesis
      using e fl record_sweep [OF sys_invD(1) [OF assms(1)], of "sy_clock s" "rt_TicketId w"]
      unfolding ticket_spent_def by (cases "sy_clock s - ticketReplayTTL \<le> r") auto
  qed
qed

lemma spent_fresh:
  assumes "ticket_spent s w" "rt_ExpiresAt w' = Some e'" "sy_clock s \<le> e'"
    and "map_of (vf_replay (sy_verifier s)) (rt_TicketId w') = None" "sy_flight s g = None"
  shows "ticket_spent (s\<lparr>sy_verifier := (sy_verifier s)\<lparr>vf_replay := (rt_TicketId w', n) # vf_replay (sy_verifier s)\<rparr>,
    sy_flight := (sy_flight s)(g \<mapsto> (w', e', t))\<rparr>) w"
  using assms unfolding ticket_spent_def flying_def id_flying_def
  by (cases "w = w'"; cases "rt_TicketId w = rt_TicketId w'") auto

lemma spent_finish:
  assumes "sys_inv s" "ticket_spent s w" "sy_flight s g = Some (w', e', t')"
  shows "ticket_spent (s\<lparr>sy_flight := (sy_flight s)(g := None)\<rparr>) w"
    "ticket_spent (s\<lparr>sy_verifier := forgetReplay (rt_TicketId w') (sy_verifier s),
       sy_flight := (sy_flight s)(g := None)\<rparr>) w"
  using assms(2,3) record_forget [OF sys_invD(1) [OF assms(1)], of "rt_TicketId w'" "rt_TicketId w"]
  unfolding ticket_spent_def flying_def id_flying_def by fastforce+

lemma spent_step:
  assumes "sys_inv s" "ticket_spent s w"
  shows "ticket_spent (fst (relay_step cr s c)) w"
proof (cases c)
  case (VTick d)
  then show ?thesis
    using assms(2) unfolding ticket_spent_def flying_def id_flying_def by auto
next
  case VSweep
  then show ?thesis using spent_sweep [OF assms] by (simp add: SweepNow_def)
next
  case (VCheck g wire)
  note sw = spent_sweep [OF assms]
  show ?thesis
  proof (cases "sy_flight s g")
    case None
    show ?thesis
    proof (cases rule: verify_check_cases [of wire "sy_clock s" "sy_verifier s"])
      case (fresh w' e)
      then show ?thesis using spent_fresh [OF sw fresh(2), of g] None by (simp add: VCheck)
    qed (use None VCheck sw assms in simp_all)
  qed (use VCheck assms in simp)
next
  case (VFinish g world)
  show ?thesis
  proof (cases "sy_flight s g")
    case (Some p)
    obtain w' e t where p: "p = (w', e, t)" by (cases p) auto
    note fin = spent_finish [OF assms Some [unfolded p]]
    show ?thesis
      by (cases rule: verify_finish_cases [of cr world w' e "sy_verifier s"])
         (use Some p fin in \<open>simp_all add: VFinish\<close>)
  qed (use VFinish assms in simp)
qed

definition accepts :: "relay_result \<Rightarrow> RelayTicket \<Rightarrow> bool" where
  "accepts r w \<longleftrightarrow> (\<exists>tk. r = VAccepted tk \<and> tk_wire tk = w)"

lemma accepts_step:
  assumes "accepts (snd (relay_step cr s c)) w"
  obtains g world e t where "c = VFinish g world" "sy_flight s g = Some (w, e, t)"
    "fst (relay_step cr s c) = s\<lparr>sy_flight := (sy_flight s)(g := None)\<rparr>"
proof (cases c)
  case (VFinish g world)
  then obtain w' e t where f: "sy_flight s g = Some (w', e, t)"
    using assms by (cases "sy_flight s g") (auto simp: accepts_def)
  show thesis
    by (cases rule: verify_finish_cases [of cr world w' e "sy_verifier s"])
       (use assms f in \<open>auto simp: VFinish accepts_def intro!: that\<close>)
qed (use assms in \<open>auto simp: accepts_def split: if_splits sum.splits prod.splits\<close>)

interpretation ticket_once: one_shot "relay_step cr" sys_inv "\<lambda>_. True" "\<lambda>c. accepts" ticket_spent
  for cr
proof
  fix s :: "'a relay_sys" and c w
  assume inv: "sys_inv s"
  show "sys_inv (fst (relay_step cr s c))" by (rule sys_inv_step [OF inv])
  show "ticket_spent s w \<Longrightarrow> ticket_spent (fst (relay_step cr s c)) w" by (rule spent_step [OF inv])
  show "ticket_spent (fst (relay_step cr s c)) w" if acc: "accepts (snd (relay_step cr s c)) w"
  proof (rule accepts_step [OF acc])
    fix g world e t
    assume f: "sy_flight s g = Some (w, e, t)"
      and st: "fst (relay_step cr s c) = s\<lparr>sy_flight := (sy_flight s)(g := None)\<rparr>"
    have "\<not> id_flying (s\<lparr>sy_flight := (sy_flight s)(g := None)\<rparr>) (rt_TicketId w)"
      using sys_invD(6) [OF inv _ f] by (auto simp: id_flying_def)
    then show ?thesis
      using sys_invD(2-4) [OF inv f] unfolding st ticket_spent_def by auto
  qed
  show "\<not> accepts (snd (relay_step cr s c)) w" if "ticket_spent s w"
  proof
    assume acc: "accepts (snd (relay_step cr s c)) w"
    show False
      by (rule accepts_step [OF acc]) (use that in \<open>auto simp: ticket_spent_def flying_def id_flying_def\<close>)
  qed
qed


section \<open>Sample tickets\<close>

definition sample_crypto :: ticket_crypto where
  "sample_crypto = \<lparr>ed_Public = take 32, ed_Sign = (\<lambda>k m. replicate 64 (hd k)),
     ed_Verify = (\<lambda>p m s. s = replicate 64 (hd p)), marshal_ticket = (\<lambda>t. Some (rt_Nonce t)),
     Sum256 = (\<lambda>m. replicate 32 0)\<rparr>"

definition sample_random :: "byte \<Rightarrow> random" where
  "sample_random b n = Some (replicate n b)"

definition sample_issuer :: Issuer where
  "sample_issuer = \<lparr>is_private = replicate 64 3, is_public = replicate 32 3\<rparr>"

definition sample_issue :: IssueInput where
  "sample_issue = \<lparr>ii_RouteID = replicate 16 1, ii_DeviceID = replicate 16 2, ii_Endpoint = 1,
     ii_MaxConnections = 1, ii_Lifetime = 0, ii_ExpiresAt = 600 * second, ii_IssuerEpoch = 4\<rparr>"

definition sample_ticket :: RelayTicket where
  "sample_ticket = \<lparr>rt_Version = 1, rt_TicketId = replicate 16 5, rt_RouteId = replicate 16 1,
     rt_Endpoint = 1, rt_DeviceId = replicate 16 2, rt_ExpiresAt = Some (600 * second),
     rt_MaxConnections = 1, rt_Nonce = replicate 16 6, rt_IssuerSignature = replicate 64 3,
     rt_IssuerEpoch = 4\<rparr>"

definition sample_verifier :: "unit Verifier" where
  "sample_verifier = NewVerifier [replicate 32 3]"

lemma sample_crypto_ok: "crypto_ok sample_crypto"
  by (auto simp: crypto_ok_def sample_crypto_def hd_conv_nth)

lemma sample_random_ok: "random_ok (sample_random b)"
  by (simp add: random_ok_def sample_random_def)

lemma sample_issued:
  "NewIssuer sample_crypto (replicate 64 3) = Inr sample_issuer"
  "Issue sample_crypto sample_issuer sample_issue 0 (sample_random 5) (sample_random 6) = Inr sample_ticket"
  by (simp_all add: NewIssuer_def sample_crypto_def sample_issuer_def Issue_def sample_issue_def
      randomBytes_def sample_random_def signTicket_def encodeTicketBody_def sample_ticket_def
      zero_time_def Let_def)

theorem issued_ticket_verifies_witness:
  "\<exists>tk. snd (Verify sample_crypto () (Some sample_ticket) 0 0 sample_verifier) = Inr tk \<and>
     tk_RouteID tk = replicate 16 1 \<and> tk_IssuerEpoch tk = 4"
proof -
  have "sample_verifier = (NewVerifier [replicate 32 3])\<lparr>vf_replay := [], vf_authorizer := None\<rparr>"
    by (simp add: sample_verifier_def NewVerifier_def)
  then show ?thesis
    using issued_ticket_verifies [OF sample_crypto_ok sample_random_ok sample_random_ok sample_issued
        _ \<open>sample_verifier = _\<close>, of "600 * second" 0 0 "()"]
    by (auto simp: is_PublicKey_def sample_issuer_def sample_ticket_def zero_time_def ticketReplayTTL_def
        remembered_def allowed_def sample_verifier_def NewVerifier_def sample_issue_def)
qed

theorem minted_pair_matches_witness:
  "\<exists>a c. Pair_tickets sample_crypto (Some sample_issuer)
     \<lparr>pi_RouteID = replicate 16 1, pi_AgentID = replicate 16 2, pi_ClientID = replicate 16 9,
      pi_Lifetime = minute, pi_MaxConnections = 0, pi_IssuedAt = zero_time, pi_IssuerEpoch = 4\<rparr>
     (0, sample_random 5, sample_random 6) (1, sample_random 7, sample_random 8) = Inr (a, c) \<and>
     rt_RouteId a = rt_RouteId c \<and> rt_ExpiresAt a \<noteq> rt_ExpiresAt c"
proof -
  let ?p = "\<lparr>pi_RouteID = replicate 16 1, pi_AgentID = replicate 16 2, pi_ClientID = replicate 16 9,
      pi_Lifetime = minute, pi_MaxConnections = 0, pi_IssuedAt = zero_time, pi_IssuerEpoch = 4\<rparr>"
  let ?r = "Pair_tickets sample_crypto (Some sample_issuer) ?p
     (0, sample_random 5, sample_random 6) (1, sample_random 7, sample_random 8)"
  obtain a c where r: "?r = Inr (a, c)"
    by (simp add: Pair_tickets_def pair_mint_def Issue_def randomBytes_def sample_random_def
        signTicket_def encodeTicketBody_def sample_crypto_def Let_def)
  show ?thesis
    using minted_pair_matches [OF sample_crypto_ok sample_random_ok sample_random_ok sample_random_ok
        sample_random_ok r] r by auto
qed

theorem revoked_ticket_rejected_witness:
  "\<exists>err. snd (Verify sample_crypto (5 :: u64) (Some sample_ticket) 0 0
     (SetAuthorizer (Some (StoreAuthorizer (Some id))) (NewVerifier [replicate 32 3]))) = Inl err"
  using revoked_ticket_rejected [of "SetAuthorizer (Some (StoreAuthorizer (Some id))) (NewVerifier [replicate 32 3])"
      id sample_ticket "5 :: u64" 0 sample_crypto 0]
  by (simp add: SetAuthorizer_def NewVerifier_def sample_ticket_def remembered_def)

text \<open>
  One verification reads the clock twice, for the expiry and for the replay set. If its goroutine
  stalls between the two readings until the record of a ticket is swept, the ticket is accepted a
  second time: here it is accepted at time 0, and again by a verification that read 600 s, the
  moment of the expiry, for the expiry and a nanosecond later for the replay set.
\<close>

lemma stalled_verification_replays:
  "(\<exists>v1 a v2 b. Verify sample_crypto () (Some sample_ticket) 0 0 sample_verifier = (v1, Inr a) \<and>
     Verify sample_crypto () (Some sample_ticket) (600 * second) (600 * second + 1) v1 = (v2, Inr b))"
  by (simp add: Verify_def verify_check_def verify_shape_def verify_finish_def checkAndRecordReplay_def
      sweepLocked_def verifySignature_def encodeTicketBody_def sample_ticket_def sample_verifier_def
      NewVerifier_def sample_crypto_def zero_time_def ticketReplayTTL_def Let_def)

end
