(* ===== verification/Relay_Router.thy ===== *)
theory Relay_Router
  imports Relay_Ticket "HOL-Library.AList"
begin

text \<open>
  The relay's route table (\<^verbatim>\<open>src/internal/relay/router.go\<close>). A peer is the value the router sees of
  a connection: an identity and what its accessors report. Closing a peer and handing bytes to it
  are effects outside the router, so the operations return the list of peers they close and
  \<open>Forward\<close> the delivery it makes; whether the destination accepts the bytes is an argument. The
  route map is an association list with one entry per route ID, in the order a \<^verbatim>\<open>range\<close> loop meets
  them. \<^verbatim>\<open>StartSweeper\<close> only calls \<^verbatim>\<open>Sweep\<close> on a ticker and is the sequence of those calls.
\<close>

section \<open>State\<close>

datatype router_error =
    ErrRouteFull
  | ErrRouteEndpoint
  | ErrRouteMismatch
  | ErrRouteUnknown
  | ErrPeerClosed
  | ErrPeerMissing
  | ErrRouterStopped

record Peer =
  pe_id :: nat
  pe_Endpoint :: int
  pe_RouteID :: bytes
  pe_DeviceID :: bytes

record route =
  ro_id :: bytes
  ro_connectionCap :: u32
  ro_agent :: "Peer option"
  ro_client :: "Peer option"
  ro_createdAt :: time
  ro_lastActivity :: time

record Router =
  rr_routes :: "(bytes \<times> route) list"
  rr_stopped :: bool
  rr_idle :: duration
  rr_maxLife :: duration
  rr_sweepInt :: duration

record RouterConfig =
  rc_IdleTimeout :: duration
  rc_MaxLifetime :: duration
  rc_SweepInterval :: duration

record SweepResult =
  sr_IdleClosed :: nat
  sr_ExpiredClosed :: nat

abbreviation defaultRouteIdleTimeout :: duration where "defaultRouteIdleTimeout \<equiv> 5 * minute"
abbreviation defaultRouteMaxLifetime :: duration where "defaultRouteMaxLifetime \<equiv> 30 * minute"
abbreviation defaultSweepInterval :: duration where "defaultSweepInterval \<equiv> 30 * second"

definition occupied :: "route \<Rightarrow> nat" where
  "occupied r = (if ro_agent r \<noteq> None then 1 else 0) + (if ro_client r \<noteq> None then 1 else 0)"

definition otherOf :: "route \<Rightarrow> Peer option \<Rightarrow> Peer option" where
  "otherOf r peer =
     (case peer of
        None \<Rightarrow> None
      | Some p \<Rightarrow>
          (if pe_Endpoint p = RELAY_ENDPOINT_AGENT then ro_client r
           else if pe_Endpoint p = RELAY_ENDPOINT_CLIENT then ro_agent r
           else None))"

definition NewRouterWithConfig :: "RouterConfig \<Rightarrow> Router" where
  "NewRouterWithConfig cfg =
     \<lparr>rr_routes = [], rr_stopped = False,
      rr_idle = (if rc_IdleTimeout cfg \<le> 0 then defaultRouteIdleTimeout else rc_IdleTimeout cfg),
      rr_maxLife = (if rc_MaxLifetime cfg = 0 then defaultRouteMaxLifetime else rc_MaxLifetime cfg),
      rr_sweepInt = (if rc_SweepInterval cfg \<le> 0 then defaultSweepInterval else rc_SweepInterval cfg)\<rparr>"

definition NewRouter :: Router where
  "NewRouter = NewRouterWithConfig \<lparr>rc_IdleTimeout = 0, rc_MaxLifetime = 0, rc_SweepInterval = 0\<rparr>"

section \<open>Operations\<close>

text \<open>\<^verbatim>\<open>closeRoute\<close> on a route that is no longer in the table: the peers it closes.\<close>

definition closeRoute :: "route \<Rightarrow> Peer list" where
  "closeRoute rt =
     (case ro_agent rt of None \<Rightarrow> [] | Some p \<Rightarrow> [p]) @ (case ro_client rt of None \<Rightarrow> [] | Some p \<Rightarrow> [p])"

definition expired :: "Router \<Rightarrow> time \<Rightarrow> route \<Rightarrow> bool" where
  "expired router now rt \<longleftrightarrow> rr_maxLife router > 0 \<and> now - ro_createdAt rt \<ge> rr_maxLife router"

definition Sweep :: "time \<Rightarrow> Router \<Rightarrow> Router \<times> SweepResult \<times> Peer list" where
  "Sweep now router =
     (if rr_stopped router then (router, \<lparr>sr_IdleClosed = 0, sr_ExpiredClosed = 0\<rparr>, [])
      else
        let doomed = (\<lambda>rt. expired router now rt \<or>
                        rr_idle router > 0 \<and> now - ro_lastActivity rt \<ge> rr_idle router);
            toClose = filter doomed (map snd (rr_routes router))
        in (router\<lparr>rr_routes := foldl (\<lambda>rs rt. AList.delete (ro_id rt) rs) (rr_routes router) toClose\<rparr>,
            \<lparr>sr_IdleClosed = length (filter (\<lambda>rt. \<not> expired router now rt) toClose),
             sr_ExpiredClosed = length (filter (expired router now) toClose)\<rparr>,
            concat (map closeRoute toClose)))"

definition Stop :: "Router \<Rightarrow> Router \<times> Peer list" where
  "Stop router =
     (if rr_stopped router then (router, [])
      else (router\<lparr>rr_stopped := True, rr_routes := []\<rparr>,
            concat (map (closeRoute \<circ> snd) (rr_routes router))))"

record Route =
  rh_id :: bytes
  rh_endpoint :: int
  rh_owner :: Peer

definition new_route :: "bytes \<Rightarrow> Ticket \<Rightarrow> time \<Rightarrow> route" where
  "new_route routeID ticket now =
     \<lparr>ro_id = routeID,
      ro_connectionCap = (if tk_MaxConnections ticket < 2 then 2 else tk_MaxConnections ticket),
      ro_agent = None, ro_client = None, ro_createdAt = now, ro_lastActivity = now\<rparr>"

text \<open>
  \<^verbatim>\<open>Join\<close>, with the clock reading \<open>now\<close>. The nil router, ticket and peer are options. A route
  created for the call stays in the table when the call then fails.
\<close>

definition Join ::
    "Router option \<Rightarrow> Ticket option \<Rightarrow> Peer option \<Rightarrow> time \<Rightarrow>
     Router option \<times> (router_error + Route \<times> Peer option)" where
  "Join router ticket peer now =
     (case router of None \<Rightarrow> (None, Inl ErrRouterStopped) | Some r \<Rightarrow>
      case ticket of None \<Rightarrow> (router, Inl ErrRouteMismatch) | Some t \<Rightarrow>
      case peer of None \<Rightarrow> (router, Inl ErrPeerClosed) | Some p \<Rightarrow>
      if rr_stopped r then (router, Inl ErrRouterStopped)
      else
        let routeID = tk_RouteID t;
            rt = (case map_of (rr_routes r) routeID of Some x \<Rightarrow> x | None \<Rightarrow> new_route routeID t now);
            store = (\<lambda>x. Some (r\<lparr>rr_routes := AList.update routeID x (rr_routes r)\<rparr>));
            joined = (\<lambda>x. (store x,
              Inr (\<lparr>rh_id = routeID, rh_endpoint = tk_Endpoint t, rh_owner = p\<rparr>, otherOf x (Some p))))
        in if occupied rt \<ge> unat (ro_connectionCap rt) then (store rt, Inl ErrRouteFull)
           else if tk_Endpoint t = RELAY_ENDPOINT_AGENT then
             (if ro_agent rt \<noteq> None then (store rt, Inl ErrRouteEndpoint)
              else joined (rt\<lparr>ro_agent := Some p\<rparr>))
           else if tk_Endpoint t = RELAY_ENDPOINT_CLIENT then
             (if ro_client rt \<noteq> None then (store rt, Inl ErrRouteEndpoint)
              else joined (rt\<lparr>ro_client := Some p\<rparr>))
           else (store rt, Inl ErrRouteMismatch))"

definition Leave :: "Peer option \<Rightarrow> Router option \<Rightarrow> Router option \<times> Peer list" where
  "Leave peer router =
     (case (router, peer) of
        (Some r, Some p) \<Rightarrow>
          (let routeID = pe_RouteID p in
           case map_of (rr_routes r) routeID of
             None \<Rightarrow> (router, [])
           | Some rt \<Rightarrow>
               let (rt', other) =
                 (if pe_Endpoint p = RELAY_ENDPOINT_AGENT then (rt\<lparr>ro_agent := None\<rparr>, ro_client rt)
                  else if pe_Endpoint p = RELAY_ENDPOINT_CLIENT then (rt\<lparr>ro_client := None\<rparr>, ro_agent rt)
                  else (rt, None));
                   shouldClose = (ro_agent rt' = None \<or> ro_client rt' = None)
               in if shouldClose
                  then (Some (r\<lparr>rr_routes := AList.delete routeID (rr_routes r)\<rparr>),
                        p # (case other of None \<Rightarrow> [] | Some q \<Rightarrow> [q]))
                  else (Some (r\<lparr>rr_routes := AList.update routeID rt' (rr_routes r)\<rparr>), []))
      | _ \<Rightarrow> (router, []))"

text \<open>
  The locked part of \<^verbatim>\<open>Forward\<close>: the destination, with the activity time updated; and the whole
  call, where \<open>accepts\<close> says whether the destination takes the bytes. The result names the peer the
  bytes were handed to, also when it refused them.
\<close>

definition forward_lookup :: "Route \<Rightarrow> time \<Rightarrow> Router \<Rightarrow> Router \<times> (router_error + Peer)" where
  "forward_lookup h now r =
     (case map_of (rr_routes r) (rh_id h) of
        None \<Rightarrow> (r, Inl ErrRouteUnknown)
      | Some rt \<Rightarrow>
          (case otherOf rt (Some (rh_owner h)) of
             None \<Rightarrow> (r, Inl ErrPeerMissing)
           | Some dest \<Rightarrow>
               (r\<lparr>rr_routes := AList.update (rh_id h) (rt\<lparr>ro_lastActivity := now\<rparr>) (rr_routes r)\<rparr>, Inr dest)))"

definition rt_Forward ::
    "Route option \<Rightarrow> time \<Rightarrow> bool \<Rightarrow> Router option \<Rightarrow> Router option \<times> (router_error + Peer) \<times> Peer list" where
  "rt_Forward handle now accepted router =
     (case (handle, router) of
        (Some h, Some r) \<Rightarrow>
          (case forward_lookup h now r of
             (r', Inl e) \<Rightarrow> (Some r', Inl e, [])
           | (r', Inr dest) \<Rightarrow>
               (if accepted then (Some r', Inr dest, [])
                else let (r'', closed) = Leave (Some dest) (Some r') in (r'', Inr dest, closed)))
      | _ \<Rightarrow> (router, Inl ErrRouterStopped, []))"

section \<open>The table\<close>

text \<open>The router is driven by calls; each result lists the peers the call closed.\<close>

datatype router_call =
    KJoin Ticket Peer time
  | KLeave Peer
  | KForward Route time bool
  | KSweep time
  | KStop

datatype router_result =
    KJoined "Peer option"
  | KDelivered Peer
  | KFailed router_error
  | KDone

fun router_step :: "Router \<Rightarrow> router_call \<Rightarrow> Router \<times> router_result \<times> Peer list" where
  "router_step r (KJoin t p now) =
     (case Join (Some r) (Some t) (Some p) now of
        (r', Inl e) \<Rightarrow> (the r', KFailed e, [])
      | (r', Inr (h, other)) \<Rightarrow> (the r', KJoined other, []))"
| "router_step r (KLeave p) = (let (r', closed) = Leave (Some p) (Some r) in (the r', KDone, closed))"
| "router_step r (KForward h now accepted) =
     (let (r', res, closed) = rt_Forward (Some h) now accepted (Some r)
      in (the r', case res of Inl e \<Rightarrow> KFailed e | Inr dest \<Rightarrow> KDelivered dest, closed))"
| "router_step r (KSweep now) = (let (r', _, closed) = Sweep now r in (r', KDone, closed))"
| "router_step r KStop = (let (r', closed) = Stop r in (r', KDone, closed))"

text \<open>
  What the relay server guarantees of the calls: a peer reports the route and endpoint of the
  ticket it joins with, and a handle is used by the peer it was made for.
\<close>

fun router_ok :: "router_call \<Rightarrow> bool" where
  "router_ok (KJoin t p now) \<longleftrightarrow> pe_RouteID p = tk_RouteID t \<and> pe_Endpoint p = tk_Endpoint t"
| "router_ok (KForward h now accepted) \<longleftrightarrow> rh_id h = pe_RouteID (rh_owner h)"
| "router_ok _ \<longleftrightarrow> True"

definition route_ok :: "bytes \<Rightarrow> route \<Rightarrow> bool" where
  "route_ok k rt \<longleftrightarrow> ro_id rt = k \<and>
     (\<forall>p. ro_agent rt = Some p \<longrightarrow> pe_RouteID p = k \<and> pe_Endpoint p = RELAY_ENDPOINT_AGENT) \<and>
     (\<forall>p. ro_client rt = Some p \<longrightarrow> pe_RouteID p = k \<and> pe_Endpoint p = RELAY_ENDPOINT_CLIENT)"

definition router_inv :: "Router \<Rightarrow> bool" where
  "router_inv r \<longleftrightarrow> distinct (map fst (rr_routes r)) \<and>
     (\<forall>k rt. map_of (rr_routes r) k = Some rt \<longrightarrow> route_ok k rt)"

definition route_peers :: "route \<Rightarrow> Peer set" where
  "route_peers rt = set_option (ro_agent rt) \<union> set_option (ro_client rt)"

definition peers :: "Router \<Rightarrow> Peer set" where
  "peers r = (\<Union>k. \<Union>rt \<in> set_option (map_of (rr_routes r) k). route_peers rt)"

lemma peers_iff: "p \<in> peers r \<longleftrightarrow> (\<exists>k rt. map_of (rr_routes r) k = Some rt \<and> p \<in> route_peers rt)"
  by (force simp: peers_def)

definition peers_but :: "Router \<Rightarrow> bytes \<Rightarrow> Peer set" where
  "peers_but r k = {p. \<exists>j rt. j \<noteq> k \<and> map_of (rr_routes r) j = Some rt \<and> p \<in> route_peers rt}"

lemma peers_split:
  "peers r = peers_but r k \<union> (case map_of (rr_routes r) k of None \<Rightarrow> {} | Some rt \<Rightarrow> route_peers rt)"
proof (rule set_eqI)
  fix p
  show "p \<in> peers r \<longleftrightarrow>
      p \<in> peers_but r k \<union> (case map_of (rr_routes r) k of None \<Rightarrow> {} | Some rt \<Rightarrow> route_peers rt)"
  proof (cases "map_of (rr_routes r) k")
    case None
    then show ?thesis by (simp add: peers_iff peers_but_def) (metis option.distinct(1))
  next
    case (Some rt)
    then show ?thesis by (simp add: peers_iff peers_but_def) (metis option.inject)
  qed
qed

lemma peers_update:
  "peers (r\<lparr>rr_routes := AList.update k rt (rr_routes r)\<rparr>) = peers_but r k \<union> route_peers rt"
  by (subst peers_split [of _ k]) (auto simp: peers_but_def update_conv' split: if_splits)

lemma peers_delete:
  "distinct (map fst (rr_routes r)) \<Longrightarrow>
     peers (r\<lparr>rr_routes := AList.delete k (rr_routes r)\<rparr>) = peers_but r k"
  by (subst peers_split [of _ k]) (auto simp: peers_but_def delete_conv' split: if_splits)

lemma set_closeRoute [simp]: "set (closeRoute rt) = route_peers rt"
  by (auto simp: closeRoute_def route_peers_def split: option.splits)

lemma router_inv_update:
  "router_inv r \<Longrightarrow> route_ok k rt \<Longrightarrow> router_inv (r\<lparr>rr_routes := AList.update k rt (rr_routes r)\<rparr>)"
  by (auto simp: router_inv_def update_conv' distinct_update split: if_splits)

lemma map_of_delete:
  "distinct (map fst xs) \<Longrightarrow> map_of (AList.delete k xs) = (map_of xs)(k := None)"
  by (rule delete_conv')

lemma router_inv_delete:
  "router_inv r \<Longrightarrow> router_inv (r\<lparr>rr_routes := AList.delete k (rr_routes r)\<rparr>)"
  by (auto simp: router_inv_def delete_conv' distinct_delete split: if_splits)

text \<open>Joining: either the peers stay as they were, or the slot was empty and the peer is added.\<close>

lemma Join_cases:
  assumes "router_inv r" "pe_RouteID p = tk_RouteID t" "pe_Endpoint p = tk_Endpoint t"
  obtains (failed) r' e where "Join (Some r) (Some t) (Some p) now = (Some r', Inl e)" "router_inv r'"
      "peers r' = peers r"
  | (joined) r' h other where "Join (Some r) (Some t) (Some p) now = (Some r', Inr (h, other))" "router_inv r'"
      "peers r' = insert p (peers r)" "\<not> rr_stopped r"
      "rh_id h = pe_RouteID p" "rh_owner h = p" "tk_Endpoint t = 1 \<or> tk_Endpoint t = 2"
proof (cases "rr_stopped r")
  case True
  then show thesis using assms(1) by (intro failed) (simp_all add: Join_def)
next
  case False
  define k where "k = tk_RouteID t"
  define rt where "rt = (case map_of (rr_routes r) k of Some x \<Rightarrow> x | None \<Rightarrow> new_route k t now)"
  let ?st = "\<lambda>x. r\<lparr>rr_routes := AList.update k x (rr_routes r)\<rparr>"
  have ok: "route_ok k rt"
    using assms(1) by (auto simp: rt_def router_inv_def new_route_def route_ok_def split: option.split)
  have old: "map_of (rr_routes r) k = Some x \<Longrightarrow> x = rt" "map_of (rr_routes r) k = None \<Longrightarrow> route_peers rt = {}" for x
    by (auto simp: rt_def route_peers_def new_route_def)
  have peers: "peers (?st x) = peers_but r k \<union> route_peers x" for x by (rule peers_update)
  have base: "peers r = peers_but r k \<union> route_peers rt"
    using old by (subst peers_split [of r k]) (auto split: option.split)
  have fail: "Join (Some r) (Some t) (Some p) now = (Some (?st rt), Inl e) \<Longrightarrow> thesis" for e
    using router_inv_update [OF assms(1) ok] peers [of rt] base by (intro failed [of "?st rt" e]) simp_all
  have join: thesis
    if "Join (Some r) (Some t) (Some p) now = (Some (?st x), Inr (\<lparr>rh_id = k, rh_endpoint = tk_Endpoint t, rh_owner = p\<rparr>, otherOf x (Some p)))"
      "route_ok k x" "route_peers x = insert p (route_peers rt)" "tk_Endpoint t = 1 \<or> tk_Endpoint t = 2" for x
    using router_inv_update [OF assms(1) that(2)] peers [of x] base that False assms(2)
    by (intro joined [OF that(1)]) (simp_all add: k_def)
  let ?in = "\<lambda>x. (Some (?st x),
    Inr (\<lparr>rh_id = k, rh_endpoint = tk_Endpoint t, rh_owner = p\<rparr>, otherOf x (Some p)))"
  have J: "Join (Some r) (Some t) (Some p) now =
     (if occupied rt \<ge> unat (ro_connectionCap rt) then (Some (?st rt), Inl ErrRouteFull)
      else if tk_Endpoint t = 1 then
        (if ro_agent rt \<noteq> None then (Some (?st rt), Inl ErrRouteEndpoint) else ?in (rt\<lparr>ro_agent := Some p\<rparr>))
      else if tk_Endpoint t = 2 then
        (if ro_client rt \<noteq> None then (Some (?st rt), Inl ErrRouteEndpoint) else ?in (rt\<lparr>ro_client := Some p\<rparr>))
      else (Some (?st rt), Inl ErrRouteMismatch))"
    unfolding rt_def k_def using False by (simp add: Join_def Let_def)
  have slots: "tk_Endpoint t = 1 \<Longrightarrow> route_ok k (rt\<lparr>ro_agent := Some p\<rparr>)"
    "tk_Endpoint t = 2 \<Longrightarrow> route_ok k (rt\<lparr>ro_client := Some p\<rparr>)"
    "ro_agent rt = None \<Longrightarrow> route_peers (rt\<lparr>ro_agent := Some p\<rparr>) = insert p (route_peers rt)"
    "ro_client rt = None \<Longrightarrow> route_peers (rt\<lparr>ro_client := Some p\<rparr>) = insert p (route_peers rt)"
    using ok assms(2,3) by (auto simp: route_ok_def route_peers_def k_def)
  show thesis
  proof (cases "occupied rt \<ge> unat (ro_connectionCap rt) \<or> tk_Endpoint t = 1 \<and> ro_agent rt \<noteq> None \<or>
      tk_Endpoint t = 2 \<and> ro_client rt \<noteq> None \<or> tk_Endpoint t \<notin> {1, 2}")
    case True
    then have "\<exists>e. Join (Some r) (Some t) (Some p) now = (Some (?st rt), Inl e)" unfolding J by auto
    then show thesis using fail by blast
  next
    case free: False
    show thesis
    proof (cases "tk_Endpoint t = 1")
      case True
      then show thesis using free slots J by (intro join [of "rt\<lparr>ro_agent := Some p\<rparr>"]) auto
    next
      case False
      then show thesis using free slots J by (intro join [of "rt\<lparr>ro_client := Some p\<rparr>"]) auto
    qed
  qed
qed

text \<open>Leaving a route closes it: the peer and whoever held the other endpoint.\<close>

lemma Leave_cases:
  assumes "router_inv r"
  obtains (absent) "Leave (Some p) (Some r) = (Some r, [])"
  | (kept) r' where "Leave (Some p) (Some r) = (Some r', [])" "router_inv r'" "peers r' = peers r"
  | (dropped) rt where "map_of (rr_routes r) (pe_RouteID p) = Some rt"
      "Leave (Some p) (Some r) =
         (Some (r\<lparr>rr_routes := AList.delete (pe_RouteID p) (rr_routes r)\<rparr>),
          p # (case otherOf rt (Some p) of None \<Rightarrow> [] | Some q \<Rightarrow> [q]))"
proof (cases "map_of (rr_routes r) (pe_RouteID p)")
  case None
  then show thesis by (intro absent) (simp add: Leave_def)
next
  case (Some rt)
  consider "pe_Endpoint p = 1" | "pe_Endpoint p = 2" | "pe_Endpoint p \<noteq> 1" "pe_Endpoint p \<noteq> 2" by blast
  then show thesis
  proof cases
    case 3
    then have o: "otherOf rt (Some p) = None" by (simp add: otherOf_def)
    show thesis
    proof (cases "ro_agent rt = None \<or> ro_client rt = None")
      case True
      then show thesis using Some 3 o by (intro dropped [OF Some]) (auto simp: Leave_def)
    next
      case False
      let ?r = "r\<lparr>rr_routes := AList.update (pe_RouteID p) rt (rr_routes r)\<rparr>"
      have "route_ok (pe_RouteID p) rt" using assms Some by (simp add: router_inv_def)
      then have "router_inv ?r" by (rule router_inv_update [OF assms])
      moreover have "peers ?r = peers r"
        by (subst peers_split [of r "pe_RouteID p"]) (simp add: peers_update Some)
      ultimately show thesis using Some 3 False by (intro kept [of ?r]) (auto simp: Leave_def)
    qed
  qed (use Some in \<open>intro dropped [OF Some]; simp add: Leave_def otherOf_def\<close>)+
qed

lemma forward_lookup_cases:
  assumes "router_inv r"
  obtains (failed) e where "forward_lookup h now r = (r, Inl e)"
  | (found) r' rt dest where "forward_lookup h now r = (r', Inr dest)" "router_inv r'" "peers r' = peers r"
      "map_of (rr_routes r) (rh_id h) = Some rt" "otherOf rt (Some (rh_owner h)) = Some dest"
      "rr_stopped r' = rr_stopped r"
proof (cases "map_of (rr_routes r) (rh_id h)")
  case None
  then show thesis by (intro failed) (simp add: forward_lookup_def)
next
  case (Some rt)
  show thesis
  proof (cases "otherOf rt (Some (rh_owner h))")
    case None
    then show thesis using Some by (intro failed) (simp add: forward_lookup_def)
  next
    case dest: (Some dest)
    let ?rt = "rt\<lparr>ro_lastActivity := now\<rparr>"
    let ?r = "r\<lparr>rr_routes := AList.update (rh_id h) ?rt (rr_routes r)\<rparr>"
    have "route_ok (rh_id h) ?rt" using assms Some by (simp add: router_inv_def route_ok_def)
    then have "router_inv ?r" by (rule router_inv_update [OF assms])
    moreover have "route_peers ?rt = route_peers rt" by (simp add: route_peers_def)
    then have "peers ?r = peers r"
      by (subst peers_split [of r "rh_id h"]) (simp add: peers_update Some)
    ultimately show thesis using Some dest by (intro found [of ?r dest rt]) (simp_all add: forward_lookup_def)
  qed
qed

text \<open>A sweep keeps exactly the routes that are neither expired nor idle.\<close>

definition doomed :: "Router \<Rightarrow> time \<Rightarrow> route \<Rightarrow> bool" where
  "doomed r now rt \<longleftrightarrow>
     expired r now rt \<or> rr_idle r > 0 \<and> now - ro_lastActivity rt \<ge> rr_idle r"

lemma map_of_delete_all:
  "distinct (map fst xs) \<Longrightarrow>
     distinct (map fst (foldl (\<lambda>rs rt. AList.delete (ro_id rt) rs) xs ys)) \<and>
     map_of (foldl (\<lambda>rs rt. AList.delete (ro_id rt) rs) xs ys) k =
       (if k \<in> ro_id ` set ys then None else map_of xs k)"
  by (induction ys arbitrary: xs) (auto simp: delete_conv' distinct_delete)

lemma Sweep_routes:
  assumes "router_inv r" "\<not> rr_stopped r"
  shows "router_inv (fst (Sweep now r))"
    "map_of (rr_routes (fst (Sweep now r))) k =
       (case map_of (rr_routes r) k of
          None \<Rightarrow> None | Some rt \<Rightarrow> if doomed r now rt then None else Some rt)"
proof -
  let ?ys = "filter (doomed r now) (map snd (rr_routes r))"
  have d: "distinct (map fst (rr_routes r))" using assms(1) by (simp add: router_inv_def)
  have sw: "rr_routes (fst (Sweep now r)) = foldl (\<lambda>rs rt. AList.delete (ro_id rt) rs) (rr_routes r) ?ys"
    using assms(2) by (simp add: Sweep_def Let_def doomed_def [abs_def])
  have id: "ro_id rt = j" if "(j, rt) \<in> set (rr_routes r)" for j rt
    using that assms(1) d by (auto simp: router_inv_def route_ok_def)
  have gone: "j \<in> ro_id ` set ?ys \<longleftrightarrow> (\<exists>rt. map_of (rr_routes r) j = Some rt \<and> doomed r now rt)" for j
  proof
    assume "j \<in> ro_id ` set ?ys"
    then obtain i rt where "(i, rt) \<in> set (rr_routes r)" "doomed r now rt" "ro_id rt = j" by auto
    then show "\<exists>rt. map_of (rr_routes r) j = Some rt \<and> doomed r now rt" using id d by auto
  next
    assume "\<exists>rt. map_of (rr_routes r) j = Some rt \<and> doomed r now rt"
    then obtain rt where rt: "(j, rt) \<in> set (rr_routes r)" "doomed r now rt" by (auto dest: map_of_SomeD)
    then show "j \<in> ro_id ` set ?ys" using id [OF rt(1)] by force
  qed
  show m: "map_of (rr_routes (fst (Sweep now r))) k =
       (case map_of (rr_routes r) k of
          None \<Rightarrow> None | Some rt \<Rightarrow> if doomed r now rt then None else Some rt)" for k
    unfolding sw using map_of_delete_all [OF d, of ?ys k] gone [of k] by (auto split: option.split)
  show "router_inv (fst (Sweep now r))"
    using assms(1) map_of_delete_all [OF d, of ?ys] unfolding router_inv_def m
    by (auto simp: sw split: option.splits if_splits)
qed

section \<open>What the relay guarantees\<close>

lemma otherOf_ok:
  assumes "route_ok k rt" "otherOf rt (Some p) = Some q"
  shows "pe_RouteID q = k" "pe_Endpoint p = 1 \<and> pe_Endpoint q = 2 \<or> pe_Endpoint p = 2 \<and> pe_Endpoint q = 1"
    "q \<in> route_peers rt"
  using assms by (auto simp: otherOf_def route_ok_def route_peers_def split: if_splits)

text \<open>The peer a Leave names is the one that holds its endpoint of the route.\<close>

definition current :: "Router \<Rightarrow> Peer \<Rightarrow> bool" where
  "current r p \<longleftrightarrow> (\<forall>rt. map_of (rr_routes r) (pe_RouteID p) = Some rt \<longrightarrow> p \<in> route_peers rt)"

definition no_stale_leave :: "Router \<Rightarrow> router_call \<Rightarrow> bool" where
  "no_stale_leave r c \<longleftrightarrow> (case c of KLeave p \<Rightarrow> current r p | _ \<Rightarrow> True)"

lemma Leave_inv: "router_inv r \<Longrightarrow> router_inv (the (fst (Leave (Some p) (Some r))))"
  by (cases rule: Leave_cases [of r p]) (simp_all add: router_inv_delete)

lemma Leave_peers: "router_inv r \<Longrightarrow> peers (the (fst (Leave (Some p) (Some r)))) \<subseteq> peers r"
  by (cases rule: Leave_cases [of r p])
     (use peers_split [of r "pe_RouteID p"] in \<open>auto simp: peers_delete router_inv_def\<close>)

lemma Leave_closes:
  assumes "router_inv r" "current r p"
  shows "peers r \<subseteq> peers (the (fst (Leave (Some p) (Some r)))) \<union> set (snd (Leave (Some p) (Some r)))"
  using assms(1)
proof (cases rule: Leave_cases [of r p])
  case (dropped rt)
  have d: "distinct (map fst (rr_routes r))" and ok: "route_ok (pe_RouteID p) rt"
    using assms(1) dropped(1) by (auto simp: router_inv_def)
  have "route_peers rt \<subseteq> insert p (set_option (otherOf rt (Some p)))"
  proof -
    have "p \<in> route_peers rt" using assms(2) dropped(1) by (simp add: current_def)
    then consider "ro_agent rt = Some p" | "ro_client rt = Some p" by (auto simp: route_peers_def)
    then show ?thesis
    proof cases
      case 1
      then have "otherOf rt (Some p) = ro_client rt" using ok by (simp add: otherOf_def route_ok_def)
      then show ?thesis using 1 by (auto simp: route_peers_def)
    next
      case 2
      then have "otherOf rt (Some p) = ro_agent rt" using ok by (simp add: otherOf_def route_ok_def)
      then show ?thesis using 2 by (auto simp: route_peers_def)
    qed
  qed
  then show ?thesis
    using peers_split [of r "pe_RouteID p"] dropped
    by (auto simp: peers_delete [OF d] split: option.splits)
qed simp_all

lemma peers_Stop: "set (concat (map (closeRoute \<circ> snd) (rr_routes r))) \<supseteq> peers r"
  by (force simp: peers_iff dest: map_of_SomeD)

lemma Sweep_peers:
  assumes "router_inv r" "\<not> rr_stopped r"
  shows "peers (fst (Sweep now r)) \<subseteq> peers r"
    "peers r \<subseteq> peers (fst (Sweep now r)) \<union> set (snd (snd (Sweep now r)))"
proof -
  note sw = Sweep_routes [OF assms, of now]
  show "peers (fst (Sweep now r)) \<subseteq> peers r"
    unfolding subset_iff peers_iff sw(2) by (auto split: option.splits if_splits)
  show "peers r \<subseteq> peers (fst (Sweep now r)) \<union> set (snd (snd (Sweep now r)))"
  proof
    fix p assume "p \<in> peers r"
    then obtain k rt where p: "map_of (rr_routes r) k = Some rt" "p \<in> route_peers rt" by (auto simp: peers_iff)
    show "p \<in> peers (fst (Sweep now r)) \<union> set (snd (snd (Sweep now r)))"
    proof (cases "doomed r now rt")
      case True
      then show ?thesis
        using p assms(2) map_of_SomeD [OF p(1)] by (force simp: Sweep_def Let_def doomed_def)
    next
      case False
      then show ?thesis using p sw(2) [of k] by (auto simp: peers_iff)
    qed
  qed
qed

text \<open>
  The effect of a call on the table: the table stays well-formed, no peer is added but the one
  that joins, and a peer that disappears is closed.
\<close>

definition table_effect :: "Router \<Rightarrow> Peer set \<Rightarrow> Router \<Rightarrow> Peer list \<Rightarrow> bool" where
  "table_effect r new r' closed \<longleftrightarrow>
     router_inv r' \<and> peers r' \<subseteq> peers r \<union> new \<and> peers r \<subseteq> peers r' \<union> set closed"

lemma Leave_effect:
  assumes "router_inv r" "current r p"
  shows "table_effect r {} (the (fst (Leave (Some p) (Some r)))) (snd (Leave (Some p) (Some r)))"
  using Leave_inv [OF assms(1)] Leave_peers [OF assms(1)] Leave_closes [OF assms]
  by (simp add: table_effect_def)

lemma Forward_effect:
  assumes "router_inv r"
  shows "table_effect r {} (fst (router_step r (KForward h now accepted)))
    (snd (snd (router_step r (KForward h now accepted))))"
  using assms
proof (cases rule: forward_lookup_cases [of r h now])
  case (failed e)
  then show ?thesis using assms by (simp add: rt_Forward_def table_effect_def)
next
  case (found r' rt dest)
  have ok: "route_ok (rh_id h) rt" using assms found(4) by (simp add: router_inv_def)
  note q = otherOf_ok [OF ok found(5)]
  have "r' = r\<lparr>rr_routes := AList.update (rh_id h) (rt\<lparr>ro_lastActivity := now\<rparr>) (rr_routes r)\<rparr>"
    using found(1,4,5) by (simp add: forward_lookup_def)
  then have "current r' dest"
    using q(1,3) by (auto simp: current_def update_conv' route_peers_def)
  from Leave_effect [OF found(2) this] show ?thesis
    using found(1,2,3) by (auto simp: rt_Forward_def split_beta table_effect_def)
qed

lemma router_step_effect:
  assumes "router_inv r" "router_ok c"
  shows "router_inv (fst (router_step r c))"
    "no_stale_leave r c \<Longrightarrow>
       table_effect r {p. \<exists>t now other. c = KJoin t p now \<and> fst (snd (router_step r c)) = KJoined other}
         (fst (router_step r c)) (snd (snd (router_step r c)))"
    "peers (fst (router_step r c)) \<subseteq>
       peers r \<union> {p. \<exists>t now other. c = KJoin t p now \<and> fst (snd (router_step r c)) = KJoined other}"
proof -
  let ?new = "{p. \<exists>t now other. c = KJoin t p now \<and> fst (snd (router_step r c)) = KJoined other}"
  have "router_inv (fst (router_step r c)) \<and> peers (fst (router_step r c)) \<subseteq> peers r \<union> ?new \<and>
      (no_stale_leave r c \<longrightarrow> table_effect r ?new (fst (router_step r c)) (snd (snd (router_step r c))))"
  proof (cases c)
    case (KJoin t p now)
    show ?thesis
      by (rule Join_cases [OF assms(1), of p t now]) (use assms(2) KJoin in \<open>auto simp: table_effect_def\<close>)
  next
    case (KLeave p)
    then show ?thesis
      using Leave_inv [OF assms(1), of p] Leave_peers [OF assms(1), of p] Leave_effect [OF assms(1), of p]
      by (auto simp: split_beta no_stale_leave_def table_effect_def)
  next
    case (KForward h now accepted)
    then show ?thesis using Forward_effect [OF assms(1), of h now accepted] by (auto simp: table_effect_def)
  next
    case (KSweep now)
    then show ?thesis
      using assms(1) Sweep_peers [OF assms(1), of now] Sweep_routes(1) [OF assms(1), of now]
      by (cases "rr_stopped r") (auto simp: split_beta table_effect_def Sweep_def)
  next
    case KStop
    then show ?thesis
      using assms(1) peers_Stop [of r] by (auto simp: Stop_def router_inv_def peers_iff table_effect_def)
  qed
  then show "router_inv (fst (router_step r c))"
    "no_stale_leave r c \<Longrightarrow> table_effect r ?new (fst (router_step r c)) (snd (snd (router_step r c)))"
    "peers (fst (router_step r c)) \<subseteq> peers r \<union> ?new"
    by blast+
qed

interpretation router: step_machine router_step router_inv router_ok
  by unfold_locales (rule router_step_effect(1))

text \<open>A peer joined in a sequence of calls and their results.\<close>

definition joined_in :: "router_call list \<Rightarrow> (router_result \<times> Peer list) list \<Rightarrow> Peer \<Rightarrow> bool" where
  "joined_in cs rs p \<longleftrightarrow>
     (\<exists>t now other closed. (KJoin t p now, KJoined other, closed) \<in> set (zip cs rs))"

lemma peers_joined:
  assumes "router_inv r" "list_all router_ok cs"
  shows "peers (fst (run router_step r cs)) \<subseteq> peers r \<union> Collect (joined_in cs (snd (run router_step r cs)))"
  using assms
proof (induction cs arbitrary: r)
  case (Cons c cs)
  let ?r = "fst (router_step r c)"
  have "peers (fst (run router_step ?r cs)) \<subseteq> peers ?r \<union> Collect (joined_in cs (snd (run router_step ?r cs)))"
    using Cons by (intro Cons.IH router_step_effect(1)) simp_all
  moreover have "peers ?r \<subseteq> peers r \<union> {p. \<exists>t now other. c = KJoin t p now \<and> fst (snd (router_step r c)) = KJoined other}"
    using router_step_effect(3) [OF Cons.prems(1), of c] Cons.prems(2) by simp
  ultimately show ?case
    unfolding joined_in_def fst_run_Cons snd_run_Cons zip_Cons_Cons set_simps
    by (cases "snd (router_step r c)") (auto, blast)
qed simp

lemma NewRouter_inv: "router_inv (NewRouterWithConfig cfg)" "peers (NewRouterWithConfig cfg) = {}"
  by (auto simp: router_inv_def NewRouterWithConfig_def peers_iff)

text \<open>
  Route isolation. In any sequence of joins, leaves, forwards, sweeps and stops on a new router,
  in any order, bytes that the owner of a route handle forwards are handed only to a peer that has
  joined the same route with the opposite endpoint: never to another route, and never back.
\<close>

theorem relay_isolates_routes:
  assumes "list_all router_ok cs" "i < length cs" "cs ! i = KForward h now accepted"
    and "rs = snd (run router_step (NewRouterWithConfig cfg) cs)" "fst (rs ! i) = KDelivered dest"
  shows "pe_RouteID dest = pe_RouteID (rh_owner h) \<and>
    (pe_Endpoint (rh_owner h) = RELAY_ENDPOINT_AGENT \<and> pe_Endpoint dest = RELAY_ENDPOINT_CLIENT \<or>
     pe_Endpoint (rh_owner h) = RELAY_ENDPOINT_CLIENT \<and> pe_Endpoint dest = RELAY_ENDPOINT_AGENT) \<and>
    joined_in (take i cs) (take i rs) dest"
proof -
  let ?r0 = "NewRouterWithConfig cfg"
  define r where "r = fst (run router_step ?r0 (take i cs))"
  have oks: "list_all router_ok (take i cs)" "router_ok (cs ! i)"
    using assms(1,2) by (auto simp: list_all_iff dest: in_set_takeD)
  have inv: "router_inv r" unfolding r_def by (rule router.run_inv [OF NewRouter_inv(1) oks(1)])
  have res: "fst (snd (router_step r (KForward h now accepted))) = KDelivered dest"
    using snd_run_nth [OF assms(2), of router_step ?r0] assms(3-5) by (simp add: r_def)
  from inv show ?thesis
  proof (cases rule: forward_lookup_cases [of r h now])
    case (found r' rt dest')
    then have "dest' = dest" using res by (auto simp: rt_Forward_def split_beta split: if_splits)
    moreover have ok: "route_ok (rh_id h) rt" using inv found(4) by (simp add: router_inv_def)
    moreover have "dest' \<in> peers r" using otherOf_ok(3) [OF ok found(5)] found(4) by (auto simp: peers_iff)
    ultimately show ?thesis
      using otherOf_ok [OF ok found(5)] oks(2) peers_joined [OF NewRouter_inv(1) [of cfg] oks(1)]
      by (auto simp: assms(3) NewRouter_inv(2) r_def assms(4) snd_run_take)
  qed (use res in \<open>simp add: rt_Forward_def\<close>)
qed

text \<open>
  No connection is forgotten. On a well-formed table every call leaves the table well-formed,
  and every peer that a call removes from the table is closed by that call; joins never displace a
  peer. The one exception is a Leave by a peer that no longer holds its endpoint of the route.
\<close>

theorem router_closes_what_it_drops:
  assumes "router_inv r" "router_ok c" "no_stale_leave r c" "router_step r c = (r', res, closed)"
  shows "router_inv r' \<and> peers r \<subseteq> peers r' \<union> set closed \<and>
    (\<forall>p t now. c = KJoin t p now \<longrightarrow> peers r \<subseteq> peers r' \<and> (\<forall>other. res = KJoined other \<longrightarrow> p \<in> peers r'))"
proof -
  have "peers r \<subseteq> peers r' \<and> p \<in> peers r'" if c: "c = KJoin t p now" and res: "res = KJoined other" for p t now other
    by (rule Join_cases [OF assms(1), of p t now]) (use assms(2,4) c res in auto)
  moreover have "peers r \<subseteq> peers r'" if c: "c = KJoin t p now" for p t now
    by (rule Join_cases [OF assms(1), of p t now]) (use assms(2,4) c in auto)
  ultimately show ?thesis
    using router_step_effect(2) [OF assms(1-3)] assms(4) by (auto simp: table_effect_def)
qed

text \<open>
  Sweeping is exact. A sweep keeps exactly the routes that are younger than the lifetime cap and
  saw a forward within the idle timeout, unchanged; and stopping empties the table, closes every
  peer in it, and makes every later join fail.
\<close>

theorem sweep_and_stop_exact:
  assumes "router_inv r" "\<not> rr_stopped r"
  shows "(map_of (rr_routes (fst (Sweep now r))) k = Some rt \<longleftrightarrow>
      map_of (rr_routes r) k = Some rt \<and>
      (rr_maxLife r \<le> 0 \<or> now - ro_createdAt rt < rr_maxLife r) \<and>
      (rr_idle r \<le> 0 \<or> now - ro_lastActivity rt < rr_idle r)) \<and>
    rr_routes (fst (Stop r)) = [] \<and> peers r \<subseteq> set (snd (Stop r)) \<and>
    snd (Join (Some (fst (Stop r))) (Some t) (Some p) now') = Inl ErrRouterStopped"
  using Sweep_routes(2) [OF assms, of now k] peers_Stop [of r] assms(2)
  by (auto simp: doomed_def expired_def Stop_def Join_def not_le split: option.splits if_splits)

section \<open>Samples\<close>

definition sample_peer :: "nat \<Rightarrow> int \<Rightarrow> Peer" where
  "sample_peer n endpoint = \<lparr>pe_id = n, pe_Endpoint = endpoint, pe_RouteID = [1], pe_DeviceID = []\<rparr>"

definition sample_join :: "int \<Rightarrow> Ticket" where
  "sample_join endpoint = \<lparr>tk_wire = \<lparr>rt_Version = 1, rt_TicketId = [], rt_RouteId = [1], rt_Endpoint = endpoint,
     rt_DeviceId = [], rt_ExpiresAt = None, rt_MaxConnections = 1, rt_Nonce = [], rt_IssuerSignature = [],
     rt_IssuerEpoch = 0\<rparr>, tk_issuer = [], tk_expires = 0\<rparr>"

definition router_sample_calls :: "router_call list" where
  "router_sample_calls = [KJoin (sample_join 1) (sample_peer 1 1) 0, KJoin (sample_join 2) (sample_peer 2 2) 0,
     KForward \<lparr>rh_id = [1], rh_endpoint = 1, rh_owner = sample_peer 1 1\<rparr> 5 True]"

lemmas router_eval =
  Join_def Leave_def rt_Forward_def forward_lookup_def otherOf_def occupied_def new_route_def
  sample_join_def sample_peer_def tk_RouteID_def tk_Endpoint_def tk_MaxConnections_def Let_def

theorem relay_isolates_routes_witness:
  "joined_in (take 2 router_sample_calls)
     (take 2 (snd (run router_step (NewRouterWithConfig \<lparr>rc_IdleTimeout = 0, rc_MaxLifetime = 0, rc_SweepInterval = 0\<rparr>)
        router_sample_calls))) (sample_peer 2 2)"
  using relay_isolates_routes [of router_sample_calls 2 "\<lparr>rh_id = [1], rh_endpoint = 1, rh_owner = sample_peer 1 1\<rparr>"
      5 True _ "\<lparr>rc_IdleTimeout = 0, rc_MaxLifetime = 0, rc_SweepInterval = 0\<rparr>" "sample_peer 2 2", OF _ _ _ refl]
  by (simp add: router_sample_calls_def NewRouterWithConfig_def router_eval)

definition sample_router :: Router where
  "sample_router = \<lparr>rr_routes = [([1], \<lparr>ro_id = [1], ro_connectionCap = 2, ro_agent = Some (sample_peer 1 1),
     ro_client = None, ro_createdAt = 0, ro_lastActivity = 0\<rparr>)], rr_stopped = False,
     rr_idle = 5 * minute, rr_maxLife = 30 * minute, rr_sweepInt = 30 * second\<rparr>"

lemma sample_router_inv: "router_inv sample_router"
  by (simp add: router_inv_def sample_router_def route_ok_def sample_peer_def)

theorem router_closes_what_it_drops_witness:
  "peers sample_router \<subseteq> set [sample_peer 1 1]"
proof -
  have st: "router_step sample_router (KLeave (sample_peer 1 1)) =
      (sample_router\<lparr>rr_routes := []\<rparr>, KDone, [sample_peer 1 1])"
    by (simp add: router_eval sample_router_def)
  have "no_stale_leave sample_router (KLeave (sample_peer 1 1))"
    by (simp add: no_stale_leave_def current_def sample_router_def route_peers_def sample_peer_def)
  from router_closes_what_it_drops [OF sample_router_inv _ this st] show ?thesis
    by (auto simp: peers_iff sample_router_def)
qed

theorem sweep_and_stop_exact_witness:
  "map_of (rr_routes (fst (Sweep (5 * minute) sample_router))) [1] = None \<and>
   peers sample_router \<subseteq> set (snd (Stop sample_router))"
proof -
  have "\<not> rr_stopped sample_router" by (simp add: sample_router_def)
  note s = sweep_and_stop_exact [OF sample_router_inv this, of "5 * minute" "[1]"]
  have "map_of (rr_routes (fst (Sweep (5 * minute) sample_router))) [1] \<noteq> Some rt" for rt
    using s by (auto simp: sample_router_def)
  then show ?thesis using s by auto
qed

text \<open>
  A Leave is keyed by route and endpoint, not by the peer. Here the agent connection 1 has lost its
  slot, a new connection 3 of the agent holds it, and the late Leave of connection 1 drops the new
  route: connection 3 is out of the table and nothing closes it.
\<close>

lemma stale_leave_evicts_successor:
  "\<exists>r' closed. router_step (sample_router\<lparr>rr_routes := [([1], \<lparr>ro_id = [1], ro_connectionCap = 2,
       ro_agent = Some (sample_peer 3 1), ro_client = None, ro_createdAt = 0, ro_lastActivity = 0\<rparr>)]\<rparr>)
       (KLeave (sample_peer 1 1)) = (r', KDone, closed) \<and>
     peers r' = {} \<and> sample_peer 3 1 \<notin> set closed"
  by (auto simp: router_eval sample_router_def peers_def)

end
