(* ===== verification/Go_Base64.thy ===== *)
theory Go_Base64
  imports Go_Strings
begin

text \<open>
  What the pairing and session code uses of \<^verbatim>\<open>encoding/base64\<close> and \<^verbatim>\<open>encoding/hex\<close>: the URL
  alphabet without padding, the standard alphabet with padding, and decoding of hexadecimal text.
  As in Go, decoding skips line breaks and does not check the unused low bits of a last quantum.
\<close>

section \<open>Model\<close>

text \<open>\<open>url\<close> selects the URL-safe alphabet.\<close>

definition base64_char :: "bool \<Rightarrow> nat \<Rightarrow> char" where
  "base64_char url n =
     (if n < 26 then char_of (65 + n)
      else if n < 52 then char_of (97 + (n - 26))
      else if n < 62 then char_of (48 + (n - 52))
      else if n = 62 then (if url then CHR ''-'' else CHR ''+'')
      else (if url then CHR ''_'' else CHR ''/''))"

definition base64_value :: "bool \<Rightarrow> char \<Rightarrow> nat option" where
  "base64_value url c =
     (let n = of_char c :: nat in
      if 65 \<le> n \<and> n \<le> 90 then Some (n - 65)
      else if 97 \<le> n \<and> n \<le> 122 then Some (26 + (n - 97))
      else if 48 \<le> n \<and> n \<le> 57 then Some (52 + (n - 48))
      else if c = (if url then CHR ''-'' else CHR ''+'') then Some 62
      else if c = (if url then CHR ''_'' else CHR ''/'') then Some 63
      else None)"

fun base64_encode :: "bool \<Rightarrow> bool \<Rightarrow> bytes \<Rightarrow> string" where
  "base64_encode url padded [] = []"
| "base64_encode url padded [a] =
     (let v = unat a * 16 in
      [base64_char url (v div 64), base64_char url (v mod 64)] @ (if padded then ''=='' else []))"
| "base64_encode url padded [a, b] =
     (let v = (unat a * 256 + unat b) * 4 in
      [base64_char url (v div 4096), base64_char url (v div 64 mod 64), base64_char url (v mod 64)] @
      (if padded then ''='' else []))"
| "base64_encode url padded (a # b # c # rest) =
     (let v = unat a * 65536 + unat b * 256 + unat c in
      [base64_char url (v div 262144), base64_char url (v div 4096 mod 64), base64_char url (v div 64 mod 64),
       base64_char url (v mod 64)] @ base64_encode url padded rest)"

text \<open>The bytes of the first two, three or four characters of a quantum.\<close>

definition quantum :: "bool \<Rightarrow> char list \<Rightarrow> bytes option" where
  "quantum url cs =
     (case map (base64_value url) cs of
        [Some a, Some b] \<Rightarrow> Some [of_nat ((a * 64 + b) div 16)]
      | [Some a, Some b, Some c] \<Rightarrow>
          (let v = (a * 4096 + b * 64 + c) div 4 in Some [of_nat (v div 256), of_nat (v mod 256)])
      | [Some a, Some b, Some c, Some d] \<Rightarrow>
          (let v = a * 262144 + b * 4096 + c * 64 + d
           in Some [of_nat (v div 65536), of_nat (v div 256 mod 256), of_nat (v mod 256)])
      | _ \<Rightarrow> None)"

fun base64_quanta :: "bool \<Rightarrow> bool \<Rightarrow> string \<Rightarrow> bytes option" where
  "base64_quanta url padded [] = Some []"
| "base64_quanta url padded [a] = None"
| "base64_quanta url padded [a, b] = (if padded then None else quantum url [a, b])"
| "base64_quanta url padded [a, b, c] = (if padded then None else quantum url [a, b, c])"
| "base64_quanta url padded (a # b # c # d # rest) =
     (if padded \<and> d = CHR ''='' \<and> rest = [] then quantum url (if c = CHR ''='' then [a, b] else [a, b, c])
      else case quantum url [a, b, c, d] of
        None \<Rightarrow> None
      | Some q \<Rightarrow> (case base64_quanta url padded rest of None \<Rightarrow> None | Some bs \<Rightarrow> Some (q @ bs)))"

definition base64_decode :: "bool \<Rightarrow> bool \<Rightarrow> string \<Rightarrow> bytes option" where
  "base64_decode url padded s = base64_quanta url padded (filter (\<lambda>c. c \<noteq> CHR 0x0A \<and> c \<noteq> CHR 0x0D) s)"

abbreviation RawURL_Encode :: "bytes \<Rightarrow> string" where "RawURL_Encode \<equiv> base64_encode True False"
abbreviation RawURL_Decode :: "string \<Rightarrow> bytes option" where "RawURL_Decode \<equiv> base64_decode True False"
abbreviation Std_Encode :: "bytes \<Rightarrow> string" where "Std_Encode \<equiv> base64_encode False True"
abbreviation Std_Decode :: "string \<Rightarrow> bytes option" where "Std_Decode \<equiv> base64_decode False True"

definition RawURL_EncodedLen :: "nat \<Rightarrow> nat" where
  "RawURL_EncodedLen n = n div 3 * 4 + (n mod 3 * 8 + 5) div 6"

definition hex_value :: "char \<Rightarrow> nat option" where
  "hex_value c =
     (let n = of_char c :: nat in
      if 48 \<le> n \<and> n \<le> 57 then Some (n - 48)
      else if 97 \<le> n \<and> n \<le> 102 then Some (n - 97 + 10)
      else if 65 \<le> n \<and> n \<le> 70 then Some (n - 65 + 10)
      else None)"

fun hex_DecodeString :: "string \<Rightarrow> bytes option" where
  "hex_DecodeString [] = Some []"
| "hex_DecodeString [a] = None"
| "hex_DecodeString (a # b # rest) =
     (case (hex_value a, hex_value b, hex_DecodeString rest) of
        (Some x, Some y, Some bs) \<Rightarrow> Some (of_nat (x * 16 + y) # bs)
      | _ \<Rightarrow> None)"

section \<open>Round trips\<close>

lemma base64_value_char [simp]: "n < 64 \<Longrightarrow> base64_value url (base64_char url n) = Some n"
  by (auto simp: base64_value_def base64_char_def Let_def)

lemma base64_char_plain [simp]:
  "n < 64 \<Longrightarrow> base64_char url n \<noteq> CHR 0x0A \<and> base64_char url n \<noteq> CHR 0x0D \<and> base64_char url n \<noteq> CHR ''=''"
  by (auto simp: base64_char_def dest: arg_cong [of _ _ "of_char :: char \<Rightarrow> nat"])

lemma unat_byte: "unat (b :: byte) < 256"
  using unsigned_less [of b, where ?'a = nat] by simp

lemma of_nat_unat_byte [simp]: "of_nat (unat (b :: byte)) = b"
  by simp

lemma base64_encode_plain [simp]:
  "filter (\<lambda>c. c \<noteq> CHR 0x0A \<and> c \<noteq> CHR 0x0D) (base64_encode url padded bs) = base64_encode url padded bs"
proof (induction url padded bs rule: base64_encode.induct)
  case (2 url padded a)
  then show ?case using unat_byte [of a] by (simp add: Let_def less_mult_imp_div_less)
next
  case (3 url padded a b)
  then show ?case using unat_byte [of a] unat_byte [of b] by (simp add: Let_def less_mult_imp_div_less)
next
  case (4 url padded a b c rest)
  then show ?case using unat_byte [of a] unat_byte [of b] unat_byte [of c]
    by (simp add: Let_def less_mult_imp_div_less)
qed simp

text \<open>Splitting a number into sextets and octets and joining them again.\<close>

lemma sextets_two: "v div 64 * 64 + v mod 64 = (v :: nat)"
  by simp

lemma sextets_three: "v div 4096 * 4096 + v div 64 mod 64 * 64 + v mod 64 = (v :: nat)"
proof -
  have "v div 4096 = v div 64 div 64" by (simp flip: div_mult2_eq)
  then show ?thesis using div_mult_mod_eq [of "v div 64" 64] div_mult_mod_eq [of v 64] by linarith
qed

lemma sextets_four: "v div 262144 * 262144 + v div 4096 mod 64 * 4096 + v div 64 mod 64 * 64 + v mod 64 = (v :: nat)"
proof -
  have "v div 262144 = v div 4096 div 64" by (simp flip: div_mult2_eq)
  then show ?thesis using sextets_three [of v] div_mult_mod_eq [of "v div 4096" 64] by linarith
qed

lemma octets:
  assumes "b < 256" "c < (256 :: nat)"
  shows "(a * 256 + b) div 256 = a" "(a * 256 + b) mod 256 = b"
    "(a * 65536 + b * 256 + c) div 65536 = a" "(a * 65536 + b * 256 + c) div 256 mod 256 = b"
    "(a * 65536 + b * 256 + c) mod 256 = c"
proof -
  show one: "(a * 256 + b) div 256 = a" "(a * 256 + b) mod 256 = b" for a
    using assms by simp_all
  have v: "a * 65536 + b * 256 + c = (a * 256 + b) * 256 + c" by simp
  have d: "(a * 65536 + b * 256 + c) div 256 = a * 256 + b" using assms unfolding v by simp
  then show "(a * 65536 + b * 256 + c) div 256 mod 256 = b" using one(2) by simp
  have "(a * 65536 + b * 256 + c) div 65536 = (a * 65536 + b * 256 + c) div 256 div 256" by (simp flip: div_mult2_eq)
  then show "(a * 65536 + b * 256 + c) div 65536 = a" using d one(1) by simp
  show "(a * 65536 + b * 256 + c) mod 256 = c" unfolding v using assms by (simp only: mod_mult_self3 mod_less)
qed

lemma base64_quanta_encode: "base64_quanta url padded (base64_encode url padded bs) = Some bs"
proof (induction url padded bs rule: base64_encode.induct)
  case (2 url padded a)
  then show ?case
    using unat_byte [of a] sextets_two [of "unat a * 16"]
    by (simp add: Let_def quantum_def less_mult_imp_div_less)
next
  case (3 url padded a b)
  let ?v = "(unat a * 256 + unat b) * 4"
  have "?v div 4096 < 64" using unat_byte [of a] unat_byte [of b] by (simp add: less_mult_imp_div_less)
  then show ?case
    using sextets_three [of ?v] octets(1,2) [OF unat_byte [of b], of 0 "unat a"]
    by (simp add: Let_def quantum_def)
next
  case (4 url padded a b c rest)
  let ?v = "unat a * 65536 + unat b * 256 + unat c"
  have "?v div 262144 < 64"
    using unat_byte [of a] unat_byte [of b] unat_byte [of c] by (simp add: less_mult_imp_div_less)
  then show ?case
    using 4 sextets_four [of ?v] octets(3-5) [OF unat_byte [of b] unat_byte [of c], of "unat a"]
    by (simp add: Let_def quantum_def)
qed simp

theorem base64_roundtrip [simp]: "base64_decode url padded (base64_encode url padded bs) = Some bs"
  by (simp add: base64_decode_def base64_quanta_encode)

lemma length_RawURL_Encode: "length (base64_encode url False bs) = RawURL_EncodedLen (length bs)"
proof (induction url "False" bs rule: base64_encode.induct)
  case (4 url a b c rest)
  moreover have "(3 + length rest) div 3 = Suc (length rest div 3)" "(3 + length rest) mod 3 = length rest mod 3"
    by presburger+
  ultimately show ?case by (simp add: Let_def RawURL_EncodedLen_def)
qed (simp_all add: Let_def RawURL_EncodedLen_def)

lemma RawURL_EncodedLen_Suc: "RawURL_EncodedLen n \<le> RawURL_EncodedLen (Suc n)"
proof (cases "n mod 3 = 2")
  case True
  then have "Suc n div 3 = Suc (n div 3)" by presburger
  with True show ?thesis by (simp add: RawURL_EncodedLen_def)
next
  case False
  then have "Suc n div 3 = n div 3" "Suc n mod 3 = Suc (n mod 3)" by presburger+
  then show ?thesis by (simp add: RawURL_EncodedLen_def div_le_mono)
qed

lemma RawURL_EncodedLen_mono: "m \<le> n \<Longrightarrow> RawURL_EncodedLen m \<le> RawURL_EncodedLen n"
  by (rule lift_Suc_mono_le [of RawURL_EncodedLen]) (rule RawURL_EncodedLen_Suc)

text \<open>Every character of an encoding is a letter, a digit or one of the two signs of the alphabet.\<close>

definition url_safe :: "char \<Rightarrow> bool" where
  "url_safe c \<longleftrightarrow> base64_value True c \<noteq> None \<or> c = CHR ''/''"

lemma RawURL_Encode_safe: "list_all url_safe (RawURL_Encode bs)"
proof (induction True False bs rule: base64_encode.induct)
  case (2 a)
  then show ?case using unat_byte [of a] by (simp add: Let_def url_safe_def less_mult_imp_div_less)
next
  case (3 a b)
  then show ?case using unat_byte [of a] unat_byte [of b] by (simp add: Let_def url_safe_def less_mult_imp_div_less)
next
  case (4 a b c rest)
  then show ?case using unat_byte [of a] unat_byte [of b] unat_byte [of c]
    by (simp add: Let_def url_safe_def less_mult_imp_div_less)
qed simp

lemma hex_value_digit [simp]: "n < 16 \<Longrightarrow> hex_value (hex_digit n) = Some n"
proof -
  have "n < 16 \<Longrightarrow> n \<in> set [0..<16]" by simp
  moreover have "list_all (\<lambda>n. hex_value (hex_digit n) = Some n) [0..<16]" by code_simp
  ultimately show "n < 16 \<Longrightarrow> hex_value (hex_digit n) = Some n" by (auto simp: list_all_iff)
qed

lemma hex_roundtrip [simp]: "hex_DecodeString (EncodeToString bs) = Some bs"
proof (induction bs)
  case (Cons b bs)
  have "unat b div 16 < 16" using unat_byte [of b] by (simp add: less_mult_imp_div_less)
  then show ?case using Cons by (simp add: EncodeToString_def)
qed (simp add: EncodeToString_def)

lemma hex_DecodeString_length: "hex_DecodeString s = Some bs \<Longrightarrow> length s = 2 * length bs"
  by (induction s arbitrary: bs rule: hex_DecodeString.induct) (auto split: option.splits)

end
