(* ===== verification/Secure_Store.thy ===== *)
theory Secure_Store
  imports Prelude
begin

text \<open>
  The protected file store (\<^verbatim>\<open>src/internal/securestore\<close>, in its build for systems other than Windows,
  where protection is the file's permissions). The directory of the file is a map from names to
  contents. Each system call of a write happens once, so a set of failing calls says which of them
  return an error; a failed write call leaves any prefix of its bytes in the temporary file, which
  is then removed. JSON and SHA-256 are parameters.
\<close>

section \<open>Model\<close>

record envelope =
  ev_Version :: int
  ev_Protection :: string
  ev_Purpose :: bytes
  ev_Ciphertext :: bytes

record store_codec =
  json_envelope :: "envelope \<Rightarrow> bytes option"
  parse_envelope :: "bytes \<Rightarrow> envelope option"
  purpose_hash :: "bytes \<Rightarrow> bytes"

datatype store_error =
    StorePathRelative
  | StorePurposeEmpty
  | StorePurposeLong
  | StoreEmpty
  | StoreTooLarge
  | StoreEncode
  | StoreIO
  | StoreNotExist
  | StoreDecode
  | StoreVersion
  | StoreProtection
  | StorePurposeMismatch

datatype store_call =
    SMkdirAll | SCreateTemp | SChmod | SWrite | SSync | SClose | SRename | SRemove | SOpenDir | SSyncDir

type_synonym directory = "string \<rightharpoonup> bytes"

abbreviation (input) currentEnvelopeVersion :: int where "currentEnvelopeVersion \<equiv> 1"
abbreviation (input) maxPlaintextBytes :: nat where "maxPlaintextBytes \<equiv> 1024 * 1024"
definition maxEnvelopeBytes :: nat where "maxEnvelopeBytes = 2 * 1024 * 1024"

definition protectionName :: string where "protectionName = ''file-permissions''"

definition protect :: "bytes \<Rightarrow> string \<Rightarrow> bytes" where "protect plaintext purpose = plaintext"

definition unprotect :: "bytes \<Rightarrow> string \<Rightarrow> bytes" where "unprotect ciphertext purpose = ciphertext"

definition purposeDigest :: "store_codec \<Rightarrow> string \<Rightarrow> bytes" where
  "purposeDigest cd purpose =
     purpose_hash cd (string_bytes ''VibeBridge secure store purpose'' @ [0] @ string_bytes purpose)"

definition equalPurpose :: "bytes \<Rightarrow> bytes \<Rightarrow> bool" where
  "equalPurpose left right \<longleftrightarrow> length left = length right \<and> left = right"

definition IsAbs :: "string \<Rightarrow> bool" where
  "IsAbs path \<longleftrightarrow> path \<noteq> '''' \<and> hd path = CHR ''/''"

definition validateArguments :: "string \<Rightarrow> string \<Rightarrow> store_error option" where
  "validateArguments path purpose =
     (if \<not> IsAbs path then Some StorePathRelative
      else if purpose = '''' then Some StorePurposeEmpty
      else if length purpose > 256 then Some StorePurposeLong
      else None)"

definition replaceFile :: "store_call set \<Rightarrow> string \<Rightarrow> string \<Rightarrow> directory \<Rightarrow> directory \<times> bool" where
  "replaceFile faults source destination dir =
     (if SRename \<in> faults then (dir, False)
      else (dir(destination := dir source, source := None), True))"

definition syncDirectory :: "store_call set \<Rightarrow> bool" where
  "syncDirectory faults \<longleftrightarrow> SOpenDir \<notin> faults \<and> SSyncDir \<notin> faults"

text \<open>
  The body of \<^verbatim>\<open>writeAtomic\<close> after the temporary file \<open>tmp\<close> exists, and the function with its
  deferred removal. A failed write has written the first \<open>partial\<close> bytes.
\<close>

definition write_temp ::
    "store_call set \<Rightarrow> nat \<Rightarrow> string \<Rightarrow> string \<Rightarrow> bytes \<Rightarrow> directory \<Rightarrow> directory \<times> store_error option" where
  "write_temp faults partial tmp path encoded dir =
     (if SChmod \<in> faults then (dir, Some StoreIO)
      else if SWrite \<in> faults then (dir(tmp \<mapsto> take partial encoded), Some StoreIO)
      else
        let dir1 = dir(tmp \<mapsto> encoded) in
        if SSync \<in> faults then (dir1, Some StoreIO)
        else if SClose \<in> faults then (dir1, Some StoreIO)
        else case replaceFile faults tmp path dir1 of
          (dir2, False) \<Rightarrow> (dir2, Some StoreIO)
        | (dir2, True) \<Rightarrow> (dir2, if syncDirectory faults then None else Some StoreIO))"

definition writeAtomic ::
    "store_call set \<Rightarrow> nat \<Rightarrow> string \<Rightarrow> string \<Rightarrow> bytes \<Rightarrow> directory \<Rightarrow> directory \<times> store_error option" where
  "writeAtomic faults partial tmp path encoded dir =
     (if SMkdirAll \<in> faults then (dir, Some StoreIO)
      else if SCreateTemp \<in> faults then (dir, Some StoreIO)
      else
        let (dir1, e) = write_temp faults partial tmp path encoded (dir(tmp \<mapsto> []))
        in (if SRemove \<in> faults then dir1 else dir1(tmp := None), e))"

definition Write ::
    "store_codec \<Rightarrow> store_call set \<Rightarrow> nat \<Rightarrow> string \<Rightarrow> string \<Rightarrow> string \<Rightarrow> bytes \<Rightarrow> directory \<Rightarrow>
     directory \<times> store_error option" where
  "Write cd faults partial tmp path purpose plaintext dir =
     (case validateArguments path purpose of
        Some e \<Rightarrow> (dir, Some e)
      | None \<Rightarrow>
          if plaintext = [] then (dir, Some StoreEmpty)
          else if length plaintext > maxPlaintextBytes then (dir, Some StoreTooLarge)
          else case json_envelope cd \<lparr>ev_Version = currentEnvelopeVersion, ev_Protection = protectionName,
                  ev_Purpose = purposeDigest cd purpose, ev_Ciphertext = protect plaintext purpose\<rparr> of
            None \<Rightarrow> (dir, Some StoreEncode)
          | Some encoded \<Rightarrow>
              if length encoded > maxEnvelopeBytes then (dir, Some StoreTooLarge)
              else writeAtomic faults partial tmp path encoded dir)"

definition Read :: "store_codec \<Rightarrow> string \<Rightarrow> string \<Rightarrow> directory \<Rightarrow> store_error + bytes" where
  "Read cd path purpose dir =
     (case validateArguments path purpose of
        Some e \<Rightarrow> Inl e
      | None \<Rightarrow>
          case dir path of
            None \<Rightarrow> Inl StoreNotExist
          | Some encoded \<Rightarrow>
              if encoded = [] then Inl StoreEmpty
              else if length encoded > maxEnvelopeBytes then Inl StoreTooLarge
              else case parse_envelope cd encoded of
                None \<Rightarrow> Inl StoreDecode
              | Some value \<Rightarrow>
                  if ev_Version value \<noteq> currentEnvelopeVersion then Inl StoreVersion
                  else if ev_Protection value \<noteq> protectionName then Inl StoreProtection
                  else if \<not> equalPurpose (ev_Purpose value) (purposeDigest cd purpose)
                  then Inl StorePurposeMismatch
                  else if ev_Ciphertext value = [] then Inl StoreEmpty
                  else
                    let plaintext = unprotect (ev_Ciphertext value) purpose in
                    if plaintext = [] \<or> length plaintext > maxPlaintextBytes then Inl StoreTooLarge
                    else Inr plaintext)"

section \<open>Atomic replacement\<close>

text \<open>The contract a client of a durable file relies on: a write that reports success can be read back,
  and one that reports failure leaves what was there or what was written, never anything else.\<close>

locale durable_file =
  fixes put :: "'f \<Rightarrow> 'd \<Rightarrow> 'x \<Rightarrow> 'x \<times> bool"
    and get :: "'x \<Rightarrow> 'd option"
    and wf :: "'f \<Rightarrow> bool"
  assumes put_ok: "wf f \<Longrightarrow> snd (put f d x) \<Longrightarrow> get (fst (put f d x)) = Some d"
    and put_failed: "wf f \<Longrightarrow> \<not> snd (put f d x) \<Longrightarrow> get (fst (put f d x)) = get x \<or> get (fst (put f d x)) = Some d"
begin

text \<open>After any writes, what is read is what was there at first or one of the values written.\<close>

lemma puts_read:
  assumes "list_all (wf \<circ> fst) fs"
  shows "get (fold (\<lambda>(f, d) x. fst (put f d x)) fs x) \<in> insert (get x) (Some ` snd ` set fs)"
  using assms
proof (induction fs arbitrary: x)
  case (Cons p fs)
  obtain f d where p: "p = (f, d)" by fastforce
  have "get (fst (put f d x)) = get x \<or> get (fst (put f d x)) = Some d"
    using put_ok put_failed Cons.prems p by (cases "snd (put f d x)") auto
  then show ?case using Cons.IH [of "fst (put f d x)"] Cons.prems p by auto
qed simp

end

definition codec_ok :: "store_codec \<Rightarrow> bool" where
  "codec_ok cd \<longleftrightarrow> (\<forall>v b. json_envelope cd v = Some b \<longrightarrow> parse_envelope cd b = Some v \<and> b \<noteq> [])"

lemma writeAtomic_contents:
  assumes "tmp \<noteq> path" "dir tmp = None"
  shows "snd (writeAtomic faults partial tmp path encoded dir) = None \<Longrightarrow>
      fst (writeAtomic faults partial tmp path encoded dir) path = Some encoded"
    "fst (writeAtomic faults partial tmp path encoded dir) path \<in> {dir path, Some encoded}"
    "name \<noteq> path \<Longrightarrow> name \<noteq> tmp \<or> SRemove \<notin> faults \<Longrightarrow>
      fst (writeAtomic faults partial tmp path encoded dir) name = dir name"
  using assms
  by (auto simp: writeAtomic_def write_temp_def replaceFile_def Let_def split: if_splits)

lemma Write_cases:
  obtains e where "Write cd faults partial tmp path purpose d dir = (dir, Some e)"
  | b where "Write cd faults partial tmp path purpose d dir = writeAtomic faults partial tmp path b dir"
      "json_envelope cd \<lparr>ev_Version = currentEnvelopeVersion, ev_Protection = protectionName,
         ev_Purpose = purposeDigest cd purpose, ev_Ciphertext = protect d purpose\<rparr> = Some b"
      "length b \<le> maxEnvelopeBytes" "validateArguments path purpose = None" "d \<noteq> []"
      "length d \<le> maxPlaintextBytes"
proof -
  let ?j = "json_envelope cd \<lparr>ev_Version = currentEnvelopeVersion, ev_Protection = protectionName,
    ev_Purpose = purposeDigest cd purpose, ev_Ciphertext = protect d purpose\<rparr>"
  show thesis
  proof (cases "validateArguments path purpose = None \<and> d \<noteq> [] \<and> length d \<le> maxPlaintextBytes \<and>
      (\<exists>b. ?j = Some b \<and> length b \<le> maxEnvelopeBytes)")
    case True
    then show thesis using that(2) by (auto simp: Write_def)
  next
    case False
    then have "\<exists>e. Write cd faults partial tmp path purpose d dir = (dir, Some e)"
      by (auto simp: Write_def split: option.split)
    then show thesis using that(1) by blast
  qed
qed

lemma Read_cong: "dir' path = dir path \<Longrightarrow> Read cd path purpose dir' = Read cd path purpose dir"
  by (simp add: Read_def cong: option.case_cong)

lemma Write_contents:
  assumes "codec_ok cd" "tmp \<noteq> path" "dir tmp = None"
  shows "snd (Write cd faults partial tmp path purpose d dir) = None \<Longrightarrow>
      Read cd path purpose (fst (Write cd faults partial tmp path purpose d dir)) = Inr d"
    "Read cd path purpose (fst (Write cd faults partial tmp path purpose d dir)) \<in>
      {Read cd path purpose dir, Inr d}"
    "name \<noteq> path \<Longrightarrow> name \<noteq> tmp \<or> SRemove \<notin> faults \<Longrightarrow>
      fst (Write cd faults partial tmp path purpose d dir) name = dir name"
proof -
  let ?w = "Write cd faults partial tmp path purpose d dir"
  let ?v = "\<lparr>ev_Version = currentEnvelopeVersion, ev_Protection = protectionName,
    ev_Purpose = purposeDigest cd purpose, ev_Ciphertext = protect d purpose\<rparr>"
  have readback: "Read cd path purpose dir' = Inr d"
    if "dir' path = Some b" "json_envelope cd ?v = Some b" "length b \<le> maxEnvelopeBytes"
      "validateArguments path purpose = None" "d \<noteq> []" "length d \<le> maxPlaintextBytes" for dir' b
    using that assms(1) by (auto simp: Read_def codec_ok_def protect_def unprotect_def equalPurpose_def)
  note cases = Write_cases [of cd faults partial tmp path purpose d dir]
  note atomic = writeAtomic_contents [where tmp = tmp and path = path and dir = dir and faults = faults and
    partial = partial, OF assms(2,3)]
  show "snd ?w = None \<Longrightarrow> Read cd path purpose (fst ?w) = Inr d"
    by (rule cases) (use atomic(1) readback in auto)
  show "Read cd path purpose (fst ?w) \<in> {Read cd path purpose dir, Inr d}"
  proof (rule cases)
    fix b
    assume wr: "?w = writeAtomic faults partial tmp path b dir" "json_envelope cd ?v = Some b"
      "length b \<le> maxEnvelopeBytes" "validateArguments path purpose = None" "d \<noteq> []"
      "length d \<le> maxPlaintextBytes"
    show ?thesis
    proof (cases "fst ?w path = Some b")
      case True
      then show ?thesis using readback [of "fst ?w" b] wr(2-6) by simp
    next
      case False
      then have "fst ?w path = dir path" using atomic(2) [of b] wr(1) by auto
      then have "Read cd path purpose (fst ?w) = Read cd path purpose dir" by (rule Read_cong)
      then show ?thesis by simp
    qed
  qed simp
  show "name \<noteq> path \<Longrightarrow> name \<noteq> tmp \<or> SRemove \<notin> faults \<Longrightarrow> fst ?w name = dir name"
    by (rule cases) (use atomic(3) in auto)
qed

text \<open>
  The store as a durable file: a write's parameters are its failing calls, the length of a partial
  write and the name of its temporary file, which is fresh.
\<close>

definition store_put ::
    "store_codec \<Rightarrow> string \<Rightarrow> string \<Rightarrow> store_call set \<times> nat \<Rightarrow> bytes \<Rightarrow> string \<times> directory \<Rightarrow>
     (string \<times> directory) \<times> bool" where
  "store_put cd path purpose f d x =
     (case x of (tmp, dir) \<Rightarrow>
        if dir tmp = None \<and> tmp \<noteq> path
        then let (dir', e) = Write cd (fst f) (snd f) tmp path purpose d dir in ((tmp, dir'), e = None)
        else (x, False))"

definition store_get :: "store_codec \<Rightarrow> string \<Rightarrow> string \<Rightarrow> string \<times> directory \<Rightarrow> bytes option" where
  "store_get cd path purpose x = (case Read cd path purpose (snd x) of Inl _ \<Rightarrow> None | Inr d \<Rightarrow> Some d)"

interpretation secure: durable_file "store_put cd path purpose" "store_get cd path purpose" "\<lambda>_. codec_ok cd"
  for cd path purpose
proof
  fix f :: "store_call set \<times> nat" and d and x :: "string \<times> directory"
  assume ok: "codec_ok cd"
  obtain tmp dir where x: "x = (tmp, dir)" by fastforce
  note w = Write_contents [where tmp = tmp and path = path and dir = dir and cd = cd, OF ok]
  show "snd (store_put cd path purpose f d x) \<Longrightarrow>
      store_get cd path purpose (fst (store_put cd path purpose f d x)) = Some d"
    using w(1) [where faults = "fst f" and partial = "snd f" and d = d and purpose = purpose]
    by (auto simp: x store_put_def store_get_def split_beta split: if_splits)
  show "store_get cd path purpose (fst (store_put cd path purpose f d x)) = store_get cd path purpose x \<or>
      store_get cd path purpose (fst (store_put cd path purpose f d x)) = Some d"
    using w(2) [where faults = "fst f" and partial = "snd f" and d = d and purpose = purpose]
    by (cases "dir tmp = None \<and> tmp \<noteq> path") (auto simp: x store_put_def store_get_def split_beta split: if_splits sum.splits)
qed

text \<open>
  Atomic protected writes. When the JSON codec is faithful and the temporary name is fresh, a
  write that reports success can be read back exactly with the same purpose; a write that reports
  an error leaves the file reading as before or as the complete new contents, never a mixture; and
  no other file of the directory changes.
\<close>

theorem secure_write_atomic:
  assumes "codec_ok cd" "tmp \<noteq> path" "dir tmp = None" "SRemove \<notin> faults"
    and "Write cd faults partial tmp path purpose plaintext dir = (dir', e)"
  shows "(if e = None then Read cd path purpose dir' = Inr plaintext
     else Read cd path purpose dir' = Read cd path purpose dir \<or> Read cd path purpose dir' = Inr plaintext) \<and>
    (\<forall>name. name \<noteq> path \<longrightarrow> dir' name = dir name)"
  using Write_contents [where cd = cd and tmp = tmp and path = path and dir = dir and faults = faults
      and partial = partial and purpose = purpose and d = plaintext, OF assms(1-3)] assms(4,5)
  by (cases e) auto

definition sample_codec :: store_codec where
  "sample_codec = \<lparr>json_envelope = (\<lambda>v. if ev_Version v = 1 \<and> ev_Protection v = ''file-permissions'' \<and> ev_Purpose v = [9]
       then Some (7 # ev_Ciphertext v) else None),
     parse_envelope = (\<lambda>b. Some \<lparr>ev_Version = 1, ev_Protection = ''file-permissions'', ev_Purpose = [9], ev_Ciphertext = tl b\<rparr>),
     purpose_hash = (\<lambda>_. [9])\<rparr>"

lemma sample_codec_ok: "codec_ok sample_codec"
  by (auto simp: codec_ok_def sample_codec_def)

lemma sample_codec_write:
  "Write sample_codec {SSyncDir} 0 ''tmp'' ''/f'' ''p'' [1, 2] (Map.empty(''/f'' \<mapsto> [7, 5])) =
     (Map.empty(''/f'' \<mapsto> [7, 1, 2]), Some StoreIO)"
  by (auto simp: Write_def validateArguments_def IsAbs_def sample_codec_def protectionName_def
      purposeDigest_def protect_def maxEnvelopeBytes_def writeAtomic_def write_temp_def replaceFile_def
      syncDirectory_def Let_def fun_eq_iff)

theorem secure_write_atomic_witness:
  "Read sample_codec ''/f'' ''p'' (Map.empty(''/f'' \<mapsto> [7, 1, 2])) = Read sample_codec ''/f'' ''p'' (Map.empty(''/f'' \<mapsto> [7, 5])) \<or>
   Read sample_codec ''/f'' ''p'' (Map.empty(''/f'' \<mapsto> [7, 1, 2])) = Inr [1, 2]"
  using secure_write_atomic [OF sample_codec_ok _ _ _ sample_codec_write] by simp

text \<open>
  A write whose last step, the flush of the directory, fails reports an error although the new
  contents are in place.
\<close>

lemma failed_flush_keeps_new_contents:
  "Read sample_codec ''/f'' ''p''
     (fst (Write sample_codec {SSyncDir} 0 ''tmp'' ''/f'' ''p'' [1, 2] (Map.empty(''/f'' \<mapsto> [7, 5])))) = Inr [1, 2]"
  unfolding sample_codec_write
  by (simp add: Read_def validateArguments_def IsAbs_def sample_codec_def maxEnvelopeBytes_def
      protectionName_def equalPurpose_def purposeDigest_def unprotect_def)

end
