(* ===== verification/Device_Store.thy ===== *)
theory Device_Store
  imports Negotiation Secure_Store
begin

text \<open>
  The agent's identity and its graph of authorized devices (\<^verbatim>\<open>src/internal/deviceidentity\<close>): signed
  descriptors, the validated state, its protected file, and the operations that authorize and
  revoke a device. Keys, signatures, digests and the protobuf and JSON codecs are parameters. The
  state is copied before it is changed and the copy replaces it only after it was saved; wiping
  the buffers of a discarded copy changes no state that is still in use and is modelled only for
  \<^verbatim>\<open>Close\<close>. An argument tells which system calls of a save fail.
\<close>

section \<open>Descriptors\<close>

abbreviation (input) DEVICE_CLASS_AGENT :: int where "DEVICE_CLASS_AGENT \<equiv> 1"
abbreviation (input) DEVICE_CLASS_CLIENT :: int where "DEVICE_CLASS_CLIENT \<equiv> 2"
abbreviation (input) STATE_AUTHORIZED :: int where "STATE_AUTHORIZED \<equiv> 1"
abbreviation (input) STATE_REVOKED :: int where "STATE_REVOKED \<equiv> 2"
abbreviation (input) DeviceIDBytes :: nat where "DeviceIDBytes \<equiv> 16"
abbreviation (input) KeyAgreementBytes :: nat where "KeyAgreementBytes \<equiv> 32"
abbreviation (input) maxDisplayNameBytes :: nat where "maxDisplayNameBytes \<equiv> 128"
abbreviation (input) maxPlatformBytes :: nat where "maxPlatformBytes \<equiv> 32"

definition descriptorSignatureDomain :: bytes where
  "descriptorSignatureDomain = string_bytes ''VibeBridge device descriptor v1'' @ [0]"

record DeviceDescriptor =
  dd_DeviceId :: bytes
  dd_DisplayName :: string
  dd_Platform :: string
  dd_DeviceClass :: int
  dd_SigningPublicKey :: bytes
  dd_KeyAgreementPublicKey :: bytes
  dd_CreatedAt :: "time option"
  dd_KeyVersion :: u32
  dd_SupportedVersions :: "ProtocolVersionRange option"

record SignedDeviceDescriptor =
  sd_DeviceDescriptor :: "DeviceDescriptor option"
  sd_Signature :: bytes

record AuthorizedDevice =
  av_Device :: SignedDeviceDescriptor
  av_AuthorizationVersion :: u64
  av_State :: int
  av_AuthorizedAt :: time
  av_RevokedAt :: "time option"
  av_RevocationEpoch :: u64

datatype device_error =
    DeviceRequired
  | DeviceIDLength
  | SigningKeyLength
  | AgreementKeyLength
  | AgreementKeyInvalid
  | DisplayNameInvalid
  | PlatformInvalid
  | ClassInvalid
  | CreatedAtInvalid
  | KeyVersionZero
  | VersionRangeRequired
  | VersionRangeInvalid
  | SigningKeyMismatch
  | EncodeDescriptor
  | SignatureLength
  | SignatureInvalid
  | NotClient
  | DescriptorTooLarge
  | OwnDevice
  | DecodeDevice
  | DifferentSigningKey
  | KeyVersionBackwards
  | TooManyDevices
  | CounterExhausted
  | StateInvalid
  | PersistFailed
  | ErrDeviceNotFound
  | StateVersion
  | SigningKeyInconsistent
  | NotAgent
  | MetadataInvalid
  | DuplicateDevice
  | RevocationMetadata
  | DeviceStateInvalid
  | PathRelative
  | LoadFailed
  | NotExist
  | RandomFailed

record 's device_crypto =
  dc_Public :: "bytes \<Rightarrow> bytes"
  dc_FromSeed :: "bytes \<Rightarrow> bytes"
  dc_Sign :: "bytes \<Rightarrow> bytes \<Rightarrow> bytes"
  dc_Verify :: "bytes \<Rightarrow> bytes \<Rightarrow> bytes \<Rightarrow> bool"
  dc_X25519Public :: "bytes \<Rightarrow> bool"
  dc_X25519Private :: "bytes \<Rightarrow> bytes option"
  dc_Sum256 :: "bytes \<Rightarrow> bytes"
  marshal_descriptor :: "DeviceDescriptor \<Rightarrow> bytes option"
  marshal_signed :: "SignedDeviceDescriptor \<Rightarrow> bytes option"
  unmarshal_signed :: "bytes \<Rightarrow> SignedDeviceDescriptor option"
  json_state :: "'s \<Rightarrow> bytes option"
  parse_state :: "bytes \<Rightarrow> 's option"

text \<open>\<^verbatim>\<open>Timestamp.IsValid\<close>: years 1 to 9999.\<close>

definition timestamp_valid :: "time \<Rightarrow> bool" where
  "timestamp_valid t \<longleftrightarrow> zero_time \<le> t \<and> t < 253402300800 * second"

definition ValidateDescriptor :: "'s device_crypto \<Rightarrow> DeviceDescriptor option \<Rightarrow> device_error option" where
  "ValidateDescriptor cr descriptor =
     (case descriptor of None \<Rightarrow> Some DeviceRequired | Some d \<Rightarrow>
      if length (dd_DeviceId d) \<noteq> DeviceIDBytes then Some DeviceIDLength
      else if length (dd_SigningPublicKey d) \<noteq> 32 then Some SigningKeyLength
      else if length (dd_KeyAgreementPublicKey d) \<noteq> KeyAgreementBytes then Some AgreementKeyLength
      else if \<not> dc_X25519Public cr (dd_KeyAgreementPublicKey d) then Some AgreementKeyInvalid
      else if TrimSpace (dd_DisplayName d) \<noteq> dd_DisplayName d \<or> dd_DisplayName d = ''''
              \<or> length (dd_DisplayName d) > maxDisplayNameBytes then Some DisplayNameInvalid
      else if TrimSpace (dd_Platform d) \<noteq> dd_Platform d \<or> dd_Platform d = ''''
              \<or> length (dd_Platform d) > maxPlatformBytes then Some PlatformInvalid
      else if dd_DeviceClass d \<noteq> DEVICE_CLASS_AGENT \<and> dd_DeviceClass d \<noteq> DEVICE_CLASS_CLIENT
      then Some ClassInvalid
      else if (case dd_CreatedAt d of None \<Rightarrow> True | Some t \<Rightarrow> \<not> timestamp_valid t \<or> t = zero_time)
      then Some CreatedAtInvalid
      else if dd_KeyVersion d = 0 then Some KeyVersionZero
      else case dd_SupportedVersions d of None \<Rightarrow> Some VersionRangeRequired | Some r \<Rightarrow>
        case (r_Minimum r, r_Maximum r) of
          (Some lo, Some hi) \<Rightarrow>
            (if v_Major lo = 0 \<or> v_Major lo \<noteq> v_Major hi \<or> v_Minor lo > v_Minor hi
             then Some VersionRangeInvalid else None)
        | _ \<Rightarrow> Some VersionRangeRequired)"

definition descriptorSignatureMessage :: "'s device_crypto \<Rightarrow> DeviceDescriptor \<Rightarrow> device_error + bytes" where
  "descriptorSignatureMessage cr descriptor =
     (case marshal_descriptor cr descriptor of
        None \<Rightarrow> Inl EncodeDescriptor
      | Some encoded \<Rightarrow> Inr (descriptorSignatureDomain @ encoded))"

definition VerifySignedDescriptor ::
    "'s device_crypto \<Rightarrow> SignedDeviceDescriptor option \<Rightarrow> device_error option" where
  "VerifySignedDescriptor cr sdesc =
     (case sdesc of None \<Rightarrow> Some DeviceRequired | Some sd \<Rightarrow>
      case sd_DeviceDescriptor sd of None \<Rightarrow> Some DeviceRequired | Some d \<Rightarrow>
      case ValidateDescriptor cr (Some d) of Some e \<Rightarrow> Some e | None \<Rightarrow>
      if length (sd_Signature sd) \<noteq> 64 then Some SignatureLength
      else case descriptorSignatureMessage cr d of
        Inl e \<Rightarrow> Some e
      | Inr message \<Rightarrow>
          (if \<not> dc_Verify cr (dd_SigningPublicKey d) message (sd_Signature sd) then Some SignatureInvalid
           else None))"

record DescriptorOptions =
  do_DeviceID :: bytes
  do_DisplayName :: string
  do_Platform :: string
  do_DeviceClass :: int
  do_SigningPublicKey :: bytes
  do_KeyAgreementPublicKey :: bytes
  do_CreatedAt :: time
  do_KeyVersion :: u32
  do_ProtocolMajor :: u32
  do_ProtocolMinor :: u32

definition newSignedDescriptor ::
    "'s device_crypto \<Rightarrow> DescriptorOptions \<Rightarrow> bytes \<Rightarrow> device_error + SignedDeviceDescriptor" where
  "newSignedDescriptor cr options signingKey =
     (let version = \<lparr>v_Major = do_ProtocolMajor options, v_Minor = do_ProtocolMinor options\<rparr>;
          descriptor = \<lparr>dd_DeviceId = do_DeviceID options, dd_DisplayName = do_DisplayName options,
            dd_Platform = do_Platform options, dd_DeviceClass = do_DeviceClass options,
            dd_SigningPublicKey = do_SigningPublicKey options,
            dd_KeyAgreementPublicKey = do_KeyAgreementPublicKey options,
            dd_CreatedAt = Some (do_CreatedAt options), dd_KeyVersion = do_KeyVersion options,
            dd_SupportedVersions = Some \<lparr>r_Minimum = Some version, r_Maximum = Some version\<rparr>\<rparr>
      in case ValidateDescriptor cr (Some descriptor) of Some e \<Rightarrow> Inl e | None \<Rightarrow>
         if length signingKey \<noteq> 64 \<or> dc_Public cr signingKey \<noteq> do_SigningPublicKey options
         then Inl SigningKeyMismatch
         else case descriptorSignatureMessage cr descriptor of
           Inl e \<Rightarrow> Inl e
         | Inr message \<Rightarrow>
             Inr \<lparr>sd_DeviceDescriptor = Some descriptor, sd_Signature = dc_Sign cr signingKey message\<rparr>)"

definition NewSignedDescriptor ::
    "'s device_crypto \<Rightarrow> DescriptorOptions \<Rightarrow> bytes \<Rightarrow> device_error + SignedDeviceDescriptor" where
  "NewSignedDescriptor cr options signingKey = newSignedDescriptor cr options signingKey"

definition Fingerprint :: "'s device_crypto \<Rightarrow> SignedDeviceDescriptor option \<Rightarrow> device_error + string" where
  "Fingerprint cr sdesc =
     (case VerifySignedDescriptor cr sdesc of Some e \<Rightarrow> Inl e | None \<Rightarrow>
      case marshal_descriptor cr (the (sd_DeviceDescriptor (the sdesc))) of
        None \<Rightarrow> Inl EncodeDescriptor
      | Some encoded \<Rightarrow> Inr (ToUpper (EncodeToString (take 6 (dc_Sum256 cr encoded)))))"

section \<open>State\<close>

record persistedAuthorization =
  pa_Device :: bytes
  pa_AuthorizationVersion :: u64
  pa_State :: int
  pa_AuthorizedAt :: time
  pa_RevokedAt :: "time option"
  pa_RevocationEpoch :: u64

record persistedState =
  ps_Version :: int
  ps_DeviceID :: bytes
  ps_SigningPrivateKey :: bytes
  ps_KeyAgreementPrivateKey :: bytes
  ps_DisplayName :: string
  ps_Platform :: string
  ps_DeviceClass :: int
  ps_CreatedAt :: time
  ps_KeyVersion :: u32
  ps_AuthorizationCounter :: u64
  ps_RevocationEpoch :: u64
  ps_Authorized :: "persistedAuthorization list"

type_synonym crypto = "persistedState device_crypto"

abbreviation (input) currentStateVersion :: int where "currentStateVersion \<equiv> 1"
abbreviation maxAuthorizedDevices :: nat where "maxAuthorizedDevices \<equiv> 256"
abbreviation maxSignedDescriptorBytes :: nat where "maxSignedDescriptorBytes \<equiv> 64 * 1024"

definition secureStorePurpose :: string where
  "secureStorePurpose = ''vibebridge-device-identity-v1''"

text \<open>The signed descriptor of the agent itself.\<close>

definition signedDescriptorLocked :: "crypto \<Rightarrow> persistedState \<Rightarrow> device_error + SignedDeviceDescriptor" where
  "signedDescriptorLocked cr st =
     (case dc_X25519Private cr (ps_KeyAgreementPrivateKey st) of
        None \<Rightarrow> Inl AgreementKeyInvalid
      | Some agreementPublic \<Rightarrow>
          newSignedDescriptor cr
            \<lparr>do_DeviceID = ps_DeviceID st, do_DisplayName = ps_DisplayName st, do_Platform = ps_Platform st,
             do_DeviceClass = ps_DeviceClass st, do_SigningPublicKey = dc_Public cr (ps_SigningPrivateKey st),
             do_KeyAgreementPublicKey = agreementPublic, do_CreatedAt = ps_CreatedAt st,
             do_KeyVersion = ps_KeyVersion st, do_ProtocolMajor = CurrentMajor,
             do_ProtocolMinor = CurrentMinor\<rparr> (ps_SigningPrivateKey st))"

text \<open>The loop of \<^verbatim>\<open>validateState\<close> over the records, with the IDs seen and the highest version.\<close>

fun validate_records ::
    "crypto \<Rightarrow> persistedState \<Rightarrow> bytes set \<Rightarrow> u64 \<Rightarrow> persistedAuthorization list \<Rightarrow> device_error + u64" where
  "validate_records cr st seen highest [] = Inr highest"
| "validate_records cr st seen highest (r # rs) =
     (if pa_Device r = [] \<or> length (pa_Device r) > maxSignedDescriptorBytes then Inl DescriptorTooLarge
      else case unmarshal_signed cr (pa_Device r) of None \<Rightarrow> Inl DecodeDevice | Some sdesc \<Rightarrow>
      case VerifySignedDescriptor cr (Some sdesc) of Some e \<Rightarrow> Inl e | None \<Rightarrow>
      let d = the (sd_DeviceDescriptor sdesc) in
      if dd_DeviceClass d \<noteq> DEVICE_CLASS_CLIENT then Inl NotClient
      else if dd_DeviceId d \<in> seen then Inl DuplicateDevice
      else if pa_AuthorizationVersion r = 0 \<or> pa_AuthorizationVersion r > ps_AuthorizationCounter st
              \<or> pa_AuthorizedAt r = zero_time then Inl MetadataInvalid
      else if pa_State r = STATE_AUTHORIZED \<and> (pa_RevokedAt r \<noteq> None \<or> pa_RevocationEpoch r \<noteq> 0)
      then Inl RevocationMetadata
      else if pa_State r = STATE_REVOKED \<and>
              (pa_RevokedAt r = None \<or> pa_RevokedAt r = Some zero_time \<or> pa_RevocationEpoch r = 0
               \<or> pa_RevocationEpoch r > ps_RevocationEpoch st) then Inl RevocationMetadata
      else if pa_State r \<noteq> STATE_AUTHORIZED \<and> pa_State r \<noteq> STATE_REVOKED then Inl DeviceStateInvalid
      else validate_records cr st (insert (dd_DeviceId d) seen)
             (if pa_AuthorizationVersion r > highest then pa_AuthorizationVersion r else highest) rs)"

definition validateState :: "crypto \<Rightarrow> persistedState \<Rightarrow> device_error option" where
  "validateState cr st =
     (if ps_Version st \<noteq> currentStateVersion then Some StateVersion
      else if length (ps_DeviceID st) \<noteq> DeviceIDBytes then Some DeviceIDLength
      else if length (ps_SigningPrivateKey st) \<noteq> 64 then Some SigningKeyLength
      else if dc_FromSeed cr (take 32 (ps_SigningPrivateKey st)) \<noteq> ps_SigningPrivateKey st
      then Some SigningKeyInconsistent
      else if length (ps_KeyAgreementPrivateKey st) \<noteq> KeyAgreementBytes then Some AgreementKeyLength
      else if dc_X25519Private cr (ps_KeyAgreementPrivateKey st) = None then Some AgreementKeyInvalid
      else if ps_DeviceClass st \<noteq> DEVICE_CLASS_AGENT then Some NotAgent
      else if ps_CreatedAt st = zero_time \<or> ps_KeyVersion st = 0 then Some MetadataInvalid
      else if length (ps_Authorized st) > maxAuthorizedDevices then Some TooManyDevices
      else case signedDescriptorLocked cr st of Inl e \<Rightarrow> Some e | Inr _ \<Rightarrow>
      case validate_records cr st {} 0 (ps_Authorized st) of
        Inl e \<Rightarrow> Some e
      | Inr highest \<Rightarrow> (if highest > ps_AuthorizationCounter st then Some StateInvalid else None))"

definition authorizationView :: "crypto \<Rightarrow> persistedAuthorization \<Rightarrow> AuthorizedDevice option" where
  "authorizationView cr r =
     (case unmarshal_signed cr (pa_Device r) of
        None \<Rightarrow> None
      | Some sdesc \<Rightarrow>
          Some \<lparr>av_Device = sdesc, av_AuthorizationVersion = pa_AuthorizationVersion r,
                av_State = pa_State r, av_AuthorizedAt = pa_AuthorizedAt r,
                av_RevokedAt = pa_RevokedAt r, av_RevocationEpoch = pa_RevocationEpoch r\<rparr>)"

section \<open>Persistence\<close>

text \<open>What the environment decides of a save: its failing calls, partial write and temporary name.\<close>

record save_env =
  se_faults :: "store_call set"
  se_partial :: nat
  se_tmp :: string

definition saveState ::
    "crypto \<Rightarrow> store_codec \<Rightarrow> save_env \<Rightarrow> string \<Rightarrow> persistedState \<Rightarrow> directory \<Rightarrow> directory \<times> bool" where
  "saveState cr cd env path st dir =
     (case json_state cr st of
        None \<Rightarrow> (dir, False)
      | Some encoded \<Rightarrow>
          (let (dir', e) = Write cd (se_faults env) (se_partial env) (se_tmp env) path secureStorePurpose encoded dir
           in (dir', e = None)))"

definition loadState :: "crypto \<Rightarrow> store_codec \<Rightarrow> string \<Rightarrow> directory \<Rightarrow> device_error + persistedState" where
  "loadState cr cd path dir =
     (case Read cd path secureStorePurpose dir of
        Inl StoreNotExist \<Rightarrow> Inl NotExist
      | Inl _ \<Rightarrow> Inl LoadFailed
      | Inr encoded \<Rightarrow>
          (case parse_state cr encoded of
             None \<Rightarrow> Inl LoadFailed
           | Some st \<Rightarrow> (case validateState cr st of Some e \<Rightarrow> Inl e | None \<Rightarrow> Inr st)))"

text \<open>
  \<^verbatim>\<open>generateState\<close> with the random values it draws (\<open>None\<close> when the source fails), its clock reading
  and the name of the operating system.
\<close>

record store_options =
  so_Path :: string
  so_DisplayName :: string
  so_Platform :: string

definition generateState ::
    "store_options \<Rightarrow> bytes option \<Rightarrow> bytes option \<Rightarrow> bytes option \<Rightarrow> time \<Rightarrow> string \<Rightarrow> device_error + persistedState" where
  "generateState options deviceID signingKey agreementKey now goos =
     (case (deviceID, signingKey, agreementKey) of
        (Some i, Some s, Some a) \<Rightarrow>
          (let displayName = TrimSpace (so_DisplayName options);
               platform = TrimSpace (so_Platform options)
           in Inr \<lparr>ps_Version = currentStateVersion, ps_DeviceID = i, ps_SigningPrivateKey = s,
                ps_KeyAgreementPrivateKey = a,
                ps_DisplayName = (if displayName = '''' then ''VibeBridge Agent'' else displayName),
                ps_Platform = (if platform = '''' then goos else platform),
                ps_DeviceClass = DEVICE_CLASS_AGENT, ps_CreatedAt = now, ps_KeyVersion = 1,
                ps_AuthorizationCounter = 0, ps_RevocationEpoch = 0, ps_Authorized = []\<rparr>)
      | _ \<Rightarrow> Inl RandomFailed)"

definition loadOrCreateState ::
    "crypto \<Rightarrow> store_codec \<Rightarrow> save_env \<Rightarrow> store_options \<Rightarrow> device_error + persistedState \<Rightarrow> directory \<Rightarrow>
     directory \<times> (device_error + persistedState)" where
  "loadOrCreateState cr cd env options generated dir =
     (case loadState cr cd (so_Path options) dir of
        Inl NotExist \<Rightarrow>
          (case generated of
             Inl e \<Rightarrow> (dir, Inl e)
           | Inr st \<Rightarrow>
               (case validateState cr st of
                  Some e \<Rightarrow> (dir, Inl e)
                | None \<Rightarrow>
                    (case saveState cr cd env (so_Path options) st dir of
                       (dir', False) \<Rightarrow> (dir', Inl PersistFailed)
                     | (dir', True) \<Rightarrow> (dir', Inr st))))
      | Inl e \<Rightarrow> (dir, Inl e)
      | Inr st \<Rightarrow> (dir, Inr st))"

record Store =
  st_path :: string
  st_state :: persistedState
  st_readOnly :: bool

definition Load :: "crypto \<Rightarrow> store_codec \<Rightarrow> store_options \<Rightarrow> directory \<Rightarrow> device_error + Store" where
  "Load cr cd options dir =
     (if \<not> IsAbs (so_Path options) then Inl PathRelative
      else case loadState cr cd (so_Path options) dir of
        Inl e \<Rightarrow> Inl e
      | Inr st \<Rightarrow> Inr \<lparr>st_path = so_Path options, st_state = st, st_readOnly = True\<rparr>)"

text \<open>\<^verbatim>\<open>LoadOrCreate\<close>, with whether the creation lock is acquired and released without error.\<close>

definition LoadOrCreate ::
    "crypto \<Rightarrow> store_codec \<Rightarrow> save_env \<Rightarrow> store_options \<Rightarrow> device_error + persistedState \<Rightarrow> bool \<Rightarrow> bool \<Rightarrow>
     directory \<Rightarrow> directory \<times> (device_error + Store)" where
  "LoadOrCreate cr cd env options generated acquired released dir =
     (if \<not> IsAbs (so_Path options) then (dir, Inl PathRelative)
      else if \<not> acquired then (dir, Inl LoadFailed)
      else case loadOrCreateState cr cd env options generated dir of
        (dir', Inl e) \<Rightarrow> (dir', Inl e)
      | (dir', Inr st) \<Rightarrow>
          (if \<not> released then (dir', Inl LoadFailed)
           else (dir', Inr \<lparr>st_path = so_Path options, st_state = st, st_readOnly = False\<rparr>)))"

section \<open>Authorization\<close>

text \<open>The loop that finds a device by ID in a list of records.\<close>

fun find_device :: "crypto \<Rightarrow> bytes \<Rightarrow> persistedAuthorization list \<Rightarrow> device_error + (nat \<times> AuthorizedDevice) option" where
  "find_device cr deviceID [] = Inr None"
| "find_device cr deviceID (r # rs) =
     (case authorizationView cr r of
        None \<Rightarrow> Inl DecodeDevice
      | Some view \<Rightarrow>
          (if dd_DeviceId (the (sd_DeviceDescriptor (av_Device view))) = deviceID then Inr (Some (0, view))
           else case find_device cr deviceID rs of
             Inl e \<Rightarrow> Inl e
           | Inr None \<Rightarrow> Inr None
           | Inr (Some (i, v)) \<Rightarrow> Inr (Some (Suc i, v))))"

definition AuthorizedDevice_of :: "crypto \<Rightarrow> bytes \<Rightarrow> Store \<Rightarrow> device_error + AuthorizedDevice" where
  "AuthorizedDevice_of cr deviceID s =
     (case find_device cr deviceID (ps_Authorized (st_state s)) of
        Inl e \<Rightarrow> Inl e
      | Inr None \<Rightarrow> Inl ErrDeviceNotFound
      | Inr (Some (_, view)) \<Rightarrow> Inr view)"

fun collect_devices :: "crypto \<Rightarrow> bool \<Rightarrow> persistedAuthorization list \<Rightarrow> device_error + AuthorizedDevice list" where
  "collect_devices cr includeRevoked [] = Inr []"
| "collect_devices cr includeRevoked (r # rs) =
     (if \<not> includeRevoked \<and> pa_State r = STATE_REVOKED then collect_devices cr includeRevoked rs
      else case authorizationView cr r of
        None \<Rightarrow> Inl DecodeDevice
      | Some view \<Rightarrow>
          (case collect_devices cr includeRevoked rs of Inl e \<Rightarrow> Inl e | Inr vs \<Rightarrow> Inr (view # vs)))"

definition AuthorizedDevices :: "crypto \<Rightarrow> bool \<Rightarrow> Store \<Rightarrow> device_error + AuthorizedDevice list" where
  "AuthorizedDevices cr includeRevoked s = collect_devices cr includeRevoked (ps_Authorized (st_state s))"

text \<open>Validating, saving and installing the next state, the common end of both updates.\<close>

definition commit_state ::
    "crypto \<Rightarrow> store_codec \<Rightarrow> save_env \<Rightarrow> persistedState \<Rightarrow> nat \<Rightarrow> Store \<Rightarrow> directory \<Rightarrow>
     Store \<times> directory \<times> (device_error + AuthorizedDevice)" where
  "commit_state cr cd env next index s dir =
     (case validateState cr next of
        Some e \<Rightarrow> (s, dir, Inl StateInvalid)
      | None \<Rightarrow>
          (case saveState cr cd env (st_path s) next dir of
             (dir', False) \<Rightarrow> (s, dir', Inl PersistFailed)
           | (dir', True) \<Rightarrow>
               (case authorizationView cr (ps_Authorized next ! index) of
                  None \<Rightarrow> (s, dir', Inl DecodeDevice)
                | Some view \<Rightarrow> (s\<lparr>st_state := next\<rparr>, dir', Inr view))))"

text \<open>The record an authorization writes, and the part of \<^verbatim>\<open>Authorize\<close> under the lock.\<close>

definition authorization_record :: "bytes \<Rightarrow> time \<Rightarrow> persistedState \<Rightarrow> persistedAuthorization" where
  "authorization_record encoded now st =
     \<lparr>pa_Device = encoded, pa_AuthorizationVersion = ps_AuthorizationCounter st + 1,
      pa_State = STATE_AUTHORIZED, pa_AuthorizedAt = now, pa_RevokedAt = None, pa_RevocationEpoch = 0\<rparr>"

definition install_records :: "persistedAuthorization list \<Rightarrow> persistedState \<Rightarrow> persistedState" where
  "install_records records st =
     st\<lparr>ps_AuthorizationCounter := ps_AuthorizationCounter st + 1, ps_Authorized := records\<rparr>"

definition authorize_locked ::
    "crypto \<Rightarrow> store_codec \<Rightarrow> save_env \<Rightarrow> time \<Rightarrow> SignedDeviceDescriptor \<Rightarrow> bytes \<Rightarrow> Store \<Rightarrow> directory \<Rightarrow>
     Store \<times> directory \<times> (device_error + AuthorizedDevice)" where
  "authorize_locked cr cd env now sd encoded s dir =
     (let d = the (sd_DeviceDescriptor sd); st = st_state s;
          install = (\<lambda>records index.
            if ps_AuthorizationCounter st + 1 = 0 then (s, dir, Inl CounterExhausted)
            else commit_state cr cd env (install_records records st) index s dir)
      in if dd_DeviceId d = ps_DeviceID st then (s, dir, Inl OwnDevice)
         else case find_device cr (dd_DeviceId d) (ps_Authorized st) of
           Inl e \<Rightarrow> (s, dir, Inl e)
         | Inr None \<Rightarrow>
             (if length (ps_Authorized st) \<ge> maxAuthorizedDevices then (s, dir, Inl TooManyDevices)
              else install (ps_Authorized st @ [authorization_record encoded now st]) (length (ps_Authorized st)))
         | Inr (Some (index, existing)) \<Rightarrow>
             (let old = the (sd_DeviceDescriptor (av_Device existing)) in
              if dd_SigningPublicKey old \<noteq> dd_SigningPublicKey d then (s, dir, Inl DifferentSigningKey)
              else if av_State existing = STATE_AUTHORIZED \<and> av_Device existing = sd
              then (s, dir, Inr existing)
              else if dd_KeyVersion d < dd_KeyVersion old then (s, dir, Inl KeyVersionBackwards)
              else install ((ps_Authorized st)[index := authorization_record encoded now st]) index))"

definition Authorize ::
    "crypto \<Rightarrow> store_codec \<Rightarrow> save_env \<Rightarrow> time \<Rightarrow> SignedDeviceDescriptor option \<Rightarrow> Store \<Rightarrow> directory \<Rightarrow>
     Store \<times> directory \<times> (device_error + AuthorizedDevice)" where
  "Authorize cr cd env now sdesc s dir =
     (case VerifySignedDescriptor cr sdesc of
        Some e \<Rightarrow> (s, dir, Inl e)
      | None \<Rightarrow>
          let sd = the sdesc in
          if dd_DeviceClass (the (sd_DeviceDescriptor sd)) \<noteq> DEVICE_CLASS_CLIENT then (s, dir, Inl NotClient)
          else case marshal_signed cr sd of
            None \<Rightarrow> (s, dir, Inl EncodeDescriptor)
          | Some encoded \<Rightarrow>
              if length encoded > maxSignedDescriptorBytes then (s, dir, Inl DescriptorTooLarge)
              else authorize_locked cr cd env now sd encoded s dir)"

definition Revoke ::
    "crypto \<Rightarrow> store_codec \<Rightarrow> save_env \<Rightarrow> time \<Rightarrow> bytes \<Rightarrow> Store \<Rightarrow> directory \<Rightarrow>
     Store \<times> directory \<times> (device_error + AuthorizedDevice)" where
  "Revoke cr cd env now deviceID s dir =
     (if length deviceID \<noteq> DeviceIDBytes then (s, dir, Inl DeviceIDLength)
      else
        let st = st_state s in
        case find_device cr deviceID (ps_Authorized st) of
          Inl e \<Rightarrow> (s, dir, Inl e)
        | Inr None \<Rightarrow> (s, dir, Inl ErrDeviceNotFound)
        | Inr (Some (index, view)) \<Rightarrow>
            (if av_State view = STATE_REVOKED then (s, dir, Inr view)
             else if ps_AuthorizationCounter st = - 1 \<or> ps_RevocationEpoch st = - 1
             then (s, dir, Inl CounterExhausted)
             else
               let counter = ps_AuthorizationCounter st + 1; epoch = ps_RevocationEpoch st + 1;
                   record = (ps_Authorized st ! index)\<lparr>pa_AuthorizationVersion := counter,
                     pa_State := STATE_REVOKED, pa_RevokedAt := Some now, pa_RevocationEpoch := epoch\<rparr>
               in commit_state cr cd env
                    (st\<lparr>ps_AuthorizationCounter := counter, ps_RevocationEpoch := epoch,
                        ps_Authorized := (ps_Authorized st)[index := record]\<rparr>) index s dir))"

definition ds_RevocationEpoch :: "Store \<Rightarrow> u64" where
  "ds_RevocationEpoch s = ps_RevocationEpoch (st_state s)"

definition ds_DeviceID :: "Store \<Rightarrow> bytes" where "ds_DeviceID s = ps_DeviceID (st_state s)"

definition ds_Sign :: "crypto \<Rightarrow> bytes \<Rightarrow> Store \<Rightarrow> bytes" where
  "ds_Sign cr message s = dc_Sign cr (ps_SigningPrivateKey (st_state s)) message"

definition ds_Descriptor :: "crypto \<Rightarrow> Store \<Rightarrow> device_error + SignedDeviceDescriptor" where
  "ds_Descriptor cr s = signedDescriptorLocked cr (st_state s)"

definition zeroBytes :: "bytes \<Rightarrow> bytes" where "zeroBytes b = map (\<lambda>_. 0) b"

definition zeroState :: "persistedState \<Rightarrow> persistedState" where
  "zeroState st = st\<lparr>ps_DeviceID := zeroBytes (ps_DeviceID st),
     ps_SigningPrivateKey := zeroBytes (ps_SigningPrivateKey st),
     ps_KeyAgreementPrivateKey := zeroBytes (ps_KeyAgreementPrivateKey st),
     ps_Authorized := map (\<lambda>r. r\<lparr>pa_Device := zeroBytes (pa_Device r)\<rparr>) (ps_Authorized st)\<rparr>"

definition ds_Close :: "Store \<Rightarrow> Store" where
  "ds_Close s = s\<lparr>st_state := zeroState (st_state s)\<rparr>"

end
