(* ===== verification/Pairing_Manager.thy ===== *)
theory Pairing_Manager
  imports Go_Base64 Device_Store
begin

text \<open>
  Pairing invitations (\<^verbatim>\<open>src/internal/pairing/manager.go\<close>): the manager of the one active invitation
  with its bootstrap secret and its reservation, the checks of a scanned invitation, and its URL
  form. A reservation is a pointer in Go; here it is a number, and the manager keeps the numbers
  it has given out whose \<^verbatim>\<open>manager\<close> field still points to it. Each call reads the clock once, and
  that reading is an argument. A callback is a function on the state of its caller. Protobuf,
  SHA-256, URL parsing and the random source are parameters.
\<close>

section \<open>Invitations\<close>

record PairingInvitation =
  iv_Version :: u32
  iv_InvitationId :: bytes
  iv_Agent :: "SignedDeviceDescriptor option"
  iv_BootstrapSecret :: bytes
  iv_CreatedAt :: "time option"
  iv_ExpiresAt :: "time option"
  iv_ConnectionHints :: "string list"
  iv_VerificationCode :: string

abbreviation (input) CurrentInvitationVersion :: u32 where "CurrentInvitationVersion \<equiv> 1"
abbreviation (input) InvitationIDBytes :: nat where "InvitationIDBytes \<equiv> 16"
abbreviation (input) BootstrapSecretBytes :: nat where "BootstrapSecretBytes \<equiv> 32"
abbreviation (input) maxConnectionHints :: nat where "maxConnectionHints \<equiv> 8"
abbreviation (input) maxConnectionHintBytes :: nat where "maxConnectionHintBytes \<equiv> 512"
definition maxInvitationBytes :: nat where "maxInvitationBytes = 16 * 1024"
definition DefaultTTL :: duration where "DefaultTTL = 5 * minute"

datatype 'e pairing_error =
    ErrInvitationUnavailable
  | ErrInvitationExpired
  | ErrInvitationRejected
  | ErrInvitationInUse
  | AgentRequired
  | TTLInvalid
  | HintInvalid
  | DescriptorFailed device_error
  | PairingNotAgent
  | PairingRandom
  | CallbackRequired
  | CallbackFailed 'e
  | InvitationRequired
  | InvitationTooLarge
  | InvitationVersion
  | InvitationCredentials
  | InvitationTimestamps
  | InvitationFuture
  | InvitationLifetime
  | VerificationCodeInvalid
  | EncodeInvitation
  | BaseURLInvalid
  | PairingURLInvalid

text \<open>What \<^verbatim>\<open>net/url\<close> says of a URL that it parses.\<close>

record URL =
  url_Scheme :: string
  url_Host :: string
  url_User :: bool
  url_RawQuery :: string
  url_Fragment :: string
  url_rest :: string

record pairing_lib =
  marshal_invitation :: "PairingInvitation \<Rightarrow> bytes option"
  unmarshal_invitation :: "bytes \<Rightarrow> PairingInvitation option"
  size_invitation :: "PairingInvitation \<Rightarrow> nat"
  url_parse :: "string \<Rightarrow> URL option"
  url_string :: "URL \<Rightarrow> string"

text \<open>\<^verbatim>\<open>fmt.Sprintf\<close> of a number below 1000 with \<^verbatim>\<open>%03d\<close>.\<close>

definition three_digits :: "nat \<Rightarrow> string" where
  "three_digits n = [char_of (48 + n div 100 mod 10), char_of (48 + n div 10 mod 10), char_of (48 + n mod 10)]"

definition verificationCode :: "crypto \<Rightarrow> pairing_lib \<Rightarrow> PairingInvitation \<Rightarrow> 'e pairing_error + string" where
  "verificationCode cr lib invitation =
     (case marshal_invitation lib (invitation\<lparr>iv_VerificationCode := []\<rparr>) of
        None \<Rightarrow> Inl EncodeInvitation
      | Some encoded \<Rightarrow>
          (let digest = dc_Sum256 cr (string_bytes ''VibeBridge pairing invitation v1'' @ [0] @ encoded);
               value = (unat (digest ! 0) * 65536 + unat (digest ! 1) * 256 + unat (digest ! 2)) mod 1000000
           in Inr (three_digits (value div 1000) @ ''-'' @ three_digits (value mod 1000))))"

fun valid_hints :: "pairing_lib \<Rightarrow> string list \<Rightarrow> string list \<Rightarrow> bool" where
  "valid_hints lib seen [] \<longleftrightarrow> True"
| "valid_hints lib seen (hint # hints) \<longleftrightarrow>
     (if hint = [] \<or> length hint > maxConnectionHintBytes \<or> TrimSpace hint \<noteq> hint then False
      else case url_parse lib hint of
        None \<Rightarrow> False
      | Some parsed \<Rightarrow>
          (if url_Host parsed = [] \<or> url_User parsed \<or> url_Fragment parsed \<noteq> [] \<or>
              url_Scheme parsed \<notin> {''http'', ''https'', ''ws'', ''wss''} then False
           else if hint \<in> set seen then False
           else valid_hints lib (hint # seen) hints))"

definition validateConnectionHints :: "pairing_lib \<Rightarrow> string list \<Rightarrow> 'e pairing_error option" where
  "validateConnectionHints lib hints =
     (if length hints > maxConnectionHints \<or> \<not> valid_hints lib [] hints then Some HintInvalid else None)"

definition ValidateInvitation ::
    "crypto \<Rightarrow> pairing_lib \<Rightarrow> PairingInvitation option \<Rightarrow> time \<Rightarrow> 'e pairing_error option" where
  "ValidateInvitation cr lib invitation now =
     (case invitation of None \<Rightarrow> Some InvitationRequired | Some i \<Rightarrow>
      if size_invitation lib i > maxInvitationBytes then Some InvitationTooLarge
      else if iv_Version i \<noteq> CurrentInvitationVersion then Some InvitationVersion
      else if length (iv_InvitationId i) \<noteq> InvitationIDBytes \<or> length (iv_BootstrapSecret i) \<noteq> BootstrapSecretBytes
      then Some InvitationCredentials
      else case VerifySignedDescriptor cr (iv_Agent i) of Some e \<Rightarrow> Some (DescriptorFailed e) | None \<Rightarrow>
      if dd_DeviceClass (the (sd_DeviceDescriptor (the (iv_Agent i)))) \<noteq> DEVICE_CLASS_AGENT then Some PairingNotAgent
      else case (iv_CreatedAt i, iv_ExpiresAt i) of
        (Some createdAt, Some expiresAt) \<Rightarrow>
          (if \<not> timestamp_valid createdAt \<or> \<not> timestamp_valid expiresAt then Some InvitationTimestamps
           else if createdAt > now + 5 * minute then Some InvitationFuture
           else if \<not> expiresAt > createdAt \<or> expiresAt - createdAt > 15 * minute then Some InvitationLifetime
           else if \<not> now < expiresAt then Some ErrInvitationExpired
           else case validateConnectionHints lib (iv_ConnectionHints i) of
             Some e \<Rightarrow> Some e
           | None \<Rightarrow>
               (case verificationCode cr lib i of
                  Inl e \<Rightarrow> Some e
                | Inr expected \<Rightarrow>
                    (if expected \<noteq> iv_VerificationCode i then Some VerificationCodeInvalid else None)))
      | _ \<Rightarrow> Some InvitationTimestamps)"

definition fragment_prefix :: string where "fragment_prefix = ''/pair/v1/''"

definition FragmentURL :: "crypto \<Rightarrow> pairing_lib \<Rightarrow> string \<Rightarrow> PairingInvitation option \<Rightarrow> 'e pairing_error + string" where
  "FragmentURL cr lib baseURL invitation =
     (case invitation of None \<Rightarrow> Inl InvitationRequired | Some i \<Rightarrow>
      case iv_CreatedAt i of None \<Rightarrow> Inl InvitationRequired | Some createdAt \<Rightarrow>
      case ValidateInvitation cr lib invitation createdAt of Some e \<Rightarrow> Inl e | None \<Rightarrow>
      case url_parse lib baseURL of None \<Rightarrow> Inl BaseURLInvalid | Some parsed \<Rightarrow>
      if url_Host parsed = [] \<or> url_Scheme parsed \<notin> {''http'', ''https''} then Inl BaseURLInvalid
      else if url_User parsed \<or> url_RawQuery parsed \<noteq> [] \<or> url_Fragment parsed \<noteq> [] then Inl BaseURLInvalid
      else case marshal_invitation lib i of
        None \<Rightarrow> Inl EncodeInvitation
      | Some encoded \<Rightarrow> Inr (url_string lib (parsed\<lparr>url_Fragment := fragment_prefix @ RawURL_Encode encoded\<rparr>)))"

definition ParseFragmentURL ::
    "crypto \<Rightarrow> pairing_lib \<Rightarrow> string \<Rightarrow> time \<Rightarrow> 'e pairing_error + PairingInvitation" where
  "ParseFragmentURL cr lib value now =
     (case url_parse lib value of None \<Rightarrow> Inl PairingURLInvalid | Some parsed \<Rightarrow>
      if url_Host parsed = [] \<or> url_Scheme parsed \<notin> {''http'', ''https''} \<or> url_User parsed \<or>
         url_RawQuery parsed \<noteq> [] then Inl PairingURLInvalid
      else if \<not> has_prefix (url_Fragment parsed) fragment_prefix then Inl PairingURLInvalid
      else
        let payload = trim_prefix (url_Fragment parsed) fragment_prefix in
        if length payload > RawURL_EncodedLen maxInvitationBytes then Inl PairingURLInvalid
        else case RawURL_Decode payload of None \<Rightarrow> Inl PairingURLInvalid | Some encoded \<Rightarrow>
        case unmarshal_invitation lib encoded of None \<Rightarrow> Inl PairingURLInvalid | Some invitation \<Rightarrow>
        case ValidateInvitation cr lib (Some invitation) now of
          Some e \<Rightarrow> Inl e
        | None \<Rightarrow> Inr invitation)"

section \<open>The manager\<close>

record activeInvitation =
  ac_invitation :: PairingInvitation
  ac_secret :: bytes
  ac_reservation :: "nat option"

record Manager =
  mg_ttl :: duration
  mg_active :: "activeInvitation option"
  mg_bound :: "nat set"
  mg_next :: nat

record Status =
  su_InvitationID :: bytes
  su_CreatedAt :: time
  su_ExpiresAt :: time
  su_VerificationCode :: string
  su_Reserved :: bool

definition New :: "bool \<Rightarrow> duration \<Rightarrow> 'e pairing_error + Manager" where
  "New hasAgent configTTL =
     (if \<not> hasAgent then Inl AgentRequired
      else
        let ttl = (if configTTL = 0 then DefaultTTL else configTTL) in
        if ttl < 30 * second \<or> ttl > 15 * minute then Inl TTLInvalid
        else Inr \<lparr>mg_ttl = ttl, mg_active = None, mg_bound = {}, mg_next = 0\<rparr>)"

text \<open>\<^verbatim>\<open>AsTime\<close> of a stored timestamp; the manager stores both.\<close>

definition expires_of :: "activeInvitation \<Rightarrow> time" where
  "expires_of a = the (iv_ExpiresAt (ac_invitation a))"

definition clearActiveLocked :: "Manager \<Rightarrow> Manager" where
  "clearActiveLocked m =
     (case mg_active m of
        None \<Rightarrow> m
      | Some a \<Rightarrow>
          m\<lparr>mg_active := None,
            mg_bound := (case ac_reservation a of None \<Rightarrow> mg_bound m | Some r \<Rightarrow> mg_bound m - {r})\<rparr>)"

definition Create ::
    "crypto \<Rightarrow> pairing_lib \<Rightarrow> device_error + SignedDeviceDescriptor \<Rightarrow> bytes option \<Rightarrow> bytes option \<Rightarrow> time \<Rightarrow>
     string list \<Rightarrow> Manager \<Rightarrow> Manager \<times> ('e pairing_error + PairingInvitation)" where
  "Create cr lib agent randomID randomSecret now connectionHints m =
     (case validateConnectionHints lib connectionHints of Some e \<Rightarrow> (m, Inl e) | None \<Rightarrow>
      case agent of Inl e \<Rightarrow> (m, Inl (DescriptorFailed e)) | Inr descriptor \<Rightarrow>
      case VerifySignedDescriptor cr (Some descriptor) of Some e \<Rightarrow> (m, Inl (DescriptorFailed e)) | None \<Rightarrow>
      if dd_DeviceClass (the (sd_DeviceDescriptor descriptor)) \<noteq> DEVICE_CLASS_AGENT then (m, Inl PairingNotAgent)
      else case randomID of None \<Rightarrow> (m, Inl PairingRandom) | Some invitationID \<Rightarrow>
      case randomSecret of None \<Rightarrow> (m, Inl PairingRandom) | Some secret \<Rightarrow>
      let invitation = \<lparr>iv_Version = CurrentInvitationVersion, iv_InvitationId = invitationID,
            iv_Agent = Some descriptor, iv_BootstrapSecret = secret, iv_CreatedAt = Some now,
            iv_ExpiresAt = Some (now + mg_ttl m), iv_ConnectionHints = connectionHints, iv_VerificationCode = []\<rparr>
      in case verificationCode cr lib invitation of
           Inl e \<Rightarrow> (m, Inl e)
         | Inr code \<Rightarrow>
             (let invitation = invitation\<lparr>iv_VerificationCode := code\<rparr>
              in ((clearActiveLocked m)\<lparr>mg_active := Some \<lparr>ac_invitation = invitation\<lparr>iv_BootstrapSecret := []\<rparr>,
                     ac_secret = secret, ac_reservation = None\<rparr>\<rparr>,
                  Inr invitation)))"

definition invitation_status :: "activeInvitation \<Rightarrow> bool \<Rightarrow> Status" where
  "invitation_status a reserved =
     \<lparr>su_InvitationID = iv_InvitationId (ac_invitation a), su_CreatedAt = the (iv_CreatedAt (ac_invitation a)),
      su_ExpiresAt = expires_of a, su_VerificationCode = iv_VerificationCode (ac_invitation a),
      su_Reserved = reserved\<rparr>"

definition ActiveStatus :: "time \<Rightarrow> Manager \<Rightarrow> Manager \<times> ('e pairing_error + Status)" where
  "ActiveStatus now m =
     (case mg_active m of
        None \<Rightarrow> (m, Inl ErrInvitationUnavailable)
      | Some a \<Rightarrow>
          (if \<not> now < expires_of a then (clearActiveLocked m, Inl ErrInvitationExpired)
           else (m, Inr (invitation_status a (ac_reservation a \<noteq> None)))))"

definition matchInvitationLocked :: "time \<Rightarrow> bytes \<Rightarrow> Manager \<Rightarrow> Manager \<times> 'e pairing_error option" where
  "matchInvitationLocked now invitationID m =
     (case mg_active m of
        None \<Rightarrow> (m, Some ErrInvitationUnavailable)
      | Some a \<Rightarrow>
          (if \<not> now < expires_of a then (clearActiveLocked m, Some ErrInvitationExpired)
           else if length invitationID \<noteq> InvitationIDBytes \<or> invitationID \<noteq> iv_InvitationId (ac_invitation a)
           then (m, Some ErrInvitationRejected)
           else (m, None)))"

text \<open>\<^verbatim>\<open>useSecret\<close> sees the secret and the state \<open>w\<close> of its caller.\<close>

definition Begin ::
    "time \<Rightarrow> bytes \<Rightarrow> (bytes \<Rightarrow> 'w \<Rightarrow> 'w \<times> 'e option) option \<Rightarrow> Manager \<Rightarrow> 'w \<Rightarrow>
     Manager \<times> 'w \<times> ('e pairing_error + nat \<times> Status)" where
  "Begin now invitationID useSecret m w =
     (case useSecret of None \<Rightarrow> (m, w, Inl CallbackRequired) | Some callback \<Rightarrow>
      case matchInvitationLocked now invitationID m of
        (m, Some e) \<Rightarrow> (m, w, Inl e)
      | (m, None) \<Rightarrow>
          (let a = the (mg_active m) in
           if ac_reservation a \<noteq> None then (m, w, Inl ErrInvitationInUse)
           else case callback (ac_secret a) w of
             (w, Some e) \<Rightarrow> (m, w, Inl (CallbackFailed e))
           | (w, None) \<Rightarrow>
               (let r = mg_next m
                in (m\<lparr>mg_next := Suc r, mg_bound := insert r (mg_bound m),
                       mg_active := Some (a\<lparr>ac_reservation := Some r\<rparr>)\<rparr>,
                    w, Inr (r, invitation_status a True)))))"

definition validateReservationLocked :: "time \<Rightarrow> nat option \<Rightarrow> Manager \<Rightarrow> Manager \<times> 'e pairing_error option" where
  "validateReservationLocked now reservation m =
     (case mg_active m of
        None \<Rightarrow> (m, Some ErrInvitationUnavailable)
      | Some a \<Rightarrow>
          (if \<not> now < expires_of a then (clearActiveLocked m, Some ErrInvitationExpired)
           else if (case reservation of None \<Rightarrow> True | Some r \<Rightarrow> r \<notin> mg_bound m \<or> ac_reservation a \<noteq> Some r)
           then (m, Some ErrInvitationRejected)
           else (m, None)))"

definition Approve ::
    "time \<Rightarrow> nat option \<Rightarrow> ('w \<Rightarrow> 'w \<times> 'e option) option \<Rightarrow> Manager \<Rightarrow> 'w \<Rightarrow> Manager \<times> 'w \<times> 'e pairing_error option" where
  "Approve now reservation persist m w =
     (case persist of None \<Rightarrow> (m, w, Some CallbackRequired) | Some callback \<Rightarrow>
      case validateReservationLocked now reservation m of
        (m, Some e) \<Rightarrow> (m, w, Some e)
      | (m, None) \<Rightarrow>
          (case callback w of
             (w, Some e) \<Rightarrow> (m, w, Some (CallbackFailed e))
           | (w, None) \<Rightarrow> (clearActiveLocked m, w, None)))"

definition Reject :: "time \<Rightarrow> nat option \<Rightarrow> Manager \<Rightarrow> Manager \<times> 'e pairing_error option" where
  "Reject now reservation m =
     (case validateReservationLocked now reservation m of
        (m, Some e) \<Rightarrow> (m, Some e)
      | (m, None) \<Rightarrow> (clearActiveLocked m, None))"

definition Release :: "time \<Rightarrow> nat option \<Rightarrow> Manager \<Rightarrow> Manager \<times> 'e pairing_error option" where
  "Release now reservation m =
     (case validateReservationLocked now reservation m of
        (m, Some e) \<Rightarrow> (m, Some e)
      | (m, None) \<Rightarrow>
          (m\<lparr>mg_active := Some ((the (mg_active m))\<lparr>ac_reservation := None\<rparr>),
             mg_bound := mg_bound m - {the reservation}\<rparr>, None))"

definition authenticateLocked :: "time \<Rightarrow> bytes \<Rightarrow> bytes \<Rightarrow> Manager \<Rightarrow> Manager \<times> 'e pairing_error option" where
  "authenticateLocked now invitationID secret m =
     (case matchInvitationLocked now invitationID m of
        (m, Some e) \<Rightarrow> (m, Some e)
      | (m, None) \<Rightarrow>
          (if length secret \<noteq> BootstrapSecretBytes \<or> secret \<noteq> ac_secret (the (mg_active m))
           then (m, Some ErrInvitationRejected) else (m, None)))"

definition Authenticate :: "time \<Rightarrow> bytes \<Rightarrow> bytes \<Rightarrow> Manager \<Rightarrow> Manager \<times> 'e pairing_error option" where
  "Authenticate now invitationID secret m = authenticateLocked now invitationID secret m"

definition Consume :: "time \<Rightarrow> bytes \<Rightarrow> bytes \<Rightarrow> Manager \<Rightarrow> Manager \<times> 'e pairing_error option" where
  "Consume now invitationID secret m =
     (case authenticateLocked now invitationID secret m of
        (m, Some e) \<Rightarrow> (m, Some e)
      | (m, None) \<Rightarrow> (clearActiveLocked m, None))"

definition mg_Close :: "Manager \<Rightarrow> Manager" where "mg_Close m = clearActiveLocked m"

end
