(* ===== verification/E2EE_Pairing.thy ===== *)
theory E2EE_Pairing
  imports Pairing_Manager
begin

text \<open>
  The pairing handshake and the encrypted transport (\<^verbatim>\<open>src/internal/e2ee/pairing.go\<close> and
  \<^verbatim>\<open>transport.go\<close>). The Noise library is a parameter: its handshake states and cipher states are
  abstract values, and each of its calls returns the next one. So are the protobuf encodings of
  the payloads; a decoder fails on unknown fields, as \<^verbatim>\<open>unmarshalBounded\<close> asks. Wiping key material
  is modelled by emptying the field that held it. Methods are modelled on receivers that are
  not nil.
\<close>

section \<open>The Noise library and the codecs\<close>

datatype noise_pattern = HandshakeXX | HandshakeIK

record noise_config =
  nc_Pattern :: noise_pattern
  nc_Initiator :: bool
  nc_Prologue :: bytes
  nc_PresharedKey :: bytes
  nc_Private :: bytes
  nc_Public :: bytes
  nc_PeerStatic :: bytes
  nc_Random :: bytes

text \<open>A call of the library that fails returns \<open>None\<close>; the state it leaves is then not used.\<close>

record ('h, 'c) noise_lib =
  nl_New :: "noise_config \<Rightarrow> 'h option"
  nl_WriteMessage :: "'h \<Rightarrow> bytes \<Rightarrow> ('h \<times> bytes \<times> 'c option \<times> 'c option) option"
  nl_ReadMessage :: "'h \<Rightarrow> bytes \<Rightarrow> ('h \<times> bytes \<times> 'c option \<times> 'c option) option"
  nl_PeerStatic :: "'h \<Rightarrow> bytes"
  nl_ChannelBinding :: "'h \<Rightarrow> bytes"
  nl_Encrypt :: "'c \<Rightarrow> bytes \<Rightarrow> bytes \<Rightarrow> ('c \<times> bytes) option"
  nl_Decrypt :: "'c \<Rightarrow> bytes \<Rightarrow> bytes \<Rightarrow> ('c \<times> bytes) option"
  nl_Nonce :: "'c \<Rightarrow> u64"

record HandshakeContext =
  hc_SchemaVersion :: u32
  hc_ProtocolVersion :: "ProtocolVersion option"
  hc_InitiatorDeviceId :: bytes
  hc_ResponderDeviceId :: bytes
  hc_RelayTicketHash :: bytes
  hc_Intent :: int
  hc_InvitationId :: bytes

record pairing_codec =
  marshal_context :: "HandshakeContext \<Rightarrow> bytes option"
  marshal_initiator :: "SignedDeviceDescriptor \<Rightarrow> bytes option"
  unmarshal_initiator :: "bytes \<Rightarrow> SignedDeviceDescriptor option option"
  marshal_responder :: "SignedDeviceDescriptor \<Rightarrow> bytes option"
  unmarshal_responder :: "bytes \<Rightarrow> SignedDeviceDescriptor option option"
  marshal_finish :: "bytes \<Rightarrow> bytes option"
  unmarshal_finish :: "bytes \<Rightarrow> bytes option"

datatype handshake_error =
    ErrInvalidHandshake
  | ErrHandshakeState
  | ContextInvalid
  | HandshakeDescriptor device_error
  | StaticKeyLength
  | SecretLength
  | ClassesInvalid
  | VersionUnsupported
  | ContextMismatch
  | StaticKeyMismatch
  | HandshakeEncode
  | HandshakeInit

abbreviation (input) INTENT_PAIR_DEVICE :: int where "INTENT_PAIR_DEVICE \<equiv> 1"
abbreviation (input) pairingContextSchemaVersion :: u32 where "pairingContextSchemaVersion \<equiv> 1"
definition maxNoiseMessageBytes :: nat where "maxNoiseMessageBytes = 65535"

definition pairingPrologueDomain :: bytes where
  "pairingPrologueDomain = string_bytes ''VibeBridge pairing prologue v1'' @ [0]"

definition pairingSASDomain :: bytes where
  "pairingSASDomain = string_bytes ''VibeBridge pairing SAS v1'' @ [0]"

section \<open>Transport\<close>

record 'c Transport =
  tr_send :: "'c option"
  tr_receive :: "'c option"

datatype transport_error = ErrTransportClosed | PlaintextTooLarge | CiphertextSize | TransportAuthFailed | TransportEncrypt

definition newTransport :: "'c option \<Rightarrow> 'c option \<Rightarrow> 'c Transport" where
  "newTransport send receive = \<lparr>tr_send = send, tr_receive = receive\<rparr>"

definition maxTransportPlaintextBytes :: nat where
  "maxTransportPlaintextBytes = maxNoiseMessageBytes - 16"

definition tr_closed :: "'c Transport \<Rightarrow> 'c Transport" where
  "tr_closed t = t\<lparr>tr_send := None, tr_receive := None\<rparr>"

definition tr_Encrypt ::
    "('h, 'c) noise_lib \<Rightarrow> bytes \<Rightarrow> bytes \<Rightarrow> 'c Transport \<Rightarrow> 'c Transport \<times> (transport_error + bytes)" where
  "tr_Encrypt nl plaintext associatedData t =
     (case (tr_send t, tr_receive t) of
        (Some send, Some receive) \<Rightarrow>
          (if length plaintext > maxTransportPlaintextBytes then (t, Inl PlaintextTooLarge)
           else case nl_Encrypt nl send associatedData plaintext of
             None \<Rightarrow> (t, Inl TransportEncrypt)
           | Some (send', ciphertext) \<Rightarrow> (t\<lparr>tr_send := Some send'\<rparr>, Inr ciphertext))
      | _ \<Rightarrow> (t, Inl ErrTransportClosed))"

definition tr_Decrypt ::
    "('h, 'c) noise_lib \<Rightarrow> bytes \<Rightarrow> bytes \<Rightarrow> 'c Transport \<Rightarrow> 'c Transport \<times> (transport_error + bytes)" where
  "tr_Decrypt nl ciphertext associatedData t =
     (case (tr_send t, tr_receive t) of
        (Some send, Some receive) \<Rightarrow>
          (if length ciphertext < 16 \<or> length ciphertext > maxNoiseMessageBytes then (tr_closed t, Inl CiphertextSize)
           else case nl_Decrypt nl receive associatedData ciphertext of
             None \<Rightarrow> (tr_closed t, Inl TransportAuthFailed)
           | Some (receive', plaintext) \<Rightarrow> (t\<lparr>tr_receive := Some receive'\<rparr>, Inr plaintext))
      | _ \<Rightarrow> (t, Inl ErrTransportClosed))"

definition SendCounter :: "('h, 'c) noise_lib \<Rightarrow> 'c Transport \<Rightarrow> transport_error + u64" where
  "SendCounter nl t =
     (case (tr_send t, tr_receive t) of
        (Some send, Some receive) \<Rightarrow> Inr (nl_Nonce nl send)
      | _ \<Rightarrow> Inl ErrTransportClosed)"

definition ReceiveCounter :: "('h, 'c) noise_lib \<Rightarrow> 'c Transport \<Rightarrow> transport_error + u64" where
  "ReceiveCounter nl t =
     (case (tr_send t, tr_receive t) of
        (Some send, Some receive) \<Rightarrow> Inr (nl_Nonce nl receive)
      | _ \<Rightarrow> Inl ErrTransportClosed)"

definition tr_Close :: "'c Transport \<Rightarrow> 'c Transport" where "tr_Close t = tr_closed t"

section \<open>Checks\<close>

definition validatePairingContext :: "HandshakeContext option \<Rightarrow> handshake_error option" where
  "validatePairingContext context =
     (case context of None \<Rightarrow> Some ContextInvalid | Some c \<Rightarrow>
      if hc_SchemaVersion c \<noteq> pairingContextSchemaVersion \<or>
         hc_ProtocolVersion c \<noteq> Some \<lparr>v_Major = CurrentMajor, v_Minor = CurrentMinor\<rparr> \<or>
         length (hc_InitiatorDeviceId c) \<noteq> DeviceIDBytes \<or> length (hc_ResponderDeviceId c) \<noteq> DeviceIDBytes \<or>
         hc_InitiatorDeviceId c = hc_ResponderDeviceId c \<or> length (hc_RelayTicketHash c) \<noteq> 32 \<or>
         hc_Intent c \<noteq> INTENT_PAIR_DEVICE \<or> length (hc_InvitationId c) \<noteq> InvitationIDBytes
      then Some ContextInvalid else None)"

definition NewPairingContext :: "crypto \<Rightarrow> bytes \<Rightarrow> bytes \<Rightarrow> bytes \<Rightarrow> bytes \<Rightarrow> handshake_error + HandshakeContext" where
  "NewPairingContext cr initiatorDeviceID responderDeviceID invitationID relayTicket =
     (let context = \<lparr>hc_SchemaVersion = pairingContextSchemaVersion,
            hc_ProtocolVersion = Some \<lparr>v_Major = CurrentMajor, v_Minor = CurrentMinor\<rparr>,
            hc_InitiatorDeviceId = initiatorDeviceID, hc_ResponderDeviceId = responderDeviceID,
            hc_RelayTicketHash = dc_Sum256 cr relayTicket, hc_Intent = INTENT_PAIR_DEVICE,
            hc_InvitationId = invitationID\<rparr>
      in case validatePairingContext (Some context) of Some e \<Rightarrow> Inl e | None \<Rightarrow> Inr context)"

definition descriptorSupportsVersion :: "SignedDeviceDescriptor option \<Rightarrow> ProtocolVersion option \<Rightarrow> bool" where
  "descriptorSupportsVersion sdesc version =
     (case (sdesc, version) of
        (Some sd, Some v) \<Rightarrow>
          (case sd_DeviceDescriptor sd of None \<Rightarrow> False | Some d \<Rightarrow>
           case dd_SupportedVersions d of None \<Rightarrow> False | Some versions \<Rightarrow>
           case (r_Minimum versions, r_Maximum versions) of
             (Some lo, Some hi) \<Rightarrow>
               v_Major lo = v_Major v \<and> v_Major hi = v_Major v \<and> v_Minor lo \<le> v_Minor v \<and> v_Minor v \<le> v_Minor hi
           | _ \<Rightarrow> False)
      | _ \<Rightarrow> False)"

definition errDescriptor :: "crypto \<Rightarrow> SignedDeviceDescriptor option \<Rightarrow> handshake_error option" where
  "errDescriptor cr sdesc =
     (case VerifySignedDescriptor cr sdesc of Some e \<Rightarrow> Some (HandshakeDescriptor e) | None \<Rightarrow> None)"

text \<open>The descriptor inside a signed descriptor that was verified.\<close>

definition descriptor_of :: "SignedDeviceDescriptor \<Rightarrow> DeviceDescriptor" where
  "descriptor_of sd = the (sd_DeviceDescriptor sd)"

definition validatePeerDescriptor ::
    "crypto \<Rightarrow> SignedDeviceDescriptor \<Rightarrow> int \<Rightarrow> bytes \<Rightarrow> ProtocolVersion option \<Rightarrow> handshake_error option" where
  "validatePeerDescriptor cr sd class deviceID version =
     (case errDescriptor cr (Some sd) of Some e \<Rightarrow> Some e | None \<Rightarrow>
      if dd_DeviceClass (descriptor_of sd) \<noteq> class \<or> dd_DeviceId (descriptor_of sd) \<noteq> deviceID \<or>
         \<not> descriptorSupportsVersion (Some sd) version
      then Some ContextMismatch else None)"

definition checkedStaticKey :: "crypto \<Rightarrow> bytes \<Rightarrow> bytes \<Rightarrow> handshake_error + bytes" where
  "checkedStaticKey cr private expectedPublic =
     (if length private \<noteq> KeyAgreementBytes then Inl StaticKeyLength
      else case dc_X25519Private cr private of
        None \<Rightarrow> Inl StaticKeyMismatch
      | Some public \<Rightarrow> (if public \<noteq> expectedPublic then Inl StaticKeyMismatch else Inr private))"

text \<open>\<^verbatim>\<open>marshalDeterministic\<close> and \<^verbatim>\<open>unmarshalBounded\<close> around the codec of one message type.\<close>

definition marshalDeterministic :: "('m \<Rightarrow> bytes option) \<Rightarrow> 'm \<Rightarrow> handshake_error + bytes" where
  "marshalDeterministic marshal message =
     (case marshal message of
        None \<Rightarrow> Inl HandshakeEncode
      | Some encoded \<Rightarrow> (if length encoded > maxNoiseMessageBytes then Inl HandshakeEncode else Inr encoded))"

definition unmarshalBounded :: "(bytes \<Rightarrow> 'm option) \<Rightarrow> bytes \<Rightarrow> 'm option" where
  "unmarshalBounded unmarshal encoded =
     (if encoded = [] \<or> length encoded > maxNoiseMessageBytes then None else unmarshal encoded)"

definition pairingPrologue :: "pairing_codec \<Rightarrow> HandshakeContext \<Rightarrow> handshake_error + bytes" where
  "pairingPrologue pc context =
     (case validatePairingContext (Some context) of Some e \<Rightarrow> Inl e | None \<Rightarrow>
      case marshalDeterministic (marshal_context pc) context of
        Inl e \<Rightarrow> Inl e
      | Inr encoded \<Rightarrow> Inr (pairingPrologueDomain @ encoded))"

text \<open>\<^verbatim>\<open>binary.BigEndian.Uint64\<close> of the first eight bytes.\<close>

definition big_endian :: "bytes \<Rightarrow> nat" where
  "big_endian bs = foldl (\<lambda>n b. n * 256 + unat b) 0 bs"

definition pairingSAS :: "crypto \<Rightarrow> bytes \<Rightarrow> string" where
  "pairingSAS cr handshakeHash =
     (let digest = dc_Sum256 cr (pairingSASDomain @ handshakeHash);
          value = big_endian (take 8 digest) mod 1000000
      in three_digits (value div 1000) @ ''-'' @ three_digits (value mod 1000))"

record 'c PairingResult =
  rs_Peer :: SignedDeviceDescriptor
  rs_SAS :: string
  rs_HandshakeHash :: bytes
  rs_Transport :: "'c Transport"

definition pairingResult ::
    "crypto \<Rightarrow> SignedDeviceDescriptor \<Rightarrow> bytes \<Rightarrow> 'c option \<Rightarrow> 'c option \<Rightarrow> handshake_error + 'c PairingResult" where
  "pairingResult cr peer hash send receive =
     (if length hash \<noteq> 64 \<or> send = None \<or> receive = None then Inl ErrInvalidHandshake
      else Inr \<lparr>rs_Peer = peer, rs_SAS = pairingSAS cr hash, rs_HandshakeHash = hash,
             rs_Transport = newTransport send receive\<rparr>)"

section \<open>The initiator\<close>

datatype initiatorState = initiatorReady | initiatorAwaitingResponse | initiatorComplete | initiatorFailed

record PairingInitiatorConfig =
  ic_Context :: "HandshakeContext option"
  ic_Client :: "SignedDeviceDescriptor option"
  ic_Agent :: "SignedDeviceDescriptor option"
  ic_StaticPrivateKey :: bytes
  ic_BootstrapSecret :: bytes
  ic_Random :: bytes

record 'h PairingInitiator =
  in_handshake :: "'h option"
  in_context :: HandshakeContext
  in_client :: SignedDeviceDescriptor
  in_agent :: SignedDeviceDescriptor
  in_private :: bytes
  in_state :: initiatorState

definition in_clearHandshakeSecrets :: "'h PairingInitiator \<Rightarrow> 'h PairingInitiator" where
  "in_clearHandshakeSecrets i = i\<lparr>in_private := [], in_handshake := None\<rparr>"

definition in_fail :: "'h PairingInitiator \<Rightarrow> 'h PairingInitiator" where
  "in_fail i = in_clearHandshakeSecrets (i\<lparr>in_state := initiatorFailed\<rparr>)"

definition validatePairingConfig ::
    "crypto \<Rightarrow> HandshakeContext option \<Rightarrow> SignedDeviceDescriptor option \<Rightarrow> SignedDeviceDescriptor option \<Rightarrow>
     bytes \<Rightarrow> bytes \<Rightarrow> handshake_error option" where
  "validatePairingConfig cr context client agent private secret =
     (case validatePairingContext context of Some e \<Rightarrow> Some e | None \<Rightarrow>
      case errDescriptor cr client of Some e \<Rightarrow> Some e | None \<Rightarrow>
      case errDescriptor cr agent of Some e \<Rightarrow> Some e | None \<Rightarrow>
      if length private \<noteq> KeyAgreementBytes then Some StaticKeyLength
      else if length secret \<noteq> BootstrapSecretBytes then Some SecretLength else None)"

text \<open>The configuration of the XXpsk0 handshake, shared by the two sides.\<close>

definition xx_config :: "bool \<Rightarrow> bytes \<Rightarrow> bytes \<Rightarrow> bytes \<Rightarrow> bytes \<Rightarrow> bytes \<Rightarrow> noise_config" where
  "xx_config initiator prologue psk private public random =
     \<lparr>nc_Pattern = HandshakeXX, nc_Initiator = initiator, nc_Prologue = prologue, nc_PresharedKey = psk,
      nc_Private = private, nc_Public = public, nc_PeerStatic = [], nc_Random = random\<rparr>"

definition NewPairingInitiator ::
    "crypto \<Rightarrow> ('h, 'c) noise_lib \<Rightarrow> pairing_codec \<Rightarrow> PairingInitiatorConfig \<Rightarrow> handshake_error + 'h PairingInitiator" where
  "NewPairingInitiator cr nl pc config =
     (case validatePairingConfig cr (ic_Context config) (ic_Client config) (ic_Agent config)
             (ic_StaticPrivateKey config) (ic_BootstrapSecret config) of Some e \<Rightarrow> Inl e | None \<Rightarrow>
      let context = the (ic_Context config); client = the (ic_Client config); agent = the (ic_Agent config) in
      if dd_DeviceClass (descriptor_of client) \<noteq> DEVICE_CLASS_CLIENT \<or>
         dd_DeviceClass (descriptor_of agent) \<noteq> DEVICE_CLASS_AGENT then Inl ClassesInvalid
      else if \<not> descriptorSupportsVersion (Some client) (hc_ProtocolVersion context) \<or>
              \<not> descriptorSupportsVersion (Some agent) (hc_ProtocolVersion context) then Inl VersionUnsupported
      else if hc_InitiatorDeviceId context \<noteq> dd_DeviceId (descriptor_of client) \<or>
              hc_ResponderDeviceId context \<noteq> dd_DeviceId (descriptor_of agent) then Inl ContextMismatch
      else case checkedStaticKey cr (ic_StaticPrivateKey config) (dd_KeyAgreementPublicKey (descriptor_of client)) of
        Inl e \<Rightarrow> Inl e
      | Inr privateKey \<Rightarrow>
          (case pairingPrologue pc context of Inl e \<Rightarrow> Inl e | Inr prologue \<Rightarrow>
           case nl_New nl (xx_config True prologue (ic_BootstrapSecret config) privateKey
                  (dd_KeyAgreementPublicKey (descriptor_of client)) (ic_Random config)) of
             None \<Rightarrow> Inl HandshakeInit
           | Some handshake \<Rightarrow>
               Inr \<lparr>in_handshake = Some handshake, in_context = context, in_client = client, in_agent = agent,
                    in_private = privateKey, in_state = initiatorReady\<rparr>))"

record PairingHandshakeStart =
  hs_Context :: "HandshakeContext option"
  hs_NoiseMessage :: bytes

definition in_Start ::
    "('h, 'c) noise_lib \<Rightarrow> pairing_codec \<Rightarrow> 'h PairingInitiator \<Rightarrow>
     'h PairingInitiator \<times> (handshake_error + PairingHandshakeStart)" where
  "in_Start nl pc i =
     (case in_handshake i of None \<Rightarrow> (i, Inl ErrHandshakeState) | Some h \<Rightarrow>
      if in_state i \<noteq> initiatorReady then (i, Inl ErrHandshakeState)
      else case marshalDeterministic (marshal_initiator pc) (in_client i) of
        Inl e \<Rightarrow> (in_fail i, Inl e)
      | Inr payload \<Rightarrow>
          (case nl_WriteMessage nl h payload of
             None \<Rightarrow> (in_fail i, Inl ErrInvalidHandshake)
           | Some (h', message, _, _) \<Rightarrow>
               (if length message > maxNoiseMessageBytes then (in_fail i, Inl ErrInvalidHandshake)
                else (i\<lparr>in_handshake := Some h', in_state := initiatorAwaitingResponse\<rparr>,
                      Inr \<lparr>hs_Context = Some (in_context i), hs_NoiseMessage = message\<rparr>))))"

text \<open>\<^verbatim>\<open>Finish\<close> after the response was read, and the method; a message frame is its Noise message.\<close>

definition in_finish_reply ::
    "crypto \<Rightarrow> ('h, 'c) noise_lib \<Rightarrow> pairing_codec \<Rightarrow> 'h \<Rightarrow> bytes \<Rightarrow> 'h PairingInitiator \<Rightarrow>
     handshake_error + 'h \<times> 'c PairingResult \<times> bytes" where
  "in_finish_reply cr nl pc h payloadBytes i =
     (case unmarshalBounded (unmarshal_responder pc) payloadBytes of
        Some (Some agent) \<Rightarrow>
          (if agent \<noteq> in_agent i then Inl ErrInvalidHandshake
           else if validatePeerDescriptor cr agent DEVICE_CLASS_AGENT (hc_ResponderDeviceId (in_context i))
                     (hc_ProtocolVersion (in_context i)) \<noteq> None then Inl ErrInvalidHandshake
           else case marshalDeterministic (marshal_finish pc) (hc_InitiatorDeviceId (in_context i)) of
             Inl e \<Rightarrow> Inl e
           | Inr finishPayload \<Rightarrow>
               (case nl_WriteMessage nl h finishPayload of
                  None \<Rightarrow> Inl ErrInvalidHandshake
                | Some (h', message, send, receive) \<Rightarrow>
                    (if send = None \<or> receive = None \<or> length message > maxNoiseMessageBytes
                     then Inl ErrInvalidHandshake
                     else case pairingResult cr (in_agent i) (nl_ChannelBinding nl h') send receive of
                       Inl e \<Rightarrow> Inl e
                     | Inr result \<Rightarrow> Inr (h', result, message))))
      | _ \<Rightarrow> Inl ErrInvalidHandshake)"

definition in_Finish ::
    "crypto \<Rightarrow> ('h, 'c) noise_lib \<Rightarrow> pairing_codec \<Rightarrow> bytes option \<Rightarrow> 'h PairingInitiator \<Rightarrow>
     'h PairingInitiator \<times> (handshake_error + 'c PairingResult \<times> bytes)" where
  "in_Finish cr nl pc response i =
     (case in_handshake i of None \<Rightarrow> (i, Inl ErrHandshakeState) | Some h \<Rightarrow>
      if in_state i \<noteq> initiatorAwaitingResponse then (i, Inl ErrHandshakeState)
      else case response of None \<Rightarrow> (in_fail i, Inl ErrInvalidHandshake) | Some noiseMessage \<Rightarrow>
      if noiseMessage = [] \<or> length noiseMessage > maxNoiseMessageBytes then (in_fail i, Inl ErrInvalidHandshake)
      else case nl_ReadMessage nl h noiseMessage of
        None \<Rightarrow> (in_fail i, Inl ErrInvalidHandshake)
      | Some (h', payloadBytes, c1, c2) \<Rightarrow>
          (if c1 \<noteq> None \<or> c2 \<noteq> None \<or>
              nl_PeerStatic nl h' \<noteq> dd_KeyAgreementPublicKey (descriptor_of (in_agent i))
           then (in_fail i, Inl ErrInvalidHandshake)
           else case in_finish_reply cr nl pc h' payloadBytes i of
             Inl e \<Rightarrow> (in_fail i, Inl e)
           | Inr (_, result, message) \<Rightarrow>
               (in_clearHandshakeSecrets (i\<lparr>in_state := initiatorComplete\<rparr>), Inr (result, message))))"

section \<open>The responder\<close>

datatype responderState = responderAwaitingFinish | responderComplete | responderFailed

record PairingResponderConfig =
  rc_ExpectedContext :: "HandshakeContext option"
  rc_Agent :: "SignedDeviceDescriptor option"
  rc_StaticPrivateKey :: bytes
  rc_BootstrapSecret :: bytes
  rc_Random :: bytes

record 'h PairingResponder =
  re_handshake :: "'h option"
  re_context :: HandshakeContext
  re_client :: SignedDeviceDescriptor
  re_private :: bytes
  re_state :: responderState

definition re_clearHandshakeSecrets :: "'h PairingResponder \<Rightarrow> 'h PairingResponder" where
  "re_clearHandshakeSecrets r = r\<lparr>re_private := [], re_handshake := None\<rparr>"

definition re_fail :: "'h PairingResponder \<Rightarrow> 'h PairingResponder" where
  "re_fail r = re_clearHandshakeSecrets (r\<lparr>re_state := responderFailed\<rparr>)"

definition re_Close :: "'h PairingResponder \<Rightarrow> 'h PairingResponder" where
  "re_Close r = (if re_state r \<noteq> responderComplete then re_fail r else r)"

text \<open>The Noise part of \<^verbatim>\<open>AcceptPairingStart\<close>, and the function with its checks.\<close>

definition accept_noise ::
    "crypto \<Rightarrow> ('h, 'c) noise_lib \<Rightarrow> pairing_codec \<Rightarrow> HandshakeContext \<Rightarrow> SignedDeviceDescriptor \<Rightarrow> bytes \<Rightarrow> 'h \<Rightarrow> bytes \<Rightarrow>
     handshake_error + 'h PairingResponder \<times> bytes \<times> SignedDeviceDescriptor" where
  "accept_noise cr nl pc context agent privateKey handshake noiseMessage =
     (case nl_ReadMessage nl handshake noiseMessage of
        None \<Rightarrow> Inl ErrInvalidHandshake
      | Some (h1, payloadBytes, c1, c2) \<Rightarrow>
          (if c1 \<noteq> None \<or> c2 \<noteq> None then Inl ErrInvalidHandshake
           else case unmarshalBounded (unmarshal_initiator pc) payloadBytes of
             Some (Some client) \<Rightarrow>
               (if validatePeerDescriptor cr client DEVICE_CLASS_CLIENT (hc_InitiatorDeviceId context)
                     (hc_ProtocolVersion context) \<noteq> None then Inl ErrInvalidHandshake
                else case marshalDeterministic (marshal_responder pc) agent of
                  Inl e \<Rightarrow> Inl e
                | Inr responsePayload \<Rightarrow>
                    (case nl_WriteMessage nl h1 responsePayload of
                       None \<Rightarrow> Inl ErrInvalidHandshake
                     | Some (h2, message, c1, c2) \<Rightarrow>
                         (if c1 \<noteq> None \<or> c2 \<noteq> None \<or> length message > maxNoiseMessageBytes
                          then Inl ErrInvalidHandshake
                          else Inr (\<lparr>re_handshake = Some h2, re_context = context, re_client = client,
                                     re_private = privateKey, re_state = responderAwaitingFinish\<rparr>,
                                    message, client))))
           | _ \<Rightarrow> Inl ErrInvalidHandshake))"

definition AcceptPairingStart ::
    "crypto \<Rightarrow> ('h, 'c) noise_lib \<Rightarrow> pairing_codec \<Rightarrow> PairingResponderConfig \<Rightarrow> PairingHandshakeStart option \<Rightarrow>
     handshake_error + 'h PairingResponder \<times> bytes \<times> SignedDeviceDescriptor" where
  "AcceptPairingStart cr nl pc config start =
     (case start of None \<Rightarrow> Inl ErrInvalidHandshake | Some st \<Rightarrow>
      case hs_Context st of None \<Rightarrow> Inl ErrInvalidHandshake | Some startContext \<Rightarrow>
      if hs_NoiseMessage st = [] \<or> length (hs_NoiseMessage st) > maxNoiseMessageBytes then Inl ErrInvalidHandshake
      else if rc_ExpectedContext config \<noteq> Some startContext then Inl ErrInvalidHandshake
      else if validatePairingContext (Some startContext) \<noteq> None \<or> errDescriptor cr (rc_Agent config) \<noteq> None
      then Inl ErrInvalidHandshake
      else
        let agent = the (rc_Agent config) in
        if dd_DeviceClass (descriptor_of agent) \<noteq> DEVICE_CLASS_AGENT \<or>
           \<not> descriptorSupportsVersion (Some agent) (hc_ProtocolVersion startContext) \<or>
           hc_ResponderDeviceId startContext \<noteq> dd_DeviceId (descriptor_of agent) \<or>
           length (rc_BootstrapSecret config) \<noteq> BootstrapSecretBytes then Inl ErrInvalidHandshake
        else case checkedStaticKey cr (rc_StaticPrivateKey config) (dd_KeyAgreementPublicKey (descriptor_of agent)) of
          Inl e \<Rightarrow> Inl e
        | Inr privateKey \<Rightarrow>
            (case pairingPrologue pc startContext of Inl e \<Rightarrow> Inl e | Inr prologue \<Rightarrow>
             case nl_New nl (xx_config False prologue (rc_BootstrapSecret config) privateKey
                    (dd_KeyAgreementPublicKey (descriptor_of agent)) (rc_Random config)) of
               None \<Rightarrow> Inl HandshakeInit
             | Some handshake \<Rightarrow>
                 accept_noise cr nl pc startContext agent privateKey handshake (hs_NoiseMessage st)))"

definition re_Finish ::
    "crypto \<Rightarrow> ('h, 'c) noise_lib \<Rightarrow> pairing_codec \<Rightarrow> bytes option \<Rightarrow> 'h PairingResponder \<Rightarrow>
     'h PairingResponder \<times> (handshake_error + 'c PairingResult)" where
  "re_Finish cr nl pc fin r =
     (case re_handshake r of None \<Rightarrow> (r, Inl ErrHandshakeState) | Some h \<Rightarrow>
      if re_state r \<noteq> responderAwaitingFinish then (r, Inl ErrHandshakeState)
      else case fin of None \<Rightarrow> (re_fail r, Inl ErrInvalidHandshake) | Some noiseMessage \<Rightarrow>
      if noiseMessage = [] \<or> length noiseMessage > maxNoiseMessageBytes then (re_fail r, Inl ErrInvalidHandshake)
      else case nl_ReadMessage nl h noiseMessage of
        None \<Rightarrow> (re_fail r, Inl ErrInvalidHandshake)
      | Some (h', payloadBytes, initiatorSend, initiatorReceive) \<Rightarrow>
          (if initiatorSend = None \<or> initiatorReceive = None \<or>
              nl_PeerStatic nl h' \<noteq> dd_KeyAgreementPublicKey (descriptor_of (re_client r))
           then (re_fail r, Inl ErrInvalidHandshake)
           else if unmarshalBounded (unmarshal_finish pc) payloadBytes \<noteq> Some (hc_InitiatorDeviceId (re_context r))
           then (re_fail r, Inl ErrInvalidHandshake)
           else case pairingResult cr (re_client r) (nl_ChannelBinding nl h') initiatorReceive initiatorSend of
             Inl e \<Rightarrow> (re_fail r, Inl e)
           | Inr result \<Rightarrow> (re_clearHandshakeSecrets (r\<lparr>re_state := responderComplete\<rparr>), Inr result)))"

end
