(* ===== verification/E2EE_Session.thy ===== *)
theory E2EE_Session
  imports E2EE_Pairing
begin

text \<open>
  The session handshake of an authorized client (\<^verbatim>\<open>src/internal/e2ee/session.go\<close>), over the same
  parameters as the pairing handshake. The agent looks the client up in the device store, so the
  store of the device identity component is an argument of \<^verbatim>\<open>AcceptSessionStart\<close>; it is taken not to
  change during the call, which reads it three times.
\<close>

section \<open>Context and payloads\<close>

abbreviation (input) INTENT_CONTROL_SESSION :: int where "INTENT_CONTROL_SESSION \<equiv> 2"
abbreviation (input) sessionContextSchemaVersion :: u32 where "sessionContextSchemaVersion \<equiv> 1"

definition sessionPrologueDomain :: bytes where
  "sessionPrologueDomain = string_bytes ''VibeBridge session prologue v1'' @ [0]"

record SessionInitiatorPayload =
  ip_Client :: "SignedDeviceDescriptor option"
  ip_KnownRevocationEpoch :: u64
  ip_Capabilities :: "string list"

record SessionResponderPayload =
  rp_Agent :: "SignedDeviceDescriptor option"
  rp_RevocationEpoch :: u64

record session_codec =
  sc_context :: "HandshakeContext \<Rightarrow> bytes option"
  sc_initiator :: "SessionInitiatorPayload \<Rightarrow> bytes option"
  sc_parse_initiator :: "bytes \<Rightarrow> SessionInitiatorPayload option"
  sc_responder :: "SessionResponderPayload \<Rightarrow> bytes option"
  sc_parse_responder :: "bytes \<Rightarrow> SessionResponderPayload option"

datatype session_error =
    ErrInvalidSessionHandshake
  | ErrSessionHandshakeState
  | ErrSessionAuthorization
  | SessionOther handshake_error

definition validateSessionContext :: "HandshakeContext option \<Rightarrow> handshake_error option" where
  "validateSessionContext context =
     (case context of None \<Rightarrow> Some ContextInvalid | Some c \<Rightarrow>
      if hc_SchemaVersion c \<noteq> sessionContextSchemaVersion \<or>
         hc_ProtocolVersion c \<noteq> Some \<lparr>v_Major = CurrentMajor, v_Minor = CurrentMinor\<rparr> \<or>
         length (hc_InitiatorDeviceId c) \<noteq> DeviceIDBytes \<or> length (hc_ResponderDeviceId c) \<noteq> DeviceIDBytes \<or>
         hc_InitiatorDeviceId c = hc_ResponderDeviceId c \<or> length (hc_RelayTicketHash c) \<noteq> 32 \<or>
         hc_Intent c \<noteq> INTENT_CONTROL_SESSION \<or> hc_InvitationId c \<noteq> []
      then Some ContextInvalid else None)"

definition NewSessionContext :: "crypto \<Rightarrow> bytes \<Rightarrow> bytes \<Rightarrow> bytes \<Rightarrow> handshake_error + HandshakeContext" where
  "NewSessionContext cr initiatorDeviceID responderDeviceID relayTicket =
     (let context = \<lparr>hc_SchemaVersion = sessionContextSchemaVersion,
            hc_ProtocolVersion = Some \<lparr>v_Major = CurrentMajor, v_Minor = CurrentMinor\<rparr>,
            hc_InitiatorDeviceId = initiatorDeviceID, hc_ResponderDeviceId = responderDeviceID,
            hc_RelayTicketHash = dc_Sum256 cr relayTicket, hc_Intent = INTENT_CONTROL_SESSION,
            hc_InvitationId = []\<rparr>
      in case validateSessionContext (Some context) of Some e \<Rightarrow> Inl e | None \<Rightarrow> Inr context)"

definition marshalSessionDeterministic :: "('m \<Rightarrow> bytes option) \<Rightarrow> 'm \<Rightarrow> handshake_error + bytes" where
  "marshalSessionDeterministic marshal message =
     (case marshal message of
        None \<Rightarrow> Inl HandshakeEncode
      | Some encoded \<Rightarrow> (if length encoded > maxNoiseMessageBytes then Inl HandshakeEncode else Inr encoded))"

definition unmarshalSessionBounded :: "(bytes \<Rightarrow> 'm option) \<Rightarrow> bytes \<Rightarrow> 'm option" where
  "unmarshalSessionBounded unmarshal encoded =
     (if encoded = [] \<or> length encoded > maxNoiseMessageBytes then None else unmarshal encoded)"

definition sessionPrologue :: "session_codec \<Rightarrow> HandshakeContext \<Rightarrow> handshake_error + bytes" where
  "sessionPrologue sc context =
     (case validateSessionContext (Some context) of Some e \<Rightarrow> Inl e | None \<Rightarrow>
      case marshalSessionDeterministic (sc_context sc) context of
        Inl e \<Rightarrow> Inl e
      | Inr encoded \<Rightarrow> Inr (sessionPrologueDomain @ encoded))"

record 'c SessionResult =
  sr_Peer :: SignedDeviceDescriptor
  sr_AuthorizationVersion :: u64
  sr_RevocationEpoch :: u64
  sr_Capabilities :: "string list"
  sr_HandshakeHash :: bytes
  sr_Transport :: "'c Transport"

definition sessionResult ::
    "SignedDeviceDescriptor \<Rightarrow> bytes \<Rightarrow> 'c option \<Rightarrow> 'c option \<Rightarrow> u64 \<Rightarrow> string list \<Rightarrow> session_error + 'c SessionResult" where
  "sessionResult peer hash send receive epoch caps =
     (if length hash \<noteq> 64 \<or> send = None \<or> receive = None then Inl ErrInvalidSessionHandshake
      else Inr \<lparr>sr_Peer = peer, sr_AuthorizationVersion = 0, sr_RevocationEpoch = epoch, sr_Capabilities = caps,
             sr_HandshakeHash = hash, sr_Transport = newTransport send receive\<rparr>)"

definition ik_config :: "bool \<Rightarrow> bytes \<Rightarrow> bytes \<Rightarrow> bytes \<Rightarrow> bytes \<Rightarrow> bytes \<Rightarrow> noise_config" where
  "ik_config initiator prologue private public peerStatic random =
     \<lparr>nc_Pattern = HandshakeIK, nc_Initiator = initiator, nc_Prologue = prologue, nc_PresharedKey = [],
      nc_Private = private, nc_Public = public, nc_PeerStatic = peerStatic, nc_Random = random\<rparr>"

section \<open>The initiator\<close>

datatype sessionInitiatorState =
    sessionInitiatorReady | sessionInitiatorAwaitingResponse | sessionInitiatorComplete | sessionInitiatorFailed

record SessionInitiatorConfig =
  si_Context :: "HandshakeContext option"
  si_Client :: "SignedDeviceDescriptor option"
  si_Agent :: "SignedDeviceDescriptor option"
  si_StaticPrivateKey :: bytes
  si_KnownEpoch :: u64
  si_Capabilities :: "string list"
  si_Random :: bytes

record 'h SessionInitiator =
  sn_handshake :: "'h option"
  sn_context :: HandshakeContext
  sn_client :: SignedDeviceDescriptor
  sn_agent :: SignedDeviceDescriptor
  sn_known :: u64
  sn_caps :: "string list"
  sn_private :: bytes
  sn_state :: sessionInitiatorState

definition sn_clearHandshakeSecrets :: "'h SessionInitiator \<Rightarrow> 'h SessionInitiator" where
  "sn_clearHandshakeSecrets i = i\<lparr>sn_private := [], sn_handshake := None\<rparr>"

definition sn_fail :: "'h SessionInitiator \<Rightarrow> 'h SessionInitiator" where
  "sn_fail i = sn_clearHandshakeSecrets (i\<lparr>sn_state := sessionInitiatorFailed\<rparr>)"

definition sn_Close :: "'h SessionInitiator \<Rightarrow> 'h SessionInitiator" where
  "sn_Close i = (if sn_state i \<noteq> sessionInitiatorComplete then sn_fail i else i)"

definition validateSessionInitiatorConfig :: "crypto \<Rightarrow> SessionInitiatorConfig \<Rightarrow> handshake_error option" where
  "validateSessionInitiatorConfig cr config =
     (case validateSessionContext (si_Context config) of Some e \<Rightarrow> Some e | None \<Rightarrow>
      case errDescriptor cr (si_Client config) of Some e \<Rightarrow> Some e | None \<Rightarrow>
      case errDescriptor cr (si_Agent config) of Some e \<Rightarrow> Some e | None \<Rightarrow>
      if length (si_StaticPrivateKey config) \<noteq> KeyAgreementBytes then Some StaticKeyLength else None)"

definition NewSessionInitiator ::
    "crypto \<Rightarrow> ('h, 'c) noise_lib \<Rightarrow> session_codec \<Rightarrow> SessionInitiatorConfig \<Rightarrow> handshake_error + 'h SessionInitiator" where
  "NewSessionInitiator cr nl sc config =
     (case validateSessionInitiatorConfig cr config of Some e \<Rightarrow> Inl e | None \<Rightarrow>
      let context = the (si_Context config); client = the (si_Client config); agent = the (si_Agent config) in
      if dd_DeviceClass (descriptor_of client) \<noteq> DEVICE_CLASS_CLIENT \<or>
         dd_DeviceClass (descriptor_of agent) \<noteq> DEVICE_CLASS_AGENT then Inl ClassesInvalid
      else if \<not> descriptorSupportsVersion (Some client) (hc_ProtocolVersion context) \<or>
              \<not> descriptorSupportsVersion (Some agent) (hc_ProtocolVersion context) then Inl VersionUnsupported
      else if hc_InitiatorDeviceId context \<noteq> dd_DeviceId (descriptor_of client) \<or>
              hc_ResponderDeviceId context \<noteq> dd_DeviceId (descriptor_of agent) then Inl ContextMismatch
      else case checkedStaticKey cr (si_StaticPrivateKey config) (dd_KeyAgreementPublicKey (descriptor_of client)) of
        Inl e \<Rightarrow> Inl e
      | Inr privateKey \<Rightarrow>
          (case sessionPrologue sc context of Inl e \<Rightarrow> Inl e | Inr prologue \<Rightarrow>
           case nl_New nl (ik_config True prologue privateKey (dd_KeyAgreementPublicKey (descriptor_of client))
                  (dd_KeyAgreementPublicKey (descriptor_of agent)) (si_Random config)) of
             None \<Rightarrow> Inl HandshakeInit
           | Some handshake \<Rightarrow>
               Inr \<lparr>sn_handshake = Some handshake, sn_context = context, sn_client = client, sn_agent = agent,
                    sn_known = si_KnownEpoch config, sn_caps = si_Capabilities config, sn_private = privateKey,
                    sn_state = sessionInitiatorReady\<rparr>))"

text \<open>A session start frame has the shape of a pairing start frame.\<close>

definition sn_Start ::
    "('h, 'c) noise_lib \<Rightarrow> session_codec \<Rightarrow> 'h SessionInitiator \<Rightarrow>
     'h SessionInitiator \<times> (session_error + PairingHandshakeStart)" where
  "sn_Start nl sc i =
     (case sn_handshake i of None \<Rightarrow> (i, Inl ErrSessionHandshakeState) | Some h \<Rightarrow>
      if sn_state i \<noteq> sessionInitiatorReady then (i, Inl ErrSessionHandshakeState)
      else case marshalSessionDeterministic (sc_initiator sc) \<lparr>ip_Client = Some (sn_client i),
                  ip_KnownRevocationEpoch = sn_known i, ip_Capabilities = sn_caps i\<rparr> of
        Inl e \<Rightarrow> (sn_fail i, Inl (SessionOther e))
      | Inr payload \<Rightarrow>
          (case nl_WriteMessage nl h payload of
             None \<Rightarrow> (sn_fail i, Inl ErrInvalidSessionHandshake)
           | Some (h', message, _, _) \<Rightarrow>
               (if length message > maxNoiseMessageBytes then (sn_fail i, Inl ErrInvalidSessionHandshake)
                else (i\<lparr>sn_handshake := Some h', sn_state := sessionInitiatorAwaitingResponse\<rparr>,
                      Inr \<lparr>hs_Context = Some (sn_context i), hs_NoiseMessage = message\<rparr>))))"

definition sn_Finish ::
    "crypto \<Rightarrow> ('h, 'c) noise_lib \<Rightarrow> session_codec \<Rightarrow> bytes option \<Rightarrow> 'h SessionInitiator \<Rightarrow>
     'h SessionInitiator \<times> (session_error + 'c SessionResult)" where
  "sn_Finish cr nl sc response i =
     (case sn_handshake i of None \<Rightarrow> (i, Inl ErrSessionHandshakeState) | Some h \<Rightarrow>
      if sn_state i \<noteq> sessionInitiatorAwaitingResponse then (i, Inl ErrSessionHandshakeState)
      else case response of None \<Rightarrow> (sn_fail i, Inl ErrInvalidSessionHandshake) | Some noiseMessage \<Rightarrow>
      if noiseMessage = [] \<or> length noiseMessage > maxNoiseMessageBytes
      then (sn_fail i, Inl ErrInvalidSessionHandshake)
      else case nl_ReadMessage nl h noiseMessage of
        None \<Rightarrow> (sn_fail i, Inl ErrInvalidSessionHandshake)
      | Some (h', payloadBytes, send, receive) \<Rightarrow>
          (if send = None \<or> receive = None \<or>
              nl_PeerStatic nl h' \<noteq> dd_KeyAgreementPublicKey (descriptor_of (sn_agent i))
           then (sn_fail i, Inl ErrInvalidSessionHandshake)
           else case unmarshalSessionBounded (sc_parse_responder sc) payloadBytes of
             None \<Rightarrow> (sn_fail i, Inl ErrInvalidSessionHandshake)
           | Some payload \<Rightarrow>
               (if rp_Agent payload \<noteq> Some (sn_agent i) then (sn_fail i, Inl ErrInvalidSessionHandshake)
                else if validatePeerDescriptor cr (sn_agent i) DEVICE_CLASS_AGENT (hc_ResponderDeviceId (sn_context i))
                          (hc_ProtocolVersion (sn_context i)) \<noteq> None
                then (sn_fail i, Inl ErrInvalidSessionHandshake)
                else case sessionResult (sn_agent i) (nl_ChannelBinding nl h') send receive
                            (rp_RevocationEpoch payload) (sn_caps i) of
                  Inl e \<Rightarrow> (sn_fail i, Inl e)
                | Inr result \<Rightarrow>
                    (sn_clearHandshakeSecrets (i\<lparr>sn_state := sessionInitiatorComplete\<rparr>), Inr result))))"

section \<open>The responder\<close>

datatype sessionResponderState = sessionResponderReady | sessionResponderComplete | sessionResponderFailed

record SessionResponderConfig =
  sg_Authorizer :: "Store option"
  sg_Agent :: "SignedDeviceDescriptor option"
  sg_StaticPrivateKey :: bytes
  sg_Random :: bytes

record ('h, 'c) SessionResponder =
  sp_handshake :: "'h option"
  sp_context :: HandshakeContext
  sp_client :: SignedDeviceDescriptor
  sp_authorized :: AuthorizedDevice
  sp_capabilities :: "string list"
  sp_send :: "'c option"
  sp_receive :: "'c option"
  sp_private :: bytes
  sp_state :: sessionResponderState

definition sp_clearHandshakeSecrets :: "('h, 'c) SessionResponder \<Rightarrow> ('h, 'c) SessionResponder" where
  "sp_clearHandshakeSecrets r = r\<lparr>sp_private := [], sp_handshake := None, sp_send := None, sp_receive := None\<rparr>"

definition sp_fail :: "('h, 'c) SessionResponder \<Rightarrow> ('h, 'c) SessionResponder" where
  "sp_fail r = sp_clearHandshakeSecrets (r\<lparr>sp_state := sessionResponderFailed\<rparr>)"

definition sp_Close :: "('h, 'c) SessionResponder \<Rightarrow> ('h, 'c) SessionResponder" where
  "sp_Close r = (if sp_state r \<noteq> sessionResponderComplete then sp_fail r else r)"

text \<open>
  \<^verbatim>\<open>AcceptSessionStart\<close> in three parts: the comparison of the client's descriptor with the authorized
  one, the Noise exchange, and the checks before it.
\<close>

definition session_client_ok :: "SessionInitiatorPayload \<Rightarrow> SignedDeviceDescriptor \<Rightarrow> AuthorizedDevice \<Rightarrow> u64 \<Rightarrow> bool" where
  "session_client_ok payload client authorized epoch \<longleftrightarrow>
     (let c = descriptor_of client; a = descriptor_of (av_Device authorized) in
      dd_KeyAgreementPublicKey c = dd_KeyAgreementPublicKey a \<and> dd_DeviceId c = dd_DeviceId a \<and>
      \<not> dd_KeyVersion c < dd_KeyVersion a \<and> dd_SigningPublicKey c = dd_SigningPublicKey a \<and>
      \<not> ip_KnownRevocationEpoch payload > epoch)"

definition accept_session_noise ::
    "crypto \<Rightarrow> ('h, 'c) noise_lib \<Rightarrow> session_codec \<Rightarrow> Store \<Rightarrow> HandshakeContext \<Rightarrow> SignedDeviceDescriptor \<Rightarrow> bytes \<Rightarrow>
     AuthorizedDevice \<Rightarrow> 'h \<Rightarrow> bytes \<Rightarrow> session_error + ('h, 'c) SessionResponder \<times> bytes \<times> SignedDeviceDescriptor" where
  "accept_session_noise cr nl sc store context agent privateKey authorized handshake noiseMessage =
     (case nl_ReadMessage nl handshake noiseMessage of None \<Rightarrow> Inl ErrInvalidSessionHandshake
      | Some (h1, payloadBytes, _, _) \<Rightarrow>
      case unmarshalSessionBounded (sc_parse_initiator sc) payloadBytes of None \<Rightarrow> Inl ErrInvalidSessionHandshake
      | Some payload \<Rightarrow>
      case ip_Client payload of None \<Rightarrow> Inl ErrInvalidSessionHandshake | Some client \<Rightarrow>
      if validatePeerDescriptor cr client DEVICE_CLASS_CLIENT (hc_InitiatorDeviceId context)
           (hc_ProtocolVersion context) \<noteq> None then Inl ErrInvalidSessionHandshake
      else if \<not> session_client_ok payload client authorized (ds_RevocationEpoch store) then Inl ErrSessionAuthorization
      else case marshalSessionDeterministic (sc_responder sc)
                  \<lparr>rp_Agent = Some agent, rp_RevocationEpoch = ds_RevocationEpoch store\<rparr> of
        Inl e \<Rightarrow> Inl (SessionOther e)
      | Inr responsePayload \<Rightarrow>
          (case nl_WriteMessage nl h1 responsePayload of
             None \<Rightarrow> Inl ErrInvalidSessionHandshake
           | Some (h2, message, send, receive) \<Rightarrow>
               (if send = None \<or> receive = None \<or> length message > maxNoiseMessageBytes
                then Inl ErrInvalidSessionHandshake
                else Inr (\<lparr>sp_handshake = Some h2, sp_context = context, sp_client = client,
                           sp_authorized = authorized, sp_capabilities = ip_Capabilities payload, sp_send = receive,
                           sp_receive = send, sp_private = privateKey, sp_state = sessionResponderComplete\<rparr>,
                          message, client))))"

definition AcceptSessionStart ::
    "crypto \<Rightarrow> ('h, 'c) noise_lib \<Rightarrow> session_codec \<Rightarrow> SessionResponderConfig \<Rightarrow> PairingHandshakeStart option \<Rightarrow>
     session_error + ('h, 'c) SessionResponder \<times> bytes \<times> SignedDeviceDescriptor" where
  "AcceptSessionStart cr nl sc config start =
     (case start of None \<Rightarrow> Inl ErrInvalidSessionHandshake | Some st \<Rightarrow>
      case hs_Context st of None \<Rightarrow> Inl ErrInvalidSessionHandshake | Some context \<Rightarrow>
      if hs_NoiseMessage st = [] \<or> length (hs_NoiseMessage st) > maxNoiseMessageBytes
      then Inl ErrInvalidSessionHandshake
      else if validateSessionContext (Some context) \<noteq> None then Inl ErrInvalidSessionHandshake
      else case sg_Authorizer config of None \<Rightarrow> Inl ErrSessionAuthorization | Some store \<Rightarrow>
      if errDescriptor cr (sg_Agent config) \<noteq> None then Inl ErrInvalidSessionHandshake
      else
        let agent = the (sg_Agent config) in
        if dd_DeviceClass (descriptor_of agent) \<noteq> DEVICE_CLASS_AGENT \<or>
           \<not> descriptorSupportsVersion (Some agent) (hc_ProtocolVersion context) \<or>
           hc_ResponderDeviceId context \<noteq> dd_DeviceId (descriptor_of agent) then Inl ErrInvalidSessionHandshake
        else case checkedStaticKey cr (sg_StaticPrivateKey config) (dd_KeyAgreementPublicKey (descriptor_of agent)) of
          Inl e \<Rightarrow> Inl (SessionOther e)
        | Inr privateKey \<Rightarrow>
            (case AuthorizedDevice_of cr (hc_InitiatorDeviceId context) store of
               Inl _ \<Rightarrow> Inl ErrSessionAuthorization
             | Inr authorized \<Rightarrow>
                 (if av_State authorized = STATE_REVOKED then Inl ErrSessionAuthorization
                  else if sd_DeviceDescriptor (av_Device authorized) = None then Inl ErrSessionAuthorization
                  else case sessionPrologue sc context of Inl e \<Rightarrow> Inl (SessionOther e) | Inr prologue \<Rightarrow>
                  case nl_New nl (ik_config False prologue privateKey (dd_KeyAgreementPublicKey (descriptor_of agent)) []
                         (sg_Random config)) of
                    None \<Rightarrow> Inl (SessionOther HandshakeInit)
                  | Some handshake \<Rightarrow>
                      accept_session_noise cr nl sc store context agent privateKey authorized handshake (hs_NoiseMessage st))))"

definition sp_View :: "('h, 'c) noise_lib \<Rightarrow> ('h, 'c) SessionResponder \<Rightarrow> session_error + 'c SessionResult" where
  "sp_View nl r =
     (case sp_handshake r of
        None \<Rightarrow> Inl ErrSessionHandshakeState
      | Some h \<Rightarrow>
          (if sp_state r \<noteq> sessionResponderComplete then Inl ErrSessionHandshakeState
           else Inr \<lparr>sr_Peer = sp_client r, sr_AuthorizationVersion = av_AuthorizationVersion (sp_authorized r),
                  sr_RevocationEpoch = av_RevocationEpoch (sp_authorized r), sr_Capabilities = sp_capabilities r,
                  sr_HandshakeHash = nl_ChannelBinding nl h, sr_Transport = newTransport (sp_send r) (sp_receive r)\<rparr>))"

end
