(* ===== verification/Device_Safety.thy ===== *)
theory Device_Safety
  imports Device_Store
begin

text \<open>
  What the device store promises: a device ID keeps the signing key it was first authorized with, a
  revocation sticks and advances the epoch, and the protected file holds the state the store
  works with.
\<close>

section \<open>Validated states\<close>

text \<open>The documented behaviour of the protobuf and JSON codecs the store relies on.\<close>

definition device_codec_ok :: "crypto \<Rightarrow> bool" where
  "device_codec_ok cr \<longleftrightarrow>
     (\<forall>sd b. marshal_signed cr sd = Some b \<longrightarrow> unmarshal_signed cr b = Some sd) \<and>
     (\<forall>st b. json_state cr st = Some b \<longrightarrow> parse_state cr b = Some st)"

definition device_of :: "crypto \<Rightarrow> persistedAuthorization \<Rightarrow> DeviceDescriptor" where
  "device_of cr r = the (sd_DeviceDescriptor (the (unmarshal_signed cr (pa_Device r))))"

definition id_of :: "crypto \<Rightarrow> persistedAuthorization \<Rightarrow> bytes" where
  "id_of cr r = dd_DeviceId (device_of cr r)"

definition key_of :: "crypto \<Rightarrow> persistedAuthorization \<Rightarrow> bytes" where
  "key_of cr r = dd_SigningPublicKey (device_of cr r)"

definition valid :: "crypto \<Rightarrow> persistedState \<Rightarrow> bool" where
  "valid cr st \<longleftrightarrow> validateState cr st = None"

lemma validate_records_ids:
  "validate_records cr st seen highest rs = Inr h \<Longrightarrow>
     distinct (map (id_of cr) rs) \<and> id_of cr ` set rs \<inter> seen = {} \<and>
     list_all (\<lambda>r. unmarshal_signed cr (pa_Device r) \<noteq> None) rs"
proof (induction rs arbitrary: seen highest)
  case (Cons r rs)
  then obtain sd highest' where sd: "unmarshal_signed cr (pa_Device r) = Some sd"
    and rest: "id_of cr r \<notin> seen" "validate_records cr st (insert (id_of cr r) seen) highest' rs = Inr h"
    by (auto simp: id_of_def device_of_def Let_def split: if_splits option.splits)
  from Cons.IH [OF rest(2)] show ?case using sd rest(1) by auto
qed simp

lemma valid_records:
  assumes "valid cr st"
  shows "distinct (map (id_of cr) (ps_Authorized st))"
    "r \<in> set (ps_Authorized st) \<Longrightarrow> authorizationView cr r \<noteq> None"
proof -
  obtain h where "validate_records cr st {} 0 (ps_Authorized st) = Inr h"
    using assms by (auto simp: valid_def validateState_def split: if_splits sum.splits)
  from validate_records_ids [OF this]
  show "distinct (map (id_of cr) (ps_Authorized st))"
    "r \<in> set (ps_Authorized st) \<Longrightarrow> authorizationView cr r \<noteq> None"
    by (auto simp: authorizationView_def list_all_iff split: option.splits)
qed

lemma view_facts:
  "authorizationView cr r = Some v \<Longrightarrow>
     the (sd_DeviceDescriptor (av_Device v)) = device_of cr r \<and> av_State v = pa_State r \<and>
     av_RevocationEpoch v = pa_RevocationEpoch r \<and> unmarshal_signed cr (pa_Device r) = Some (av_Device v)"
  by (auto simp: authorizationView_def device_of_def split: option.splits)

lemma find_device_Some:
  "find_device cr i rs = Inr (Some (n, v)) \<Longrightarrow>
     n < length rs \<and> authorizationView cr (rs ! n) = Some v \<and> id_of cr (rs ! n) = i"
proof (induction rs arbitrary: n v)
  case (Cons r rs)
  then show ?case
    by (auto simp: id_of_def dest!: view_facts split: option.splits if_splits sum.splits)
qed simp

lemma find_device_None:
  "find_device cr i rs = Inr None \<Longrightarrow> i \<notin> id_of cr ` set rs"
  by (induction rs) (auto simp: id_of_def dest!: view_facts split: option.splits if_splits sum.splits)

text \<open>The record of a device, and that there is only one.\<close>

definition record_for :: "crypto \<Rightarrow> persistedState \<Rightarrow> bytes \<Rightarrow> persistedAuthorization \<Rightarrow> bool" where
  "record_for cr st i r \<longleftrightarrow> r \<in> set (ps_Authorized st) \<and> id_of cr r = i"

lemma record_unique:
  "valid cr st \<Longrightarrow> record_for cr st i r \<Longrightarrow> record_for cr st i r' \<Longrightarrow> r = r'"
  using valid_records(1) [of cr st] by (auto simp: record_for_def distinct_map dest: inj_onD)

lemma AuthorizedDevice_record:
  assumes "valid cr (st_state s)" "record_for cr (st_state s) i r"
  shows "\<exists>v. AuthorizedDevice_of cr i s = Inr v \<and> authorizationView cr r = Some v"
proof -
  have "find_device cr i rs \<noteq> Inl e" if "list_all (\<lambda>r. authorizationView cr r \<noteq> None) rs" for rs e
    using that by (induction rs arbitrary: e) (auto split: option.splits sum.splits)
  then have "find_device cr i (ps_Authorized (st_state s)) \<noteq> Inl e" for e
    using valid_records(2) [OF assms(1)] by (simp add: list_all_iff)
  moreover have "find_device cr i (ps_Authorized (st_state s)) \<noteq> Inr None"
    using find_device_None [of cr i "ps_Authorized (st_state s)"] assms(2) by (auto simp: record_for_def)
  ultimately obtain n v where f: "find_device cr i (ps_Authorized (st_state s)) = Inr (Some (n, v))"
    by (metis obj_sumE option.exhaust surj_pair)
  let ?r = "ps_Authorized (st_state s) ! n"
  have "record_for cr (st_state s) i ?r" using find_device_Some [OF f] by (simp add: record_for_def)
  then have "?r = r" using record_unique [OF assms(1) _ assms(2)] by blast
  then show ?thesis using find_device_Some [OF f] f by (auto simp: AuthorizedDevice_of_def)
qed

lemma validate_records_states:
  "validate_records cr st seen highest rs = Inr h \<Longrightarrow> r \<in> set rs \<Longrightarrow> pa_State r \<in> {STATE_AUTHORIZED, STATE_REVOKED}"
  by (induction rs arbitrary: seen highest) (auto simp: Let_def split: if_splits option.splits)

lemma valid_device_state:
  assumes "valid cr (st_state s)" "AuthorizedDevice_of cr i s = Inr v"
  shows "av_State v \<in> {STATE_AUTHORIZED, STATE_REVOKED}"
proof -
  obtain n where f: "find_device cr i (ps_Authorized (st_state s)) = Inr (Some (n, v))"
    using assms(2) by (auto simp: AuthorizedDevice_of_def split: sum.splits option.splits)
  obtain h where "validate_records cr (st_state s) {} 0 (ps_Authorized (st_state s)) = Inr h"
    using assms(1) by (auto simp: valid_def validateState_def split: if_splits sum.splits)
  from validate_records_states [OF this nth_mem] find_device_Some [OF f] view_facts [of cr _ v] show ?thesis by metis
qed

section \<open>Updates\<close>

lemma commit_state_cases:
  obtains (failed) dir' e where "commit_state cr cd env st' n s dir = (s, dir', Inl e)"
  | (installed) dir' v where "commit_state cr cd env st' n s dir = (s\<lparr>st_state := st'\<rparr>, dir', Inr v)" "valid cr st'"
      "authorizationView cr (ps_Authorized st' ! n) = Some v"
proof (cases "validateState cr st'")
  case None
  show thesis
  proof (cases "saveState cr cd env (st_path s) st' dir")
    case (Pair dir' ok)
    then show thesis
      using None by (cases ok; cases "authorizationView cr (ps_Authorized st' ! n)")
        (auto simp: commit_state_def valid_def intro: failed installed)
  qed
qed (auto simp: commit_state_def intro: failed)

text \<open>What an update does to the records: it changes the record of one device only.\<close>

definition changes_only :: "crypto \<Rightarrow> bytes \<Rightarrow> persistedState \<Rightarrow> persistedState \<Rightarrow> bool" where
  "changes_only cr k st st' \<longleftrightarrow> (\<forall>i r. i \<noteq> k \<longrightarrow> record_for cr st' i r = record_for cr st i r)"

lemma record_append:
  assumes "ps_Authorized st' = ps_Authorized st @ [r]" "id_of cr r = k"
  shows "changes_only cr k st st'" "record_for cr st' k r"
  using assms by (auto simp: changes_only_def record_for_def)

lemma record_replace:
  assumes "valid cr st" "n < length (ps_Authorized st)" "id_of cr (ps_Authorized st ! n) = k"
    "ps_Authorized st' = (ps_Authorized st)[n := r]" "id_of cr r = k"
  shows "changes_only cr k st st'" "record_for cr st' k r"
proof -
  let ?rs = "ps_Authorized st"
  have other: "r' \<in> set (?rs[n := r]) \<longleftrightarrow> r' \<in> set ?rs" if "id_of cr r' \<noteq> k" for r'
    using that assms(2,3,5) by (auto simp: in_set_conv_nth nth_list_update; metis)
  then show "changes_only cr k st st'"
    by (auto simp: changes_only_def record_for_def assms(4))
  show "record_for cr st' k r" using assms(2,4,5) by (simp add: record_for_def set_update_memI)
qed

definition authorizes :: "crypto \<Rightarrow> SignedDeviceDescriptor \<Rightarrow> persistedState \<Rightarrow> persistedState \<Rightarrow> bool" where
  "authorizes cr sd st st' \<longleftrightarrow>
     (let d = the (sd_DeviceDescriptor sd); k = dd_DeviceId d in
      changes_only cr k st st' \<and> ps_RevocationEpoch st' = ps_RevocationEpoch st \<and>
      (\<exists>r. record_for cr st' k r \<and> pa_State r = STATE_AUTHORIZED \<and> unmarshal_signed cr (pa_Device r) = Some sd) \<and>
      (\<forall>r. record_for cr st k r \<longrightarrow> key_of cr r = dd_SigningPublicKey d))"

lemma record_encodes:
  assumes "device_codec_ok cr" "marshal_signed cr sd = Some encoded"
  shows "id_of cr (authorization_record encoded now st) = dd_DeviceId (the (sd_DeviceDescriptor sd))"
    "unmarshal_signed cr (pa_Device (authorization_record encoded now st)) = Some sd"
    "pa_State (authorization_record encoded now st) = STATE_AUTHORIZED"
  using assms by (auto simp: id_of_def device_of_def authorization_record_def device_codec_ok_def)

lemma authorizes_new:
  assumes "device_codec_ok cr" "marshal_signed cr sd = Some encoded"
    and "find_device cr (dd_DeviceId (the (sd_DeviceDescriptor sd))) (ps_Authorized st) = Inr None"
  shows "authorizes cr sd st (install_records (ps_Authorized st @ [authorization_record encoded now st]) st)"
  using record_append [of "install_records (ps_Authorized st @ [authorization_record encoded now st]) st" st
      "authorization_record encoded now st" cr, OF _ record_encodes(1) [OF assms(1,2)]]
    record_encodes(2,3) [OF assms(1,2), of now st] find_device_None [OF assms(3)]
  by (auto simp: authorizes_def Let_def install_records_def record_for_def image_iff)

lemma found_key:
  assumes "valid cr st" "find_device cr k (ps_Authorized st) = Inr (Some (n, v))"
    and "dd_SigningPublicKey (the (sd_DeviceDescriptor (av_Device v))) = key" "record_for cr st k r"
  shows "r = ps_Authorized st ! n" "key_of cr r = key"
proof -
  note f = find_device_Some [OF assms(2)]
  then have "record_for cr st k (ps_Authorized st ! n)" by (simp add: record_for_def)
  then show r: "r = ps_Authorized st ! n" using record_unique [OF assms(1) assms(4)] by blast
  show "key_of cr r = key" using view_facts [of cr r v] f assms(3) by (simp add: r key_of_def)
qed

lemma authorizes_renewed:
  assumes "device_codec_ok cr" "marshal_signed cr sd = Some encoded" "valid cr st"
    and "find_device cr (dd_DeviceId (the (sd_DeviceDescriptor sd))) (ps_Authorized st) = Inr (Some (n, v))"
    and "dd_SigningPublicKey (the (sd_DeviceDescriptor (av_Device v))) = dd_SigningPublicKey (the (sd_DeviceDescriptor sd))"
  shows "authorizes cr sd st (install_records ((ps_Authorized st)[n := authorization_record encoded now st]) st)"
proof -
  let ?st = "install_records ((ps_Authorized st)[n := authorization_record encoded now st]) st"
  have "changes_only cr (dd_DeviceId (the (sd_DeviceDescriptor sd))) st ?st \<and>
      record_for cr ?st (dd_DeviceId (the (sd_DeviceDescriptor sd))) (authorization_record encoded now st)"
    using record_replace [OF assms(3), of n _ ?st] find_device_Some [OF assms(4)] record_encodes(1) [OF assms(1,2)]
    by (simp add: install_records_def)
  then show ?thesis
    using record_encodes(2,3) [OF assms(1,2), of now st] found_key(2) [OF assms(3-5)]
    by (auto simp: authorizes_def Let_def install_records_def)
qed

lemma authorizes_again:
  assumes "valid cr st" "find_device cr (dd_DeviceId (the (sd_DeviceDescriptor sd))) (ps_Authorized st) = Inr (Some (n, v))"
    and "av_State v = STATE_AUTHORIZED" "av_Device v = sd"
  shows "authorizes cr sd st st"
proof -
  note f = find_device_Some [OF assms(2)]
  have "record_for cr st (dd_DeviceId (the (sd_DeviceDescriptor sd))) (ps_Authorized st ! n)"
    using f by (simp add: record_for_def)
  then show ?thesis
    using view_facts [of cr "ps_Authorized st ! n" v] f assms(3,4) found_key(2) [OF assms(1,2)]
    by (auto simp: authorizes_def Let_def changes_only_def)
qed

text \<open>The outcome of an authorization: an error and the old state, or the device is authorized.\<close>

definition authorized_outcome ::
    "crypto \<Rightarrow> SignedDeviceDescriptor option \<Rightarrow> Store \<Rightarrow> Store \<times> directory \<times> (device_error + AuthorizedDevice) \<Rightarrow> bool" where
  "authorized_outcome cr sdesc s out \<longleftrightarrow>
     (case out of (s', dir', res) \<Rightarrow>
        (case res of Inl e \<Rightarrow> s' = s
         | Inr v \<Rightarrow> (\<exists>sd. sdesc = Some sd \<and> valid cr (st_state s') \<and> st_path s' = st_path s \<and>
             authorizes cr sd (st_state s) (st_state s'))))"

lemma outcome_simps [simp]:
  "authorized_outcome cr sdesc s (s, dir', Inl e)"
  "authorized_outcome cr (Some sd) s (s, dir', Inr v) \<longleftrightarrow>
     valid cr (st_state s) \<and> authorizes cr sd (st_state s) (st_state s)"
  by (simp_all add: authorized_outcome_def)

lemma commit_outcome:
  assumes "valid cr st' \<Longrightarrow> authorizes cr sd (st_state s) st'"
  shows "authorized_outcome cr (Some sd) s (commit_state cr cd env st' n s dir)"
  by (rule commit_state_cases [of cr cd env st' n s dir]) (use assms in \<open>auto simp: authorized_outcome_def\<close>)

lemma Authorize_outcome:
  assumes "device_codec_ok cr" "valid cr (st_state s)"
  shows "authorized_outcome cr sdesc s (Authorize cr cd env now sdesc s dir)"
proof (cases "VerifySignedDescriptor cr sdesc")
  case None
  then obtain sd where sd: "sdesc = Some sd" by (cases sdesc) (auto simp: VerifySignedDescriptor_def)
  have "authorized_outcome cr (Some sd) s (authorize_locked cr cd env now sd encoded s dir)"
    if enc: "marshal_signed cr sd = Some encoded" for encoded
  proof (cases "find_device cr (dd_DeviceId (the (sd_DeviceDescriptor sd))) (ps_Authorized (st_state s))")
    case (Inr found)
    show ?thesis
    proof (cases found)
      case None
      note n = authorizes_new [OF assms(1) enc Inr [unfolded None]]
      show ?thesis
        using commit_outcome [OF n] by (simp add: authorize_locked_def Let_def Inr None)
    next
      case (Some p)
      obtain n v where p: "p = (n, v)" by fastforce
      note f = Inr [unfolded Some p]
      show ?thesis
        using commit_outcome [OF authorizes_renewed [OF assms(1) enc assms(2) f]]
          authorizes_again [OF assms(2) f] assms(2)
        by (auto simp: authorize_locked_def Let_def f)
    qed
  qed (simp add: authorize_locked_def Let_def)
  then show ?thesis
    using None by (auto simp: Authorize_def Let_def sd split: option.split)
qed (simp add: Authorize_def)

definition revokes :: "crypto \<Rightarrow> bytes \<Rightarrow> persistedState \<Rightarrow> persistedState \<Rightarrow> bool" where
  "revokes cr k st st' \<longleftrightarrow>
     changes_only cr k st st' \<and>
     (\<exists>r r'. record_for cr st k r \<and> record_for cr st' k r' \<and> pa_State r' = STATE_REVOKED \<and>
        pa_Device r' = pa_Device r \<and>
        (if pa_State r = STATE_REVOKED then st' = st
         else ps_RevocationEpoch st' = ps_RevocationEpoch st + 1 \<and> ps_RevocationEpoch st \<noteq> - 1 \<and>
              pa_RevocationEpoch r' = ps_RevocationEpoch st'))"

lemma Revoke_outcome:
  assumes "valid cr (st_state s)" "Revoke cr cd env now k s dir = (s', dir', res)"
  shows "(\<exists>e. res = Inl e) \<and> s' = s \<or>
    (\<exists>v. res = Inr v) \<and> valid cr (st_state s') \<and> st_path s' = st_path s \<and>
      revokes cr k (st_state s) (st_state s')"
proof (cases "length k = 16 \<and> (\<exists>n v. find_device cr k (ps_Authorized (st_state s)) = Inr (Some (n, v)))")
  case True
  let ?st = "st_state s"
  obtain n v where len: "length k = 16" and f: "find_device cr k (ps_Authorized ?st) = Inr (Some (n, v))"
    using True by blast
  note found = find_device_Some [OF f]
  let ?r = "ps_Authorized ?st ! n"
  have r: "record_for cr ?st k ?r" using found by (simp add: record_for_def)
  have state: "av_State v = pa_State ?r" using view_facts [of cr ?r v] found by simp
  define rec where "rec = ?r\<lparr>pa_AuthorizationVersion := ps_AuthorizationCounter ?st + 1,
    pa_State := STATE_REVOKED, pa_RevokedAt := Some now, pa_RevocationEpoch := ps_RevocationEpoch ?st + 1\<rparr>"
  define st' where "st' = ?st\<lparr>ps_AuthorizationCounter := ps_AuthorizationCounter ?st + 1,
    ps_RevocationEpoch := ps_RevocationEpoch ?st + 1, ps_Authorized := (ps_Authorized ?st)[n := rec]\<rparr>"
  have run: "Revoke cr cd env now k s dir =
      (if pa_State ?r = STATE_REVOKED then (s, dir, Inr v)
       else if ps_AuthorizationCounter ?st = - 1 \<or> ps_RevocationEpoch ?st = - 1 then (s, dir, Inl CounterExhausted)
       else commit_state cr cd env st' n s dir)"
    using len f by (simp add: Revoke_def Let_def state st'_def rec_def)
  have "id_of cr rec = k" using found by (simp add: id_of_def device_of_def rec_def)
  then have ch: "changes_only cr k ?st st'" "record_for cr st' k rec"
    using record_replace [OF assms(1), of n k st' rec] found by (simp_all add: st'_def)
  have rev: "revokes cr k ?st st'" if "pa_State ?r \<noteq> STATE_REVOKED" "ps_RevocationEpoch ?st \<noteq> - 1"
    using ch r that unfolding revokes_def
    by (intro conjI exI [of _ ?r] exI [of _ rec]) (simp_all add: rec_def st'_def)
  have same: "revokes cr k ?st ?st" if "pa_State ?r = STATE_REVOKED"
    using r that unfolding revokes_def changes_only_def by (intro conjI exI [of _ ?r]) simp_all
  show ?thesis
    by (rule commit_state_cases [of cr cd env st' n s dir])
       (use run assms rev same in \<open>auto split: if_splits\<close>)
next
  case False
  then show ?thesis
    using assms(2) by (cases "find_device cr k (ps_Authorized (st_state s))")
      (auto simp: Revoke_def Let_def split: if_splits option.splits)
qed

section \<open>Runs\<close>

datatype device_call =
    DAuthorize save_env time "SignedDeviceDescriptor option"
  | DRevoke save_env time bytes

fun device_step ::
    "crypto \<Rightarrow> store_codec \<Rightarrow> Store \<times> directory \<Rightarrow> device_call \<Rightarrow> (Store \<times> directory) \<times> (device_error + AuthorizedDevice)" where
  "device_step cr cd (s, dir) (DAuthorize env now sdesc) =
     (let (s', dir', r) = Authorize cr cd env now sdesc s dir in ((s', dir'), r))"
| "device_step cr cd (s, dir) (DRevoke env now k) =
     (let (s', dir', r) = Revoke cr cd env now k s dir in ((s', dir'), r))"

definition device_inv :: "crypto \<Rightarrow> Store \<times> directory \<Rightarrow> bool" where
  "device_inv cr x \<longleftrightarrow> device_codec_ok cr \<and> valid cr (st_state (fst x))"

text \<open>The three kinds of step.\<close>

lemma device_step_cases:
  assumes "device_inv cr x"
  obtains (failed) dir' e where "device_step cr cd x c = ((fst x, dir'), Inl e)"
  | (authorized) env now sd s' dir' v where "c = DAuthorize env now (Some sd)"
      "device_step cr cd x c = ((s', dir'), Inr v)" "valid cr (st_state s')"
      "authorizes cr sd (st_state (fst x)) (st_state s')"
  | (revoked) env now k s' dir' v where "c = DRevoke env now k"
      "device_step cr cd x c = ((s', dir'), Inr v)" "valid cr (st_state s')"
      "revokes cr k (st_state (fst x)) (st_state s')"
proof -
  obtain s dir where x: "x = (s, dir)" by fastforce
  have ok: "device_codec_ok cr" "valid cr (st_state s)" using assms by (simp_all add: device_inv_def x)
  show thesis
  proof (cases c)
    case (DAuthorize env now sdesc)
    obtain s' dir' r where o: "Authorize cr cd env now sdesc s dir = (s', dir', r)" by (metis prod_cases3)
    show thesis
      using Authorize_outcome [OF ok, of sdesc cd env now dir] o DAuthorize
      by (cases r) (auto simp: authorized_outcome_def x intro: failed authorized)
  next
    case (DRevoke env now k)
    obtain s' dir' r where o: "Revoke cr cd env now k s dir = (s', dir', r)" by (metis prod_cases3)
    show thesis
      using Revoke_outcome [OF ok(2) o] o DRevoke by (auto simp: x intro: failed revoked)
  qed
qed

text \<open>A device ID speaks for a signing key when an authorization of it with that key succeeds.\<close>

definition speaks_for :: "crypto \<Rightarrow> store_codec \<Rightarrow> Store \<times> directory \<Rightarrow> device_call \<Rightarrow> bytes \<Rightarrow> bytes \<Rightarrow> bool" where
  "speaks_for cr cd x c k key \<longleftrightarrow>
     (\<exists>env now sd v. c = DAuthorize env now (Some sd) \<and> snd (device_step cr cd x c) = Inr v \<and>
        dd_DeviceId (the (sd_DeviceDescriptor sd)) = k \<and>
        dd_SigningPublicKey (the (sd_DeviceDescriptor sd)) = key)"

definition pinned :: "crypto \<Rightarrow> Store \<times> directory \<Rightarrow> bytes \<Rightarrow> bytes \<Rightarrow> bool" where
  "pinned cr x k key \<longleftrightarrow> (\<exists>r. record_for cr (st_state (fst x)) k r \<and> key_of cr r = key)"

lemma authorizes_pins:
  assumes "authorizes cr sd st st'"
  shows "\<exists>r. record_for cr st' (dd_DeviceId (the (sd_DeviceDescriptor sd))) r \<and>
      key_of cr r = dd_SigningPublicKey (the (sd_DeviceDescriptor sd))"
    "\<exists>r. record_for cr st k r \<and> key_of cr r = key \<Longrightarrow> \<exists>r. record_for cr st' k r \<and> key_of cr r = key"
proof -
  show pin: "\<exists>r. record_for cr st' (dd_DeviceId (the (sd_DeviceDescriptor sd))) r \<and>
      key_of cr r = dd_SigningPublicKey (the (sd_DeviceDescriptor sd))"
    using assms by (auto simp: authorizes_def Let_def key_of_def device_of_def)
  show "\<exists>r. record_for cr st k r \<and> key_of cr r = key \<Longrightarrow> \<exists>r. record_for cr st' k r \<and> key_of cr r = key"
    using pin assms unfolding authorizes_def Let_def changes_only_def by metis
qed

lemma revokes_pins:
  assumes "revokes cr k' st st'" "record_for cr st k r" "valid cr st"
  shows "\<exists>r'. record_for cr st' k r' \<and> key_of cr r' = key_of cr r"
proof (cases "k = k'")
  case True
  obtain q q' where "record_for cr st k q" "record_for cr st' k q'" "pa_Device q' = pa_Device q"
    using assms(1) True unfolding revokes_def by blast
  then show ?thesis using record_unique [OF assms(3,2)] by (auto simp: key_of_def device_of_def)
next
  case False
  then show ?thesis using assms(1,2) unfolding revokes_def changes_only_def by blast
qed

interpretation pinning: agreement "device_step cr cd" "device_inv cr" "\<lambda>_. True" "speaks_for cr cd" "pinned cr"
  for cr cd
proof
  fix x :: "Store \<times> directory" and c :: device_call and k d e
  assume inv: "device_inv cr x"
  then have val: "valid cr (st_state (fst x))" by (simp add: device_inv_def)
  show "device_inv cr (fst (device_step cr cd x c))"
    by (rule device_step_cases [OF inv, of cd c]) (use inv in \<open>auto simp: device_inv_def\<close>)
  show "speaks_for cr cd x c k d \<Longrightarrow> pinned cr (fst (device_step cr cd x c)) k d"
    by (rule device_step_cases [OF inv, of cd c])
       (auto simp: speaks_for_def pinned_def dest: authorizes_pins(1))
  show "pinned cr x k d \<Longrightarrow> pinned cr (fst (device_step cr cd x c)) k d"
    by (rule device_step_cases [OF inv, of cd c])
       (use val in \<open>auto simp: pinned_def dest: authorizes_pins(2) revokes_pins\<close>)
  show "pinned cr x k d \<Longrightarrow> speaks_for cr cd x c k e \<Longrightarrow> e = d"
    by (rule device_step_cases [OF inv, of cd c])
       (auto simp: pinned_def speaks_for_def authorizes_def Let_def)
qed

text \<open>
  C17. A device ID keeps its key. In any sequence of authorizations and revocations on a store, with
  any failures of the disk, two successful authorizations of the same device ID carry the same
  signing key, revocations in between notwithstanding: an ID cannot be taken over by another key.
\<close>

theorem device_key_pinned:
  assumes "device_codec_ok cr" "validateState cr (st_state s) = None"
    and "i < length cs" "j < length cs" "rs = snd (run (device_step cr cd) (s, dir) cs)"
    and "cs ! i = DAuthorize env1 now1 (Some sd1)" "rs ! i = Inr v1"
    and "cs ! j = DAuthorize env2 now2 (Some sd2)" "rs ! j = Inr v2"
    and "sd_DeviceDescriptor sd1 = Some d1" "sd_DeviceDescriptor sd2 = Some d2"
    and "dd_DeviceId d1 = dd_DeviceId d2"
  shows "dd_SigningPublicKey d1 = dd_SigningPublicKey d2"
proof (cases "i = j")
  case False
  have inv: "device_inv cr (s, dir)" using assms(1,2) by (simp add: device_inv_def valid_def)
  have says: "speaks_for cr cd (fst (run (device_step cr cd) (s, dir) (take i cs))) (cs ! i) (dd_DeviceId d1) (dd_SigningPublicKey d1)"
    "speaks_for cr cd (fst (run (device_step cr cd) (s, dir) (take j cs))) (cs ! j) (dd_DeviceId d1) (dd_SigningPublicKey d2)"
    using assms snd_run_nth [OF assms(3), of "device_step cr cd" "(s, dir)"]
      snd_run_nth [OF assms(4), of "device_step cr cd" "(s, dir)"]
    by (auto simp: speaks_for_def)
  show ?thesis
    by (rule pinning.agree [OF inv _ assms(4,3) _ says(2,1)]) (use False in \<open>simp_all add: list_all_iff\<close>)
qed (use assms in auto)

definition is_revoked :: "crypto \<Rightarrow> Store \<Rightarrow> bytes \<Rightarrow> bool" where
  "is_revoked cr s k \<longleftrightarrow> (\<exists>r. record_for cr (st_state s) k r \<and> pa_State r = STATE_REVOKED)"

definition reauthorizes :: "bytes \<Rightarrow> device_call \<Rightarrow> bool" where
  "reauthorizes k c \<longleftrightarrow>
     (\<exists>env now sd. c = DAuthorize env now (Some sd) \<and> dd_DeviceId (the (sd_DeviceDescriptor sd)) = k)"

lemma epoch_step:
  assumes "device_inv cr x"
  shows "ds_RevocationEpoch (fst x) \<le> ds_RevocationEpoch (fst (fst (device_step cr cd x c)))"
proof -
  have mono: "e \<le> e + 1" if "e \<noteq> - 1" for e :: u64
    using word_less_succ [OF that] by (rule less_imp_le)
  show ?thesis
    by (rule device_step_cases [OF assms, of cd c])
       (auto simp: ds_RevocationEpoch_def authorizes_def revokes_def Let_def mono split: if_splits)
qed

lemma revoked_step:
  assumes "device_inv cr x" "is_revoked cr (fst x) k" "\<not> reauthorizes k c"
  shows "is_revoked cr (fst (fst (device_step cr cd x c))) k"
proof (rule device_step_cases [OF assms(1), of cd c])
  fix env now sd s' dir' v
  assume c: "c = DAuthorize env now (Some sd)" and st: "device_step cr cd x c = ((s', dir'), Inr v)"
    and a: "authorizes cr sd (st_state (fst x)) (st_state s')"
  have "k \<noteq> dd_DeviceId (the (sd_DeviceDescriptor sd))" using assms(3) c by (auto simp: reauthorizes_def)
  then show ?thesis using assms(2) a st by (auto simp: is_revoked_def authorizes_def changes_only_def Let_def)
next
  fix env now k' s' dir' v
  assume st: "device_step cr cd x c = ((s', dir'), Inr v)" and r: "revokes cr k' (st_state (fst x)) (st_state s')"
  show ?thesis
    using assms(2) r st by (cases "k = k'") (auto simp: is_revoked_def revokes_def changes_only_def)
qed (use assms(2) in auto)

lemma revoked_reported:
  assumes "valid cr (st_state s)" "is_revoked cr s k"
  shows "\<exists>v. AuthorizedDevice_of cr k s = Inr v \<and> av_State v = STATE_REVOKED"
  using AuthorizedDevice_record [OF assms(1)] assms(2) view_facts
  by (fastforce simp: is_revoked_def)

lemma revokes_raises_epoch:
  assumes "valid cr (st_state s)" "revokes cr k (st_state s) (st_state s1)"
    and "AuthorizedDevice_of cr k s = Inr u" "av_State u = STATE_AUTHORIZED"
  shows "ds_RevocationEpoch s1 = ds_RevocationEpoch s + 1" "ds_RevocationEpoch s < ds_RevocationEpoch s1"
proof -
  obtain r where r: "record_for cr (st_state s) k r" "pa_State r = STATE_REVOKED \<or>
      ds_RevocationEpoch s1 = ds_RevocationEpoch s + 1 \<and> ds_RevocationEpoch s \<noteq> - 1"
    using assms(2) unfolding revokes_def ds_RevocationEpoch_def by metis
  have "pa_State r = STATE_AUTHORIZED"
    using AuthorizedDevice_record [OF assms(1) r(1)] assms(3,4) view_facts [of cr r] by auto
  then have e: "ds_RevocationEpoch s1 = ds_RevocationEpoch s + 1" "ds_RevocationEpoch s \<noteq> - 1" using r(2) by auto
  show "ds_RevocationEpoch s1 = ds_RevocationEpoch s + 1" by (rule e(1))
  show "ds_RevocationEpoch s < ds_RevocationEpoch s1" using e(1) word_less_succ [OF e(2)] by simp
qed

lemma revoked_run:
  assumes "device_inv cr x" "is_revoked cr (fst x) k" "list_all (\<lambda>c. \<not> reauthorizes k c) cs"
  shows "device_inv cr (fst (run (device_step cr cd) x cs)) \<and> is_revoked cr (fst (fst (run (device_step cr cd) x cs))) k \<and>
    ds_RevocationEpoch (fst x) \<le> ds_RevocationEpoch (fst (fst (run (device_step cr cd) x cs)))"
  using assms
proof (induction cs arbitrary: x)
  case (Cons c cs)
  have "device_inv cr (fst (device_step cr cd x c))" using pinning.step_inv [OF Cons.prems(1)] by simp
  with Cons.IH [OF this] revoked_step [OF Cons.prems(1,2), of c cd] epoch_step [OF Cons.prems(1), of cd c] Cons.prems(3)
  show ?case by auto
qed simp

lemma revoked_stays:
  assumes "device_codec_ok cr" "validateState cr (st_state s) = None"
    and "Revoke cr cd env now k s dir = (s1, dir1, Inr v)"
    and "list_all (\<lambda>c. \<not> reauthorizes k c) cs" "run (device_step cr cd) (s1, dir1) cs = ((s2, dir2), rs)"
  shows "revokes cr k (st_state s) (st_state s1)" "\<exists>w. AuthorizedDevice_of cr k s2 = Inr w \<and> av_State w = STATE_REVOKED"
    "ds_RevocationEpoch s1 \<le> ds_RevocationEpoch s2"
proof -
  have val: "valid cr (st_state s)" using assms(2) by (simp add: valid_def)
  have rev: "valid cr (st_state s1)" "revokes cr k (st_state s) (st_state s1)"
    using Revoke_outcome [OF val assms(3)] by auto
  then have "device_inv cr (s1, dir1)" "is_revoked cr s1 k"
    using assms(1) by (auto simp: device_inv_def is_revoked_def revokes_def)
  with revoked_run [of cr "(s1, dir1)" k cs cd] assms(4,5)
  have fin: "valid cr (st_state s2)" "is_revoked cr s2 k" "ds_RevocationEpoch s1 \<le> ds_RevocationEpoch s2"
    by (auto simp: device_inv_def)
  show "revokes cr k (st_state s) (st_state s1)" "ds_RevocationEpoch s1 \<le> ds_RevocationEpoch s2" by fact+
  show "\<exists>w. AuthorizedDevice_of cr k s2 = Inr w \<and> av_State w = STATE_REVOKED" by (rule revoked_reported [OF fin(1,2)])
qed

text \<open>
  C16. Revocation sticks. After a revocation that reports success, and however many further calls
  with whatever disk failures follow, as long as none of them authorizes that device again, the
  store reports the device as revoked and its revocation epoch has not decreased; and the
  revocation of a device that was authorized raised the epoch by one.
\<close>

theorem revocation_sticks:
  assumes "device_codec_ok cr" "validateState cr (st_state s) = None"
    and "Revoke cr cd env now k s dir = (s1, dir1, Inr v)"
    and "list_all (\<lambda>c. \<not> reauthorizes k c) cs" "run (device_step cr cd) (s1, dir1) cs = ((s2, dir2), rs)"
  shows "(\<exists>w. AuthorizedDevice_of cr k s2 = Inr w \<and> av_State w = STATE_REVOKED) \<and>
    ds_RevocationEpoch s1 \<le> ds_RevocationEpoch s2 \<and>
    (\<forall>u. AuthorizedDevice_of cr k s = Inr u \<and> av_State u = STATE_AUTHORIZED \<longrightarrow>
       ds_RevocationEpoch s < ds_RevocationEpoch s1 \<and> ds_RevocationEpoch s1 = ds_RevocationEpoch s + 1)"
  using revoked_stays [OF assms] revokes_raises_epoch [of cr s k s1] assms(2) by (auto simp: valid_def)

section \<open>Durability\<close>

text \<open>The protected file of the store loads to the state in memory.\<close>

definition in_sync :: "crypto \<Rightarrow> store_codec \<Rightarrow> Store \<Rightarrow> directory \<Rightarrow> bool" where
  "in_sync cr cd s dir \<longleftrightarrow> loadState cr cd (st_path s) dir = Inr (st_state s)"

definition fresh_temp :: "save_env \<Rightarrow> Store \<Rightarrow> directory \<Rightarrow> bool" where
  "fresh_temp env s dir \<longleftrightarrow> se_tmp env \<noteq> st_path s \<and> dir (se_tmp env) = None"

lemma loadState_cong:
  "Read cd path secureStorePurpose dir' = Read cd path secureStorePurpose dir \<Longrightarrow>
     loadState cr cd path dir' = loadState cr cd path dir"
  by (simp add: loadState_def)

lemma loadState_saved:
  "device_codec_ok cr \<Longrightarrow> json_state cr st = Some b \<Longrightarrow> valid cr st \<Longrightarrow>
   Read cd path secureStorePurpose dir = Inr b \<Longrightarrow> loadState cr cd path dir = Inr st"
  by (simp add: loadState_def device_codec_ok_def valid_def)

lemma saveState_load:
  assumes "device_codec_ok cr" "codec_ok cd" "fresh_temp env s dir" "valid cr st"
    and "saveState cr cd env (st_path s) st dir = (dir', ok)"
  shows "if ok then loadState cr cd (st_path s) dir' = Inr st
    else loadState cr cd (st_path s) dir' = loadState cr cd (st_path s) dir \<or>
         loadState cr cd (st_path s) dir' = Inr st"
proof (cases "json_state cr st")
  case (Some b)
  have tmp: "se_tmp env \<noteq> st_path s" "dir (se_tmp env) = None" using assms(3) by (simp_all add: fresh_temp_def)
  note w = Write_contents(1,2) [where tmp = "se_tmp env" and path = "st_path s" and dir = dir and cd = cd
      and d = b and purpose = secureStorePurpose and faults = "se_faults env" and partial = "se_partial env",
      OF assms(2) tmp]
  have out: "dir' = fst (Write cd (se_faults env) (se_partial env) (se_tmp env) (st_path s) secureStorePurpose b dir)"
    "ok \<longleftrightarrow> snd (Write cd (se_faults env) (se_partial env) (se_tmp env) (st_path s) secureStorePurpose b dir) = None"
    using assms(5) Some by (auto simp: saveState_def split_beta)
  have "Read cd (st_path s) secureStorePurpose dir' \<in> {Read cd (st_path s) secureStorePurpose dir, Inr b}"
    using w(2) out(1) by simp
  then show ?thesis
    using w(1) out loadState_saved [OF assms(1) Some assms(4)] loadState_cong [of cd "st_path s" dir' dir cr]
    by auto
qed (use assms(5) in \<open>simp add: saveState_def\<close>)

definition durable_outcome ::
    "crypto \<Rightarrow> store_codec \<Rightarrow> Store \<Rightarrow> Store \<times> directory \<times> (device_error + AuthorizedDevice) \<Rightarrow> bool" where
  "durable_outcome cr cd s out \<longleftrightarrow>
     (case out of (s', dir', res) \<Rightarrow>
        if res = Inl PersistFailed
        then s' = s \<and> (in_sync cr cd s dir' \<or> (\<exists>st. loadState cr cd (st_path s) dir' = Inr st \<and> valid cr st))
        else in_sync cr cd s' dir')"

lemma commit_durable:
  assumes "device_codec_ok cr" "codec_ok cd" "fresh_temp env s dir" "in_sync cr cd s dir" "n < length (ps_Authorized st)"
  shows "durable_outcome cr cd s (commit_state cr cd env st n s dir)"
proof (cases "validateState cr st")
  case None
  then have val: "valid cr st" by (simp add: valid_def)
  obtain v where v: "authorizationView cr (ps_Authorized st ! n) = Some v"
    using valid_records(2) [OF val nth_mem [OF assms(5)]] by blast
  obtain dir' ok where save: "saveState cr cd env (st_path s) st dir = (dir', ok)" by fastforce
  from saveState_load [OF assms(1-3) val save] show ?thesis
    using assms(4) None save v val by (cases ok) (auto simp: commit_state_def durable_outcome_def in_sync_def)
qed (use assms(4) in \<open>simp add: commit_state_def durable_outcome_def\<close>)

lemma early_durable [simp]:
  "in_sync cr cd s dir \<Longrightarrow> r \<noteq> Inl PersistFailed \<Longrightarrow> durable_outcome cr cd s (s, dir, r)"
  by (simp add: durable_outcome_def)

lemma find_device_error: "find_device cr i rs = Inl e \<Longrightarrow> e = DecodeDevice"
  by (induction rs) (auto split: option.splits if_splits sum.splits)

lemma validate_not_persist:
  "ValidateDescriptor cr x \<noteq> Some PersistFailed" "VerifySignedDescriptor cr y \<noteq> Some PersistFailed"
proof -
  show v: "ValidateDescriptor cr x \<noteq> Some PersistFailed" for x
    by (auto simp: ValidateDescriptor_def split: option.splits)
  show "VerifySignedDescriptor cr y \<noteq> Some PersistFailed"
    using v by (auto simp: VerifySignedDescriptor_def descriptorSignatureMessage_def split: option.splits)
qed

lemma Revoke_durable:
  assumes "device_codec_ok cr" "codec_ok cd" "fresh_temp env s dir" "in_sync cr cd s dir"
  shows "durable_outcome cr cd s (Revoke cr cd env now k s dir)"
  using assms(4) commit_durable [OF assms]
  by (auto simp: Revoke_def Let_def dest: find_device_Some find_device_error split: sum.split option.split)

text \<open>
  C26. The file follows the state. If the protected file loads to the state in memory, the codecs are
  faithful and the temporary name is fresh, then after an authorization or a revocation, whichever
  system calls of the save fail, the file loads to the state then in memory, unless the call
  reports that it could not persist; then the memory is unchanged and the file still loads, to
  that state or to another valid one.
\<close>

theorem device_store_durable:
  assumes "device_codec_ok cr" "codec_ok cd" "in_sync cr cd s dir"
    and "c = DAuthorize env now sdesc \<or> c = DRevoke env now k" "fresh_temp env s dir"
    and "device_step cr cd (s, dir) c = ((s', dir'), res)"
  shows "if res = Inl PersistFailed
    then s' = s \<and> (in_sync cr cd s dir' \<or>
      (\<exists>st. loadState cr cd (st_path s) dir' = Inr st \<and> validateState cr st = None))
    else in_sync cr cd s' dir'"
proof -
  note commit = commit_durable [OF assms(1,2,5,3)]
  have locked: "durable_outcome cr cd s (authorize_locked cr cd env now sd encoded s dir)" for sd encoded
    using assms(3) commit
    by (auto simp: authorize_locked_def Let_def install_records_def dest: find_device_Some find_device_error
        split: sum.split option.split)
  have "durable_outcome cr cd s (Authorize cr cd env now sdesc s dir)"
  proof (cases "VerifySignedDescriptor cr sdesc")
    case (Some e)
    then have "e \<noteq> PersistFailed" using validate_not_persist(2) [of cr sdesc] by auto
    then show ?thesis using assms(3) Some by (simp add: Authorize_def)
  qed (use assms(3) locked in \<open>auto simp: Authorize_def Let_def split: option.split\<close>)
  moreover have "durable_outcome cr cd s (Revoke cr cd env now k s dir)"
    by (rule Revoke_durable [OF assms(1,2,5,3)])
  ultimately show ?thesis
    using assms(4,6) by (auto simp: durable_outcome_def valid_def split_beta)
qed

section \<open>A sample store\<close>

text \<open>
  A toy instance of the parameters: a signature is accepted when it is 64 bytes, a signed
  descriptor is encoded by the first byte of its device ID, and a state by its counter and epoch.
  The encoders are partial, so that they are inverted.
\<close>

definition sample_device :: "byte \<Rightarrow> SignedDeviceDescriptor" where
  "sample_device b = \<lparr>sd_DeviceDescriptor = Some \<lparr>dd_DeviceId = replicate 16 b, dd_DisplayName = ''n'',
     dd_Platform = ''p'', dd_DeviceClass = 2, dd_SigningPublicKey = replicate 32 b,
     dd_KeyAgreementPublicKey = replicate 32 b, dd_CreatedAt = Some 0, dd_KeyVersion = 1,
     dd_SupportedVersions = Some \<lparr>r_Minimum = Some \<lparr>v_Major = 1, v_Minor = 0\<rparr>,
       r_Maximum = Some \<lparr>v_Major = 1, v_Minor = 0\<rparr>\<rparr>\<rparr>, sd_Signature = replicate 64 0\<rparr>"

definition sample_record :: "int \<Rightarrow> persistedAuthorization" where
  "sample_record state = \<lparr>pa_Device = [5], pa_AuthorizationVersion = (if state = 1 then 1 else 2), pa_State = state,
     pa_AuthorizedAt = 0, pa_RevokedAt = (if state = 1 then None else Some 0),
     pa_RevocationEpoch = (if state = 1 then 0 else 1)\<rparr>"

definition sample_state :: "u64 \<Rightarrow> persistedState" where
  "sample_state n = \<lparr>ps_Version = 1, ps_DeviceID = replicate 16 9, ps_SigningPrivateKey = replicate 64 9,
     ps_KeyAgreementPrivateKey = replicate 32 9, ps_DisplayName = ''a'', ps_Platform = ''p'', ps_DeviceClass = 1,
     ps_CreatedAt = 0, ps_KeyVersion = 1, ps_AuthorizationCounter = n, ps_RevocationEpoch = (if n = 2 then 1 else 0),
     ps_Authorized = (if n = 0 then [] else [sample_record (if n = 1 then 1 else 2)])\<rparr>"

definition sample_device_crypto :: crypto where
  "sample_device_crypto = \<lparr>dc_Public = take 32, dc_FromSeed = (\<lambda>b. b @ b), dc_Sign = (\<lambda>k m. replicate 64 0),
     dc_Verify = (\<lambda>k m s. True), dc_X25519Public = (\<lambda>_. True), dc_X25519Private = Some,
     dc_Sum256 = (\<lambda>_. replicate 32 0), marshal_descriptor = (\<lambda>_. Some []),
     marshal_signed = (\<lambda>sd. if sd = sample_device 5 then Some [5] else None),
     unmarshal_signed = (\<lambda>b. Some (sample_device (hd b))),
     json_state = (\<lambda>st. if st = sample_state 1 then Some [1] else if st = sample_state 2 then Some [2]
       else if st = sample_state 0 then Some [3] else None),
     parse_state = (\<lambda>b. if b = [1] then Some (sample_state 1) else if b = [2] then Some (sample_state 2)
       else Some (sample_state 0))\<rparr>"

lemma sample_device_codec: "device_codec_ok sample_device_crypto"
  by (auto simp: device_codec_ok_def sample_device_crypto_def sample_state_def split: if_splits)

lemma sample_fields [simp]:
  "dc_Public sample_device_crypto = take 32" "dc_FromSeed sample_device_crypto = (\<lambda>b. b @ b)"
  "dc_Verify sample_device_crypto = (\<lambda>k m s. True)" "dc_X25519Public sample_device_crypto = (\<lambda>_. True)"
  "dc_X25519Private sample_device_crypto = Some" "dc_Sum256 sample_device_crypto b = replicate 32 0"
  "marshal_descriptor sample_device_crypto = (\<lambda>_. Some [])"
  "unmarshal_signed sample_device_crypto b = Some (sample_device (hd b))"
  by (simp_all add: sample_device_crypto_def)

lemma sample_encoders:
  "marshal_signed sample_device_crypto (sample_device 5) = Some [5]"
  "json_state sample_device_crypto (sample_state 1) = Some [1]"
  "json_state sample_device_crypto (sample_state 2) = Some [2]"
  by (simp_all add: sample_device_crypto_def) (simp add: sample_state_def)

lemma sample_device_names [simp]: "TrimSpace ''p'' = ''p''" "TrimSpace ''n'' = ''n''" "TrimSpace ''a'' = ''a''"
  by (simp_all add: graphic_string(1) graphic_def)

lemmas sample_validation = ValidateDescriptor_def descriptorSignatureMessage_def timestamp_valid_def zero_time_def

lemma sample_device_verified: "VerifySignedDescriptor sample_device_crypto (Some (sample_device 5)) = None"
  by (simp add: VerifySignedDescriptor_def sample_validation sample_device_def)

lemma sample_agent_verified: "\<exists>sd. signedDescriptorLocked sample_device_crypto (sample_state n) = Inr sd"
  by (simp add: signedDescriptorLocked_def newSignedDescriptor_def sample_validation sample_state_def Let_def)

lemma sample_records_valid:
  "n \<in> {0, 1, 2} \<Longrightarrow> \<exists>h. validate_records sample_device_crypto (sample_state n) {} 0 (ps_Authorized (sample_state n)) = Inr h \<and> h \<le> n"
  using sample_device_verified
  by (auto simp: sample_state_def sample_record_def Let_def) (simp_all add: sample_device_def zero_time_def)

lemma sample_state_valid:
  assumes "n \<in> {0, 1, 2}"
  shows "validateState sample_device_crypto (sample_state n) = None"
proof -
  obtain sd h where v: "signedDescriptorLocked sample_device_crypto (sample_state n) = Inr sd"
    "validate_records sample_device_crypto (sample_state n) {} 0 (ps_Authorized (sample_state n)) = Inr h" "h \<le> n"
    using sample_agent_verified sample_records_valid [OF assms] by metis
  then have "\<not> ps_AuthorizationCounter (sample_state n) < h" by (simp add: sample_state_def)
  moreover have "ps_Version (sample_state n) = 1" "length (ps_DeviceID (sample_state n)) = 16"
    "length (ps_SigningPrivateKey (sample_state n)) = 64" "length (ps_KeyAgreementPrivateKey (sample_state n)) = 32"
    "take 32 (ps_SigningPrivateKey (sample_state n)) @ take 32 (ps_SigningPrivateKey (sample_state n)) =
      ps_SigningPrivateKey (sample_state n)"
    "ps_DeviceClass (sample_state n) = 1" "ps_CreatedAt (sample_state n) \<noteq> zero_time" "ps_KeyVersion (sample_state n) \<noteq> 0"
    "length (ps_Authorized (sample_state n)) \<le> 256"
    by (simp_all add: sample_state_def zero_time_def flip: replicate_add)
  ultimately show ?thesis using v(1,2) by (simp add: validateState_def)
qed

definition sample_store :: "u64 \<Rightarrow> Store" where
  "sample_store n = \<lparr>st_path = ''/f'', st_state = sample_state n, st_readOnly = False\<rparr>"

definition sample_env :: save_env where
  "sample_env = \<lparr>se_faults = {}, se_partial = 0, se_tmp = ''t''\<rparr>"

lemma sample_device_save:
  assumes "json_state sample_device_crypto st = Some [b]" "dir ''t'' = None"
  shows "saveState sample_device_crypto sample_codec sample_env ''/f'' st dir = (dir(''/f'' \<mapsto> [7, b]), True)"
  using assms
  by (auto simp: saveState_def Write_def sample_env_def validateArguments_def IsAbs_def secureStorePurpose_def
      sample_codec_def protectionName_def purposeDigest_def protect_def maxEnvelopeBytes_def writeAtomic_def
      write_temp_def replaceFile_def syncDirectory_def Let_def fun_eq_iff)

lemma sample_id: "dd_DeviceId (the (sd_DeviceDescriptor (sample_device 5))) = replicate 16 5"
  "dd_DeviceClass (the (sd_DeviceDescriptor (sample_device 5))) = 2"
  by (simp_all add: sample_device_def)

lemma sample_find:
  "find_device sample_device_crypto (replicate 16 5) (ps_Authorized (sample_state 0)) = Inr None"
  "find_device sample_device_crypto (replicate 16 5) (ps_Authorized (sample_state 1)) =
     Inr (Some (0, \<lparr>av_Device = sample_device 5, av_AuthorizationVersion = 1, av_State = 1, av_AuthorizedAt = 0,
       av_RevokedAt = None, av_RevocationEpoch = 0\<rparr>))"
  by (simp_all add: sample_state_def sample_record_def authorizationView_def sample_id)

lemma sample_updates:
  "install_records [authorization_record [5] 0 (sample_state 0)] (sample_state 0) = sample_state 1"
  "(sample_state 1)\<lparr>ps_AuthorizationCounter := 2, ps_RevocationEpoch := 1, ps_Authorized := [sample_record 2]\<rparr> = sample_state 2"
  "ps_AuthorizationCounter (sample_state n) = n" "ps_DeviceID (sample_state n) = replicate 16 9"
  "ps_RevocationEpoch (sample_state 1) = 0" "ps_Authorized (sample_state 1) = [sample_record 1]"
  "ps_Authorized (sample_state 2) = [sample_record 2]" "ps_Authorized (sample_state 0) = []"
  "(sample_record 1)\<lparr>pa_AuthorizationVersion := 2, pa_State := 2, pa_RevokedAt := Some 0, pa_RevocationEpoch := 1\<rparr> = sample_record 2"
  "st_state (sample_store n) = sample_state n" "st_path (sample_store n) = ''/f''"
  by (simp_all add: install_records_def authorization_record_def sample_state_def sample_record_def sample_store_def)

lemma sample_commit:
  assumes "n \<in> {1, 2}" "dir ''t'' = None"
  shows "\<exists>v. commit_state sample_device_crypto sample_codec sample_env (sample_state n) 0 (sample_store m) dir =
    (sample_store n, dir(''/f'' \<mapsto> [7, if n = 1 then 1 else 2]), Inr v)"
proof -
  have "json_state sample_device_crypto (sample_state n) = Some [if n = 1 then 1 else 2]"
    using assms(1) sample_encoders by auto
  from sample_device_save [where dir = dir, OF this] assms sample_state_valid [of n] show ?thesis
    by (auto simp: commit_state_def sample_store_def sample_updates authorizationView_def)
qed

lemma sample_calls:
  assumes "dir ''t'' = None"
  shows "\<exists>v. Authorize sample_device_crypto sample_codec sample_env 0 (Some (sample_device 5)) (sample_store 0) dir =
      (sample_store 1, dir(''/f'' \<mapsto> [7, 1]), Inr v)"
    "\<exists>v. Authorize sample_device_crypto sample_codec sample_env 0 (Some (sample_device 5)) (sample_store 1) dir =
      (sample_store 1, dir, Inr v)"
    "\<exists>v. Revoke sample_device_crypto sample_codec sample_env 0 (replicate 16 5) (sample_store 1) dir =
      (sample_store 2, dir(''/f'' \<mapsto> [7, 2]), Inr v)"
  using sample_commit [of 1 dir 0] sample_commit [of 2 dir 1] assms sample_find [unfolded sample_updates]
  by (auto simp: Authorize_def sample_device_verified sample_encoders authorize_locked_def Revoke_def Let_def
      sample_id sample_updates)

theorem device_key_pinned_witness:
  "\<exists>v1 v2. snd (run (device_step sample_device_crypto sample_codec) (sample_store 0, Map.empty)
      [DAuthorize sample_env 0 (Some (sample_device 5)), DAuthorize sample_env 0 (Some (sample_device 5))]) =
      [Inr v1, Inr v2] \<and>
    dd_SigningPublicKey (the (sd_DeviceDescriptor (sample_device 5))) =
    dd_SigningPublicKey (the (sd_DeviceDescriptor (sample_device 5)))"
proof -
  let ?c = "DAuthorize sample_env 0 (Some (sample_device 5))"
  obtain v1 v2 where calls:
    "Authorize sample_device_crypto sample_codec sample_env 0 (Some (sample_device 5)) (sample_store 0) Map.empty =
       (sample_store 1, [''/f'' \<mapsto> [7, 1]], Inr v1)"
    "Authorize sample_device_crypto sample_codec sample_env 0 (Some (sample_device 5)) (sample_store 1) [''/f'' \<mapsto> [7, 1]] =
       (sample_store 1, [''/f'' \<mapsto> [7, 1]], Inr v2)"
    using sample_calls(1) [of Map.empty] sample_calls(2) [of "[''/f'' \<mapsto> [7, 1]]"] by auto
  obtain d where d: "sd_DeviceDescriptor (sample_device 5) = Some d" by (simp add: sample_device_def)
  have val: "validateState sample_device_crypto (st_state (sample_store 0)) = None"
    using sample_state_valid [of 0] by (simp add: sample_updates)
  have rs: "snd (run (device_step sample_device_crypto sample_codec) (sample_store 0, Map.empty) [?c, ?c]) = [Inr v1, Inr v2]"
    using calls by simp
  have "dd_SigningPublicKey (the (sd_DeviceDescriptor (sample_device 5))) =
      dd_SigningPublicKey (the (sd_DeviceDescriptor (sample_device 5)))"
    by (rule device_key_pinned [OF sample_device_codec val, where i = 0 and j = 1 and cs = "[?c, ?c]" and
        rs = "[Inr v1, Inr v2]" and cd = sample_codec and dir = Map.empty]) (use rs d in simp_all)
  with rs show ?thesis by blast
qed

theorem revocation_sticks_witness:
  "ds_RevocationEpoch (sample_store 1) < ds_RevocationEpoch (sample_store 2)"
proof -
  obtain v where r: "Revoke sample_device_crypto sample_codec sample_env 0 (replicate 16 5) (sample_store 1) Map.empty =
      (sample_store 2, [''/f'' \<mapsto> [7, 2]], Inr v)"
    using sample_calls(3) [of Map.empty] by auto
  have val: "validateState sample_device_crypto (st_state (sample_store 1)) = None"
    using sample_state_valid [of 1] by (simp add: sample_updates)
  obtain u where "AuthorizedDevice_of sample_device_crypto (replicate 16 5) (sample_store 1) = Inr u" "av_State u = 1"
    using sample_find(2) by (simp add: AuthorizedDevice_of_def sample_updates)
  with revocation_sticks [OF sample_device_codec val r, of "[]"] show ?thesis by auto
qed

lemma sample_in_sync: "in_sync sample_device_crypto sample_codec (sample_store 1) [''/f'' \<mapsto> [7, 1]]"
  using sample_state_valid [of 1]
  by (simp add: in_sync_def loadState_def Read_def validateArguments_def IsAbs_def secureStorePurpose_def
      sample_updates sample_codec_def maxEnvelopeBytes_def protectionName_def equalPurpose_def purposeDigest_def unprotect_def)
     (simp add: sample_device_crypto_def)

theorem device_store_durable_witness:
  "in_sync sample_device_crypto sample_codec (sample_store 2) [''/f'' \<mapsto> [7, 2]]"
proof -
  obtain v where r: "Revoke sample_device_crypto sample_codec sample_env 0 (replicate 16 5) (sample_store 1) [''/f'' \<mapsto> [7, 1]] =
      (sample_store 2, [''/f'' \<mapsto> [7, 2]], Inr v)"
    using sample_calls(3) [of "[''/f'' \<mapsto> [7, 1]]"] by auto
  have t: "fresh_temp sample_env (sample_store 1) [''/f'' \<mapsto> [7, 1]]"
    by (simp add: fresh_temp_def sample_env_def sample_updates)
  from device_store_durable [OF sample_device_codec sample_codec_ok sample_in_sync _ t,
      of "DRevoke sample_env 0 (replicate 16 5)"] r
  show ?thesis by simp
qed

end
