(* ===== verification/Pairing_Safety.thy ===== *)
theory Pairing_Safety
  imports Pairing_Manager Device_Safety
begin

text \<open>
  What the invitation manager promises: an approval rests on a live reservation of the invitation
  that is still the active one, each invitation is spent at most once, and an invitation survives
  the trip through its URL.
\<close>

section \<open>Calls\<close>

datatype 'e pairing_call =
    PCreate "device_error + SignedDeviceDescriptor" "bytes option" "bytes option" time "string list"
  | PStatus time
  | PBegin time bytes "bytes \<Rightarrow> 'e option"
  | PApprove time "nat option" "'e option"
  | PReject time "nat option"
  | PRelease time "nat option"
  | PAuthenticate time bytes bytes
  | PConsume time bytes bytes
  | PClose

datatype 'e pairing_result =
    PInvited PairingInvitation
  | PStatusIs Status
  | PReserved nat Status
  | PDone
  | PFailed "'e pairing_error"

definition done_or_failed :: "Manager \<times> 'e pairing_error option \<Rightarrow> Manager \<times> 'e pairing_result" where
  "done_or_failed x = (fst x, case snd x of None \<Rightarrow> PDone | Some e \<Rightarrow> PFailed e)"

fun manager_step :: "crypto \<Rightarrow> pairing_lib \<Rightarrow> Manager \<Rightarrow> 'e pairing_call \<Rightarrow> Manager \<times> 'e pairing_result" where
  "manager_step cr lib m (PCreate agent i s now hints) =
     (case Create cr lib agent i s now hints m of (m', Inl e) \<Rightarrow> (m', PFailed e) | (m', Inr v) \<Rightarrow> (m', PInvited v))"
| "manager_step cr lib m (PStatus now) =
     (case ActiveStatus now m of (m', Inl e) \<Rightarrow> (m', PFailed e) | (m', Inr st) \<Rightarrow> (m', PStatusIs st))"
| "manager_step cr lib m (PBegin now i callback) =
     (case Begin now i (Some (\<lambda>secret w. (w, callback secret))) m () of
        (m', _, Inl e) \<Rightarrow> (m', PFailed e) | (m', _, Inr (r, st)) \<Rightarrow> (m', PReserved r st))"
| "manager_step cr lib m (PApprove now r outcome) =
     (case Approve now r (Some (\<lambda>w. (w, outcome))) m () of (m', _, e) \<Rightarrow> done_or_failed (m', e))"
| "manager_step cr lib m (PReject now r) = done_or_failed (Reject now r m)"
| "manager_step cr lib m (PRelease now r) = done_or_failed (Release now r m)"
| "manager_step cr lib m (PAuthenticate now i s) = done_or_failed (Authenticate now i s m)"
| "manager_step cr lib m (PConsume now i s) = done_or_failed (Consume now i s m)"
| "manager_step cr lib m PClose = (mg_Close m, PDone)"

text \<open>A call that ends the active invitation: another one replaces it, or it is spent.\<close>

fun spends :: "'e pairing_call \<Rightarrow> 'e pairing_result \<Rightarrow> bool" where
  "spends (PCreate agent i s now hints) r \<longleftrightarrow> (\<exists>offer. r = PInvited offer)"
| "spends (PApprove now res outcome) r \<longleftrightarrow> r = PDone"
| "spends (PReject now res) r \<longleftrightarrow> r = PDone"
| "spends (PConsume now i s) r \<longleftrightarrow> r = PDone"
| "spends PClose r \<longleftrightarrow> True"
| "spends c r \<longleftrightarrow> False"

definition releases :: "'e pairing_call \<Rightarrow> 'e pairing_result \<Rightarrow> nat \<Rightarrow> bool" where
  "releases c r res \<longleftrightarrow> (\<exists>now. c = PRelease now (Some res)) \<and> r = PDone"

section \<open>What the manager holds\<close>

definition offers :: "Manager \<Rightarrow> PairingInvitation \<Rightarrow> bool" where
  "offers m offer \<longleftrightarrow> (\<exists>a. mg_active m = Some a \<and> ac_invitation a = offer\<lparr>iv_BootstrapSecret := []\<rparr> \<and>
     ac_secret a = iv_BootstrapSecret offer)"

definition reserved :: "Manager \<Rightarrow> nat \<times> PairingInvitation \<Rightarrow> bool" where
  "reserved m x \<longleftrightarrow> offers m (snd x) \<and> ac_reservation (the (mg_active m)) = Some (fst x)"

definition offer_starts :: "crypto \<Rightarrow> pairing_lib \<Rightarrow> Manager \<Rightarrow> 'e pairing_call \<Rightarrow> PairingInvitation \<Rightarrow> bool" where
  "offer_starts cr lib m c offer \<longleftrightarrow>
     (\<exists>agent i s now hints. c = PCreate agent i s now hints) \<and> snd (manager_step cr lib m c) = PInvited offer"

definition reservation_starts ::
    "crypto \<Rightarrow> pairing_lib \<Rightarrow> Manager \<Rightarrow> 'e pairing_call \<Rightarrow> nat \<times> PairingInvitation \<Rightarrow> bool" where
  "reservation_starts cr lib m c x \<longleftrightarrow>
     (\<exists>now callback st. c = PBegin now (iv_InvitationId (snd x)) callback \<and>
        snd (manager_step cr lib m c) = PReserved (fst x) st \<and> offers m (snd x) \<and>
        callback (iv_BootstrapSecret (snd x)) = None \<and> now < the (iv_ExpiresAt (snd x)))"

lemma clearActive_simps [simp]: "mg_active (clearActiveLocked m) = None"
  by (simp add: clearActiveLocked_def split: option.split)

lemma clear_offers [simp]: "\<not> offers (clearActiveLocked m) offer" "\<not> reserved (clearActiveLocked m) x"
  by (simp_all add: offers_def reserved_def)

lemmas manager_defs = Create_def ActiveStatus_def Begin_def Approve_def Reject_def Release_def Authenticate_def
  Consume_def mg_Close_def matchInvitationLocked_def validateReservationLocked_def authenticateLocked_def done_or_failed_def

interpretation offering: since "manager_step cr lib" "\<lambda>_. True" "\<lambda>_. True" offers "offer_starts cr lib"
  "\<lambda>m c _. spends c (snd (manager_step cr lib m c))" for cr lib
proof
  fix m :: Manager and c :: "'e pairing_call" and x
  assume h: "offers (fst (manager_step cr lib m c)) x"
  show "offer_starts cr lib m c x \<or> offers m x \<and> \<not> spends c (snd (manager_step cr lib m c))"
  proof (cases c)
    case (PCreate agent i s now hints)
    with h show ?thesis
      by (cases x) (auto simp: offer_starts_def Create_def offers_def Let_def split: option.splits sum.splits if_splits)
  qed (use h in \<open>auto simp: manager_defs offers_def Let_def split: option.splits if_splits\<close>)
qed

interpretation reservation: since "manager_step cr lib" "\<lambda>_. True" "\<lambda>_. True" reserved "reservation_starts cr lib"
  "\<lambda>m c x. spends c (snd (manager_step cr lib m c)) \<or> releases c (snd (manager_step cr lib m c)) (fst x)" for cr lib
proof
  fix m :: Manager and c :: "'e pairing_call" and x
  assume h: "reserved (fst (manager_step cr lib m c)) x"
  show "reservation_starts cr lib m c x \<or> reserved m x \<and>
      \<not> (spends c (snd (manager_step cr lib m c)) \<or> releases c (snd (manager_step cr lib m c)) (fst x))"
  proof (cases c)
    case (PBegin now i callback)
    with h show ?thesis
      by (cases "mg_active m")
        (auto simp: reservation_starts_def manager_defs reserved_def offers_def releases_def expires_of_def Let_def
          split: option.splits if_splits)
  next
    case (PCreate agent i s now hints)
    with h show ?thesis
      by (auto simp: Create_def reserved_def offers_def releases_def Let_def split: option.splits sum.splits if_splits)
  qed (use h in \<open>auto simp: manager_defs reserved_def offers_def releases_def Let_def split: option.splits if_splits\<close>)
qed

lemma New_empty: "New hasAgent ttl = Inr m \<Longrightarrow> \<not> offers m offer \<and> \<not> reserved m x"
  by (auto simp: New_def offers_def reserved_def Let_def split: if_splits)

text \<open>An approval succeeds only on the reservation the manager holds, and before the expiry.\<close>

lemma Approve_reserved:
  assumes "Approve now res persist m w = (m', w', None)"
  shows "\<exists>r a. res = Some r \<and> mg_active m = Some a \<and> ac_reservation a = Some r \<and> now < expires_of a \<and>
    mg_active m' = None \<and> (\<exists>callback. persist = Some callback \<and> callback w = (w', None))"
  using assms
  by (auto simp: Approve_def validateReservationLocked_def split: option.splits if_splits prod.splits)

lemma active_offer: "mg_active m = Some a \<Longrightarrow> offers m ((ac_invitation a)\<lparr>iv_BootstrapSecret := ac_secret a\<rparr>)
  \<longleftrightarrow> iv_BootstrapSecret (ac_invitation a) = []"
  by (cases a; cases "ac_invitation a") (auto simp: offers_def)

interpretation stored: step_machine "manager_step cr lib"
  "\<lambda>m. \<forall>a. mg_active m = Some a \<longrightarrow> iv_BootstrapSecret (ac_invitation a) = []" "\<lambda>_. True" for cr lib
proof
  fix m :: Manager and c :: "'e pairing_call"
  assume m: "\<forall>a. mg_active m = Some a \<longrightarrow> iv_BootstrapSecret (ac_invitation a) = []"
  show "\<forall>a. mg_active (fst (manager_step cr lib m c)) = Some a \<longrightarrow> iv_BootstrapSecret (ac_invitation a) = []"
    by (cases c) (use m in \<open>auto simp: manager_defs Let_def split: option.splits if_splits sum.splits\<close>)
qed

lemma created_expires:
  "snd (manager_step cr lib m (PCreate agent i s now hints)) = PInvited offer \<Longrightarrow> \<exists>e. iv_ExpiresAt offer = Some e"
  by (auto simp: Create_def Let_def split: option.splits sum.splits if_splits)

text \<open>
  C14. An approval is earned. In any sequence of calls on a manager, whenever an approval succeeds,
  it names a reservation that an earlier call opened with the invitation's ID and whose callback
  accepted its secret, on an invitation that a still earlier call created; it comes before the
  invitation expires; and in between the invitation was neither replaced nor spent nor cleared, and
  the reservation was not released. So no invitation is approved twice or after it was spent.
\<close>

theorem approval_is_earned:
  assumes "New hasAgent ttl = Inr m" "rs = snd (run (manager_step cr lib) m cs)" "i < length cs"
    and "cs ! i = PApprove now res outcome" "rs ! i = PDone"
  shows "\<exists>r offer expires l j begun callback st. res = Some r \<and> outcome = None \<and>
    l < j \<and> j < i \<and> (\<exists>agent d s at hints. cs ! l = PCreate agent d s at hints) \<and> rs ! l = PInvited offer \<and>
    iv_ExpiresAt offer = Some expires \<and> now < expires \<and> begun < expires \<and>
    cs ! j = PBegin begun (iv_InvitationId offer) callback \<and> callback (iv_BootstrapSecret offer) = None \<and>
    rs ! j = PReserved r st \<and>
    (\<forall>k. l < k \<and> k < i \<longrightarrow> \<not> spends (cs ! k) (rs ! k)) \<and>
    (\<forall>k. j < k \<and> k < i \<longrightarrow> \<not> releases (cs ! k) (rs ! k) r)"
proof -
  let ?f = "manager_step cr lib" and ?s = "\<lambda>k. fst (run (manager_step cr lib) m (take k cs))"
  have rs: "rs ! k = snd (?f (?s k) (cs ! k))" if "k < length cs" for k
    using that assms(2) by (simp add: snd_run_nth)
  have "snd (?f (?s i) (cs ! i)) = PDone" using rs [OF assms(3)] assms(5) by simp
  then obtain m' where "Approve now res (Some (\<lambda>w. (w, outcome))) (?s i) () = (m', (), None)"
    using assms(4) by (auto simp: done_or_failed_def split: prod.splits option.splits)
  from Approve_reserved [OF this] obtain r a where a: "res = Some r" "outcome = None" "mg_active (?s i) = Some a"
    "ac_reservation a = Some r" "now < expires_of a"
    by auto
  define offer where "offer = (ac_invitation a)\<lparr>iv_BootstrapSecret := ac_secret a\<rparr>"
  have "\<forall>a. mg_active m = Some a \<longrightarrow> iv_BootstrapSecret (ac_invitation a) = []"
    using assms(1) by (auto simp: New_def Let_def split: if_splits)
  from stored.run_inv [OF this, of "take i cs" cr lib] have "offers (?s i) offer"
    using active_offer [OF a(3)] a(3) by (simp add: offer_def list_all_iff)
  then have held: "reserved (?s i) (r, offer)" using a(3,4) by (simp add: reserved_def)
  have ok: "list_all (\<lambda>_. True) cs" by (simp add: list_all_iff)
  note start = New_empty [OF assms(1)]
  from reservation.origin_at [OF TrueI ok _ less_imp_le [OF assms(3)] held] start
  obtain j where j: "j < i" "reservation_starts cr lib (?s j) (cs ! j) (r, offer)"
    and since_j: "\<forall>k. j < k \<and> k < i \<longrightarrow> \<not> (spends (cs ! k) (snd (?f (?s k) (cs ! k))) \<or> releases (cs ! k) (snd (?f (?s k) (cs ! k))) r)"
    by auto
  then obtain begun callback st where b: "cs ! j = PBegin begun (iv_InvitationId offer) callback"
    "snd (?f (?s j) (cs ! j)) = PReserved r st" "offers (?s j) offer" "callback (iv_BootstrapSecret offer) = None"
    "begun < the (iv_ExpiresAt offer)"
    by (auto simp: reservation_starts_def)
  from offering.origin_at [OF TrueI ok _ _ b(3)] start j(1) assms(3)
  obtain l where l: "l < j" "offer_starts cr lib (?s l) (cs ! l) offer"
    and since_l: "\<forall>k. l < k \<and> k < j \<longrightarrow> \<not> spends (cs ! k) (snd (?f (?s k) (cs ! k)))"
    by auto
  then obtain agent d s at hints where c: "cs ! l = PCreate agent d s at hints" "snd (?f (?s l) (cs ! l)) = PInvited offer"
    by (auto simp: offer_starts_def)
  then obtain e where e: "iv_ExpiresAt offer = Some e" using created_expires [of cr lib "?s l"] by metis
  have "\<not> spends (cs ! k) (rs ! k)" if "l < k" "k < i" for k
    using that since_l since_j b(1) rs [of k] assms(3) by (cases k j rule: linorder_cases) auto
  moreover have "\<not> releases (cs ! k) (rs ! k) r" if "j < k" "k < i" for k
    using that since_j rs [of k] assms(3) by auto
  moreover have "now < e" "begun < e" using a(5) b(5) e by (simp_all add: expires_of_def offer_def)
  ultimately show ?thesis
    using a(1,2) l(1) j(1) c b rs [of l] rs [of j] assms(3) e
    by (intro exI [of _ r] exI [of _ offer] exI [of _ e] exI [of _ l] exI [of _ j] exI [of _ begun]
        exI [of _ callback] exI [of _ st]) simp
qed

section \<open>The URL form\<close>

text \<open>
  The documented behaviour of the protobuf codec and of \<^verbatim>\<open>net/url\<close> that the URL form relies on: a
  message is decoded from its encoding, whose length is its size, and a URL printed with a
  fragment of letters, digits, dashes, underscores and slashes is parsed back.
\<close>

definition pairing_lib_ok :: "pairing_lib \<Rightarrow> string \<Rightarrow> bool" where
  "pairing_lib_ok lib base \<longleftrightarrow>
     (\<forall>i b. marshal_invitation lib i = Some b \<longrightarrow> unmarshal_invitation lib b = Some i \<and> length b = size_invitation lib i) \<and>
     (\<forall>u f. url_parse lib base = Some u \<and> list_all url_safe f \<longrightarrow>
        url_parse lib (url_string lib (u\<lparr>url_Fragment := f\<rparr>)) = Some (u\<lparr>url_Fragment := f\<rparr>))"

lemma prefix_append [simp]: "has_prefix (p @ q) p" "trim_prefix (p @ q) p = q"
  by (simp_all add: has_prefix_def trim_prefix_def)

text \<open>Only the two comparisons with the clock depend on when an invitation is checked.\<close>

lemma ValidateInvitation_later:
  assumes "ValidateInvitation cr lib (Some i) t = (None :: 'e pairing_error option)"
    and "iv_CreatedAt i = Some createdAt" "iv_ExpiresAt i = Some expiresAt"
  shows "(ValidateInvitation cr lib (Some i) now :: 'e pairing_error option) =
    (if createdAt > now + 5 * minute then Some InvitationFuture
     else if expiresAt \<le> now then Some ErrInvitationExpired else None)"
  using assms by (auto simp: ValidateInvitation_def split: option.splits if_splits sum.splits)

lemma ValidateInvitation_bounds:
  assumes "ValidateInvitation cr lib (Some i) t = None"
  shows "size_invitation lib i \<le> maxInvitationBytes" "\<exists>e. iv_ExpiresAt i = Some e"
  using assms by (auto simp: ValidateInvitation_def split: option.splits if_splits)

lemma fragment_prefix_safe: "list_all url_safe fragment_prefix"
  by (simp add: fragment_prefix_def url_safe_def base64_value_def)

text \<open>
  An invitation survives the QR code. If an invitation is put into a URL, the URL is read back
  to exactly that invitation, unless the reader's clock is more than five minutes before its
  creation or has reached its expiry, which it reports.
\<close>

theorem pairing_url_roundtrip:
  assumes "pairing_lib_ok lib base" "FragmentURL cr lib base (Some i) = (Inr url :: 'e pairing_error + string)"
  shows "\<exists>createdAt expiresAt. iv_CreatedAt i = Some createdAt \<and> iv_ExpiresAt i = Some expiresAt \<and>
    (ParseFragmentURL cr lib url now :: 'e pairing_error + PairingInvitation) =
      (if createdAt > now + 5 * minute then Inl InvitationFuture
       else if expiresAt \<le> now then Inl ErrInvitationExpired else Inr i)"
proof -
  obtain createdAt u encoded where f: "iv_CreatedAt i = Some createdAt"
    "ValidateInvitation cr lib (Some i) createdAt = (None :: 'e pairing_error option)"
    "url_parse lib base = Some u" "url_Host u \<noteq> []" "url_Scheme u \<in> {''http'', ''https''}" "\<not> url_User u"
    "url_RawQuery u = []" "marshal_invitation lib i = Some encoded"
    "url = url_string lib (u\<lparr>url_Fragment := fragment_prefix @ RawURL_Encode encoded\<rparr>)"
    using assms(2) by (auto simp: FragmentURL_def split: option.splits if_splits)
  obtain expiresAt where e: "iv_ExpiresAt i = Some expiresAt" using ValidateInvitation_bounds(2) [OF f(2)] by blast
  have enc: "unmarshal_invitation lib encoded = Some i" "length encoded \<le> maxInvitationBytes"
    using assms(1) f(8) ValidateInvitation_bounds(1) [OF f(2)] by (auto simp: pairing_lib_ok_def)
  have "url_parse lib url = Some (u\<lparr>url_Fragment := fragment_prefix @ RawURL_Encode encoded\<rparr>)"
    using assms(1) f(3) fragment_prefix_safe RawURL_Encode_safe [of encoded]
    by (simp add: pairing_lib_ok_def f(9))
  then have "(ParseFragmentURL cr lib url now :: 'e pairing_error + PairingInvitation) =
      (case ValidateInvitation cr lib (Some i) now of Some e \<Rightarrow> Inl e | None \<Rightarrow> Inr i)"
    using f(4-7) enc RawURL_EncodedLen_mono [OF enc(2)]
    by (simp add: ParseFragmentURL_def length_RawURL_Encode)
  then show ?thesis
    using ValidateInvitation_later [OF f(2,1) e, of now] f(1) e by simp
qed

section \<open>A sample invitation\<close>

definition sample_agent :: SignedDeviceDescriptor where
  "sample_agent = (sample_device 9)\<lparr>sd_DeviceDescriptor :=
     Some ((the (sd_DeviceDescriptor (sample_device 9)))\<lparr>dd_DeviceClass := 1\<rparr>)\<rparr>"

definition sample_invitation :: PairingInvitation where
  "sample_invitation = \<lparr>iv_Version = 1, iv_InvitationId = replicate 16 1, iv_Agent = Some sample_agent,
     iv_BootstrapSecret = replicate 32 2, iv_CreatedAt = Some 0, iv_ExpiresAt = Some (5 * minute),
     iv_ConnectionHints = [], iv_VerificationCode = ''000-000''\<rparr>"

text \<open>A codec that encodes the invitation and its form without a code, and URLs of one host.\<close>

definition sample_lib :: pairing_lib where
  "sample_lib = \<lparr>marshal_invitation = (\<lambda>i. if i = sample_invitation then Some [1]
       else if i = sample_invitation\<lparr>iv_VerificationCode := []\<rparr> then Some [2] else None),
     unmarshal_invitation = (\<lambda>b. Some (if b = [1] then sample_invitation else sample_invitation\<lparr>iv_VerificationCode := []\<rparr>)),
     size_invitation = (\<lambda>_. 1),
     url_parse = (\<lambda>s. Some \<lparr>url_Scheme = ''http'', url_Host = ''h'', url_User = False, url_RawQuery = [],
       url_Fragment = tl s, url_rest = []\<rparr>),
     url_string = (\<lambda>u. CHR ''#'' # url_Fragment u)\<rparr>"

lemma sample_lib_fields [simp]:
  "size_invitation sample_lib i = 1" "marshal_invitation sample_lib sample_invitation = Some [1]"
  "url_parse sample_lib s = Some \<lparr>url_Scheme = ''http'', url_Host = ''h'', url_User = False, url_RawQuery = [],
     url_Fragment = tl s, url_rest = []\<rparr>"
  by (simp_all add: sample_lib_def)

lemma sample_invitation_fields [simp]:
  "iv_Version sample_invitation = 1" "iv_InvitationId sample_invitation = replicate 16 1"
  "iv_Agent sample_invitation = Some sample_agent" "iv_BootstrapSecret sample_invitation = replicate 32 2"
  "iv_CreatedAt sample_invitation = Some 0" "iv_ExpiresAt sample_invitation = Some (5 * minute)"
  "iv_ConnectionHints sample_invitation = []" "iv_VerificationCode sample_invitation = ''000-000''"
  by (simp_all add: sample_invitation_def)

lemma sample_lib_ok: "pairing_lib_ok sample_lib ''#''"
  by (auto simp: pairing_lib_ok_def sample_lib_def split: if_splits)

lemma sample_agent_ok: "VerifySignedDescriptor sample_device_crypto (Some sample_agent) = None"
  "dd_DeviceClass (the (sd_DeviceDescriptor sample_agent)) = 1"
  by (simp_all add: VerifySignedDescriptor_def sample_validation sample_agent_def sample_device_def)

lemma sample_code:
  "verificationCode sample_device_crypto sample_lib sample_invitation = Inr ''000-000''"
  "verificationCode sample_device_crypto sample_lib (sample_invitation\<lparr>iv_VerificationCode := []\<rparr>) = Inr ''000-000''"
proof -
  have "marshal_invitation sample_lib (sample_invitation\<lparr>iv_VerificationCode := []\<rparr>) = Some [2]"
    by (simp add: sample_lib_def sample_invitation_def)
  then show "verificationCode sample_device_crypto sample_lib sample_invitation = Inr ''000-000''"
    "verificationCode sample_device_crypto sample_lib (sample_invitation\<lparr>iv_VerificationCode := []\<rparr>) = Inr ''000-000''"
    by (simp_all add: verificationCode_def three_digits_def char_of_def bit_0)
qed

lemma sample_new_code:
  "verificationCode sample_device_crypto sample_lib \<lparr>iv_Version = 1, iv_InvitationId = replicate 16 1,
     iv_Agent = Some sample_agent, iv_BootstrapSecret = replicate 32 2, iv_CreatedAt = Some 0,
     iv_ExpiresAt = Some 300000000000, iv_ConnectionHints = [], iv_VerificationCode = []\<rparr> = Inr ''000-000''"
  using sample_code(2) by (simp add: sample_invitation_def)

lemma sample_invitation_valid: "ValidateInvitation sample_device_crypto sample_lib (Some sample_invitation) 0 = None"
  by (simp add: sample_agent_ok sample_code(1) ValidateInvitation_def maxInvitationBytes_def timestamp_valid_def zero_time_def validateConnectionHints_def)

theorem pairing_url_roundtrip_witness:
  "\<exists>url. FragmentURL sample_device_crypto sample_lib ''#'' (Some sample_invitation) = (Inr url :: unit pairing_error + string) \<and>
     ParseFragmentURL sample_device_crypto sample_lib url minute = (Inr sample_invitation :: unit pairing_error + PairingInvitation) \<and>
     ParseFragmentURL sample_device_crypto sample_lib url (5 * minute) =
       (Inl ErrInvitationExpired :: unit pairing_error + PairingInvitation)"
proof -
  obtain url where url: "FragmentURL sample_device_crypto sample_lib ''#'' (Some sample_invitation) = (Inr url :: unit pairing_error + string)"
    by (simp add: FragmentURL_def sample_invitation_valid)
  show ?thesis
    using pairing_url_roundtrip [OF sample_lib_ok url, of minute] pairing_url_roundtrip [OF sample_lib_ok url, of "5 * minute"] url
    by simp
qed

theorem approval_is_earned_witness:
  "\<exists>m rs. (New True 0 :: unit pairing_error + Manager) = Inr m \<and>
     rs = snd (run (manager_step sample_device_crypto sample_lib) m
       [PCreate (Inr sample_agent) (Some (replicate 16 1)) (Some (replicate 32 2)) 0 [], PBegin 1 (replicate 16 1) (\<lambda>_. None),
        PApprove 2 (Some 0) (None :: unit option)]) \<and>
     rs ! 2 = PDone \<and> (\<exists>j < 2. \<exists>st. rs ! j = PReserved 0 st)"
proof -
  let ?c = "[PCreate (Inr sample_agent) (Some (replicate 16 1)) (Some (replicate 32 2)) 0 [], PBegin 1 (replicate 16 1) (\<lambda>_. None),
    PApprove 2 (Some 0) (None :: unit option)]"
  obtain m where m: "(New True 0 :: unit pairing_error + Manager) = Inr m" "mg_ttl m = 5 * minute" "mg_active m = None"
    "mg_next m = 0" "mg_bound m = {}"
    by (rule that [of "\<lparr>mg_ttl = 5 * minute, mg_active = None, mg_bound = {}, mg_next = 0\<rparr>"])
       (simp_all add: New_def DefaultTTL_def Let_def)
  let ?rs = "snd (run (manager_step sample_device_crypto sample_lib) m ?c)"
  have "?rs ! 2 = PDone"
    using m
    by (simp add: sample_agent_ok sample_new_code Create_def validateConnectionHints_def Let_def clearActiveLocked_def
        manager_defs expires_of_def)
  with approval_is_earned [OF m(1) refl, of 2 ?c 2 "Some 0" None sample_device_crypto sample_lib] m(1)
  show ?thesis by auto
qed

end
