(* ===== verification/E2EE_Safety.thy ===== *)
theory E2EE_Safety
  imports E2EE_Session Pairing_Safety
begin

text \<open>
  What the handshakes and the transport promise: the peer a pairing reports is the one the Noise
  transcript authenticated, both sides of a pairing agree, a session is accepted only for a client
  the store authorizes, and a transport delivers in order and stops at the first forgery.
\<close>

section \<open>Pairing\<close>

text \<open>The three messages of a responder that finished, as calls of the Noise library.\<close>

definition responder_transcript ::
    "('h, 'c) noise_lib \<Rightarrow> noise_config \<Rightarrow> bytes \<Rightarrow> bytes \<Rightarrow> bytes \<Rightarrow> 'h \<Rightarrow> bool" where
  "responder_transcript nl config m1 m2 m3 h \<longleftrightarrow>
     (\<exists>h0 h1 h2 p1 p2 p3 c d. nl_New nl config = Some h0 \<and> nl_ReadMessage nl h0 m1 = Some (h1, p1, None, None) \<and>
        nl_WriteMessage nl h1 p2 = Some (h2, m2, None, None) \<and> nl_ReadMessage nl h2 m3 = Some (h, p3, Some c, Some d))"

lemma AcceptPairingStart_cases:
  assumes "AcceptPairingStart cr nl pc config start = Inr (r, m2, peer)"
  obtains st ctx agent prologue h0 h1 h2 p1 p2 where "start = Some st" "hs_Context st = Some ctx"
    "rc_ExpectedContext config = Some ctx" "rc_Agent config = Some agent"
    "validatePairingContext (Some ctx) = None" "pairingPrologue pc ctx = Inr prologue"
    "nl_New nl (xx_config False prologue (rc_BootstrapSecret config) (rc_StaticPrivateKey config)
       (dd_KeyAgreementPublicKey (descriptor_of agent)) (rc_Random config)) = Some h0"
    "nl_ReadMessage nl h0 (hs_NoiseMessage st) = Some (h1, p1, None, None)"
    "unmarshalBounded (unmarshal_initiator pc) p1 = Some (Some peer)"
    "validatePeerDescriptor cr peer DEVICE_CLASS_CLIENT (hc_InitiatorDeviceId ctx) (hc_ProtocolVersion ctx) = None"
    "marshalDeterministic (marshal_responder pc) agent = Inr p2"
    "nl_WriteMessage nl h1 p2 = Some (h2, m2, None, None)" "length m2 \<le> maxNoiseMessageBytes"
    "r = \<lparr>re_handshake = Some h2, re_context = ctx, re_client = peer, re_private = rc_StaticPrivateKey config,
       re_state = responderAwaitingFinish\<rparr>"
proof -
  have agent: "\<exists>agent. rc_Agent config = Some agent" if "errDescriptor cr (rc_Agent config) = None"
    using that by (cases "rc_Agent config") (auto simp: errDescriptor_def VerifySignedDescriptor_def)
  have key: "k = rc_StaticPrivateKey config" if "checkedStaticKey cr (rc_StaticPrivateKey config) p = Inr k" for k p
    using that by (auto simp: checkedStaticKey_def split: if_splits option.splits)
  show thesis
    using assms agent
    by (auto simp: AcceptPairingStart_def accept_noise_def Let_def dest!: key intro!: that
        split: option.splits if_splits sum.splits prod.splits)
qed

lemma re_Finish_cases:
  assumes "re_Finish cr nl pc fin r = (r', Inr result)"
  obtains h m3 h' p3 c d where "re_handshake r = Some h" "re_state r = responderAwaitingFinish" "fin = Some m3"
    "nl_ReadMessage nl h m3 = Some (h', p3, Some c, Some d)"
    "nl_PeerStatic nl h' = dd_KeyAgreementPublicKey (descriptor_of (re_client r))"
    "unmarshalBounded (unmarshal_finish pc) p3 = Some (hc_InitiatorDeviceId (re_context r))"
    "length (nl_ChannelBinding nl h') = 64"
    "result = \<lparr>rs_Peer = re_client r, rs_SAS = pairingSAS cr (nl_ChannelBinding nl h'),
       rs_HandshakeHash = nl_ChannelBinding nl h', rs_Transport = newTransport (Some d) (Some c)\<rparr>"
    "re_state r' = responderComplete"
  using assms
  by (auto simp: re_Finish_def pairingResult_def re_clearHandshakeSecrets_def intro!: that
      split: option.splits if_splits sum.splits prod.splits)

text \<open>
  The paired device is authenticated. When the agent has accepted the first message of a pairing
  and then finishes it, the device it reports is a client whose descriptor carries a valid
  signature, whose ID is the one in the context the agent expected, and whose key-agreement key is
  the static key the Noise transcript authenticated, under the bootstrap secret; and the
  verification string is computed from the hash of that very transcript.
\<close>

theorem pairing_peer_authenticated:
  assumes "AcceptPairingStart cr nl pc config start = Inr (r, m2, peer)"
    and "re_Finish cr nl pc fin r = (r', Inr result)"
  shows "\<exists>st ctx prologue m3 h. start = Some st \<and> rc_ExpectedContext config = Some ctx \<and>
    hs_Context st = Some ctx \<and> pairingPrologue pc ctx = Inr prologue \<and> fin = Some m3 \<and>
    rs_Peer result = peer \<and> VerifySignedDescriptor cr (Some peer) = None \<and>
    dd_DeviceClass (descriptor_of peer) = DEVICE_CLASS_CLIENT \<and>
    dd_DeviceId (descriptor_of peer) = hc_InitiatorDeviceId ctx \<and>
    responder_transcript nl (xx_config False prologue (rc_BootstrapSecret config) (rc_StaticPrivateKey config)
      (dd_KeyAgreementPublicKey (descriptor_of (the (rc_Agent config)))) (rc_Random config))
      (hs_NoiseMessage st) m2 m3 h \<and>
    nl_PeerStatic nl h = dd_KeyAgreementPublicKey (descriptor_of peer) \<and>
    rs_SAS result = pairingSAS cr (nl_ChannelBinding nl h) \<and> rs_HandshakeHash result = nl_ChannelBinding nl h"
proof (rule AcceptPairingStart_cases [OF assms(1)], rule re_Finish_cases [OF assms(2)])
  fix st ctx agent prologue h0 h1 h2 p1 p2 h m3 h' p3 c d
  assume s: "start = Some st" "hs_Context st = Some ctx" "rc_ExpectedContext config = Some ctx"
    "rc_Agent config = Some agent" "pairingPrologue pc ctx = Inr prologue"
    and n: "nl_New nl (xx_config False prologue (rc_BootstrapSecret config) (rc_StaticPrivateKey config)
       (dd_KeyAgreementPublicKey (descriptor_of agent)) (rc_Random config)) = Some h0"
    "nl_ReadMessage nl h0 (hs_NoiseMessage st) = Some (h1, p1, None, None)"
    "nl_WriteMessage nl h1 p2 = Some (h2, m2, None, None)"
    and v: "validatePeerDescriptor cr peer DEVICE_CLASS_CLIENT (hc_InitiatorDeviceId ctx) (hc_ProtocolVersion ctx) = None"
    and r: "r = \<lparr>re_handshake = Some h2, re_context = ctx, re_client = peer, re_private = rc_StaticPrivateKey config,
       re_state = responderAwaitingFinish\<rparr>"
    and f: "re_handshake r = Some h" "fin = Some m3" "nl_ReadMessage nl h m3 = Some (h', p3, Some c, Some d)"
      "nl_PeerStatic nl h' = dd_KeyAgreementPublicKey (descriptor_of (re_client r))"
      "result = \<lparr>rs_Peer = re_client r, rs_SAS = pairingSAS cr (nl_ChannelBinding nl h'),
         rs_HandshakeHash = nl_ChannelBinding nl h', rs_Transport = newTransport (Some d) (Some c)\<rparr>"
  have "responder_transcript nl (xx_config False prologue (rc_BootstrapSecret config) (rc_StaticPrivateKey config)
      (dd_KeyAgreementPublicKey (descriptor_of (the (rc_Agent config)))) (rc_Random config)) (hs_NoiseMessage st) m2 m3 h'"
    unfolding responder_transcript_def using n f(1,3) r s(4) by auto
  moreover have "VerifySignedDescriptor cr (Some peer) = None" "dd_DeviceClass (descriptor_of peer) = DEVICE_CLASS_CLIENT"
    "dd_DeviceId (descriptor_of peer) = hc_InitiatorDeviceId ctx"
    using v by (auto simp: validatePeerDescriptor_def errDescriptor_def split: option.splits if_splits)
  ultimately show ?thesis using s f r by auto
qed

section \<open>Agreement\<close>

text \<open>
  The documented behaviour of the XX pattern with a pre-shared key, for two parties with the same
  prologue and key: each message is read as the payload it was written with; the parties learn
  each other's static key, the initiator from the second message and the responder from the
  third; and after the third both hold the same hash of 64 bytes and the same pair of cipher states.
\<close>

definition xx_message ::
    "('h, 'c) noise_lib \<Rightarrow> 'h \<Rightarrow> 'h \<Rightarrow> bytes \<Rightarrow> 'h \<Rightarrow> 'h \<Rightarrow> bytes \<Rightarrow> 'c option \<Rightarrow> 'c option \<Rightarrow> bool" where
  "xx_message nl sender receiver p sender' receiver' m c d \<longleftrightarrow>
     nl_WriteMessage nl sender p = Some (sender', m, c, d) \<and> nl_ReadMessage nl receiver m = Some (receiver', p, c, d)"

definition noise_xx_ok :: "('h, 'c) noise_lib \<Rightarrow> bool" where
  "noise_xx_ok nl \<longleftrightarrow>
     (\<forall>prologue psk a pub_a ra b pub_b rb i0 r0.
        nl_New nl (xx_config True prologue psk a pub_a ra) = Some i0 \<and>
        nl_New nl (xx_config False prologue psk b pub_b rb) = Some r0 \<longrightarrow>
        (\<forall>p1 i1 m1 c d. nl_WriteMessage nl i0 p1 = Some (i1, m1, c, d) \<longrightarrow>
           m1 \<noteq> [] \<and> (\<exists>r1. xx_message nl i0 r0 p1 i1 r1 m1 None None \<and>
           (\<forall>p2 r2 m2 c d. nl_WriteMessage nl r1 p2 = Some (r2, m2, c, d) \<longrightarrow>
              m2 \<noteq> [] \<and> (\<exists>i2. xx_message nl r1 i1 p2 r2 i2 m2 None None \<and> nl_PeerStatic nl i2 = pub_b \<and>
              (\<forall>p3 i3 m3 c d. nl_WriteMessage nl i2 p3 = Some (i3, m3, c, d) \<longrightarrow>
                 m3 \<noteq> [] \<and> (\<exists>r3 c d. xx_message nl i2 r2 p3 i3 r3 m3 (Some c) (Some d) \<and> nl_PeerStatic nl r3 = pub_a \<and>
                 nl_ChannelBinding nl r3 = nl_ChannelBinding nl i3 \<and> length (nl_ChannelBinding nl i3) = 64)))))))"

lemma noise_xx_run:
  assumes "noise_xx_ok nl" "nl_New nl (xx_config True prologue psk a pub_a ra) = Some i0"
    and "nl_New nl (xx_config False prologue psk b pub_b rb) = Some r0"
    and "nl_WriteMessage nl i0 p1 = Some (i1, m1, c1, d1)" "nl_ReadMessage nl r0 m1 = Some (r1, p1', c2, d2)"
    and "nl_WriteMessage nl r1 p2 = Some (r2, m2, c3, d3)" "nl_ReadMessage nl i1 m2 = Some (i2, p2', c4, d4)"
    and "nl_WriteMessage nl i2 p3 = Some (i3, m3, Some c, Some d)"
  shows "p1' = p1 \<and> p2' = p2 \<and> m3 \<noteq> [] \<and> (\<exists>r3. nl_ReadMessage nl r2 m3 = Some (r3, p3, Some c, Some d) \<and>
    nl_PeerStatic nl r3 = pub_a \<and> nl_ChannelBinding nl r3 = nl_ChannelBinding nl i3 \<and>
    length (nl_ChannelBinding nl i3) = 64)"
proof -
  from assms(1)[unfolded noise_xx_ok_def, rule_format, OF conjI [OF assms(2,3)] assms(4)] assms(5)
  have p1: "p1' = p1" and second': "\<And>p2 r2 m2 c d. nl_WriteMessage nl r1 p2 = Some (r2, m2, c, d) \<Longrightarrow>
      m2 \<noteq> [] \<and> (\<exists>i2. xx_message nl r1 i1 p2 r2 i2 m2 None None \<and> nl_PeerStatic nl i2 = pub_b \<and>
      (\<forall>p3 i3 m3 c d. nl_WriteMessage nl i2 p3 = Some (i3, m3, c, d) \<longrightarrow>
         m3 \<noteq> [] \<and> (\<exists>r3 c d. xx_message nl i2 r2 p3 i3 r3 m3 (Some c) (Some d) \<and> nl_PeerStatic nl r3 = pub_a \<and>
         nl_ChannelBinding nl r3 = nl_ChannelBinding nl i3 \<and> length (nl_ChannelBinding nl i3) = 64)))"
    by (auto simp: xx_message_def)
  from second' [OF assms(6)] assms(7)
  have p2: "p2' = p2" and third': "\<And>p3 i3 m3 c d. nl_WriteMessage nl i2 p3 = Some (i3, m3, c, d) \<Longrightarrow>
      m3 \<noteq> [] \<and> (\<exists>r3 c d. xx_message nl i2 r2 p3 i3 r3 m3 (Some c) (Some d) \<and> nl_PeerStatic nl r3 = pub_a \<and>
      nl_ChannelBinding nl r3 = nl_ChannelBinding nl i3 \<and> length (nl_ChannelBinding nl i3) = 64)"
    by (auto simp: xx_message_def)
  show ?thesis using p1 p2 third' [OF assms(8)] assms(8) by (auto simp: xx_message_def)
qed

text \<open>The documented behaviour of the codecs: a message is decoded from its encoding, which is not empty.\<close>

definition pairing_codec_ok :: "pairing_codec \<Rightarrow> bool" where
  "pairing_codec_ok pc \<longleftrightarrow>
     (\<forall>sd b. marshal_initiator pc sd = Some b \<longrightarrow> b \<noteq> [] \<and> unmarshal_initiator pc b = Some (Some sd)) \<and>
     (\<forall>sd b. marshal_responder pc sd = Some b \<longrightarrow> b \<noteq> [] \<and> unmarshal_responder pc b = Some (Some sd)) \<and>
     (\<forall>i b. i \<noteq> [] \<and> marshal_finish pc i = Some b \<longrightarrow> b \<noteq> [] \<and> unmarshal_finish pc b = Some i)"

lemma NewPairingInitiator_cases:
  assumes "NewPairingInitiator cr nl pc config = Inr i"
  obtains ctx client agent prologue h where "ic_Context config = Some ctx" "ic_Client config = Some client"
    "ic_Agent config = Some agent" "validatePairingContext (Some ctx) = None" "pairingPrologue pc ctx = Inr prologue"
    "nl_New nl (xx_config True prologue (ic_BootstrapSecret config) (ic_StaticPrivateKey config)
       (dd_KeyAgreementPublicKey (descriptor_of client)) (ic_Random config)) = Some h"
    "i = \<lparr>in_handshake = Some h, in_context = ctx, in_client = client, in_agent = agent,
       in_private = ic_StaticPrivateKey config, in_state = initiatorReady\<rparr>"
proof -
  have some: "\<exists>x. o' = Some x" if "errDescriptor cr o' = None" for o'
    using that by (cases o') (auto simp: errDescriptor_def VerifySignedDescriptor_def)
  have key: "k = ic_StaticPrivateKey config" if "checkedStaticKey cr (ic_StaticPrivateKey config) p = Inr k" for k p
    using that by (auto simp: checkedStaticKey_def split: if_splits option.splits)
  have ctx: "\<exists>c. ic_Context config = Some c" if "validatePairingContext (ic_Context config) = None"
    using that by (cases "ic_Context config") (auto simp: validatePairingContext_def)
  show thesis
    using assms some [of "ic_Client config"] some [of "ic_Agent config"] ctx
    by (auto simp: NewPairingInitiator_def validatePairingConfig_def Let_def dest!: key intro!: that
        split: option.splits if_splits sum.splits)
qed

lemma in_Start_cases:
  assumes "in_Start nl pc i = (i', Inr start)"
  obtains h p1 h' m1 c d where "in_handshake i = Some h" "marshalDeterministic (marshal_initiator pc) (in_client i) = Inr p1"
    "nl_WriteMessage nl h p1 = Some (h', m1, c, d)" "length m1 \<le> maxNoiseMessageBytes"
    "i' = i\<lparr>in_handshake := Some h', in_state := initiatorAwaitingResponse\<rparr>"
    "start = \<lparr>hs_Context = Some (in_context i), hs_NoiseMessage = m1\<rparr>"
  using assms by (auto simp: in_Start_def intro!: that split: option.splits if_splits sum.splits prod.splits)

lemma in_Finish_cases:
  assumes "in_Finish cr nl pc (Some m2) i = (i', Inr (result, m3))"
  obtains h h' p2 p3 h'' c d where "in_handshake i = Some h" "nl_ReadMessage nl h m2 = Some (h', p2, None, None)"
    "nl_PeerStatic nl h' = dd_KeyAgreementPublicKey (descriptor_of (in_agent i))"
    "unmarshalBounded (unmarshal_responder pc) p2 = Some (Some (in_agent i))"
    "marshalDeterministic (marshal_finish pc) (hc_InitiatorDeviceId (in_context i)) = Inr p3"
    "nl_WriteMessage nl h' p3 = Some (h'', m3, Some c, Some d)" "length m3 \<le> maxNoiseMessageBytes"
    "result = \<lparr>rs_Peer = in_agent i, rs_SAS = pairingSAS cr (nl_ChannelBinding nl h''),
       rs_HandshakeHash = nl_ChannelBinding nl h'', rs_Transport = newTransport (Some c) (Some d)\<rparr>"
  using assms
  by (auto simp: in_Finish_def in_finish_reply_def pairingResult_def intro!: that
      split: option.splits if_splits sum.splits prod.splits)

lemma marshal_bounded:
  assumes "marshalDeterministic f x = Inr b"
  shows "f x = Some b" "length b \<le> maxNoiseMessageBytes"
  using assms by (auto simp: marshalDeterministic_def split: option.splits if_splits)

lemma re_Finish_ok:
  assumes "re_handshake r = Some h" "re_state r = responderAwaitingFinish" "m3 \<noteq> []" "length m3 \<le> maxNoiseMessageBytes"
    and "nl_ReadMessage nl h m3 = Some (h', p3, Some c, Some d)"
    and "nl_PeerStatic nl h' = dd_KeyAgreementPublicKey (descriptor_of (re_client r))"
    and "unmarshalBounded (unmarshal_finish pc) p3 = Some (hc_InitiatorDeviceId (re_context r))"
    and "length (nl_ChannelBinding nl h') = 64"
  shows "\<exists>r'. re_Finish cr nl pc (Some m3) r = (r', Inr \<lparr>rs_Peer = re_client r,
    rs_SAS = pairingSAS cr (nl_ChannelBinding nl h'), rs_HandshakeHash = nl_ChannelBinding nl h',
    rs_Transport = newTransport (Some d) (Some c)\<rparr>)"
  using assms by (simp add: re_Finish_def pairingResult_def)

text \<open>
  Both sides of a pairing agree. Let the initiator's first message reach a responder that holds the
  same bootstrap secret and that accepts it, let the response reach the initiator, and let the
  initiator finish. Then the responder, given the third message, finishes too; both show the same
  verification string and hold the same transcript hash; each reports the other's descriptor; and
  what one sends with is what the other receives with.
\<close>

theorem pairing_handshake_agrees:
  assumes "noise_xx_ok nl" "pairing_codec_ok pc"
    and "NewPairingInitiator cr nl pc iconfig = Inr i0" "in_Start nl pc i0 = (i1, Inr start)"
    and "AcceptPairingStart cr nl pc rconfig (Some start) = Inr (r, m2, peer)"
    and "rc_BootstrapSecret rconfig = ic_BootstrapSecret iconfig"
    and "in_Finish cr nl pc (Some m2) i1 = (i2, Inr (ires, m3))"
  shows "\<exists>r' rres. re_Finish cr nl pc (Some m3) r = (r', Inr rres) \<and> rs_SAS rres = rs_SAS ires \<and>
    rs_HandshakeHash rres = rs_HandshakeHash ires \<and> Some (rs_Peer rres) = ic_Client iconfig \<and>
    Some (rs_Peer ires) = rc_Agent rconfig \<and> tr_send (rs_Transport ires) = tr_receive (rs_Transport rres) \<and>
    tr_receive (rs_Transport ires) = tr_send (rs_Transport rres)"
proof -
  obtain ctx client agent prologue ih0 where I: "ic_Client iconfig = Some client" "validatePairingContext (Some ctx) = None"
    "pairingPrologue pc ctx = Inr prologue"
    "nl_New nl (xx_config True prologue (ic_BootstrapSecret iconfig) (ic_StaticPrivateKey iconfig)
       (dd_KeyAgreementPublicKey (descriptor_of client)) (ic_Random iconfig)) = Some ih0"
    "i0 = \<lparr>in_handshake = Some ih0, in_context = ctx, in_client = client, in_agent = agent,
       in_private = ic_StaticPrivateKey iconfig, in_state = initiatorReady\<rparr>"
    by (rule NewPairingInitiator_cases [OF assms(3)])
  obtain p1 ih1 m1 c1 d1 where S: "marshalDeterministic (marshal_initiator pc) client = Inr p1"
    "nl_WriteMessage nl ih0 p1 = Some (ih1, m1, c1, d1)"
    "i1 = i0\<lparr>in_handshake := Some ih1, in_state := initiatorAwaitingResponse\<rparr>"
    "start = \<lparr>hs_Context = Some ctx, hs_NoiseMessage = m1\<rparr>"
    using in_Start_cases [OF assms(4)] I(5) by (metis PairingInitiator.select_convs(1-3) option.inject)
  obtain agent' rh0 rh1 rh2 p1' p2 where R: "rc_Agent rconfig = Some agent'"
    "nl_New nl (xx_config False prologue (ic_BootstrapSecret iconfig) (rc_StaticPrivateKey rconfig)
       (dd_KeyAgreementPublicKey (descriptor_of agent')) (rc_Random rconfig)) = Some rh0"
    "nl_ReadMessage nl rh0 m1 = Some (rh1, p1', None, None)"
    "unmarshalBounded (unmarshal_initiator pc) p1' = Some (Some peer)"
    "marshalDeterministic (marshal_responder pc) agent' = Inr p2" "nl_WriteMessage nl rh1 p2 = Some (rh2, m2, None, None)"
    "r = \<lparr>re_handshake = Some rh2, re_context = ctx, re_client = peer, re_private = rc_StaticPrivateKey rconfig,
       re_state = responderAwaitingFinish\<rparr>"
    by (rule AcceptPairingStart_cases [OF assms(5)]) (use S(4) I(3) assms(6) in auto)
  obtain ih2 p2' p3 ih3 c d where F: "nl_ReadMessage nl ih1 m2 = Some (ih2, p2', None, None)"
    "unmarshalBounded (unmarshal_responder pc) p2' = Some (Some agent)"
    "marshalDeterministic (marshal_finish pc) (hc_InitiatorDeviceId ctx) = Inr p3"
    "nl_WriteMessage nl ih2 p3 = Some (ih3, m3, Some c, Some d)" "length m3 \<le> maxNoiseMessageBytes"
    "ires = \<lparr>rs_Peer = agent, rs_SAS = pairingSAS cr (nl_ChannelBinding nl ih3),
       rs_HandshakeHash = nl_ChannelBinding nl ih3, rs_Transport = newTransport (Some c) (Some d)\<rparr>"
    by (rule in_Finish_cases [OF assms(7)]) (use S(3) I(5) in auto)
  obtain rh3 where X: "p1' = p1" "p2' = p2" "m3 \<noteq> []" "nl_ReadMessage nl rh2 m3 = Some (rh3, p3, Some c, Some d)"
    "nl_PeerStatic nl rh3 = dd_KeyAgreementPublicKey (descriptor_of client)"
    "nl_ChannelBinding nl rh3 = nl_ChannelBinding nl ih3" "length (nl_ChannelBinding nl ih3) = 64"
    using noise_xx_run [OF assms(1) I(4) R(2) S(2) R(3) R(6) F(1) F(4)] by blast
  have peer: "peer = client" "agent = agent'"
    using assms(2) marshal_bounded [OF S(1)] marshal_bounded [OF R(5)] R(4) F(2) X(1,2)
    by (auto simp: pairing_codec_ok_def unmarshalBounded_def split: if_splits)
  have "hc_InitiatorDeviceId ctx \<noteq> []"
    using I(2) by (auto simp: validatePairingContext_def split: if_splits)
  then have fin: "unmarshalBounded (unmarshal_finish pc) p3 = Some (hc_InitiatorDeviceId (re_context r))"
    using assms(2) marshal_bounded [OF F(3)] R(7) by (auto simp: pairing_codec_ok_def unmarshalBounded_def)
  obtain r' where "re_Finish cr nl pc (Some m3) r = (r', Inr \<lparr>rs_Peer = re_client r,
      rs_SAS = pairingSAS cr (nl_ChannelBinding nl rh3), rs_HandshakeHash = nl_ChannelBinding nl rh3,
      rs_Transport = newTransport (Some d) (Some c)\<rparr>)"
    using re_Finish_ok [OF _ _ X(3) F(5) X(4) _ fin] R(7) X(5-7) peer(1) by auto
  then show ?thesis using F(6) X(6) R(1,7) I(1) peer by (auto simp: newTransport_def)
qed

section \<open>Sessions\<close>

lemma AcceptSessionStart_cases:
  assumes "AcceptSessionStart cr nl sc config start = Inr (r, message, peer)"
  obtains st ctx store a payload h where "start = Some st" "hs_Context st = Some ctx" "sg_Authorizer config = Some store"
    "AuthorizedDevice_of cr (hc_InitiatorDeviceId ctx) store = Inr a" "av_State a \<noteq> STATE_REVOKED"
    "validatePeerDescriptor cr peer DEVICE_CLASS_CLIENT (hc_InitiatorDeviceId ctx) (hc_ProtocolVersion ctx) = None"
    "session_client_ok payload peer a (ds_RevocationEpoch store)"
    "sp_handshake r = Some h" "sp_client r = peer" "sp_authorized r = a" "sp_state r = sessionResponderComplete"
  using assms
  by (auto simp: AcceptSessionStart_def accept_session_noise_def Let_def intro!: that
      split: option.splits if_splits sum.splits prod.splits)

text \<open>
  C15. A session is for an authorized client. When the agent accepts the start of a session, its store,
  if it is valid, holds an authorization of the device named in the context, which is not
  revoked; the client's descriptor carries a valid signature, has that ID, the signing key and
  the key-agreement key of the authorized descriptor, and a key version that is not older; and the
  view of the session names that client and its authorization version.
\<close>

theorem session_peer_authorized:
  assumes "AcceptSessionStart cr nl sc config start = Inr (r, message, peer)"
    and "sg_Authorizer config = Some store" "validateState cr (st_state store) = None"
  shows "\<exists>st ctx a view. start = Some st \<and> hs_Context st = Some ctx \<and>
    AuthorizedDevice_of cr (hc_InitiatorDeviceId ctx) store = Inr a \<and> av_State a = STATE_AUTHORIZED \<and>
    VerifySignedDescriptor cr (Some peer) = None \<and> dd_DeviceId (descriptor_of peer) = hc_InitiatorDeviceId ctx \<and>
    dd_SigningPublicKey (descriptor_of peer) = dd_SigningPublicKey (descriptor_of (av_Device a)) \<and>
    dd_KeyAgreementPublicKey (descriptor_of peer) = dd_KeyAgreementPublicKey (descriptor_of (av_Device a)) \<and>
    dd_KeyVersion (descriptor_of (av_Device a)) \<le> dd_KeyVersion (descriptor_of peer) \<and>
    sp_View nl r = Inr view \<and> sr_Peer view = peer \<and> sr_AuthorizationVersion view = av_AuthorizationVersion a"
proof (rule AcceptSessionStart_cases [OF assms(1)])
  fix st ctx store' a payload h
  assume s: "start = Some st" "hs_Context st = Some ctx" "sg_Authorizer config = Some store'"
    and a: "AuthorizedDevice_of cr (hc_InitiatorDeviceId ctx) store' = Inr a" "av_State a \<noteq> STATE_REVOKED"
    and v: "validatePeerDescriptor cr peer DEVICE_CLASS_CLIENT (hc_InitiatorDeviceId ctx) (hc_ProtocolVersion ctx) = None"
    and c: "session_client_ok payload peer a (ds_RevocationEpoch store')"
    and r: "sp_handshake r = Some h" "sp_client r = peer" "sp_authorized r = a" "sp_state r = sessionResponderComplete"
  have "av_State a \<in> {STATE_AUTHORIZED, STATE_REVOKED}"
    using valid_device_state [of cr store "hc_InitiatorDeviceId ctx" a] assms(2,3) s(3) a(1) by (simp add: valid_def)
  then have "av_State a = STATE_AUTHORIZED" using a(2) by simp
  moreover have "VerifySignedDescriptor cr (Some peer) = None" "dd_DeviceId (descriptor_of peer) = hc_InitiatorDeviceId ctx"
    using v by (auto simp: validatePeerDescriptor_def errDescriptor_def split: option.splits if_splits)
  ultimately show ?thesis
    using s a(1) c r assms(2) by (auto simp: session_client_ok_def Let_def sp_View_def not_less)
qed

text \<open>
  The static key that the Noise transcript of a session authenticates is never compared with the
  client's descriptor: whatever key the library reports, the outcome is the same. Whoever knows
  the signed descriptor of an authorized client can thus start a session in its name.
\<close>

lemma session_ignores_peer_static:
  "AcceptSessionStart cr (nl\<lparr>nl_PeerStatic := f\<rparr>) sc config start = AcceptSessionStart cr nl sc config start"
  "sp_View (nl\<lparr>nl_PeerStatic := f\<rparr>) r = sp_View nl r"
  by (cases nl; simp only: AcceptSessionStart_def accept_session_noise_def sp_View_def noise_lib.simps)+

section \<open>Transport\<close>

definition encrypts :: "('h, 'c) noise_lib \<Rightarrow> 'c Transport \<Rightarrow> bytes \<times> bytes \<Rightarrow> 'c Transport \<times> (transport_error + bytes)" where
  "encrypts nl t m = tr_Encrypt nl (fst m) (snd m) t"

definition decrypts :: "('h, 'c) noise_lib \<Rightarrow> 'c Transport \<Rightarrow> bytes \<times> bytes \<Rightarrow> 'c Transport \<times> (transport_error + bytes)" where
  "decrypts nl t m = tr_Decrypt nl (fst m) (snd m) t"

text \<open>The documented behaviour of a cipher state: the peer in the same state decrypts what was
  encrypted and both advance alike; a ciphertext is 16 bytes longer.\<close>

definition cipher_ok :: "('h, 'c) noise_lib \<Rightarrow> bool" where
  "cipher_ok nl \<longleftrightarrow> (\<forall>c ad p c' ct. nl_Encrypt nl c ad p = Some (c', ct) \<longrightarrow>
     nl_Decrypt nl c ad ct = Some (c', p) \<and> length ct = length p + 16)"

definition is_open :: "'c Transport \<Rightarrow> bool" where
  "is_open t \<longleftrightarrow> tr_send t \<noteq> None \<and> tr_receive t \<noteq> None"

text \<open>The first refused frame closes the transport.\<close>

interpretation closing: step_machine "decrypts nl" "\<lambda>t. \<not> is_open t" "\<lambda>_. True" for nl
  by unfold_locales (auto simp: decrypts_def tr_Decrypt_def is_open_def tr_closed_def split: option.splits)

lemma closed_refuses: "\<not> is_open t \<Longrightarrow> \<exists>e. snd (decrypts nl t m) = Inl e"
  by (auto simp: decrypts_def tr_Decrypt_def is_open_def split: option.splits)

lemma refusal_closes: "snd (decrypts nl t m) = Inl e \<Longrightarrow> \<not> is_open (fst (decrypts nl t m))"
  by (auto simp: decrypts_def tr_Decrypt_def is_open_def tr_closed_def split: option.splits if_splits prod.splits)

lemma refused_after:
  assumes "i < j" "j < length fs" "snd (run (decrypts nl) t fs) ! i = Inl e"
  shows "\<exists>e'. snd (run (decrypts nl) t fs) ! j = Inl e'"
proof -
  let ?s = "\<lambda>k. fst (run (decrypts nl) t (take k fs))"
  let ?rest = "drop (Suc i) (take j fs)"
  have "\<not> is_open (?s (Suc i))"
    using refusal_closes [of nl "?s i" "fs ! i" e] assms by (simp add: fst_run_take_Suc snd_run_nth)
  then have "\<not> is_open (fst (run (decrypts nl) (?s (Suc i)) ?rest))"
    by (rule closing.run_inv) (simp add: list_all_iff)
  moreover have "take j fs = take (Suc i) fs @ ?rest"
    using assms(1) by (metis Suc_leI append_take_drop_id min.absorb1 take_take)
  ultimately have "\<not> is_open (?s j)" by (metis fst_run_append)
  then show ?thesis using closed_refuses [of "?s j" nl "fs ! j"] assms(2) by (simp add: snd_run_nth)
qed

lemma delivered:
  assumes "cipher_ok nl" "is_open b" "tr_send a = tr_receive b"
    and "snd (run (encrypts nl) a ms) = map Inr cts"
  shows "snd (run (decrypts nl) b (zip cts (map snd ms))) = map (Inr \<circ> fst) ms"
  using assms(2-4)
proof (induction ms arbitrary: a b cts)
  case (Cons m ms)
  obtain ct cts' where cts: "cts = ct # cts'" using Cons.prems(3) by (cases cts) auto
  then have enc: "snd (encrypts nl a m) = Inr ct" "snd (run (encrypts nl) (fst (encrypts nl a m)) ms) = map Inr cts'"
    using Cons.prems(3) by auto
  then obtain c r c' where c: "tr_send a = Some c" "tr_receive a = Some r" "length (fst m) \<le> maxTransportPlaintextBytes"
    "nl_Encrypt nl c (snd m) (fst m) = Some (c', ct)" "fst (encrypts nl a m) = a\<lparr>tr_send := Some c'\<rparr>"
    by (auto simp: encrypts_def tr_Encrypt_def split: option.splits if_splits prod.splits)
  then have ct: "nl_Decrypt nl c (snd m) ct = Some (c', fst m)" "length ct = length (fst m) + 16"
    using assms(1) by (auto simp: cipher_ok_def)
  then have dec: "decrypts nl b (ct, snd m) = (b\<lparr>tr_receive := Some c'\<rparr>, Inr (fst m))"
    using Cons.prems(1,2) c(1,3)
    by (auto simp: decrypts_def tr_Decrypt_def is_open_def maxTransportPlaintextBytes_def maxNoiseMessageBytes_def
        split: option.splits)
  show ?case
    using Cons.IH [OF _ _ enc(2), of "b\<lparr>tr_receive := Some c'\<rparr>"] Cons.prems(1) c(5) dec cts
    by (simp add: is_open_def)
qed simp

text \<open>
  C28. The transport delivers in order and stops at the first forgery. If one side encrypts messages and
  the other side's receiving state is the sender's sending state, then a receiver that is handed
  the frames in order returns exactly the messages, for as long as the frames are those; and once
  it refuses a frame it refuses every later one.
\<close>

theorem transport_in_order:
  assumes "cipher_ok nl" "is_open b" "tr_send a = tr_receive b"
    and "snd (run (encrypts nl) a ms) = map Inr cts"
    and "k \<le> length cts" "take k frames = take k (zip cts (map snd ms))"
  shows "take k (snd (run (decrypts nl) b frames)) = map (Inr \<circ> fst) (take k ms) \<and>
    (\<forall>i j e. i < j \<and> j < length frames \<and> snd (run (decrypts nl) b frames) ! i = Inl e \<longrightarrow>
       (\<exists>e'. snd (run (decrypts nl) b frames) ! j = Inl e'))"
proof -
  have "take k (snd (run (decrypts nl) b frames)) = take k (snd (run (decrypts nl) b (zip cts (map snd ms))))"
    using assms(6) by (simp only: flip: snd_run_take)
  then show ?thesis using delivered [OF assms(1-4)] refused_after by (auto simp: take_map)
qed

section \<open>A sample library\<close>

text \<open>
  A toy Noise library: a handshake state holds the own and the peer's public key, the number of
  messages so far and the number of the last one; a message is the public key and the payload; a
  cipher state is a counter. It meets the laws above, for keys of 32 bytes.
\<close>

type_synonym toy_state = "bytes \<times> bytes \<times> nat \<times> nat"

definition toy_ciphers :: "nat \<Rightarrow> nat \<Rightarrow> nat option \<times> nat option" where
  "toy_ciphers n k = (if n = k then (Some 0, Some 100) else (None, None))"

definition sample_noise :: "(toy_state, nat) noise_lib" where
  "sample_noise = \<lparr>nl_New = (\<lambda>config. if length (nc_Public config) = 32
       then Some (nc_Public config, [], 0, if nc_Pattern config = HandshakeXX then 2 else 1) else None),
     nl_WriteMessage = (\<lambda>(pub, peer, n, k) p. Some ((pub, peer, Suc n, k), pub @ p, toy_ciphers n k)),
     nl_ReadMessage = (\<lambda>(pub, peer, n, k) m. Some ((pub, take 32 m, Suc n, k), drop 32 m, toy_ciphers n k)),
     nl_PeerStatic = (\<lambda>(pub, peer, n, k). peer), nl_ChannelBinding = (\<lambda>_. replicate 64 0),
     nl_Encrypt = (\<lambda>c ad p. Some (Suc c, p @ replicate 16 0)),
     nl_Decrypt = (\<lambda>c ad ct. Some (Suc c, take (length ct - 16) ct)), nl_Nonce = of_nat\<rparr>"

lemma sample_noise_ok: "noise_xx_ok sample_noise" "cipher_ok sample_noise"
  by (auto simp: noise_xx_ok_def cipher_ok_def sample_noise_def xx_message_def xx_config_def toy_ciphers_def split: if_splits)

definition sample_pairing_codec :: pairing_codec where
  "sample_pairing_codec = \<lparr>marshal_context = (\<lambda>_. Some [1]),
     marshal_initiator = (\<lambda>sd. if sd = sample_device 5 then Some [1] else None),
     unmarshal_initiator = (\<lambda>_. Some (Some (sample_device 5))),
     marshal_responder = (\<lambda>sd. if sd = sample_agent then Some [2] else None),
     unmarshal_responder = (\<lambda>_. Some (Some sample_agent)),
     marshal_finish = (\<lambda>i. if i = replicate 16 5 then Some [3] else None),
     unmarshal_finish = (\<lambda>_. Some (replicate 16 5))\<rparr>"

lemma sample_pairing_codec_ok: "pairing_codec_ok sample_pairing_codec"
  by (auto simp: pairing_codec_ok_def sample_pairing_codec_def split: if_splits)

definition sample_context :: HandshakeContext where
  "sample_context = \<lparr>hc_SchemaVersion = 1, hc_ProtocolVersion = Some \<lparr>v_Major = 1, v_Minor = 0\<rparr>,
     hc_InitiatorDeviceId = replicate 16 5, hc_ResponderDeviceId = replicate 16 9, hc_RelayTicketHash = replicate 32 0,
     hc_Intent = 1, hc_InvitationId = replicate 16 1\<rparr>"

lemma sample_descriptors [simp]:
  "dd_DeviceId (descriptor_of (sample_device 5)) = replicate 16 5" "dd_DeviceId (descriptor_of sample_agent) = replicate 16 9"
  "dd_DeviceClass (descriptor_of (sample_device 5)) = 2" "dd_DeviceClass (descriptor_of sample_agent) = 1"
  "dd_KeyAgreementPublicKey (descriptor_of (sample_device 5)) = replicate 32 5"
  "dd_KeyAgreementPublicKey (descriptor_of sample_agent) = replicate 32 9"
  "descriptorSupportsVersion (Some (sample_device 5)) (Some \<lparr>v_Major = 1, v_Minor = 0\<rparr>)"
  "descriptorSupportsVersion (Some sample_agent) (Some \<lparr>v_Major = 1, v_Minor = 0\<rparr>)"
  by (simp_all add: descriptor_of_def sample_agent_def sample_device_def descriptorSupportsVersion_def)

lemma sample_signed [simp]:
  "errDescriptor sample_device_crypto (Some (sample_device 5)) = None"
  "errDescriptor sample_device_crypto (Some sample_agent) = None"
  by (simp_all add: errDescriptor_def sample_device_verified sample_agent_ok)

definition sample_initiator_config :: PairingInitiatorConfig where
  "sample_initiator_config = \<lparr>ic_Context = Some sample_context, ic_Client = Some (sample_device 5),
     ic_Agent = Some sample_agent, ic_StaticPrivateKey = replicate 32 5, ic_BootstrapSecret = replicate 32 2, ic_Random = []\<rparr>"

definition sample_responder_config :: PairingResponderConfig where
  "sample_responder_config = \<lparr>rc_ExpectedContext = Some sample_context, rc_Agent = Some sample_agent,
     rc_StaticPrivateKey = replicate 32 9, rc_BootstrapSecret = replicate 32 2, rc_Random = []\<rparr>"

definition sample_start :: PairingHandshakeStart where
  "sample_start = \<lparr>hs_Context = Some sample_context, hs_NoiseMessage = replicate 32 5 @ [1]\<rparr>"

definition sample_responder :: "toy_state PairingResponder" where
  "sample_responder = \<lparr>re_handshake = Some (replicate 32 9, replicate 32 5, 2, 2), re_context = sample_context,
     re_client = sample_device 5, re_private = replicate 32 9, re_state = responderAwaitingFinish\<rparr>"

lemmas handshake_checks = validatePairingContext_def checkedStaticKey_def pairingPrologue_def marshalDeterministic_def
  unmarshalBounded_def validatePeerDescriptor_def maxNoiseMessageBytes_def xx_config_def toy_ciphers_def

lemma sample_accept:
  "AcceptPairingStart sample_device_crypto sample_noise sample_pairing_codec sample_responder_config (Some sample_start) =
     Inr (sample_responder, replicate 32 9 @ [2], sample_device 5)"
  by (simp add: AcceptPairingStart_def accept_noise_def sample_start_def sample_responder_config_def sample_context_def
      sample_responder_def handshake_checks sample_pairing_codec_def sample_noise_def Let_def)

lemma sample_finish:
  "\<exists>r' result. re_Finish sample_device_crypto sample_noise sample_pairing_codec (Some (replicate 32 5 @ [3])) sample_responder = (r', Inr result)"
  by (simp add: re_Finish_def pairingResult_def sample_responder_def sample_context_def handshake_checks
      sample_pairing_codec_def sample_noise_def Let_def)

theorem pairing_peer_authenticated_witness:
  "\<exists>r' result. re_Finish sample_device_crypto sample_noise sample_pairing_codec (Some (replicate 32 5 @ [3])) sample_responder =
     (r', Inr result) \<and> rs_Peer result = sample_device 5 \<and> rs_HandshakeHash result = replicate 64 0"
proof -
  obtain r' result where f: "re_Finish sample_device_crypto sample_noise sample_pairing_codec
      (Some (replicate 32 5 @ [3])) sample_responder = (r', Inr result)"
    using sample_finish by blast
  from pairing_peer_authenticated [OF sample_accept f] show ?thesis
    using f by (auto simp: sample_noise_def)
qed

lemma sample_initiator:
  "\<exists>i0 i1 i2 ires. NewPairingInitiator sample_device_crypto sample_noise sample_pairing_codec sample_initiator_config = Inr i0 \<and>
     in_Start sample_noise sample_pairing_codec i0 = (i1, Inr sample_start) \<and>
     in_Finish sample_device_crypto sample_noise sample_pairing_codec (Some (replicate 32 9 @ [2])) i1 =
       (i2, Inr (ires, replicate 32 5 @ [3]))"
  by (simp add: NewPairingInitiator_def validatePairingConfig_def in_Start_def in_Finish_def in_finish_reply_def
      pairingResult_def sample_initiator_config_def sample_context_def sample_start_def handshake_checks
      sample_pairing_codec_def sample_noise_def Let_def)

theorem pairing_handshake_agrees_witness:
  "\<exists>i0 i1 i2 ires rres r'. NewPairingInitiator sample_device_crypto sample_noise sample_pairing_codec sample_initiator_config = Inr i0 \<and>
     in_Start sample_noise sample_pairing_codec i0 = (i1, Inr sample_start) \<and>
     in_Finish sample_device_crypto sample_noise sample_pairing_codec (Some (replicate 32 9 @ [2])) i1 =
       (i2, Inr (ires, replicate 32 5 @ [3])) \<and>
     re_Finish sample_device_crypto sample_noise sample_pairing_codec (Some (replicate 32 5 @ [3])) sample_responder =
       (r', Inr rres) \<and> rs_SAS rres = rs_SAS ires"
proof -
  obtain i0 i1 i2 ires where i: "NewPairingInitiator sample_device_crypto sample_noise sample_pairing_codec sample_initiator_config = Inr i0"
    "in_Start sample_noise sample_pairing_codec i0 = (i1, Inr sample_start)"
    "in_Finish sample_device_crypto sample_noise sample_pairing_codec (Some (replicate 32 9 @ [2])) i1 =
       (i2, Inr (ires, replicate 32 5 @ [3]))"
    using sample_initiator by blast
  have "rc_BootstrapSecret sample_responder_config = ic_BootstrapSecret sample_initiator_config"
    by (simp add: sample_responder_config_def sample_initiator_config_def)
  from pairing_handshake_agrees [OF sample_noise_ok(1) sample_pairing_codec_ok i(1,2) sample_accept this i(3)] i
  show ?thesis by blast
qed

definition sample_session_codec :: session_codec where
  "sample_session_codec = \<lparr>sc_context = (\<lambda>_. Some [1]), sc_initiator = (\<lambda>_. Some [1]),
     sc_parse_initiator = (\<lambda>_. Some \<lparr>ip_Client = Some (sample_device 5), ip_KnownRevocationEpoch = 0, ip_Capabilities = []\<rparr>),
     sc_responder = (\<lambda>_. Some [2]), sc_parse_responder = (\<lambda>_. Some \<lparr>rp_Agent = Some sample_agent, rp_RevocationEpoch = 0\<rparr>)\<rparr>"

definition sample_session_start :: PairingHandshakeStart where
  "sample_session_start = \<lparr>hs_Context = Some (sample_context\<lparr>hc_Intent := 2, hc_InvitationId := []\<rparr>),
     hs_NoiseMessage = replicate 32 5 @ [1]\<rparr>"

definition sample_session_config :: SessionResponderConfig where
  "sample_session_config = \<lparr>sg_Authorizer = Some (sample_store 1), sg_Agent = Some sample_agent,
     sg_StaticPrivateKey = replicate 32 9, sg_Random = []\<rparr>"

lemma sample_session_accept:
  "\<exists>r m. AcceptSessionStart sample_device_crypto sample_noise sample_session_codec sample_session_config
     (Some sample_session_start) = Inr (r, m, sample_device 5)"
proof -
  obtain a where a: "AuthorizedDevice_of sample_device_crypto (replicate 16 5) (sample_store 1) = Inr a" "av_State a = 1"
    "av_Device a = sample_device 5"
    using sample_find(2) by (simp add: AuthorizedDevice_of_def sample_updates)
  have d: "sd_DeviceDescriptor (sample_device 5) \<noteq> None" by (simp add: sample_device_def)
  show ?thesis
    by (simp add: AcceptSessionStart_def accept_session_noise_def a d sample_session_start_def sample_session_config_def
        sample_context_def sample_session_codec_def validateSessionContext_def sessionPrologue_def
        marshalSessionDeterministic_def unmarshalSessionBounded_def session_client_ok_def ik_config_def
        handshake_checks sample_noise_def Let_def)
qed

theorem session_peer_authorized_witness:
  "\<exists>a. AuthorizedDevice_of sample_device_crypto (replicate 16 5) (sample_store 1) = Inr a \<and> av_State a = STATE_AUTHORIZED"
proof -
  obtain r m where acc: "AcceptSessionStart sample_device_crypto sample_noise sample_session_codec sample_session_config
      (Some sample_session_start) = Inr (r, m, sample_device 5)"
    using sample_session_accept by blast
  have store: "sg_Authorizer sample_session_config = Some (sample_store 1)" by (simp add: sample_session_config_def)
  have "validateState sample_device_crypto (st_state (sample_store 1)) = None"
    using sample_state_valid [of 1] by (simp add: sample_updates)
  from session_peer_authorized [OF acc store this] show ?thesis
    by (auto simp: sample_session_start_def sample_context_def)
qed

theorem transport_in_order_witness:
  "snd (run (decrypts sample_noise) (newTransport (Some 100) (Some 0))
     [([1] @ replicate 16 0, []), ([], []), ([2] @ replicate 16 0, [])]) ! 0 = Inr [1] \<and>
   (\<exists>e. snd (run (decrypts sample_noise) (newTransport (Some 100) (Some 0))
     [([1] @ replicate 16 0, []), ([], []), ([2] @ replicate 16 0, [])]) ! 2 = Inl e)"
proof -
  let ?b = "newTransport (Some 100) (Some 0) :: nat Transport" and ?a = "newTransport (Some 0) (Some 100) :: nat Transport"
  let ?f = "[([1 :: byte] @ replicate 16 0, []), ([], [] :: bytes), ([2] @ replicate 16 0, [])]"
  have o: "is_open ?b" "tr_send ?a = tr_receive ?b" by (simp_all add: is_open_def newTransport_def)
  have enc: "snd (run (encrypts sample_noise) ?a [([1], []), ([2], [])]) = map Inr [[1] @ replicate 16 0, [2] @ replicate 16 0]"
    by (simp add: encrypts_def tr_Encrypt_def newTransport_def sample_noise_def maxTransportPlaintextBytes_def maxNoiseMessageBytes_def)
  have bad: "snd (run (decrypts sample_noise) ?b ?f) ! 1 = Inl CiphertextSize"
    by (simp add: decrypts_def tr_Decrypt_def newTransport_def sample_noise_def maxNoiseMessageBytes_def)
  have ord: "take 1 (snd (run (decrypts sample_noise) ?b ?f)) = [Inr [1]]"
    "\<forall>i j e. i < j \<and> j < length ?f \<and> snd (run (decrypts sample_noise) ?b ?f) ! i = Inl e \<longrightarrow>
       (\<exists>e'. snd (run (decrypts sample_noise) ?b ?f) ! j = Inl e')"
  proof -
    have "1 \<le> length [[1 :: byte] @ replicate 16 0, [2] @ replicate 16 0]"
      "take 1 ?f = take 1 (zip [[1] @ replicate 16 0, [2] @ replicate 16 0] (map snd [([1 :: byte], []), ([2], [])]))"
      by simp_all
    note order = transport_in_order [OF sample_noise_ok(2) o enc this]
    show "take 1 (snd (run (decrypts sample_noise) ?b ?f)) = [Inr [1]]" using conjunct1 [OF order] by simp
    show "\<forall>i j e. i < j \<and> j < length ?f \<and> snd (run (decrypts sample_noise) ?b ?f) ! i = Inl e \<longrightarrow>
        (\<exists>e'. snd (run (decrypts sample_noise) ?b ?f) ! j = Inl e')"
      by (rule conjunct2 [OF order])
  qed
  have "\<exists>e. snd (run (decrypts sample_noise) ?b ?f) ! 2 = Inl e"
    by (rule ord(2) [rule_format, of 1 2]) (use bad in simp)
  moreover have "snd (run (decrypts sample_noise) ?b ?f) ! 0 = Inr [1]"
    using ord(1) by (metis length_Cons length_run nth_Cons_0 nth_take zero_less_one)
  ultimately show ?thesis by blast
qed

end
