(* ===== verification/Pairing_Flow.thy ===== *)
theory Pairing_Flow
  imports E2EE_Pairing
begin

text \<open>
  The pairing flow coordinator (\<^verbatim>\<open>src/internal/pairingflow/coordinator.go\<close>): it joins the invitation
  manager, the handshake responder and the device store, and keeps the one flow that waits for the
  local user's decision. Its state contains theirs, and the file of the device store. A flow's
  decision channel, which has room for one decision, outlives the flow; channels are numbered by
  the flow's reservation. The clock is read several times in a call, by the coordinator, the manager
  and the store; the readings are an argument.
\<close>

section \<open>State\<close>

datatype flow_error =
    ErrInvalidFlow
  | ErrFlowInProgress
  | ErrFlowUnavailable
  | ErrFlowState
  | ErrFlowExpired
  | ErrFlowCanceled
  | FlowDependencies
  | FlowTimeoutInvalid
  | FlowRandom
  | FlowAuthorize device_error

datatype approve_error = FlowErr flow_error | InvitationErr "flow_error pairing_error"

datatype flowState = StateHandshaking | StatePending

record Snapshot =
  sn_FlowID :: string
  sn_InvitationID :: bytes
  sn_DeviceID :: bytes
  sn_DisplayName :: string
  sn_Platform :: string
  sn_SAS :: string
  sn_State :: flowState
  sn_CreatedAt :: time
  sn_ExpiresAt :: time

record PairingApproval =
  pa_Status :: int
  pa_AuthorizationVersion :: u64

abbreviation (input) STATUS_PENDING :: int where "STATUS_PENDING \<equiv> 1"
abbreviation (input) STATUS_APPROVED :: int where "STATUS_APPROVED \<equiv> 2"
abbreviation (input) STATUS_REJECTED :: int where "STATUS_REJECTED \<equiv> 3"

text \<open>A decision is an approval message or the reason of a cancellation.\<close>

type_synonym decision = "flow_error + PairingApproval"

record ('h, 'c) flow =
  fl_id :: string
  fl_reservation :: nat
  fl_responder :: "'h PairingResponder option"
  fl_peer :: SignedDeviceDescriptor
  fl_transport :: "'c Transport option"
  fl_snapshot :: Snapshot

record ('h, 'c) Coordinator =
  co_invitations :: Manager
  co_identity :: Store
  co_dir :: directory
  co_approvalTimeout :: duration
  co_active :: "('h, 'c) flow option"
  co_decisions :: "nat \<Rightarrow> decision option"

record flow_times =
  ft_expire :: time
  ft_release :: time
  ft_manager :: time
  ft_now :: time
  ft_store :: time

definition DefaultApprovalTimeout :: duration where "DefaultApprovalTimeout = 2 * minute"

definition co_New ::
    "Manager option \<Rightarrow> Store option \<Rightarrow> directory \<Rightarrow> duration \<Rightarrow> flow_error + ('h, 'c) Coordinator" where
  "co_New invitations identity dir approvalTimeout =
     (case (invitations, identity) of
        (Some m, Some s) \<Rightarrow>
          (let timeout = (if approvalTimeout = 0 then DefaultApprovalTimeout else approvalTimeout) in
           if timeout < 30 * second \<or> timeout > 5 * minute then Inl FlowTimeoutInvalid
           else Inr \<lparr>co_invitations = m, co_identity = s, co_dir = dir, co_approvalTimeout = timeout,
                  co_active = None, co_decisions = (\<lambda>_. None)\<rparr>)
      | _ \<Rightarrow> Inl FlowDependencies)"

section \<open>Ending a flow\<close>

text \<open>A send to the channel that does nothing when a decision is already in it.\<close>

definition send_decision :: "nat \<Rightarrow> decision \<Rightarrow> ('h, 'c) Coordinator \<Rightarrow> ('h, 'c) Coordinator" where
  "send_decision key d co =
     (case co_decisions co key of
        None \<Rightarrow> co\<lparr>co_decisions := (co_decisions co)(key := Some d)\<rparr>
      | Some _ \<Rightarrow> co)"

definition cancelLocked :: "flow_times \<Rightarrow> ('h, 'c) flow \<Rightarrow> flow_error \<Rightarrow> ('h, 'c) Coordinator \<Rightarrow> ('h, 'c) Coordinator" where
  "cancelLocked ft current reason co =
     (let m = fst (Release (ft_release ft) (Some (fl_reservation current)) (co_invitations co) :: Manager \<times> unit pairing_error option)
      in (send_decision (fl_reservation current) (Inl reason) (co\<lparr>co_invitations := m\<rparr>))\<lparr>co_active := None\<rparr>)"

definition completeLocked :: "('h, 'c) flow \<Rightarrow> PairingApproval \<Rightarrow> ('h, 'c) Coordinator \<Rightarrow> ('h, 'c) Coordinator" where
  "completeLocked current approval co =
     (send_decision (fl_reservation current) (Inr approval) co)\<lparr>co_active := None\<rparr>"

definition expireLocked :: "flow_times \<Rightarrow> ('h, 'c) Coordinator \<Rightarrow> ('h, 'c) Coordinator" where
  "expireLocked ft co =
     (case co_active co of
        None \<Rightarrow> co
      | Some current \<Rightarrow>
          (if ft_expire ft < sn_ExpiresAt (fl_snapshot current) then co
           else cancelLocked ft current ErrFlowExpired co))"

definition flowLocked :: "string \<Rightarrow> ('h, 'c) Coordinator \<Rightarrow> flow_error + ('h, 'c) flow" where
  "flowLocked flowID co =
     (case co_active co of
        None \<Rightarrow> Inl ErrFlowUnavailable
      | Some current \<Rightarrow>
          (if flowID = [] \<or> fl_id current \<noteq> flowID then Inl ErrFlowUnavailable else Inr current))"

section \<open>Operations\<close>

text \<open>The flow that \<^verbatim>\<open>Start\<close> stores.\<close>

definition new_flow ::
    "string \<Rightarrow> nat \<Rightarrow> 'h PairingResponder \<Rightarrow> SignedDeviceDescriptor \<Rightarrow> Status \<Rightarrow> time \<Rightarrow> duration \<Rightarrow> ('h, 'c) flow" where
  "new_flow flowID reservation responder peer invitationStatus now timeout =
     (let approvalExpiry = now + timeout;
          expiresAt = (if approvalExpiry < su_ExpiresAt invitationStatus then approvalExpiry
            else su_ExpiresAt invitationStatus)
      in \<lparr>fl_id = flowID, fl_reservation = reservation, fl_responder = Some responder, fl_peer = peer,
          fl_transport = None,
          fl_snapshot = \<lparr>sn_FlowID = flowID, sn_InvitationID = su_InvitationID invitationStatus,
            sn_DeviceID = dd_DeviceId (descriptor_of peer), sn_DisplayName = dd_DisplayName (descriptor_of peer),
            sn_Platform = dd_Platform (descriptor_of peer), sn_SAS = [], sn_State = StateHandshaking,
            sn_CreatedAt = now, sn_ExpiresAt = expiresAt\<rparr>\<rparr>)"

text \<open>The callback \<^verbatim>\<open>Start\<close> passes to \<^verbatim>\<open>Begin\<close> stores the handshake's results in its variables.\<close>

definition start_callback ::
    "crypto \<Rightarrow> ('h, 'c) noise_lib \<Rightarrow> pairing_codec \<Rightarrow> HandshakeContext \<Rightarrow> SignedDeviceDescriptor \<Rightarrow> bytes \<Rightarrow> bytes \<Rightarrow>
     PairingHandshakeStart \<Rightarrow> bytes \<Rightarrow> ('h PairingResponder \<times> bytes \<times> SignedDeviceDescriptor) option \<Rightarrow>
     ('h PairingResponder \<times> bytes \<times> SignedDeviceDescriptor) option \<times> handshake_error option" where
  "start_callback cr nl pc expectedContext agent private random start secret w =
     (case AcceptPairingStart cr nl pc \<lparr>rc_ExpectedContext = Some expectedContext, rc_Agent = Some agent,
             rc_StaticPrivateKey = private, rc_BootstrapSecret = secret, rc_Random = random\<rparr> (Some start) of
        Inl e \<Rightarrow> (None, Some e)
      | Inr accepted \<Rightarrow> (Some accepted, None))"

definition co_Start ::
    "crypto \<Rightarrow> ('h, 'c) noise_lib \<Rightarrow> pairing_codec \<Rightarrow> flow_times \<Rightarrow> bytes option \<Rightarrow> bytes \<Rightarrow>
     PairingHandshakeStart option \<Rightarrow> ('h, 'c) Coordinator \<Rightarrow> ('h, 'c) Coordinator \<times> (flow_error + string \<times> bytes)" where
  "co_Start cr nl pc ft flowIDRaw random start co0 =
     (let co = expireLocked ft co0 in
      if co_active co \<noteq> None then (co, Inl ErrFlowInProgress)
      else case start of None \<Rightarrow> (co, Inl ErrInvalidFlow) | Some st \<Rightarrow>
      case hs_Context st of None \<Rightarrow> (co, Inl ErrInvalidFlow) | Some startContext \<Rightarrow>
      case ds_Descriptor cr (co_identity co) of Inl _ \<Rightarrow> (co, Inl ErrInvalidFlow) | Inr agent \<Rightarrow>
      case sd_DeviceDescriptor agent of None \<Rightarrow> (co, Inl ErrInvalidFlow) | Some agentDescriptor \<Rightarrow>
      case NewPairingContext cr (hc_InitiatorDeviceId startContext) (dd_DeviceId agentDescriptor)
             (hc_InvitationId startContext) [] of Inl _ \<Rightarrow> (co, Inl ErrInvalidFlow) | Inr expectedContext \<Rightarrow>
      if dc_X25519Private cr (ps_KeyAgreementPrivateKey (st_state (co_identity co))) = None then (co, Inl ErrInvalidFlow)
      else case flowIDRaw of None \<Rightarrow> (co, Inl FlowRandom) | Some raw \<Rightarrow>
      let flowID = RawURL_Encode raw;
          callback = start_callback cr nl pc expectedContext agent
            (ps_KeyAgreementPrivateKey (st_state (co_identity co))) random st
      in case Begin (ft_manager ft) (hc_InvitationId startContext) (Some callback) (co_invitations co) None of
           (m, _, Inl ErrInvitationInUse) \<Rightarrow> (co\<lparr>co_invitations := m\<rparr>, Inl ErrFlowInProgress)
         | (m, _, Inl _) \<Rightarrow> (co\<lparr>co_invitations := m\<rparr>, Inl ErrInvalidFlow)
         | (m, Some (responder, response, peer), Inr (reservation, invitationStatus)) \<Rightarrow>
             (co\<lparr>co_invitations := m,
                 co_active := Some (new_flow flowID reservation responder peer invitationStatus (ft_now ft)
                   (co_approvalTimeout co))\<rparr>,
              Inr (flowID, response))
         | (m, None, Inr _) \<Rightarrow> (co\<lparr>co_invitations := m\<rparr>, Inl ErrInvalidFlow))"

record 'c Session =
  se_key :: nat
  se_flowID :: string
  se_snapshot :: Snapshot
  se_transport :: "'c Transport"

definition co_Finish ::
    "crypto \<Rightarrow> ('h, 'c) noise_lib \<Rightarrow> pairing_codec \<Rightarrow> flow_times \<Rightarrow> string \<Rightarrow> bytes option \<Rightarrow> ('h, 'c) Coordinator \<Rightarrow>
     ('h, 'c) Coordinator \<times> (flow_error + 'c Session)" where
  "co_Finish cr nl pc ft flowID fin co0 =
     (let co = expireLocked ft co0 in
      case flowLocked flowID co of Inl e \<Rightarrow> (co, Inl e) | Inr current \<Rightarrow>
      case fl_responder current of None \<Rightarrow> (co, Inl ErrFlowState) | Some responder \<Rightarrow>
      if sn_State (fl_snapshot current) \<noteq> StateHandshaking then (co, Inl ErrFlowState)
      else case snd (re_Finish cr nl pc fin responder) of
        Inl _ \<Rightarrow> (cancelLocked ft current ErrInvalidFlow co, Inl ErrInvalidFlow)
      | Inr result \<Rightarrow>
          (let pending = current\<lparr>fl_responder := None, fl_transport := Some (rs_Transport result),
                 fl_snapshot := (fl_snapshot current)\<lparr>sn_SAS := rs_SAS result, sn_State := StatePending\<rparr>\<rparr>
           in (co\<lparr>co_active := Some pending\<rparr>,
               Inr \<lparr>se_key = fl_reservation current, se_flowID = fl_id current, se_snapshot = fl_snapshot pending,
                    se_transport = rs_Transport result\<rparr>)))"

definition co_Current :: "flow_times \<Rightarrow> ('h, 'c) Coordinator \<Rightarrow> ('h, 'c) Coordinator \<times> Snapshot option" where
  "co_Current ft co0 = (let co = expireLocked ft co0 in (co, map_option fl_snapshot (co_active co)))"

text \<open>
  The callback that persists an approval acts on the store, its file and the variable that receives
  the authorization.
\<close>

definition approve_callback ::
    "crypto \<Rightarrow> store_codec \<Rightarrow> save_env \<Rightarrow> time \<Rightarrow> SignedDeviceDescriptor \<Rightarrow> Store \<times> directory \<times> AuthorizedDevice option \<Rightarrow>
     (Store \<times> directory \<times> AuthorizedDevice option) \<times> flow_error option" where
  "approve_callback cr cd env now peer w =
     (case w of (s, dir, _) \<Rightarrow>
      case Authorize cr cd env now (Some peer) s dir of
        (s', dir', Inl e) \<Rightarrow> ((s', dir', None), Some (FlowAuthorize e))
      | (s', dir', Inr authorization) \<Rightarrow>
          ((s', dir', Some authorization),
           if av_AuthorizationVersion authorization = 0 then Some ErrInvalidFlow else None))"

definition co_Approve ::
    "crypto \<Rightarrow> store_codec \<Rightarrow> save_env \<Rightarrow> flow_times \<Rightarrow> string \<Rightarrow> ('h, 'c) Coordinator \<Rightarrow>
     ('h, 'c) Coordinator \<times> approve_error option" where
  "co_Approve cr cd env ft flowID co0 =
     (let co = expireLocked ft co0 in
      case flowLocked flowID co of Inl e \<Rightarrow> (co, Some (FlowErr e)) | Inr current \<Rightarrow>
      if sn_State (fl_snapshot current) \<noteq> StatePending \<or> fl_transport current = None
      then (co, Some (FlowErr ErrFlowState))
      else case Approve (ft_manager ft) (Some (fl_reservation current))
                  (Some (approve_callback cr cd env (ft_store ft) (fl_peer current)))
                  (co_invitations co) (co_identity co, co_dir co, None) of
        (m, (s, dir, authorization), outcome) \<Rightarrow>
          (let co = co\<lparr>co_invitations := m, co_identity := s, co_dir := dir\<rparr> in
           case outcome of
             Some e \<Rightarrow>
               (if e = ErrInvitationUnavailable \<or> e = ErrInvitationExpired \<or> e = ErrInvitationRejected
                then (cancelLocked ft current ErrFlowCanceled co, Some (InvitationErr e))
                else (co, Some (InvitationErr e)))
           | None \<Rightarrow>
               (completeLocked current \<lparr>pa_Status = STATUS_APPROVED,
                  pa_AuthorizationVersion = av_AuthorizationVersion (the authorization)\<rparr> co, None)))"

definition co_Reject ::
    "flow_times \<Rightarrow> string \<Rightarrow> ('h, 'c) Coordinator \<Rightarrow> ('h, 'c) Coordinator \<times> approve_error option" where
  "co_Reject ft flowID co0 =
     (let co = expireLocked ft co0 in
      case flowLocked flowID co of Inl e \<Rightarrow> (co, Some (FlowErr e)) | Inr current \<Rightarrow>
      if sn_State (fl_snapshot current) \<noteq> StatePending \<or> fl_transport current = None
      then (co, Some (FlowErr ErrFlowState))
      else case Reject (ft_manager ft) (Some (fl_reservation current)) (co_invitations co) of
        (m, Some e) \<Rightarrow> (cancelLocked ft current ErrFlowCanceled (co\<lparr>co_invitations := m\<rparr>), Some (InvitationErr e))
      | (m, None) \<Rightarrow>
          (completeLocked current \<lparr>pa_Status = STATUS_REJECTED, pa_AuthorizationVersion = 0\<rparr>
             (co\<lparr>co_invitations := m\<rparr>), None))"

definition co_Cancel :: "flow_times \<Rightarrow> string \<Rightarrow> ('h, 'c) Coordinator \<Rightarrow> ('h, 'c) Coordinator" where
  "co_Cancel ft flowID co =
     (case co_active co of
        None \<Rightarrow> co
      | Some current \<Rightarrow> (if fl_id current \<noteq> flowID then co else cancelLocked ft current ErrFlowCanceled co))"

section \<open>The session of a pending flow\<close>

definition ApprovalAssociatedData :: bytes where
  "ApprovalAssociatedData = string_bytes ''VibeBridge pairing approval v1'' @ [0]"

datatype session_send_error = SessionFlow flow_error | SessionTransport transport_error

definition se_Encrypt ::
    "('h, 'c) noise_lib \<Rightarrow> (PairingApproval \<Rightarrow> bytes option) \<Rightarrow> PairingApproval option \<Rightarrow> 'c Session \<Rightarrow>
     'c Session \<times> (session_send_error + bytes)" where
  "se_Encrypt nl marshal approval session =
     (case approval of None \<Rightarrow> (session, Inl (SessionFlow ErrFlowState)) | Some a \<Rightarrow>
      if (pa_Status a = STATUS_PENDING \<or> pa_Status a = STATUS_REJECTED) \<and> pa_AuthorizationVersion a \<noteq> 0 \<or>
         pa_Status a = STATUS_APPROVED \<and> pa_AuthorizationVersion a = 0 \<or>
         pa_Status a \<notin> {STATUS_PENDING, STATUS_APPROVED, STATUS_REJECTED}
      then (session, Inl (SessionFlow ErrInvalidFlow))
      else case marshal a of
        None \<Rightarrow> (session, Inl (SessionFlow ErrInvalidFlow))
      | Some plaintext \<Rightarrow>
          (case tr_Encrypt nl plaintext ApprovalAssociatedData (se_transport session) of
             (t, Inl e) \<Rightarrow> (session\<lparr>se_transport := t\<rparr>, Inl (SessionTransport e))
           | (t, Inr ciphertext) \<Rightarrow> (session\<lparr>se_transport := t\<rparr>, Inr ciphertext)))"

text \<open>\<^verbatim>\<open>Wait\<close> when the channel holds a decision, which it takes; otherwise it blocks or its context ends.\<close>

definition se_Wait :: "'c Session \<Rightarrow> ('h, 'c) Coordinator \<Rightarrow> ('h, 'c) Coordinator \<times> decision option" where
  "se_Wait session co =
     (case co_decisions co (se_key session) of
        None \<Rightarrow> (co, None)
      | Some d \<Rightarrow> (co\<lparr>co_decisions := (co_decisions co)(se_key session := None)\<rparr>, Some d))"

definition se_Close :: "'c Session \<Rightarrow> 'c Session" where
  "se_Close session = session\<lparr>se_transport := tr_Close (se_transport session)\<rparr>"

end
