(* ===== verification/Flow_Safety.thy ===== *)
theory Flow_Safety
  imports Pairing_Flow E2EE_Safety
begin

text \<open>
  What the pairing flow promises: a device gets into the authorization graph only through the local
  approval of a flow in which it authenticated with the invitation's secret and completed the
  handshake.
\<close>

section \<open>Calls\<close>

text \<open>The calls of the WebSocket endpoint, of the local management page and of the tray.\<close>

datatype flow_call =
    FStart flow_times "bytes option" bytes "PairingHandshakeStart option"
  | FFinish flow_times string "bytes option"
  | FCurrent flow_times
  | FApprove save_env flow_times string
  | FReject flow_times string
  | FCancel flow_times string
  | FManager "unit pairing_call"
  | FRevoke save_env time bytes

datatype 'c flow_result =
    FStarted string bytes
  | FSession "'c Session"
  | FSnapshot "Snapshot option"
  | FApproved
  | FDone
  | FManaged "unit pairing_result"
  | FRevoked "device_error + AuthorizedDevice"
  | FFailed approve_error

definition flow_outcome :: "('h, 'c) Coordinator \<times> approve_error option \<Rightarrow> 'c flow_result \<Rightarrow> ('h, 'c) Coordinator \<times> 'c flow_result" where
  "flow_outcome x r = (fst x, case snd x of None \<Rightarrow> r | Some e \<Rightarrow> FFailed e)"

fun flow_step ::
    "crypto \<Rightarrow> ('h, 'c) noise_lib \<Rightarrow> pairing_codec \<Rightarrow> pairing_lib \<Rightarrow> store_codec \<Rightarrow> ('h, 'c) Coordinator \<Rightarrow> flow_call \<Rightarrow>
     ('h, 'c) Coordinator \<times> 'c flow_result" where
  "flow_step cr nl pc lib cd co (FStart ft raw random start) =
     (case co_Start cr nl pc ft raw random start co of
        (co', Inl e) \<Rightarrow> (co', FFailed (FlowErr e)) | (co', Inr (i, response)) \<Rightarrow> (co', FStarted i response))"
| "flow_step cr nl pc lib cd co (FFinish ft i fin) =
     (case co_Finish cr nl pc ft i fin co of
        (co', Inl e) \<Rightarrow> (co', FFailed (FlowErr e)) | (co', Inr session) \<Rightarrow> (co', FSession session))"
| "flow_step cr nl pc lib cd co (FCurrent ft) = (case co_Current ft co of (co', s) \<Rightarrow> (co', FSnapshot s))"
| "flow_step cr nl pc lib cd co (FApprove env ft i) = flow_outcome (co_Approve cr cd env ft i co) FApproved"
| "flow_step cr nl pc lib cd co (FReject ft i) = flow_outcome (co_Reject ft i co) FDone"
| "flow_step cr nl pc lib cd co (FCancel ft i) = (co_Cancel ft i co, FDone)"
| "flow_step cr nl pc lib cd co (FManager c) =
     (case manager_step cr lib (co_invitations co) c of (m, r) \<Rightarrow> (co\<lparr>co_invitations := m\<rparr>, FManaged r))"
| "flow_step cr nl pc lib cd co (FRevoke env now k) =
     (case Revoke cr cd env now k (co_identity co) (co_dir co) of
        (s, dir, r) \<Rightarrow> (co\<lparr>co_identity := s, co_dir := dir\<rparr>, FRevoked r))"

section \<open>Stages of a flow\<close>

text \<open>A flow in the handshake, with its responder, and a flow that waits for approval, with its string.\<close>

definition handshaking :: "('h, 'c) Coordinator \<Rightarrow> string \<times> SignedDeviceDescriptor \<times> 'h PairingResponder \<Rightarrow> bool" where
  "handshaking co x \<longleftrightarrow> (\<exists>f. co_active co = Some f \<and> fl_id f = fst x \<and> fl_peer f = fst (snd x) \<and>
     sn_State (fl_snapshot f) = StateHandshaking \<and> fl_responder f = Some (snd (snd x)))"

definition pending :: "('h, 'c) Coordinator \<Rightarrow> string \<times> SignedDeviceDescriptor \<times> string \<Rightarrow> bool" where
  "pending co x \<longleftrightarrow> (\<exists>f. co_active co = Some f \<and> fl_id f = fst x \<and> fl_peer f = fst (snd x) \<and>
     sn_State (fl_snapshot f) = StatePending \<and> sn_SAS (fl_snapshot f) = snd (snd x))"

text \<open>The call that brings each stage about.\<close>

definition accepts ::
    "crypto \<Rightarrow> ('h, 'c) noise_lib \<Rightarrow> pairing_codec \<Rightarrow> pairing_lib \<Rightarrow> store_codec \<Rightarrow> ('h, 'c) Coordinator \<Rightarrow> flow_call \<Rightarrow>
     string \<times> SignedDeviceDescriptor \<times> 'h PairingResponder \<Rightarrow> bool" where
  "accepts cr nl pc lib cd co c x \<longleftrightarrow>
     (\<exists>ft raw random st ctx response config a. c = FStart ft raw random (Some st) \<and>
        snd (flow_step cr nl pc lib cd co c) = FStarted (fst x) response \<and>
        AcceptPairingStart cr nl pc config (Some st) = Inr (snd (snd x), response, fst (snd x)) \<and>
        hs_Context st = Some ctx \<and> mg_active (co_invitations (expireLocked ft co)) = Some a \<and>
        hc_InvitationId ctx = iv_InvitationId (ac_invitation a) \<and> rc_BootstrapSecret config = ac_secret a \<and>
        ft_manager ft < expires_of a)"

definition completes ::
    "crypto \<Rightarrow> ('h, 'c) noise_lib \<Rightarrow> pairing_codec \<Rightarrow> pairing_lib \<Rightarrow> store_codec \<Rightarrow> ('h, 'c) Coordinator \<Rightarrow> flow_call \<Rightarrow>
     string \<times> SignedDeviceDescriptor \<times> string \<Rightarrow> bool" where
  "completes cr nl pc lib cd co c x \<longleftrightarrow>
     (\<exists>ft fin r r' result session. c = FFinish ft (fst x) fin \<and>
        snd (flow_step cr nl pc lib cd co c) = FSession session \<and> handshaking co (fst x, fst (snd x), r) \<and>
        re_Finish cr nl pc fin r = (r', Inr result) \<and> rs_SAS result = snd (snd x))"

lemma flow_ended [simp]:
  "co_active (cancelLocked ft f e co) = None" "co_active (completeLocked f a co) = None"
  "co_identity (cancelLocked ft f e co) = co_identity co" "co_identity (completeLocked f a co) = co_identity co"
  "co_dir (cancelLocked ft f e co) = co_dir co"
  by (simp_all add: cancelLocked_def completeLocked_def send_decision_def Let_def split: option.split)

lemma expired_flow [simp]:
  "co_identity (expireLocked ft co) = co_identity co" "co_dir (expireLocked ft co) = co_dir co"
  by (simp_all add: expireLocked_def split: option.split)

lemma unexpired_flow: "co_active (expireLocked ft co) = Some f \<Longrightarrow> co_active co = Some f"
  by (cases "co_active co") (simp_all add: expireLocked_def split: if_splits)

lemma flow_found:
  assumes "flowLocked i co = Inr f"
  shows "co_active co = Some f" "fl_id f = i"
  using assms by (cases "co_active co"; simp add: flowLocked_def split: if_splits)+

text \<open>What each operation does to the flow.\<close>

lemma Begin_ok:
  assumes "Begin now i (Some callback) m w = (m', w', Inr (r, st))"
  shows "\<exists>a. mg_active m = Some a \<and> i = iv_InvitationId (ac_invitation a) \<and> now < expires_of a \<and>
    callback (ac_secret a) w = (w', None)"
  using assms
  by (cases "mg_active m") (auto simp: Begin_def matchInvitationLocked_def Let_def split: option.splits if_splits prod.splits)

lemma start_callback_ok:
  "start_callback cr nl pc ctx agent private random st secret w = (w', None) \<Longrightarrow>
     \<exists>accepted. w' = Some accepted \<and> AcceptPairingStart cr nl pc \<lparr>rc_ExpectedContext = Some ctx, rc_Agent = Some agent,
       rc_StaticPrivateKey = private, rc_BootstrapSecret = secret, rc_Random = random\<rparr> (Some st) = Inr accepted"
  by (auto simp: start_callback_def split: sum.splits)

lemma co_Start_flow:
  assumes "co_Start cr nl pc ft raw random start co = (co', res)"
  obtains (same) "co_active co' = co_active (expireLocked ft co)"
  | (new) st ctx a config responder response peer f where "start = Some st" "hs_Context st = Some ctx"
      "mg_active (co_invitations (expireLocked ft co)) = Some a" "hc_InvitationId ctx = iv_InvitationId (ac_invitation a)"
      "ft_manager ft < expires_of a" "rc_BootstrapSecret config = ac_secret a"
      "AcceptPairingStart cr nl pc config start = Inr (responder, response, peer)"
      "res = Inr (fl_id f, response)" "co_active co' = Some f" "fl_peer f = peer" "fl_responder f = Some responder"
      "sn_State (fl_snapshot f) = StateHandshaking"
proof (cases "\<exists>x. res = Inr x")
  case True
  let ?co = "expireLocked ft co"
  obtain st ctx agent expected private' raw' m w reservation status responder response peer where
    st: "start = Some st" "hs_Context st = Some ctx"
    and b: "Begin (ft_manager ft) (hc_InvitationId ctx)
      (Some (start_callback cr nl pc expected agent private' random st)) (co_invitations ?co) None =
      (m, Some (responder, response, peer), Inr (reservation, status))"
    and res: "co' = ?co\<lparr>co_invitations := m, co_active := Some (new_flow (RawURL_Encode raw') reservation responder peer
      status (ft_now ft) (co_approvalTimeout ?co))\<rparr>" "res = Inr (RawURL_Encode raw', response)"
    using assms True
    by (auto simp: co_Start_def Let_def split: option.splits sum.splits if_splits prod.splits pairing_error.splits)
  show thesis
    using Begin_ok [OF b] res st
    by (auto simp: new_flow_def Let_def dest!: start_callback_ok intro!: new)
next
  case False
  then show thesis
    using assms
    by (auto simp: co_Start_def Let_def split: option.splits sum.splits if_splits prod.splits pairing_error.splits intro: same)
qed

lemma co_Finish_flow:
  assumes "co_Finish cr nl pc ft i fin co = (co', res)"
  obtains (same) "co_active co' = co_active (expireLocked ft co) \<or> co_active co' = None"
  | (finished) f r r' result session f' where "co_active (expireLocked ft co) = Some f" "fl_id f = i" "fl_responder f = Some r"
      "sn_State (fl_snapshot f) = StateHandshaking" "re_Finish cr nl pc fin r = (r', Inr result)" "res = Inr session"
      "co_active co' = Some f'" "fl_id f' = i" "fl_peer f' = fl_peer f" "fl_responder f' = None"
      "sn_State (fl_snapshot f') = StatePending" "sn_SAS (fl_snapshot f') = rs_SAS result"
proof (cases "flowLocked i (expireLocked ft co)")
  case (Inr f)
  note f = flow_found [OF Inr]
  show thesis
    using assms f
    by (cases "fl_responder f"; cases "snd (re_Finish cr nl pc fin (the (fl_responder f)))"; cases "re_Finish cr nl pc fin (the (fl_responder f))")
      (auto simp: co_Finish_def Let_def Inr split: if_splits intro: same finished)
qed (use assms in \<open>auto simp: co_Finish_def Let_def intro: same\<close>)

lemma Approve_effect:
  "Approve now r (Some callback) m w = (m', w', outcome) \<Longrightarrow> w' = w \<or> w' = fst (callback w)"
  by (auto simp: Approve_def split: prod.splits option.splits)

lemma commit_error: "commit_state cr cd env st n s dir = (s', dir', Inl e) \<Longrightarrow> s' = s"
  by (rule commit_state_cases [of cr cd env st n s dir]) auto

lemma Authorize_error: "Authorize cr cd env now sd s dir = (s', dir', Inl e) \<Longrightarrow> s' = s"
  by (auto simp: Authorize_def authorize_locked_def Let_def dest: commit_error
      split: option.splits sum.splits if_splits prod.splits)

lemma co_Approve_flow:
  assumes "co_Approve cr cd env ft i co = (co', res)"
  shows "co_active co' = co_active (expireLocked ft co) \<or> co_active co' = None"
    "co_identity co' \<noteq> co_identity co \<Longrightarrow>
       \<exists>f v dir'. co_active (expireLocked ft co) = Some f \<and> fl_id f = i \<and> sn_State (fl_snapshot f) = StatePending \<and>
         Authorize cr cd env (ft_store ft) (Some (fl_peer f)) (co_identity co) (co_dir co) =
           (co_identity co', dir', Inr v)"
proof -
  let ?co = "expireLocked ft co"
  have "(co_active co' = co_active ?co \<or> co_active co' = None) \<and> (co_identity co' \<noteq> co_identity co \<longrightarrow>
       (\<exists>f v dir'. co_active ?co = Some f \<and> fl_id f = i \<and> sn_State (fl_snapshot f) = StatePending \<and>
         Authorize cr cd env (ft_store ft) (Some (fl_peer f)) (co_identity co) (co_dir co) = (co_identity co', dir', Inr v)))"
  proof (cases "flowLocked i ?co")
    case (Inr f)
    note found = flow_found [OF Inr]
    let ?cb = "approve_callback cr cd env (ft_store ft) (fl_peer f)"
    obtain m s' dir' auth outcome where a: "Approve (ft_manager ft) (Some (fl_reservation f)) (Some ?cb)
        (co_invitations ?co) (co_identity co, co_dir co, None) = (m, (s', dir', auth), outcome)"
      by (metis prod_cases3)
    obtain s'' dir'' r where z: "Authorize cr cd env (ft_store ft) (Some (fl_peer f)) (co_identity co) (co_dir co) = (s'', dir'', r)"
      by (metis prod_cases3)
    have "s' = co_identity co \<or> s' = s'' \<and> (\<exists>v. r = Inr v)"
      using Approve_effect [OF a] z
      by (cases r) (auto simp: approve_callback_def dest: Authorize_error)
    then show ?thesis
      using assms found a z by (auto simp: co_Approve_def Let_def Inr split: if_splits option.splits)
  qed (use assms in \<open>auto simp: co_Approve_def Let_def\<close>)
  then show "co_active co' = co_active ?co \<or> co_active co' = None" "co_identity co' \<noteq> co_identity co \<Longrightarrow>
      \<exists>f v dir'. co_active ?co = Some f \<and> fl_id f = i \<and> sn_State (fl_snapshot f) = StatePending \<and>
        Authorize cr cd env (ft_store ft) (Some (fl_peer f)) (co_identity co) (co_dir co) = (co_identity co', dir', Inr v)"
    by simp_all
qed

lemma co_Reject_flow:
  assumes "co_Reject ft i co = (co', res)"
  shows "co_active co' = co_active (expireLocked ft co) \<or> co_active co' = None" "co_identity co' = co_identity co"
  using assms by (auto simp: co_Reject_def Let_def split: sum.splits if_splits prod.splits option.splits)

lemma co_Cancel_flow:
  "co_active (co_Cancel ft i co) = co_active co \<or> co_active (co_Cancel ft i co) = None"
  "co_identity (co_Cancel ft i co) = co_identity co"
  by (auto simp: co_Cancel_def split: option.split)

lemma co_Start_identity: "co_Start cr nl pc ft raw random start co = (co', res) \<Longrightarrow> co_identity co' = co_identity co"
  by (auto simp: co_Start_def Let_def split: option.splits sum.splits if_splits prod.splits pairing_error.splits)

lemma co_Finish_identity: "co_Finish cr nl pc ft i fin co = (co', res) \<Longrightarrow> co_identity co' = co_identity co"
  by (auto simp: co_Finish_def Let_def split: option.splits sum.splits if_splits)

text \<open>Every call leaves the flow, ends it, or moves it to its next stage.\<close>

definition kept :: "('h, 'c) Coordinator \<Rightarrow> ('h, 'c) Coordinator \<Rightarrow> bool" where
  "kept co co' \<longleftrightarrow> (\<forall>f. co_active co' = Some f \<longrightarrow> co_active co = Some f)"

lemma kept_stages: "kept co co' \<Longrightarrow> handshaking co' x \<Longrightarrow> handshaking co x" "kept co co' \<Longrightarrow> pending co' y \<Longrightarrow> pending co y"
  by (auto simp: kept_def handshaking_def pending_def)

lemma kept_expired: "co_active co' = co_active (expireLocked ft co) \<or> co_active co' = None \<Longrightarrow> kept co co'"
  unfolding kept_def using unexpired_flow [of ft co] by (metis option.distinct(1))

lemma flow_step_cases:
  obtains (kept) "kept co (fst (flow_step cr nl pc lib cd co c))"
  | (started) x where "accepts cr nl pc lib cd co c x" "handshaking (fst (flow_step cr nl pc lib cd co c)) y \<Longrightarrow> y = x"
      "\<not> pending (fst (flow_step cr nl pc lib cd co c)) z"
  | (finished) x where "completes cr nl pc lib cd co c x" "pending (fst (flow_step cr nl pc lib cd co c)) z \<Longrightarrow> z = x"
      "\<not> handshaking (fst (flow_step cr nl pc lib cd co c)) y"
proof (cases c)
  case (FStart ft raw random start)
  obtain co' res where s: "co_Start cr nl pc ft raw random start co = (co', res)" by fastforce
  show thesis
  proof (rule co_Start_flow [OF s])
    assume "co_active co' = co_active (expireLocked ft co)"
    then show thesis
      using s kept_expired [of co' ft co] by (intro kept) (auto simp: FStart split: sum.splits)
  next
    fix st ctx a config responder response peer f
    assume n: "start = Some st" "hs_Context st = Some ctx" "mg_active (co_invitations (expireLocked ft co)) = Some a"
      "hc_InvitationId ctx = iv_InvitationId (ac_invitation a)" "ft_manager ft < expires_of a"
      "rc_BootstrapSecret config = ac_secret a" "AcceptPairingStart cr nl pc config start = Inr (responder, response, peer)"
      "res = Inr (fl_id f, response)" "co_active co' = Some f" "fl_peer f = peer" "fl_responder f = Some responder"
      "sn_State (fl_snapshot f) = StateHandshaking"
    then have "accepts cr nl pc lib cd co c (fl_id f, peer, responder)"
      unfolding accepts_def using s by (intro exI [of _ ft] exI [of _ raw] exI [of _ random]) (auto simp: FStart)
    then show thesis
      by (rule started) (use n s in \<open>auto simp: FStart handshaking_def pending_def\<close>)
  qed
next
  case (FFinish ft i fin)
  obtain co' res where s: "co_Finish cr nl pc ft i fin co = (co', res)" by fastforce
  show thesis
  proof (rule co_Finish_flow [OF s])
    assume "co_active co' = co_active (expireLocked ft co) \<or> co_active co' = None"
    then show thesis
      using s kept_expired [of co' ft co] by (intro kept) (auto simp: FFinish split: sum.splits)
  next
    fix f r r' result session f'
    assume n: "co_active (expireLocked ft co) = Some f" "fl_id f = i" "fl_responder f = Some r"
      "sn_State (fl_snapshot f) = StateHandshaking" "re_Finish cr nl pc fin r = (r', Inr result)" "res = Inr session"
      "co_active co' = Some f'" "fl_id f' = i" "fl_peer f' = fl_peer f" "fl_responder f' = None"
      "sn_State (fl_snapshot f') = StatePending" "sn_SAS (fl_snapshot f') = rs_SAS result"
    then have "completes cr nl pc lib cd co c (i, fl_peer f, rs_SAS result)"
      unfolding completes_def using s unexpired_flow [OF n(1)]
      by (intro exI [of _ ft] exI [of _ fin] exI [of _ r] exI [of _ r'] exI [of _ result] exI [of _ session])
        (auto simp: FFinish handshaking_def)
    then show thesis
      by (rule finished) (use n s in \<open>auto simp: FFinish handshaking_def pending_def\<close>)
  qed
next
  case (FApprove env ft i)
  then show thesis
    using kept_expired [OF co_Approve_flow(1) [OF prod.collapse [symmetric]]]
    by (intro kept) (simp add: flow_outcome_def)
next
  case (FReject ft i)
  then show thesis
    using kept_expired [OF co_Reject_flow(1) [OF prod.collapse [symmetric]]]
    by (intro kept) (simp add: flow_outcome_def)
next
  case (FCancel ft i)
  then show thesis using co_Cancel_flow(1) [of ft i co] by (intro kept) (auto simp: kept_def)
qed (auto simp: kept_def co_Current_def Let_def split_beta dest: unexpired_flow intro!: kept)

interpretation handshake: since "flow_step cr nl pc lib cd" "\<lambda>_. True" "\<lambda>_. True" handshaking "accepts cr nl pc lib cd"
  "\<lambda>_ _ _. False" for cr nl pc lib cd
proof
  fix co c x
  assume "handshaking (fst (flow_step cr nl pc lib cd co c)) x"
  then show "accepts cr nl pc lib cd co c x \<or> handshaking co x \<and> \<not> False"
    by (metis (full_types) flow_step_cases kept_stages(1))
qed

interpretation waiting: since "flow_step cr nl pc lib cd" "\<lambda>_. True" "\<lambda>_. True" pending "completes cr nl pc lib cd"
  "\<lambda>_ _ _. False" for cr nl pc lib cd
proof
  fix co c x
  assume "pending (fst (flow_step cr nl pc lib cd co c)) x"
  then show "completes cr nl pc lib cd co c x \<or> pending co x \<and> \<not> False"
    by (metis (full_types) flow_step_cases kept_stages(2))
qed

text \<open>Only an approval and a revocation change the store.\<close>

lemma identity_changes:
  assumes "co_identity (fst (flow_step cr nl pc lib cd co c)) \<noteq> co_identity co"
  shows "(\<exists>env now k. c = FRevoke env now k) \<or> (\<exists>env ft i. c = FApprove env ft i)"
  using assms
proof (cases c)
  case (FStart ft raw random start)
  then show ?thesis
    using assms co_Start_identity [of cr nl pc ft raw random start co] by (auto split: prod.splits sum.splits)
next
  case (FFinish ft i fin)
  then show ?thesis using assms co_Finish_identity [of cr nl pc ft i fin co] by (auto split: prod.splits sum.splits)
next
  case (FReject ft i)
  then show ?thesis
    using assms co_Reject_flow(2) [of ft i co] by (auto simp: flow_outcome_def) (metis prod.collapse)
qed (auto simp: co_Current_def co_Cancel_flow Let_def split: prod.splits)

text \<open>
  C6. Only approved pairings authorize. In any sequence of calls on a fresh coordinator, its invitation
  manager and its store, whenever a call other than a revocation changes the store, that call is the
  local approval of a flow, and it authorized the flow's device. Before it a handshake of that
  flow finished, which fixed the verification string (\<open>completes\<close>); and before that the device was
  accepted by a first message that authenticated with the secret of the invitation then active,
  before it expired (\<open>accepts\<close>), and the responder of that message is the one that finished.
\<close>

theorem only_approved_pairings_authorize:
  assumes "co_New (Some m) (Some s) dir timeout = Inr co"
    and "state = (\<lambda>k. fst (run (flow_step cr nl pc lib cd) co (take k cs)))" "i < length cs"
    and "co_identity (state (Suc i)) \<noteq> co_identity (state i)" "\<nexists>env now k. cs ! i = FRevoke env now k"
  shows "\<exists>env ft flowID peer dir' v j k responder sas. cs ! i = FApprove env ft flowID \<and>
    Authorize cr cd env (ft_store ft) (Some peer) (co_identity (state i)) (co_dir (state i)) =
      (co_identity (state (Suc i)), dir', Inr v) \<and>
    j < k \<and> k < i \<and> accepts cr nl pc lib cd (state j) (cs ! j) (flowID, peer, responder) \<and>
    handshaking (state k) (flowID, peer, responder) \<and> completes cr nl pc lib cd (state k) (cs ! k) (flowID, peer, sas)"
proof -
  let ?f = "flow_step cr nl pc lib cd"
  have after: "state (Suc i) = fst (?f (state i) (cs ! i))" using assms(2,3) by (simp add: fst_run_take_Suc)
  obtain env ft flowID where c: "cs ! i = FApprove env ft flowID"
    using identity_changes [of cr nl pc lib cd "state i" "cs ! i"] assms(4,5) after by auto
  obtain co' res where step: "co_Approve cr cd env ft flowID (state i) = (co', res)" by fastforce
  then have co': "co' = state (Suc i)" using after c by (simp add: flow_outcome_def)
  obtain f v dir' where f: "co_active (expireLocked ft (state i)) = Some f" "fl_id f = flowID"
    "sn_State (fl_snapshot f) = StatePending"
    "Authorize cr cd env (ft_store ft) (Some (fl_peer f)) (co_identity (state i)) (co_dir (state i)) =
       (co_identity (state (Suc i)), dir', Inr v)"
    using co_Approve_flow(2) [OF step] assms(4) co' by auto
  have ok: "list_all (\<lambda>_. True) cs" by (simp add: list_all_iff)
  have start: "\<not> handshaking co x" "\<not> pending co y" for x y
    using assms(1) by (auto simp: co_New_def handshaking_def pending_def Let_def split: if_splits)
  have "pending (state i) (flowID, fl_peer f, sn_SAS (fl_snapshot f))"
    using unexpired_flow [OF f(1)] f(2,3) by (simp add: pending_def)
  from waiting.origin_at [OF TrueI ok start(2) less_imp_le [OF assms(3)] this [unfolded assms(2)]]
  obtain k where k: "k < i" "completes cr nl pc lib cd (state k) (cs ! k) (flowID, fl_peer f, sn_SAS (fl_snapshot f))"
    using assms(2) by auto
  then obtain responder where r: "handshaking (state k) (flowID, fl_peer f, responder)"
    by (auto simp: completes_def)
  have "k \<le> length cs" using k(1) assms(3) by simp
  from handshake.origin_at [OF TrueI ok start(1) this r [unfolded assms(2)]]
  obtain j where "j < k" "accepts cr nl pc lib cd (state j) (cs ! j) (flowID, fl_peer f, responder)"
    using assms(2) by auto
  then show ?thesis using c f(4) k r by blast
qed

section \<open>A sample flow\<close>

definition sample_manager :: "nat \<Rightarrow> Manager" where
  "sample_manager n = \<lparr>mg_ttl = 5 * minute,
     mg_active = (if n = 1 \<or> n = 2 then Some \<lparr>ac_invitation = sample_invitation\<lparr>iv_BootstrapSecret := []\<rparr>,
       ac_secret = replicate 32 2, ac_reservation = (if n = 1 then None else Some 0)\<rparr> else None),
     mg_bound = (if n = 2 then {0} else {}), mg_next = (if n < 2 then 0 else 1)\<rparr>"

definition sample_times :: flow_times where
  "sample_times = \<lparr>ft_expire = 0, ft_release = 0, ft_manager = 0, ft_now = 0, ft_store = 0\<rparr>"

definition sample_flow_codec :: pairing_codec where
  "sample_flow_codec = sample_pairing_codec\<lparr>marshal_responder := (\<lambda>_. Some [2])\<rparr>"

definition sample_flow :: "bool \<Rightarrow> (toy_state, nat) flow" where
  "sample_flow waits = \<lparr>fl_id = RawURL_Encode [0], fl_reservation = 0,
     fl_responder = (if waits then None else Some sample_responder), fl_peer = sample_device 5,
     fl_transport = (if waits then Some (newTransport (Some 100) (Some 0)) else None),
     fl_snapshot = \<lparr>sn_FlowID = RawURL_Encode [0], sn_InvitationID = replicate 16 1, sn_DeviceID = replicate 16 5,
       sn_DisplayName = ''n'', sn_Platform = ''p'',
       sn_SAS = (if waits then pairingSAS sample_device_crypto (replicate 64 0) else []),
       sn_State = (if waits then StatePending else StateHandshaking), sn_CreatedAt = 0, sn_ExpiresAt = 2 * minute\<rparr>\<rparr>"

definition sample_co :: "nat \<Rightarrow> (toy_state, nat) Coordinator" where
  "sample_co n = \<lparr>co_invitations = sample_manager (if n < 2 then n else 2), co_identity = sample_store 0, co_dir = Map.empty,
     co_approvalTimeout = 2 * minute,
     co_active = (if n = 2 then Some (sample_flow False) else if n = 3 then Some (sample_flow True) else None),
     co_decisions = (\<lambda>_. None)\<rparr>"

abbreviation (input) "sample_flow_step \<equiv> flow_step sample_device_crypto sample_noise sample_flow_codec sample_lib sample_codec"

lemma sample_flow_new: "co_New (Some (sample_manager 0)) (Some (sample_store 0)) Map.empty 0 = Inr (sample_co 0)"
  by (simp add: co_New_def sample_co_def DefaultApprovalTimeout_def Let_def)

lemma sample_flow_create:
  "fst (sample_flow_step (sample_co 0) (FManager (PCreate (Inr sample_agent) (Some (replicate 16 1)) (Some (replicate 32 2)) 0 []))) = sample_co 1"
  by (simp add: sample_agent_ok sample_new_code Create_def validateConnectionHints_def Let_def clearActiveLocked_def
      sample_co_def sample_manager_def sample_invitation_def)

lemma sample_expire: "expireLocked sample_times (sample_co n) = sample_co n"
  by (simp add: expireLocked_def sample_co_def sample_flow_def sample_times_def)

lemma sample_co_fields:
  "co_active (sample_co 1) = None" "co_active (sample_co 2) = Some (sample_flow False)"
  "co_active (sample_co 3) = Some (sample_flow True)" "co_identity (sample_co n) = sample_store 0"
  "co_dir (sample_co n) = Map.empty" "co_invitations (sample_co 1) = sample_manager 1"
  "co_invitations (sample_co 2) = sample_manager 2" "co_invitations (sample_co 3) = sample_manager 2"
  "co_approvalTimeout (sample_co n) = 2 * minute"
  "(sample_co 1)\<lparr>co_invitations := sample_manager 2, co_active := Some (sample_flow False)\<rparr> = sample_co 2"
  "(sample_co 2)\<lparr>co_active := Some (sample_flow True)\<rparr> = sample_co 3"
  by (simp_all add: sample_co_def)

lemma sample_flow_fields:
  "fl_id (sample_flow w) = RawURL_Encode [0]" "fl_reservation (sample_flow w) = 0" "fl_peer (sample_flow w) = sample_device 5"
  "fl_responder (sample_flow False) = Some sample_responder" "fl_transport (sample_flow True) = Some (newTransport (Some 100) (Some 0))"
  "sn_State (fl_snapshot (sample_flow w)) = (if w then StatePending else StateHandshaking)"
  by (simp_all add: sample_flow_def)

lemma sample_times_fields: "ft_manager sample_times = 0" "ft_now sample_times = 0" "ft_store sample_times = 0"
  by (simp_all add: sample_times_def)

lemma sample_own_descriptor:
  "\<exists>agent d. ds_Descriptor sample_device_crypto (sample_store 0) = Inr agent \<and> sd_DeviceDescriptor agent = Some d \<and>
     dd_DeviceId d = replicate 16 9 \<and> errDescriptor sample_device_crypto (Some agent) = None \<and>
     dd_DeviceClass (descriptor_of agent) = 1 \<and> dd_KeyAgreementPublicKey (descriptor_of agent) = replicate 32 9 \<and>
     dd_DeviceId (descriptor_of agent) = replicate 16 9 \<and>
     descriptorSupportsVersion (Some agent) (Some \<lparr>v_Major = 1, v_Minor = 0\<rparr>)"
  by (simp add: ds_Descriptor_def signedDescriptorLocked_def newSignedDescriptor_def sample_validation sample_state_def
      sample_store_def Let_def descriptor_of_def errDescriptor_def VerifySignedDescriptor_def descriptorSupportsVersion_def
      sample_device_crypto_def)

lemma sample_flow_start:
  "fst (sample_flow_step (sample_co 1) (FStart sample_times (Some [0]) [] (Some sample_start))) = sample_co 2"
proof -
  obtain agent d where a: "ds_Descriptor sample_device_crypto (sample_store 0) = Inr agent" "sd_DeviceDescriptor agent = Some d"
    "dd_DeviceId d = replicate 16 9" "errDescriptor sample_device_crypto (Some agent) = None"
    "dd_DeviceClass (descriptor_of agent) = 1" "dd_KeyAgreementPublicKey (descriptor_of agent) = replicate 32 9"
    "dd_DeviceId (descriptor_of agent) = replicate 16 9"
    "descriptorSupportsVersion (Some agent) (Some \<lparr>v_Major = 1, v_Minor = 0\<rparr>)"
    using sample_own_descriptor by blast
  have ctx: "NewPairingContext sample_device_crypto (replicate 16 5) (replicate 16 9) (replicate 16 1) [] = Inr sample_context"
    by (simp add: NewPairingContext_def validatePairingContext_def sample_context_def Let_def)
  have acc: "AcceptPairingStart sample_device_crypto sample_noise sample_flow_codec \<lparr>rc_ExpectedContext = Some sample_context,
      rc_Agent = Some agent, rc_StaticPrivateKey = replicate 32 9, rc_BootstrapSecret = replicate 32 2, rc_Random = []\<rparr>
      (Some sample_start) = Inr (sample_responder, replicate 32 9 @ [2], sample_device 5)"
    by (simp add: AcceptPairingStart_def accept_noise_def sample_start_def sample_context_def a
        sample_responder_def handshake_checks sample_pairing_codec_def sample_flow_codec_def sample_noise_def Let_def)
  have begin': "Begin 0 (replicate 16 1) (Some (start_callback sample_device_crypto sample_noise sample_flow_codec sample_context
      agent (replicate 32 9) [] sample_start)) (sample_manager 1) None =
      (sample_manager 2, Some (sample_responder, replicate 32 9 @ [2], sample_device 5),
       Inr (0, invitation_status (the (mg_active (sample_manager 1))) True))"
    by (simp add: Begin_def matchInvitationLocked_def start_callback_def acc sample_manager_def expires_of_def Let_def)
  have start_ctx: "hs_Context sample_start = Some sample_context" by (simp add: sample_start_def)
  have context_ids: "hc_InitiatorDeviceId sample_context = replicate 16 5" "hc_InvitationId sample_context = replicate 16 1"
    by (simp_all add: sample_context_def)
  have sample_keys: "ps_KeyAgreementPrivateKey (sample_state 0) = replicate 32 9" by (simp add: sample_state_def)
  have names: "dd_DisplayName (descriptor_of (sample_device 5)) = ''n''" "dd_Platform (descriptor_of (sample_device 5)) = ''p''"
    by (simp_all add: descriptor_of_def sample_device_def)
  have "new_flow (RawURL_Encode [0]) 0 sample_responder (sample_device 5)
      (invitation_status (the (mg_active (sample_manager 1))) True) 0 (2 * minute) = sample_flow False"
    by (simp add: new_flow_def invitation_status_def sample_manager_def expires_of_def sample_flow_def names Let_def)
  then have "fst (co_Start sample_device_crypto sample_noise sample_flow_codec sample_times (Some [0]) [] (Some sample_start) (sample_co 1)) = sample_co 2"
    using begin' ctx a
    by (simp add: co_Start_def sample_expire start_ctx context_ids sample_co_fields sample_times_fields Let_def
        sample_updates sample_keys del: base64_encode.simps One_nat_def)
  then show ?thesis by (auto split: prod.splits sum.splits)
qed

lemma sample_flow_finish:
  "fst (sample_flow_step (sample_co 2) (FFinish sample_times (RawURL_Encode [0]) (Some (replicate 32 5 @ [3])))) = sample_co 3"
proof -
  have "\<exists>r'. re_Finish sample_device_crypto sample_noise sample_flow_codec (Some (replicate 32 5 @ [3])) sample_responder =
      (r', Inr \<lparr>rs_Peer = sample_device 5, rs_SAS = pairingSAS sample_device_crypto (replicate 64 0),
        rs_HandshakeHash = replicate 64 0, rs_Transport = newTransport (Some 100) (Some 0)\<rparr>)"
    by (simp add: re_Finish_def pairingResult_def sample_responder_def sample_context_def handshake_checks
        sample_pairing_codec_def sample_flow_codec_def sample_noise_def Let_def)
  moreover have "(sample_flow False)\<lparr>fl_responder := None, fl_transport := Some (newTransport (Some 100) (Some 0)),
      fl_snapshot := (fl_snapshot (sample_flow False))\<lparr>sn_SAS := pairingSAS sample_device_crypto (replicate 64 0),
        sn_State := StatePending\<rparr>\<rparr> = sample_flow True"
    by (simp add: sample_flow_def)
  moreover have "RawURL_Encode [0] \<noteq> []" by (simp add: Let_def)
  ultimately show ?thesis
    by (auto simp: co_Finish_def sample_expire flowLocked_def Let_def sample_co_fields sample_flow_fields
        simp del: base64_encode.simps One_nat_def)
qed

lemma sample_flow_approve:
  "co_identity (fst (sample_flow_step (sample_co 3) (FApprove sample_env sample_times (RawURL_Encode [0])))) = sample_store 1"
proof -
  obtain v where "Authorize sample_device_crypto sample_codec sample_env 0 (Some (sample_device 5)) (sample_store 0) Map.empty =
      (sample_store 1, [''/f'' \<mapsto> [7, 1]], Inr v)"
    using sample_calls(1) [of Map.empty] by auto
  then have "approve_callback sample_device_crypto sample_codec sample_env 0 (sample_device 5) (sample_store 0, Map.empty, None) =
      ((sample_store 1, [''/f'' \<mapsto> [7, 1]], Some v), if av_AuthorizationVersion v = 0 then Some ErrInvalidFlow else None)"
    by (simp add: approve_callback_def)
  moreover have "RawURL_Encode [0] \<noteq> []" by (simp add: Let_def)
  ultimately show ?thesis
    by (simp add: flow_outcome_def co_Approve_def sample_expire flowLocked_def Let_def sample_co_fields sample_flow_fields
        sample_times_fields Approve_def validateReservationLocked_def sample_manager_def expires_of_def
        del: base64_encode.simps)
qed

theorem only_approved_pairings_authorize_witness:
  "\<exists>cs j k peer responder sas flowID. length cs = 4 \<and> j < k \<and> k < 3 \<and>
     co_identity (fst (run sample_flow_step (sample_co 0) (take 4 cs))) = sample_store 1 \<and>
     accepts sample_device_crypto sample_noise sample_flow_codec sample_lib sample_codec
       (fst (run sample_flow_step (sample_co 0) (take j cs))) (cs ! j) (flowID, peer, responder) \<and>
     completes sample_device_crypto sample_noise sample_flow_codec sample_lib sample_codec
       (fst (run sample_flow_step (sample_co 0) (take k cs))) (cs ! k) (flowID, peer, sas)"
proof -
  let ?create = "FManager (PCreate (Inr sample_agent) (Some (replicate 16 1)) (Some (replicate 32 2)) 0 [])"
  let ?start = "FStart sample_times (Some [0]) [] (Some sample_start)"
  let ?finish = "FFinish sample_times (RawURL_Encode [0]) (Some (replicate 32 5 @ [3]))"
  let ?approve = "FApprove sample_env sample_times (RawURL_Encode [0])"
  let ?cs = "[?create, ?start, ?finish, ?approve]"
  let ?state = "\<lambda>k. fst (run sample_flow_step (sample_co 0) (take k ?cs))"
  note steps = sample_flow_create sample_flow_start sample_flow_finish
  have s3: "?state 3 = sample_co 3"
    by (simp only: take_Suc_Cons take_0 numeral_3_eq_3 fst_run_Cons run.simps(1) fst_conv steps)
  have s4: "co_identity (?state (Suc 3)) = sample_store 1"
    by (simp only: take_Suc_Cons take_0 numeral_3_eq_3 fst_run_Cons run.simps(1) fst_conv steps
        sample_flow_approve [unfolded numeral_3_eq_3])
  have "st_state (sample_store 1) \<noteq> st_state (sample_store 0)"
    by (simp add: sample_updates) (metis sample_updates(3) zero_neq_one)
  then have "co_identity (?state (Suc 3)) \<noteq> co_identity (?state 3)"
    unfolding s3 s4 by (auto simp: sample_co_fields)
  from only_approved_pairings_authorize [OF sample_flow_new refl _ this] obtain j k peer responder sas flowID where
    "j < k" "k < 3" "accepts sample_device_crypto sample_noise sample_flow_codec sample_lib sample_codec (?state j) (?cs ! j) (flowID, peer, responder)"
    "completes sample_device_crypto sample_noise sample_flow_codec sample_lib sample_codec (?state k) (?cs ! k) (flowID, peer, sas)"
    by auto
  moreover have "co_identity (?state 4) = sample_store 1" using s4 by simp
  moreover have "length ?cs = 4" by simp
  ultimately show ?thesis by (intro exI [of _ ?cs]) blast
qed

end
