(* ===== verification/Ws_Writer.thy ===== *)
theory Ws_Writer
  imports Stream_Order Transfer_Manager Prompt_Action
begin

text \<open>
  The writer of one WebSocket connection (\<^verbatim>\<open>websocketWriter\<close> in \<^verbatim>\<open>src/internal/server/server.go\<close>), which
  sends through the Protocol V1 stream once that is negotiated. The connection is what was put on
  the wire (\<open>ww_sent\<close>) and, for every write and every clock reading by its position, whether it fails
  (\<open>ww_fails\<close>) and the time (\<open>ww_now\<close>); the theorems quantify over both. The lock that serialises the
  methods is not modelled: a method is one step.
\<close>

section \<open>Frames\<close>

datatype frame =
    TextFrame string string
  | BinaryFrame bytes
  | CloseFrame nat string
  | PingFrame

datatype writer_error =
    WriteFailed
  | StreamFailed stream_error
  | StableCodeInvalid
  | OutcomeInvalid
  | PrepareResultInvalid
  | NilStream

record websocketWriter =
  ww_protocolV1 :: "AgentStream option"
  ww_now :: "nat \<Rightarrow> time"
  ww_reads :: nat
  ww_fails :: "nat \<Rightarrow> bool"
  ww_writes :: nat
  ww_sent :: "frame list"

text \<open>A write to the connection: \<^verbatim>\<open>WriteMessage\<close>, \<^verbatim>\<open>WriteJSON\<close> or \<^verbatim>\<open>WriteControl\<close>.\<close>

definition WriteMessage :: "frame \<Rightarrow> websocketWriter \<Rightarrow> websocketWriter \<times> writer_error option" where
  "WriteMessage f w =
     (let w1 = w\<lparr>ww_writes := ww_writes w + 1\<rparr> in
      if ww_fails w (ww_writes w) then (w1, Some WriteFailed)
      else (w1\<lparr>ww_sent := ww_sent w @ [f]\<rparr>, None))"

definition currentTime :: "websocketWriter \<Rightarrow> time \<times> websocketWriter" where
  "currentTime w = (ww_now w (ww_reads w), w\<lparr>ww_reads := ww_reads w + 1\<rparr>)"

text \<open>The common end of the methods: encode at the current time, then write.\<close>

definition encode_write ::
    "(time \<Rightarrow> AgentStream \<Rightarrow> encoding) \<Rightarrow> websocketWriter \<Rightarrow> websocketWriter \<times> writer_error option" where
  "encode_write enc w =
     (case ww_protocolV1 w of None \<Rightarrow> (w, Some NilStream) | Some s \<Rightarrow>
      (let (now, w1) = currentTime w in
       case enc now s of
         (s', Inl e) \<Rightarrow> (w1\<lparr>ww_protocolV1 := Some s'\<rparr>, Some (StreamFailed e))
       | (s', Inr encoded) \<Rightarrow> WriteMessage (BinaryFrame encoded) (w1\<lparr>ww_protocolV1 := Some s'\<rparr>)))"

text \<open>The common start of the answers: commit the message, then go on.\<close>

definition commit_then ::
    "ClientStreamMessage \<Rightarrow> (websocketWriter \<Rightarrow> websocketWriter \<times> writer_error option) \<Rightarrow>
     websocketWriter \<Rightarrow> websocketWriter \<times> writer_error option" where
  "commit_then message k w =
     (case ww_protocolV1 w of None \<Rightarrow> (w, Some NilStream) | Some s \<Rightarrow>
      (case CommitClientMessage message s of
         (s', Some e) \<Rightarrow> (w\<lparr>ww_protocolV1 := Some s'\<rparr>, Some (StreamFailed e))
       | (s', None) \<Rightarrow> k (w\<lparr>ww_protocolV1 := Some s'\<rparr>)))"

section \<open>Methods\<close>

definition writeJSON :: "string \<Rightarrow> string \<Rightarrow> websocketWriter \<Rightarrow> websocketWriter \<times> writer_error option" where
  "writeJSON type data w = WriteMessage (TextFrame type data) w"

definition stableErrorMessage :: "enum32 \<Rightarrow> string option" where
  "stableErrorMessage code =
     (if code = ERROR_CODE_SESSION_START_FAILED then Some ''could not start terminal session''
      else if code = ERROR_CODE_SESSION_ALREADY_ACTIVE then Some ''session already active''
      else if code = ERROR_CODE_TERMINAL_INPUT_FAILED then Some ''could not write terminal input''
      else if code = ERROR_CODE_TERMINAL_RESIZE_FAILED then Some ''could not resize terminal''
      else if code = ERROR_CODE_UNSUPPORTED_MESSAGE then Some ''unsupported message type''
      else if code = ERROR_CODE_ATTACHMENT_TRANSFER_FAILED then Some ''attachment transfer failed''
      else if code = ERROR_CODE_ATTACHMENT_PROMPT_ACTION_FAILED then Some ''attachment prompt action failed''
      else None)"

definition writeError :: "marshal \<Rightarrow> enum32 \<Rightarrow> websocketWriter \<Rightarrow> websocketWriter \<times> writer_error option" where
  "writeError marshal code w =
     (if (case ww_protocolV1 w of None \<Rightarrow> True | Some s \<Rightarrow> \<not> UsesControlError s)
      then (case stableErrorMessage code of
              None \<Rightarrow> (w, Some StableCodeInvalid)
            | Some message \<Rightarrow> WriteMessage (TextFrame ''error'' message) w)
      else encode_write (EncodeError marshal code) w)"

definition writeProcessExit ::
    "marshal \<Rightarrow> enum32 \<Rightarrow> string \<Rightarrow> websocketWriter \<Rightarrow> websocketWriter \<times> writer_error option" where
  "writeProcessExit marshal outcome legacyMessage w =
     (if (case ww_protocolV1 w of None \<Rightarrow> True | Some s \<Rightarrow> \<not> UsesSessionProcessExit s)
      then WriteMessage (TextFrame ''exit'' legacyMessage) w
      else encode_write (EncodeProcessExit marshal outcome) w)"

text \<open>The loop of \<^verbatim>\<open>writeBinary\<close> over a Protocol V1 stream.\<close>

function write_chunks ::
    "marshal \<Rightarrow> bytes \<Rightarrow> AgentStream \<Rightarrow> websocketWriter \<Rightarrow> websocketWriter \<times> writer_error option" where
  "write_chunks marshal value s w =
     (if value = [] then (w, None)
      else let (now, w1) = currentTime w in
        case EncodeTerminalOutputChunk marshal value now s of
          (s', Inl e) \<Rightarrow> (w1\<lparr>ww_protocolV1 := Some s'\<rparr>, Some (StreamFailed e))
        | (s', Inr (encoded, consumed)) \<Rightarrow>
            (case WriteMessage (BinaryFrame encoded) (w1\<lparr>ww_protocolV1 := Some s'\<rparr>) of
               (w2, Some e) \<Rightarrow> (w2, Some e)
             | (w2, None) \<Rightarrow> write_chunks marshal (drop consumed value) s' w2))"
  by auto
termination
  by (relation "measure (\<lambda>(_, value, _, _). length value)") (auto dest!: chunk_Inr(1) [OF sym])

declare write_chunks.simps [simp del]

definition writeBinary :: "marshal \<Rightarrow> bytes \<Rightarrow> websocketWriter \<Rightarrow> websocketWriter \<times> writer_error option" where
  "writeBinary marshal value w =
     (case ww_protocolV1 w of
        None \<Rightarrow> WriteMessage (BinaryFrame value) w
      | Some s \<Rightarrow> write_chunks marshal value s w)"

definition enableProtocolV1 :: "AgentStream \<Rightarrow> websocketWriter \<Rightarrow> websocketWriter" where
  "enableProtocolV1 stream w = w\<lparr>ww_protocolV1 := Some stream\<rparr>"

definition usesSessionResume :: "websocketWriter \<Rightarrow> bool" where
  "usesSessionResume w = (case ww_protocolV1 w of None \<Rightarrow> False | Some s \<Rightarrow> UsesSessionResume s)"

definition usesControlHealth :: "websocketWriter \<Rightarrow> bool" where
  "usesControlHealth w = (case ww_protocolV1 w of None \<Rightarrow> False | Some s \<Rightarrow> UsesControlHealth s)"

definition usesTerminalResizeEnd :: "websocketWriter \<Rightarrow> bool" where
  "usesTerminalResizeEnd w = (case ww_protocolV1 w of None \<Rightarrow> False | Some s \<Rightarrow> UsesTerminalResizeEnd s)"

definition usesProtocolV1 :: "websocketWriter \<Rightarrow> bool" where
  "usesProtocolV1 w \<longleftrightarrow> ww_protocolV1 w \<noteq> None"

definition decodeProtocolV1ClientMessage ::
    "unmarshal \<Rightarrow> bytes \<Rightarrow> websocketWriter \<Rightarrow> websocketWriter \<times> (writer_error + ClientStreamMessage)" where
  "decodeProtocolV1ClientMessage unmarshal encoded w =
     (case ww_protocolV1 w of None \<Rightarrow> (w, Inl NilStream) | Some s \<Rightarrow>
      (case DecodeClientMessage unmarshal encoded s of
         (s', Inl e) \<Rightarrow> (w\<lparr>ww_protocolV1 := Some s'\<rparr>, Inl (StreamFailed e))
       | (s', Inr message) \<Rightarrow> (w\<lparr>ww_protocolV1 := Some s'\<rparr>, Inr message)))"

definition commitProtocolV1Attach ::
    "marshal \<Rightarrow> ClientStreamMessage \<Rightarrow> bytes \<Rightarrow> u64 \<Rightarrow> enum32 \<Rightarrow> websocketWriter \<Rightarrow> websocketWriter \<times> writer_error option" where
  "commitProtocolV1Attach marshal message sessionID generation disposition w =
     commit_then message (\<lambda>w.
       case BindSession sessionID generation (the (ww_protocolV1 w)) of
         (s', Some e) \<Rightarrow> (w\<lparr>ww_protocolV1 := Some s'\<rparr>, Some (StreamFailed e))
       | (s', None) \<Rightarrow> encode_write (EncodeSessionStatus marshal disposition) (w\<lparr>ww_protocolV1 := Some s'\<rparr>)) w"

definition highestProtocolV1OutboundSequence :: "websocketWriter \<Rightarrow> u64" where
  "highestProtocolV1OutboundSequence w = (case ww_protocolV1 w of None \<Rightarrow> 0 | Some s \<Rightarrow> HighestOutboundSequence s)"

definition transfer_disposition :: "TransferDisposition \<Rightarrow> enum32" where
  "transfer_disposition d = (case d of
      TransferDispositionUnknown \<Rightarrow> TRANSFER_DISPOSITION_UNKNOWN
    | TransferDispositionActive \<Rightarrow> TRANSFER_DISPOSITION_ACTIVE
    | TransferDispositionCompleted \<Rightarrow> TRANSFER_DISPOSITION_COMPLETED
    | TransferDispositionCancelled \<Rightarrow> TRANSFER_DISPOSITION_CANCELLED)"

definition respondProtocolV1AttachmentTransferStatus ::
    "marshal \<Rightarrow> ClientStreamMessage \<Rightarrow> TransferOutcome \<Rightarrow> websocketWriter \<Rightarrow> websocketWriter \<times> writer_error option" where
  "respondProtocolV1AttachmentTransferStatus marshal message outcome =
     commit_then message (encode_write (EncodeAttachmentTransferStatus marshal (m_TransferID message)
       (transfer_disposition (to_Disposition outcome)) (to_NextOffsetBytes outcome)))"

definition respondProtocolV1AttachmentPromptPrepare ::
    "marshal \<Rightarrow> ClientStreamMessage \<Rightarrow> PrepareResult \<Rightarrow> websocketWriter \<Rightarrow> websocketWriter \<times> writer_error option" where
  "respondProtocolV1AttachmentPromptPrepare marshal message result =
     commit_then message (\<lambda>w. case pr_State result of
         StatePrepared \<Rightarrow> encode_write (EncodeAttachmentPromptPreview marshal (m_ActionID message)
           PROMPT_DISPOSITION_PREPARED (pr_Preview result) (m_AppendEnter message)) w
       | StateCommitted \<Rightarrow> encode_write (EncodeAttachmentPromptPreview marshal (m_ActionID message)
           PROMPT_DISPOSITION_COMMITTED (pr_Preview result) False) w
       | _ \<Rightarrow> (w, Some PrepareResultInvalid))"

definition respondProtocolV1Ping ::
    "marshal \<Rightarrow> ClientStreamMessage \<Rightarrow> websocketWriter \<Rightarrow> websocketWriter \<times> writer_error option" where
  "respondProtocolV1Ping marshal message = commit_then message (encode_write (EncodePong marshal))"

definition commitProtocolV1ClientMessage ::
    "marshal \<Rightarrow> ClientStreamMessage \<Rightarrow> bool \<Rightarrow> websocketWriter \<Rightarrow> websocketWriter \<times> writer_error option" where
  "commitProtocolV1ClientMessage marshal message sendAcknowledgement =
     commit_then message (\<lambda>w. if \<not> sendAcknowledgement then (w, None)
       else encode_write (EncodeAcknowledgement marshal) w)"

text \<open>The closing and keep-alive frames; errors of the closes are dropped by the code.\<close>

definition closeProtocol :: "string \<Rightarrow> websocketWriter \<Rightarrow> websocketWriter" where
  "closeProtocol message w = fst (WriteMessage (CloseFrame 1002 message) w)"

definition ww_close :: "websocketWriter \<Rightarrow> websocketWriter" where
  "ww_close w = fst (WriteMessage (CloseFrame 1000 ''session ended'') w)"

definition writePing :: "websocketWriter \<Rightarrow> websocketWriter \<times> writer_error option" where
  "writePing w = WriteMessage PingFrame w"


section \<open>What is sent\<close>

text \<open>
  The frames of a successful \<^verbatim>\<open>writeBinary\<close> over Protocol V1: consecutive sequence numbers from that of the
  stream, and outputs whose concatenation is the value.
\<close>

fun carries :: "marshal \<Rightarrow> AgentStream \<Rightarrow> frame list \<Rightarrow> bytes \<Rightarrow> bool" where
  "carries marshal s [] value \<longleftrightarrow> value = []"
| "carries marshal s (f # fs) value \<longleftrightarrow>
     (\<exists>t n b. f = BinaryFrame b \<and> 1 \<le> n \<and> n \<le> length value \<and>
        marshal (terminalOutputEnvelope s (take n value) t) = Some b \<and>
        carries marshal (s\<lparr>s_nextOutbound := s_nextOutbound s + 1\<rparr>) fs (drop n value))"

lemma WriteMessage_sent:
  "WriteMessage f w = (w', e) \<Longrightarrow> ww_protocolV1 w' = ww_protocolV1 w \<and>
     ww_sent w' = (if e = None then ww_sent w @ [f] else ww_sent w) \<and> ww_fails w' = ww_fails w \<and>
     e \<in> {None, Some WriteFailed}"
  by (auto simp: WriteMessage_def Let_def split: if_splits)

lemma write_chunks_sent:
  assumes "write_chunks marshal value s w = (w', e)" "ww_protocolV1 w = Some s"
  shows "\<exists>fs k. ww_sent w' = ww_sent w @ fs \<and> carries marshal s fs (take k value) \<and> k \<le> length value \<and>
    (\<exists>n. n \<ge> length fs \<and> ww_protocolV1 w' = Some (s\<lparr>s_nextOutbound := s_nextOutbound s + of_nat n\<rparr>) \<and>
      (e \<noteq> Some WriteFailed \<longrightarrow> n = length fs)) \<and>
    (e = None \<longrightarrow> k = length value)"
  using assms
proof (induction marshal "value" s w rule: write_chunks.induct)
  case (1 marshal "value" s w)
  show ?case
  proof (cases "value = []")
    case True
    then have "w' = w" "e = None" using "1.prems"(1) by (simp_all add: write_chunks.simps [of marshal "[]"])
    then show ?thesis using "1.prems"(2) True by (intro exI [of _ "[]"] exI [of _ 0]) auto
  next
    case False
    obtain now w1 where t: "currentTime w = (now, w1)" by force
    have w1: "ww_sent w1 = ww_sent w" using t by (auto simp: currentTime_def)
    obtain s' r where c: "EncodeTerminalOutputChunk marshal value now s = (s', r)" by force
    show ?thesis
    proof (cases r)
      case (Inl err)
      then have "s' = s" using c chunk_Inl by blast
      with Inl show ?thesis
        using "1.prems" False t c w1 by (auto simp: write_chunks.simps [of marshal "value" s w] intro!: exI [of _ "[]"] exI [of _ 0])
    next
      case (Inr x)
      obtain b n where x: "x = (b, n)" by force
      note ch = chunk_Inr [OF c [unfolded Inr x]]
      obtain w2 e2 where w2: "WriteMessage (BinaryFrame b) (w1\<lparr>ww_protocolV1 := Some s'\<rparr>) = (w2, e2)" by force
      note sent = WriteMessage_sent [OF w2]
      have m: "marshal (terminalOutputEnvelope s (take n value) now) = Some b" using ch(4) by (simp add: marshalLocked_Inr)
      show ?thesis
      proof (cases e2)
        case (Some err)
        then show ?thesis
          using "1.prems" False t c Inr x w2 sent w1 ch(5)
          by (intro exI [of _ "[]"] exI [of _ 0]) (auto simp: write_chunks.simps [of marshal "value" s w] intro!: exI [of _ 1])
      next
        case None
        have more: "write_chunks marshal (drop n value) s' w2 = (w', e)"
          using None 1(2) False t c Inr x w2 by (simp add: write_chunks.simps [of marshal "value" s w])
        have "ww_protocolV1 w2 = Some s'" using sent by simp
        from "1.IH" [OF False refl t [symmetric] c [symmetric] Inr x [symmetric] w2 [symmetric] None more this]
        obtain fs k m' where ih: "ww_sent w' = ww_sent w2 @ fs" "carries marshal s' fs (take k (drop n value))"
          "k \<le> length (drop n value)" "length fs \<le> m'"
          "ww_protocolV1 w' = Some (s'\<lparr>s_nextOutbound := s_nextOutbound s' + of_nat m'\<rparr>)"
          "e \<noteq> Some WriteFailed \<longrightarrow> m' = length fs" "e = None \<longrightarrow> k = length (drop n value)"
          by blast
        have "carries marshal s (BinaryFrame b # fs) (take (n + k) value)"
        proof -
          have "take n (take (n + k) value) = take n value" "drop n (take (n + k) value) = take k (drop n value)"
            "n \<le> length (take (n + k) value)"
            using ch(2) by (simp_all add: drop_take)
          then show ?thesis
            unfolding carries.simps using ih(2) ch(1) m
            by (intro exI [of _ now] exI [of _ n] exI [of _ b]) (simp only: ch(5) simp_thms)
        qed
        moreover have "ww_sent w' = ww_sent w @ BinaryFrame b # fs" using ih(1) sent None w1 by simp
        ultimately show ?thesis
          using ih(3-7) ch(1,2,5)
          by (intro exI [of _ "BinaryFrame b # fs"] exI [of _ "n + k"]) (auto intro!: exI [of _ "Suc m'"] simp: add.assoc simp del: carries.simps)
      qed
    qed
  qed
qed

end
