(* ===== verification/Pty_Session.thy ===== *)
theory Pty_Session
  imports Ws_Writer Replay_Buffer Session_Lifecycle Tool_Adapter Go_Paths
begin

text \<open>
  One terminal session (\<^verbatim>\<open>ptySession\<close> in \<^verbatim>\<open>src/internal/server/server.go\<close>): the terminal, the attached client,
  the replay buffer of the output nobody was attached for, the lifecycle, and the session's
  attachments and prompt actions. The methods take the session's locks for their whole effect, so each
  is one step. What the session points to and shares is the \<open>heap\<close>: the writers of all connections,
  named by numbers as the code compares their pointers, the aggregate quota, and the operating system
  below the staging directory.

  The terminal is what it was given and, by the position of the call, what \<^verbatim>\<open>Write\<close> and \<^verbatim>\<open>Resize\<close>
  answer. Clock readings are an argument (\<open>ticks\<close>). A timer is the instant it is set to; that it fires
  is a call of its own, which may come late, even after the timer was stopped, as with
  \<^verbatim>\<open>time.AfterFunc\<close>.
\<close>

section \<open>State\<close>

record ticks =
  tk_now :: time
  tk_buffer :: time
  tk_timer :: time

datatype terminal_error = TerminalWrite | ErrShortWrite | TerminalResize

record terminal =
  tt_written :: bytes
  tt_calls :: nat
  tt_write :: "nat \<Rightarrow> bytes \<Rightarrow> int \<times> bool"
  tt_resizes :: nat
  tt_resize :: "nat \<Rightarrow> bool"
  tt_size :: "int \<times> int"

datatype reason =
    NoReason | ReasonAgentShutdown | ReasonExplicitEnd | ReasonIdleTimeout | ReasonProcessExit
  | ReasonReconnectExpired | ReasonSuperseded

datatype outcome = NoOutcome | OutcomeSuccess | OutcomeFailure

datatype log_event =
    EventSessionStarted sessionState
  | EventSessionAttached sessionState
  | EventSessionDetached sessionState
  | EventSessionEnding sessionState reason
  | EventSessionEnded sessionState reason outcome
  | EventSessionCleanupFailed sessionState reason

record ptySession =
  ps_command :: "string list"
  ps_terminal :: terminal
  ps_cancelled :: bool
  ps_done :: bool
  ps_client :: "nat option"
  ps_replay :: replayBuffer
  ps_sessionID :: bytes
  ps_generation :: u64
  ps_resumeCheckpoint :: bool
  ps_lastDetachedOutput :: u64
  ps_lifecycle :: sessionState
  ps_detachTimer :: "time option"
  ps_idleTimeout :: duration
  ps_idleTimer :: "time option"
  ps_startedAt :: time
  ps_lastActivityAt :: time
  ps_resourcesClosed :: nat
  ps_log :: "log_event list"
  ps_staging :: "SessionStaging option"
  ps_workspaceRoot :: string
  ps_workingDirectory :: string
  ps_toolAdapter :: Adapter
  ps_promptActions :: Registry
  ps_attachmentManager :: "Transfer_Manager.Manager option"
  ps_attachmentsClosed :: bool
  ps_endReason :: reason

record heap =
  hp_writers :: "nat \<Rightarrow> websocketWriter"
  hp_aggregate :: aggregate
  hp_world :: world

definition on_writer ::
    "nat \<Rightarrow> (websocketWriter \<Rightarrow> websocketWriter \<times> 'r) \<Rightarrow> heap \<Rightarrow> heap \<times> 'r" where
  "on_writer i f h = (case f (hp_writers h i) of (w, r) \<Rightarrow> (h\<lparr>hp_writers := (hp_writers h)(i := w)\<rparr>, r))"

definition logEvent :: "log_event \<Rightarrow> ptySession \<Rightarrow> ptySession" where
  "logEvent e s = s\<lparr>ps_log := ps_log s @ [e]\<rparr>"

definition maxBufferedOutputBytes :: int where "maxBufferedOutputBytes = 1024 * 1024"
definition bufferedOutputMaxAge :: duration where "bufferedOutputMaxAge = 2 * minute"

section \<open>Timers and activity\<close>

definition resetIdleTimerLocked :: "ticks \<Rightarrow> ptySession \<Rightarrow> ptySession" where
  "resetIdleTimerLocked tk s =
     (if ps_idleTimeout s \<le> 0 \<or> lc_done (ps_lifecycle s) \<or> ps_lifecycle s = Ending then s
      else s\<lparr>ps_idleTimer := Some (tk_timer tk + ps_idleTimeout s)\<rparr>)"

definition touchActivity :: "ticks \<Rightarrow> ptySession \<Rightarrow> ptySession" where
  "touchActivity tk s = s\<lparr>ps_lastActivityAt := tk_now tk\<rparr>"

definition start_banner :: "string list \<Rightarrow> bytes" where
  "start_banner command =
     string_bytes (''started PTY shell: '' @ join_elements '' '' command @ [CHR 0x0D, CHR 0x0A])"

text \<open>
  \<^verbatim>\<open>newPTYSession\<close> once the launcher has started the command; the fields that the server fills in
  afterwards have their zero values, and the adapter is any until then.
\<close>

definition newPTYSession ::
    "ticks \<Rightarrow> string list \<Rightarrow> terminal \<Rightarrow> duration \<Rightarrow> SessionStaging option \<Rightarrow> Adapter \<Rightarrow> ptySession" where
  "newPTYSession tk command term idleTimeout staging adapter =
     (let s = \<lparr>ps_command = command, ps_terminal = term, ps_cancelled = False, ps_done = False, ps_client = None,
            ps_replay = newReplayBuffer maxBufferedOutputBytes bufferedOutputMaxAge, ps_sessionID = [],
            ps_generation = 0, ps_resumeCheckpoint = False, ps_lastDetachedOutput = 0,
            ps_lifecycle = newSessionLifecycle, ps_detachTimer = None, ps_idleTimeout = idleTimeout,
            ps_idleTimer = None, ps_startedAt = tk_now tk, ps_lastActivityAt = tk_now tk, ps_resourcesClosed = 0,
            ps_log = [], ps_staging = staging, ps_workspaceRoot = [], ps_workingDirectory = [],
            ps_toolAdapter = adapter, ps_promptActions = NewRegistry, ps_attachmentManager = None,
            ps_attachmentsClosed = False, ps_endReason = NoReason\<rparr>;
          s = s\<lparr>ps_lifecycle := fst (started (ps_lifecycle s))\<rparr>;
          s = logEvent (EventSessionStarted (ps_lifecycle s)) s;
          s = s\<lparr>ps_replay := rb_append (tk_buffer tk) (start_banner command) (ps_replay s)\<rparr>
      in resetIdleTimerLocked tk s)"

section \<open>Attaching and detaching\<close>

definition beginAttachLocked :: "ticks \<Rightarrow> nat \<Rightarrow> ptySession \<Rightarrow> ptySession \<times> bool" where
  "beginAttachLocked tk writer s =
     (if ps_client s \<noteq> None then (s, False)
      else case attach (ps_lifecycle s) of
        (l, False) \<Rightarrow> (s\<lparr>ps_lifecycle := l\<rparr>, False)
      | (l, True) \<Rightarrow>
          (let s1 = s\<lparr>ps_lifecycle := l, ps_detachTimer := None, ps_client := Some writer,
                 ps_lastActivityAt := tk_now tk\<rparr>;
               s2 = resetIdleTimerLocked tk s1
           in (logEvent (EventSessionAttached (ps_lifecycle s2)) s2, True)))"

fun write_all :: "marshal \<Rightarrow> bytes list \<Rightarrow> websocketWriter \<Rightarrow> websocketWriter \<times> writer_error option" where
  "write_all marshal [] w = (w, None)"
| "write_all marshal (chunk # chunks) w =
     (case writeBinary marshal chunk w of
        (w', Some e) \<Rightarrow> (w', Some e)
      | (w', None) \<Rightarrow> write_all marshal chunks w')"

definition ps_attach :: "marshal \<Rightarrow> ticks \<Rightarrow> nat \<Rightarrow> ptySession \<Rightarrow> heap \<Rightarrow> ptySession \<times> heap \<times> bool" where
  "ps_attach marshal tk writer s h =
     (case beginAttachLocked tk writer s of
        (s1, False) \<Rightarrow> (s1, h, False)
      | (s1, True) \<Rightarrow>
          (case drain (tk_buffer tk) (ps_replay s1) of (replay, buffered) \<Rightarrow>
           case on_writer writer (write_all marshal buffered) h of (h1, e) \<Rightarrow>
           (s1\<lparr>ps_replay := replay\<rparr>, h1, e = None)))"

definition resumeDispositionLocked :: "ClientStreamMessage \<Rightarrow> bool \<Rightarrow> bool \<Rightarrow> ptySession \<Rightarrow> enum32" where
  "resumeDispositionLocked request wasCreated replayComplete s =
     (let isFresh = m_SessionID request = [] \<and> m_SessionGeneration request = 0 \<and> m_LastAcknowledgedSequence request = 0;
          identityMatches = m_SessionID request = ps_sessionID s \<and> m_SessionGeneration request = ps_generation s
      in if wasCreated \<and> isFresh then RESUME_DISPOSITION_FRESH
         else if \<not> wasCreated \<and> identityMatches \<and> ps_resumeCheckpoint s \<and> replayComplete \<and>
                 m_LastAcknowledgedSequence request = ps_lastDetachedOutput s
         then RESUME_DISPOSITION_RESUMED
         else RESUME_DISPOSITION_RESYNC_REQUIRED)"

definition attach_send ::
    "marshal \<Rightarrow> ClientStreamMessage \<Rightarrow> bytes \<Rightarrow> u64 \<Rightarrow> enum32 \<Rightarrow> bytes list \<Rightarrow> websocketWriter \<Rightarrow>
     websocketWriter \<times> writer_error option" where
  "attach_send marshal request sessionID generation disposition buffered w =
     (case commitProtocolV1Attach marshal request sessionID generation disposition w of
        (w1, Some e) \<Rightarrow> (w1, Some e)
      | (w1, None) \<Rightarrow> write_all marshal buffered w1)"

definition attachProtocolV1 ::
    "marshal \<Rightarrow> ticks \<Rightarrow> nat \<Rightarrow> ClientStreamMessage \<Rightarrow> bool \<Rightarrow> ptySession \<Rightarrow> heap \<Rightarrow>
     ptySession \<times> heap \<times> bool \<times> writer_error option" where
  "attachProtocolV1 marshal tk writer request wasCreated s h =
     (case beginAttachLocked tk writer s of
        (s1, False) \<Rightarrow> (s1, h, False, None)
      | (s1, True) \<Rightarrow>
          (case drainWithStatus (tk_buffer tk) (ps_replay s1) of (replay, buffered, replayComplete) \<Rightarrow>
           let s2 = s1\<lparr>ps_replay := replay\<rparr>;
               disposition = resumeDispositionLocked request wasCreated replayComplete s2
           in case on_writer writer (attach_send marshal request (ps_sessionID s2) (ps_generation s2) disposition buffered) h of
                (h1, e) \<Rightarrow> (s2, h1, True, e)))"

text \<open>The flag of the result: the session is to be terminated at once, as no reconnection is waited for.\<close>

definition ps_detach :: "ticks \<Rightarrow> nat \<Rightarrow> duration \<Rightarrow> ptySession \<Rightarrow> heap \<Rightarrow> ptySession \<times> bool" where
  "ps_detach tk writer timeout s h =
     (if ps_client s \<noteq> Some writer then (s, False)
      else
        (let w = hp_writers h writer;
             s1 = (if usesSessionResume w
                   then s\<lparr>ps_client := None, ps_resumeCheckpoint := True,
                          ps_lastDetachedOutput := highestProtocolV1OutboundSequence w\<rparr>
                   else s\<lparr>ps_client := None, ps_resumeCheckpoint := False, ps_lastDetachedOutput := 0\<rparr>)
         in case detach (ps_lifecycle s1) of
              (l, False) \<Rightarrow> (s1\<lparr>ps_lifecycle := l\<rparr>, False)
            | (l, True) \<Rightarrow>
                (let s2 = logEvent (EventSessionDetached l) (s1\<lparr>ps_lifecycle := l\<rparr>)
                 in if timeout \<le> 0 then (s2, True)
                    else (s2\<lparr>ps_detachTimer := Some (tk_timer tk + timeout)\<rparr>, False))))"

definition isEnded :: "ptySession \<Rightarrow> bool" where
  "isEnded s = lc_done (ps_lifecycle s)"

section \<open>Attachments\<close>

datatype session_failure =
    AttachmentsClosed
  | AttachmentsUnavailable
  | InitializeTransfers transfer_error
  | TransferFailed transfer_error "transfer_error option"
  | NotAnAttachment
  | CompletedPathInvalid
  | PromptReference
  | AdapterFailed adapter_error
  | ActionFailed action_error
  | PromptsClosed

definition transfers_closed :: "ptySession \<Rightarrow> bool" where
  "transfers_closed s \<longleftrightarrow> ps_lifecycle s = Ending \<or> lc_done (ps_lifecycle s) \<or> ps_attachmentsClosed s"

definition transferManager ::
    "ptySession \<Rightarrow> heap \<Rightarrow> ptySession \<times> heap \<times> (session_failure + Transfer_Manager.Manager)" where
  "transferManager s h =
     (if transfers_closed s then (s, h, Inl AttachmentsClosed)
      else case ps_attachmentManager s of
        Some manager \<Rightarrow> (s, h, Inr manager)
      | None \<Rightarrow>
          (case ps_staging s of
             None \<Rightarrow> (s, h, Inl AttachmentsUnavailable)
           | Some staging \<Rightarrow>
               (case NewManagerWithAggregate (hp_aggregate h) staging (hp_world h) of
                  (Inl e, agg, staging', w) \<Rightarrow>
                    (s\<lparr>ps_staging := Some staging'\<rparr>, h\<lparr>hp_aggregate := agg, hp_world := w\<rparr>, Inl (InitializeTransfers e))
                | (Inr st, agg, staging', w) \<Rightarrow>
                    (s\<lparr>ps_staging := Some staging', ps_attachmentManager := Some (tm_m st)\<rparr>,
                     h\<lparr>hp_aggregate := agg, hp_world := w\<rparr>, Inr (tm_m st)))))"

text \<open>An operation of the manager, on what it points to.\<close>

definition manager_view :: "Transfer_Manager.Manager \<Rightarrow> ptySession \<Rightarrow> heap \<Rightarrow> tm" where
  "manager_view manager s h =
     \<lparr>tm_m = manager, tm_staging = the (ps_staging s), tm_agg = hp_aggregate h, tm_w = hp_world h\<rparr>"

definition store_view :: "tm \<Rightarrow> ptySession \<Rightarrow> heap \<Rightarrow> ptySession \<times> heap" where
  "store_view st s h =
     (s\<lparr>ps_attachmentManager := Some (tm_m st), ps_staging := Some (tm_staging st)\<rparr>,
      h\<lparr>hp_aggregate := tm_agg st, hp_world := tm_w st\<rparr>)"

definition attachment_operation :: "libs \<Rightarrow> ClientStreamMessage \<Rightarrow> tm \<Rightarrow> (transfer_error option \<times> tm) option" where
  "attachment_operation lb message st =
     (case m_Kind message of
        KindAttachmentBegin \<Rightarrow> Some (Begin lb \<lparr>br_TransferID = m_TransferID message,
          br_DisplayName = m_DisplayName message, br_DeclaredContentType = m_DeclaredContentType message,
          br_DeclaredExtension = m_DeclaredExtension message, br_TotalSizeBytes = m_TotalSizeBytes message,
          br_TotalSHA256 = m_TotalSHA256 message\<rparr> st)
      | KindAttachmentChunk \<Rightarrow> Some (Chunk lb \<lparr>cr_TransferID = m_TransferID message,
          cr_OffsetBytes = m_OffsetBytes message, cr_Data = m_Data message, cr_ChunkSHA256 = m_ChunkSHA256 message\<rparr> st)
      | KindAttachmentComplete \<Rightarrow> Some (case Complete lb (m_TransferID message) st of
          (Inl e, st') \<Rightarrow> (Some e, st') | (Inr _, st') \<Rightarrow> (None, st'))
      | KindAttachmentCancel \<Rightarrow> Some (tm_Cancel (m_TransferID message) st)
      | KindAttachmentDiscard \<Rightarrow> Some (Discard (m_TransferIDs message) st)
      | _ \<Rightarrow> None)"

definition applyAttachmentMessage ::
    "libs \<Rightarrow> ClientStreamMessage \<Rightarrow> ptySession \<Rightarrow> heap \<Rightarrow> ptySession \<times> heap \<times> session_failure option" where
  "applyAttachmentMessage lb message s h =
     (case transferManager s h of
        (s1, h1, Inl e) \<Rightarrow> (s1, h1, Some e)
      | (s1, h1, Inr manager) \<Rightarrow>
          (case attachment_operation lb message (manager_view manager s1 h1) of
             None \<Rightarrow> (s1, h1, Some NotAnAttachment)
           | Some (None, st) \<Rightarrow> (case store_view st s1 h1 of (s2, h2) \<Rightarrow> (s2, h2, None))
           | Some (Some e, st) \<Rightarrow>
               (if m_Kind message = KindAttachmentDiscard
                then (case store_view st s1 h1 of (s2, h2) \<Rightarrow> (s2, h2, Some (TransferFailed e None)))
                else (case tm_Cancel (m_TransferID message) st of (e', st') \<Rightarrow>
                      case store_view st' s1 h1 of (s2, h2) \<Rightarrow> (s2, h2, Some (TransferFailed e e'))))))"

definition attachmentOutcome :: "bytes \<Rightarrow> ptySession \<Rightarrow> heap \<Rightarrow> session_failure + TransferOutcome" where
  "attachmentOutcome transferID s h =
     (if transfers_closed s then Inl AttachmentsClosed
      else case ps_attachmentManager s of
        None \<Rightarrow> Inr \<lparr>to_Disposition = TransferDispositionUnknown, to_NextOffsetBytes = 0\<rparr>
      | Some manager \<Rightarrow>
          (case Outcome transferID (manager_view manager s h) of
             Inl e \<Rightarrow> Inl (TransferFailed e None)
           | Inr r \<Rightarrow> Inr r))"

section \<open>Prompt actions\<close>

fun prompt_references :: "string \<Rightarrow> string \<Rightarrow> CompletedAttachment list \<Rightarrow> session_failure + string list" where
  "prompt_references root dir [] = Inr []"
| "prompt_references root dir (c # cs) =
     (if \<not> IsLocal (ca_RelativePath c) then Inl CompletedPathInvalid
      else case path_Rel dir (path_Join root (ca_RelativePath c)) of
        None \<Rightarrow> Inl PromptReference
      | Some p \<Rightarrow> (case prompt_references root dir cs of Inl e \<Rightarrow> Inl e | Inr ps \<Rightarrow> Inr (p # ps)))"

definition prepareAttachmentPrompt ::
    "(bytes \<Rightarrow> bytes) \<Rightarrow> ClientStreamMessage \<Rightarrow> ptySession \<Rightarrow> heap \<Rightarrow>
     ptySession \<times> heap \<times> (session_failure + PrepareResult)" where
  "prepareAttachmentPrompt sha256 message s h =
     (case transferManager s h of
        (s1, h1, Inl e) \<Rightarrow> (s1, h1, Inl e)
      | (s1, h1, Inr manager) \<Rightarrow>
          (case CompletedAttachments (m_TransferIDs message) (manager_view manager s1 h1) of
             Inl e \<Rightarrow> (s1, h1, Inl (TransferFailed e None))
           | Inr completed \<Rightarrow>
               (case prompt_references (ps_workspaceRoot s1) (ps_workingDirectory s1) completed of
                  Inl e \<Rightarrow> (s1, h1, Inl e)
                | Inr relativePaths \<Rightarrow>
                    (case ad_Prepare (ps_toolAdapter s1) \<lparr>Prompt = m_Prompt message, RelativePaths = relativePaths,
                            Submit = m_AppendEnter message\<rparr> of
                       Inl e \<Rightarrow> (s1, h1, Inl (AdapterFailed e))
                     | Inr action \<Rightarrow>
                         (case Prepare sha256 (m_ActionID message) \<lparr>Preview = pa_Preview action,
                                 TerminalInput = pa_TerminalInput action\<rparr> (ps_promptActions s1) of
                            (r, Inl e) \<Rightarrow> (s1\<lparr>ps_promptActions := r\<rparr>, h1, Inl (ActionFailed e))
                          | (r, Inr result) \<Rightarrow> (s1\<lparr>ps_promptActions := r\<rparr>, h1, Inr result))))))"

text \<open>The loop of \<^verbatim>\<open>writeInputBytes\<close>.\<close>

function write_input :: "bytes \<Rightarrow> terminal \<Rightarrow> terminal \<times> terminal_error option" where
  "write_input input t =
     (if input = [] then (t, None)
      else case tt_write t (tt_calls t) input of (count, err) \<Rightarrow>
        let t1 = t\<lparr>tt_calls := tt_calls t + 1, tt_written := tt_written t @ take (nat count) input\<rparr> in
        if err then (t1, Some TerminalWrite)
        else if count \<le> 0 \<or> count > int (length input) then (t1, Some ErrShortWrite)
        else write_input (drop (nat count) input) t1)"
  by auto
termination by (relation "measure (\<lambda>(input, _). length input)") auto

declare write_input.simps [simp del]

definition writeInputBytes :: "ticks \<Rightarrow> bytes \<Rightarrow> ptySession \<Rightarrow> ptySession \<times> terminal_error option" where
  "writeInputBytes tk input s =
     (case write_input input (ps_terminal s) of
        (t, Some e) \<Rightarrow> (s\<lparr>ps_terminal := t\<rparr>, Some e)
      | (t, None) \<Rightarrow> (resetIdleTimerLocked tk (touchActivity tk (s\<lparr>ps_terminal := t\<rparr>)), None))"

definition writeInput :: "ticks \<Rightarrow> string \<Rightarrow> ptySession \<Rightarrow> ptySession \<times> terminal_error option" where
  "writeInput tk input s = writeInputBytes tk (string_bytes input) s"

definition prompts_closed :: "ptySession \<Rightarrow> bool" where
  "prompts_closed s \<longleftrightarrow> ps_lifecycle s = Ending \<or> lc_done (ps_lifecycle s)"

text \<open>
  \<^verbatim>\<open>commitAttachmentPrompt\<close>: the registry is given \<^verbatim>\<open>writeInputBytes\<close> as its writer; its calls, at most one,
  then have their effect on the session.
\<close>

definition commitAttachmentPrompt :: "ticks \<Rightarrow> bytes \<Rightarrow> ptySession \<Rightarrow> ptySession \<times> session_failure option" where
  "commitAttachmentPrompt tk actionID s =
     (if prompts_closed s then (s, Some PromptsClosed)
      else case Commit actionID (Some (\<lambda>input. map_option (\<lambda>_. ''terminal write failed'') (snd (writeInputBytes tk input s))))
                  (ps_promptActions s) of
        (r, inputs, e) \<Rightarrow>
          ((fold (\<lambda>input s. fst (writeInputBytes tk input s)) inputs s)\<lparr>ps_promptActions := r\<rparr>,
           map_option ActionFailed e))"

definition cancelAttachmentPrompt :: "bytes \<Rightarrow> ptySession \<Rightarrow> ptySession \<times> session_failure option" where
  "cancelAttachmentPrompt actionID s =
     (if prompts_closed s then (s, Some PromptsClosed)
      else case Cancel actionID (ps_promptActions s) of (r, e) \<Rightarrow>
        (s\<lparr>ps_promptActions := r\<rparr>, map_option ActionFailed e))"

definition ps_resize :: "ticks \<Rightarrow> int \<Rightarrow> int \<Rightarrow> ptySession \<Rightarrow> ptySession \<times> terminal_error option" where
  "ps_resize tk cols rows s =
     (let t = ps_terminal s; refused = tt_resize t (tt_resizes t);
          t1 = (if refused then t\<lparr>tt_resizes := tt_resizes t + 1\<rparr>
                else t\<lparr>tt_resizes := tt_resizes t + 1, tt_size := (cols, rows)\<rparr>);
          s1 = s\<lparr>ps_terminal := t1\<rparr>
      in if refused then (s1, Some TerminalResize)
         else (resetIdleTimerLocked tk (touchActivity tk s1), None))"

section \<open>Output and the end\<close>

definition deliverOutput :: "marshal \<Rightarrow> ticks \<Rightarrow> bytes \<Rightarrow> ptySession \<Rightarrow> heap \<Rightarrow> ptySession \<times> heap" where
  "deliverOutput marshal tk chunk s h =
     (if \<not> acceptsOutput (ps_lifecycle s) then (s, h)
      else
        (let s1 = s\<lparr>ps_lastActivityAt := tk_now tk\<rparr> in
         case ps_client s of
           None \<Rightarrow> (s1\<lparr>ps_replay := rb_append (tk_buffer tk) chunk (ps_replay s1)\<rparr>, h)
         | Some client \<Rightarrow> (s1, fst (on_writer client (writeBinary marshal chunk) h))))"

text \<open>The resources are closed by the first of the calls only.\<close>

definition closeResources :: "ptySession \<Rightarrow> ptySession" where
  "closeResources s = (if ps_resourcesClosed s = 0 then s\<lparr>ps_resourcesClosed := 1\<rparr> else s)"

definition terminateWithReason :: "reason \<Rightarrow> ptySession \<Rightarrow> ptySession" where
  "terminateWithReason why s =
     (case beginEnding (ps_lifecycle s) of
        (l, False) \<Rightarrow> s\<lparr>ps_lifecycle := l\<rparr>
      | (l, True) \<Rightarrow>
          closeResources ((logEvent (EventSessionEnding l why)
            (s\<lparr>ps_lifecycle := l, ps_detachTimer := None, ps_idleTimer := None, ps_endReason := why,
               ps_attachmentsClosed := True\<rparr>))\<lparr>ps_cancelled := True\<rparr>))"

definition idle_banner :: bytes where
  "idle_banner = string_bytes (''idle timeout reached; ending session'' @ [CHR 0x0D, CHR 0x0A])"

definition expireIdle :: "marshal \<Rightarrow> ticks \<Rightarrow> ptySession \<Rightarrow> heap \<Rightarrow> ptySession \<times> heap" where
  "expireIdle marshal tk s h =
     (case deliverOutput marshal tk idle_banner s h of (s1, h1) \<Rightarrow> (terminateWithReason ReasonIdleTimeout s1, h1))"

text \<open>
  \<^verbatim>\<open>closeAttachmentManager\<close>; \<open>order\<close> is the order in which \<^verbatim>\<open>Close\<close> meets the active transfers.
\<close>

definition closeAttachmentManager ::
    "bytes list \<Rightarrow> ptySession \<Rightarrow> heap \<Rightarrow> ptySession \<times> heap \<times> transfer_error option" where
  "closeAttachmentManager order s h =
     (let s1 = s\<lparr>ps_attachmentsClosed := True\<rparr> in
      case ps_attachmentManager s1 of
        None \<Rightarrow> (s1, h, None)
      | Some manager \<Rightarrow>
          (case tm_Close order (manager_view manager s1 h) of (e, st) \<Rightarrow>
           case store_view st s1 h of (s2, h2) \<Rightarrow>
           (case e of Some e \<Rightarrow> (s2, h2, Some e) | None \<Rightarrow> (s2\<lparr>ps_attachmentManager := None\<rparr>, h2, None))))"

text \<open>
  \<^verbatim>\<open>SessionStaging.Cleanup\<close> (\<^verbatim>\<open>src/internal/attachment/staging.go\<close>), with what the two boundary checks,
  \<^verbatim>\<open>Lstat\<close> and the removals answer.
\<close>

record cleanup_calls =
  cc_boundary :: bool
  cc_lstat :: "os_error + node"
  cc_remove :: "os_error option"
  cc_target :: bool
  cc_removeAll :: "os_error option"

definition Cleanup :: "cleanup_calls \<Rightarrow> SessionStaging \<Rightarrow> world \<Rightarrow> SessionStaging \<times> world \<times> bool" where
  "Cleanup cc staging w =
     (let cleaned = staging\<lparr>st_cleaned := True, st_completedBytesReserved := 0\<rparr> in
      if st_cleaned staging then (staging, w, True)
      else if st_openDirectories staging > 0 \<or> st_transferManagerOpen staging then (staging, w, False)
      else if \<not> cc_boundary cc then (staging, w, False)
      else case cc_lstat cc of
        Inl ENotExist \<Rightarrow> (cleaned, w, True)
      | Inl _ \<Rightarrow> (staging, w, False)
      | Inr DirNode \<Rightarrow>
          (if \<not> cc_target cc then (staging, w, False)
           else case cc_removeAll cc of
             Some _ \<Rightarrow> (staging, w, False)
           | None \<Rightarrow> (cleaned, w\<lparr>w_fs := (w_fs w)\<lparr>fs_entries := Map.empty\<rparr>\<rparr>, True))
      | Inr _ \<Rightarrow>
          (case cc_remove cc of
             None \<Rightarrow> (cleaned, w, True)
           | Some ENotExist \<Rightarrow> (cleaned, w, True)
           | Some _ \<Rightarrow> (staging, w, False)))"

definition cleanup_session ::
    "bytes list \<Rightarrow> cleanup_calls \<Rightarrow> reason \<Rightarrow> ptySession \<Rightarrow> heap \<Rightarrow> ptySession \<times> heap" where
  "cleanup_session order cc why s h =
     (case closeAttachmentManager order (closeResources s\<lparr>ps_promptActions := Close (ps_promptActions s)\<rparr>) h of
        (s1, h1, closeErr) \<Rightarrow>
          (case (case (closeErr, ps_staging s1) of
                   (None, Some staging) \<Rightarrow>
                     (case Cleanup cc staging (hp_world h1) of (staging', w, cleanupOk) \<Rightarrow>
                      (s1\<lparr>ps_staging := Some staging'\<rparr>, h1\<lparr>hp_world := w\<rparr>, cleanupOk))
                 | _ \<Rightarrow> (s1, h1, closeErr = None)) of
             (s2, h2, allOk) \<Rightarrow>
               ((if allOk then s2 else logEvent (EventSessionCleanupFailed (ps_lifecycle s2) why) s2)\<lparr>ps_done := True\<rparr>, h2)))"

definition waitForExit ::
    "marshal \<Rightarrow> bool \<Rightarrow> string \<Rightarrow> bytes list \<Rightarrow> cleanup_calls \<Rightarrow> ptySession \<Rightarrow> heap \<Rightarrow> ptySession \<times> heap" where
  "waitForExit marshal runErr errText order cc s h =
     (case finish runErr (ps_lifecycle s) of
        (l, False) \<Rightarrow> (s\<lparr>ps_lifecycle := l\<rparr>, h)
      | (l, True) \<Rightarrow>
          (let why = (if ps_endReason s = NoReason then ReasonProcessExit else ps_endReason s);
               outcome = (if l = Failed then OutcomeFailure else OutcomeSuccess);
               exitOutcome = (if l = Failed then PROCESS_EXIT_OUTCOME_FAILURE else PROCESS_EXIT_OUTCOME_SUCCESS);
               s1 = logEvent (EventSessionEnded l why outcome)
                 (s\<lparr>ps_lifecycle := l, ps_attachmentsClosed := True, ps_detachTimer := None, ps_idleTimer := None,
                    ps_client := None\<rparr>);
               h1 = (case ps_client s of
                       None \<Rightarrow> h
                     | Some client \<Rightarrow>
                         fst (on_writer client (\<lambda>w. (ww_close (fst (writeProcessExit marshal exitOutcome
                           (if runErr then errText else ''process exited'') w)), ())) h))
           in cleanup_session order cc why s1 h1))"

end
