(* ===== verification/Pty_Safety.thy ===== *)
theory Pty_Safety
  imports Pty_Session
begin

text \<open>
  What a session guarantees over every order of calls: a client that is told its output was resumed
  has missed nothing, one client is attached at a time, and a session that has ended stays silent.
\<close>

section \<open>Calls\<close>

text \<open>
  The calls that the connections' goroutines, the output and exit goroutines and the timers make.
  \<open>PWriter\<close> stands for whatever a connection does with its own writer in between.
\<close>

datatype pty_call =
    PAttach ticks nat
  | PAttachV1 ticks nat ClientStreamMessage bool
  | PDetach ticks nat duration
  | POutput ticks bytes
  | PInput ticks bytes
  | PResize ticks int int
  | PAttachment ClientStreamMessage
  | PPrepare ClientStreamMessage
  | PCommit ticks bytes
  | PCancel bytes
  | PTerminate reason
  | PExpireIdle ticks
  | PExit bool string "bytes list" cleanup_calls
  | PWriter nat websocketWriter

datatype pty_result =
    RAttach bool "writer_error option"
  | RDetach bool
  | RTerminal "terminal_error option"
  | RSession "session_failure option"
  | RPrepared "session_failure + PrepareResult"
  | RNothing

record pty_env =
  pe_marshal :: marshal
  pe_libs :: libs

fun pty_step :: "pty_env \<Rightarrow> ptySession \<times> heap \<Rightarrow> pty_call \<Rightarrow> (ptySession \<times> heap) \<times> pty_result" where
  "pty_step env (s, h) (PAttach tk w) =
     (case ps_attach (pe_marshal env) tk w s h of (s', h', r) \<Rightarrow> ((s', h'), RAttach r None))"
| "pty_step env (s, h) (PAttachV1 tk w request wasCreated) =
     (case attachProtocolV1 (pe_marshal env) tk w request wasCreated s h of (s', h', r, e) \<Rightarrow> ((s', h'), RAttach r e))"
| "pty_step env (s, h) (PDetach tk w timeout) =
     (case ps_detach tk w timeout s h of (s', r) \<Rightarrow> ((s', h), RDetach r))"
| "pty_step env (s, h) (POutput tk chunk) = (deliverOutput (pe_marshal env) tk chunk s h, RNothing)"
| "pty_step env (s, h) (PInput tk input) = (case writeInputBytes tk input s of (s', r) \<Rightarrow> ((s', h), RTerminal r))"
| "pty_step env (s, h) (PResize tk cols rows) = (case ps_resize tk cols rows s of (s', r) \<Rightarrow> ((s', h), RTerminal r))"
| "pty_step env (s, h) (PAttachment m) =
     (case applyAttachmentMessage (pe_libs env) m s h of (s', h', r) \<Rightarrow> ((s', h'), RSession r))"
| "pty_step env (s, h) (PPrepare m) =
     (case prepareAttachmentPrompt (lb_sha256 (pe_libs env)) m s h of (s', h', r) \<Rightarrow> ((s', h'), RPrepared r))"
| "pty_step env (s, h) (PCommit tk k) = (case commitAttachmentPrompt tk k s of (s', r) \<Rightarrow> ((s', h), RSession r))"
| "pty_step env (s, h) (PCancel k) = (case cancelAttachmentPrompt k s of (s', r) \<Rightarrow> ((s', h), RSession r))"
| "pty_step env (s, h) (PTerminate why) = ((terminateWithReason why s, h), RNothing)"
| "pty_step env (s, h) (PExpireIdle tk) = (expireIdle (pe_marshal env) tk s h, RNothing)"
| "pty_step env (s, h) (PExit runErr errText order cc) =
     (waitForExit (pe_marshal env) runErr errText order cc s h, RNothing)"
| "pty_step env (s, h) (PWriter i w) = ((s, h\<lparr>hp_writers := (hp_writers h)(i := w)\<rparr>), RNothing)"

section \<open>What the calls change\<close>

text \<open>The part of the session that decides who gets which output.\<close>

definition core :: "ptySession \<Rightarrow> nat option \<times> replayBuffer \<times> sessionState \<times> bool \<times> u64 \<times> bytes \<times> u64" where
  "core s = (ps_client s, ps_replay s, ps_lifecycle s, ps_resumeCheckpoint s, ps_lastDetachedOutput s,
     ps_sessionID s, ps_generation s)"

lemma core_eq: "core s = core s' \<longleftrightarrow> ps_client s = ps_client s' \<and> ps_replay s = ps_replay s' \<and> ps_lifecycle s = ps_lifecycle s' \<and>
    ps_resumeCheckpoint s = ps_resumeCheckpoint s' \<and> ps_lastDetachedOutput s = ps_lastDetachedOutput s' \<and>
    ps_sessionID s = ps_sessionID s' \<and> ps_generation s = ps_generation s'"
  by (auto simp: core_def)

lemma core_updates [simp]:
  "core (resetIdleTimerLocked tk s) = core s" "core (touchActivity tk s) = core s" "core (logEvent e s) = core s"
  "core (closeResources s) = core s" "core (s\<lparr>ps_terminal := t\<rparr>) = core s" "core (s\<lparr>ps_promptActions := r\<rparr>) = core s"
  "core (s\<lparr>ps_staging := st\<rparr>) = core s" "core (s\<lparr>ps_attachmentManager := m\<rparr>) = core s" "core (s\<lparr>ps_done := d\<rparr>) = core s"
  "core (s\<lparr>ps_attachmentsClosed := d\<rparr>) = core s" "core (s\<lparr>ps_lastActivityAt := x\<rparr>) = core s"
  by (auto simp: core_def resetIdleTimerLocked_def touchActivity_def logEvent_def closeResources_def)

lemma writeInputBytes_core [simp]: "core (fst (writeInputBytes tk input s)) = core s"
  by (auto simp: writeInputBytes_def split: prod.splits option.splits)

lemma commit_writes_core: "core (fold (\<lambda>input s. fst (writeInputBytes tk input s)) inputs s) = core s"
  by (induction inputs arbitrary: s) simp_all

lemma store_view_core: "store_view st s h = (s', h') \<Longrightarrow> core s' = core s \<and> hp_writers h' = hp_writers h"
  by (auto simp: store_view_def core_def)

lemma transferManager_core: "transferManager s h = (s', h', r) \<Longrightarrow> core s' = core s \<and> hp_writers h' = hp_writers h"
  by (auto simp: transferManager_def core_def split: if_splits option.splits prod.splits sum.splits)

fun quiet :: "pty_call \<Rightarrow> bool" where
  "quiet (PInput _ _) = True"
| "quiet (PResize _ _ _) = True"
| "quiet (PAttachment _) = True"
| "quiet (PPrepare _) = True"
| "quiet (PCommit _ _) = True"
| "quiet (PCancel _) = True"
| "quiet (PWriter _ _) = True"
| "quiet _ = False"

lemma applyAttachmentMessage_core:
  "applyAttachmentMessage lb m s h = (s', h', r) \<Longrightarrow> core s' = core s \<and> hp_writers h' = hp_writers h"
  by (auto simp: applyAttachmentMessage_def split: prod.splits sum.splits option.splits if_splits
      dest!: transferManager_core store_view_core)

lemma prepareAttachmentPrompt_core:
  "prepareAttachmentPrompt sha m s h = (s', h', r) \<Longrightarrow> core s' = core s \<and> hp_writers h' = hp_writers h"
  by (auto simp: prepareAttachmentPrompt_def split: prod.splits sum.splits dest!: transferManager_core)

lemma quiet_core: "quiet c \<Longrightarrow> core (fst (fst (pty_step env (s, h) c))) = core s"
  by (cases c)
     (auto simp: ps_resize_def commitAttachmentPrompt_def cancelAttachmentPrompt_def Let_def commit_writes_core
       split: prod.splits dest: applyAttachmentMessage_core prepareAttachmentPrompt_core,
      metis fst_conv writeInputBytes_core)

section \<open>Who is attached\<close>

text \<open>
  A client is attached exactly while the session is connected, or still attached while it ends; nothing
  is then buffered. The buffer always holds a log.
\<close>

definition pty_inv :: "ptySession \<times> heap \<Rightarrow> bool" where
  "pty_inv x \<longleftrightarrow> (let s = fst x in
     (ps_client s \<noteq> None \<longrightarrow> ps_lifecycle s \<in> {Connected, Ending} \<and> rb_rel (ps_replay s) []) \<and>
     (ps_lifecycle s = Connected \<longrightarrow> ps_client s \<noteq> None) \<and> (\<exists>log. rb_rel (ps_replay s) log))"

lemma pty_inv_core: "core s' = core s \<Longrightarrow> pty_inv (s', h') \<longleftrightarrow> pty_inv (s, h)"
  by (simp add: pty_inv_def core_eq)

lemma beginAttach_cases:
  assumes "beginAttachLocked tk w s = (s', r)"
  shows "\<not> r \<and> core s' = core s \<or>
    r \<and> ps_client s = None \<and> ps_lifecycle s = Detached \<and>
      core s' = (Some w, ps_replay s, Connected, ps_resumeCheckpoint s, ps_lastDetachedOutput s, ps_sessionID s, ps_generation s)"
  using assms
  by (auto simp: beginAttachLocked_def attach_def core_def Let_def logEvent_def resetIdleTimerLocked_def split: if_splits)

lemma attach_cases:
  assumes "ps_attach marshal tk w s h = (s', h', r)"
  obtains (refused) "\<not> r" "core s' = core s" "h' = h"
  | (attached) replay out done' where "ps_client s = None" "ps_lifecycle s = Detached"
      "drainWithStatus (tk_buffer tk) (ps_replay s) = (replay, out, done')"
      "core s' = (Some w, replay, Connected, ps_resumeCheckpoint s, ps_lastDetachedOutput s, ps_sessionID s, ps_generation s)"
  using assms beginAttach_cases [of tk w s]
  by (force simp: ps_attach_def drain_def core_def split: prod.splits bool.splits)

lemma attachV1_cases:
  assumes "attachProtocolV1 marshal tk w request wasCreated s h = (s', h', r, e)"
  obtains (refused) "\<not> r" "core s' = core s" "h' = h"
  | (attached) replay out complete where "r" "ps_client s = None" "ps_lifecycle s = Detached"
      "drainWithStatus (tk_buffer tk) (ps_replay s) = (replay, out, complete)"
      "core s' = (Some w, replay, Connected, ps_resumeCheckpoint s, ps_lastDetachedOutput s, ps_sessionID s, ps_generation s)"
      "on_writer w (attach_send marshal request (ps_sessionID s) (ps_generation s)
         (resumeDispositionLocked request wasCreated complete s) out) h = (h', e)"
proof -
  obtain s1 r1 where b: "beginAttachLocked tk w s = (s1, r1)" by force
  show thesis
  proof (cases r1)
    case False
    then show thesis using refused assms b beginAttach_cases [OF b] by (auto simp: attachProtocolV1_def)
  next
    case True
    then have c: "ps_client s = None" "ps_lifecycle s = Detached"
      "core s1 = (Some w, ps_replay s, Connected, ps_resumeCheckpoint s, ps_lastDetachedOutput s, ps_sessionID s, ps_generation s)"
      using beginAttach_cases [OF b] by auto
    obtain replay out complete where d: "drainWithStatus (tk_buffer tk) (ps_replay s) = (replay, out, complete)"
      by (metis prod_cases3)
    have same: "resumeDispositionLocked request wasCreated complete (s1\<lparr>ps_replay := replay\<rparr>) =
        resumeDispositionLocked request wasCreated complete s"
      using c(3) by (simp add: resumeDispositionLocked_def core_def)
    show thesis
      using attached [OF _ c(1,2) d] assms b True c(3) d same
      by (auto simp: attachProtocolV1_def core_def Let_def split: prod.splits)
  qed
qed

lemma detach_cases:
  assumes "ps_detach tk w timeout s h = (s', r)"
  obtains (other) "s' = s" "ps_client s \<noteq> Some w"
  | (detached) "ps_client s = Some w"
      "core s' = (None, ps_replay s, if ps_lifecycle s = Connected then Detached else ps_lifecycle s,
         usesSessionResume (hp_writers h w),
         if usesSessionResume (hp_writers h w) then highestProtocolV1OutboundSequence (hp_writers h w) else 0,
         ps_sessionID s, ps_generation s)"
  using assms
  by (cases "ps_client s = Some w") (auto simp: ps_detach_def detach_def core_def Let_def logEvent_def split: if_splits prod.splits)

lemma terminate_core: "core (terminateWithReason why s) =
    (ps_client s, ps_replay s, if ps_lifecycle s \<in> {Starting, Connected, Detached} then Ending else ps_lifecycle s,
     ps_resumeCheckpoint s, ps_lastDetachedOutput s, ps_sessionID s, ps_generation s)"
  by (cases "ps_lifecycle s")
     (auto simp: terminateWithReason_def beginEnding_def core_def logEvent_def closeResources_def)

lemma deliver_cases:
  assumes "deliverOutput marshal tk chunk s h = (s', h')"
  shows "\<not> acceptsOutput (ps_lifecycle s) \<and> s' = s \<and> h' = h \<or>
    (\<exists>w. acceptsOutput (ps_lifecycle s) \<and> ps_client s = Some w \<and> core s' = core s \<and>
       h' = fst (on_writer w (writeBinary marshal chunk) h)) \<or>
    acceptsOutput (ps_lifecycle s) \<and> ps_client s = None \<and> h' = h \<and>
      core s' = (None, rb_append (tk_buffer tk) chunk (ps_replay s), ps_lifecycle s, ps_resumeCheckpoint s,
        ps_lastDetachedOutput s, ps_sessionID s, ps_generation s)"
  using assms by (auto simp: deliverOutput_def core_def Let_def split: if_splits option.splits)

lemma closeAttachmentManager_core:
  "closeAttachmentManager order s h = (s', h', e) \<Longrightarrow> core s' = core s \<and> hp_writers h' = hp_writers h"
  by (auto simp: closeAttachmentManager_def Let_def split: option.splits prod.splits dest!: store_view_core)

lemma cleanup_session_core:
  assumes "cleanup_session order cc why s h = (s', h')"
  shows "core s' = core s \<and> hp_writers h' = hp_writers h \<and> ps_done s'"
proof -
  obtain s1 h1 e where c: "closeAttachmentManager order (closeResources s\<lparr>ps_promptActions := Close (ps_promptActions s)\<rparr>) h = (s1, h1, e)"
    by (metis prod_cases3)
  from closeAttachmentManager_core [OF c] have k: "core s1 = core s" "hp_writers h1 = hp_writers h" by simp_all
  show ?thesis
    using assms c k by (auto simp: cleanup_session_def split: prod.splits option.splits if_splits)
qed

lemma exit_cases:
  assumes "waitForExit marshal runErr errText order cc s h = (s', h')"
  shows "lc_done (ps_lifecycle s) \<and> s' = s \<and> h' = h \<or>
    \<not> lc_done (ps_lifecycle s) \<and> ps_client s' = None \<and> lc_done (ps_lifecycle s') \<and> ps_replay s' = ps_replay s \<and> ps_done s'"
proof (cases "lc_done (ps_lifecycle s)")
  case True
  then show ?thesis using assms by (auto simp: waitForExit_def finish_def lc_done_def)
next
  case False
  obtain l where l: "finish runErr (ps_lifecycle s) = (l, True)" "lc_done l"
    using False by (cases "ps_lifecycle s") (auto simp: finish_def lc_done_def)
  show ?thesis
    using assms l False by (auto simp: waitForExit_def Let_def dest!: cleanup_session_core simp: core_eq logEvent_def)
qed

lemma pty_inv_step: "pty_inv x \<Longrightarrow> pty_inv (fst (pty_step env x c))"
proof -
  obtain s h where x: "x = (s, h)" by force
  assume i: "pty_inv x"
  show "pty_inv (fst (pty_step env x c))"
  proof (cases "quiet c")
    case True
    then show ?thesis using quiet_core [OF True, of env s h] pty_inv_core i x by (metis prod.collapse)
  next
    case False
    obtain log where log: "rb_rel (ps_replay s) log" using i x by (auto simp: pty_inv_def Let_def)
    obtain s' h' where st: "fst (pty_step env x c) = (s', h')" by force
    have app: "Ex (rb_rel (rb_append t d (ps_replay s)))" for t d by (rule exI) (rule rb.append_rel [OF log])
    note simps = pty_inv_def Let_def core_def x app
    show ?thesis
    proof (cases c)
      case (PAttach tk w)
      then obtain r where "ps_attach (pe_marshal env) tk w s h = (s', h', r)" using st x by (auto split: prod.splits)
      then show ?thesis
        by (cases rule: attach_cases) (use i st in \<open>auto simp: simps dest: rb.drain_rel [OF log]\<close>)
    next
      case (PAttachV1 tk w request wasCreated)
      then obtain r e where "attachProtocolV1 (pe_marshal env) tk w request wasCreated s h = (s', h', r, e)"
        using st x by (auto split: prod.splits)
      then show ?thesis
        by (cases rule: attachV1_cases) (use i st in \<open>auto simp: simps dest: rb.drain_rel [OF log]\<close>)
    next
      case (PDetach tk w timeout)
      then obtain r where "ps_detach tk w timeout s h = (s', r)" using st x by (auto split: prod.splits)
      then show ?thesis
        by (cases rule: detach_cases) (use i st in \<open>auto simp: simps\<close>)
    next
      case (POutput tk chunk)
      then show ?thesis
        using st x i deliver_cases [of "pe_marshal env" tk chunk s h s' h'] by (auto simp: simps acceptsOutput_def)
    next
      case (PExpireIdle tk)
      then obtain s1 where s1: "deliverOutput (pe_marshal env) tk idle_banner s h = (s1, h')" "s' = terminateWithReason ReasonIdleTimeout s1"
        using st x by (auto simp: expireIdle_def split: prod.splits)
      have "pty_inv (s1, h')"
        using i x deliver_cases [OF s1(1)] by (auto simp: simps acceptsOutput_def)
      then show ?thesis using st s1(2) terminate_core [of ReasonIdleTimeout s1] by (auto simp: simps)
    next
      case (PTerminate why)
      then show ?thesis using st i x terminate_core [of why s] by (auto simp: simps)
    next
      case (PExit runErr errText order cc)
      then show ?thesis
        using st i x log exit_cases [of "pe_marshal env" runErr errText order cc s h s' h'] by (auto simp: simps lc_done_def)
    qed (use False in simp_all)
  qed
qed

interpretation pty: step_machine "pty_step env" pty_inv "\<lambda>_. True" for env
  by unfold_locales (rule pty_inv_step)

section \<open>Output while nobody is attached\<close>

fun output_of :: "ptySession \<Rightarrow> pty_call \<Rightarrow> bytes" where
  "output_of s (POutput tk chunk) = (if acceptsOutput (ps_lifecycle s) then chunk else [])"
| "output_of s _ = []"

text \<open>How a session comes to be detached, or stays so.\<close>

lemma detached_step:
  assumes "pty_inv (s, h)" "pty_step env (s, h) c = ((s', h'), r)" "ps_lifecycle s' = Detached"
  shows "ps_lifecycle s = Detached \<and> ps_resumeCheckpoint s' = ps_resumeCheckpoint s \<and>
      ps_lastDetachedOutput s' = ps_lastDetachedOutput s \<and>
      (\<forall>log. rb_rel (ps_replay s) log \<longrightarrow> rb_rel (ps_replay s') (log @ output_of s c)) \<or>
    (\<exists>tk w timeout. c = PDetach tk w timeout \<and> ps_client s = Some w \<and> rb_rel (ps_replay s') [] \<and>
      ps_resumeCheckpoint s' = usesSessionResume (hp_writers h w) \<and>
      (ps_resumeCheckpoint s' \<longrightarrow> ps_lastDetachedOutput s' = highestProtocolV1OutboundSequence (hp_writers h w)))"
proof (cases "quiet c")
  case True
  then have "core s' = core s" using quiet_core [OF True, of env s h] assms(2) by simp
  moreover have "output_of s c = []" using True by (cases c) auto
  ultimately show ?thesis using assms(3) by (auto simp: core_eq)
next
  case False
  have d: "ps_client s' = None" using pty_inv_step [OF assms(1), of env c] assms(2,3) by (auto simp: pty_inv_def Let_def)
  show ?thesis
  proof (cases c)
    case (PAttach tk w)
    then have "ps_attach (pe_marshal env) tk w s h = (s', h', case r of RAttach r _ \<Rightarrow> r | _ \<Rightarrow> False)"
      using assms(2) by (auto split: prod.splits)
    then show ?thesis by (cases rule: attach_cases) (use PAttach assms(3) in \<open>auto simp: core_def\<close>)
  next
    case (PAttachV1 tk w request wasCreated)
    then obtain a e where "attachProtocolV1 (pe_marshal env) tk w request wasCreated s h = (s', h', a, e)"
      using assms(2) by (auto split: prod.splits)
    then show ?thesis by (cases rule: attachV1_cases) (use PAttachV1 assms(3) in \<open>auto simp: core_def\<close>)
  next
    case (PDetach tk w timeout)
    then obtain b where "ps_detach tk w timeout s h = (s', b)" using assms(2) by (auto split: prod.splits)
    then show ?thesis
      by (cases rule: detach_cases)
         (use PDetach assms(1,3) in \<open>auto simp: core_def pty_inv_def Let_def split: if_splits\<close>)
  next
    case (POutput tk chunk)
    then show ?thesis
      using assms deliver_cases [of "pe_marshal env" tk chunk s h s' h'] rb.append_rel
      by (auto simp: core_def pty_inv_def Let_def acceptsOutput_def)
  next
    case (PTerminate why)
    then show ?thesis using assms(2,3) terminate_core [of why s] by (auto simp: core_def split: if_splits)
  next
    case (PExpireIdle tk)
    then obtain s1 where "s' = terminateWithReason ReasonIdleTimeout s1"
      using assms(2) by (auto simp: expireIdle_def split: prod.splits)
    then show ?thesis using assms(3) terminate_core [of ReasonIdleTimeout s1] by (auto simp: core_def split: if_splits)
  next
    case (PExit runErr errText order cc)
    then show ?thesis
      using assms(2,3) exit_cases [of "pe_marshal env" runErr errText order cc s h s' h'] by (auto simp: lc_done_def)
  qed (use False in simp_all)
qed

text \<open>A session as the server configures it, and its states while it is used.\<close>

definition configured_session ::
    "ticks \<Rightarrow> string list \<Rightarrow> terminal \<Rightarrow> duration \<Rightarrow> SessionStaging option \<Rightarrow> Adapter \<Rightarrow> string \<Rightarrow> string \<Rightarrow> bytes \<Rightarrow> u64 \<Rightarrow> ptySession" where
  "configured_session tk command term idleTimeout staging adapter root dir sessionID generation =
     (newPTYSession tk command term idleTimeout staging adapter)
       \<lparr>ps_workspaceRoot := root, ps_workingDirectory := dir, ps_sessionID := sessionID, ps_generation := generation\<rparr>"

definition pty_at :: "pty_env \<Rightarrow> ptySession \<Rightarrow> heap \<Rightarrow> pty_call list \<Rightarrow> nat \<Rightarrow> ptySession \<times> heap" where
  "pty_at env s h cs k = fst (run (pty_step env) (s, h) (take k cs))"

definition produced :: "pty_env \<Rightarrow> ptySession \<Rightarrow> heap \<Rightarrow> pty_call list \<Rightarrow> nat \<Rightarrow> nat \<Rightarrow> bytes" where
  "produced env s h cs i j = concat (map (\<lambda>k. output_of (fst (pty_at env s h cs k)) (cs ! k)) [i..<j])"

lemma produced_Suc: "i \<le> j \<Longrightarrow> produced env s h cs i (Suc j) = produced env s h cs i j @ output_of (fst (pty_at env s h cs j)) (cs ! j)"
  by (simp add: produced_def)

lemma pty_at_simps:
  "pty_at env s h cs 0 = (s, h)"
  "k < length cs \<Longrightarrow> pty_at env s h cs (Suc k) = fst (pty_step env (pty_at env s h cs k) (cs ! k))"
  by (simp_all add: pty_at_def take_Suc_conv_app_nth fst_run_append)

lemma configured_core:
  "\<exists>b. core (configured_session tk command term idleTimeout staging adapter root dir sessionID generation) =
     (None, b, Detached, False, 0, sessionID, generation) \<and> Ex (rb_rel b)"
proof -
  have "Ex (rb_rel (rb_append t d (newReplayBuffer a b)))" for t d a b
    by (rule exI) (rule rb.append_rel [OF newReplayBuffer_rel])
  then show ?thesis
    by (simp add: configured_session_def newPTYSession_def Let_def core_def resetIdleTimerLocked_def logEvent_def
        newSessionLifecycle_def started_def lc_done_def)
qed

lemma configured_inv: "pty_inv (configured_session tk command term idleTimeout staging adapter root dir sessionID generation, h)"
  using configured_core [of tk command "term" idleTimeout staging adapter root dir sessionID generation]
  by (auto simp: pty_inv_def core_def)

lemma pty_at_inv: "pty_inv (s, h) \<Longrightarrow> pty_inv (pty_at env s h cs k)"
  unfolding pty_at_def by (rule pty.run_inv) (simp_all add: list_all_iff)

lemma detached_history:
  assumes "pty_inv (s0, h0)" "\<not> ps_resumeCheckpoint s0" "n \<le> length cs"
    and "ps_lifecycle (fst (pty_at env s0 h0 cs n)) = Detached" "ps_resumeCheckpoint (fst (pty_at env s0 h0 cs n))"
  shows "\<exists>d < n. \<exists>tk w timeout. cs ! d = PDetach tk w timeout \<and> ps_client (fst (pty_at env s0 h0 cs d)) = Some w \<and>
    ps_lastDetachedOutput (fst (pty_at env s0 h0 cs n)) = highestProtocolV1OutboundSequence (hp_writers (snd (pty_at env s0 h0 cs d)) w) \<and>
    (\<forall>k. d < k \<and> k \<le> n \<longrightarrow> ps_client (fst (pty_at env s0 h0 cs k)) = None) \<and>
    rb_rel (ps_replay (fst (pty_at env s0 h0 cs n))) (produced env s0 h0 cs (Suc d) n)"
  using assms(3-5)
proof (induction n)
  case 0
  then show ?case using assms(2) by (simp add: pty_at_simps)
next
  case (Suc n)
  let ?s = "\<lambda>k. fst (pty_at env s0 h0 cs k)" and ?h = "\<lambda>k. snd (pty_at env s0 h0 cs k)"
  have n: "n < length cs" using Suc.prems(1) by simp
  obtain r where step: "pty_step env (?s n, ?h n) (cs ! n) = ((?s (Suc n), ?h (Suc n)), r)"
    using pty_at_simps(2) [OF n] by (metis prod.collapse)
  have i: "pty_inv (?s n, ?h n)" using pty_at_inv [OF assms(1)] by simp
  have none: "ps_client (?s (Suc n)) = None"
    using pty_at_inv [OF assms(1), of env cs "Suc n"] Suc.prems(2) by (auto simp: pty_inv_def Let_def)
  from detached_step [OF i step Suc.prems(2)] show ?case
  proof (elim disjE conjE exE)
    assume same: "ps_lifecycle (?s n) = Detached" "ps_resumeCheckpoint (?s (Suc n)) = ps_resumeCheckpoint (?s n)"
      "ps_lastDetachedOutput (?s (Suc n)) = ps_lastDetachedOutput (?s n)"
      "\<forall>log. rb_rel (ps_replay (?s n)) log \<longrightarrow> rb_rel (ps_replay (?s (Suc n))) (log @ output_of (?s n) (cs ! n))"
    then obtain d tk w timeout where "d < n" and *: "cs ! d = PDetach tk w timeout" "ps_client (?s d) = Some w"
      "ps_lastDetachedOutput (?s n) = highestProtocolV1OutboundSequence (hp_writers (?h d) w)"
      "\<forall>k. d < k \<and> k \<le> n \<longrightarrow> ps_client (?s k) = None"
      "rb_rel (ps_replay (?s n)) (produced env s0 h0 cs (Suc d) n)"
      using Suc.IH Suc.prems(1,3) by auto
    then have "rb_rel (ps_replay (?s (Suc n))) (produced env s0 h0 cs (Suc d) (Suc n))"
      using same(4) by (simp add: produced_Suc)
    with * none same(3) \<open>d < n\<close> show ?thesis
      by (intro exI [of _ d] conjI exI [of _ tk] exI [of _ w] exI [of _ timeout]) (auto simp: le_Suc_eq)
  next
    fix tk w timeout
    assume h: "cs ! n = PDetach tk w timeout" "ps_client (?s n) = Some w" "rb_rel (ps_replay (?s (Suc n))) []"
      "ps_resumeCheckpoint (?s (Suc n)) \<longrightarrow>
        ps_lastDetachedOutput (?s (Suc n)) = highestProtocolV1OutboundSequence (hp_writers (?h n) w)"
    show ?thesis
      using h none Suc.prems(3)
      by (intro exI [of _ n] conjI exI [of _ tk] exI [of _ w] exI [of _ timeout]) (auto simp: le_Suc_eq produced_def)
  qed
qed

section \<open>What an attachment sends\<close>

abbreviation advance :: "nat \<Rightarrow> AgentStream \<Rightarrow> AgentStream" where
  "advance n s \<equiv> s\<lparr>s_nextOutbound := s_nextOutbound s + of_nat n\<rparr>"

lemma carries_append:
  "carries marshal s fs v \<Longrightarrow> carries marshal (advance (length fs) s) gs u \<Longrightarrow> carries marshal s (fs @ gs) (v @ u)"
proof (induction fs arbitrary: s v)
  case (Cons f fs)
  obtain t n b where f: "f = BinaryFrame b" "1 \<le> n" "n \<le> length v" "marshal (terminalOutputEnvelope s (take n v) t) = Some b"
    and rest: "carries marshal (advance 1 s) fs (drop n v)"
    using Cons.prems(1) by auto
  have "advance (length fs) (advance 1 s) = advance (length (f # fs)) s" by (simp add: add.assoc)
  then have "carries marshal (advance (length fs) (advance 1 s)) gs u" using Cons.prems(2) by (simp only:)
  from Cons.IH [OF rest this] have "carries marshal (advance 1 s) (fs @ gs) (drop n v @ u)" .
  then show ?case using f by (auto intro!: exI [of _ t] exI [of _ n])
qed simp

lemma write_all_sent:
  assumes "write_all marshal chunks w = (w', None)" "ww_protocolV1 w = Some s"
  shows "\<exists>fs. ww_sent w' = ww_sent w @ fs \<and> carries marshal s fs (concat chunks) \<and>
    ww_protocolV1 w' = Some (advance (length fs) s)"
  using assms
proof (induction chunks arbitrary: w s)
  case Nil
  then show ?case by (intro exI [of _ "[]"]) auto
next
  case (Cons chunk chunks)
  obtain w1 where w1: "writeBinary marshal chunk w = (w1, None)" "write_all marshal chunks w1 = (w', None)"
    using Cons.prems(1) by (auto split: prod.splits option.splits)
  then have "write_chunks marshal chunk s w = (w1, None)" using Cons.prems(2) by (simp add: writeBinary_def)
  from write_chunks_sent [OF this Cons.prems(2)] obtain fs where
    fs: "ww_sent w1 = ww_sent w @ fs" "carries marshal s fs chunk" "ww_protocolV1 w1 = Some (advance (length fs) s)"
    by auto
  from Cons.IH [OF w1(2) fs(3)] obtain gs where
    gs: "ww_sent w' = ww_sent w1 @ gs" "carries marshal (advance (length fs) s) gs (concat chunks)"
      "ww_protocolV1 w' = Some (advance (length gs) (advance (length fs) s))"
    by blast
  then show ?case
    using fs(1) carries_append [OF fs(2) gs(2)] by (intro exI [of _ "fs @ gs"]) (simp add: add.assoc)
qed

lemma encode_write_ok:
  assumes "encode_write enc w = (w', None)" "ww_protocolV1 w = Some s"
  obtains t b s' where "enc t s = (s', Inr b)" "ww_sent w' = ww_sent w @ [BinaryFrame b]" "ww_protocolV1 w' = Some s'"
proof -
  obtain s' r where e: "enc (ww_now w (ww_reads w)) s = (s', r)" by force
  then obtain b where "r = Inr b" using assms by (cases r) (auto simp: encode_write_def currentTime_def)
  then show thesis
    using that [OF e [unfolded \<open>r = Inr b\<close>]] assms e
    by (auto simp: encode_write_def currentTime_def dest!: WriteMessage_sent)
qed

lemma commit_attach_sent:
  assumes "commitProtocolV1Attach marshal request sid gen disposition w = (w', None)"
  obtains s s1 t b where "ww_protocolV1 w = Some s" "s_nextInbound s = m_Sequence request"
    "s_sessionID s1 = sid" "s_sessionGeneration s1 = gen" "s_nextOutbound s1 = s_nextOutbound s"
    "marshal (locked_envelope s1 (Envelope_SessionStatus disposition) t) = Some b"
    "ww_sent w' = ww_sent w @ [BinaryFrame b]" "ww_protocolV1 w' = Some (advance 1 s1)"
proof -
  obtain s where s: "ww_protocolV1 w = Some s" using assms by (auto simp: commitProtocolV1Attach_def commit_then_def split: option.splits)
  obtain s0 where c: "CommitClientMessage request s = (s0, None)"
    using assms s by (auto simp: commitProtocolV1Attach_def commit_then_def split: option.splits prod.splits)
  obtain s1 where b: "BindSession sid gen s0 = (s1, None)"
    using assms s c by (auto simp: commitProtocolV1Attach_def commit_then_def split: option.splits prod.splits)
  have "encode_write (EncodeSessionStatus marshal disposition) (w\<lparr>ww_protocolV1 := Some s1\<rparr>) = (w', None)"
    using assms s c b by (simp add: commitProtocolV1Attach_def commit_then_def)
  then obtain t bs s2 where e: "EncodeSessionStatus marshal disposition t s1 = (s2, Inr bs)"
    "ww_sent w' = ww_sent w @ [BinaryFrame bs]" "ww_protocolV1 w' = Some s2"
    by (rule encode_write_ok) auto
  have "encodeLocked marshal (Envelope_SessionStatus disposition) t s1 = (s2, Inr bs)"
    using e(1) by (simp add: EncodeSessionStatus_def split: if_splits)
  then have "marshal (locked_envelope s1 (Envelope_SessionStatus disposition) t) = Some bs" "s2 = advance 1 s1"
    by (auto simp: encodeLocked_def marshalLocked_Inr split: sum.splits)
  moreover have "s_nextInbound s = m_Sequence request" "s_nextOutbound s0 = s_nextOutbound s"
    using c by (auto simp: CommitClientMessage_def split: if_splits)
  moreover have "s_sessionID s1 = sid" "s_sessionGeneration s1 = gen" "s_nextOutbound s1 = s_nextOutbound s0"
    using b by (auto simp: BindSession_def split: if_splits)
  ultimately show thesis using that [OF s] e(2,3) by auto
qed

lemma attach_send_ok:
  assumes "attach_send marshal request sid gen disposition chunks w = (w', None)"
  shows "\<exists>s1 t b fs. marshal (locked_envelope s1 (Envelope_SessionStatus disposition) t) = Some b \<and>
    s_sessionID s1 = sid \<and> s_sessionGeneration s1 = gen \<and>
    ww_sent w' = ww_sent w @ BinaryFrame b # fs \<and> carries marshal (advance 1 s1) fs (concat chunks)"
proof -
  obtain w1 where w1: "commitProtocolV1Attach marshal request sid gen disposition w = (w1, None)"
    "write_all marshal chunks w1 = (w', None)"
    using assms by (auto simp: attach_send_def split: prod.splits option.splits)
  obtain s1 t b where c: "s_sessionID s1 = sid" "s_sessionGeneration s1 = gen"
    "marshal (locked_envelope s1 (Envelope_SessionStatus disposition) t) = Some b"
    "ww_sent w1 = ww_sent w @ [BinaryFrame b]" "ww_protocolV1 w1 = Some (advance 1 s1)"
    using commit_attach_sent [OF w1(1)] by metis
  then show ?thesis using write_all_sent [OF w1(2) c(5)] by auto
qed

section \<open>Resuming\<close>

text \<open>The disposition that the attachment of a client answers.\<close>

definition disposition_for :: "ticks \<Rightarrow> ClientStreamMessage \<Rightarrow> bool \<Rightarrow> ptySession \<Rightarrow> enum32" where
  "disposition_for tk request wasCreated s =
     (case drainWithStatus (tk_buffer tk) (ps_replay s) of (_, _, complete) \<Rightarrow>
      resumeDispositionLocked request wasCreated complete s)"

text \<open>
  C1. \<^bold>\<open>A resumed client misses nothing.\<close> In every sequence of calls on a session, when an attaching client is
  answered that it resumed, and the answer was sent, then it names this session, and there was a last
  client before it, since whose detachment nobody was attached: the sequence number that the new client
  acknowledges is the highest that the previous connection had used, and what follows the answer on the
  wire is, in consecutively numbered envelopes, exactly the output that the terminal produced since
  that detachment, from its first byte.
\<close>

theorem resumed_output_gapless:
  fixes env start h0 cs
  assumes "start = configured_session tk0 command term idleTimeout staging adapter root dir sid gen"
    and "e < length cs" "cs ! e = PAttachV1 tk w request wasCreated"
    and "snd (pty_step env (pty_at env start h0 cs e) (cs ! e)) = RAttach True None"
    and "disposition_for tk request wasCreated (fst (pty_at env start h0 cs e)) = RESUME_DISPOSITION_RESUMED"
  shows "m_SessionID request = ps_sessionID (fst (pty_at env start h0 cs e)) \<and>
    m_SessionGeneration request = ps_generation (fst (pty_at env start h0 cs e)) \<and>
    (\<exists>d < e. \<exists>tk' w' timeout s1 t b fs. cs ! d = PDetach tk' w' timeout \<and>
      ps_client (fst (pty_at env start h0 cs d)) = Some w' \<and>
      m_LastAcknowledgedSequence request =
        highestProtocolV1OutboundSequence (hp_writers (snd (pty_at env start h0 cs d)) w') \<and>
      (\<forall>k. d < k \<and> k \<le> e \<longrightarrow> ps_client (fst (pty_at env start h0 cs k)) = None) \<and>
      pe_marshal env (locked_envelope s1 (Envelope_SessionStatus RESUME_DISPOSITION_RESUMED) t) = Some b \<and>
      ww_sent (hp_writers (snd (pty_at env start h0 cs (Suc e))) w) =
        ww_sent (hp_writers (snd (pty_at env start h0 cs e)) w) @ BinaryFrame b # fs \<and>
      carries (pe_marshal env) (advance 1 s1) fs (produced env start h0 cs (Suc d) e))"
proof -
  let ?s = "fst (pty_at env start h0 cs e)" and ?h = "snd (pty_at env start h0 cs e)"
  obtain s' h' where a: "attachProtocolV1 (pe_marshal env) tk w request wasCreated ?s ?h = (s', h', True, None)"
    using assms(3,4) by (cases "pty_at env start h0 cs e") (auto split: prod.splits)
  have next_state: "pty_at env start h0 cs (Suc e) = (s', h')"
    using pty_at_simps(2) [OF assms(2), of env start h0] a assms(3) by (cases "pty_at env start h0 cs e") simp
  from a obtain replay out complete where at: "ps_lifecycle ?s = Detached"
    "drainWithStatus (tk_buffer tk) (ps_replay ?s) = (replay, out, complete)"
    "on_writer w (attach_send (pe_marshal env) request (ps_sessionID ?s) (ps_generation ?s)
       (resumeDispositionLocked request wasCreated complete ?s) out) ?h = (h', None)"
    by (cases rule: attachV1_cases) auto
  have disp: "resumeDispositionLocked request wasCreated complete ?s = RESUME_DISPOSITION_RESUMED"
    using assms(5) at(2) by (simp add: disposition_for_def)
  then have c: "m_SessionID request = ps_sessionID ?s" "m_SessionGeneration request = ps_generation ?s"
    "ps_resumeCheckpoint ?s" complete "m_LastAcknowledgedSequence request = ps_lastDetachedOutput ?s"
    by (auto simp: resumeDispositionLocked_def Let_def split: if_splits)
  have start: "pty_inv (start, h0)" "\<not> ps_resumeCheckpoint start"
    using configured_inv configured_core [of tk0 command "term" idleTimeout staging adapter root dir sid gen]
    by (auto simp: assms(1) core_def)
  from detached_history [OF start _ at(1) c(3)] assms(2) obtain d tk' w' timeout where d: "d < e"
    "cs ! d = PDetach tk' w' timeout" "ps_client (fst (pty_at env start h0 cs d)) = Some w'"
    "ps_lastDetachedOutput ?s = highestProtocolV1OutboundSequence (hp_writers (snd (pty_at env start h0 cs d)) w')"
    "\<forall>k. d < k \<and> k \<le> e \<longrightarrow> ps_client (fst (pty_at env start h0 cs k)) = None"
    "rb_rel (ps_replay ?s) (produced env start h0 cs (Suc d) e)"
    by auto
  have out: "concat out = produced env start h0 cs (Suc d) e"
    using rb.drain_complete [OF d(6) at(2)] c(4) by simp
  obtain s1 t b fs where "pe_marshal env (locked_envelope s1 (Envelope_SessionStatus RESUME_DISPOSITION_RESUMED) t) = Some b"
    "ww_sent (hp_writers h' w) = ww_sent (hp_writers ?h w) @ BinaryFrame b # fs"
    "carries (pe_marshal env) (advance 1 s1) fs (concat out)"
    using at(3) attach_send_ok disp by (fastforce simp: on_writer_def split: prod.splits)
  then have "cs ! d = PDetach tk' w' timeout \<and> ps_client (fst (pty_at env start h0 cs d)) = Some w' \<and>
      m_LastAcknowledgedSequence request =
        highestProtocolV1OutboundSequence (hp_writers (snd (pty_at env start h0 cs d)) w') \<and>
      (\<forall>k. d < k \<and> k \<le> e \<longrightarrow> ps_client (fst (pty_at env start h0 cs k)) = None) \<and>
      pe_marshal env (locked_envelope s1 (Envelope_SessionStatus RESUME_DISPOSITION_RESUMED) t) = Some b \<and>
      ww_sent (hp_writers (snd (pty_at env start h0 cs (Suc e))) w) =
        ww_sent (hp_writers (snd (pty_at env start h0 cs e)) w) @ BinaryFrame b # fs \<and>
      carries (pe_marshal env) (advance 1 s1) fs (produced env start h0 cs (Suc d) e)"
    using c(5) d(2-5) out next_state by (simp del: carries.simps)
  then show ?thesis using c(1,2) d(1) by blast
qed

section \<open>The end of a session\<close>

lemma done_facts: "lc_done l \<Longrightarrow> \<not> acceptsOutput l \<and> l \<noteq> Detached \<and> l \<noteq> Connected \<and> beginEnding l = (l, False) \<and> finish e l = (l, False)"
  by (auto simp: lc_done_def acceptsOutput_def beginEnding_def finish_def)

lemma only_terminal:
  fixes s :: ptySession
  shows "\<exists>t a. s\<lparr>ps_terminal := x\<rparr> = s\<lparr>ps_terminal := t, ps_lastActivityAt := a\<rparr>"
  by (intro exI [of _ x] exI [of _ "ps_lastActivityAt s"]) simp

lemma touch_done:
  "lc_done (ps_lifecycle s) \<Longrightarrow> \<exists>t a. resetIdleTimerLocked tk (touchActivity tk (s\<lparr>ps_terminal := x\<rparr>)) = s\<lparr>ps_terminal := t, ps_lastActivityAt := a\<rparr>"
  by (auto simp: touchActivity_def resetIdleTimerLocked_def)

lemma writeInputBytes_done:
  "lc_done (ps_lifecycle s) \<Longrightarrow> \<exists>t a. fst (writeInputBytes tk input s) = s\<lparr>ps_terminal := t, ps_lastActivityAt := a\<rparr>"
  using only_terminal touch_done by (simp add: writeInputBytes_def split: prod.split option.split)

lemma done_step:
  assumes "pty_inv (s, h)" "lc_done (ps_lifecycle s)" "\<not> (\<exists>i w. c = PWriter i w)"
  shows "snd (fst (pty_step env (s, h) c)) = h \<and>
    (\<exists>t a. fst (fst (pty_step env (s, h) c)) = s\<lparr>ps_terminal := t, ps_lastActivityAt := a\<rparr>)"
proof -
  have same: "\<exists>t a. s = s\<lparr>ps_terminal := t, ps_lastActivityAt := a\<rparr>"
    by (intro exI [of _ "ps_terminal s"] exI [of _ "ps_lastActivityAt s"]) simp
  have client: "ps_client s = None" using assms(1,2) done_facts by (fastforce simp: pty_inv_def Let_def lc_done_def)
  note f = done_facts [OF assms(2)]
  have bg: "beginAttachLocked tk w s = (s, False)" for tk w
    using client f by (simp add: beginAttachLocked_def attach_def)
  show ?thesis
  proof (cases c)
    case (PInput tk input)
    then show ?thesis using writeInputBytes_done [OF assms(2), of tk input] by (simp split: prod.splits) (metis fst_conv)
  next
    case (PResize tk cols rows)
    then show ?thesis using only_terminal touch_done [OF assms(2)] by (simp add: ps_resize_def Let_def)
  next
    case (PExit runErr errText order cc)
    then show ?thesis using f same by (simp add: waitForExit_def)
  qed (use assms(2,3) f client same bg in
      \<open>simp_all add: ps_attach_def attachProtocolV1_def ps_detach_def deliverOutput_def applyAttachmentMessage_def transferManager_def
        transfers_closed_def prepareAttachmentPrompt_def commitAttachmentPrompt_def cancelAttachmentPrompt_def prompts_closed_def
        terminateWithReason_def expireIdle_def\<close>)
qed

text \<open>What the end of the process releases.\<close>

definition released :: "ptySession \<Rightarrow> bool" where
  "released s \<longleftrightarrow> ps_done s \<and> lc_done (ps_lifecycle s) \<and> ps_client s = None \<and> ps_detachTimer s = None \<and> ps_idleTimer s = None \<and>
     ps_attachmentsClosed s \<and> rg_closed (ps_promptActions s) \<and> ps_resourcesClosed s \<noteq> 0"

lemma closeAttachmentManager_released:
  "closeAttachmentManager order s h = (s', h', e) \<Longrightarrow> ps_attachmentsClosed s' \<and> ps_promptActions s' = ps_promptActions s \<and>
     ps_resourcesClosed s' = ps_resourcesClosed s \<and> ps_detachTimer s' = ps_detachTimer s \<and> ps_idleTimer s' = ps_idleTimer s"
  by (auto simp: closeAttachmentManager_def store_view_def Let_def split: option.splits prod.splits)

lemma cleanup_session_released:
  assumes "cleanup_session order cc why s h = (s', h')"
  shows "ps_attachmentsClosed s' \<and> rg_closed (ps_promptActions s') \<and> ps_resourcesClosed s' \<noteq> 0 \<and>
    ps_detachTimer s' = ps_detachTimer s \<and> ps_idleTimer s' = ps_idleTimer s"
proof -
  obtain s1 h1 e where c: "closeAttachmentManager order (closeResources s\<lparr>ps_promptActions := Close (ps_promptActions s)\<rparr>) h = (s1, h1, e)"
    by (metis prod_cases3)
  have "rg_closed (Close r)" for r by (simp add: Close_def)
  with closeAttachmentManager_released [OF c] have "ps_attachmentsClosed s1" "rg_closed (ps_promptActions s1)" "ps_resourcesClosed s1 \<noteq> 0"
    "ps_detachTimer s1 = ps_detachTimer s" "ps_idleTimer s1 = ps_idleTimer s"
    by (auto simp: closeResources_def)
  then show ?thesis
    using assms c by (auto simp: cleanup_session_def logEvent_def split: prod.splits option.splits if_splits)
qed

lemma exit_releases:
  assumes "waitForExit marshal runErr errText order cc s h = (s', h')" "\<not> lc_done (ps_lifecycle s)"
  shows "released s'"
proof -
  obtain l where "finish runErr (ps_lifecycle s) = (l, True)"
    using assms(2) by (cases "ps_lifecycle s") (auto simp: finish_def lc_done_def)
  with assms(1) have "ps_attachmentsClosed s' \<and> rg_closed (ps_promptActions s') \<and> ps_resourcesClosed s' \<noteq> 0 \<and>
      ps_detachTimer s' = None \<and> ps_idleTimer s' = None"
    by (auto simp: waitForExit_def Let_def logEvent_def dest!: cleanup_session_released)
  then show ?thesis using exit_cases [OF assms(1)] assms(2) by (simp add: released_def)
qed

lemma done_forever:
  assumes "pty_inv (s0, h0)" "i \<le> j" "j \<le> length cs" "lc_done (ps_lifecycle (fst (pty_at env s0 h0 cs i)))"
    and "\<forall>k. i \<le> k \<and> k < j \<longrightarrow> \<not> (\<exists>n w. cs ! k = PWriter n w)"
  shows "snd (pty_at env s0 h0 cs j) = snd (pty_at env s0 h0 cs i) \<and>
    (\<exists>t a. fst (pty_at env s0 h0 cs j) = (fst (pty_at env s0 h0 cs i))\<lparr>ps_terminal := t, ps_lastActivityAt := a\<rparr>)"
  using assms(2,3,5)
proof (induction rule: dec_induct)
  case base
  show ?case
    by (intro conjI refl exI [of _ "ps_terminal (fst (pty_at env s0 h0 cs i))"] exI [of _ "ps_lastActivityAt (fst (pty_at env s0 h0 cs i))"]) simp
next
  case (step n)
  then obtain t a where ih: "snd (pty_at env s0 h0 cs n) = snd (pty_at env s0 h0 cs i)"
    "fst (pty_at env s0 h0 cs n) = (fst (pty_at env s0 h0 cs i))\<lparr>ps_terminal := t, ps_lastActivityAt := a\<rparr>"
    by auto
  have d: "lc_done (ps_lifecycle (fst (pty_at env s0 h0 cs n)))" using assms(4) ih(2) by simp
  have inv: "pty_inv (fst (pty_at env s0 h0 cs n), snd (pty_at env s0 h0 cs n))" using pty_at_inv [OF assms(1)] by simp
  have "\<not> (\<exists>k w. cs ! n = PWriter k w)" using step by auto
  from done_step [OF inv d this, of env] show ?case
    unfolding prod.collapse using ih step.prems(1) by (auto simp: pty_at_simps)
qed


section \<open>A sample session\<close>

text \<open>A codec for the witness: every envelope is one byte, so that a chunk always fits whole.\<close>

definition flat_marshal :: marshal where "flat_marshal = (\<lambda>_. Some [0])"

definition ready :: "AgentStream \<Rightarrow> bool" where
  "ready s \<longleftrightarrow> session_ready s \<and> 1 \<le> unat (min MaxEnvelopeBytes (s_peerMaxEnvelopeSize s))"

lemma flat_marshalLocked: "ready s \<Longrightarrow> marshalLocked flat_marshal s e = Inr [0]"
  by (simp add: marshalLocked_def flat_marshal_def ready_def)

lemma flat_chunk:
  assumes "data \<noteq> []" "ready s"
  shows "EncodeTerminalOutputChunk flat_marshal data t s = (advance 1 s, Inr ([0], length data))"
proof -
  let ?enc = "\<lambda>k. marshalLocked flat_marshal s (terminalOutputEnvelope s (take k data) t)"
  obtain b n where c: "chunk_search ?enc 1 (int (length data)) ([], 0) = (b, n)" by force
  have "length data \<le> snd (chunk_search ?enc 1 (int (length data)) ([], 0))"
    using chunk_search_maximal [of "length data" ?enc "int (length data)" 1 "([], 0)" "length data"] assms
    by (simp add: fits_def flat_marshalLocked Suc_le_eq)
  moreover have "n \<le> length data" "n \<noteq> 0 \<longrightarrow> b = [0]"
    using chunk_search_result [OF c] flat_marshalLocked [OF assms(2)] by auto
  ultimately have "n = length data" "b = [0]" using c assms(1) by auto
  then show ?thesis
    using c assms by (simp add: EncodeTerminalOutputChunk_def ready_def session_ready_def)
qed

lemma flat_write:
  assumes "v \<noteq> []" "ww_protocolV1 w = Some s" "ready s" "\<not> ww_fails w (ww_writes w)"
  shows "writeBinary flat_marshal v w =
    (w\<lparr>ww_reads := ww_reads w + 1, ww_protocolV1 := Some (advance 1 s), ww_writes := ww_writes w + 1,
       ww_sent := ww_sent w @ [BinaryFrame [0]]\<rparr>, None)"
  using assms
  by (simp add: writeBinary_def write_chunks.simps [of flat_marshal v] currentTime_def flat_chunk WriteMessage_def
      write_chunks.simps [of flat_marshal "[]"] Let_def)

definition sample_conn :: websocketWriter where
  "sample_conn = \<lparr>ww_protocolV1 = Some (sample_stream\<lparr>s_sessionResume := True\<rparr>), ww_now = (\<lambda>_. 0), ww_reads = 0,
     ww_fails = (\<lambda>_. False), ww_writes = 0, ww_sent = []\<rparr>"

definition sample_pty_env :: pty_env where
  "sample_pty_env = \<lparr>pe_marshal = flat_marshal, pe_libs = \<lparr>lb_sha256 = (\<lambda>_. []), lb_parseMediaType = (\<lambda>_. None),
     lb_detectContentType = (\<lambda>_. [])\<rparr>\<rparr>"

definition sample_tick :: ticks where "sample_tick = \<lparr>tk_now = 0, tk_buffer = 0, tk_timer = 0\<rparr>"

definition sample_request :: "bytes \<Rightarrow> u64 \<Rightarrow> u64 \<Rightarrow> ClientStreamMessage" where
  "sample_request i g n = zero_message\<lparr>m_Kind := KindAttachSession, m_Sequence := 2, m_SessionID := i,
     m_SessionGeneration := g, m_LastAcknowledgedSequence := n\<rparr>"

text \<open>The status and one further chunk take a connection of the sample two sequence numbers on.\<close>

definition sample_conn_after :: "bytes \<Rightarrow> u64 \<Rightarrow> websocketWriter" where
  "sample_conn_after i g = sample_conn\<lparr>ww_protocolV1 := Some (sample_stream\<lparr>s_sessionResume := True, s_nextOutbound := 4,
     s_nextInbound := 3, s_highestInbound := 2, s_sessionID := i, s_sessionGeneration := g, s_sessionBound := True\<rparr>),
     ww_reads := 2, ww_writes := 2, ww_sent := [BinaryFrame [0], BinaryFrame [0]]\<rparr>"

lemma sample_attach_send:
  assumes "length i = 16" "g \<noteq> 0" "v \<noteq> []" "disposition \<in> {1, 2, 3}" "m_Sequence request = 2" "m_Kind request \<noteq> KindPing"
  shows "attach_send flat_marshal request i g disposition [v] sample_conn = (sample_conn_after i g, None)"
proof -
  let ?s = "sample_stream\<lparr>s_sessionResume := True, s_nextInbound := 3, s_highestInbound := 2, s_sessionID := i,
    s_sessionGeneration := g, s_sessionBound := True\<rparr>"
  have r: "ready ?s" "ready (advance 1 ?s)" by (simp_all add: ready_def session_ready_def sample_stream_def MaxEnvelopeBytes_def min_def)
  have "encodeLocked flat_marshal p t ?s = (advance 1 ?s, Inr [0])" for p t
    by (simp add: encodeLocked_def flat_marshalLocked [OF r(1)])
  then have "commitProtocolV1Attach flat_marshal request i g disposition sample_conn =
      (sample_conn\<lparr>ww_protocolV1 := Some (advance 1 ?s), ww_reads := 1, ww_writes := 1, ww_sent := [BinaryFrame [0]]\<rparr>, None)"
    using assms
    by (simp add: commitProtocolV1Attach_def commit_then_def CommitClientMessage_def BindSession_def encode_write_def
        EncodeSessionStatus_def sample_conn_def currentTime_def WriteMessage_def)
      (auto simp: sample_stream_def)
  then show ?thesis
    using flat_write [OF assms(3), of "sample_conn\<lparr>ww_protocolV1 := Some (advance 1 ?s), ww_reads := 1, ww_writes := 1, ww_sent := [BinaryFrame [0]]\<rparr>" "advance 1 ?s"] r(2)
    by (simp add: attach_send_def sample_conn_after_def sample_conn_def) (simp add: sample_stream_def)
qed

definition sample_session :: ptySession where
  "sample_session = configured_session sample_tick [''x'']
     \<lparr>tt_written = [], tt_calls = 0, tt_write = (\<lambda>_ b. (int (length b), False)), tt_resizes = 0, tt_resize = (\<lambda>_. False), tt_size = (80, 24)\<rparr>
     0 None \<lparr>ad_kind = Generic\<rparr> [] [] (replicate 16 1) 1"

definition sample_heap :: heap where
  "sample_heap = \<lparr>hp_writers = (\<lambda>_. sample_conn), hp_aggregate = NewAggregateTracker 0,
     hp_world = \<lparr>w_fs = \<lparr>fs_entries = Map.empty, fs_data = (\<lambda>_. []), fs_next = 0, fs_canonical = True, fs_pathId = 0,
       fs_handleId = 0\<rparr>, w_events = [], w_random = []\<rparr>\<rparr>"

definition sample_pty_calls :: "pty_call list" where
  "sample_pty_calls = [PAttachV1 sample_tick 0 (sample_request [] 0 0) True, PDetach sample_tick 0 1,
     POutput sample_tick [65], PAttachV1 sample_tick 1 (sample_request (replicate 16 1) 1 3) False]"

lemma sample_buffer:
  assumes "v \<noteq> []" "length v < 1024" "b = newReplayBuffer maxBufferedOutputBytes bufferedOutputMaxAge"
  shows "drainWithStatus 0 (rb_append 0 v b) = (b, [v], True)"
  using assms
  by (simp add: drainWithStatus_def rb_append_def newReplayBuffer_def maxBufferedOutputBytes_def bufferedOutputMaxAge_def
      pruneExpired_def snapshot_def Let_def)

lemma sample_attach_step:
  assumes "core s = (None, rb_append 0 v b, Detached, cp, n, replicate 16 1, 1)" "v \<noteq> []" "length v < 1024"
    and "b = newReplayBuffer maxBufferedOutputBytes bufferedOutputMaxAge" "hp_writers h w = sample_conn"
  shows "\<exists>s'. pty_step sample_pty_env (s, h) (PAttachV1 sample_tick w (sample_request i g a) wasCreated) =
     ((s', h\<lparr>hp_writers := (hp_writers h)(w := sample_conn_after (replicate 16 1) 1)\<rparr>), RAttach True None) \<and>
     core s' = (Some w, b, Connected, cp, n, replicate 16 1, 1)"
proof -
  let ?d = "\<lambda>s. resumeDispositionLocked (sample_request i g a) wasCreated True s"
  have d: "?d s \<in> {1, 2, 3}" for s by (simp add: resumeDispositionLocked_def Let_def)
  have drained: "drainWithStatus 0 (rb_append 0 v b) = (b, [v], True)" by (rule sample_buffer [OF assms(2-4)])
  obtain s1 r where bg: "beginAttachLocked sample_tick w s = (s1, r)" by force
  then have r: r using assms(1) by (auto simp: beginAttachLocked_def attach_def core_def Let_def)
  with beginAttach_cases [OF bg] assms(1) have s1: "core s1 = (Some w, rb_append 0 v b, Connected, cp, n, replicate 16 1, 1)"
    by (auto simp: core_def)
  have send: "attach_send flat_marshal (sample_request i g a) (replicate 16 1) 1 (?d s) [v] sample_conn =
      (sample_conn_after (replicate 16 1) 1, None)" for s
    by (rule sample_attach_send) (use d assms(2) in \<open>simp_all add: sample_request_def\<close>)
  show ?thesis
    using bg r s1 drained assms(5) send
    by (simp add: attachProtocolV1_def sample_pty_env_def sample_tick_def core_def on_writer_def Let_def)
qed

abbreviation sample_pty_at :: "nat \<Rightarrow> ptySession \<times> heap" where
  "sample_pty_at \<equiv> pty_at sample_pty_env sample_session sample_heap sample_pty_calls"

lemma sample_session_core:
  "core sample_session = (None, rb_append 0 (start_banner [''x'']) (newReplayBuffer maxBufferedOutputBytes bufferedOutputMaxAge),
     Detached, False, 0, replicate 16 1, 1)"
  by (simp add: sample_session_def configured_session_def newPTYSession_def Let_def core_def resetIdleTimerLocked_def
      logEvent_def newSessionLifecycle_def started_def lc_done_def sample_tick_def)

lemma sample_conn_after_resume: "usesSessionResume (sample_conn_after i g)" "highestProtocolV1OutboundSequence (sample_conn_after i g) = 3"
  by (simp_all add: sample_conn_after_def usesSessionResume_def UsesSessionResume_def highestProtocolV1OutboundSequence_def
      HighestOutboundSequence_def)

lemma sample_pty_states:
  defines "b \<equiv> newReplayBuffer maxBufferedOutputBytes bufferedOutputMaxAge"
  shows "core (fst (sample_pty_at 1)) = (Some 0, b, Connected, False, 0, replicate 16 1, 1)"
    "hp_writers (snd (sample_pty_at 1)) = (\<lambda>_. sample_conn)(0 := sample_conn_after (replicate 16 1) 1)"
    "core (fst (sample_pty_at 2)) = (None, b, Detached, True, 3, replicate 16 1, 1)"
    "hp_writers (snd (sample_pty_at 2)) = (\<lambda>_. sample_conn)(0 := sample_conn_after (replicate 16 1) 1)"
    "core (fst (sample_pty_at 3)) = (None, rb_append 0 [65] b, Detached, True, 3, replicate 16 1, 1)"
    "hp_writers (snd (sample_pty_at 3)) = (\<lambda>_. sample_conn)(0 := sample_conn_after (replicate 16 1) 1)"
proof -
  have len: "length sample_pty_calls = 4" by (simp add: sample_pty_calls_def)
  have banner: "start_banner [''x''] \<noteq> []" "length (start_banner [''x'']) < 1024"
    by (simp_all add: start_banner_def string_bytes_def)
  have hw: "hp_writers sample_heap 0 = sample_conn" by (simp add: sample_heap_def)
  have call: "sample_pty_calls ! 0 = PAttachV1 sample_tick 0 (sample_request [] 0 0) True" by (simp add: sample_pty_calls_def)
  obtain s1 where s1: "pty_step sample_pty_env (sample_session, sample_heap) (sample_pty_calls ! 0) =
      ((s1, sample_heap\<lparr>hp_writers := (hp_writers sample_heap)(0 := sample_conn_after (replicate 16 1) 1)\<rparr>), RAttach True None)"
    "core s1 = (Some 0, b, Connected, False, 0, replicate 16 1, 1)"
    using sample_attach_step [OF sample_session_core banner refl hw, where i = "[]" and g = 0 and a = 0 and wasCreated = True]
    unfolding call b_def by blast
  have at1: "sample_pty_at 1 = (s1, sample_heap\<lparr>hp_writers := (hp_writers sample_heap)(0 := sample_conn_after (replicate 16 1) 1)\<rparr>)"
    using pty_at_simps(2) [of 0 sample_pty_calls sample_pty_env sample_session sample_heap] s1(1) len by (simp add: pty_at_simps(1))
  show c1: "core (fst (sample_pty_at 1)) = (Some 0, b, Connected, False, 0, replicate 16 1, 1)"
    and w1: "hp_writers (snd (sample_pty_at 1)) = (\<lambda>_. sample_conn)(0 := sample_conn_after (replicate 16 1) 1)"
    using at1 s1(2) by (simp_all add: sample_heap_def)
  obtain s h where sh: "sample_pty_at 1 = (s, h)" by force
  have at2: "sample_pty_at 2 = (fst (ps_detach sample_tick 0 1 s h), h)"
    using pty_at_simps(2) [of 1 sample_pty_calls sample_pty_env sample_session sample_heap] len sh
    by (simp add: sample_pty_calls_def numeral_2_eq_2 split: prod.splits)
  show c2: "core (fst (sample_pty_at 2)) = (None, b, Detached, True, 3, replicate 16 1, 1)"
    and w2: "hp_writers (snd (sample_pty_at 2)) = (\<lambda>_. sample_conn)(0 := sample_conn_after (replicate 16 1) 1)"
    using c1 w1 sh at2 sample_conn_after_resume
    by (auto simp: ps_detach_def core_def detach_def logEvent_def Let_def)
  obtain s' h' where sh': "sample_pty_at 2 = (s', h')" by force
  have at3: "sample_pty_at 3 = deliverOutput flat_marshal sample_tick [65] s' h'"
    using pty_at_simps(2) [of 2 sample_pty_calls sample_pty_env sample_session sample_heap] len sh'
    by (simp add: sample_pty_calls_def numeral_3_eq_3 sample_pty_env_def numeral_2_eq_2)
  show "core (fst (sample_pty_at 3)) = (None, rb_append 0 [65] b, Detached, True, 3, replicate 16 1, 1)"
    and "hp_writers (snd (sample_pty_at 3)) = (\<lambda>_. sample_conn)(0 := sample_conn_after (replicate 16 1) 1)"
    using c2 w2 sh' at3 by (auto simp: deliverOutput_def core_def acceptsOutput_def sample_tick_def Let_def)
qed

theorem resumed_output_gapless_witness:
  "\<exists>s1 t b fs. flat_marshal (locked_envelope s1 (Envelope_SessionStatus 2) t) = Some b \<and>
     ww_sent (hp_writers (snd (sample_pty_at 4)) 1) = BinaryFrame b # fs \<and> carries flat_marshal (advance 1 s1) fs [65]"
proof -
  let ?e = "sample_pty_calls ! 3"
  have e: "?e = PAttachV1 sample_tick 1 (sample_request (replicate 16 1) 1 3) False" by (simp add: sample_pty_calls_def)
  have len: "length sample_pty_calls = 4" by (simp add: sample_pty_calls_def)
  obtain s h where sh: "sample_pty_at 3 = (s, h)" by force
  have core: "core s = (None, rb_append 0 [65] (newReplayBuffer maxBufferedOutputBytes bufferedOutputMaxAge), Detached, True, 3,
      replicate 16 1, 1)" and w: "hp_writers h = (\<lambda>_. sample_conn)(0 := sample_conn_after (replicate 16 1) 1)"
    using sample_pty_states(5,6) sh by simp_all
  have res: "snd (pty_step sample_pty_env (sample_pty_at 3) ?e) = RAttach True None"
    using sample_attach_step [OF core _ _ refl, where h = h and w = 1 and i = "replicate 16 1" and g = 1 and a = 3 and
        wasCreated = False] w
    unfolding sh e by auto
  have "disposition_for sample_tick (sample_request (replicate 16 1) 1 3) False (fst (sample_pty_at 3)) = 2"
    using core sh sample_buffer [of "[65]", OF _ _ refl]
    by (simp add: disposition_for_def core_def sample_tick_def resumeDispositionLocked_def sample_request_def zero_message_def Let_def)
  from resumed_output_gapless [OF sample_session_def _ e res this] len obtain d tk' w' timeout s1 t b fs where
    d: "d < 3" "sample_pty_calls ! d = PDetach tk' w' timeout" and
    sent: "pe_marshal sample_pty_env (locked_envelope s1 (Envelope_SessionStatus 2) t) = Some b"
      "ww_sent (hp_writers (snd (sample_pty_at (Suc 3))) 1) = ww_sent (hp_writers (snd (sample_pty_at 3)) 1) @ BinaryFrame b # fs"
      "carries (pe_marshal sample_pty_env) (advance 1 s1) fs (produced sample_pty_env sample_session sample_heap sample_pty_calls (Suc d) 3)"
    by auto
  have "d = 1" using d by (cases d rule: nat.exhaust) (auto simp: sample_pty_calls_def less_Suc_eq numeral_3_eq_3)
  moreover have "produced sample_pty_env sample_session sample_heap sample_pty_calls 2 3 = [65]"
    using sample_pty_states(3) by (simp add: produced_def sample_pty_calls_def core_def acceptsOutput_def upt_rec numeral_3_eq_3 numeral_2_eq_2)
  moreover have "ww_sent (hp_writers (snd (sample_pty_at 3)) 1) = []" by (simp add: sample_pty_states(6) sample_conn_def)
  ultimately show ?thesis using sent by (auto simp: sample_pty_env_def numeral_2_eq_2)
qed


end
