(* ===== verification/Session_Gate.thy ===== *)
theory Session_Gate
  imports Go_Base64 Device_Safety
begin

text \<open>
  The gate that binds a WebSocket upgrade to a paired device (\<^verbatim>\<open>src/internal/server/pairedsession.go\<close>):
  the store of single-use nonces, the two verifications and the two handlers that issue nonces. A
  request is what the gate reads of it: its headers, its query parameters and its remote address.
  The nonces are a list of key and record, without repeated keys. Clock readings and random bytes
  are arguments; Ed25519 is a parameter.
\<close>

section \<open>Nonces\<close>

record nonceRecord =
  nr_expiresAt :: time
  nr_host :: string
  nr_consumed :: bool

record nonceStore =
  ns_ttl :: duration
  ns_items :: "(string \<times> nonceRecord) list"

datatype gate_error =
    errPairedHeadersMissing
  | errPairedDeviceMalformed
  | errPairedSignatureMalformed
  | errPairedNonceMalformed
  | errPairedNonceUnknown
  | errPairedNonceReplayed
  | errPairedNonceRemote
  | errPairedDeviceUnknown
  | errPairedDeviceRevoked
  | errPairedSignatureInvalid
  | NonceRandom
  | NonceStoreFull
  | SigningKeyInvalid

abbreviation (input) sessionNonceBytes :: nat where "sessionNonceBytes \<equiv> 32"
definition sessionNonceDefaultTTL :: duration where "sessionNonceDefaultTTL = 30 * second"
definition maxActiveSessionNonces :: nat where "maxActiveSessionNonces = 4096"

definition sessionSignatureDomain :: bytes where
  "sessionSignatureDomain = string_bytes ''VibeBridge session upgrade v1'' @ [0]"

definition newNonceStore :: "duration \<Rightarrow> nonceStore" where
  "newNonceStore ttl = \<lparr>ns_ttl = (if ttl \<le> 0 then sessionNonceDefaultTTL else ttl), ns_items = []\<rparr>"

text \<open>\<^verbatim>\<open>net.SplitHostPort\<close>, for its host.\<close>

definition index_of :: "char \<Rightarrow> string \<Rightarrow> nat option" where
  "index_of c s = (if c \<in> set s then Some (length (takeWhile (\<lambda>x. x \<noteq> c) s)) else None)"

definition last_index_of :: "char \<Rightarrow> string \<Rightarrow> nat option" where
  "last_index_of c s = map_option (\<lambda>n. length s - 1 - n) (index_of c (rev s))"

definition SplitHost :: "string \<Rightarrow> string option" where
  "SplitHost hostport =
     (case last_index_of CHR '':'' hostport of
        None \<Rightarrow> None
      | Some i \<Rightarrow>
          (if hd hostport = CHR ''['' then
             case index_of CHR '']'' hostport of
               None \<Rightarrow> None
             | Some close \<Rightarrow>
                 (if close + 1 \<noteq> i then None
                  else if CHR ''['' \<in> set (drop 1 hostport) \<or> CHR '']'' \<in> set (drop (close + 1) hostport) then None
                  else Some (take (close - 1) (drop 1 hostport)))
           else if CHR '':'' \<in> set (take i hostport) then None
           else if CHR ''['' \<in> set hostport \<or> CHR '']'' \<in> set hostport then None
           else Some (take i hostport)))"

definition hostFromAddr :: "string \<Rightarrow> string" where
  "hostFromAddr remoteAddr =
     (if remoteAddr = [] then []
      else case SplitHost remoteAddr of None \<Rightarrow> remoteAddr | Some host \<Rightarrow> host)"

definition evictLocked :: "time \<Rightarrow> nonceStore \<Rightarrow> nonceStore" where
  "evictLocked now s = s\<lparr>ns_items := filter (\<lambda>(_, r). \<not> nr_expiresAt r < now) (ns_items s)\<rparr>"

definition put_nonce :: "string \<Rightarrow> nonceRecord \<Rightarrow> (string \<times> nonceRecord) list \<Rightarrow> (string \<times> nonceRecord) list" where
  "put_nonce key r items = (key, r) # filter (\<lambda>(k, _). k \<noteq> key) items"

definition issue ::
    "bytes option \<Rightarrow> time \<Rightarrow> time \<Rightarrow> string \<Rightarrow> nonceStore \<Rightarrow> nonceStore \<times> (gate_error + string \<times> duration)" where
  "issue raw evictNow now remoteAddr s0 =
     (case raw of None \<Rightarrow> (s0, Inl NonceRandom) | Some bytes \<Rightarrow>
      let s = evictLocked evictNow s0 in
      if length (ns_items s) \<ge> maxActiveSessionNonces then (s, Inl NonceStoreFull)
      else
        let key = EncodeToString bytes
        in (s\<lparr>ns_items := put_nonce key \<lparr>nr_expiresAt = now + ns_ttl s, nr_host = hostFromAddr remoteAddr,
               nr_consumed = False\<rparr> (ns_items s)\<rparr>, Inr (key, ns_ttl s)))"

definition consume :: "time \<Rightarrow> string \<Rightarrow> string \<Rightarrow> nonceStore \<Rightarrow> nonceStore \<times> gate_error option" where
  "consume now nonceHex remoteAddr s0 =
     (let s = evictLocked now s0 in
      case map_of (ns_items s) nonceHex of
        None \<Rightarrow> (s, Some errPairedNonceUnknown)
      | Some rec \<Rightarrow>
          (if nr_consumed rec then (s, Some errPairedNonceReplayed)
           else if nr_host rec \<noteq> hostFromAddr remoteAddr then (s, Some errPairedNonceRemote)
           else (s\<lparr>ns_items := put_nonce nonceHex (rec\<lparr>nr_consumed := True\<rparr>) (ns_items s)\<rparr>, None)))"

section \<open>The gate\<close>

record request =
  rq_header :: "string \<Rightarrow> string"
  rq_query :: "string \<Rightarrow> string"
  rq_RemoteAddr :: string

record pairedSessionGate =
  pg_devices :: "Store option"
  pg_nonces :: "nonceStore option"

definition newPairedSessionGate :: "Store option \<Rightarrow> nonceStore option \<Rightarrow> pairedSessionGate" where
  "newPairedSessionGate devices nonces = \<lparr>pg_devices = devices, pg_nonces = nonces\<rparr>"

record pairedSessionResult =
  pr_DeviceID :: bytes
  pr_Fingerprint :: string
  pr_Epoch :: u64

definition pairedCredential :: "request \<Rightarrow> string \<Rightarrow> string \<Rightarrow> string" where
  "pairedCredential r header queryParam =
     (if rq_header r header \<noteq> [] then rq_header r header else rq_query r queryParam)"

text \<open>The error of \<^verbatim>\<open>hex.DecodeString\<close> is dropped here; the bytes before the first bad digit remain.\<close>

fun hex_prefix :: "string \<Rightarrow> bytes" where
  "hex_prefix (a # b # rest) =
     (case (hex_value a, hex_value b) of (Some x, Some y) \<Rightarrow> of_nat (x * 16 + y) # hex_prefix rest | _ \<Rightarrow> [])"
| "hex_prefix s = []"

definition sessionSignatureMessage :: "string \<Rightarrow> bytes" where
  "sessionSignatureMessage nonceHex = sessionSignatureDomain @ hex_prefix nonceHex"

text \<open>
  The checks of the three credentials before the nonce is consumed: the device ID, then the nonce and
  the signature; \<^verbatim>\<open>verifyWebSession\<close> compares the device ID with the agent's in between.
\<close>

definition parse_device :: "string \<Rightarrow> string \<Rightarrow> string \<Rightarrow> gate_error + bytes" where
  "parse_device deviceHex nonceHex signatureB64 =
     (if deviceHex = [] \<or> nonceHex = [] \<or> signatureB64 = [] then Inl errPairedHeadersMissing
      else case hex_DecodeString deviceHex of
        None \<Rightarrow> Inl errPairedDeviceMalformed
      | Some deviceID \<Rightarrow> (if length deviceID \<noteq> DeviceIDBytes then Inl errPairedDeviceMalformed else Inr deviceID))"

definition parse_signature :: "string \<Rightarrow> string \<Rightarrow> gate_error + bytes" where
  "parse_signature nonceHex signatureB64 =
     (if length nonceHex \<noteq> sessionNonceBytes * 2 then Inl errPairedNonceMalformed
      else if hex_DecodeString nonceHex = None then Inl errPairedNonceMalformed
      else case Std_Decode signatureB64 of
        None \<Rightarrow> Inl errPairedSignatureMalformed
      | Some signature \<Rightarrow> (if length signature \<noteq> 64 then Inl errPairedSignatureMalformed else Inr signature))"

text \<open>The last checks of a verification, against a signed descriptor.\<close>

definition check_signer ::
    "crypto \<Rightarrow> Store \<Rightarrow> SignedDeviceDescriptor \<Rightarrow> bytes \<Rightarrow> string \<Rightarrow> bytes \<Rightarrow> gate_error + pairedSessionResult" where
  "check_signer cr store sdesc deviceID nonceHex signature =
     (if \<not> dc_Verify cr (dd_SigningPublicKey (the (sd_DeviceDescriptor sdesc))) (sessionSignatureMessage nonceHex) signature
      then Inl errPairedSignatureInvalid
      else case Fingerprint cr (Some sdesc) of
        Inl _ \<Rightarrow> Inl errPairedSignatureInvalid
      | Inr fingerprint \<Rightarrow>
          Inr \<lparr>pr_DeviceID = deviceID, pr_Fingerprint = fingerprint, pr_Epoch = ds_RevocationEpoch store\<rparr>)"

definition verify ::
    "crypto \<Rightarrow> time \<Rightarrow> request \<Rightarrow> pairedSessionGate option \<Rightarrow>
     pairedSessionGate option \<times> (gate_error + pairedSessionResult)" where
  "verify cr now r gate =
     (case gate of None \<Rightarrow> (gate, Inl errPairedHeadersMissing) | Some g \<Rightarrow>
      case (pg_devices g, pg_nonces g) of
        (Some store, Some nonces) \<Rightarrow>
          (let deviceHex = pairedCredential r ''VibeBridge-Device'' ''vb-device'';
               nonceHex = pairedCredential r ''VibeBridge-Session-Nonce'' ''vb-nonce'';
               signatureB64 = pairedCredential r ''VibeBridge-Device-Signature'' ''vb-sig''
           in case parse_device deviceHex nonceHex signatureB64 of Inl e \<Rightarrow> (gate, Inl e) | Inr deviceID \<Rightarrow>
              case parse_signature nonceHex signatureB64 of Inl e \<Rightarrow> (gate, Inl e) | Inr signature \<Rightarrow>
              case consume now nonceHex (rq_RemoteAddr r) nonces of
                (nonces', Some e) \<Rightarrow> (Some (g\<lparr>pg_nonces := Some nonces'\<rparr>), Inl e)
              | (nonces', None) \<Rightarrow>
                  (Some (g\<lparr>pg_nonces := Some nonces'\<rparr>),
                   case AuthorizedDevice_of cr deviceID store of
                     Inl _ \<Rightarrow> Inl errPairedDeviceUnknown
                   | Inr authorized \<Rightarrow>
                       (if av_State authorized \<noteq> STATE_AUTHORIZED then Inl errPairedDeviceRevoked
                        else check_signer cr store (av_Device authorized) deviceID nonceHex signature)))
      | _ \<Rightarrow> (gate, Inl errPairedHeadersMissing))"

definition verifyWebSession ::
    "crypto \<Rightarrow> time \<Rightarrow> request \<Rightarrow> pairedSessionGate option \<Rightarrow>
     pairedSessionGate option \<times> (gate_error + pairedSessionResult)" where
  "verifyWebSession cr now r gate =
     (case gate of None \<Rightarrow> (gate, Inl errPairedHeadersMissing) | Some g \<Rightarrow>
      case (pg_devices g, pg_nonces g) of
        (Some store, Some nonces) \<Rightarrow>
          (let deviceHex = rq_query r ''vb-device''; nonceHex = rq_query r ''vb-nonce''; signatureB64 = rq_query r ''vb-sig''
           in case parse_device deviceHex nonceHex signatureB64 of Inl e \<Rightarrow> (gate, Inl e) | Inr deviceID \<Rightarrow>
              if deviceID \<noteq> ds_DeviceID store then (gate, Inl errPairedDeviceUnknown)
              else case parse_signature nonceHex signatureB64 of Inl e \<Rightarrow> (gate, Inl e) | Inr signature \<Rightarrow>
              case consume now nonceHex (rq_RemoteAddr r) nonces of
                (nonces', Some e) \<Rightarrow> (Some (g\<lparr>pg_nonces := Some nonces'\<rparr>), Inl e)
              | (nonces', None) \<Rightarrow>
                  (Some (g\<lparr>pg_nonces := Some nonces'\<rparr>),
                   case ds_Descriptor cr store of
                     Inl _ \<Rightarrow> Inl errPairedSignatureInvalid
                   | Inr descriptor \<Rightarrow> check_signer cr store descriptor deviceID nonceHex signature))
      | _ \<Rightarrow> (gate, Inl errPairedHeadersMissing))"

section \<open>Issuing\<close>

text \<open>A response: its status and, on success, the fields of its body; the lifetime is in seconds.\<close>

datatype nonce_response =
    NonceUnavailable
  | NonceUnauthorized
  | NonceBody string int
  | WebSessionBody string string string int

definition handleSessionNonce ::
    "bytes option \<Rightarrow> time \<Rightarrow> time \<Rightarrow> request \<Rightarrow> pairedSessionGate option \<Rightarrow> pairedSessionGate option \<times> nonce_response" where
  "handleSessionNonce raw evictNow now r gate =
     (case gate of None \<Rightarrow> (gate, NonceUnavailable) | Some g \<Rightarrow>
      case pg_nonces g of None \<Rightarrow> (gate, NonceUnavailable) | Some nonces \<Rightarrow>
      case issue raw evictNow now (rq_RemoteAddr r) nonces of
        (nonces', Inl _) \<Rightarrow> (Some (g\<lparr>pg_nonces := Some nonces'\<rparr>), NonceUnavailable)
      | (nonces', Inr (nonce, expiresIn)) \<Rightarrow>
          (Some (g\<lparr>pg_nonces := Some nonces'\<rparr>), NonceBody nonce (expiresIn div second)))"

definition handleWebSession ::
    "crypto \<Rightarrow> bool \<Rightarrow> bytes option \<Rightarrow> time \<Rightarrow> time \<Rightarrow> request \<Rightarrow> pairedSessionGate option \<Rightarrow>
     pairedSessionGate option \<times> nonce_response" where
  "handleWebSession cr tokenValid raw evictNow now r gate =
     (case gate of None \<Rightarrow> (gate, NonceUnavailable) | Some g \<Rightarrow>
      case (pg_devices g, pg_nonces g) of
        (Some store, Some nonces) \<Rightarrow>
          (if \<not> tokenValid then (gate, NonceUnauthorized)
           else case issue raw evictNow now (rq_RemoteAddr r) nonces of
             (nonces', Inl _) \<Rightarrow> (Some (g\<lparr>pg_nonces := Some nonces'\<rparr>), NonceUnavailable)
           | (nonces', Inr (nonce, expiresIn)) \<Rightarrow>
               (Some (g\<lparr>pg_nonces := Some nonces'\<rparr>),
                WebSessionBody (EncodeToString (ds_DeviceID store)) nonce
                  (Std_Encode (ds_Sign cr (sessionSignatureMessage nonce) store)) (expiresIn div second)))
      | _ \<Rightarrow> (gate, NonceUnavailable))"

definition signSessionChallenge :: "crypto \<Rightarrow> bytes \<Rightarrow> string \<Rightarrow> gate_error + bytes" where
  "signSessionChallenge cr signingKey nonceHex =
     (if length signingKey \<noteq> 64 then Inl SigningKeyInvalid
      else case hex_DecodeString nonceHex of
        None \<Rightarrow> Inl errPairedNonceMalformed
      | Some decoded \<Rightarrow>
          (if length decoded \<noteq> sessionNonceBytes then Inl errPairedNonceMalformed
           else Inr (dc_Sign cr signingKey (sessionSignatureMessage nonceHex))))"

section \<open>Calls\<close>

text \<open>The calls on the gate; the devices of the store may change between them.\<close>

datatype gate_call =
    GNonce "bytes option" time time request
  | GWebNonce bool "bytes option" time time request
  | GVerify time request
  | GVerifyWeb time request
  | GDevices Store

datatype gate_result = GResponse nonce_response | GOutcome "gate_error + pairedSessionResult" | GNothing

fun gate_step :: "crypto \<Rightarrow> pairedSessionGate \<Rightarrow> gate_call \<Rightarrow> pairedSessionGate \<times> gate_result" where
  "gate_step cr g (GNonce raw t now r) =
     (case handleSessionNonce raw t now r (Some g) of (g', resp) \<Rightarrow> (the g', GResponse resp))"
| "gate_step cr g (GWebNonce tokenValid raw t now r) =
     (case handleWebSession cr tokenValid raw t now r (Some g) of (g', resp) \<Rightarrow> (the g', GResponse resp))"
| "gate_step cr g (GVerify now r) = (case verify cr now r (Some g) of (g', out) \<Rightarrow> (the g', GOutcome out))"
| "gate_step cr g (GVerifyWeb now r) = (case verifyWebSession cr now r (Some g) of (g', out) \<Rightarrow> (the g', GOutcome out))"
| "gate_step cr g (GDevices s) = (g\<lparr>pg_devices := Some s\<rparr>, GNothing)"

section \<open>Nonces are used once\<close>

text \<open>A nonce that can be used, with its expiry and host; the calls that issue it and that use it up.\<close>

definition usable :: "pairedSessionGate \<Rightarrow> string \<times> time \<times> string \<Rightarrow> bool" where
  "usable g x \<longleftrightarrow> (\<exists>ns. pg_nonces g = Some ns \<and>
     map_of (ns_items ns) (fst x) = Some \<lparr>nr_expiresAt = fst (snd x), nr_host = snd (snd x), nr_consumed = False\<rparr>)"

definition issues :: "crypto \<Rightarrow> pairedSessionGate \<Rightarrow> gate_call \<Rightarrow> string \<times> time \<times> string \<Rightarrow> bool" where
  "issues cr g c x \<longleftrightarrow>
     (\<exists>raw t now r ns. pg_nonces g = Some ns \<and> fst (snd x) = now + ns_ttl ns \<and> snd (snd x) = hostFromAddr (rq_RemoteAddr r) \<and>
        (c = GNonce raw t now r \<and> (\<exists>n. snd (gate_step cr g c) = GResponse (NonceBody (fst x) n)) \<or>
         c = GWebNonce True raw t now r \<and> (\<exists>d s n. snd (gate_step cr g c) = GResponse (WebSessionBody d (fst x) s n))))"

definition nonce_of :: "request \<Rightarrow> string" where
  "nonce_of r = pairedCredential r ''VibeBridge-Session-Nonce'' ''vb-nonce''"

definition device_hex :: "request \<Rightarrow> string" where
  "device_hex r = pairedCredential r ''VibeBridge-Device'' ''vb-device''"

definition signature_of :: "request \<Rightarrow> string" where
  "signature_of r = pairedCredential r ''VibeBridge-Device-Signature'' ''vb-sig''"

fun uses_nonce :: "gate_call \<Rightarrow> gate_result \<Rightarrow> string \<Rightarrow> bool" where
  "uses_nonce (GVerify now r) res k \<longleftrightarrow> nonce_of r = k \<and>
     ((\<exists>x. res = GOutcome (Inr x)) \<or>
      res \<in> {GOutcome (Inl errPairedDeviceUnknown), GOutcome (Inl errPairedDeviceRevoked), GOutcome (Inl errPairedSignatureInvalid)})"
| "uses_nonce (GVerifyWeb now r) res k \<longleftrightarrow> rq_query r ''vb-nonce'' = k \<and>
     ((\<exists>x. res = GOutcome (Inr x)) \<or> res = GOutcome (Inl errPairedSignatureInvalid))"
| "uses_nonce c res k \<longleftrightarrow> False"

lemma map_of_put_nonce [simp]: "map_of (put_nonce k r items) k' = (if k' = k then Some r else map_of items k')"
  by (induction items) (auto simp: put_nonce_def)

lemma consume_None:
  assumes "consume now k addr ns = (ns', None)"
  shows "\<exists>rec. map_of (ns_items (evictLocked now ns)) k = Some rec \<and> \<not> nr_consumed rec \<and> nr_host rec = hostFromAddr addr \<and>
    ns' = (evictLocked now ns)\<lparr>ns_items := put_nonce k (rec\<lparr>nr_consumed := True\<rparr>) (ns_items (evictLocked now ns))\<rparr>"
  using assms by (auto simp: consume_def Let_def split: option.splits if_splits)

lemma consume_Some: "consume now k addr ns = (ns', Some e) \<Longrightarrow> ns' = evictLocked now ns \<and>
    e \<in> {errPairedNonceUnknown, errPairedNonceReplayed, errPairedNonceRemote}"
  by (auto simp: consume_def Let_def split: option.splits if_splits)

lemma map_of_filter_Some:
  "distinct (map fst xs) \<Longrightarrow> map_of (filter P xs) k = Some v \<longleftrightarrow> map_of xs k = Some v \<and> P (k, v)"
  by (induction xs) (force dest: map_of_SomeD)+

lemma parse_errors:
  "parse_device d n s = Inl e \<Longrightarrow> e \<in> {errPairedHeadersMissing, errPairedDeviceMalformed}"
  "parse_signature n s = Inl e \<Longrightarrow> e \<in> {errPairedNonceMalformed, errPairedSignatureMalformed}"
  "check_signer cr store sdesc deviceID n sig = Inl e \<Longrightarrow> e = errPairedSignatureInvalid"
  by (auto simp: parse_device_def parse_signature_def check_signer_def split: if_splits option.splits sum.splits)

lemma check_signer_fails [simp]:
  "(\<forall>x. check_signer cr store sdesc deviceID n sig \<noteq> Inr x) \<longleftrightarrow>
   check_signer cr store sdesc deviceID n sig = Inl errPairedSignatureInvalid"
  by (auto simp: check_signer_def split: if_splits sum.splits)

text \<open>What a verification does to the gate: nothing, or the effect of \<^verbatim>\<open>consume\<close>, and it uses the nonce up exactly then.\<close>

definition consumes :: "gate_call \<Rightarrow> gate_result \<Rightarrow> pairedSessionGate \<Rightarrow> pairedSessionGate \<Rightarrow> string \<Rightarrow> time \<Rightarrow> request \<Rightarrow> bool" where
  "consumes c res g g' n now r \<longleftrightarrow>
     g' = g \<and> (\<forall>k. \<not> uses_nonce c res k) \<or>
     (\<exists>ns ns' e. pg_nonces g = Some ns \<and> consume now n (rq_RemoteAddr r) ns = (ns', e) \<and> g' = g\<lparr>pg_nonces := Some ns'\<rparr> \<and>
        (\<forall>k. uses_nonce c res k \<longleftrightarrow> e = None \<and> k = n))"

lemma verify_consumes:
  "gate_step cr g (GVerify now r) = (g', res) \<Longrightarrow> consumes (GVerify now r) res g g' (nonce_of r) now r"
  unfolding consumes_def
  by (simp add: verify_def Let_def nonce_of_def [symmetric] split: option.splits sum.splits prod.splits if_splits;
      auto dest!: parse_errors consume_Some)

lemma verifyWeb_consumes:
  "gate_step cr g (GVerifyWeb now r) = (g', res) \<Longrightarrow> consumes (GVerifyWeb now r) res g g' (rq_query r ''vb-nonce'') now r"
  unfolding consumes_def
  by (simp add: verifyWebSession_def Let_def split: option.splits sum.splits prod.splits if_splits;
      auto dest!: parse_errors consume_Some)

definition distinct_nonces :: "pairedSessionGate \<Rightarrow> bool" where
  "distinct_nonces g \<longleftrightarrow> (\<forall>ns. pg_nonces g = Some ns \<longrightarrow> distinct (map fst (ns_items ns)))"

lemma distinct_filter_keys: "distinct (map fst xs) \<Longrightarrow> distinct (map fst (filter P xs))"
  by (induction xs) auto

lemma distinct_put_nonce: "distinct (map fst xs) \<Longrightarrow> distinct (map fst (put_nonce k r xs))"
  by (auto simp: put_nonce_def distinct_filter_keys)

lemma distinct_evict: "distinct (map fst (ns_items s)) \<Longrightarrow> distinct (map fst (ns_items (evictLocked now s)))"
  by (simp add: evictLocked_def distinct_filter_keys)

lemma consume_distinct:
  "consume now k addr ns = (ns', e) \<Longrightarrow> distinct (map fst (ns_items ns)) \<Longrightarrow> distinct (map fst (ns_items ns'))"
  by (auto simp: consume_def Let_def distinct_put_nonce distinct_evict split: option.splits if_splits)

lemma consumes_distinct: "consumes c res g g' n now r \<Longrightarrow> distinct_nonces g \<Longrightarrow> distinct_nonces g'"
  by (auto simp: consumes_def distinct_nonces_def dest: consume_distinct)

lemma consumes_usable:
  assumes "consumes c res g g' n now r" "distinct_nonces g" "usable g' x"
  shows "usable g x \<and> \<not> uses_nonce c res (fst x)"
  using assms(1) unfolding consumes_def
proof (elim disjE conjE exE)
  fix ns ns' e
  assume h: "pg_nonces g = Some ns" "consume now n (rq_RemoteAddr r) ns = (ns', e)" "g' = g\<lparr>pg_nonces := Some ns'\<rparr>"
    "\<forall>k. uses_nonce c res k \<longleftrightarrow> e = None \<and> k = n"
  have d: "distinct (map fst (ns_items ns))" using assms(2) h(1) by (simp add: distinct_nonces_def)
  show ?thesis
  proof (cases e)
    case None
    with consume_None h(2) obtain rec where
      "ns' = (evictLocked now ns)\<lparr>ns_items := put_nonce n (rec\<lparr>nr_consumed := True\<rparr>) (ns_items (evictLocked now ns))\<rparr>"
      by blast
    with h assms(3) None d show ?thesis
      by (auto simp: usable_def evictLocked_def map_of_filter_Some split: if_splits dest!: arg_cong [of _ _ nr_consumed])
  next
    case (Some e')
    with consume_Some h(2) have "ns' = evictLocked now ns" by blast
    with h assms(3) Some d show ?thesis by (auto simp: usable_def evictLocked_def map_of_filter_Some)
  qed
qed (use assms(3) in auto)

lemma issue_effect:
  assumes "issue raw t now addr ns = (ns', out)" "distinct (map fst (ns_items ns))"
  shows "distinct (map fst (ns_items ns')) \<and>
    (map_of (ns_items ns') k = Some rec \<longrightarrow> map_of (ns_items ns) k = Some rec \<or>
       (\<exists>d. out = Inr (k, d)) \<and> rec = \<lparr>nr_expiresAt = now + ns_ttl ns, nr_host = hostFromAddr addr, nr_consumed = False\<rparr>)"
  using assms
  by (auto simp: issue_def Let_def distinct_put_nonce distinct_evict split: option.splits if_splits)
     (auto simp: evictLocked_def map_of_filter_Some)

lemma gate_step_distinct: "distinct_nonces g \<Longrightarrow> distinct_nonces (fst (gate_step cr g c))"
proof (cases c)
  case (GVerify now r)
  then show "distinct_nonces g \<Longrightarrow> ?thesis" using consumes_distinct [OF verify_consumes] by (metis prod.collapse)
next
  case (GVerifyWeb now r)
  then show "distinct_nonces g \<Longrightarrow> ?thesis" using consumes_distinct [OF verifyWeb_consumes] by (metis prod.collapse)
qed (auto simp: handleSessionNonce_def handleWebSession_def distinct_nonces_def
    split: option.splits sum.splits prod.splits if_splits dest!: issue_effect [THEN conjunct1])

lemma issuing_usable:
  assumes "distinct_nonces g" "c = GNonce raw t now r \<or> c = GWebNonce tokenValid raw t now r" "usable (fst (gate_step cr g c)) x"
  shows "issues cr g c x \<or> usable g x"
proof (cases "pg_nonces g")
  case (Some ns)
  obtain ns' out where i: "issue raw t now (rq_RemoteAddr r) ns = (ns', out)" by force
  have "distinct (map fst (ns_items ns))" using assms(1) Some by (simp add: distinct_nonces_def)
  note e = issue_effect [OF i this, of "fst x" "\<lparr>nr_expiresAt = fst (snd x), nr_host = snd (snd x), nr_consumed = False\<rparr>"]
  show ?thesis
    using assms(2,3) Some i e unfolding usable_def issues_def
    by (auto simp: handleSessionNonce_def handleWebSession_def split: option.splits sum.splits prod.splits if_splits)
qed (use assms in \<open>auto simp: usable_def handleSessionNonce_def handleWebSession_def split: option.splits\<close>)

interpretation nonces: since "gate_step cr" distinct_nonces "\<lambda>_. True" usable "issues cr"
  "\<lambda>g c x. uses_nonce c (snd (gate_step cr g c)) (fst x)" for cr
proof
  fix g c x
  assume d: "distinct_nonces g"
  show "distinct_nonces (fst (gate_step cr g c))" using d by (rule gate_step_distinct)
  assume u: "usable (fst (gate_step cr g c)) x"
  show "issues cr g c x \<or> usable g x \<and> \<not> uses_nonce c (snd (gate_step cr g c)) (fst x)"
  proof (cases c)
    case (GVerify now r)
    then show ?thesis using consumes_usable [OF verify_consumes d] u by (metis prod.collapse)
  next
    case (GVerifyWeb now r)
    then show ?thesis using consumes_usable [OF verifyWeb_consumes d] u by (metis prod.collapse)
  next
    case (GDevices s)
    then show ?thesis using u by (simp add: usable_def)
  qed (use issuing_usable [OF d _ u] in \<open>auto\<close>)
qed

lemma hex_prefix_decode: "hex_DecodeString s = Some bs \<Longrightarrow> hex_prefix s = bs"
  by (induction s arbitrary: bs rule: hex_prefix.induct) (auto split: option.splits)

lemma consume_usable:
  assumes "consume now n addr ns = (ns', None)" "pg_nonces g = Some ns" "distinct_nonces g"
  shows "\<exists>e. now \<le> e \<and> usable g (n, e, hostFromAddr addr)"
proof -
  from consume_None [OF assms(1)] obtain rec where
    m: "map_of (ns_items (evictLocked now ns)) n = Some rec" "\<not> nr_consumed rec" "nr_host rec = hostFromAddr addr" by blast
  have "distinct (map fst (ns_items ns))" using assms(2,3) by (simp add: distinct_nonces_def)
  with m have "map_of (ns_items ns) n = Some rec" "now \<le> nr_expiresAt rec"
    by (auto simp: evictLocked_def map_of_filter_Some)
  with m(2,3) assms(2) show ?thesis by (intro exI [of _ "nr_expiresAt rec"]) (simp add: usable_def)
qed

lemma verify_accepts:
  assumes "verify cr now r (Some g) = (g', Inr res)"
  obtains store ns ns' a sig nonce where "pg_devices g = Some store" "pg_nonces g = Some ns"
    "consume now (nonce_of r) (rq_RemoteAddr r) ns = (ns', None)"
    "hex_DecodeString (device_hex r) = Some (pr_DeviceID res)"
    "AuthorizedDevice_of cr (pr_DeviceID res) store = Inr a" "av_State a = STATE_AUTHORIZED"
    "hex_DecodeString (nonce_of r) = Some nonce" "Std_Decode (signature_of r) = Some sig"
    "dc_Verify cr (dd_SigningPublicKey (the (sd_DeviceDescriptor (av_Device a)))) (sessionSignatureDomain @ nonce) sig"
    "pr_Epoch res = ds_RevocationEpoch store"
proof -
  from assms obtain store ns ns' deviceID sig a where h: "pg_devices g = Some store" "pg_nonces g = Some ns"
    "parse_device (device_hex r) (nonce_of r) (signature_of r) = Inr deviceID"
    "parse_signature (nonce_of r) (signature_of r) = Inr sig"
    "consume now (nonce_of r) (rq_RemoteAddr r) ns = (ns', None)"
    "AuthorizedDevice_of cr deviceID store = Inr a" "av_State a = STATE_AUTHORIZED"
    "check_signer cr store (av_Device a) deviceID (nonce_of r) sig = Inr res"
    by (auto simp: verify_def Let_def nonce_of_def device_hex_def signature_of_def
        split: option.splits sum.splits prod.splits if_splits)
  from h(8) have c: "dc_Verify cr (dd_SigningPublicKey (the (sd_DeviceDescriptor (av_Device a)))) (sessionSignatureMessage (nonce_of r)) sig"
    "pr_DeviceID res = deviceID" "pr_Epoch res = ds_RevocationEpoch store"
    by (auto simp: check_signer_def split: if_splits sum.splits)
  from h(4) obtain nonce where n: "hex_DecodeString (nonce_of r) = Some nonce" "Std_Decode (signature_of r) = Some sig"
    by (auto simp: parse_signature_def split: if_splits option.splits)
  have d: "hex_DecodeString (device_hex r) = Some deviceID"
    using h(3) by (auto simp: parse_device_def split: if_splits option.splits)
  show thesis
    using that [OF h(1,2,5) _ _ h(7) n] c d h(6) by (simp add: sessionSignatureMessage_def hex_prefix_decode [OF n(1)])
qed

lemma fresh_gate [simp]: "distinct_nonces (newPairedSessionGate devices (Some (newNonceStore ttl)))"
  "\<not> usable (newPairedSessionGate devices (Some (newNonceStore ttl))) x"
  by (simp_all add: distinct_nonces_def usable_def newPairedSessionGate_def newNonceStore_def)

text \<open>The gate after the first \<open>j\<close> calls on a fresh one.\<close>

definition gate_at :: "crypto \<Rightarrow> Store option \<Rightarrow> duration \<Rightarrow> gate_call list \<Rightarrow> nat \<Rightarrow> pairedSessionGate" where
  "gate_at cr devices ttl cs j = fst (run (gate_step cr) (newPairedSessionGate devices (Some (newNonceStore ttl))) (take j cs))"

lemma distinct_gate_at: "distinct_nonces (gate_at cr devices ttl cs j)"
  unfolding gate_at_def by (rule nonces.run_inv) (simp_all add: list_all_iff)


lemma EncodeToString_length [simp]: "length (EncodeToString bs) = 2 * length bs"
  using hex_DecodeString_length [OF hex_roundtrip] by simp

lemma EncodeToString_empty [simp]: "EncodeToString bs = [] \<longleftrightarrow> bs = []"
  using EncodeToString_length [of bs] by (metis length_0_conv mult_eq_0_iff zero_neq_numeral)

lemma issue_then_consume:
  assumes "issue raw t now addr ns = (ns', Inr (nonce, d))" "now' \<le> now + ns_ttl ns" "hostFromAddr addr' = hostFromAddr addr"
  shows "\<exists>ns''. consume now' nonce addr' ns' = (ns'', None)"
  using assms by (auto simp: issue_def consume_def evictLocked_def put_nonce_def Let_def split: option.splits if_splits)

text \<open>
  An authorized device that signs the nonce it was given, and upgrades from the same host before the
  nonce expires, is accepted.
\<close>

theorem signed_challenge_accepted:
  assumes "handleSessionNonce (Some raw) t now r0 (Some g) = (Some g1, NonceBody nonce n)" "length raw = 32"
    and "pg_devices g = Some store" "pg_nonces g = Some ns" "now' \<le> now + ns_ttl ns"
    and "AuthorizedDevice_of cr k store = Inr a" "av_State a = STATE_AUTHORIZED" "length k = 16"
    and "signSessionChallenge cr key nonce = Inr sig" "length sig = 64"
    and "dc_Verify cr (dd_SigningPublicKey (the (sd_DeviceDescriptor (av_Device a)))) (sessionSignatureMessage nonce) sig"
    and "Fingerprint cr (Some (av_Device a)) = Inr fp"
    and "device_hex r = EncodeToString k" "nonce_of r = nonce" "signature_of r = Std_Encode sig"
    and "hostFromAddr (rq_RemoteAddr r) = hostFromAddr (rq_RemoteAddr r0)"
  shows "\<exists>g2. verify cr now' r (Some g1) =
    (Some g2, Inr \<lparr>pr_DeviceID = k, pr_Fingerprint = fp, pr_Epoch = ds_RevocationEpoch store\<rparr>)"
proof -
  from assms(1,4) obtain ns' d where i: "issue (Some raw) t now (rq_RemoteAddr r0) ns = (ns', Inr (nonce, d))"
    "g1 = g\<lparr>pg_nonces := Some ns'\<rparr>"
    by (auto simp: handleSessionNonce_def split: sum.splits prod.splits)
  have "nonce = EncodeToString raw" using i(1) by (auto simp: issue_def Let_def split: if_splits)
  then have n: "length nonce = 64" "hex_DecodeString nonce = Some raw" using assms(2) by simp_all
  obtain ns'' where c: "consume now' nonce (rq_RemoteAddr r) ns' = (ns'', None)"
    using issue_then_consume [OF i(1) assms(5,16)] by blast
  have "Std_Encode sig \<noteq> Std_Encode []" using assms(10) base64_roundtrip [of False True] by (metis list.size(3) option.inject zero_neq_numeral)
  then have ne: "k \<noteq> []" "nonce \<noteq> []" "Std_Encode sig \<noteq> []"
    using assms(8) n by auto
  have "parse_device (device_hex r) (nonce_of r) (signature_of r) = Inr k"
    "parse_signature (nonce_of r) (signature_of r) = Inr sig"
    using ne assms(8,10,13-15) n by (simp_all add: parse_device_def parse_signature_def)
  moreover have "check_signer cr store (av_Device a) k nonce sig =
      Inr \<lparr>pr_DeviceID = k, pr_Fingerprint = fp, pr_Epoch = ds_RevocationEpoch store\<rparr>"
    using assms(11,12) by (simp add: check_signer_def)
  ultimately show ?thesis
    using assms(3,6,7,14) i(2) c
    by (simp add: verify_def Let_def flip: nonce_of_def device_hex_def signature_of_def)
qed

section \<open>A sample upgrade\<close>

definition sample_nonce :: string where "sample_nonce = EncodeToString (replicate 32 1)"

definition sample_upgrade :: request where
  "sample_upgrade = \<lparr>rq_header = (\<lambda>h. if h = ''VibeBridge-Device'' then EncodeToString (replicate 16 5)
     else if h = ''VibeBridge-Session-Nonce'' then sample_nonce else Std_Encode (replicate 64 0)),
     rq_query = (\<lambda>_. []), rq_RemoteAddr = ''[::1]:80''\<rparr>"

lemma sample_upgrade_fields:
  "device_hex sample_upgrade = EncodeToString (replicate 16 5)" "nonce_of sample_upgrade = sample_nonce"
  "signature_of sample_upgrade = Std_Encode (replicate 64 0)"
  "rq_RemoteAddr sample_upgrade = ''[::1]:80''" "hostFromAddr ''[::1]:80'' = ''::1''"
  by (simp_all add: device_hex_def nonce_of_def signature_of_def pairedCredential_def sample_upgrade_def sample_nonce_def
      hostFromAddr_def SplitHost_def last_index_of_def index_of_def)

lemma sample_authorized:
  "AuthorizedDevice_of sample_device_crypto (replicate 16 5) (sample_store 1) =
     Inr \<lparr>av_Device = sample_device 5, av_AuthorizationVersion = 1, av_State = 1, av_AuthorizedAt = 0, av_RevokedAt = None,
       av_RevocationEpoch = 0\<rparr>"
  using sample_find(2) by (simp add: AuthorizedDevice_of_def sample_updates)

lemma sample_fingerprint: "\<exists>fp. Fingerprint sample_device_crypto (Some (sample_device 5)) = Inr fp"
  by (simp add: Fingerprint_def sample_device_verified)

abbreviation sample_gate_calls :: "gate_call list" where
  "sample_gate_calls \<equiv> [GNonce (Some (replicate 32 1)) 0 0 sample_upgrade, GVerify 1 sample_upgrade]"

abbreviation sample_gate_at :: "nat \<Rightarrow> pairedSessionGate" where
  "sample_gate_at \<equiv> gate_at sample_device_crypto (Some (sample_store 1)) 0 sample_gate_calls"

lemma sample_gate:
  "pg_devices (sample_gate_at 1) = Some (sample_store 1)"
  "snd (gate_step sample_device_crypto (sample_gate_at 0) (sample_gate_calls ! 0)) = GResponse (NonceBody sample_nonce 30)"
  "\<exists>res. snd (gate_step sample_device_crypto (sample_gate_at 1) (sample_gate_calls ! 1)) = GOutcome (Inr res)"
proof -
  let ?g0 = "newPairedSessionGate (Some (sample_store 1)) (Some (newNonceStore 0))"
  have g0: "sample_gate_at 0 = ?g0" "pg_nonces ?g0 = Some (newNonceStore 0)" "ns_ttl (newNonceStore 0) = 30000000000"
    "pg_devices ?g0 = Some (sample_store 1)"
    by (simp_all add: gate_at_def newPairedSessionGate_def newNonceStore_def sessionNonceDefaultTTL_def)
  obtain g1 where h: "handleSessionNonce (Some (replicate 32 1)) 0 0 sample_upgrade (Some ?g0) = (Some g1, NonceBody sample_nonce 30)"
    "pg_devices g1 = Some (sample_store 1)"
    by (simp add: handleSessionNonce_def issue_def evictLocked_def maxActiveSessionNonces_def sample_nonce_def
        newPairedSessionGate_def newNonceStore_def sessionNonceDefaultTTL_def Let_def)
  have g1: "sample_gate_at 1 = g1" using h(1) by (simp add: gate_at_def)
  show "pg_devices (sample_gate_at 1) = Some (sample_store 1)" using g1 h(2) by simp
  show "snd (gate_step sample_device_crypto (sample_gate_at 0) (sample_gate_calls ! 0)) = GResponse (NonceBody sample_nonce 30)"
    using g0(1) h(1) by simp
  obtain fp where "Fingerprint sample_device_crypto (Some (sample_device 5)) = Inr fp" using sample_fingerprint by blast
  with signed_challenge_accepted [OF h(1) _ g0(4,2) _ sample_authorized, where key = "replicate 64 0" and
      sig = "replicate 64 0" and now' = 1 and r = sample_upgrade and fp = fp]
  obtain g2 res where "verify sample_device_crypto 1 sample_upgrade (Some g1) = (Some g2, Inr res)"
    by (auto simp: sample_upgrade_fields g0(3) signSessionChallenge_def sample_nonce_def sample_device_crypto_def)
  then show "\<exists>res. snd (gate_step sample_device_crypto (sample_gate_at 1) (sample_gate_calls ! 1)) = GOutcome (Inr res)"
    using g1 by simp
qed


end
