(* ===== verification/Agent_Server.thy ===== *)
theory Agent_Server
  imports Pty_Safety Session_Gate
begin

text \<open>
  The agent's server (\<^verbatim>\<open>src/internal/server/server.go\<close>): who may open a connection, the negotiation and the
  attachment of a connection, the loop that reads a client's messages, and the sessions it
  creates. A handler is split where it waits or gives up the server's lock, so that the steps of several
  connections may interleave: opening, each message, and closing a connection are steps.
  HTTP routing, static files and the keep-alive goroutine are not modelled.

  An upgrade request is what the handlers read of it, with the subprotocols that
  \<^verbatim>\<open>websocket.Subprotocols\<close> reports. What \<^verbatim>\<open>workspace.RevalidateDirectory\<close>, the random source, the creation of
  the staging directory and the launcher answer is an argument (\<open>launch\<close>).
\<close>

section \<open>State\<close>

record Config =
  cf_SessionToken :: string
  cf_Command :: "string list"
  cf_WorkingDirectory :: string
  cf_WorkspaceRoot :: string
  cf_ToolAdapter :: string
  cf_ReconnectTimeout :: duration
  cf_IdleTimeout :: duration
  cf_DisableLegacyProtocol :: bool
  cf_RequirePairedSession :: bool
  cf_MaxAggregateBytes :: u64
  cf_DeviceStore :: "Store option"

record Server =
  sv_config :: Config
  sv_session :: "ptySession option"
  sv_nextSessionGeneration :: u64
  sv_gate :: "pairedSessionGate option"
  sv_heap :: heap

definition sv_New :: "Config \<Rightarrow> (nat \<Rightarrow> websocketWriter) \<Rightarrow> world \<Rightarrow> Server" where
  "sv_New config writers world =
     (let config = (if cf_ReconnectTimeout config \<le> 0 then config\<lparr>cf_ReconnectTimeout := 90 * second\<rparr> else config);
          gate = (case cf_DeviceStore config of
                    None \<Rightarrow> None
                  | Some store \<Rightarrow> Some (newPairedSessionGate (Some store) (Some (newNonceStore sessionNonceDefaultTTL))));
          maxAggregate = (if cf_MaxAggregateBytes config = 0 then DefaultMaxAggregateBytes else cf_MaxAggregateBytes config)
      in \<lparr>sv_config = config, sv_session = None, sv_nextSessionGeneration = 0, sv_gate = gate,
          sv_heap = \<lparr>hp_writers = writers, hp_aggregate = NewAggregateTracker maxAggregate, hp_world = world\<rparr>\<rparr>)"

section \<open>Who may connect\<close>

record upgrade_request = request +
  ur_subprotocols :: "string list"
  ur_hasDevice :: bool
  ur_host :: string

abbreviation (input) WebSocketSubprotocol :: string where "WebSocketSubprotocol \<equiv> ''vibebridge.v1''"

definition plain_request :: "upgrade_request \<Rightarrow> request" where
  "plain_request r = \<lparr>rq_header = rq_header r, rq_query = rq_query r, rq_RemoteAddr = rq_RemoteAddr r\<rparr>"

definition validToken :: "request \<Rightarrow> Config \<Rightarrow> bool" where
  "validToken r config \<longleftrightarrow> rq_query r ''token'' \<noteq> [] \<and> rq_query r ''token'' = cf_SessionToken config"

definition offersWebSocketSubprotocol :: "upgrade_request \<Rightarrow> string \<Rightarrow> bool" where
  "offersWebSocketSubprotocol r want = list_ex (\<lambda>offered. offered = want) (ur_subprotocols r)"

text \<open>\<open>urlHost\<close> is the host that \<^verbatim>\<open>url.Parse\<close> finds.\<close>

definition sameOrigin :: "(string \<Rightarrow> string option) \<Rightarrow> upgrade_request \<Rightarrow> bool" where
  "sameOrigin urlHost r \<longleftrightarrow> rq_header r ''Origin'' = [] \<or> urlHost (rq_header r ''Origin'') = Some (ur_host r)"

definition authorizedForUpgrade ::
    "crypto \<Rightarrow> time \<Rightarrow> time \<Rightarrow> upgrade_request \<Rightarrow> Server \<Rightarrow> Server \<times> pairedSessionResult option \<times> bool" where
  "authorizedForUpgrade cr webNow now r sv =
     (if \<not> cf_RequirePairedSession (sv_config sv) then (sv, None, validToken (plain_request r) (sv_config sv))
      else if sv_gate sv = None then (sv, None, False)
      else if \<not> offersWebSocketSubprotocol r WebSocketSubprotocol then (sv, None, False)
      else
        (case (if ur_hasDevice r then
                 (case verifyWebSession cr webNow (plain_request r) (sv_gate sv) of
                    (gate, Inr result) \<Rightarrow> (gate, Some (Some result))
                  | (gate, Inl e) \<Rightarrow> (gate, if e \<noteq> errPairedDeviceUnknown then Some None else None))
               else (sv_gate sv, None)) of
           (gate, Some None) \<Rightarrow> (sv\<lparr>sv_gate := gate\<rparr>, None, False)
         | (gate, Some (Some result)) \<Rightarrow> (sv\<lparr>sv_gate := gate\<rparr>, Some result, True)
         | (gate, None) \<Rightarrow>
             (case verify cr now (plain_request r) gate of
                (gate', Inl _) \<Rightarrow> (sv\<lparr>sv_gate := gate'\<rparr>, None, False)
              | (gate', Inr result) \<Rightarrow> (sv\<lparr>sv_gate := gate'\<rparr>, Some result, True))))"

section \<open>Negotiation\<close>

definition required_capabilities :: "string list" where
  "required_capabilities =
     [CapabilityTerminalBinaryOutput, CapabilityTerminalSequencedIO, CapabilityTerminalResizeEnd,
      CapabilitySessionProcessExit, CapabilitySessionResume, CapabilityControlError, CapabilityControlHealth]"

definition requireCurrentClientCapabilities :: "NegotiatedHello \<Rightarrow> bool" where
  "requireCurrentClientCapabilities negotiated = list_all (HasCapability negotiated) required_capabilities"

definition agentHelloIdentity :: "crypto \<Rightarrow> Server \<Rightarrow> device_error + AgentIdentity option" where
  "agentHelloIdentity cr sv =
     (case cf_DeviceStore (sv_config sv) of
        None \<Rightarrow> Inr None
      | Some store \<Rightarrow>
          (case ds_Descriptor cr store of
             Inl e \<Rightarrow> Inl e
           | Inr descriptor \<Rightarrow>
               (case Fingerprint cr (Some descriptor) of
                  Inl e \<Rightarrow> Inl e
                | Inr fingerprint \<Rightarrow>
                    Inr (Some \<lparr>id_DeviceID = ds_DeviceID store, id_PublicKeyFingerprint = fingerprint,
                               id_RevocationEpoch = ds_RevocationEpoch store\<rparr>))))"

datatype incoming = ReadFailed | WsBinary bytes | WsText bytes

datatype negotiation_error =
    HelloRead | HelloNotBinary | HelloRejected hello_error | CapabilityMissing | IdentityFailed device_error
  | AgentHelloFailed hello_error | AgentHelloEncode | AgentHelloTooLarge | AgentHelloWrite writer_error | StreamRejected stream_error

definition negotiateProtocolV1 ::
    "crypto \<Rightarrow> marshal \<Rightarrow> unmarshal \<Rightarrow> time \<Rightarrow> incoming \<Rightarrow> Server \<Rightarrow> websocketWriter \<Rightarrow> websocketWriter \<times> negotiation_error option" where
  "negotiateProtocolV1 cr marshal unmarshal now message sv w =
     (case message of
        ReadFailed \<Rightarrow> (w, Some HelloRead)
      | WsText _ \<Rightarrow> (w, Some HelloNotBinary)
      | WsBinary encoded \<Rightarrow>
          (case AcceptClientHello unmarshal encoded of
             Inl e \<Rightarrow> (w, Some (HelloRejected e))
           | Inr negotiated \<Rightarrow>
               (if cf_DisableLegacyProtocol (sv_config sv) \<and> \<not> requireCurrentClientCapabilities negotiated \<or>
                   \<not> cf_DisableLegacyProtocol (sv_config sv) \<and> \<not> HasCapability negotiated CapabilityTerminalBinaryOutput
                then (w, Some CapabilityMissing)
                else case agentHelloIdentity cr sv of
                  Inl e \<Rightarrow> (w, Some (IdentityFailed e))
                | Inr identity \<Rightarrow>
                    (case NewAgentHello (n_ConnectionID negotiated) (n_Major negotiated) (n_Minor negotiated) now identity of
                       Inl e \<Rightarrow> (w, Some (AgentHelloFailed e))
                     | Inr response \<Rightarrow>
                         (case marshal response of
                            None \<Rightarrow> (w, Some AgentHelloEncode)
                          | Some responseBytes \<Rightarrow>
                              (if length responseBytes > unat (n_PeerMaxEnvelopeBytes negotiated) then (w, Some AgentHelloTooLarge)
                               else case writeBinary marshal responseBytes w of
                                 (w1, Some e) \<Rightarrow> (w1, Some (AgentHelloWrite e))
                               | (w1, None) \<Rightarrow>
                                   (if \<not> HasCapability negotiated CapabilityTerminalSequencedIO then (w1, None)
                                    else case NewAgentStream negotiated of
                                      Inl e \<Rightarrow> (w1, Some (StreamRejected e))
                                    | Inr stream \<Rightarrow> (enableProtocolV1 stream w1, None))))))))"

definition readProtocolV1Attach ::
    "unmarshal \<Rightarrow> incoming \<Rightarrow> websocketWriter \<Rightarrow> websocketWriter \<times> ClientStreamMessage option" where
  "readProtocolV1Attach unmarshal message w =
     (case message of
        WsBinary encoded \<Rightarrow>
          (case decodeProtocolV1ClientMessage unmarshal encoded w of
             (w1, Inl _) \<Rightarrow> (w1, None)
           | (w1, Inr m) \<Rightarrow> (w1, if m_Kind m \<noteq> KindAttachSession then None else Some m))
      | _ \<Rightarrow> (w, None))"

section \<open>Sessions\<close>

datatype launch_error =
    NoCommand | RevalidateFailed | CorrelationFailed | SessionIDFailed | AdapterUnknown | StagingFailed | LaunchFailed
  | GenerationExhausted

record launch =
  ln_directory :: "string option"
  ln_correlation :: bool
  ln_sessionID :: "bytes option"
  ln_staging :: "SessionStaging option"
  ln_stagingRoot :: string
  ln_terminal :: "terminal option"
  ln_ticks :: ticks

text \<open>
  The part of \<^verbatim>\<open>getOrCreateSession\<close> that works without the server's lock: a session that is ready to be
  installed, with its protocol ID.
\<close>

definition prepare_session :: "launch \<Rightarrow> Config \<Rightarrow> launch_error + ptySession \<times> bytes" where
  "prepare_session ln config =
     (case (if cf_WorkspaceRoot config \<noteq> [] then ln_directory ln else Some (cf_WorkingDirectory config)) of
        None \<Rightarrow> Inl RevalidateFailed
      | Some workingDirectory \<Rightarrow>
          (if \<not> ln_correlation ln then Inl CorrelationFailed
           else case ln_sessionID ln of
             None \<Rightarrow> Inl SessionIDFailed
           | Some protocolSessionID \<Rightarrow>
               (case New (if cf_ToolAdapter config = [] then Generic else cf_ToolAdapter config) of
                  Inl _ \<Rightarrow> Inl AdapterUnknown
                | Inr adapter \<Rightarrow>
                    (case ln_staging ln of
                       None \<Rightarrow> Inl StagingFailed
                     | Some staging \<Rightarrow>
                         (case ln_terminal ln of
                            None \<Rightarrow> Inl LaunchFailed
                          | Some term \<Rightarrow>
                              Inr ((newPTYSession (ln_ticks ln) (cf_Command config) term (cf_IdleTimeout config) (Some staging) adapter)
                                \<lparr>ps_workspaceRoot := (if cf_WorkspaceRoot config = [] then ln_stagingRoot ln else cf_WorkspaceRoot config),
                                  ps_workingDirectory := workingDirectory\<rparr>, protocolSessionID))))))"

text \<open>The part under the lock: the session is installed unless another one is alive by then.\<close>

definition install_session ::
    "ptySession \<Rightarrow> bytes \<Rightarrow> Server \<Rightarrow> Server \<times> (launch_error + bool)" where
  "install_session session protocolSessionID sv =
     (if (case sv_session sv of Some current \<Rightarrow> \<not> isEnded current | None \<Rightarrow> False) then (sv, Inr False)
      else if sv_nextSessionGeneration sv = - 1 then (sv, Inl GenerationExhausted)
      else
        (let generation = sv_nextSessionGeneration sv + 1
         in (sv\<lparr>sv_nextSessionGeneration := generation,
                sv_session := Some (session\<lparr>ps_sessionID := protocolSessionID, ps_generation := generation\<rparr>)\<rparr>, Inr True)))"

text \<open>\<^verbatim>\<open>getOrCreateSession\<close> when nothing comes in between; the flag says whether the session is new.\<close>

definition getOrCreateSession :: "launch \<Rightarrow> Server \<Rightarrow> Server \<times> (launch_error + bool)" where
  "getOrCreateSession ln sv =
     (if cf_Command (sv_config sv) = [] then (sv, Inl NoCommand)
      else if (case sv_session sv of Some current \<Rightarrow> \<not> isEnded current | None \<Rightarrow> False) then (sv, Inr False)
      else case prepare_session ln (sv_config sv) of
        Inl e \<Rightarrow> (sv, Inl e)
      | Inr (session, protocolSessionID) \<Rightarrow> install_session session protocolSessionID sv)"

text \<open>\<^verbatim>\<open>clearSession\<close>, which a session calls when it is done; sessions are told apart by their generation.\<close>

definition clearSession :: "u64 \<Rightarrow> Server \<Rightarrow> Server" where
  "clearSession generation sv =
     (if map_option ps_generation (sv_session sv) = Some generation then sv\<lparr>sv_session := None\<rparr> else sv)"

definition sv_Close :: "Server \<Rightarrow> Server" where
  "sv_Close sv = sv\<lparr>sv_session := map_option (terminateWithReason ReasonAgentShutdown) (sv_session sv)\<rparr>"

record SessionStatus =
  ss_State :: string
  ss_StartedAt :: "time option"
  ss_LastActivityAt :: "time option"
  ss_ReconnectTimeoutSeconds :: int
  ss_IdleTimeoutSeconds :: int

definition sessionStatus :: "Server \<Rightarrow> SessionStatus" where
  "sessionStatus sv =
     (let status = \<lparr>ss_State = ''idle'', ss_StartedAt = None, ss_LastActivityAt = None,
            ss_ReconnectTimeoutSeconds = cf_ReconnectTimeout (sv_config sv) div second,
            ss_IdleTimeoutSeconds = cf_IdleTimeout (sv_config sv) div second\<rparr>
      in case sv_session sv of
           None \<Rightarrow> status
         | Some session \<Rightarrow> status\<lparr>ss_State := publicState (ps_lifecycle session), ss_StartedAt := Some (ps_startedAt session),
             ss_LastActivityAt := Some (ps_lastActivityAt session)\<rparr>)"

definition handleStatus :: "upgrade_request \<Rightarrow> Server \<Rightarrow> SessionStatus option" where
  "handleStatus r sv = (if \<not> validToken (plain_request r) (sv_config sv) then None else Some (sessionStatus sv))"

section \<open>Reading a client's messages\<close>

record ClientMessage =
  cm_Type :: string
  cm_Data :: string
  cm_Cols :: int
  cm_Rows :: int

record server_env =
  se_marshal :: marshal
  se_unmarshal :: unmarshal
  se_json :: "bytes \<Rightarrow> ClientMessage option"
  se_libs :: libs

text \<open>The outcome of one iteration of the loop: whether it goes on.\<close>

type_synonym iteration = "ptySession \<times> heap \<times> bool"

definition ending_banner :: bytes where
  "ending_banner = string_bytes (''ending session'' @ [CHR 0x0D, CHR 0x0A])"

definition fail_with :: "server_env \<Rightarrow> nat \<Rightarrow> enum32 \<Rightarrow> ptySession \<Rightarrow> heap \<Rightarrow> iteration" where
  "fail_with env w code s h = (s, fst (on_writer w (writeError (se_marshal env) code) h), False)"

definition go_on :: "nat \<Rightarrow> (websocketWriter \<Rightarrow> websocketWriter \<times> writer_error option) \<Rightarrow> ptySession \<Rightarrow> heap \<Rightarrow> iteration" where
  "go_on w f s h = (case on_writer w f h of (h1, e) \<Rightarrow> (s, h1, e = None))"

definition end_session :: "server_env \<Rightarrow> nat \<Rightarrow> ptySession \<Rightarrow> heap \<Rightarrow> iteration" where
  "end_session env w s h =
     (terminateWithReason ReasonExplicitEnd s, fst (on_writer w (writeBinary (se_marshal env) ending_banner) h), False)"

text \<open>A Protocol V1 message: its effect first, then its commitment.\<close>

definition handle_stream_message ::
    "server_env \<Rightarrow> ticks \<Rightarrow> nat \<Rightarrow> ClientStreamMessage \<Rightarrow> ptySession \<Rightarrow> heap \<Rightarrow> iteration" where
  "handle_stream_message env tk w m s h =
     (let commit = (\<lambda>ack. commitProtocolV1ClientMessage (se_marshal env) m ack) in
      case m_Kind m of
        KindTerminalInput \<Rightarrow>
          (case writeInputBytes tk (m_Data m) s of
             (s1, Some _) \<Rightarrow> fail_with env w ERROR_CODE_TERMINAL_INPUT_FAILED s1 h
           | (s1, None) \<Rightarrow> go_on w (commit True) s1 h)
      | KindTerminalResize \<Rightarrow>
          (case ps_resize tk (uint (m_Columns m)) (uint (m_Rows m)) s of
             (s1, Some _) \<Rightarrow> fail_with env w ERROR_CODE_TERMINAL_RESIZE_FAILED s1 h
           | (s1, None) \<Rightarrow> go_on w (commit True) s1 h)
      | KindEndSession \<Rightarrow>
          (case on_writer w (commit False) h of
             (h1, Some _) \<Rightarrow> (s, h1, False)
           | (h1, None) \<Rightarrow> end_session env w s h1)
      | KindAcknowledgement \<Rightarrow> go_on w (commit False) s h
      | KindPing \<Rightarrow> go_on w (respondProtocolV1Ping (se_marshal env) m) s h
      | KindAttachmentTransferStatusRequest \<Rightarrow>
          (case attachmentOutcome (m_TransferID m) s h of
             Inl _ \<Rightarrow> fail_with env w ERROR_CODE_ATTACHMENT_TRANSFER_FAILED s h
           | Inr outcome \<Rightarrow> go_on w (respondProtocolV1AttachmentTransferStatus (se_marshal env) m outcome) s h)
      | KindAttachmentPromptPrepare \<Rightarrow>
          (case prepareAttachmentPrompt (lb_sha256 (se_libs env)) m s h of
             (s1, h1, Inl _) \<Rightarrow> fail_with env w ERROR_CODE_ATTACHMENT_PROMPT_ACTION_FAILED s1 h1
           | (s1, h1, Inr result) \<Rightarrow> go_on w (respondProtocolV1AttachmentPromptPrepare (se_marshal env) m result) s1 h1)
      | KindAttachmentPromptCommit \<Rightarrow>
          (case commitAttachmentPrompt tk (m_ActionID m) s of
             (s1, Some _) \<Rightarrow> fail_with env w ERROR_CODE_ATTACHMENT_PROMPT_ACTION_FAILED s1 h
           | (s1, None) \<Rightarrow> go_on w (commit True) s1 h)
      | KindAttachmentPromptCancel \<Rightarrow>
          (case cancelAttachmentPrompt (m_ActionID m) s of
             (s1, Some _) \<Rightarrow> fail_with env w ERROR_CODE_ATTACHMENT_PROMPT_ACTION_FAILED s1 h
           | (s1, None) \<Rightarrow> go_on w (commit True) s1 h)
      | KindZero \<Rightarrow> (s, fst (on_writer w (\<lambda>c. (closeProtocol ''Unsupported Protocol V1 message'' c, ())) h), False)
      | KindAttachSession \<Rightarrow> (s, fst (on_writer w (\<lambda>c. (closeProtocol ''Unsupported Protocol V1 message'' c, ())) h), False)
      | _ \<Rightarrow>
          (case applyAttachmentMessage (se_libs env) m s h of
             (s1, h1, Some _) \<Rightarrow> fail_with env w ERROR_CODE_ATTACHMENT_TRANSFER_FAILED s1 h1
           | (s1, h1, None) \<Rightarrow> go_on w (commit True) s1 h1))"

text \<open>A legacy control message.\<close>

definition handle_control_message ::
    "server_env \<Rightarrow> ticks \<Rightarrow> nat \<Rightarrow> ClientMessage \<Rightarrow> ptySession \<Rightarrow> heap \<Rightarrow> iteration" where
  "handle_control_message env tk w msg s h =
     (if cm_Type msg = ''input'' then
        (case writeInput tk (cm_Data msg) s of
           (s1, Some _) \<Rightarrow> fail_with env w ERROR_CODE_TERMINAL_INPUT_FAILED s1 h
         | (s1, None) \<Rightarrow> (s1, h, True))
      else if cm_Type msg = ''exit'' then end_session env w s h
      else if cm_Type msg = ''resize'' then
        (if cm_Cols msg > 0 \<and> cm_Cols msg \<le> uint MaxTerminalDimension \<and> cm_Rows msg > 0 \<and> cm_Rows msg \<le> uint MaxTerminalDimension
         then (case ps_resize tk (cm_Cols msg) (cm_Rows msg) s of
                 (s1, Some _) \<Rightarrow> fail_with env w ERROR_CODE_TERMINAL_RESIZE_FAILED s1 h
               | (s1, None) \<Rightarrow> (s1, h, True))
         else (s, h, True))
      else if cm_Type msg = ''ping'' then go_on w (writeJSON ''pong'' []) s h
      else go_on w (writeError (se_marshal env) ERROR_CODE_UNSUPPORTED_MESSAGE) s h)"

definition close_with :: "nat \<Rightarrow> string \<Rightarrow> ptySession \<Rightarrow> heap \<Rightarrow> iteration" where
  "close_with w text s h = (s, fst (on_writer w (\<lambda>c. (closeProtocol text c, ())) h), False)"

text \<open>One iteration of \<^verbatim>\<open>readClientMessages\<close>.\<close>

definition read_message ::
    "server_env \<Rightarrow> ticks \<Rightarrow> nat \<Rightarrow> incoming \<Rightarrow> ptySession \<Rightarrow> heap \<Rightarrow> iteration" where
  "read_message env tk w message s h =
     (if usesProtocolV1 (hp_writers h w) then
        (case message of
           ReadFailed \<Rightarrow> (s, h, False)
         | WsBinary encoded \<Rightarrow>
             (case on_writer w (decodeProtocolV1ClientMessage (se_unmarshal env) encoded) h of
                (h1, Inl _) \<Rightarrow> close_with w ''Invalid Protocol V1 message'' s h1
              | (h1, Inr m) \<Rightarrow> handle_stream_message env tk w m s h1)
         | WsText encoded \<Rightarrow>
             (case se_json env encoded of
                None \<Rightarrow> close_with w ''Invalid transitional control message'' s h
              | Some msg \<Rightarrow>
                  (if cm_Type msg = ''input'' then close_with w ''Invalid transitional control message'' s h
                   else if usesTerminalResizeEnd (hp_writers h w) \<and> (cm_Type msg = ''resize'' \<or> cm_Type msg = ''exit'')
                   then close_with w ''Negotiated resize/end controls must use Protocol V1 envelopes'' s h
                   else if usesControlHealth (hp_writers h w) \<and> cm_Type msg = ''ping''
                   then close_with w ''Negotiated health checks must use Protocol V1 envelopes'' s h
                   else handle_control_message env tk w msg s h)))
      else
        (case message of
           ReadFailed \<Rightarrow> (s, h, False)
         | WsBinary encoded \<Rightarrow>
             (case se_json env encoded of None \<Rightarrow> (s, h, False) | Some msg \<Rightarrow> handle_control_message env tk w msg s h)
         | WsText encoded \<Rightarrow>
             (case se_json env encoded of None \<Rightarrow> (s, h, False) | Some msg \<Rightarrow> handle_control_message env tk w msg s h)))"

section \<open>Connections\<close>

datatype open_result =
    Unauthorized
  | UpgradeRequired
  | UpgradeFailed
  | NegotiationFailed
  | AttachInvalid
  | SessionStartFailed
  | SessionAlreadyActive
  | AttachmentFailed
  | Opened

record connect =
  cn_webNow :: time
  cn_now :: time
  cn_upgraded :: bool
  cn_helloNow :: time
  cn_hello :: incoming
  cn_attach :: incoming
  cn_launch :: launch
  cn_ticks :: ticks

definition refuse :: "server_env \<Rightarrow> nat \<Rightarrow> enum32 \<Rightarrow> heap \<Rightarrow> heap" where
  "refuse env w code h =
     fst (on_writer w (\<lambda>c. (ww_close c, ())) (fst (on_writer w (writeError (se_marshal env) code) h)))"

text \<open>
  The last part of \<^verbatim>\<open>handleWebSocket\<close> before the loop: the connection is attached to the session, and
  detached again when the attachment failed half way.
\<close>

definition attach_connection ::
    "server_env \<Rightarrow> ticks \<Rightarrow> nat \<Rightarrow> ClientStreamMessage \<Rightarrow> bool \<Rightarrow> duration \<Rightarrow> ptySession \<Rightarrow> heap \<Rightarrow>
     ptySession \<times> heap \<times> open_result" where
  "attach_connection env tk w request isNew reconnectTimeout s h =
     (case (if usesSessionResume (hp_writers h w)
            then attachProtocolV1 (se_marshal env) tk w request isNew s h
            else case ps_attach (se_marshal env) tk w s h of (s1, h1, attached) \<Rightarrow> (s1, h1, attached, None)) of
        (s1, h1, False, _) \<Rightarrow> (s1, refuse env w ERROR_CODE_SESSION_ALREADY_ACTIVE h1, SessionAlreadyActive)
      | (s1, h1, True, Some _) \<Rightarrow>
          (let h2 = fst (on_writer w (\<lambda>c. (closeProtocol ''Protocol V1 session attachment failed'' c, ())) h1)
           in (fst (ps_detach tk w reconnectTimeout s1 h2), h2, AttachmentFailed))
      | (s1, h1, True, None) \<Rightarrow> (s1, h1, Opened))"

definition open_session ::
    "server_env \<Rightarrow> connect \<Rightarrow> nat \<Rightarrow> ClientStreamMessage \<Rightarrow> Server \<Rightarrow> Server \<times> open_result" where
  "open_session env cn w request sv =
     (case getOrCreateSession (cn_launch cn) sv of
        (sv1, Inl _) \<Rightarrow> (sv1\<lparr>sv_heap := refuse env w ERROR_CODE_SESSION_START_FAILED (sv_heap sv1)\<rparr>, SessionStartFailed)
      | (sv1, Inr isNew) \<Rightarrow>
          (case attach_connection env (cn_ticks cn) w request isNew (cf_ReconnectTimeout (sv_config sv1))
                  (the (sv_session sv1)) (sv_heap sv1) of
             (s, h, result) \<Rightarrow> (sv1\<lparr>sv_session := Some s, sv_heap := h\<rparr>, result)))"

text \<open>\<^verbatim>\<open>handleWebSocket\<close> up to its loop, for a connection whose writer is \<open>w\<close>.\<close>

definition open_connection ::
    "crypto \<Rightarrow> server_env \<Rightarrow> connect \<Rightarrow> upgrade_request \<Rightarrow> nat \<Rightarrow> Server \<Rightarrow> Server \<times> open_result" where
  "open_connection cr env cn r w sv =
     (case authorizedForUpgrade cr (cn_webNow cn) (cn_now cn) r sv of
        (sv1, _, False) \<Rightarrow> (sv1, Unauthorized)
      | (sv1, _, True) \<Rightarrow>
          (if cf_DisableLegacyProtocol (sv_config sv1) \<and> \<not> offersWebSocketSubprotocol r WebSocketSubprotocol then (sv1, UpgradeRequired)
           else if \<not> cn_upgraded cn then (sv1, UpgradeFailed)
           else
             (case (if offersWebSocketSubprotocol r WebSocketSubprotocol
                    then on_writer w (negotiateProtocolV1 cr (se_marshal env) (se_unmarshal env) (cn_helloNow cn) (cn_hello cn) sv1) (sv_heap sv1)
                    else (sv_heap sv1, None)) of
                (h1, Some _) \<Rightarrow>
                  (sv1\<lparr>sv_heap := fst (on_writer w (\<lambda>c. (closeProtocol ''Protocol V1 negotiation failed'' c, ())) h1)\<rparr>, NegotiationFailed)
              | (h1, None) \<Rightarrow>
                  (if usesSessionResume (hp_writers h1 w) then
                     (case on_writer w (readProtocolV1Attach (se_unmarshal env) (cn_attach cn)) h1 of
                        (h2, None) \<Rightarrow>
                          (sv1\<lparr>sv_heap := fst (on_writer w (\<lambda>c. (closeProtocol ''Invalid Protocol V1 AttachSession'' c, ())) h2)\<rparr>, AttachInvalid)
                      | (h2, Some request) \<Rightarrow> open_session env cn w request (sv1\<lparr>sv_heap := h2\<rparr>))
                   else open_session env cn w zero_message (sv1\<lparr>sv_heap := h1\<rparr>)))))"

text \<open>The end of \<^verbatim>\<open>handleWebSocket\<close>, after its loop.\<close>

definition close_connection :: "ticks \<Rightarrow> nat \<Rightarrow> duration \<Rightarrow> ptySession \<Rightarrow> heap \<Rightarrow> ptySession \<times> heap" where
  "close_connection tk w reconnectTimeout s h =
     (let h1 = fst (on_writer w (\<lambda>c. (ww_close c, ())) h)
      in (fst (ps_detach tk w reconnectTimeout s h1), h1))"

end
