(* ===== verification/Server_Safety.thy ===== *)
theory Server_Safety
  imports Agent_Server
begin

text \<open>
  What the server guarantees to a client and about who is one: a message is acknowledged only when its
  effect is complete, every session has a generation of its own, and a connection is opened only for a
  paired device or a client that the agent vouches for.
\<close>

section \<open>Effects and acknowledgements\<close>

lemma write_input_written:
  "write_input input t = (t', e) \<Longrightarrow>
     \<exists>n. tt_written t' = tt_written t @ take n input \<and> (e = None \<longrightarrow> length input \<le> n)"
proof (induction input t arbitrary: t' e rule: write_input.induct)
  case (1 input t)
  show ?case
  proof (cases "input = []")
    case True
    then show ?thesis using "1.prems" by (simp add: write_input.simps [of "[]"])
  next
    case False
    obtain count err where w: "tt_write t (tt_calls t) input = (count, err)" by force
    let ?t1 = "t\<lparr>tt_calls := tt_calls t + 1, tt_written := tt_written t @ take (nat count) input\<rparr>"
    show ?thesis
    proof (cases "err \<or> count \<le> 0 \<or> count > int (length input)")
      case True
      then show ?thesis
        using "1.prems" False w
        by (intro exI [of _ "nat count"]) (auto simp: write_input.simps [of input t] Let_def split: if_splits)
    next
      case more: False
      then have "write_input (drop (nat count) input) ?t1 = (t', e)"
        using "1.prems" False w by (simp add: write_input.simps [of input t] Let_def)
      from "1.IH" [OF False w [symmetric] refl _ _ this] more obtain n where
        n: "tt_written t' = tt_written ?t1 @ take n (drop (nat count) input)" "e = None \<longrightarrow> length (drop (nat count) input) \<le> n"
        by auto
      have "take (nat count) input @ take n (drop (nat count) input) = take (nat count + n) input"
        by (simp add: take_add)
      then show ?thesis using n more by (intro exI [of _ "nat count + n"]) auto
    qed
  qed
qed

text \<open>What it means that a message has had its effect.\<close>

definition effect_done :: "server_env \<Rightarrow> ticks \<Rightarrow> ClientStreamMessage \<Rightarrow> ptySession \<Rightarrow> heap \<Rightarrow> ptySession \<Rightarrow> bool" where
  "effect_done env tk m s h s' \<longleftrightarrow>
     (case m_Kind m of
        KindTerminalInput \<Rightarrow> tt_written (ps_terminal s') = tt_written (ps_terminal s) @ m_Data m
      | KindTerminalResize \<Rightarrow> tt_size (ps_terminal s') = (uint (m_Columns m), uint (m_Rows m))
      | KindAttachmentTransferStatusRequest \<Rightarrow> (\<exists>outcome. attachmentOutcome (m_TransferID m) s h = Inr outcome)
      | KindAttachmentPromptPrepare \<Rightarrow>
          (\<exists>h' result. prepareAttachmentPrompt (lb_sha256 (se_libs env)) m s h = (s', h', Inr result))
      | KindAttachmentPromptCommit \<Rightarrow> commitAttachmentPrompt tk (m_ActionID m) s = (s', None)
      | KindAttachmentPromptCancel \<Rightarrow> cancelAttachmentPrompt (m_ActionID m) s = (s', None)
      | KindAttachmentBegin \<Rightarrow> (\<exists>h'. applyAttachmentMessage (se_libs env) m s h = (s', h', None))
      | KindAttachmentChunk \<Rightarrow> (\<exists>h'. applyAttachmentMessage (se_libs env) m s h = (s', h', None))
      | KindAttachmentComplete \<Rightarrow> (\<exists>h'. applyAttachmentMessage (se_libs env) m s h = (s', h', None))
      | KindAttachmentCancel \<Rightarrow> (\<exists>h'. applyAttachmentMessage (se_libs env) m s h = (s', h', None))
      | KindAttachmentDiscard \<Rightarrow> (\<exists>h'. applyAttachmentMessage (se_libs env) m s h = (s', h', None))
      | _ \<Rightarrow> True)"

text \<open>The position of a connection in its inbound stream.\<close>

definition position :: "nat \<Rightarrow> heap \<Rightarrow> u64 option" where
  "position w h = map_option s_nextInbound (ww_protocolV1 (hp_writers h w))"

lemma position_writers: "hp_writers h' = hp_writers h \<Longrightarrow> position w h' = position w h"
  by (simp add: position_def)

lemma on_writer_position:
  assumes "on_writer w f h = (h', r)" "f (hp_writers h w) = (c, r')"
  shows "position w h' = map_option s_nextInbound (ww_protocolV1 c)" "r = r'"
  using assms by (auto simp: on_writer_def position_def)

definition keeps_position :: "(websocketWriter \<Rightarrow> websocketWriter \<times> 'r) \<Rightarrow> bool" where
  "keeps_position f \<longleftrightarrow> (\<forall>c. map_option s_nextInbound (ww_protocolV1 (fst (f c))) = map_option s_nextInbound (ww_protocolV1 c))"

lemma keeps_position_on: "keeps_position f \<Longrightarrow> position w (fst (on_writer w f h)) = position w h"
  by (auto simp: keeps_position_def on_writer_def position_def split: prod.splits) (metis fst_conv)

lemma WriteMessage_stream [simp]: "ww_protocolV1 (fst (WriteMessage f c)) = ww_protocolV1 c"
  by (simp add: WriteMessage_def Let_def)

lemma WriteMessage_keeps: "keeps_position (WriteMessage f)" "keeps_position (\<lambda>c. (fst (WriteMessage f c), ()))"
  by (simp_all add: keeps_position_def)

lemma encode_write_stream:
  assumes "ww_protocolV1 c = Some s"
  shows "ww_protocolV1 (fst (encode_write enc c)) = Some (fst (enc (ww_now c (ww_reads c)) s))"
  using assms by (simp add: encode_write_def currentTime_def split: prod.split sum.split)

lemma encode_write_keeps:
  assumes "\<And>t s. s_nextInbound (fst (enc t s)) = s_nextInbound s"
  shows "keeps_position (encode_write enc)"
  unfolding keeps_position_def
proof
  fix c
  show "map_option s_nextInbound (ww_protocolV1 (fst (encode_write enc c))) = map_option s_nextInbound (ww_protocolV1 c)"
    using assms encode_write_stream [of c _ enc] by (cases "ww_protocolV1 c") (simp_all add: encode_write_def)
qed

lemma encoders_position:
  "s_nextInbound (fst (EncodeError marshal code t s)) = s_nextInbound s"
  "s_nextInbound (fst (EncodePong marshal t s)) = s_nextInbound s"
  "s_nextInbound (fst (EncodeAcknowledgement marshal t s)) = s_nextInbound s"
  "s_nextInbound (fst (EncodeAttachmentTransferStatus marshal i d n t s)) = s_nextInbound s"
  "s_nextInbound (fst (EncodeAttachmentPromptPreview marshal i d p a t s)) = s_nextInbound s"
  by (simp_all add: EncodeError_def EncodePong_def EncodeAcknowledgement_def EncodeAttachmentTransferStatus_def
      EncodeAttachmentPromptPreview_def encodeLocked_def split: sum.split)

lemma writeError_keeps: "keeps_position (writeError marshal code)"
  using encode_write_keeps [of "EncodeError marshal code", OF encoders_position(1)] WriteMessage_keeps(1)
  by (auto simp: keeps_position_def writeError_def split: option.splits)

lemma writeBinary_keeps: "keeps_position (writeBinary marshal v)"
  unfolding keeps_position_def
proof
  fix c
  show "map_option s_nextInbound (ww_protocolV1 (fst (writeBinary marshal v c))) = map_option s_nextInbound (ww_protocolV1 c)"
  proof (cases "ww_protocolV1 c")
    case (Some s)
    obtain c' e where "write_chunks marshal v s c = (c', e)" by force
    from write_chunks_sent [OF this Some] this Some show ?thesis by (auto simp: writeBinary_def)
  qed (simp add: writeBinary_def)
qed

text \<open>A commitment moves the position by one, whatever then happens to the answer, or refuses the message.\<close>

definition advances :: "ClientStreamMessage \<Rightarrow> (websocketWriter \<Rightarrow> websocketWriter \<times> writer_error option) \<Rightarrow> bool" where
  "advances m f \<longleftrightarrow> (\<forall>c s. ww_protocolV1 c = Some s \<longrightarrow>
     (\<exists>s'. ww_protocolV1 (fst (f c)) = Some s' \<and>
        (s_nextInbound s' = s_nextInbound s \<and> snd (f c) \<noteq> None \<or>
         s_nextInbound s' = s_nextInbound s + 1 \<and> m_Sequence m = s_nextInbound s)))"

lemma commit_then_advances:
  assumes "keeps_position k"
  shows "advances m (commit_then m k)"
  unfolding advances_def
proof (intro allI impI)
  fix c :: websocketWriter and s
  assume c: "ww_protocolV1 c = Some s"
  show "\<exists>s'. ww_protocolV1 (fst (commit_then m k c)) = Some s' \<and>
        (s_nextInbound s' = s_nextInbound s \<and> snd (commit_then m k c) \<noteq> None \<or>
         s_nextInbound s' = s_nextInbound s + 1 \<and> m_Sequence m = s_nextInbound s)"
  proof (cases "m_Sequence m = s_nextInbound s")
    case True
    then obtain s0 where s0: "CommitClientMessage m s = (s0, None)" "s_nextInbound s0 = s_nextInbound s + 1"
      by (simp add: CommitClientMessage_def)
    have "map_option s_nextInbound (ww_protocolV1 (fst (k (c\<lparr>ww_protocolV1 := Some s0\<rparr>)))) = Some (s_nextInbound s + 1)"
      using assms s0(2) by (simp add: keeps_position_def)
    then show ?thesis using c s0(1) True by (auto simp: commit_then_def)
  next
    case False
    then show ?thesis using c by (auto simp: commit_then_def CommitClientMessage_def)
  qed
qed

lemma answers_advance:
  "advances m (commitProtocolV1ClientMessage marshal m ack)"
  "advances m (respondProtocolV1Ping marshal m)"
  "advances m (respondProtocolV1AttachmentTransferStatus marshal m outcome)"
  "advances m (respondProtocolV1AttachmentPromptPrepare marshal m result)"
proof -
  have a: "keeps_position (encode_write (EncodeAcknowledgement marshal))"
    "keeps_position (encode_write (EncodePong marshal))"
    "keeps_position (encode_write (EncodeAttachmentTransferStatus marshal i d n))"
    "keeps_position (encode_write (EncodeAttachmentPromptPreview marshal i d p b))" for i d n p b
    by (rule encode_write_keeps; rule encoders_position)+
  show "advances m (commitProtocolV1ClientMessage marshal m ack)"
    unfolding commitProtocolV1ClientMessage_def
    by (rule commit_then_advances) (use a(1) in \<open>auto simp: keeps_position_def\<close>)
  show "advances m (respondProtocolV1Ping marshal m)"
    unfolding respondProtocolV1Ping_def by (rule commit_then_advances) (rule a(2))
  show "advances m (respondProtocolV1AttachmentTransferStatus marshal m outcome)"
    unfolding respondProtocolV1AttachmentTransferStatus_def by (rule commit_then_advances) (rule a(3))
  show "advances m (respondProtocolV1AttachmentPromptPrepare marshal m result)"
    unfolding respondProtocolV1AttachmentPromptPrepare_def
    by (rule commit_then_advances) (use a(4) in \<open>auto simp: keeps_position_def split: State.splits\<close>)
qed

text \<open>
  What an iteration that starts at position \<open>p\<close> may do with a message: leave the position and stop, or
  move it by one after \<open>P\<close> was made true of the session.
\<close>

definition good :: "ClientStreamMessage \<Rightarrow> u64 \<Rightarrow> nat \<Rightarrow> (ptySession \<Rightarrow> bool) \<Rightarrow> iteration \<Rightarrow> bool" where
  "good m p w P r \<longleftrightarrow>
     position w (fst (snd r)) = Some p \<and> \<not> snd (snd r) \<or>
     position w (fst (snd r)) = Some (p + 1) \<and> m_Sequence m = p \<and> P (fst r)"

lemma good_go_on:
  assumes "advances m f" "position w h = Some p" "P s"
  shows "good m p w P (go_on w f s h)"
proof -
  obtain st where "ww_protocolV1 (hp_writers h w) = Some st" "s_nextInbound st = p"
    using assms(2) by (auto simp: position_def)
  with assms(1,3) show ?thesis
    by (fastforce simp: advances_def go_on_def good_def on_writer_def position_def split: prod.split)
qed

lemma good_fail_with: "position w h = Some p \<Longrightarrow> good m p w P (fail_with env w code s h)"
  by (simp add: good_def fail_with_def keeps_position_on [OF writeError_keeps])

lemma good_close_with: "position w h = Some p \<Longrightarrow> good m p w P (close_with w text s h)"
  using keeps_position_on [OF WriteMessage_keeps(2), of w "CloseFrame 1002 text" h]
  by (simp add: good_def close_with_def closeProtocol_def)

lemma good_end_session:
  assumes "position w h = Some p" "on_writer w (commitProtocolV1ClientMessage marshal m False) h = (h1, None)"
    and "P (terminateWithReason ReasonExplicitEnd s)"
  shows "good m p w P (end_session env w s h1)"
proof -
  have "good m p w (\<lambda>_. True) (go_on w (commitProtocolV1ClientMessage marshal m False) s h)"
    by (rule good_go_on [OF answers_advance(1) assms(1)]) simp
  then have "position w h1 = Some (p + 1)" "m_Sequence m = p" using assms(2) by (auto simp: good_def go_on_def)
  then show ?thesis using assms(3) by (simp add: good_def end_session_def keeps_position_on [OF writeBinary_keeps])
qed

lemma good_commit_fails:
  assumes "position w h = Some p" "on_writer w (commitProtocolV1ClientMessage marshal m False) h = (h1, Some e)"
  shows "good m p w P (s, h1, False)"
proof -
  have c: "commitProtocolV1ClientMessage marshal m False = commit_then m (\<lambda>w. (w, None))"
    by (simp add: commitProtocolV1ClientMessage_def)
  show ?thesis
    using assms by (auto simp: c good_def on_writer_def position_def commit_then_def CommitClientMessage_def
        split: option.splits prod.splits if_splits)
qed

lemma resize_done: "ps_resize tk cols rows s = (s', None) \<Longrightarrow> tt_size (ps_terminal s') = (cols, rows)"
  by (auto simp: ps_resize_def touchActivity_def resetIdleTimerLocked_def Let_def split: if_splits)

lemma input_done:
  assumes "writeInputBytes tk input s = (s', None)"
  shows "tt_written (ps_terminal s') = tt_written (ps_terminal s) @ input"
proof -
  obtain t where t: "write_input input (ps_terminal s) = (t, None)" "s' = resetIdleTimerLocked tk (touchActivity tk (s\<lparr>ps_terminal := t\<rparr>))"
    using assms by (auto simp: writeInputBytes_def split: prod.splits option.splits)
  from write_input_written [OF t(1)] t(2) show ?thesis by (auto simp: touchActivity_def resetIdleTimerLocked_def)
qed

lemma attachment_position:
  "applyAttachmentMessage lb m s h = (s', h', r) \<Longrightarrow> position w h' = position w h"
  "prepareAttachmentPrompt sha m s h = (s', h', r2) \<Longrightarrow> position w h' = position w h"
  using applyAttachmentMessage_core prepareAttachmentPrompt_core position_writers by blast+

lemma stream_message_good:
  assumes p: "position w h = Some p"
  shows "good m p w (effect_done env tk m s h) (handle_stream_message env tk w m s h)"
proof -
  have attach: "good m p w (effect_done env tk m s h) (handle_stream_message env tk w m s h)"
    if k: "m_Kind m \<in> {KindAttachmentBegin, KindAttachmentChunk, KindAttachmentComplete, KindAttachmentCancel, KindAttachmentDiscard}"
  proof -
    obtain s1 h1 e where a: "applyAttachmentMessage (se_libs env) m s h = (s1, h1, e)" by (metis prod_cases3)
    have p1: "position w h1 = Some p" using attachment_position(1) [OF a] p by simp
    have "effect_done env tk m s h s1" if "e = None" using a k that by (auto simp: effect_done_def)
    then show ?thesis
      using k a good_go_on [OF answers_advance(1) p1] good_fail_with [OF p1]
      by (cases e) (auto simp: handle_stream_message_def)
  qed
  show ?thesis
  proof (cases "m_Kind m")
    case KindEndSession
    then show ?thesis
      using good_end_session [OF p] good_commit_fails [OF p]
      by (auto simp: handle_stream_message_def effect_done_def split: prod.split option.split)
  next
    case KindTerminalInput
    then show ?thesis
      using good_go_on [OF answers_advance(1) p] good_fail_with [OF p] input_done
      by (auto simp: handle_stream_message_def effect_done_def split: prod.split option.split)
  next
    case KindTerminalResize
    then show ?thesis
      using good_go_on [OF answers_advance(1) p] good_fail_with [OF p] resize_done
      by (auto simp: handle_stream_message_def effect_done_def split: prod.split option.split)
  next
    case KindAttachmentPromptPrepare
    obtain s1 h1 r where a: "prepareAttachmentPrompt (lb_sha256 (se_libs env)) m s h = (s1, h1, r)" by (metis prod_cases3)
    have p1: "position w h1 = Some p" using attachment_position(2) [OF a] p by simp
    show ?thesis
      using KindAttachmentPromptPrepare a good_go_on [OF answers_advance(4) p1] good_fail_with [OF p1]
      by (cases r) (auto simp: handle_stream_message_def effect_done_def)
  next
    case KindZero
    then show ?thesis using good_close_with [OF p] by (simp add: handle_stream_message_def close_with_def)
  next
    case KindAttachSession
    then show ?thesis using good_close_with [OF p] by (simp add: handle_stream_message_def close_with_def)
  qed (use attach good_go_on [OF answers_advance(1) p] good_go_on [OF answers_advance(2) p] good_go_on [OF answers_advance(3) p]
      good_fail_with [OF p] in \<open>auto simp: handle_stream_message_def effect_done_def split: prod.split option.split sum.split\<close>)
qed

lemma decode_position: "s_nextInbound (fst (DecodeClientMessage unmarshal encoded st)) = s_nextInbound st"
  by (simp add: DecodeClientMessage_def split: option.split sum.split)


section \<open>A sample message\<close>

definition input_env :: server_env where
  "input_env = \<lparr>se_marshal = flat_marshal, se_unmarshal = (\<lambda>b. Some \<lparr>env_ProtocolMajor = 1, env_ProtocolMinor = 0,
     env_ConnectionId = replicate 16 7, env_SessionId = [], env_SessionGeneration = 0, env_Sequence = 2, env_Acknowledge = 1,
     env_SentAt = None, env_Payload = Envelope_TerminalInput b\<rparr>), se_json = (\<lambda>_. None),
     se_libs = \<lparr>lb_sha256 = (\<lambda>_. []), lb_parseMediaType = (\<lambda>_. None), lb_detectContentType = (\<lambda>_. [])\<rparr>\<rparr>"

definition input_heap :: heap where
  "input_heap = sample_heap\<lparr>hp_writers := (\<lambda>_. sample_conn\<lparr>ww_protocolV1 := Some sample_stream\<rparr>)\<rparr>"

lemma sample_input_decoded:
  "DecodeClientMessage (se_unmarshal input_env) [65] sample_stream =
     (sample_stream\<lparr>s_highestPeerAck := 1\<rparr>, Inr (zero_message\<lparr>m_Kind := KindTerminalInput, m_Sequence := 2, m_Data := [65]\<rparr>))"
  by (simp add: DecodeClientMessage_def input_env_def sample_stream_def validateInboundEnvelope_def decode_payload_def
      MaxEnvelopeBytes_def zero_message_def Let_def word_le_nat_alt)

lemma sample_input_written: "\<exists>s1. writeInputBytes sample_tick [65] sample_session = (s1, None)"
proof -
  have "tt_write (ps_terminal sample_session) = (\<lambda>_ b. (int (length b), False))"
    by (simp add: sample_session_def configured_session_def newPTYSession_def Let_def resetIdleTimerLocked_def logEvent_def)
  then have "\<exists>t. write_input [65] (ps_terminal sample_session) = (t, None)"
    by (simp add: write_input.simps [of "[65]"] write_input.simps [of "[]"] Let_def)
  then show ?thesis by (auto simp: writeInputBytes_def)
qed

lemma sample_input_committed:
  assumes "m_Sequence m = 2" "m_Kind m \<noteq> KindPing" "s = sample_stream\<lparr>s_highestPeerAck := 1\<rparr>" "c = sample_conn\<lparr>ww_protocolV1 := Some s\<rparr>"
  shows "snd (commitProtocolV1ClientMessage flat_marshal m True c) = None"
proof -
  let ?s = "s\<lparr>s_highestInbound := 2, s_nextInbound := 3\<rparr>"
  have "ready ?s" by (simp add: assms(3) ready_def session_ready_def sample_stream_def MaxEnvelopeBytes_def min_def)
  then have "encodeLocked flat_marshal p t ?s = (advance 1 ?s, Inr [0])" for p t
    by (simp add: encodeLocked_def flat_marshalLocked)
  moreover have "CommitClientMessage m s = (?s, None)" using assms by (simp add: CommitClientMessage_def sample_stream_def)
  ultimately show ?thesis
    by (simp add: commitProtocolV1ClientMessage_def commit_then_def encode_write_def EncodeAcknowledgement_def currentTime_def
        WriteMessage_def assms(4) sample_conn_def Let_def)
qed


section \<open>Who gets a connection\<close>

lemma verifyWeb_accepts:
  assumes "verifyWebSession cr now r gate = (gate', Inr res)"
  obtains g store d nonce sig where "gate = Some g" "pg_devices g = Some store" "pr_DeviceID res = ds_DeviceID store"
    "ds_Descriptor cr store = Inr d" "hex_DecodeString (rq_query r ''vb-nonce'') = Some nonce"
    "Std_Decode (rq_query r ''vb-sig'') = Some sig"
    "dc_Verify cr (dd_SigningPublicKey (the (sd_DeviceDescriptor d))) (sessionSignatureDomain @ nonce) sig"
proof -
  from assms obtain g store ns ns' d sig where h: "gate = Some g" "pg_devices g = Some store" "pg_nonces g = Some ns"
    "parse_signature (rq_query r ''vb-nonce'') (rq_query r ''vb-sig'') = Inr sig" "ds_Descriptor cr store = Inr d"
    "check_signer cr store d (ds_DeviceID store) (rq_query r ''vb-nonce'') sig = Inr res"
    by (auto simp: verifyWebSession_def Let_def split: option.splits sum.splits prod.splits if_splits)
  obtain nonce where n: "hex_DecodeString (rq_query r ''vb-nonce'') = Some nonce" "Std_Decode (rq_query r ''vb-sig'') = Some sig"
    using h(4) by (auto simp: parse_signature_def split: if_splits option.splits)
  from h(6) have "pr_DeviceID res = ds_DeviceID store"
    "dc_Verify cr (dd_SigningPublicKey (the (sd_DeviceDescriptor d))) (sessionSignatureDomain @ nonce) sig"
    by (auto simp: check_signer_def sessionSignatureMessage_def hex_prefix_decode [OF n(1)] split: if_splits sum.splits)
  then show thesis using that [OF h(1,2) _ h(5) n] by simp
qed

lemma verifyWeb_devices:
  "verifyWebSession cr now r gate = (gate', out) \<Longrightarrow> map_option pg_devices gate' = map_option pg_devices gate"
  by (auto simp: verifyWebSession_def Let_def split: option.splits sum.splits prod.splits if_splits)

text \<open>
  An upgrade that the server accepts: with the legacy token, only when pairing is not required; otherwise
  on the Protocol V1 subprotocol, for a device that the store has authorized, or under the agent's
  own ID with a signature of the agent.
\<close>

definition vouched :: "crypto \<Rightarrow> Store \<Rightarrow> pairedSessionResult \<Rightarrow> bool" where
  "vouched cr store result \<longleftrightarrow> pr_DeviceID result = ds_DeviceID store \<and> (\<exists>d nonce sig. ds_Descriptor cr store = Inr d \<and>
     dc_Verify cr (dd_SigningPublicKey (the (sd_DeviceDescriptor d))) (sessionSignatureDomain @ nonce) sig)"

definition paired :: "crypto \<Rightarrow> Store \<Rightarrow> pairedSessionResult \<Rightarrow> bool" where
  "paired cr store result \<longleftrightarrow> (\<exists>a. AuthorizedDevice_of cr (pr_DeviceID result) store = Inr a \<and> av_State a = STATE_AUTHORIZED)"

lemma upgrade_policy:
  assumes "authorizedForUpgrade cr webNow now r sv = (sv', result, True)"
  shows "if cf_RequirePairedSession (sv_config sv)
    then offersWebSocketSubprotocol r WebSocketSubprotocol \<and>
      (\<exists>res g store. result = Some res \<and> sv_gate sv = Some g \<and> pg_devices g = Some store \<and> (paired cr store res \<or> vouched cr store res))
    else rq_query r ''token'' \<noteq> [] \<and> rq_query r ''token'' = cf_SessionToken (sv_config sv)"
proof (cases "cf_RequirePairedSession (sv_config sv)")
  case True
  then have o: "offersWebSocketSubprotocol r WebSocketSubprotocol" and g: "sv_gate sv \<noteq> None"
    using assms by (auto simp: authorizedForUpgrade_def split: if_splits)
  obtain g where g: "sv_gate sv = Some g" using g by blast
  have "\<exists>res store. result = Some res \<and> pg_devices g = Some store \<and> (paired cr store res \<or> vouched cr store res)"
  proof (cases "ur_hasDevice r \<and> (\<exists>gate res. verifyWebSession cr webNow (plain_request r) (sv_gate sv) = (gate, Inr res))")
    case True
    then obtain gate res where v: "ur_hasDevice r" "verifyWebSession cr webNow (plain_request r) (sv_gate sv) = (gate, Inr res)" by blast
    with assms \<open>cf_RequirePairedSession (sv_config sv)\<close> o g have "result = Some res" by (auto simp: authorizedForUpgrade_def)
    with verifyWeb_accepts [OF v(2)] g show ?thesis by (metis option.inject vouched_def)
  next
    case False
    obtain gate' out where w: "verifyWebSession cr webNow (plain_request r) (sv_gate sv) = (gate', out)" by force
    let ?gate = "if ur_hasDevice r then gate' else sv_gate sv"
    have dev: "map_option pg_devices ?gate = Some (pg_devices g)" using verifyWeb_devices [OF w] g by simp
    have "\<exists>e. out = Inl e \<and> e = errPairedDeviceUnknown" if "ur_hasDevice r"
      using that False w assms \<open>cf_RequirePairedSession (sv_config sv)\<close> o g
      by (cases out) (auto simp: authorizedForUpgrade_def split: if_splits)
    then have "authorizedForUpgrade cr webNow now r sv =
        (case verify cr now (plain_request r) ?gate of
           (gate', Inl _) \<Rightarrow> (sv\<lparr>sv_gate := gate'\<rparr>, None, False) | (gate', Inr result) \<Rightarrow> (sv\<lparr>sv_gate := gate'\<rparr>, Some result, True))"
      using w \<open>cf_RequirePairedSession (sv_config sv)\<close> o g by (auto simp: authorizedForUpgrade_def)
    then have v: "\<exists>res gate''. verify cr now (plain_request r) ?gate = (gate'', Inr res) \<and> result = Some res"
      using assms by (auto split: prod.splits sum.splits)
    obtain g' where g': "?gate = Some g'" "pg_devices g' = pg_devices g" using dev by auto
    from v obtain res gate'' where "verify cr now (plain_request r) (Some g') = (gate'', Inr res)" "result = Some res"
      unfolding g'(1) by blast
    from verify_accepts [OF this(1)] this(2) g'(2) show ?thesis by (metis paired_def)
  qed
  then show ?thesis using True o g by auto
next
  case False
  then show ?thesis using assms by (auto simp: authorizedForUpgrade_def validToken_def plain_request_def)
qed

section \<open>Generations\<close>

text \<open>
  The calls of the connections on the server, and what happens in its session in between. The session
  steps include the timers, the output and the exit; an exit also clears the session.
\<close>

datatype server_call =
    SOpen connect upgrade_request nat
  | SInstall ptySession bytes
  | SSession "ptySession \<times> heap \<Rightarrow> ptySession \<times> heap"
  | SClear u64
  | SClose

fun server_step :: "crypto \<Rightarrow> server_env \<Rightarrow> Server \<Rightarrow> server_call \<Rightarrow> Server" where
  "server_step cr env sv (SOpen cn r w) = fst (open_connection cr env cn r w sv)"
| "server_step cr env sv (SInstall session i) = fst (install_session session i sv)"
| "server_step cr env sv (SSession f) =
     (case sv_session sv of None \<Rightarrow> sv | Some s \<Rightarrow>
      (case f (s, sv_heap sv) of (s', h') \<Rightarrow>
       sv\<lparr>sv_session := Some (s'\<lparr>ps_sessionID := ps_sessionID s, ps_generation := ps_generation s\<rparr>), sv_heap := h'\<rparr>))"
| "server_step cr env sv (SClear g) = clearSession g sv"
| "server_step cr env sv SClose = sv_Close sv"

text \<open>The identities of a server: the last generation given out, and that of its session.\<close>

definition identity :: "Server \<Rightarrow> u64 \<times> (bytes \<times> u64) option" where
  "identity sv = (sv_nextSessionGeneration sv, map_option (\<lambda>s. (ps_sessionID s, ps_generation s)) (sv_session sv))"

inductive identity_step :: "u64 \<times> (bytes \<times> u64) option \<Rightarrow> u64 \<times> (bytes \<times> u64) option \<Rightarrow> bool" where
  stay: "identity_step x x"
| clear: "identity_step (g, i) (g, None)"
| create: "g \<noteq> - 1 \<Longrightarrow> identity_step (g, i) (g + 1, Some (sid, g + 1))"

inductive_cases identity_stepE: "identity_step (g, i) (g', i')"

lemma identity_session:
  "identity (sv\<lparr>sv_session := Some s', sv_heap := h\<rparr>) = identity sv"
  if "sv_session sv = Some s" "ps_sessionID s' = ps_sessionID s" "ps_generation s' = ps_generation s"
  using that by (simp add: identity_def)

lemma install_identity: "identity_step (identity sv) (identity (fst (install_session session i sv)))"
  by (auto simp: install_session_def identity_def Let_def intro: stay create split: option.splits)

lemma create_identity:
  assumes "getOrCreateSession ln sv = (sv', r)"
  shows "identity_step (identity sv) (identity sv')" "r = Inr b \<Longrightarrow> sv_session sv' \<noteq> None"
proof -
  have "sv' = sv \<or> (\<exists>session i. sv' = fst (install_session session i sv))"
    using assms by (auto simp: getOrCreateSession_def split: if_splits option.splits sum.splits prod.splits) (metis fst_conv)+
  then show "identity_step (identity sv) (identity sv')" using install_identity by (auto intro: stay)
  show "sv_session sv' \<noteq> None" if "r = Inr b"
    using assms that by (auto simp: getOrCreateSession_def install_session_def Let_def split: if_splits option.splits sum.splits prod.splits)
qed

lemma core_identity: "core s' = (c, b, l, cp, n, ps_sessionID s, ps_generation s) \<Longrightarrow>
    ps_sessionID s' = ps_sessionID s \<and> ps_generation s' = ps_generation s"
  by (simp add: core_def)

lemma detach_identity:
  "ps_sessionID (fst (ps_detach tk w timeout s h)) = ps_sessionID s" "ps_generation (fst (ps_detach tk w timeout s h)) = ps_generation s"
  using detach_cases [of tk w timeout s h] core_identity by (metis prod.collapse)+

lemma terminate_identity:
  "ps_sessionID (terminateWithReason why s) = ps_sessionID s" "ps_generation (terminateWithReason why s) = ps_generation s"
  using terminate_core [of why s] by (simp_all add: core_def)

lemma attach_connection_identity:
  assumes "attach_connection env tk w request isNew timeout s h = (s', h', r)"
  shows "ps_sessionID s' = ps_sessionID s \<and> ps_generation s' = ps_generation s"
proof -
  have v1: "ps_sessionID s1 = ps_sessionID s \<and> ps_generation s1 = ps_generation s"
    if "attachProtocolV1 marshal tk w request isNew s h = (s1, h1, ok, e)" for marshal s1 h1 ok e
    using that by (cases rule: attachV1_cases) (auto simp: core_eq dest: core_identity)
  have legacy: "ps_sessionID s1 = ps_sessionID s \<and> ps_generation s1 = ps_generation s"
    if "ps_attach marshal tk w s h = (s1, h1, ok)" for marshal s1 h1 ok
    using that by (cases rule: attach_cases) (auto simp: core_eq dest: core_identity)
  obtain s1 h1 ok e where c: "(if usesSessionResume (hp_writers h w) then attachProtocolV1 (se_marshal env) tk w request isNew s h
      else case ps_attach (se_marshal env) tk w s h of (s1, h1, attached) \<Rightarrow> (s1, h1, attached, None)) = (s1, h1, ok, e)"
    by (metis prod_cases4)
  then have s1: "ps_sessionID s1 = ps_sessionID s \<and> ps_generation s1 = ps_generation s"
    using v1 legacy by (auto split: if_splits prod.splits)
  have "s' = s1 \<or> (\<exists>h2. s' = fst (ps_detach tk w timeout s1 h2))"
    using assms unfolding attach_connection_def c by (auto simp: Let_def split: bool.splits option.splits)
  then show ?thesis using s1 detach_identity by auto
qed

lemma open_session_identity: "identity_step (identity sv) (identity (fst (open_session env cn w request sv)))"
proof -
  obtain sv1 r where g: "getOrCreateSession (cn_launch cn) sv = (sv1, r)" by force
  note c = create_identity [OF g]
  show ?thesis
  proof (cases r)
    case (Inl e)
    then show ?thesis using g c(1) by (simp add: open_session_def identity_def)
  next
    case (Inr isNew)
    then obtain s where s: "sv_session sv1 = Some s" using c(2) by auto
    obtain s' h' res where a: "attach_connection env (cn_ticks cn) w request isNew (cf_ReconnectTimeout (sv_config sv1)) s (sv_heap sv1) = (s', h', res)"
      by (metis prod_cases3)
    have "identity (sv1\<lparr>sv_session := Some s', sv_heap := h'\<rparr>) = identity sv1"
      using identity_session [OF s] attach_connection_identity [OF a] by simp
    then show ?thesis using g c(1) Inr s a by (simp add: open_session_def)
  qed
qed

lemma authorized_identity: "identity (fst (authorizedForUpgrade cr webNow now r sv)) = identity sv"
  by (auto simp: authorizedForUpgrade_def identity_def split: prod.splits option.splits sum.splits)

lemma server_step_identity: "identity_step (identity sv) (identity (server_step cr env sv c))"
proof (cases c)
  case (SOpen cn r w)
  obtain sv1 res ok where a: "authorizedForUpgrade cr (cn_webNow cn) (cn_now cn) r sv = (sv1, res, ok)" by (metis prod_cases3)
  have i: "identity sv1 = identity sv" using authorized_identity [of cr "cn_webNow cn" "cn_now cn" r sv] a by simp
  have h: "identity (sv1\<lparr>sv_heap := h\<rparr>) = identity sv" for h using i by (simp add: identity_def)
  have o: "identity_step (identity sv) (identity (fst (open_session env cn w request (sv1\<lparr>sv_heap := h\<rparr>))))" for request h
    using open_session_identity [of "sv1\<lparr>sv_heap := h\<rparr>"] i by (simp add: identity_def)
  obtain h1 e where n: "(if offersWebSocketSubprotocol r WebSocketSubprotocol
      then on_writer w (negotiateProtocolV1 cr (se_marshal env) (se_unmarshal env) (cn_helloNow cn) (cn_hello cn) sv1) (sv_heap sv1)
      else (sv_heap sv1, None)) = (h1, e)"
    by force
  obtain h2 q where q: "on_writer w (readProtocolV1Attach (se_unmarshal env) (cn_attach cn)) h1 = (h2, q)" by force
  have "identity_step (identity sv) (identity (fst (open_connection cr env cn r w sv)))"
    unfolding open_connection_def a prod.case n
    using i h o stay q by (cases ok; cases e; cases q) simp_all
  then show ?thesis by (simp add: SOpen)
next
  case (SSession f)
  then show ?thesis by (auto simp: identity_def intro: stay split: option.splits prod.splits)
next
  case (SInstall session i)
  then show ?thesis by (simp add: install_identity)
qed (auto simp: identity_def clearSession_def sv_Close_def option.map_comp comp_def terminate_identity intro: stay clear)

definition server_at :: "crypto \<Rightarrow> server_env \<Rightarrow> Server \<Rightarrow> server_call list \<Rightarrow> nat \<Rightarrow> Server" where
  "server_at cr env sv cs k = foldl (server_step cr env) sv (take k cs)"

lemma server_at_step:
  "k < length cs \<Longrightarrow> server_at cr env sv cs (Suc k) = server_step cr env (server_at cr env sv cs k) (cs ! k)"
  by (simp add: server_at_def take_Suc_conv_app_nth)

lemma generation_current:
  assumes "sv_session sv = None" "k \<le> length cs"
  shows "snd (identity (server_at cr env sv cs k)) = Some (i, g) \<Longrightarrow> g = fst (identity (server_at cr env sv cs k))"
  using assms(2)
proof (induction k arbitrary: i g)
  case 0
  then show ?case using assms(1) by (simp add: server_at_def identity_def)
next
  case (Suc k)
  have "identity_step (identity (server_at cr env sv cs k)) (identity (server_at cr env sv cs (Suc k)))"
    using server_step_identity server_at_step Suc.prems(2) by (metis Suc_le_eq)
  then show ?case using Suc.prems Suc.IH by (cases rule: identity_step.cases) (auto simp: prod_eq_iff)
qed

lemma generation_grows:
  assumes "i \<le> j" "j \<le> length cs"
  shows "fst (identity (server_at cr env sv cs i)) \<le> fst (identity (server_at cr env sv cs j)) \<and>
    (fst (identity (server_at cr env sv cs i)) = fst (identity (server_at cr env sv cs j)) \<longrightarrow>
       snd (identity (server_at cr env sv cs j)) = None \<or> identity (server_at cr env sv cs j) = identity (server_at cr env sv cs i))"
  using assms
proof (induction rule: dec_induct)
  case (step n)
  let ?id = "\<lambda>k. identity (server_at cr env sv cs k)"
  have "identity_step (?id n) (?id (Suc n))"
    using server_step_identity server_at_step step.prems by (metis Suc_le_eq)
  then show ?case
  proof (cases rule: identity_step.cases)
    case (create g x sid)
    then have "fst (?id n) < fst (?id (Suc n))" using word_less_succ by simp
    then show ?thesis using step.IH step.prems by auto
  qed (use step.IH step.prems in auto)
qed simp

text \<open>
  C19. \<^bold>\<open>Generations are never reused.\<close> In every sequence of connections, session events, exits and
  concurrent creations on a server that starts without a session, if it has a session of some
  generation at two moments, then it is the same session, which was there at every moment in between. So
  the identity with which a client asks to resume names at most one session of the server's life.
\<close>

theorem generations_never_reused:
  assumes "sv_session sv = None" "i \<le> k" "k \<le> j" "j \<le> length cs"
    and "sv_session (server_at cr env sv cs i) = Some a" "sv_session (server_at cr env sv cs j) = Some b"
    and "ps_generation a = ps_generation b"
  shows "\<exists>c. sv_session (server_at cr env sv cs k) = Some c \<and> ps_generation c = ps_generation a \<and>
    ps_sessionID c = ps_sessionID a \<and> ps_sessionID b = ps_sessionID a"
proof -
  let ?id = "\<lambda>k. identity (server_at cr env sv cs k)"
  have sa: "snd (?id i) = Some (ps_sessionID a, ps_generation a)" and sb: "snd (?id j) = Some (ps_sessionID b, ps_generation b)"
    using assms(5,6) by (simp_all add: identity_def)
  have eq: "fst (?id i) = fst (?id j)"
    using generation_current [OF assms(1) _ sa] generation_current [OF assms(1,4) sb] assms(2-4,7) by simp
  have le: "fst (?id i) \<le> fst (?id k)" "fst (?id k) \<le> fst (?id j)"
    using generation_grows [of i k cs cr env sv] generation_grows [of k j cs cr env sv] assms(2-4) by auto
  then have "fst (?id k) = fst (?id j)" "fst (?id i) = fst (?id k)" using eq by auto
  then have "?id j = ?id k" "?id k = ?id i"
    using generation_grows [of i k cs cr env sv] generation_grows [of k j cs cr env sv] assms(2-4) sa sb
    by (auto simp: prod_eq_iff)
  then show ?thesis using sa sb by (auto simp: identity_def)
qed

section \<open>A sample server\<close>

definition sample_server :: Server where
  "sample_server = sv_New \<lparr>cf_SessionToken = ''t'', cf_Command = [''x''], cf_WorkingDirectory = ''/'', cf_WorkspaceRoot = [],
     cf_ToolAdapter = [], cf_ReconnectTimeout = 0, cf_IdleTimeout = 0, cf_DisableLegacyProtocol = True,
     cf_RequirePairedSession = True, cf_MaxAggregateBytes = 0, cf_DeviceStore = None\<rparr> (\<lambda>_. sample_conn) (hp_world sample_heap)"

abbreviation sample_server_at :: "nat \<Rightarrow> Server" where
  "sample_server_at \<equiv> server_at undefined input_env sample_server
     [SInstall sample_session (replicate 16 2), SSession (\<lambda>(s, h). (terminateWithReason ReasonIdleTimeout s, h))]"

theorem generations_never_reused_witness:
  "\<exists>a b. sv_session (sample_server_at 1) = Some a \<and> sv_session (sample_server_at 2) = Some b \<and> ps_generation a = 1 \<and>
     ps_sessionID b = ps_sessionID a"
proof -
  have n: "sv_session sample_server = None" by (simp add: sample_server_def sv_New_def Let_def)
  obtain a b where ab: "sv_session (sample_server_at 1) = Some a" "sv_session (sample_server_at 2) = Some b"
    "ps_generation a = 1" "ps_generation b = 1"
    by (simp add: server_at_def install_session_def n numeral_2_eq_2) (simp add: sample_server_def sv_New_def Let_def)
  from generations_never_reused [OF n _ _ _ ab(1,2), of 1] ab show ?thesis by auto
qed

section \<open>A connection that stays attached\<close>

text \<open>
  When a legacy connection cannot be sent the buffered output, \<^verbatim>\<open>attach\<close> reports that it is not attached,
  and \<^verbatim>\<open>handleWebSocket\<close> leaves without detaching it. The session keeps it as its client, and refuses every
  other connection until the command exits.
\<close>

lemma failed_attach_blocks:
  assumes "ps_attach marshal tk w s h = (s', h', False)" "ps_client s = None" "ps_lifecycle s = Detached"
  shows "ps_client s' = Some w" "fst (beginAttachLocked tk' w' s') = s'" "\<not> snd (beginAttachLocked tk' w' s')"
proof -
  obtain s1 where b: "beginAttachLocked tk w s = (s1, True)"
    using assms(2,3) by (simp add: beginAttachLocked_def attach_def Let_def)
  then have "ps_client s1 = Some w" using beginAttach_cases [OF b] by (simp add: core_def)
  moreover have "\<exists>replay. s' = s1\<lparr>ps_replay := replay\<rparr>"
    using assms(1) b by (auto simp: ps_attach_def split: prod.splits)
  ultimately show c: "ps_client s' = Some w" by auto
  show "fst (beginAttachLocked tk' w' s') = s'" "\<not> snd (beginAttachLocked tk' w' s')"
    using c by (simp_all add: beginAttachLocked_def)
qed

end
