(* ===== verification/Relay_Server.thy ===== *)
theory Relay_Server
  imports Relay_Router Relay_Replay
begin

text \<open>
  The relay's HTTP entry point (\<^verbatim>\<open>src/internal/relay/server.go\<close>): admission of WebSocket requests, the
  ticket handshake of a connection, the pump that forwards its frames, and shutdown. The code runs
  one goroutine per connection, so the model is a state with the phase of every goroutine and an
  inductive relation in which any of them may take its next step. A step reaches to the next lock,
  atomic counter or channel operation; \<^verbatim>\<open>ReadMessage\<close>, the clock and the outcome of a write are
  inputs of the step. gorilla/websocket is a parameter: a request says whether it asks for an
  upgrade, and \<^verbatim>\<open>Upgrade\<close> is its part before the origin check, the check, and the rest. The pinger
  of a connection only sends control frames and is left out, as are the offered subprotocols, which
  the upgrade echoes.
\<close>

section \<open>The origin check\<close>

text \<open>A Go call that may panic, and slicing a string from an index to its end.\<close>

datatype 'a go = Panics | Returns 'a

definition slice_from :: "nat \<Rightarrow> string \<Rightarrow> string go" where
  "slice_from n s = (if n \<le> length s then Returns (drop n s) else Panics)"

datatype origin_error = OriginTooShort | OriginScheme | OriginHost

definition origin_host :: "string go \<Rightarrow> (origin_error + string) go" where
  "origin_host rest =
     (case rest of
        Panics \<Rightarrow> Panics
      | Returns r \<Rightarrow> Returns (if r = [] then Inl OriginHost else Inr r))"

definition parseOrigin :: "string \<Rightarrow> (origin_error + string) go" where
  "parseOrigin origin =
     (if length origin < 8 then Returns (Inl OriginTooShort)
      else
        let scheme = take 5 origin; rest = drop 5 origin in
        if scheme = ''https'' then origin_host (slice_from 3 rest)
        else if scheme = ''http:'' then origin_host (slice_from 4 rest)
        else Returns (Inl OriginScheme))"

record Request =
  rq_IsUpgrade :: bool
  rq_Origin :: string
  rq_Host :: string

definition buildOriginChecker :: "string list option \<Rightarrow> Request \<Rightarrow> bool go" where
  "buildOriginChecker allowList request =
     (case allowList of
        None \<Rightarrow>
          (if rq_Origin request = [] then Returns True
           else if rq_Host request = [] then Returns False
           else case parseOrigin (rq_Origin request) of
             Panics \<Rightarrow> Panics
           | Returns (Inl _) \<Rightarrow> Returns False
           | Returns (Inr host) \<Rightarrow> Returns (host = rq_Host request))
      | Some entries \<Rightarrow> Returns (rq_Origin request \<in> set entries))"

section \<open>The server\<close>

datatype relay_event = AtCapacity | ListenerError

record 'w relay_config =
  cf_Verifier :: "'w Verifier option"
  cf_Router :: "Router option"
  cf_RouterConfig :: RouterConfig
  cf_AllowedOrigins :: "string list option"
  cf_MaxConnections :: int

text \<open>
  \<open>rs_conns\<close> is the counter of the wait group, \<open>rs_acceptMu\<close> says whether the accept lock is held
  and \<open>rs_sweeping\<close> whether the sweeper runs. \<open>rs_log\<close> are the events handed to the logger.
\<close>

record 'w relay_server =
  rs_allowed :: "string list option"
  rs_router :: Router
  rs_verifier :: "'w Verifier"
  rs_maxConns :: int
  rs_ownsRouter :: bool
  rs_stopping :: bool
  rs_acceptMu :: bool
  rs_conns :: nat
  rs_activeConns :: int
  rs_sweeping :: bool
  rs_log :: "relay_event list"

definition defaultMaxConnections :: int where
  "defaultMaxConnections = 4096"

definition New_relay :: "'w relay_config \<Rightarrow> 'w relay_server option" where
  "New_relay config0 =
     (case cf_Verifier config0 of
        None \<Rightarrow> None
      | Some verifier \<Rightarrow>
          (let router = (case cf_Router config0 of
                           None \<Rightarrow> NewRouterWithConfig (cf_RouterConfig config0)
                         | Some r \<Rightarrow> r);
               config = config0\<lparr>cf_Router := Some router\<rparr>;
               maximum = (if cf_MaxConnections config = 0 then defaultMaxConnections else cf_MaxConnections config)
           in Some \<lparr>rs_allowed = cf_AllowedOrigins config, rs_router = router, rs_verifier = verifier,
                    rs_maxConns = maximum, rs_ownsRouter = (cf_Router config = None), rs_stopping = False,
                    rs_acceptMu = False, rs_conns = 0, rs_activeConns = 0, rs_sweeping = True, rs_log = []\<rparr>))"

definition log_event :: "relay_event \<Rightarrow> 'w relay_server \<Rightarrow> 'w relay_server" where
  "log_event e sv = sv\<lparr>rs_log := rs_log sv @ [e]\<rparr>"

subsection \<open>Admission\<close>

text \<open>
  \<^verbatim>\<open>ServeHTTP\<close> step by step: the check of \<open>stopping\<close> under the accept lock, which stays held when the
  request goes on; the wait group's \<^verbatim>\<open>Add\<close>, which releases it; the capacity check; and the upgrade.
\<close>

definition accept_check :: "'w relay_server \<Rightarrow> 'w relay_server \<times> bool" where
  "accept_check sv = (if rs_stopping sv then (sv, False) else (sv\<lparr>rs_acceptMu := True\<rparr>, True))"

definition accept_add :: "'w relay_server \<Rightarrow> 'w relay_server" where
  "accept_add sv = sv\<lparr>rs_conns := rs_conns sv + 1, rs_acceptMu := False\<rparr>"

datatype admission = NotUpgrade | OverCapacity | Admitted

definition admit :: "Request \<Rightarrow> 'w relay_server \<Rightarrow> 'w relay_server \<times> admission" where
  "admit request sv =
     (if \<not> rq_IsUpgrade request then (sv\<lparr>rs_conns := rs_conns sv - 1\<rparr>, NotUpgrade)
      else if rs_maxConns sv > 0 then
        (let active = rs_activeConns sv + 1
         in (sv\<lparr>rs_activeConns := active\<rparr>, if active > rs_maxConns sv then OverCapacity else Admitted))
      else (sv, Admitted))"

definition release :: "'w relay_server \<Rightarrow> 'w relay_server" where
  "release sv = sv\<lparr>rs_conns := rs_conns sv - 1, rs_activeConns := rs_activeConns sv - 1\<rparr>"

definition capacity_reject :: "'w relay_server \<Rightarrow> 'w relay_server" where
  "capacity_reject sv = log_event AtCapacity (release sv)"

text \<open>
  \<^verbatim>\<open>Upgrade\<close> returns an error when its checks of the request fail before (\<open>pre\<close>) or after (\<open>post\<close>)
  the origin check, or when that check says no.
\<close>

definition Upgrade :: "bool \<Rightarrow> bool \<Rightarrow> Request \<Rightarrow> 'w relay_server \<Rightarrow> bool go" where
  "Upgrade pre post request sv =
     (if \<not> pre then Returns False
      else case buildOriginChecker (rs_allowed sv) request of
        Panics \<Rightarrow> Panics
      | Returns ok \<Rightarrow> Returns (ok \<and> post))"

definition upgrade_failed :: "'w relay_server \<Rightarrow> 'w relay_server" where
  "upgrade_failed sv = log_event ListenerError (release sv)"

text \<open>
  The whole of \<^verbatim>\<open>ServeHTTP\<close> when no other goroutine interferes. A panic is recovered by the HTTP
  server, above this function, and undoes nothing.
\<close>

datatype serve_outcome = Status int | UpgradeRefused | Serving | Panicked

definition ServeHTTP :: "bool \<Rightarrow> bool \<Rightarrow> Request \<Rightarrow> 'w relay_server \<Rightarrow> 'w relay_server \<times> serve_outcome" where
  "ServeHTTP pre post request sv =
     (case accept_check sv of
        (sv1, False) \<Rightarrow> (sv1, Status 503)
      | (sv1, True) \<Rightarrow>
          (case admit request (accept_add sv1) of
             (sv2, NotUpgrade) \<Rightarrow> (sv2, Status 405)
           | (sv2, OverCapacity) \<Rightarrow> (capacity_reject sv2, Status 503)
           | (sv2, Admitted) \<Rightarrow>
               (case Upgrade pre post request sv2 of
                  Panics \<Rightarrow> (sv2, Panicked)
                | Returns False \<Rightarrow> (upgrade_failed sv2, UpgradeRefused)
                | Returns True \<Rightarrow> (sv2, Serving))))"

section \<open>Connections\<close>

subsection \<open>The first frame\<close>

abbreviation (input) BinaryMessage :: int where "BinaryMessage \<equiv> 2"

definition maxTicketBytes :: nat where
  "maxTicketBytes = 8 * 1024"

text \<open>What \<^verbatim>\<open>ReadMessage\<close> returns; \<open>expected\<close> is the result of \<^verbatim>\<open>isExpectedClose\<close> on its error.\<close>

datatype read_result = ReadFailed (expected: bool) | ReadFrame int bytes

datatype ticket_read_error =
    FirstFrameRead | FirstFrameType | FirstFrameShort | FirstFrameLarge | TicketPrefix | TicketDecode

definition Uint32 :: "bytes \<Rightarrow> u32" where
  "Uint32 b = word_rcat (take 4 b)"

definition readTicket :: "(bytes \<Rightarrow> RelayTicket option) \<Rightarrow> read_result \<Rightarrow> ticket_read_error + RelayTicket" where
  "readTicket unmarshal frame =
     (case frame of
        ReadFailed _ \<Rightarrow> Inl FirstFrameRead
      | ReadFrame messageType payload \<Rightarrow>
          (if messageType \<noteq> BinaryMessage then Inl FirstFrameType
           else if length payload < 4 then Inl FirstFrameShort
           else if length payload > maxTicketBytes + 4 then Inl FirstFrameLarge
           else
             let len = Uint32 payload in
             if unat len > length payload - 4 then Inl TicketPrefix
             else case unmarshal (drop 4 (take (unat (4 + len)) payload)) of
               None \<Rightarrow> Inl TicketDecode
             | Some ticket \<Rightarrow> Inr ticket))"

subsection \<open>The peer of a connection\<close>

text \<open>
  A connection: the frames its pump read from it, the data frames written to it, each with the
  number of the connection whose goroutine wrote it, the close codes sent, whether it is open, and
  the \<open>ticket\<close> and \<open>closed\<close> fields of its \<^verbatim>\<open>webSocketPeer\<close>, once there is one. The first, second and
  third are the history of the socket.
\<close>

record connection =
  co_read :: "bytes list"
  co_frames :: "(nat \<times> bytes) list"
  co_codes :: "int list"
  co_open :: bool
  co_ticket :: "Ticket option"
  co_closed :: bool

definition newWebSocketPeer :: "nat \<Rightarrow> Ticket \<Rightarrow> Peer" where
  "newWebSocketPeer c ticket =
     \<lparr>pe_id = c, pe_Endpoint = tk_Endpoint ticket, pe_RouteID = tk_RouteID ticket, pe_DeviceID = tk_DeviceID ticket\<rparr>"

text \<open>\<^verbatim>\<open>webSocketPeer.Forward\<close>, called by the goroutine of connection \<open>c\<close>; \<open>written_ok\<close> is the outcome of the write.\<close>

definition peer_forward :: "nat \<Rightarrow> bool \<Rightarrow> bytes \<Rightarrow> connection \<Rightarrow> connection \<times> bool" where
  "peer_forward c written_ok plaintext conn =
     (if co_closed conn then (conn, False)
      else if \<not> written_ok then (conn\<lparr>co_closed := True, co_open := False\<rparr>, False)
      else (conn\<lparr>co_frames := co_frames conn @ [(c, plaintext)]\<rparr>, True))"

definition peer_close :: "connection \<Rightarrow> connection" where
  "peer_close conn = (if co_closed conn then conn else conn\<lparr>co_closed := True, co_open := False\<rparr>)"

definition close_peers :: "Peer list \<Rightarrow> (nat \<Rightarrow> connection) \<Rightarrow> nat \<Rightarrow> connection" where
  "close_peers ps conns = fold (\<lambda>p cs. cs(pe_id p := peer_close (cs (pe_id p)))) ps conns"

definition send_code :: "int \<Rightarrow> connection \<Rightarrow> connection" where
  "send_code code conn = conn\<lparr>co_codes := co_codes conn @ [code]\<rparr>"

abbreviation (input) ClosePolicyViolation :: int where "ClosePolicyViolation \<equiv> 1008"
abbreviation (input) CloseInternalServerErr :: int where "CloseInternalServerErr \<equiv> 1011"
abbreviation (input) CloseTryAgainLater :: int where "CloseTryAgainLater \<equiv> 1013"

fun join_close_code :: "router_error \<Rightarrow> int" where
  "join_close_code ErrRouteFull = CloseTryAgainLater"
| "join_close_code ErrRouteEndpoint = ClosePolicyViolation"
| "join_close_code _ = CloseInternalServerErr"

section \<open>Goroutines\<close>

text \<open>
  Where the goroutine of a request is: before its first step, inside \<^verbatim>\<open>ServeHTTP\<close>, inside
  \<^verbatim>\<open>handleConnection\<close>, in the pump of \<^verbatim>\<open>runPeer\<close> (\<open>Sending\<close> is between the locked part of
  \<^verbatim>\<open>Route.Forward\<close> and the write to the destination), or done.
\<close>

datatype task =
    Idle
  | Accepting Request
  | Accepted Request
  | Overfull
  | Upgrading Request
  | AwaitTicket
  | HasTicket RelayTicket
  | Checked RelayTicket time
  | Verified Ticket
  | Pumping Ticket Route
  | Sending Ticket Route Peer bytes
  | Refused
  | Crashed
  | Gone

datatype shutdown_phase = ShutdownIdle | ShutdownLocking | ShutdownWaiting | ShutdownDone

record 'w relay =
  rl_server :: "'w relay_server"
  rl_tasks :: "nat \<Rightarrow> task"
  rl_conns :: "nat \<Rightarrow> connection"
  rl_shutdown :: shutdown_phase

definition at_task :: "nat \<Rightarrow> task \<Rightarrow> 'w relay_server \<Rightarrow> 'w relay \<Rightarrow> 'w relay" where
  "at_task c t sv w = w\<lparr>rl_tasks := (rl_tasks w)(c := t), rl_server := sv\<rparr>"

definition on_conn :: "nat \<Rightarrow> (connection \<Rightarrow> connection) \<Rightarrow> 'w relay \<Rightarrow> 'w relay" where
  "on_conn c f w = w\<lparr>rl_conns := (rl_conns w)(c := f (rl_conns w c))\<rparr>"

text \<open>The deferred calls of \<^verbatim>\<open>handleConnection\<close>, and of \<^verbatim>\<open>runPeer\<close> before them.\<close>

definition finish :: "nat \<Rightarrow> 'w relay_server \<Rightarrow> 'w relay \<Rightarrow> 'w relay" where
  "finish c sv w = on_conn c (\<lambda>conn. conn\<lparr>co_open := False\<rparr>) (at_task c Gone (release sv) w)"

definition leave :: "Peer \<Rightarrow> 'w relay \<Rightarrow> 'w relay" where
  "leave p w =
     (case Leave (Some p) (Some (rs_router (rl_server w))) of
        (r, closed) \<Rightarrow> w\<lparr>rl_server := (rl_server w)\<lparr>rs_router := the r\<rparr>, rl_conns := close_peers closed (rl_conns w)\<rparr>)"

definition end_peer :: "nat \<Rightarrow> Ticket \<Rightarrow> 'w relay \<Rightarrow> 'w relay" where
  "end_peer c ticket w = (let w1 = leave (newWebSocketPeer c ticket) w in finish c (rl_server w1) w1)"

definition reject :: "nat \<Rightarrow> int \<Rightarrow> 'w relay_server \<Rightarrow> 'w relay \<Rightarrow> 'w relay" where
  "reject c code sv w = finish c (log_event ListenerError sv) (on_conn c (send_code code) w)"

definition handle_ticket :: "(bytes \<Rightarrow> RelayTicket option) \<Rightarrow> nat \<Rightarrow> read_result \<Rightarrow> 'w relay \<Rightarrow> 'w relay" where
  "handle_ticket unmarshal c frame w =
     (case readTicket unmarshal frame of
        Inl _ \<Rightarrow> reject c ClosePolicyViolation (rl_server w) w
      | Inr ticket \<Rightarrow> at_task c (HasTicket ticket) (rl_server w) w)"

text \<open>\<^verbatim>\<open>Verify\<close> takes the verifier's lock twice.\<close>

definition handle_check :: "nat \<Rightarrow> RelayTicket \<Rightarrow> time \<Rightarrow> time \<Rightarrow> 'w relay \<Rightarrow> 'w relay" where
  "handle_check c ticket now replayNow w =
     (let sv = rl_server w in
      case verify_check (Some ticket) now replayNow (rs_verifier sv) of
        (v, Inl _) \<Rightarrow> reject c ClosePolicyViolation (sv\<lparr>rs_verifier := v\<rparr>) w
      | (v, Inr (wire, expires)) \<Rightarrow> at_task c (Checked wire expires) (sv\<lparr>rs_verifier := v\<rparr>) w)"

definition handle_verify :: "ticket_crypto \<Rightarrow> 'w \<Rightarrow> nat \<Rightarrow> RelayTicket \<Rightarrow> time \<Rightarrow> 'w relay \<Rightarrow> 'w relay" where
  "handle_verify cr world c wire expires w =
     (let sv = rl_server w in
      case verify_finish cr world wire expires (rs_verifier sv) of
        (v, Inl _) \<Rightarrow> reject c ClosePolicyViolation (sv\<lparr>rs_verifier := v\<rparr>) w
      | (v, Inr ticket) \<Rightarrow> at_task c (Verified ticket) (sv\<lparr>rs_verifier := v\<rparr>) w)"

definition handle_join :: "nat \<Rightarrow> Ticket \<Rightarrow> time \<Rightarrow> 'w relay \<Rightarrow> 'w relay" where
  "handle_join c ticket now w =
     (let sv = rl_server w; w = on_conn c (\<lambda>conn. conn\<lparr>co_ticket := Some ticket\<rparr>) w in
      case Join (Some (rs_router sv)) (Some ticket) (Some (newWebSocketPeer c ticket)) now of
        (r, Inl e) \<Rightarrow> reject c (join_close_code e) (sv\<lparr>rs_router := the r\<rparr>) w
      | (r, Inr (route, other)) \<Rightarrow> at_task c (Pumping ticket route) (sv\<lparr>rs_router := the r\<rparr>) w)"

text \<open>One turn of the pump: read a frame and look its destination up, then write it there.\<close>

definition pump_read :: "nat \<Rightarrow> Ticket \<Rightarrow> Route \<Rightarrow> time \<Rightarrow> read_result \<Rightarrow> 'w relay \<Rightarrow> 'w relay" where
  "pump_read c ticket route now frame w =
     (let sv = rl_server w in
      case frame of
        ReadFailed expectedClose \<Rightarrow>
          end_peer c ticket (w\<lparr>rl_server := (if expectedClose then sv else log_event ListenerError sv)\<rparr>)
      | ReadFrame messageType payload \<Rightarrow>
          (if messageType \<noteq> BinaryMessage then w
           else
             let w1 = on_conn c (\<lambda>conn. conn\<lparr>co_read := co_read conn @ [payload]\<rparr>) w in
             case forward_lookup route now (rs_router sv) of
               (r, Inr dest) \<Rightarrow> at_task c (Sending ticket route dest payload) (sv\<lparr>rs_router := r\<rparr>) w1
             | (r, Inl e) \<Rightarrow>
                 (if e = ErrPeerMissing then w1
                  else end_peer c ticket
                         (w1\<lparr>rl_server := (if e = ErrPeerClosed then sv else log_event ListenerError sv)\<rparr>))))"

definition pump_send :: "nat \<Rightarrow> Ticket \<Rightarrow> Route \<Rightarrow> Peer \<Rightarrow> bytes \<Rightarrow> bool \<Rightarrow> 'w relay \<Rightarrow> 'w relay" where
  "pump_send c ticket route dest payload written_ok w =
     (let d = pe_id dest; (conn, ok) = peer_forward c written_ok payload (rl_conns w d);
          w1 = on_conn d (\<lambda>_. conn) w
      in if ok then at_task c (Pumping ticket route) (rl_server w1) w1
         else end_peer c ticket (leave dest w1))"

definition sweep :: "time \<Rightarrow> 'w relay \<Rightarrow> 'w relay" where
  "sweep now w =
     (case Sweep now (rs_router (rl_server w)) of
        (r, _, closed) \<Rightarrow> w\<lparr>rl_server := (rl_server w)\<lparr>rs_router := r\<rparr>, rl_conns := close_peers closed (rl_conns w)\<rparr>)"

text \<open>
  \<^verbatim>\<open>Shutdown\<close>: the first call sets \<open>stopping\<close> and stops the sweeper, passes through the accept lock,
  waits for the wait group and stops the router if the server owns it. A later call returns at once.
\<close>

definition shutdown_begin :: "'w relay \<Rightarrow> 'w relay" where
  "shutdown_begin w =
     (if rs_stopping (rl_server w) then w
      else w\<lparr>rl_server := (rl_server w)\<lparr>rs_stopping := True, rs_sweeping := False\<rparr>, rl_shutdown := ShutdownLocking\<rparr>)"

definition shutdown_return :: "'w relay \<Rightarrow> 'w relay" where
  "shutdown_return w =
     (let w1 = w\<lparr>rl_shutdown := ShutdownDone\<rparr>; sv = rl_server w in
      if rs_ownsRouter sv
      then (case Stop (rs_router sv) of
              (r, closed) \<Rightarrow> w1\<lparr>rl_server := sv\<lparr>rs_router := r\<rparr>, rl_conns := close_peers closed (rl_conns w)\<rparr>)
      else w1)"

record relay_libs =
  lb_crypto :: ticket_crypto
  lb_unmarshal :: "bytes \<Rightarrow> RelayTicket option"

inductive serve_step :: "relay_libs \<Rightarrow> 'w relay \<Rightarrow> 'w relay \<Rightarrow> bool" for lb where
  check: "rl_tasks w c = Idle \<Longrightarrow> \<not> rs_acceptMu (rl_server w) \<Longrightarrow> accept_check (rl_server w) = (sv, go_on) \<Longrightarrow>
     serve_step lb w (at_task c (if go_on then Accepting rq else Refused) sv w)"
| add: "rl_tasks w c = Accepting rq \<Longrightarrow> serve_step lb w (at_task c (Accepted rq) (accept_add (rl_server w)) w)"
| capacity: "rl_tasks w c = Accepted rq \<Longrightarrow> admit rq (rl_server w) = (sv, a) \<Longrightarrow>
     serve_step lb w
       (at_task c (case a of NotUpgrade \<Rightarrow> Refused | OverCapacity \<Rightarrow> Overfull | Admitted \<Rightarrow> Upgrading rq) sv w)"
| roll_back: "rl_tasks w c = Overfull \<Longrightarrow> serve_step lb w (at_task c Refused (capacity_reject (rl_server w)) w)"
| upgrade: "rl_tasks w c = Upgrading rq \<Longrightarrow>
     serve_step lb w
       (case Upgrade pre post rq (rl_server w) of
          Panics \<Rightarrow> at_task c Crashed (rl_server w) w
        | Returns False \<Rightarrow> at_task c Refused (upgrade_failed (rl_server w)) w
        | Returns True \<Rightarrow> at_task c AwaitTicket (rl_server w) w)"
| ticket: "rl_tasks w c = AwaitTicket \<Longrightarrow> serve_step lb w (handle_ticket (lb_unmarshal lb) c frame w)"
| verify_1: "rl_tasks w c = HasTicket t \<Longrightarrow> serve_step lb w (handle_check c t now replayNow w)"
| verify_2: "rl_tasks w c = Checked t expires \<Longrightarrow>
     serve_step lb w (handle_verify (lb_crypto lb) world c t expires w)"
| join: "rl_tasks w c = Verified tk \<Longrightarrow> serve_step lb w (handle_join c tk now w)"
| read: "rl_tasks w c = Pumping tk route \<Longrightarrow> serve_step lb w (pump_read c tk route now frame w)"
| send: "rl_tasks w c = Sending tk route dest payload \<Longrightarrow>
     serve_step lb w (pump_send c tk route dest payload written_ok w)"
| swept: "rs_sweeping (rl_server w) \<Longrightarrow> serve_step lb w (sweep now w)"
| stop: "serve_step lb w (shutdown_begin w)"
| drain: "rl_shutdown w = ShutdownLocking \<Longrightarrow> \<not> rs_acceptMu (rl_server w) \<Longrightarrow>
     serve_step lb w (w\<lparr>rl_shutdown := ShutdownWaiting\<rparr>)"
| stopped: "rl_shutdown w = ShutdownWaiting \<Longrightarrow> rs_conns (rl_server w) = 0 \<Longrightarrow>
     serve_step lb w (shutdown_return w)"

definition relay_started :: "'w relay_server \<Rightarrow> 'w relay" where
  "relay_started sv = \<lparr>rl_server = sv, rl_tasks = (\<lambda>_. Idle),
     rl_conns = (\<lambda>_. \<lparr>co_read = [], co_frames = [], co_codes = [], co_open = True, co_ticket = None, co_closed = False\<rparr>),
     rl_shutdown = ShutdownIdle\<rparr>"

text \<open>The states of a relay that \<open>New_relay\<close> made, at any moment of any interleaving.\<close>

inductive serves :: "relay_libs \<Rightarrow> 'w relay_config \<Rightarrow> 'w relay \<Rightarrow> bool" for lb config where
  begins: "New_relay config = Some sv \<Longrightarrow> serves lb config (relay_started sv)"
| goes_on: "serves lb config w \<Longrightarrow> serve_step lb w w' \<Longrightarrow> serves lb config w'"

end
