(* ===== verification/Relay_Server_Safety.thy ===== *)
theory Relay_Server_Safety
  imports Relay_Server "HOL-Library.Sublist"
begin

text \<open>
  What the relay server guarantees under every interleaving of its goroutines: the counters match
  the connections, so the cap holds and shutdown drains; and what a connection receives is a
  contiguous stretch of what an admitted counterpart sent.
\<close>

section \<open>Accounting\<close>

text \<open>
  The phases in which a request is counted by the wait group, holds a connection slot, and has
  been admitted. A crashed request is still counted: nothing undoes its increments.
\<close>

fun waited :: "task \<Rightarrow> bool" where
  "waited Idle = False"
| "waited (Accepting _) = False"
| "waited Refused = False"
| "waited Gone = False"
| "waited _ = True"

fun slotted :: "task \<Rightarrow> bool" where
  "slotted (Accepted _) = False"
| "slotted t = waited t"

fun serving :: "task \<Rightarrow> bool" where
  "serving Overfull = False"
| "serving t = slotted t"

fun accepting :: "task \<Rightarrow> bool" where
  "accepting (Accepting _) = True"
| "accepting _ = False"

definition tasks_in :: "(task \<Rightarrow> bool) \<Rightarrow> (nat \<Rightarrow> task) \<Rightarrow> nat" where
  "tasks_in P ts = card {c. P (ts c)}"

lemma tasks_in_upd:
  assumes "finite {c. P (ts c)}"
  shows "int (tasks_in P (ts(c := t))) = int (tasks_in P ts) - of_bool (P (ts c)) + of_bool (P t)"
    and "finite {x. P ((ts(c := t)) x)}"
proof -
  let ?A = "{x. P (ts x)}"
  have eq: "{x. P ((ts(c := t)) x)} = (if P t then insert c ?A else ?A - {c})" by auto
  then show "finite {x. P ((ts(c := t)) x)}" using assms by simp
  show "int (tasks_in P (ts(c := t))) = int (tasks_in P ts) - of_bool (P (ts c)) + of_bool (P t)"
  proof (cases "P (ts c)")
    case True
    then have "card ?A > 0" using assms by (auto simp: card_gt_0_iff)
    then show ?thesis using True assms unfolding tasks_in_def eq by (simp add: insert_absorb)
  next
    case False
    then have "?A - {c} = ?A" "c \<notin> ?A" by auto
    then show ?thesis using assms False unfolding tasks_in_def eq by simp
  qed
qed

lemma tasks_in_pos: "finite {c. P (ts c)} \<Longrightarrow> P (ts c) \<Longrightarrow> tasks_in P ts > 0"
  by (auto simp: tasks_in_def card_gt_0_iff)

lemma tasks_in_mono:
  "(\<And>t. P t \<Longrightarrow> Q t) \<Longrightarrow> finite {c. Q (ts c)} \<Longrightarrow> tasks_in P ts \<le> tasks_in Q ts"
  unfolding tasks_in_def by (rule card_mono) auto

text \<open>The part of the server that admission and shutdown use.\<close>

record books =
  bk_conns :: nat
  bk_active :: int
  bk_max :: int
  bk_mu :: bool
  bk_stopping :: bool

definition books :: "'w relay_server \<Rightarrow> books" where
  "books sv = \<lparr>bk_conns = rs_conns sv, bk_active = rs_activeConns sv, bk_max = rs_maxConns sv,
     bk_mu = rs_acceptMu sv, bk_stopping = rs_stopping sv\<rparr>"

definition balanced :: "books \<Rightarrow> (nat \<Rightarrow> task) \<Rightarrow> bool" where
  "balanced b ts \<longleftrightarrow> finite {c. waited (ts c)} \<and> bk_conns b = tasks_in waited ts \<and>
     (bk_max b > 0 \<longrightarrow> bk_active b = int (tasks_in slotted ts) \<and> int (tasks_in serving ts) \<le> bk_max b) \<and>
     (\<forall>c. accepting (ts c) \<longrightarrow> bk_mu b) \<and> (\<forall>c d. accepting (ts c) \<longrightarrow> accepting (ts d) \<longrightarrow> c = d)"

lemma slotted_waited: "slotted t \<Longrightarrow> waited t"
  by (cases t) simp_all

lemma serving_slotted: "serving t \<Longrightarrow> slotted t"
  by (cases t) simp_all

lemma balanced_finite:
  assumes "balanced b ts"
  shows "finite {c. waited (ts c)}" "finite {c. slotted (ts c)}" "finite {c. serving (ts c)}"
proof -
  show fin: "finite {c. waited (ts c)}" using assms by (simp add: balanced_def)
  show "finite {c. slotted (ts c)}" by (rule finite_subset [OF _ fin]) (auto intro: slotted_waited)
  show "finite {c. serving (ts c)}" by (rule finite_subset [OF _ fin]) (auto intro: slotted_waited serving_slotted)
qed

text \<open>A task moves on and the books are kept.\<close>

lemma balanced_upd:
  assumes "balanced b ts"
    and "int (bk_conns b') = int (bk_conns b) - of_bool (waited (ts c)) + of_bool (waited t)"
    and "bk_max b > 0 \<Longrightarrow> bk_active b' = bk_active b - of_bool (slotted (ts c)) + of_bool (slotted t)"
    and "bk_max b > 0 \<Longrightarrow> serving t \<Longrightarrow> serving (ts c) \<or> bk_active b' \<le> bk_max b"
    and "bk_max b' = bk_max b"
    and "accepting t \<Longrightarrow> bk_mu b' \<and> \<not> bk_mu b" "bk_mu b \<and> \<not> accepting (ts c) \<Longrightarrow> bk_mu b'"
  shows "balanced b' (ts(c := t))"
proof -
  note fin = balanced_finite [OF assms(1)]
  note upd = tasks_in_upd(1) [OF fin(1), of c t] tasks_in_upd(1) [OF fin(2), of c t] tasks_in_upd(1) [OF fin(3), of c t]
  have serv: "int (tasks_in serving (ts(c := t))) \<le> bk_max b" if m: "bk_max b > 0"
  proof (cases "serving t \<and> \<not> serving (ts c)")
    case True
    have "int (tasks_in serving (ts(c := t))) \<le> int (tasks_in slotted (ts(c := t)))"
      using tasks_in_mono [of serving slotted "ts(c := t)", OF serving_slotted tasks_in_upd(2) [OF fin(2)]]
      by (simp del: fun_upd_apply)
    also have "\<dots> = bk_active b'" using assms(1,3) m upd(2) by (simp add: balanced_def)
    finally show ?thesis using assms(4) [OF m] True by simp
  next
    case False
    then have "of_bool (serving t) \<le> (of_bool (serving (ts c)) :: int)" by (auto simp: of_bool_def)
    moreover have "int (tasks_in serving ts) \<le> bk_max b" using assms(1) m by (simp add: balanced_def)
    ultimately show ?thesis using upd(3) by linarith
  qed
  have act: "bk_active b' = int (tasks_in slotted (ts(c := t)))" if "bk_max b > 0"
    using assms(1,3) that upd(2) by (simp add: balanced_def)
  have con: "bk_conns b' = tasks_in waited (ts(c := t))"
    using assms(1,2) upd(1) unfolding balanced_def by linarith
  have one: "\<not> accepting (ts x)" if "\<not> bk_mu b" for x
    using assms(1) that by (auto simp: balanced_def)
  have "accepting ((ts(c := t)) x) \<longrightarrow> bk_mu b'" for x
    using assms(1,6,7) by (cases "x = c") (auto simp: balanced_def)
  moreover have "accepting ((ts(c := t)) x) \<longrightarrow> accepting ((ts(c := t)) y) \<longrightarrow> x = y" for x y
    using assms(1,6) one by (auto simp: balanced_def)
  ultimately show ?thesis
    unfolding balanced_def using act con serv tasks_in_upd(2) [OF fin(1)] assms(5) by (simp del: fun_upd_apply)
qed

lemma balanced_release:
  assumes "balanced b ts" "slotted (ts c)" "\<not> waited t" "\<not> accepting t"
  shows "balanced (b\<lparr>bk_conns := bk_conns b - 1, bk_active := bk_active b - 1\<rparr>) (ts(c := t))"
proof (rule balanced_upd [OF assms(1)])
  have "bk_conns b > 0"
    using tasks_in_pos [OF balanced_finite(1) [OF assms(1)], of c] assms(1,2) slotted_waited
    by (simp add: balanced_def)
  then show "int (bk_conns (b\<lparr>bk_conns := bk_conns b - 1, bk_active := bk_active b - 1\<rparr>)) =
      int (bk_conns b) - of_bool (waited (ts c)) + of_bool (waited t)"
    using assms(2,3) slotted_waited by simp
qed (use assms slotted_waited [of t] serving_slotted [of t] in auto)

lemma balanced_stay:
  assumes "balanced b ts" "waited t = waited (ts c)" "slotted t = slotted (ts c)" "serving t = serving (ts c)"
    "\<not> accepting t" "\<not> accepting (ts c)"
  shows "balanced b (ts(c := t))"
  by (rule balanced_upd [OF assms(1)]) (use assms in auto)

lemma books_simps [simp]:
  "books (log_event e sv) = books sv" "books (sv\<lparr>rs_router := r\<rparr>) = books sv" "books (sv\<lparr>rs_verifier := v\<rparr>) = books sv"
  "books (release sv) = (books sv)\<lparr>bk_conns := bk_conns (books sv) - 1, bk_active := bk_active (books sv) - 1\<rparr>"
  by (simp_all add: books_def log_event_def release_def)

lemma relay_simps [simp]:
  "rl_tasks (at_task c t sv w) = (rl_tasks w)(c := t)" "rl_server (at_task c t sv w) = sv"
  "rl_shutdown (at_task c t sv w) = rl_shutdown w" "rl_conns (at_task c t sv w) = rl_conns w"
  "rl_tasks (on_conn c f w) = rl_tasks w" "rl_server (on_conn c f w) = rl_server w"
  "rl_shutdown (on_conn c f w) = rl_shutdown w"
  "rl_conns (on_conn c f w) = (rl_conns w)(c := f (rl_conns w c))"
  "rl_tasks (leave p w) = rl_tasks w" "rl_shutdown (leave p w) = rl_shutdown w"
  "books (rl_server (leave p w)) = books (rl_server w)"
  by (simp_all add: at_task_def on_conn_def leave_def split_beta)

lemma finish_simps [simp]:
  "rl_tasks (finish c sv w) = (rl_tasks w)(c := Gone)" "rl_server (finish c sv w) = release sv"
  "rl_shutdown (finish c sv w) = rl_shutdown w"
  "rl_conns (finish c sv w) = (rl_conns w)(c := (rl_conns w c)\<lparr>co_open := False\<rparr>)"
  by (simp_all add: finish_def)

lemma end_simps [simp]:
  "rl_tasks (end_peer c tk w) = (rl_tasks w)(c := Gone)" "rl_shutdown (end_peer c tk w) = rl_shutdown w"
  "rl_tasks (reject c code sv w) = (rl_tasks w)(c := Gone)" "rl_shutdown (reject c code sv w) = rl_shutdown w"
  "rl_server (reject c code sv w) = release (log_event ListenerError sv)"
  by (simp_all add: end_peer_def reject_def Let_def)

lemma end_books [simp]:
  "books (rl_server (end_peer c tk w)) = books (release (rl_server w))"
  by (simp add: end_peer_def Let_def)

lemma sweep_simps [simp]:
  "rl_tasks (sweep now w) = rl_tasks w" "rl_shutdown (sweep now w) = rl_shutdown w"
  "books (rl_server (sweep now w)) = books (rl_server w)"
  by (simp_all add: sweep_def split_beta)

lemma shutdown_simps [simp]:
  "rl_tasks (shutdown_begin w) = rl_tasks w" "rl_tasks (shutdown_return w) = rl_tasks w"
  "rl_shutdown (shutdown_return w) = ShutdownDone" "books (rl_server (shutdown_return w)) = books (rl_server w)"
  by (simp_all add: shutdown_begin_def shutdown_return_def Let_def split_beta)

lemma balanced_admit:
  assumes "balanced (books sv) ts" "ts c = Accepted rq" "admit rq sv = (sv', a)"
  shows "balanced (books sv') (ts(c := (case a of NotUpgrade \<Rightarrow> Refused | OverCapacity \<Rightarrow> Overfull | Admitted \<Rightarrow> Upgrading rq)))"
proof (rule balanced_upd [OF assms(1)])
  have "rs_conns sv > 0"
    using tasks_in_pos [OF balanced_finite(1) [OF assms(1)], of c] assms(1,2) by (simp add: balanced_def books_def)
  then show "int (bk_conns (books sv')) = int (bk_conns (books sv)) - of_bool (waited (ts c)) +
      of_bool (waited (case a of NotUpgrade \<Rightarrow> Refused | OverCapacity \<Rightarrow> Overfull | Admitted \<Rightarrow> Upgrading rq))"
    using assms(2,3) by (auto simp: admit_def Let_def books_def split: if_splits)
qed (use assms(2,3) in \<open>auto simp: admit_def Let_def books_def split: if_splits\<close>)

lemma balanced_step:
  assumes "serve_step lb w w'" "balanced (books (rl_server w)) (rl_tasks w)"
  shows "balanced (books (rl_server w')) (rl_tasks w')"
  using assms
proof cases
  case (check c sv go_on rq)
  then show ?thesis
    using assms(2) by (auto simp: accept_check_def books_def split: if_splits intro!: balanced_upd [OF assms(2)])
next
  case (add c rq)
  then show ?thesis by (auto simp: accept_add_def books_def intro!: balanced_upd [OF assms(2)])
next
  case (capacity c rq sv a)
  then show ?thesis using balanced_admit [OF assms(2)] by simp
next
  case (roll_back c)
  then show ?thesis using balanced_release [OF assms(2), of c Refused] by (simp add: capacity_reject_def)
next
  case (upgrade c rq pre post)
  then show ?thesis
    using balanced_release [OF assms(2), of c Refused] balanced_stay [OF assms(2), of _ c]
    by (auto simp: upgrade_failed_def split: go.split bool.split)
next
  case (ticket c frame)
  then show ?thesis
    using balanced_release [OF assms(2), of c Gone] balanced_stay [OF assms(2), of _ c]
    by (auto simp: handle_ticket_def split: sum.split)
next
  case (verify_1 c t now replayNow)
  then show ?thesis
    using balanced_release [OF assms(2), of c Gone] balanced_stay [OF assms(2), of _ c]
    by (auto simp: handle_check_def Let_def split: sum.split prod.split)
next
  case (verify_2 c t expires world)
  then show ?thesis
    using balanced_release [OF assms(2), of c Gone] balanced_stay [OF assms(2), of _ c]
    by (auto simp: handle_verify_def Let_def split: sum.split prod.split)
next
  case (join c tk now)
  then show ?thesis
    using balanced_release [OF assms(2), of c Gone] balanced_stay [OF assms(2), of _ c]
    by (auto simp: handle_join_def Let_def split: sum.split prod.split)
next
  case (read c tk route now frame)
  then show ?thesis
    using assms(2) balanced_release [OF assms(2), of c Gone] balanced_stay [OF assms(2), of _ c]
    by (auto simp: pump_read_def Let_def split: sum.split prod.split read_result.split)
next
  case (send c tk route dest payload written_ok)
  then show ?thesis
    using balanced_release [OF assms(2), of c Gone] balanced_stay [OF assms(2), of _ c]
    by (auto simp: pump_send_def Let_def split: prod.split)
next
  case stop
  then show ?thesis using assms(2) by (auto simp: shutdown_begin_def books_def balanced_def)
qed (use assms(2) in simp_all)

text \<open>
  A shutdown past the accept lock has no request left between the check and the increment, and one
  that returned has none that is counted.
\<close>

definition draining :: "'w relay \<Rightarrow> bool" where
  "draining w \<longleftrightarrow>
     (rl_shutdown w \<noteq> ShutdownIdle \<longrightarrow> rs_stopping (rl_server w)) \<and>
     (rl_shutdown w \<in> {ShutdownWaiting, ShutdownDone} \<longrightarrow> (\<forall>c. \<not> accepting (rl_tasks w c))) \<and>
     (rl_shutdown w = ShutdownDone \<longrightarrow> (\<forall>c. \<not> waited (rl_tasks w c)))"

lemma books_stopping: "rs_stopping sv = bk_stopping (books sv)"
  by (simp add: books_def)

lemma draining_upd:
  assumes "draining w" "rl_tasks w' = (rl_tasks w)(c := t)" "rl_shutdown w' = rl_shutdown w"
    "bk_stopping (books (rl_server w')) = bk_stopping (books (rl_server w))"
    "accepting t \<Longrightarrow> \<not> rs_stopping (rl_server w) \<or> accepting (rl_tasks w c)" "waited t \<Longrightarrow> waited (rl_tasks w c) \<or> accepting (rl_tasks w c)"
  shows "draining w'"
  using assms unfolding draining_def by (auto simp: books_stopping)

text \<open>Every step but those of a shutdown moves at most one task, or moves none and keeps the books.\<close>

lemma serve_step_moves:
  assumes "serve_step lb w w'"
  obtains (task) c t where "rl_tasks w' = (rl_tasks w)(c := t)" "rl_shutdown w' = rl_shutdown w"
      "rs_stopping (rl_server w') = rs_stopping (rl_server w)"
      "accepting t \<Longrightarrow> \<not> rs_stopping (rl_server w) \<or> accepting (rl_tasks w c)" "waited t \<Longrightarrow> waited (rl_tasks w c) \<or> accepting (rl_tasks w c)"
  | (stop) "w' = shutdown_begin w"
  | (drain) "w' = w\<lparr>rl_shutdown := ShutdownWaiting\<rparr>" "rl_shutdown w = ShutdownLocking" "\<not> rs_acceptMu (rl_server w)"
  | (stopped) "w' = shutdown_return w" "rl_shutdown w = ShutdownWaiting" "rs_conns (rl_server w) = 0"
  using assms
proof cases
  case (check c sv go_on rq)
  then show thesis by (intro task [of c]) (auto simp: accept_check_def split: if_splits)
next
  case (add c rq)
  then show thesis by (intro task [of c]) (auto simp: accept_add_def)
next
  case (capacity c rq sv a)
  then show thesis by (intro task [of c]) (auto simp: admit_def Let_def split: if_splits)
next
  case (roll_back c)
  then show thesis by (intro task [of c Refused]) (auto simp: books_stopping capacity_reject_def)
next
  case (upgrade c rq pre post)
  then show thesis
    by (intro task [of c "rl_tasks w' c"]) (auto simp: books_stopping upgrade_failed_def split: go.splits bool.splits)
next
  case (ticket c frame)
  then show thesis by (intro task [of c "rl_tasks w' c"]) (auto simp: books_stopping handle_ticket_def split: sum.splits)
next
  case (verify_1 c t now replayNow)
  then show thesis
    by (intro task [of c "rl_tasks w' c"]) (auto simp: books_stopping handle_check_def Let_def split: sum.splits prod.splits)
next
  case (verify_2 c t expires world)
  then show thesis
    by (intro task [of c "rl_tasks w' c"]) (auto simp: books_stopping handle_verify_def Let_def split: sum.splits prod.splits)
next
  case (join c tk now)
  then show thesis
    by (intro task [of c "rl_tasks w' c"]) (auto simp: books_stopping handle_join_def Let_def split: sum.splits prod.splits)
next
  case (read c tk route now frame)
  then show thesis
    by (intro task [of c "rl_tasks w' c"])
       (auto simp: books_stopping pump_read_def Let_def split: sum.splits prod.splits read_result.splits if_splits)
next
  case (send c tk route dest payload written_ok)
  then show thesis
    by (intro task [of c "rl_tasks w' c"]) (auto simp: books_stopping pump_send_def Let_def split: prod.splits if_splits)
next
  case (swept now)
  then show thesis by (intro task [of 0 "rl_tasks w 0"]) (auto simp: books_stopping draining_def)
qed (use stop drain stopped in auto)

lemma draining_step:
  assumes "serve_step lb w w'" "balanced (books (rl_server w)) (rl_tasks w)" "draining w"
  shows "draining w'"
  using assms(1)
proof (cases rule: serve_step_moves)
  case (task c t)
  show ?thesis by (rule draining_upd [OF assms(3) task(1,2) _ task(4,5)]) (use task(3) in \<open>simp add: books_stopping\<close>)
next
  case stop
  then show ?thesis using assms(3) by (auto simp: draining_def shutdown_begin_def)
next
  case drain
  then show ?thesis using assms(2,3) by (auto simp: draining_def balanced_def books_def)
next
  case stopped
  have "finite {c. waited (rl_tasks w c)}" "tasks_in waited (rl_tasks w) = 0"
    using assms(2) stopped(3) by (simp_all add: balanced_def books_def)
  then have "\<not> waited (rl_tasks w c)" for c using tasks_in_pos [of waited "rl_tasks w" c] by auto
  moreover have "rs_stopping (rl_server (shutdown_return w)) = rs_stopping (rl_server w)" by (simp add: books_stopping)
  ultimately show ?thesis using assms(3) stopped by (auto simp: draining_def)
qed

lemma started_books:
  "New_relay config = Some sv \<Longrightarrow> balanced (books (rl_server (relay_started sv))) (rl_tasks (relay_started sv))"
  "draining (relay_started sv)"
  by (auto simp: New_relay_def Let_def balanced_def books_def relay_started_def draining_def tasks_in_def
      defaultMaxConnections_def split: option.splits if_splits)

lemma serves_balanced: "serves lb config w \<Longrightarrow> balanced (books (rl_server w)) (rl_tasks w)"
  by (induction rule: serves.induct) (auto intro: started_books balanced_step)

lemma serves_draining: "serves lb config w \<Longrightarrow> draining w"
  by (induction rule: serves.induct) (auto intro: started_books draining_step serves_balanced)

lemma step_max: "serve_step lb w w' \<Longrightarrow> bk_max (books (rl_server w')) = bk_max (books (rl_server w))"
  by (erule serve_step.cases)
     (auto simp: accept_check_def accept_add_def admit_def capacity_reject_def upgrade_failed_def handle_ticket_def
      handle_check_def handle_verify_def handle_join_def pump_read_def pump_send_def shutdown_begin_def Let_def
      split: sum.splits prod.splits go.splits bool.splits read_result.splits if_splits, simp_all add: books_def)

lemma serves_max:
  "serves lb config w \<Longrightarrow> bk_max (books (rl_server w)) =
     (if cf_MaxConnections config = 0 then defaultMaxConnections else cf_MaxConnections config)"
proof (induction rule: serves.induct)
  case (begins sv)
  then show ?case by (auto simp: New_relay_def Let_def relay_started_def books_def split: option.splits)
qed (simp add: step_max)

section \<open>Admitted traffic\<close>

text \<open>
  The ticket a task was verified with, and the tickets that admit a connection: signed by an issuer
  the relay was configured with, and well-formed.
\<close>

fun task_ticket :: "task \<Rightarrow> Ticket option" where
  "task_ticket (Verified tk) = Some tk"
| "task_ticket (Pumping tk h) = Some tk"
| "task_ticket (Sending tk h dest b) = Some tk"
| "task_ticket _ = None"

fun task_route :: "task \<Rightarrow> Route option" where
  "task_route (Pumping tk h) = Some h"
| "task_route (Sending tk h dest b) = Some h"
| "task_route _ = None"

fun unjoined :: "task \<Rightarrow> bool" where
  "unjoined (Pumping tk h) = False"
| "unjoined (Sending tk h dest b) = False"
| "unjoined Gone = False"
| "unjoined t = True"

definition admits :: "ticket_crypto \<Rightarrow> bytes list \<Rightarrow> Ticket \<Rightarrow> bool" where
  "admits cr issuers tk \<longleftrightarrow> ticket_shape_ok (tk_wire tk) \<and> (\<exists>key \<in> set issuers. signed_by cr key (tk_wire tk))"

definition opposite :: "Ticket \<Rightarrow> Ticket \<Rightarrow> bool" where
  "opposite t u \<longleftrightarrow> tk_RouteID t = tk_RouteID u \<and>
     (tk_Endpoint t = RELAY_ENDPOINT_AGENT \<and> tk_Endpoint u = RELAY_ENDPOINT_CLIENT \<or>
      tk_Endpoint t = RELAY_ENDPOINT_CLIENT \<and> tk_Endpoint u = RELAY_ENDPOINT_AGENT)"

abbreviation (input) rl_router :: "'w relay \<Rightarrow> Router" where "rl_router w \<equiv> rs_router (rl_server w)"
abbreviation (input) ticket_at :: "'w relay \<Rightarrow> nat \<Rightarrow> Ticket option" where "ticket_at w c \<equiv> co_ticket (rl_conns w c)"

text \<open>The payloads written to connection \<open>d\<close> by the goroutine of connection \<open>c\<close>.\<close>

definition sent :: "nat \<Rightarrow> connection \<Rightarrow> bytes list" where
  "sent c conn = map snd (filter (\<lambda>(s, _). s = c) (co_frames conn))"

definition exchanged :: "'w relay \<Rightarrow> nat \<Rightarrow> nat \<Rightarrow> bool" where
  "exchanged w c d \<longleftrightarrow> sent c (rl_conns w d) \<noteq> [] \<or>
     (\<exists>tk h dest b. rl_tasks w c = Sending tk h dest b \<and> pe_id dest = d)"

definition seated :: "'w relay \<Rightarrow> nat \<Rightarrow> bool" where
  "seated w d \<longleftrightarrow> (\<exists>p \<in> peers (rl_router w). pe_id p = d)"

definition shows_ticket :: "Peer \<Rightarrow> Ticket \<Rightarrow> bool" where
  "shows_ticket p tk \<longleftrightarrow> pe_RouteID p = tk_RouteID tk \<and> pe_Endpoint p = tk_Endpoint tk"

lemma newWebSocketPeer_simps [simp]:
  "pe_id (newWebSocketPeer c tk) = c" "pe_RouteID (newWebSocketPeer c tk) = tk_RouteID tk"
  "pe_Endpoint (newWebSocketPeer c tk) = tk_Endpoint tk" "shows_ticket (newWebSocketPeer c tk) tk"
  by (simp_all add: newWebSocketPeer_def shows_ticket_def)

text \<open>What holds of the task of connection \<open>c\<close> and the ticket of its peer, and of the whole relay.\<close>

definition task_fine :: "ticket_crypto \<Rightarrow> bytes list \<Rightarrow> nat \<Rightarrow> task \<Rightarrow> Ticket option \<Rightarrow> bool" where
  "task_fine cr issuers c t tko \<longleftrightarrow>
     (\<forall>x e. t = Checked x e \<longrightarrow> ticket_shape_ok x) \<and>
     (\<forall>tk. task_ticket t = Some tk \<longrightarrow> admits cr issuers tk) \<and>
     (\<forall>tk. tko = Some tk \<longrightarrow> admits cr issuers tk) \<and>
     (unjoined t \<longrightarrow> tko = None) \<and>
     (\<forall>h. task_route t = Some h \<longrightarrow>
        (\<exists>tk. task_ticket t = Some tk \<and> tko = Some tk \<and> rh_id h = tk_RouteID tk \<and> rh_owner h = newWebSocketPeer c tk))"

definition tickets_ok :: "ticket_crypto \<Rightarrow> bytes list \<Rightarrow> 'w relay \<Rightarrow> bool" where
  "tickets_ok cr issuers w \<longleftrightarrow> vf_issuers (rs_verifier (rl_server w)) = issuers \<and> router_inv (rl_router w) \<and>
     (\<forall>p \<in> peers (rl_router w). \<exists>tk. ticket_at w (pe_id p) = Some tk \<and> shows_ticket p tk) \<and>
     (\<forall>c. task_fine cr issuers c (rl_tasks w c) (ticket_at w c)) \<and>
     (\<forall>c d. exchanged w c d \<longrightarrow> (\<exists>tc td. ticket_at w c = Some tc \<and> ticket_at w d = Some td \<and> opposite tc td))"

subsection \<open>What a step changes\<close>

text \<open>A step is calm when it leaves the history of every connection alone and seats nobody.\<close>

definition hist :: "connection \<Rightarrow> bytes list \<times> (nat \<times> bytes) list \<times> Ticket option" where
  "hist conn = (co_read conn, co_frames conn, co_ticket conn)"

definition calm :: "'w relay \<Rightarrow> 'w relay \<Rightarrow> bool" where
  "calm w w' \<longleftrightarrow> hist \<circ> rl_conns w' = hist \<circ> rl_conns w \<and>
     vf_issuers (rs_verifier (rl_server w')) = vf_issuers (rs_verifier (rl_server w)) \<and>
     (router_inv (rl_router w) \<longrightarrow> router_inv (rl_router w') \<and> peers (rl_router w') \<subseteq> peers (rl_router w))"

lemma calm_trans: "calm w w' \<Longrightarrow> calm w' w'' \<Longrightarrow> calm w w''"
  by (auto simp: calm_def)

lemma hist_simps [simp]:
  "hist (conn\<lparr>co_open := b\<rparr>) = hist conn" "hist (send_code code conn) = hist conn" "hist (peer_close conn) = hist conn"
  by (simp_all add: hist_def send_code_def peer_close_def)

lemma hist_close_peers [simp]: "hist \<circ> close_peers ps conns = hist \<circ> conns"
proof (induction ps arbitrary: conns)
  case (Cons p ps)
  have "hist \<circ> close_peers (p # ps) conns = hist \<circ> conns(pe_id p := peer_close (conns (pe_id p)))"
    using Cons [of "conns(pe_id p := peer_close (conns (pe_id p)))"] by (simp only: close_peers_def fold_simps)
  then show ?case by (simp add: fun_eq_iff)
qed (simp add: close_peers_def)

lemma server_simps [simp]:
  "rs_router (release sv) = rs_router sv" "rs_verifier (release sv) = rs_verifier sv"
  "rs_router (log_event e sv) = rs_router sv" "rs_verifier (log_event e sv) = rs_verifier sv"
  by (simp_all add: release_def log_event_def)

lemma calm_leave: "calm w (leave p w)"
  using Leave_inv [of "rl_router w" p] Leave_peers [of "rl_router w" p]
  by (simp add: calm_def leave_def split_beta)

lemma calm_finish:
  "rs_router sv = rl_router w \<Longrightarrow> vf_issuers (rs_verifier sv) = vf_issuers (rs_verifier (rl_server w)) \<Longrightarrow> calm w (finish c sv w)"
  by (simp add: calm_def fun_eq_iff)

lemma calm_end_peer: "calm w (end_peer c tk w)"
  unfolding end_peer_def Let_def by (rule calm_trans [OF calm_leave calm_finish]) simp_all

lemma calm_log: "calm w w' \<Longrightarrow> calm w (w'\<lparr>rl_server := log_event e (rl_server w')\<rparr>)"
  by (simp add: calm_def)

lemma calm_reject:
  "rs_router sv = rl_router w \<Longrightarrow> vf_issuers (rs_verifier sv) = vf_issuers (rs_verifier (rl_server w)) \<Longrightarrow> calm w (reject c code sv w)"
  by (simp add: calm_def reject_def fun_eq_iff)

lemma calm_sweep: "calm w (sweep now w)"
  using router_step_effect(1,3) [of "rl_router w" "KSweep now"] by (simp add: calm_def sweep_def split_beta)

lemma calm_shutdown: "calm w (shutdown_begin w)" "calm w (shutdown_return w)"
  using router_step_effect(1,3) [of "rl_router w" KStop]
  by (auto simp: calm_def shutdown_begin_def shutdown_return_def Let_def split_beta)

lemma verify_check_shape:
  "verify_check (Some t) now replayNow v = (v', Inr (wire, e)) \<Longrightarrow> ticket_shape_ok wire \<and> vf_issuers v' = vf_issuers v"
  "verify_check (Some t) now replayNow v = (v', Inl err) \<Longrightarrow> vf_issuers v' = vf_issuers v"
  using verify_check_other [of "Some t" now replayNow v] verify_shape_Inr [of "Some t" now]
  by (auto simp: verify_check_def Let_def split: sum.splits prod.splits if_splits)

lemma verify_finish_admits:
  "verify_finish cr world wire e v = (v', Inr tk) \<Longrightarrow> ticket_shape_ok wire \<Longrightarrow>
     admits cr (vf_issuers v) tk \<and> vf_issuers v' = vf_issuers v"
  "verify_finish cr world wire e v = (v', Inl err) \<Longrightarrow> vf_issuers v' = vf_issuers v"
  using verifySignature_Inr [of cr v wire]
  by (auto simp: verify_finish_def admits_def forgetReplay_def Let_def split: sum.splits if_splits)

text \<open>
  Every step is one of six: it moves a task and touches no traffic; it seats a connection; it reads
  a frame that has no destination; it reads one that has; or it writes one.
\<close>

definition logs_read :: "nat \<Rightarrow> bytes \<Rightarrow> 'w relay \<Rightarrow> 'w relay \<Rightarrow> bool" where
  "logs_read c b w w' \<longleftrightarrow> calm (on_conn c (\<lambda>conn. conn\<lparr>co_read := co_read conn @ [b]\<rparr>) w) w'"

lemma Join_handle:
  assumes "Join (Some r) (Some tk) (Some (newWebSocketPeer c tk)) now = (r', res)" "router_inv r"
  shows "router_inv (the r')" "peers (the r') \<subseteq> insert (newWebSocketPeer c tk) (peers r)"
    "res = Inr (h, other) \<Longrightarrow> rh_id h = tk_RouteID tk \<and> rh_owner h = newWebSocketPeer c tk"
    "res = Inl e \<Longrightarrow> peers (the r') \<subseteq> peers r"
proof -
  let ?c = "KJoin tk (newWebSocketPeer c tk) now"
  have ok: "router_ok ?c" by (simp add: newWebSocketPeer_def)
  show "router_inv (the r')"
    using router_step_effect(1) [OF assms(2) ok] assms(1) by (auto split: sum.splits)
  show "peers (the r') \<subseteq> insert (newWebSocketPeer c tk) (peers r)"
    using router_step_effect(3) [OF assms(2) ok] assms(1) by (auto split: sum.splits)
  show "res = Inl e \<Longrightarrow> peers (the r') \<subseteq> peers r"
    using router_step_effect(3) [OF assms(2) ok] assms(1) by auto
  show "res = Inr (h, other) \<Longrightarrow> rh_id h = tk_RouteID tk \<and> rh_owner h = newWebSocketPeer c tk"
    using assms(1) by (auto simp: Join_def Let_def split: if_splits option.splits)
qed

inductive traffic :: "ticket_crypto \<Rightarrow> bytes list \<Rightarrow> 'w relay \<Rightarrow> 'w relay \<Rightarrow> bool" for cr issuers where
  quiet: "rl_tasks w' = (rl_tasks w)(c := t) \<Longrightarrow> calm w w' \<Longrightarrow> task_route t = None \<or> t = rl_tasks w c \<Longrightarrow>
     (\<And>tk. task_ticket t = Some tk \<Longrightarrow> t = rl_tasks w c \<or> admits cr issuers tk) \<Longrightarrow>
     (\<And>x e. t = Checked x e \<Longrightarrow> t = rl_tasks w c \<or> ticket_shape_ok x) \<Longrightarrow>
     (unjoined t \<Longrightarrow> unjoined (rl_tasks w c)) \<Longrightarrow> traffic cr issuers w w'"
| seat: "rl_tasks w c = Verified tk \<Longrightarrow> rl_tasks w' = (rl_tasks w)(c := t) \<Longrightarrow>
     calm (on_conn c (\<lambda>conn. conn\<lparr>co_ticket := Some tk\<rparr>) w\<lparr>rl_server := (rl_server w)\<lparr>rs_router := r\<rparr>\<rparr>) w' \<Longrightarrow>
     router_inv r \<Longrightarrow> peers r \<subseteq> insert (newWebSocketPeer c tk) (peers (rl_router w)) \<Longrightarrow>
     t = Gone \<or> (\<exists>h. t = Pumping tk h \<and> rh_id h = tk_RouteID tk \<and> rh_owner h = newWebSocketPeer c tk) \<Longrightarrow>
     traffic cr issuers w w'"
| lost: "rl_tasks w c = Pumping tk h \<Longrightarrow> rl_tasks w' = (rl_tasks w)(c := t) \<Longrightarrow> logs_read c b w w' \<Longrightarrow>
     t = Gone \<or> t = Pumping tk h \<and> snd (forward_lookup h now (rl_router w)) = Inl ErrPeerMissing \<Longrightarrow>
     traffic cr issuers w w'"
| take_up: "rl_tasks w c = Pumping tk h \<Longrightarrow> rl_tasks w' = (rl_tasks w)(c := Sending tk h dest b) \<Longrightarrow>
     logs_read c b w w' \<Longrightarrow> snd (forward_lookup h now (rl_router w)) = Inr dest \<Longrightarrow> traffic cr issuers w w'"
| deliver: "rl_tasks w c = Sending tk h dest b \<Longrightarrow> rl_tasks w' = (rl_tasks w)(c := Pumping tk h) \<Longrightarrow>
     calm (on_conn (pe_id dest) (\<lambda>conn. conn\<lparr>co_frames := co_frames conn @ [(c, b)]\<rparr>) w) w' \<Longrightarrow>
     traffic cr issuers w w'"

lemma still: "rl_tasks w' = rl_tasks w \<Longrightarrow> calm w w' \<Longrightarrow> traffic cr issuers w w'"
  by (rule quiet [of _ _ 0 "rl_tasks w 0"]) simp_all

lemma ended: "rl_tasks w' = (rl_tasks w)(c := Gone) \<Longrightarrow> calm w w' \<Longrightarrow> traffic cr issuers w w'"
  by (rule quiet [of _ _ c Gone]) simp_all

lemma check_traffic: "rl_tasks w c = HasTicket t \<Longrightarrow> traffic cr issuers w (handle_check c t now replayNow w)"
proof -
  assume c: "rl_tasks w c = HasTicket t"
  obtain v res where v: "verify_check (Some t) now replayNow (rs_verifier (rl_server w)) = (v, res)" by fastforce
  show ?thesis
  proof (cases res)
    case (Inl err)
    then show ?thesis using v verify_check_shape(2) [OF v [unfolded Inl]]
      by (intro ended [of _ _ c]) (auto simp: handle_check_def Let_def intro: calm_reject)
  next
    case (Inr p)
    then show ?thesis using c v verify_check_shape(1) [of t now replayNow _ v "fst p" "snd p"]
      by (intro quiet [of _ _ c "Checked (fst p) (snd p)"]) (auto simp: handle_check_def Let_def calm_def split_beta)
  qed
qed

lemma verify_traffic:
  assumes "rl_tasks w c = Checked t e" "tickets_ok cr issuers w"
  shows "traffic cr issuers w (handle_verify cr world c t e w)"
proof -
  obtain v res where v: "verify_finish cr world t e (rs_verifier (rl_server w)) = (v, res)" by fastforce
  have shape: "ticket_shape_ok t" and iss: "vf_issuers (rs_verifier (rl_server w)) = issuers"
    using assms unfolding tickets_ok_def task_fine_def by blast+
  show ?thesis
  proof (cases res)
    case (Inl err)
    then show ?thesis using v verify_finish_admits(2) [OF v [unfolded Inl]]
      by (intro ended [of _ _ c]) (auto simp: handle_verify_def Let_def intro: calm_reject)
  next
    case (Inr tk)
    then show ?thesis using assms v verify_finish_admits(1) [OF v [unfolded Inr] shape] iss
      by (intro quiet [of _ _ c "Verified tk"]) (auto simp: handle_verify_def Let_def calm_def)
  qed
qed

lemma join_traffic:
  assumes "rl_tasks w c = Verified tk" "tickets_ok cr issuers w"
  shows "traffic cr issuers w (handle_join c tk now w)"
proof -
  have inv: "router_inv (rl_router w)" using assms(2) by (simp add: tickets_ok_def)
  obtain r res where j: "Join (Some (rl_router w)) (Some tk) (Some (newWebSocketPeer c tk)) now = (r, res)" by fastforce
  note jh = Join_handle [OF j inv]
  have "rl_tasks (handle_join c tk now w) = (rl_tasks w)(c := (case res of Inl _ \<Rightarrow> Gone | Inr (h, _) \<Rightarrow> Pumping tk h))"
    using j by (auto simp: handle_join_def Let_def split: sum.splits)
  then show ?thesis
    by (rule seat [OF assms(1) _ _ jh(1,2)])
       (use j jh(3) in \<open>auto simp: handle_join_def calm_def reject_def fun_eq_iff hist_def send_code_def Let_def
          split: sum.splits prod.splits\<close>)
qed

lemma frame_traffic:
  assumes "rl_tasks w c = Pumping tk route" "tickets_ok cr issuers w"
  shows "traffic cr issuers w (pump_read c tk route now (ReadFrame BinaryMessage b) w)" (is "traffic _ _ _ ?w'")
proof -
  let ?w1 = "on_conn c (\<lambda>conn. conn\<lparr>co_read := co_read conn @ [b]\<rparr>) w"
  have "router_inv (rl_router w)" using assms(2) by (simp add: tickets_ok_def)
  then show ?thesis
  proof (cases rule: forward_lookup_cases [of "rl_router w" route now])
    case (failed e)
    let ?sv = "if e = ErrPeerClosed then rl_server w else log_event ListenerError (rl_server w)"
    have "calm ?w1 (?w1\<lparr>rl_server := ?sv\<rparr>)" by (simp add: calm_def)
    then have "calm ?w1 (end_peer c tk (?w1\<lparr>rl_server := ?sv\<rparr>))" by (rule calm_trans [OF _ calm_end_peer])
    then have "logs_read c b w ?w'" using failed by (auto simp: logs_read_def pump_read_def calm_def Let_def)
    then show ?thesis
      using assms(1) failed
      by (intro lost [of w c tk route _ "if e = ErrPeerMissing then rl_tasks w c else Gone" b now])
         (auto simp: pump_read_def Let_def)
  next
    case (found r' rt dest)
    then show ?thesis
      using assms(1) by (intro take_up [of w c tk route _ dest b now])
        (auto simp: logs_read_def pump_read_def calm_def Let_def)
  qed
qed

lemma read_traffic:
  assumes "rl_tasks w c = Pumping tk route" "tickets_ok cr issuers w"
  shows "traffic cr issuers w (pump_read c tk route now frame w)"
proof (cases frame)
  case (ReadFailed e)
  let ?sv = "if e then rl_server w else log_event ListenerError (rl_server w)"
  have "calm w (w\<lparr>rl_server := ?sv\<rparr>)" by (simp add: calm_def)
  then have "calm w (end_peer c tk (w\<lparr>rl_server := ?sv\<rparr>))" by (rule calm_trans [OF _ calm_end_peer])
  then show ?thesis using ReadFailed by (intro ended [of _ _ c]) (auto simp: pump_read_def Let_def)
next
  case (ReadFrame ty b)
  show ?thesis
  proof (cases "ty = BinaryMessage")
    case False
    then show ?thesis using ReadFrame by (intro still) (auto simp: pump_read_def calm_def Let_def)
  qed (use frame_traffic [OF assms] ReadFrame in simp)
qed

lemma send_traffic:
  assumes "rl_tasks w c = Sending tk route dest b"
  shows "traffic cr issuers w (pump_send c tk route dest b written_ok w)"
proof -
  obtain conn ok where f: "peer_forward c written_ok b (rl_conns w (pe_id dest)) = (conn, ok)" by fastforce
  let ?w1 = "on_conn (pe_id dest) (\<lambda>_. conn) w"
  show ?thesis
  proof (cases ok)
    case True
    then have "conn = (rl_conns w (pe_id dest))\<lparr>co_frames := co_frames (rl_conns w (pe_id dest)) @ [(c, b)]\<rparr>"
      using f by (auto simp: peer_forward_def split: if_splits)
    then show ?thesis
      using assms f True by (intro deliver [of w c tk route dest b]) (auto simp: pump_send_def calm_def Let_def)
  next
    case False
    then have "hist conn = hist (rl_conns w (pe_id dest))"
      using f by (auto simp: peer_forward_def hist_def split: if_splits)
    then have "calm w ?w1" by (auto simp: calm_def fun_eq_iff)
    then have "calm w (end_peer c tk (leave dest ?w1))" by (meson calm_trans calm_leave calm_end_peer)
    then show ?thesis using f False by (intro ended [of _ _ c]) (auto simp: pump_send_def Let_def)
  qed
qed

lemma serve_step_traffic:
  assumes "serve_step lb w w'" "tickets_ok (lb_crypto lb) issuers w"
  shows "traffic (lb_crypto lb) issuers w w'"
  using assms(1)
proof cases
  case (check c sv go_on rq)
  then show ?thesis by (intro quiet [of _ _ c]) (auto simp: accept_check_def calm_def split: if_splits)
next
  case (add c rq)
  then show ?thesis by (intro quiet [of _ _ c]) (auto simp: accept_add_def calm_def)
next
  case (capacity c rq sv a)
  then show ?thesis by (intro quiet [of _ _ c]) (auto simp: admit_def Let_def calm_def split: if_splits)
next
  case (roll_back c)
  then show ?thesis by (intro quiet [of _ _ c Refused]) (auto simp: capacity_reject_def calm_def)
next
  case (upgrade c rq pre post)
  then show ?thesis
    by (intro quiet [of _ _ c "rl_tasks w' c"]) (auto simp: upgrade_failed_def calm_def split: go.splits bool.splits)
next
  case (ticket c frame)
  then show ?thesis
    by (cases "readTicket (lb_unmarshal lb) frame"; intro quiet [of _ _ c "rl_tasks w' c"])
       (auto simp: handle_ticket_def calm_reject, auto simp: calm_def)
next
  case drain
  then show ?thesis by (intro still) (auto simp: calm_def)
qed (use assms(2) check_traffic verify_traffic join_traffic read_traffic send_traffic
       in \<open>auto intro: still simp: calm_sweep calm_shutdown\<close>)

subsection \<open>Tickets\<close>

lemma calmD:
  assumes "calm w w'"
  shows "co_read (rl_conns w' d) = co_read (rl_conns w d)" "co_frames (rl_conns w' d) = co_frames (rl_conns w d)"
    "ticket_at w' d = ticket_at w d" "sent c (rl_conns w' d) = sent c (rl_conns w d)"
    "vf_issuers (rs_verifier (rl_server w')) = vf_issuers (rs_verifier (rl_server w))"
    "router_inv (rl_router w) \<Longrightarrow> router_inv (rl_router w')"
    "router_inv (rl_router w) \<Longrightarrow> peers (rl_router w') \<subseteq> peers (rl_router w)"
proof -
  have "hist (rl_conns w' d) = hist (rl_conns w d)" using assms by (auto simp: calm_def fun_eq_iff)
  then show "co_read (rl_conns w' d) = co_read (rl_conns w d)" "co_frames (rl_conns w' d) = co_frames (rl_conns w d)"
    "ticket_at w' d = ticket_at w d" "sent c (rl_conns w' d) = sent c (rl_conns w d)"
    by (auto simp: hist_def sent_def)
qed (use assms in \<open>auto simp: calm_def\<close>)

lemma sent_simps [simp]:
  "sent c (conn\<lparr>co_read := x\<rparr>) = sent c conn" "sent c (conn\<lparr>co_ticket := y\<rparr>) = sent c conn"
  "sent c (conn\<lparr>co_frames := co_frames conn @ [(s, b)]\<rparr>) = sent c conn @ (if s = c then [b] else [])"
  by (simp_all add: sent_def)

lemma tickets_okD:
  assumes "tickets_ok cr issuers w"
  shows "vf_issuers (rs_verifier (rl_server w)) = issuers" "router_inv (rl_router w)"
    "p \<in> peers (rl_router w) \<Longrightarrow> \<exists>tk. ticket_at w (pe_id p) = Some tk \<and> shows_ticket p tk"
    "task_fine cr issuers c (rl_tasks w c) (ticket_at w c)"
    "exchanged w c d \<Longrightarrow> \<exists>tc td. ticket_at w c = Some tc \<and> ticket_at w d = Some td \<and> opposite tc td"
  using assms by (auto simp: tickets_ok_def)

lemma task_fine_route:
  assumes "tickets_ok cr issuers w" "rl_tasks w c = Pumping tk h \<or> rl_tasks w c = Sending tk h dest b"
  shows "ticket_at w c = Some tk" "rh_id h = tk_RouteID tk" "rh_owner h = newWebSocketPeer c tk"
  using tickets_okD(4) [OF assms(1), of c] assms(2) by (auto simp: task_fine_def)

text \<open>The peer at the other end of a task's route, with the ticket it was seated with.\<close>

lemma lookup_opposite:
  assumes "tickets_ok cr issuers w" "rl_tasks w c = Pumping tk h" "snd (forward_lookup h now (rl_router w)) = Inr dest"
  shows "dest \<in> peers (rl_router w)" "\<exists>td. ticket_at w (pe_id dest) = Some td \<and> opposite tk td"
proof -
  note inv = tickets_okD(2) [OF assms(1)]
  obtain rt where rt: "map_of (rr_routes (rl_router w)) (rh_id h) = Some rt" "otherOf rt (Some (rh_owner h)) = Some dest"
    using inv assms(3) by (cases rule: forward_lookup_cases [of "rl_router w" h now]) auto
  have ok: "route_ok (rh_id h) rt" using inv rt(1) by (simp add: router_inv_def)
  note o = otherOf_ok [OF ok rt(2)]
  show seat: "dest \<in> peers (rl_router w)" using o(3) rt(1) by (auto simp: peers_iff)
  have "rh_id h = tk_RouteID tk" "rh_owner h = newWebSocketPeer c tk"
    using task_fine_route [OF assms(1)] assms(2) by blast+
  with tickets_okD(3) [OF assms(1) seat] show "\<exists>td. ticket_at w (pe_id dest) = Some td \<and> opposite tk td"
    using o(1,2) by (auto simp: opposite_def shows_ticket_def)
qed

text \<open>A seated counterpart is the one a lookup finds.\<close>

lemma lookup_finds:
  assumes "tickets_ok cr issuers w" "rl_tasks w c = Pumping tk h" "seated w d" "ticket_at w d = Some td" "opposite tk td"
  shows "\<exists>dest. snd (forward_lookup h now (rl_router w)) = Inr dest \<and> pe_id dest = d"
proof -
  obtain p where p: "p \<in> peers (rl_router w)" "pe_id p = d" using assms(3) by (auto simp: seated_def)
  then have pd: "shows_ticket p td" using tickets_okD(3) [OF assms(1) p(1)] assms(4) by auto
  obtain k rt where rt: "map_of (rr_routes (rl_router w)) k = Some rt" "p \<in> route_peers rt"
    using p(1) by (auto simp: peers_iff)
  then have ok: "route_ok k rt" using tickets_okD(2) [OF assms(1)] by (simp add: router_inv_def)
  have h: "rh_id h = tk_RouteID tk" "rh_owner h = newWebSocketPeer c tk"
    using task_fine_route [OF assms(1)] assms(2) by blast+
  have k: "k = tk_RouteID td" and e: "pe_Endpoint p = tk_Endpoint td"
    using ok rt(2) pd by (auto simp: route_ok_def route_peers_def shows_ticket_def)
  have "ro_agent rt = Some p \<and> pe_Endpoint p = RELAY_ENDPOINT_AGENT \<or> ro_client rt = Some p \<and> pe_Endpoint p = RELAY_ENDPOINT_CLIENT"
    using ok rt(2) by (auto simp: route_ok_def route_peers_def)
  then have "otherOf rt (Some (newWebSocketPeer c tk)) = Some p"
    using e assms(5) by (auto simp: otherOf_def opposite_def)
  then show ?thesis
    using rt(1) h k assms(5) p(2) by (simp add: forward_lookup_def opposite_def)
qed

lemma tickets_upd:
  assumes "tickets_ok cr issuers w" "rl_tasks w' = (rl_tasks w)(c := t)"
    and "\<And>x. ticket_at w' x = (if x = c then tko else ticket_at w x)" "task_fine cr issuers c t tko"
    and "ticket_at w c = None \<or> tko = ticket_at w c"
    and "vf_issuers (rs_verifier (rl_server w')) = issuers" "router_inv (rl_router w')"
    and "\<And>p. p \<in> peers (rl_router w') \<Longrightarrow> p \<in> peers (rl_router w) \<or> pe_id p = c \<and> (\<exists>tk. tko = Some tk \<and> shows_ticket p tk)"
    and "\<And>x d. exchanged w' x d \<Longrightarrow> exchanged w x d \<or>
      (\<exists>tx td. ticket_at w' x = Some tx \<and> ticket_at w' d = Some td \<and> opposite tx td)"
  shows "tickets_ok cr issuers w'"
proof -
  have keep: "ticket_at w x = Some tk \<Longrightarrow> ticket_at w' x = Some tk" for x tk
    using assms(3,5) by auto
  have "\<exists>tk. ticket_at w' (pe_id p) = Some tk \<and> shows_ticket p tk" if "p \<in> peers (rl_router w')" for p
    using assms(8) [OF that] tickets_okD(3) [OF assms(1), of p] keep assms(3) by metis
  moreover have "task_fine cr issuers x (rl_tasks w' x) (ticket_at w' x)" for x
    using tickets_okD(4) [OF assms(1), of x] assms(2-4) by simp
  moreover have "\<exists>tx td. ticket_at w' x = Some tx \<and> ticket_at w' d = Some td \<and> opposite tx td" if "exchanged w' x d" for x d
    using assms(9) [OF that] tickets_okD(5) [OF assms(1), of x d] keep by metis
  ultimately show ?thesis using assms(6,7) by (simp add: tickets_ok_def)
qed

lemma exchanged_calm:
  assumes "calm w w'" "exchanged w' x d"
    "\<And>tk h dest b. rl_tasks w' x = Sending tk h dest b \<Longrightarrow> rl_tasks w x = Sending tk h dest b"
  shows "exchanged w x d"
  using assms calmD(4) [OF assms(1)] unfolding exchanged_def by metis

lemma tickets_quiet:
  assumes "tickets_ok cr issuers w" "rl_tasks w' = (rl_tasks w)(c := t)" "calm w w'"
    "task_route t = None \<or> t = rl_tasks w c"
    "\<And>tk. task_ticket t = Some tk \<Longrightarrow> t = rl_tasks w c \<or> admits cr issuers tk"
    "\<And>x e. t = Checked x e \<Longrightarrow> t = rl_tasks w c \<or> ticket_shape_ok x" "unjoined t \<Longrightarrow> unjoined (rl_tasks w c)"
  shows "tickets_ok cr issuers w'"
proof (rule tickets_upd [OF assms(1,2)])
  note calm = calmD [OF assms(3)] and ok = tickets_okD [OF assms(1)]
  show "ticket_at w' x = (if x = c then ticket_at w c else ticket_at w x)" for x using calm(3) by simp
  show "task_fine cr issuers c t (ticket_at w c)"
    using ok(4) [of c] assms(4-7) unfolding task_fine_def by (metis option.distinct(1))
  show "vf_issuers (rs_verifier (rl_server w')) = issuers" using calm(5) ok(1) by simp
  show "router_inv (rl_router w')" using calm(6) ok(2) by simp
  show "p \<in> peers (rl_router w') \<Longrightarrow> p \<in> peers (rl_router w) \<or> pe_id p = c \<and> (\<exists>tk. ticket_at w c = Some tk \<and> shows_ticket p tk)" for p
    using calm(7) ok(2) by blast
  have "rl_tasks w' x = Sending tk h dest b \<Longrightarrow> rl_tasks w x = Sending tk h dest b" for x tk h dest b
    using assms(2,4) by (cases "x = c") auto
  then show "exchanged w' x d \<Longrightarrow> exchanged w x d \<or>
      (\<exists>tx td. ticket_at w' x = Some tx \<and> ticket_at w' d = Some td \<and> opposite tx td)" for x d
    using exchanged_calm [OF assms(3)] by blast
qed simp

lemma tickets_seat:
  assumes "tickets_ok cr issuers w" "rl_tasks w c = Verified tk" "rl_tasks w' = (rl_tasks w)(c := t)"
    "calm (on_conn c (\<lambda>conn. conn\<lparr>co_ticket := Some tk\<rparr>) w\<lparr>rl_server := (rl_server w)\<lparr>rs_router := r\<rparr>\<rparr>) w'"
    "router_inv r" "peers r \<subseteq> insert (newWebSocketPeer c tk) (peers (rl_router w))"
    "t = Gone \<or> (\<exists>h. t = Pumping tk h \<and> rh_id h = tk_RouteID tk \<and> rh_owner h = newWebSocketPeer c tk)"
  shows "tickets_ok cr issuers w'"
proof (rule tickets_upd [OF assms(1,3), of "Some tk"])
  note calm = calmD [OF assms(4)] and ok = tickets_okD [OF assms(1)]
  have "admits cr issuers tk" using ok(4) [of c] assms(2) by (simp add: task_fine_def)
  then show "task_fine cr issuers c t (Some tk)" using assms(7) by (auto simp: task_fine_def)
  show "ticket_at w c = None \<or> Some tk = ticket_at w c" using ok(4) [of c] assms(2) by (simp add: task_fine_def)
  show "ticket_at w' x = (if x = c then Some tk else ticket_at w x)" for x using calm(3) [of x] by simp
  show "vf_issuers (rs_verifier (rl_server w')) = issuers" using calm(5) ok(1) by simp
  show "router_inv (rl_router w')" using calm(6) assms(5) by simp
  show "p \<in> peers (rl_router w') \<Longrightarrow> p \<in> peers (rl_router w) \<or> pe_id p = c \<and> (\<exists>tk'. Some tk = Some tk' \<and> shows_ticket p tk')" for p
    using calm(7) assms(5,6) by auto
  have "rl_tasks w' x = Sending tk' h dest b \<Longrightarrow> rl_tasks w x = Sending tk' h dest b" for x tk' h dest b
    using assms(3,7) by (cases "x = c") auto
  moreover have "sent x (rl_conns w' d) = sent x (rl_conns w d)" for x d using calm(4) [of x d] by simp
  ultimately show "exchanged w' x d \<Longrightarrow> exchanged w x d \<or>
      (\<exists>tx td. ticket_at w' x = Some tx \<and> ticket_at w' d = Some td \<and> opposite tx td)" for x d
    unfolding exchanged_def by metis
qed

lemma logs_readD:
  assumes "logs_read c b w w'"
  shows "co_read (rl_conns w' x) = (if x = c then co_read (rl_conns w c) @ [b] else co_read (rl_conns w x))"
    "ticket_at w' x = ticket_at w x" "sent y (rl_conns w' x) = sent y (rl_conns w x)"
    "vf_issuers (rs_verifier (rl_server w')) = vf_issuers (rs_verifier (rl_server w))"
    "router_inv (rl_router w) \<Longrightarrow> router_inv (rl_router w')"
    "router_inv (rl_router w) \<Longrightarrow> peers (rl_router w') \<subseteq> peers (rl_router w)"
  using calmD [OF assms [unfolded logs_read_def]] by simp_all

lemma tickets_read:
  assumes "tickets_ok cr issuers w" "rl_tasks w c = Pumping tk h" "rl_tasks w' = (rl_tasks w)(c := t)" "logs_read c b w w'"
    "t = Gone \<or> t = Pumping tk h \<or>
     (\<exists>dest. t = Sending tk h dest b \<and> snd (forward_lookup h now (rl_router w)) = Inr dest)"
  shows "tickets_ok cr issuers w'"
proof (rule tickets_upd [OF assms(1,3), of "ticket_at w c"])
  note lr = logs_readD [OF assms(4)] and ok = tickets_okD [OF assms(1)]
  show "task_fine cr issuers c t (ticket_at w c)"
    using ok(4) [of c] assms(2,5) by (auto simp: task_fine_def)
  show "ticket_at w' x = (if x = c then ticket_at w c else ticket_at w x)" for x using lr(2) by simp
  show "vf_issuers (rs_verifier (rl_server w')) = issuers" using lr(4) ok(1) by simp
  show "router_inv (rl_router w')" using lr(5) ok(2) by simp
  show "p \<in> peers (rl_router w') \<Longrightarrow> p \<in> peers (rl_router w) \<or> pe_id p = c \<and> (\<exists>tk'. ticket_at w c = Some tk' \<and> shows_ticket p tk')" for p
    using lr(6) ok(2) by blast
  fix x d assume e: "exchanged w' x d"
  show "exchanged w x d \<or> (\<exists>tx td. ticket_at w' x = Some tx \<and> ticket_at w' d = Some td \<and> opposite tx td)"
  proof (cases "x = c \<and> sent c (rl_conns w d) = []")
    case True
    then obtain dest where "t = Sending tk h dest b" "pe_id dest = d" "snd (forward_lookup h now (rl_router w)) = Inr dest"
      using e assms(3,5) lr(3) by (auto simp: exchanged_def)
    then show ?thesis
      using lookup_opposite(2) [OF assms(1,2)] task_fine_route(1) [OF assms(1)] assms(2) True lr(2) by metis
  next
    case False
    then show ?thesis using e assms(3) lr(3) unfolding exchanged_def by (metis fun_upd_apply)
  qed
qed simp

lemma tickets_deliver:
  assumes "tickets_ok cr issuers w" "rl_tasks w c = Sending tk h dest b" "rl_tasks w' = (rl_tasks w)(c := Pumping tk h)"
    "calm (on_conn (pe_id dest) (\<lambda>conn. conn\<lparr>co_frames := co_frames conn @ [(c, b)]\<rparr>) w) w'"
  shows "tickets_ok cr issuers w'"
proof (rule tickets_upd [OF assms(1,3), of "ticket_at w c"])
  note calm = calmD [OF assms(4)] and ok = tickets_okD [OF assms(1)]
  show "task_fine cr issuers c (Pumping tk h) (ticket_at w c)"
    using ok(4) [of c] assms(2) by (auto simp: task_fine_def)
  show "ticket_at w' x = (if x = c then ticket_at w c else ticket_at w x)" for x using calm(3) [of x] by simp
  show "vf_issuers (rs_verifier (rl_server w')) = issuers" using calm(5) ok(1) by simp
  show "router_inv (rl_router w')" using calm(6) ok(2) by simp
  show "p \<in> peers (rl_router w') \<Longrightarrow> p \<in> peers (rl_router w) \<or> pe_id p = c \<and> (\<exists>tk'. ticket_at w c = Some tk' \<and> shows_ticket p tk')" for p
    using calm(7) ok(2) by auto
  have "exchanged w c (pe_id dest)" using assms(2) by (auto simp: exchanged_def)
  then show "exchanged w' x d \<Longrightarrow> exchanged w x d \<or>
      (\<exists>tx td. ticket_at w' x = Some tx \<and> ticket_at w' d = Some td \<and> opposite tx td)" for x d
    using calm(4) [of x d] assms(3) unfolding exchanged_def by (auto split: if_splits)
qed simp

lemma tickets_step: "traffic cr issuers w w' \<Longrightarrow> tickets_ok cr issuers w \<Longrightarrow> tickets_ok cr issuers w'"
proof (induction rule: traffic.induct)
  case (quiet w' w c t)
  then show ?case using tickets_quiet [of cr issuers w w' c t] by blast
next
  case (seat w c tk w' t r)
  then show ?case using tickets_seat [of cr issuers w c tk w' t r] by blast
next
  case (lost w c tk h w' t b now)
  then show ?case using tickets_read [of cr issuers w c tk h w' t b] by blast
next
  case (take_up w c tk h w' dest b now)
  then show ?case using tickets_read [of cr issuers w c tk h w'] by blast
next
  case (deliver w c tk h dest b w')
  then show ?case using tickets_deliver by blast
qed

subsection \<open>Streams\<close>

text \<open>
  What a goroutine wrote to a connection is a stretch of what it read. It is the latest stretch as
  long as the pump runs and the connection is seated, because then every lookup finds it.
\<close>

lemma sublist_grow: "sublist xs ys \<Longrightarrow> sublist xs (ys @ zs)"
  by (metis append.assoc sublist_def)

definition streams_ok :: "'w relay \<Rightarrow> bool" where
  "streams_ok w \<longleftrightarrow> (\<forall>c d.
     sublist (sent c (rl_conns w d)) (co_read (rl_conns w c)) \<and>
     (\<forall>tk h. rl_tasks w c = Pumping tk h \<longrightarrow> seated w d \<longrightarrow> sent c (rl_conns w d) \<noteq> [] \<longrightarrow>
        suffix (sent c (rl_conns w d)) (co_read (rl_conns w c))) \<and>
     (\<forall>tk h dest b. rl_tasks w c = Sending tk h dest b \<longrightarrow>
        (if pe_id dest = d then suffix (sent c (rl_conns w d) @ [b]) (co_read (rl_conns w c))
         else seated w d \<longrightarrow> sent c (rl_conns w d) = [])))"

lemma streams_okD:
  assumes "streams_ok w"
  shows "sublist (sent c (rl_conns w d)) (co_read (rl_conns w c))"
    "rl_tasks w c = Pumping tk h \<Longrightarrow> seated w d \<Longrightarrow> sent c (rl_conns w d) \<noteq> [] \<Longrightarrow>
       suffix (sent c (rl_conns w d)) (co_read (rl_conns w c))"
    "rl_tasks w c = Sending tk h dest b \<Longrightarrow> suffix (sent c (rl_conns w (pe_id dest)) @ [b]) (co_read (rl_conns w c))"
    "rl_tasks w c = Sending tk h dest b \<Longrightarrow> d \<noteq> pe_id dest \<Longrightarrow> seated w d \<Longrightarrow> sent c (rl_conns w d) = []"
  using assms unfolding streams_ok_def by metis+

lemma streams_upd:
  assumes "streams_ok w" "rl_tasks w' = (rl_tasks w)(c := t)"
    and "\<And>x d. x \<noteq> c \<Longrightarrow> co_read (rl_conns w' x) = co_read (rl_conns w x) \<and> sent x (rl_conns w' d) = sent x (rl_conns w d)"
    and "\<And>x d. x \<noteq> c \<Longrightarrow> seated w' d \<Longrightarrow> seated w d \<or> sent x (rl_conns w d) = []"
    and "\<And>d. sublist (sent c (rl_conns w' d)) (co_read (rl_conns w' c))"
    and "\<And>d tk h. t = Pumping tk h \<Longrightarrow> seated w' d \<Longrightarrow> sent c (rl_conns w' d) \<noteq> [] \<Longrightarrow>
      suffix (sent c (rl_conns w' d)) (co_read (rl_conns w' c))"
    and "\<And>tk h dest b. t = Sending tk h dest b \<Longrightarrow> suffix (sent c (rl_conns w' (pe_id dest)) @ [b]) (co_read (rl_conns w' c))"
    and "\<And>d tk h dest b. t = Sending tk h dest b \<Longrightarrow> d \<noteq> pe_id dest \<Longrightarrow> seated w' d \<Longrightarrow> sent c (rl_conns w' d) = []"
  shows "streams_ok w'"
  unfolding streams_ok_def
proof (intro allI)
  fix x d
  note ok = streams_okD [OF assms(1)]
  show "sublist (sent x (rl_conns w' d)) (co_read (rl_conns w' x)) \<and>
     (\<forall>tk h. rl_tasks w' x = Pumping tk h \<longrightarrow> seated w' d \<longrightarrow> sent x (rl_conns w' d) \<noteq> [] \<longrightarrow>
        suffix (sent x (rl_conns w' d)) (co_read (rl_conns w' x))) \<and>
     (\<forall>tk h dest b. rl_tasks w' x = Sending tk h dest b \<longrightarrow>
        (if pe_id dest = d then suffix (sent x (rl_conns w' d) @ [b]) (co_read (rl_conns w' x))
         else seated w' d \<longrightarrow> sent x (rl_conns w' d) = []))"
  proof (cases "x = c")
    case True
    then show ?thesis using assms(2,5-8) by auto
  next
    case False
    then show ?thesis using assms(2) assms(3) [OF False, of d] assms(4) [OF False, of d] ok(1) [of x d] ok(2) [of x _ _ d]
        ok(3) [of x] ok(4) [of x _ _ _ _ d] by auto
  qed
qed

lemma seated_mono: "peers (rl_router w') \<subseteq> peers (rl_router w) \<Longrightarrow> seated w' d \<Longrightarrow> seated w d"
  by (auto simp: seated_def)

text \<open>While the pump runs, what it wrote to a seated connection went to the destination it looks up.\<close>

lemma lookup_sent:
  assumes "tickets_ok cr issuers w" "rl_tasks w c = Pumping tk h" "seated w d" "sent c (rl_conns w d) \<noteq> []"
  shows "\<exists>dest. snd (forward_lookup h now (rl_router w)) = Inr dest \<and> pe_id dest = d"
proof -
  have "exchanged w c d" using assms(4) by (simp add: exchanged_def)
  then show ?thesis
    using tickets_okD(5) [OF assms(1)] task_fine_route(1) [OF assms(1)] assms(2) lookup_finds [OF assms(1-3)] by force
qed

lemma streams_quiet:
  assumes "streams_ok w" "tickets_ok cr issuers w" "rl_tasks w' = (rl_tasks w)(c := t)" "calm w w'"
    "task_route t = None \<or> t = rl_tasks w c"
  shows "streams_ok w'"
proof (rule streams_upd [OF assms(1,3)])
  note calm = calmD [OF assms(4)] and ok = streams_okD [OF assms(1)]
  have seat: "seated w' d \<Longrightarrow> seated w d" for d
    using seated_mono [OF calm(7)] tickets_okD(2) [OF assms(2)] by blast
  then show "seated w' d \<Longrightarrow> seated w d \<or> sent x (rl_conns w d) = []" for x d by simp
  show "sublist (sent c (rl_conns w' d)) (co_read (rl_conns w' c))" for d using ok(1) calm(1,4) by simp
  show "t = Pumping tk h \<Longrightarrow> seated w' d \<Longrightarrow> sent c (rl_conns w' d) \<noteq> [] \<Longrightarrow>
      suffix (sent c (rl_conns w' d)) (co_read (rl_conns w' c))" for d tk h
    using ok(2) [of c tk h d] calm(1,4) seat assms(5) by auto
  show "t = Sending tk h dest b \<Longrightarrow> suffix (sent c (rl_conns w' (pe_id dest)) @ [b]) (co_read (rl_conns w' c))" for tk h dest b
    using ok(3) [of c tk h dest b] calm(1,4) assms(5) by auto
  show "t = Sending tk h dest b \<Longrightarrow> d \<noteq> pe_id dest \<Longrightarrow> seated w' d \<Longrightarrow> sent c (rl_conns w' d) = []" for tk h dest b d
    using ok(4) [of c tk h dest b d] calm(4) seat assms(5) by auto
qed (use calmD(1,4) [OF assms(4)] in simp)

lemma streams_seat:
  assumes "streams_ok w" "tickets_ok cr issuers w" "rl_tasks w c = Verified tk" "rl_tasks w' = (rl_tasks w)(c := t)"
    "calm (on_conn c (\<lambda>conn. conn\<lparr>co_ticket := Some tk\<rparr>) w\<lparr>rl_server := (rl_server w)\<lparr>rs_router := r\<rparr>\<rparr>) w'"
    "router_inv r" "peers r \<subseteq> insert (newWebSocketPeer c tk) (peers (rl_router w))" "t = Gone \<or> (\<exists>h. t = Pumping tk h)"
  shows "streams_ok w'"
proof (rule streams_upd [OF assms(1,4)])
  note calm = calmD [OF assms(5)]
  have none: "ticket_at w c = None" using tickets_okD(4) [OF assms(2), of c] assms(3) by (simp add: task_fine_def)
  then have empty: "sent x (rl_conns w c) = []" "sent c (rl_conns w x) = []" for x
    using tickets_okD(5) [OF assms(2), of x c] tickets_okD(5) [OF assms(2), of c x] by (auto simp: exchanged_def)
  have same: "sent x (rl_conns w' d) = sent x (rl_conns w d)" "co_read (rl_conns w' x) = co_read (rl_conns w x)" for x d
    using calm(4) [of x d] calm(1) [of x] by simp_all
  then show "co_read (rl_conns w' x) = co_read (rl_conns w x) \<and> sent x (rl_conns w' d) = sent x (rl_conns w d)" for x d
    by simp
  have "seated w' d \<Longrightarrow> d = c \<or> seated w d" for d using calm(7) assms(6,7) by (force simp: seated_def)
  then show "seated w' d \<Longrightarrow> seated w d \<or> sent x (rl_conns w d) = []" for x d using empty by metis
  show "sublist (sent c (rl_conns w' d)) (co_read (rl_conns w' c))" for d using same(1) empty(2) by simp
  show "t = Pumping tk' h \<Longrightarrow> seated w' d \<Longrightarrow> sent c (rl_conns w' d) \<noteq> [] \<Longrightarrow>
      suffix (sent c (rl_conns w' d)) (co_read (rl_conns w' c))" for d tk' h using same(1) empty(2) by simp
qed (use assms(8) in auto)

lemma streams_lost:
  assumes "streams_ok w" "tickets_ok cr issuers w" "rl_tasks w c = Pumping tk h" "rl_tasks w' = (rl_tasks w)(c := t)"
    "logs_read c b w w'" "t = Gone \<or> t = Pumping tk h \<and> snd (forward_lookup h now (rl_router w)) = Inl ErrPeerMissing"
  shows "streams_ok w'"
proof (rule streams_upd [OF assms(1,4)])
  note lr = logs_readD [OF assms(5)] and ok = streams_okD [OF assms(1)]
  have seat: "seated w' d \<Longrightarrow> seated w d" for d
    using seated_mono [OF lr(6)] tickets_okD(2) [OF assms(2)] by blast
  then show "seated w' d \<Longrightarrow> seated w d \<or> sent x (rl_conns w d) = []" for x d by simp
  show "sublist (sent c (rl_conns w' d)) (co_read (rl_conns w' c))" for d
    using ok(1) [of c d] lr(1) [of c] lr(3) by (simp add: sublist_grow)
  show "t = Pumping tk' h' \<Longrightarrow> seated w' d \<Longrightarrow> sent c (rl_conns w' d) \<noteq> [] \<Longrightarrow>
      suffix (sent c (rl_conns w' d)) (co_read (rl_conns w' c))" for d tk' h'
    using lookup_sent [OF assms(2,3), of d now] seat assms(6) lr(3) by auto
qed (use logs_readD(1,3) [OF assms(5)] assms(6) in auto)

lemma streams_take_up:
  assumes "streams_ok w" "tickets_ok cr issuers w" "rl_tasks w c = Pumping tk h"
    "rl_tasks w' = (rl_tasks w)(c := Sending tk h dest b)" "logs_read c b w w'"
    "snd (forward_lookup h now (rl_router w)) = Inr dest"
  shows "streams_ok w'"
proof (rule streams_upd [OF assms(1,4)])
  note lr = logs_readD [OF assms(5)] and ok = streams_okD [OF assms(1)]
  have seat: "seated w' d \<Longrightarrow> seated w d" for d
    using seated_mono [OF lr(6)] tickets_okD(2) [OF assms(2)] by blast
  then show "seated w' d \<Longrightarrow> seated w d \<or> sent x (rl_conns w d) = []" for x d by simp
  show "sublist (sent c (rl_conns w' d)) (co_read (rl_conns w' c))" for d
    using ok(1) [of c d] lr(1) [of c] lr(3) by (simp add: sublist_grow)
  have "seated w (pe_id dest)" using lookup_opposite(1) [OF assms(2,3,6)] by (auto simp: seated_def)
  then have "suffix (sent c (rl_conns w (pe_id dest))) (co_read (rl_conns w c))"
    using ok(2) [OF assms(3)] by (cases "sent c (rl_conns w (pe_id dest)) = []") auto
  then show "Sending tk h dest b = Sending tk' h' dest' b' \<Longrightarrow>
      suffix (sent c (rl_conns w' (pe_id dest')) @ [b']) (co_read (rl_conns w' c))" for tk' h' dest' b'
    using lr(1) [of c] lr(3) by simp
  show "Sending tk h dest b = Sending tk' h' dest' b' \<Longrightarrow> d \<noteq> pe_id dest' \<Longrightarrow> seated w' d \<Longrightarrow> sent c (rl_conns w' d) = []"
    for tk' h' dest' b' d
    using lookup_sent [OF assms(2,3), of d now] seat [of d] assms(6) lr(3) by auto
qed (use logs_readD(1,3) [OF assms(5)] in auto)

lemma streams_deliver:
  assumes "streams_ok w" "tickets_ok cr issuers w" "rl_tasks w c = Sending tk h dest b"
    "rl_tasks w' = (rl_tasks w)(c := Pumping tk h)"
    "calm (on_conn (pe_id dest) (\<lambda>conn. conn\<lparr>co_frames := co_frames conn @ [(c, b)]\<rparr>) w) w'"
  shows "streams_ok w'"
proof (rule streams_upd [OF assms(1,4)])
  note calm = calmD [OF assms(5)] and ok = streams_okD [OF assms(1)]
  have snt: "sent x (rl_conns w' d) = sent x (rl_conns w d) @ (if d = pe_id dest \<and> x = c then [b] else [])" for x d
    using calm(4) [of x d] by (simp split: if_splits)
  have rd: "co_read (rl_conns w' x) = co_read (rl_conns w x)" for x using calm(1) [of x] by (simp split: if_splits)
  have seat: "seated w' d \<Longrightarrow> seated w d" for d
    using calm(7) tickets_okD(2) [OF assms(2)] by (auto simp: seated_def)
  then show "seated w' d \<Longrightarrow> seated w d \<or> sent x (rl_conns w d) = []" for x d by simp
  show "x \<noteq> c \<Longrightarrow> co_read (rl_conns w' x) = co_read (rl_conns w x) \<and> sent x (rl_conns w' d) = sent x (rl_conns w d)" for x d
    using snt rd by simp
  show "sublist (sent c (rl_conns w' d)) (co_read (rl_conns w' c))" for d
    using ok(1) [of c d] ok(3) [OF assms(3)] snt rd by (auto intro: suffix_imp_sublist)
  show "Pumping tk h = Pumping tk' h' \<Longrightarrow> seated w' d \<Longrightarrow> sent c (rl_conns w' d) \<noteq> [] \<Longrightarrow>
      suffix (sent c (rl_conns w' d)) (co_read (rl_conns w' c))" for d tk' h'
    using ok(3) [OF assms(3)] ok(4) [OF assms(3), of d] seat [of d] snt rd by (auto split: if_splits)
qed auto

lemma streams_step:
  "traffic cr issuers w w' \<Longrightarrow> tickets_ok cr issuers w \<Longrightarrow> streams_ok w \<Longrightarrow> streams_ok w'"
proof (induction rule: traffic.induct)
  case (quiet w' w c t)
  then show ?case using streams_quiet by blast
next
  case (seat w c tk w' t r)
  then show ?case using streams_seat [of w cr issuers c tk w' t r] by blast
next
  case (lost w c tk h w' t b now)
  then show ?case using streams_lost by blast
next
  case (take_up w c tk h w' dest b now)
  then show ?case using streams_take_up by blast
next
  case (deliver w c tk h dest b w')
  then show ?case using streams_deliver by blast
qed

section \<open>What the relay guarantees\<close>

lemma started_traffic:
  assumes "New_relay config = Some sv" "cf_Verifier config = Some v" "cf_Router config = None"
  shows "tickets_ok cr (vf_issuers v) (relay_started sv)" "streams_ok (relay_started sv)"
proof -
  have sv: "rs_router sv = NewRouterWithConfig (cf_RouterConfig config)" "rs_verifier sv = v"
    using assms by (auto simp: New_relay_def Let_def)
  show "tickets_ok cr (vf_issuers v) (relay_started sv)"
    using NewRouter_inv by (auto simp: tickets_ok_def relay_started_def sv task_fine_def exchanged_def sent_def)
  show "streams_ok (relay_started sv)"
    using NewRouter_inv by (auto simp: streams_ok_def relay_started_def sent_def)
qed

lemma serves_traffic:
  assumes "serves lb config w" "cf_Verifier config = Some v" "cf_Router config = None"
  shows "tickets_ok (lb_crypto lb) (vf_issuers v) w \<and> streams_ok w"
  using assms(1)
proof (induction rule: serves.induct)
  case (begins sv)
  then show ?case using started_traffic [OF _ assms(2,3)] by blast
next
  case (goes_on w w')
  then show ?case using serve_step_traffic tickets_step streams_step by blast
qed


text \<open>
  C30. The connection cap holds under every interleaving. With a cap that is not negative (zero
  selects the default of 4096), the number of requests past the capacity check that have not ended
  never exceeds it, although rejected requests raise the counter for a moment; and the counter and
  the wait group count exactly the requests that hold a slot and those that were accepted.
\<close>

theorem relay_capacity_respected:
  assumes "serves lb config w" "cf_MaxConnections config \<ge> 0"
  shows "int (card {c. serving (rl_tasks w c)}) \<le>
      (if cf_MaxConnections config = 0 then defaultMaxConnections else cf_MaxConnections config) \<and>
    rs_activeConns (rl_server w) = int (card {c. slotted (rl_tasks w c)}) \<and>
    rs_conns (rl_server w) = card {c. waited (rl_tasks w c)}"
proof -
  have "bk_max (books (rl_server w)) > 0"
    using serves_max [OF assms(1)] assms(2) by (simp add: defaultMaxConnections_def split: if_splits)
  then show ?thesis
    using serves_balanced [OF assms(1)] serves_max [OF assms(1)] by (simp add: balanced_def tasks_in_def books_def)
qed

text \<open>
  C31. Shutdown drains. When \<^verbatim>\<open>Shutdown\<close> has returned, no connection is being served and no request
  is on its way past the shutdown check; and none ever will be, whatever requests still arrive.
\<close>

theorem relay_shutdown_drains:
  assumes "serves lb config w" "rl_shutdown w = ShutdownDone" "(serve_step lb)\<^sup>*\<^sup>* w w'"
  shows "\<not> waited (rl_tasks w' c) \<and> \<not> accepting (rl_tasks w' c)"
proof -
  have after: "rl_shutdown w' = ShutdownDone \<and> serves lb config w'"
    using assms(3)
  proof (induction rule: rtranclp_induct)
    case (step w1 w2)
    then have "rl_shutdown w2 = ShutdownDone"
      using serves_draining [of lb config w1]
      by (elim serve_step_moves) (auto simp: draining_def shutdown_begin_def)
    then show ?case using step serves.goes_on by blast
  qed (use assms(1,2) in simp)
  then show ?thesis using serves_draining [of lb config w'] by (simp add: draining_def)
qed

section \<open>A panic in the origin check\<close>

text \<open>An Origin of eight bytes with the scheme \<^verbatim>\<open>http\<close> makes the origin check slice out of range.\<close>

lemma short_origin_panics:
  assumes "rs_allowed sv = None" "rq_Host rq \<noteq> []" "rq_Origin rq = ''http://'' @ [x]"
  shows "Upgrade True post rq sv = Panics"
  using assms by (simp add: Upgrade_def buildOriginChecker_def parseOrigin_def slice_from_def origin_host_def)

lemma panicking_request:
  assumes "rs_allowed sv = None" "rq_Host rq \<noteq> []" "rq_Origin rq = ''http://'' @ [x]" "rq_IsUpgrade rq"
    "\<not> rs_stopping sv" "0 < rs_maxConns sv" "rs_activeConns sv < rs_maxConns sv"
  shows "ServeHTTP True post rq sv =
    (sv\<lparr>rs_acceptMu := False, rs_conns := rs_conns sv + 1, rs_activeConns := rs_activeConns sv + 1\<rparr>, Panicked)"
  using assms short_origin_panics [of "sv\<lparr>rs_conns := rs_conns sv + 1, rs_acceptMu := False,
      rs_activeConns := rs_activeConns sv + 1\<rparr>" rq x post]
  by (simp add: ServeHTTP_def accept_check_def accept_add_def admit_def Let_def)

lemma panicking_requests:
  assumes "New_relay config = Some sv" "cf_AllowedOrigins config = None" "rq_Host rq \<noteq> []"
    "rq_Origin rq = ''http://'' @ [x]" "rq_IsUpgrade rq" "int n \<le> rs_maxConns sv"
  shows "((\<lambda>s. fst (ServeHTTP True post rq s)) ^^ n) sv = sv\<lparr>rs_conns := n, rs_activeConns := int n\<rparr>"
  using assms(6)
proof (induction n)
  case 0
  then show ?case using assms(1) by (auto simp: New_relay_def Let_def split: option.splits)
next
  case (Suc n)
  let ?s = "sv\<lparr>rs_conns := n, rs_activeConns := int n\<rparr>"
  have sv: "rs_allowed sv = None" "\<not> rs_stopping sv" "rs_acceptMu sv = False"
    using assms(1,2) by (auto simp: New_relay_def Let_def split: option.splits)
  then have "fst (ServeHTTP True post rq ?s) = ?s\<lparr>rs_acceptMu := False, rs_conns := n + 1, rs_activeConns := int n + 1\<rparr>"
    using Suc.prems panicking_request [of ?s rq x post] assms(3-5) by simp
  then show ?case using Suc sv(3) by simp
qed

text \<open>
  C32. A panic in the origin check leaks connection slots. With no configured origins, as many
  requests with an Origin such as \<^verbatim>\<open>http://a\<close> as the cap allows leave every slot taken although no
  connection exists, and from then on every request is refused.
\<close>

theorem relay_origin_panic_exhausts:
  assumes "New_relay config = Some sv" "cf_AllowedOrigins config = None" "rq_Host bad \<noteq> []"
    and "rq_Origin bad = ''http://'' @ [x]" "rq_IsUpgrade bad" "rs_maxConns sv > 0"
    and "sv' = ((\<lambda>s. fst (ServeHTTP True post bad s)) ^^ nat (rs_maxConns sv)) sv" "rq_IsUpgrade rq"
  shows "rs_activeConns sv' = rs_maxConns sv \<and> snd (ServeHTTP pre post' rq sv') = Status 503"
proof -
  have "\<not> rs_stopping sv" using assms(1) by (auto simp: New_relay_def Let_def split: option.splits)
  moreover have "sv' = sv\<lparr>rs_conns := nat (rs_maxConns sv), rs_activeConns := rs_maxConns sv\<rparr>"
    using panicking_requests [OF assms(1-5), of "nat (rs_maxConns sv)" post] assms(6,7) by simp
  ultimately show ?thesis
    using assms(6,8) by (simp add: ServeHTTP_def accept_check_def accept_add_def admit_def Let_def)
qed

section \<open>A sample run\<close>

text \<open>One step of the task of a connection, with the inputs it may need; no step when it is blocked or has ended.\<close>

fun advance :: "relay_libs \<Rightarrow> 'w \<Rightarrow> 'w relay \<Rightarrow> nat \<times> Request \<times> read_result \<Rightarrow> 'w relay" where
  "advance lb world w (c, rq, frame) =
     (case rl_tasks w c of
        Idle \<Rightarrow>
          (if rs_acceptMu (rl_server w) then w
           else case accept_check (rl_server w) of (sv, go_on) \<Rightarrow> at_task c (if go_on then Accepting rq else Refused) sv w)
      | Accepting r \<Rightarrow> at_task c (Accepted r) (accept_add (rl_server w)) w
      | Accepted r \<Rightarrow>
          (case admit r (rl_server w) of
             (sv, a) \<Rightarrow> at_task c (case a of NotUpgrade \<Rightarrow> Refused | OverCapacity \<Rightarrow> Overfull | Admitted \<Rightarrow> Upgrading r) sv w)
      | Overfull \<Rightarrow> at_task c Refused (capacity_reject (rl_server w)) w
      | Upgrading r \<Rightarrow>
          (case Upgrade True True r (rl_server w) of
             Panics \<Rightarrow> at_task c Crashed (rl_server w) w
           | Returns False \<Rightarrow> at_task c Refused (upgrade_failed (rl_server w)) w
           | Returns True \<Rightarrow> at_task c AwaitTicket (rl_server w) w)
      | AwaitTicket \<Rightarrow> handle_ticket (lb_unmarshal lb) c frame w
      | HasTicket t \<Rightarrow> handle_check c t 0 0 w
      | Checked t e \<Rightarrow> handle_verify (lb_crypto lb) world c t e w
      | Verified tk \<Rightarrow> handle_join c tk 0 w
      | Pumping tk h \<Rightarrow> pump_read c tk h 0 frame w
      | Sending tk h dest b \<Rightarrow> pump_send c tk h dest b True w
      | _ \<Rightarrow> w)"

lemma advance_serves: "serves lb config w \<Longrightarrow> serves lb config (advance lb world w a)"
proof (cases a rule: prod_cases3)
  case (fields c rq frame)
  assume "serves lb config w"
  note on = serves.goes_on [OF this]
  show "serves lb config (advance lb world w a)"
  proof (cases "rl_tasks w c")
    case Idle
    then show ?thesis using fields \<open>serves lb config w\<close> on [OF serve_step.check]
      by (auto split: prod.split)
  next
    case (Accepted r)
    then show ?thesis using fields on [OF serve_step.capacity] by (auto split: prod.split)
  next
    case (Upgrading r)
    then show ?thesis using fields on [OF serve_step.upgrade [of w c r lb True True]] by simp
  qed (use fields \<open>serves lb config w\<close> on [OF serve_step.add] on [OF serve_step.roll_back]
         on [OF serve_step.ticket] on [OF serve_step.verify_1] on [OF serve_step.verify_2] on [OF serve_step.join]
         on [OF serve_step.read] on [OF serve_step.send] in auto)
qed

lemma advances_serves: "serves lb config w \<Longrightarrow> serves lb config (foldl (advance lb world) w as)"
  by (induction as arbitrary: w) (simp_all add: advance_serves)

definition sample_relay_config :: "unit relay_config" where
  "sample_relay_config = \<lparr>cf_Verifier = Some sample_verifier, cf_Router = None,
     cf_RouterConfig = \<lparr>rc_IdleTimeout = 0, rc_MaxLifetime = 0, rc_SweepInterval = 0\<rparr>,
     cf_AllowedOrigins = None, cf_MaxConnections = 2\<rparr>"

definition sample_relay :: "unit relay" where
  "sample_relay = relay_started (the (New_relay sample_relay_config))"

definition sample_libs :: relay_libs where
  "sample_libs = \<lparr>lb_crypto = sample_crypto,
     lb_unmarshal = (\<lambda>b. if b = [1] then Some sample_ticket
       else if b = [2] then Some (sample_ticket\<lparr>rt_TicketId := replicate 16 7, rt_Endpoint := RELAY_ENDPOINT_CLIENT\<rparr>) else None)\<rparr>"

definition sample_request :: Request where
  "sample_request = \<lparr>rq_IsUpgrade = True, rq_Origin = [], rq_Host = ''h''\<rparr>"

text \<open>Connection 1 presents the agent's ticket and connection 2 the client's; then 1 forwards a frame.\<close>

definition sample_turns :: "(nat \<times> Request \<times> read_result) list" where
  "sample_turns = replicate 8 (1, sample_request, ReadFrame 2 [0, 0, 0, 1, 1]) @
     replicate 8 (2, sample_request, ReadFrame 2 [0, 0, 0, 1, 2]) @ replicate 2 (1, sample_request, ReadFrame 2 [9, 9])"

lemma sample_relay_serves: "serves sample_libs sample_relay_config (foldl (advance sample_libs ()) sample_relay as)"
  unfolding sample_relay_def
  by (rule advances_serves, rule serves.begins) (simp add: New_relay_def sample_relay_config_def Let_def)

lemma sample_turns_sent:
  "sent 1 (rl_conns (foldl (advance sample_libs ()) sample_relay sample_turns) 2) = [[9, 9]]"
  by code_simp


theorem relay_capacity_respected_witness:
  "int (card {c. serving (rl_tasks (foldl (advance sample_libs ()) sample_relay sample_turns) c)}) \<le> 2"
  using relay_capacity_respected [OF sample_relay_serves, of sample_turns] by (simp add: sample_relay_config_def)

theorem relay_shutdown_drains_witness:
  "\<forall>c. \<not> waited (rl_tasks (shutdown_return ((shutdown_begin sample_relay)\<lparr>rl_shutdown := ShutdownWaiting\<rparr>)) c)"
proof -
  let ?w = "(shutdown_begin sample_relay)\<lparr>rl_shutdown := ShutdownWaiting\<rparr>"
  have s: "\<not> rs_stopping (rl_server sample_relay)" "\<not> rs_acceptMu (rl_server sample_relay)" "rs_conns (rl_server sample_relay) = 0"
    by (simp_all add: sample_relay_def relay_started_def New_relay_def sample_relay_config_def Let_def)
  have "serves sample_libs sample_relay_config sample_relay" using sample_relay_serves [of "[]"] by simp
  then have "serves sample_libs sample_relay_config (shutdown_begin sample_relay)"
    by (rule serves.goes_on [OF _ serve_step.stop])
  then have "serves sample_libs sample_relay_config ?w"
    by (rule serves.goes_on [OF _ serve_step.drain]) (use s in \<open>simp_all add: shutdown_begin_def\<close>)
  then have "serves sample_libs sample_relay_config (shutdown_return ?w)"
    by (rule serves.goes_on [OF _ serve_step.stopped]) (use s in \<open>simp_all add: shutdown_begin_def\<close>)
  from relay_shutdown_drains [OF this _ rtranclp.rtrancl_refl] show ?thesis by simp
qed

theorem relay_origin_panic_exhausts_witness:
  "\<exists>sv :: unit relay_server. New_relay sample_relay_config = Some sv \<and>
     snd (ServeHTTP True True sample_request
       (((\<lambda>s. fst (ServeHTTP True True (sample_request\<lparr>rq_Origin := ''http://a''\<rparr>) s)) ^^ 2) sv)) = Status 503"
proof -
  obtain sv where sv: "New_relay sample_relay_config = Some sv" "rs_maxConns sv = 2"
    by (simp add: New_relay_def sample_relay_config_def Let_def)
  have "nat (rs_maxConns sv) = 2" using sv(2) by simp
  then show ?thesis
    using relay_origin_panic_exhausts [OF sv(1), of "sample_request\<lparr>rq_Origin := ''http://a''\<rparr>" "CHR ''a''" _ True
        sample_request True True, OF _ _ _ _ _ refl] sv
    by (auto simp: sample_relay_config_def sample_request_def)
qed

text \<open>
  The server that \<open>New_relay\<close> makes never owns its router: the flag is computed after the default
  router was stored in the configuration, so shutdown does not stop it.
\<close>

lemma router_never_owned: "New_relay config = Some sv \<Longrightarrow> \<not> rs_ownsRouter sv"
  by (auto simp: New_relay_def Let_def split: option.splits)

end
