(* ===== verification/Agent_Config.thy ===== *)
theory Agent_Config
  imports Workspace Tool_Adapter
begin

text \<open>
  The agent's configuration (\<^verbatim>\<open>src/internal/agentconfig/config.go\<close>) and the selection of what to launch
  (\<^verbatim>\<open>resolveStartupOptions\<close> in \<^verbatim>\<open>src/cmd/vibebridge/main.go\<close>). The JSON decoder and \<^verbatim>\<open>time.ParseDuration\<close>
  are parameters, as are the reading of the file and the lookup of an environment variable. The
  error texts are constructors.
\<close>

section \<open>The configuration\<close>

record LaunchProfile =
  lp_ID :: string
  lp_Label :: string
  lp_Executable :: string
  lp_Args :: "string list"
  lp_WorkspaceID :: string
  lp_WorkingDirectory :: string
  lp_EnvironmentAllowlist :: "string list"
  lp_ToolAdapter :: string
  lp_workspaceIDConfigured :: bool

record File =
  fl_Version :: int
  fl_ListenAddress :: string
  fl_WebDirectory :: string
  fl_ReconnectTimeout :: string
  fl_IdleTimeout :: string
  fl_Workspaces :: "Definition list"
  fl_DefaultProfile :: string
  fl_Profiles :: "LaunchProfile list"
  fl_RelayURL :: string
  fl_workspacesConfigured :: bool

datatype config_error =
    ConfigOpen | ConfigTooLarge | ConfigDecode | ConfigTrailing | ConfigPresence
  | ConfigVersion | ConfigWorkspaceVersion | ConfigNoDefault | ConfigNoProfiles | ConfigDuration
  | ConfigWorkspace workspace_error | ConfigDuplicateProfile | ConfigDefaultMissing
  | ProfileID | ProfileLabel | ProfileExecutable | ProfileAdapter | ProfileArgNUL
  | ProfileWorkspace workspace_error | ProfileDirectory | ProfileEnvironment | ProfileEnvironmentDuplicate

record config_libs =
  cl_fs :: filesystem
  cl_ParseDuration :: "string \<Rightarrow> duration option"
  cl_Decode :: "bytes \<Rightarrow> (File \<times> bytes) option"
  cl_Trailing :: "bytes \<Rightarrow> bool"
  cl_Presence :: "bytes \<Rightarrow> (bool \<times> bool list) option"

abbreviation (input) MinimumVersion :: int where "MinimumVersion \<equiv> 1"
abbreviation (input) CurrentVersion :: int where "CurrentVersion \<equiv> 2"
abbreviation (input) workspaceConfigVersion :: int where "workspaceConfigVersion \<equiv> 2"

definition maxConfigBytes :: nat where
  "maxConfigBytes = 1024 * 1024"

definition letter :: "char \<Rightarrow> bool" where
  "letter c \<longleftrightarrow> c \<in> set ''ABCDEFGHIJKLMNOPQRSTUVWXYZabcdefghijklmnopqrstuvwxyz_''"

text \<open>The regular expression \<^verbatim>\<open>^[A-Za-z_][A-Za-z0-9_]*$\<close>.\<close>

definition environmentNamePattern :: "string \<Rightarrow> bool" where
  "environmentNamePattern s \<longleftrightarrow> s \<noteq> [] \<and> letter (hd s) \<and> (\<forall>c \<in> set (tl s). letter c \<or> c \<in> set ''0123456789'')"

definition validateDuration :: "config_libs \<Rightarrow> string \<Rightarrow> bool \<Rightarrow> bool" where
  "validateDuration lb text allowZero \<longleftrightarrow>
     (text = [] \<or>
      (case cl_ParseDuration lb text of
         None \<Rightarrow> False
       | Some d \<Rightarrow> \<not> (d < 0 \<or> \<not> allowZero \<and> d = 0)))"

definition usesWorkspaceFields :: "File \<Rightarrow> bool" where
  "usesWorkspaceFields c \<longleftrightarrow>
     fl_workspacesConfigured c \<or> fl_Workspaces c \<noteq> [] \<or>
     list_ex (\<lambda>p. lp_workspaceIDConfigured p \<or> lp_WorkspaceID p \<noteq> []) (fl_Profiles c)"

fun validate_environment :: "string list \<Rightarrow> string list \<Rightarrow> config_error option" where
  "validate_environment seen [] = None"
| "validate_environment seen (name # names) =
     (if \<not> environmentNamePattern name then Some ProfileEnvironment
      else if ToUpper name \<in> set seen then Some ProfileEnvironmentDuplicate
      else validate_environment (ToUpper name # seen) names)"

text \<open>The directory a profile asks for: under its workspace, or made absolute.\<close>

definition profile_directory :: "config_libs \<Rightarrow> string \<Rightarrow> Registry \<Rightarrow> LaunchProfile \<Rightarrow> config_error + string" where
  "profile_directory lb baseDirectory registry p =
     (if lp_WorkspaceID p \<noteq> [] then
        (case ResolveDirectory (cl_fs lb) registry (lp_WorkspaceID p) (lp_WorkingDirectory p) of
           Inl e \<Rightarrow> Inl (ProfileWorkspace e)
         | Inr d \<Rightarrow> Inr d)
      else if lp_WorkingDirectory p \<noteq> [] then
        (let d = (if baseDirectory \<noteq> [] \<and> \<not> rooted (lp_WorkingDirectory p)
                  then path_string (path_Join baseDirectory (lp_WorkingDirectory p)) else lp_WorkingDirectory p)
         in case Abs (cl_fs lb) d of None \<Rightarrow> Inl ProfileDirectory | Some absolute \<Rightarrow> Inr (clean_path absolute))
      else Inr [])"

definition validate_profile :: "config_libs \<Rightarrow> string \<Rightarrow> Registry \<Rightarrow> LaunchProfile \<Rightarrow> config_error + LaunchProfile" where
  "validate_profile lb baseDirectory registry p0 =
     (if \<not> idPattern (lp_ID p0) then Inl ProfileID
      else
        let p = p0\<lparr>lp_Label := TrimSpace (lp_Label p0), lp_Executable := TrimSpace (lp_Executable p0),
                  lp_ToolAdapter := (let a = TrimSpace (lp_ToolAdapter p0) in if a = [] then Generic else a)\<rparr>
        in if lp_Label p = [] then Inl ProfileLabel
           else if lp_Executable p = [] then Inl ProfileExecutable
           else if \<not> IsSupported (lp_ToolAdapter p) then Inl ProfileAdapter
           else if list_ex (\<lambda>arg. CHR 0x00 \<in> set arg) (lp_Args p) then Inl ProfileArgNUL
           else case profile_directory lb baseDirectory registry p of
             Inl e \<Rightarrow> Inl e
           | Inr d \<Rightarrow>
               (case validate_environment [] (lp_EnvironmentAllowlist p) of
                  Some e \<Rightarrow> Inl e
                | None \<Rightarrow> Inr (p\<lparr>lp_WorkingDirectory := d\<rparr>)))"

fun validate_profiles ::
    "config_libs \<Rightarrow> string \<Rightarrow> Registry \<Rightarrow> string list \<Rightarrow> LaunchProfile list \<Rightarrow> config_error + LaunchProfile list" where
  "validate_profiles lb baseDirectory registry seen [] = Inr []"
| "validate_profiles lb baseDirectory registry seen (p # ps) =
     (case validate_profile lb baseDirectory registry p of
        Inl e \<Rightarrow> Inl e
      | Inr q \<Rightarrow>
          (if lp_ID q \<in> set seen then Inl ConfigDuplicateProfile
           else case validate_profiles lb baseDirectory registry (lp_ID q # seen) ps of
             Inl e \<Rightarrow> Inl e
           | Inr qs \<Rightarrow> Inr (q # qs)))"

definition validate_config :: "config_libs \<Rightarrow> string \<Rightarrow> File \<Rightarrow> config_error + File" where
  "validate_config lb baseDirectory c =
     (if fl_Version c < MinimumVersion \<or> fl_Version c > CurrentVersion then Inl ConfigVersion
      else if fl_Version c < workspaceConfigVersion \<and> usesWorkspaceFields c then Inl ConfigWorkspaceVersion
      else if TrimSpace (fl_DefaultProfile c) = [] then Inl ConfigNoDefault
      else if fl_Profiles c = [] then Inl ConfigNoProfiles
      else if \<not> validateDuration lb (fl_ReconnectTimeout c) False then Inl ConfigDuration
      else if \<not> validateDuration lb (fl_IdleTimeout c) True then Inl ConfigDuration
      else case NewRegistry (cl_fs lb) (fl_Workspaces c) baseDirectory of
        Inl e \<Rightarrow> Inl (ConfigWorkspace e)
      | Inr registry \<Rightarrow>
          (case validate_profiles lb baseDirectory registry [] (fl_Profiles c) of
             Inl e \<Rightarrow> Inl e
           | Inr profiles \<Rightarrow>
               (if list_ex (\<lambda>p. lp_ID p = fl_DefaultProfile c) profiles
                then Inr (c\<lparr>fl_Workspaces := wr_definitions registry, fl_Profiles := profiles\<rparr>)
                else Inl ConfigDefaultMissing)))"

definition markWorkspaceFieldPresence :: "config_libs \<Rightarrow> bytes \<Rightarrow> File \<Rightarrow> File option" where
  "markWorkspaceFieldPresence lb content config =
     (case cl_Presence lb content of
        None \<Rightarrow> None
      | Some (workspaces, ids) \<Rightarrow>
          Some (config\<lparr>fl_workspacesConfigured := workspaces,
            fl_Profiles := map (\<lambda>(i, p). if i < length ids then p\<lparr>lp_workspaceIDConfigured := ids ! i\<rparr> else p)
              (enumerate 0 (fl_Profiles config))\<rparr>))"

text \<open>
  \<^verbatim>\<open>Load\<close> on the content of the file, \<open>None\<close> when it cannot be read. The size that \<^verbatim>\<open>Stat\<close> reports and the
  number of bytes read lead to the same error. \<open>cl_Trailing\<close> says whether the decoder finds anything
  but the end of the input after the first value.
\<close>

definition Load_config :: "config_libs \<Rightarrow> string \<Rightarrow> bytes option \<Rightarrow> config_error + File" where
  "Load_config lb directory file0 =
     (case file0 of
        None \<Rightarrow> Inl ConfigOpen
      | Some content \<Rightarrow>
          (if length content > maxConfigBytes then Inl ConfigTooLarge
           else case cl_Decode lb content of
             None \<Rightarrow> Inl ConfigDecode
           | Some (config, rest) \<Rightarrow>
               (if cl_Trailing lb rest then Inl ConfigTrailing
                else case markWorkspaceFieldPresence lb content config of
                  None \<Rightarrow> Inl ConfigPresence
                | Some marked \<Rightarrow> validate_config lb directory marked)))"

definition Profile :: "File \<Rightarrow> string \<Rightarrow> LaunchProfile option" where
  "Profile c i = List.find (\<lambda>p. lp_ID p = i) (fl_Profiles c)"

definition Workspace_of :: "File \<Rightarrow> string \<Rightarrow> Definition option" where
  "Workspace_of c i = List.find (\<lambda>d. df_ID d = i) (fl_Workspaces c)"

definition ParsedTimeout :: "config_libs \<Rightarrow> string \<Rightarrow> duration option" where
  "ParsedTimeout lb text =
     (if text = [] then None else Some (case cl_ParseDuration lb text of None \<Rightarrow> 0 | Some d \<Rightarrow> d))"

section \<open>What to launch\<close>

record startupOptions =
  so_addr :: string
  so_webDir :: string
  so_commandLine :: string
  so_command :: "string list"
  so_workingDirectory :: string
  so_environment :: "string list"
  so_reconnectTimeout :: duration
  so_idleTimeout :: duration
  so_profileID :: string
  so_workspaceID :: string
  so_workspaceRoot :: string
  so_toolAdapter :: string
  so_relayURL :: string

datatype startup_error =
    ProfileNeedsConfig | EmptyCommand | StartupConfig config_error | CommandAndProfile | ProfileMissing | WorkspaceMissing

definition resolveEnvironment :: "string list \<Rightarrow> (string \<Rightarrow> string option) \<Rightarrow> string list" where
  "resolveEnvironment allowlist lookupEnv =
     concat (map (\<lambda>name. case lookupEnv name of None \<Rightarrow> [] | Some v \<Rightarrow> [name @ ''='' @ v]) allowlist)"

definition with_command :: "startupOptions \<Rightarrow> startup_error + startupOptions" where
  "with_command options =
     (let cmd = Fields (so_commandLine options)
      in if cmd = [] then Inl EmptyCommand else Inr (options\<lparr>so_command := cmd\<rparr>))"

definition config_options :: "config_libs \<Rightarrow> (string \<Rightarrow> bool) \<Rightarrow> File \<Rightarrow> startupOptions \<Rightarrow> startupOptions" where
  "config_options lb explicitFlags c options =
     options\<lparr>
       so_addr := (if \<not> explicitFlags ''addr'' \<and> fl_ListenAddress c \<noteq> [] then fl_ListenAddress c else so_addr options),
       so_webDir := (if \<not> explicitFlags ''web-dir'' \<and> fl_WebDirectory c \<noteq> [] then fl_WebDirectory c else so_webDir options),
       so_reconnectTimeout :=
         (case ParsedTimeout lb (fl_ReconnectTimeout c) of
            Some d \<Rightarrow> if \<not> explicitFlags ''reconnect-timeout'' then d else so_reconnectTimeout options
          | None \<Rightarrow> so_reconnectTimeout options),
       so_idleTimeout :=
         (case ParsedTimeout lb (fl_IdleTimeout c) of
            Some d \<Rightarrow> if \<not> explicitFlags ''idle-timeout'' then d else so_idleTimeout options
          | None \<Rightarrow> so_idleTimeout options)\<rparr>"

definition profile_options ::
    "(string \<Rightarrow> bool) \<Rightarrow> (string \<Rightarrow> string option) \<Rightarrow> string \<Rightarrow> File \<Rightarrow> startupOptions \<Rightarrow> startup_error + startupOptions" where
  "profile_options explicitFlags lookupEnv requestedProfile c options =
     (case Profile c (if requestedProfile = [] then fl_DefaultProfile c else requestedProfile) of
        None \<Rightarrow> Inl ProfileMissing
      | Some p \<Rightarrow>
          (case (if lp_WorkspaceID p = [] then Some (so_workspaceRoot options)
                 else map_option df_Root (Workspace_of c (lp_WorkspaceID p))) of
             None \<Rightarrow> Inl WorkspaceMissing
           | Some root \<Rightarrow>
               Inr (options\<lparr>so_profileID := lp_ID p, so_workspaceID := lp_WorkspaceID p, so_workspaceRoot := root,
                 so_command := lp_Executable p # lp_Args p, so_workingDirectory := lp_WorkingDirectory p,
                 so_environment := resolveEnvironment (lp_EnvironmentAllowlist p) lookupEnv,
                 so_toolAdapter := lp_ToolAdapter p,
                 so_relayURL := (if \<not> explicitFlags ''relay-url'' \<and> fl_RelayURL c \<noteq> [] then fl_RelayURL c
                                 else so_relayURL options)\<rparr>)))"

text \<open>\<open>load\<close> is the result of \<^verbatim>\<open>agentconfig.Load\<close> on the path.\<close>

definition resolveStartupOptions ::
    "config_libs \<Rightarrow> startupOptions \<Rightarrow> string \<Rightarrow> (config_error + File) \<Rightarrow> string \<Rightarrow> (string \<Rightarrow> bool) \<Rightarrow>
     (string \<Rightarrow> string option) \<Rightarrow> startup_error + startupOptions" where
  "resolveStartupOptions lb options configPath load requestedProfile explicitFlags lookupEnv =
     (if configPath = [] then (if requestedProfile \<noteq> [] then Inl ProfileNeedsConfig else with_command options)
      else case load of
        Inl e \<Rightarrow> Inl (StartupConfig e)
      | Inr c \<Rightarrow>
          (let options1 = config_options lb explicitFlags c options in
           if explicitFlags ''cmd''
           then (if requestedProfile \<noteq> [] then Inl CommandAndProfile else with_command options1)
           else profile_options explicitFlags lookupEnv requestedProfile c options1))"

section \<open>What a loaded configuration guarantees\<close>

text \<open>A profile as \<^verbatim>\<open>validate\<close> leaves it.\<close>

definition profile_ok :: "Registry \<Rightarrow> LaunchProfile \<Rightarrow> bool" where
  "profile_ok r p \<longleftrightarrow>
     idPattern (lp_ID p) \<and> lp_Executable p \<noteq> [] \<and> IsSupported (lp_ToolAdapter p) \<and>
     (\<forall>a \<in> set (lp_Args p). CHR 0x00 \<notin> set a) \<and>
     (\<forall>n \<in> set (lp_EnvironmentAllowlist p). environmentNamePattern n) \<and>
     distinct (map ToUpper (lp_EnvironmentAllowlist p)) \<and>
     (lp_WorkspaceID p \<noteq> [] \<longrightarrow>
       (\<exists>w. Lookup r (lp_WorkspaceID p) = Some w \<and> within (df_Root w) (lp_WorkingDirectory p) \<and>
            rooted (lp_WorkingDirectory p)))"

lemma validate_environment_None:
  "validate_environment seen ns = None \<Longrightarrow>
     (\<forall>n \<in> set ns. environmentNamePattern n \<and> ToUpper n \<notin> set seen) \<and> distinct (map ToUpper ns)"
proof (induction ns arbitrary: seen)
  case (Cons n ns)
  then have "environmentNamePattern n" "ToUpper n \<notin> set seen" "validate_environment (ToUpper n # seen) ns = None"
    by (auto split: if_splits)
  then show ?case using Cons.IH [of "ToUpper n # seen"] by auto
qed simp

lemma validate_profile_ok:
  assumes "validate_profile lb base r p0 = Inr p" "getwd_ok (cl_fs lb)" "registry_ok r"
  shows "profile_ok r p \<and> lp_ID p = lp_ID p0"
proof -
  obtain q d where q: "p = q\<lparr>lp_WorkingDirectory := d\<rparr>" "idPattern (lp_ID q)" "lp_ID q = lp_ID p0" "lp_Executable q \<noteq> []"
    "IsSupported (lp_ToolAdapter q)" "\<not> list_ex (\<lambda>arg. CHR 0x00 \<in> set arg) (lp_Args q)"
    and dir: "profile_directory lb base r q = Inr d"
    and env: "validate_environment [] (lp_EnvironmentAllowlist q) = None"
    using assms(1) by (auto simp: validate_profile_def Let_def split: if_splits sum.splits option.splits)
  have "\<exists>w. Lookup r (lp_WorkspaceID q) = Some w \<and> within (df_Root w) d \<and> rooted d" if "lp_WorkspaceID q \<noteq> []"
    using dir that ResolveDirectory_within [OF _ assms(2,3)] by (auto simp: profile_directory_def split: sum.splits)
  then show ?thesis
    using q validate_environment_None [OF env] by (auto simp: profile_ok_def list_ex_iff)
qed

lemma validate_profiles_ok:
  assumes "validate_profiles lb base r seen ps = Inr qs" "getwd_ok (cl_fs lb)" "registry_ok r"
  shows "(\<forall>q \<in> set qs. profile_ok r q \<and> lp_ID q \<notin> set seen) \<and> distinct (map lp_ID qs)"
  using assms(1)
proof (induction ps arbitrary: seen qs)
  case (Cons p ps)
  obtain q qs' where q: "validate_profile lb base r p = Inr q" "lp_ID q \<notin> set seen"
    and rest: "validate_profiles lb base r (lp_ID q # seen) ps = Inr qs'" and qs: "qs = q # qs'"
    using Cons.prems by (auto split: sum.splits if_splits)
  show ?case using Cons.IH [OF rest] validate_profile_ok [OF q(1) assms(2,3)] q(2) qs by auto
qed simp

lemma validate_config_ok:
  assumes "validate_config lb base c0 = Inr c" "getwd_ok (cl_fs lb)"
  shows "\<exists>r. registry_ok r \<and> fl_Workspaces c = wr_definitions r \<and> (\<forall>p \<in> set (fl_Profiles c). profile_ok r p) \<and>
    distinct (map lp_ID (fl_Profiles c)) \<and> fl_DefaultProfile c \<in> lp_ID ` set (fl_Profiles c)"
proof -
  obtain r qs where r: "NewRegistry (cl_fs lb) (fl_Workspaces c0) base = Inr r"
    and qs: "validate_profiles lb base r [] (fl_Profiles c0) = Inr qs"
    and d: "list_ex (\<lambda>p. lp_ID p = fl_DefaultProfile c0) qs"
    and c: "c = c0\<lparr>fl_Workspaces := wr_definitions r, fl_Profiles := qs\<rparr>"
    using assms(1) by (auto simp: validate_config_def split: if_splits sum.splits)
  note ok = NewRegistry_ok [OF r assms(2)]
  have "fl_DefaultProfile c0 \<in> lp_ID ` set qs" using d by (force simp: list_ex_iff)
  then show ?thesis using ok validate_profiles_ok [OF qs assms(2) ok] c by (auto intro!: exI [of _ r])
qed

lemma Load_config_ok:
  assumes "Load_config lb base content = Inr c" "getwd_ok (cl_fs lb)"
  shows "\<exists>r. registry_ok r \<and> fl_Workspaces c = wr_definitions r \<and> (\<forall>p \<in> set (fl_Profiles c). profile_ok r p) \<and>
    distinct (map lp_ID (fl_Profiles c)) \<and> fl_DefaultProfile c \<in> lp_ID ` set (fl_Profiles c)"
proof -
  obtain c0 where "validate_config lb base c0 = Inr c"
    using assms(1) by (auto simp: Load_config_def split: option.splits if_splits)
  then show ?thesis using validate_config_ok assms(2) by blast
qed

lemma find_eq_Some: "List.find P xs = Some x \<Longrightarrow> x \<in> set xs \<and> P x"
  by (auto simp: find_Some_iff in_set_conv_nth)

lemma Workspace_of_Lookup:
  assumes "registry_ok r" "fl_Workspaces c = wr_definitions r"
  shows "Workspace_of c i = Lookup r i"
proof (cases "Lookup r i")
  case None
  then have "d \<notin> set (wr_definitions r)" if "df_ID d = i" for d
    using assms(1) that unfolding registry_ok_def Lookup_def by (metis option.distinct(1))
  then show ?thesis using assms(2) None by (auto simp: Workspace_of_def find_None_iff)
next
  case (Some d)
  then have d: "d \<in> set (wr_definitions r)" "df_ID d = i" using assms(1) by (auto simp: Lookup_def registry_ok_def)
  then obtain e where e: "Workspace_of c i = Some e"
    using assms(2) by (cases "Workspace_of c i") (auto simp: Workspace_of_def find_None_iff)
  then have "e \<in> set (wr_definitions r)" "df_ID e = i"
    using find_eq_Some assms(2) unfolding Workspace_of_def by fastforce+
  then have "Lookup r i = Some e" using assms(1) unfolding registry_ok_def Lookup_def by blast
  then show ?thesis using e by simp
qed

text \<open>What \<^verbatim>\<open>resolveStartupOptions\<close> takes from the selected profile.\<close>

lemma resolved_profile:
  assumes "resolveStartupOptions lb options path (Inr c) requested flags env = Inr out" "path \<noteq> []" "\<not> flags ''cmd''"
  shows "\<exists>p \<in> set (fl_Profiles c). lp_ID p = (if requested = [] then fl_DefaultProfile c else requested) \<and>
    so_profileID out = lp_ID p \<and> so_workspaceID out = lp_WorkspaceID p \<and>
    so_command out = lp_Executable p # lp_Args p \<and> so_workingDirectory out = lp_WorkingDirectory p \<and>
    so_environment out = resolveEnvironment (lp_EnvironmentAllowlist p) env \<and> so_toolAdapter out = lp_ToolAdapter p \<and>
    (lp_WorkspaceID p \<noteq> [] \<longrightarrow> (\<exists>w. Workspace_of c (lp_WorkspaceID p) = Some w \<and> so_workspaceRoot out = df_Root w))"
proof -
  let ?i = "if requested = [] then fl_DefaultProfile c else requested"
  obtain p where p: "Profile c ?i = Some p"
    using assms by (auto simp: resolveStartupOptions_def profile_options_def Let_def split: option.splits)
  have "p \<in> set (fl_Profiles c)" "lp_ID p = ?i" using p find_eq_Some unfolding Profile_def by fastforce+
  then show ?thesis using assms p
    by (intro bexI [of _ p])
       (auto simp: resolveStartupOptions_def profile_options_def Let_def split: option.splits if_splits)
qed


text \<open>
  C33. A launch stays in its workspace and gets only the listed environment. When a configuration
  was loaded and a profile of it with a workspace selected, and the directory is revalidated before
  the launch, the launched directory exists at that moment and lies, element by element, in the root of
  the workspace the configuration has under that ID, whatever was moved or linked between the two;
  every variable passed on is one the selected profile lists, with the value it has.
\<close>

theorem launch_confined:
  assumes load: "Load_config lb base content = Inr c" "getwd_ok (cl_fs lb)"
    and resolve: "resolveStartupOptions lb options path (Inr c) requested flags env = Inr out" "path \<noteq> []" "\<not> flags ''cmd''"
    and launch: "so_workspaceID out \<noteq> []" "getwd_ok now"
      "RevalidateDirectory now (so_workspaceRoot out) (so_workingDirectory out) = Inr directory"
  shows "\<exists>w \<in> set (fl_Workspaces c). \<exists>p \<in> set (fl_Profiles c).
    df_ID w = so_workspaceID out \<and> within (df_Root w) directory \<and> fs_IsDir now directory = Some True \<and>
    lp_ID p = so_profileID out \<and> so_command out = lp_Executable p # lp_Args p \<and>
    (\<forall>v \<in> set (so_environment out). \<exists>n \<in> set (lp_EnvironmentAllowlist p). map_option (\<lambda>x. n @ ''='' @ x) (env n) = Some v)"
proof -
  obtain r where r: "registry_ok r" "fl_Workspaces c = wr_definitions r" using Load_config_ok [OF load] by blast
  obtain p where p: "p \<in> set (fl_Profiles c)" "so_profileID out = lp_ID p" "so_workspaceID out = lp_WorkspaceID p"
    "so_command out = lp_Executable p # lp_Args p"
    "so_environment out = resolveEnvironment (lp_EnvironmentAllowlist p) env"
    "lp_WorkspaceID p \<noteq> [] \<longrightarrow> (\<exists>w. Workspace_of c (lp_WorkspaceID p) = Some w \<and> so_workspaceRoot out = df_Root w)"
    using resolved_profile [OF resolve] by blast
  then obtain w where "Lookup r (so_workspaceID out) = Some w" and root: "so_workspaceRoot out = df_Root w"
    using launch(1) Workspace_of_Lookup [OF r] by metis
  then have w: "w \<in> set (fl_Workspaces c)" "df_ID w = so_workspaceID out" "rooted (df_Root w)"
    using r unfolding registry_ok_def Lookup_def by auto
  have "\<exists>n \<in> set (lp_EnvironmentAllowlist p). map_option (\<lambda>x. n @ ''='' @ x) (env n) = Some v"
    if "v \<in> set (so_environment out)" for v
    using that p(5) by (force simp: resolveEnvironment_def split: option.splits)
  then show ?thesis
    using RevalidateDirectory_within [OF launch(3,2)] root w(2,3) p(2,4)
    by (intro bexI [OF _ w(1)] bexI [OF _ p(1)] conjI ballI) simp_all
qed

definition example_fs :: "(string \<times> string) list \<Rightarrow> filesystem" where
  "example_fs links = \<lparr>fs_Getwd = Some ''/home'',
     fs_EvalSymlinks = (\<lambda>p. case map_of links p of None \<Rightarrow> Some p | Some q \<Rightarrow> Some q), fs_IsDir = (\<lambda>p. Some True)\<rparr>"

definition example_profile :: LaunchProfile where
  "example_profile = \<lparr>lp_ID = ''p'', lp_Label = ''P'', lp_Executable = ''sh'', lp_Args = [], lp_WorkspaceID = ''w'',
     lp_WorkingDirectory = ''in'', lp_EnvironmentAllowlist = [''LANG''], lp_ToolAdapter = [],
     lp_workspaceIDConfigured = True\<rparr>"

definition example_config :: File where
  "example_config = \<lparr>fl_Version = 2, fl_ListenAddress = [], fl_WebDirectory = [], fl_ReconnectTimeout = [],
     fl_IdleTimeout = [], fl_Workspaces = [\<lparr>df_ID = ''w'', df_Label = ''W'', df_Root = ''/ws''\<rparr>],
     fl_DefaultProfile = ''p'', fl_Profiles = [example_profile], fl_RelayURL = [], fl_workspacesConfigured = True\<rparr>"

definition example_loaded :: File where
  "example_loaded = example_config\<lparr>fl_Profiles :=
     [example_profile\<lparr>lp_WorkingDirectory := ''/ws/in'', lp_ToolAdapter := Generic\<rparr>]\<rparr>"

definition example_config_libs :: config_libs where
  "example_config_libs = \<lparr>cl_fs = example_fs [], cl_ParseDuration = (\<lambda>_. None), cl_Decode = (\<lambda>_. Some (example_config, [])),
     cl_Trailing = (\<lambda>_. False), cl_Presence = (\<lambda>_. Some (True, [True]))\<rparr>"

definition example_options :: startupOptions where
  "example_options = \<lparr>so_addr = [], so_webDir = [], so_commandLine = [], so_command = [], so_workingDirectory = [],
     so_environment = [], so_reconnectTimeout = 0, so_idleTimeout = 0, so_profileID = [], so_workspaceID = [],
     so_workspaceRoot = [], so_toolAdapter = [], so_relayURL = []\<rparr>"

definition example_resolved :: startupOptions where
  "example_resolved = example_options\<lparr>so_profileID := ''p'', so_workspaceID := ''w'', so_workspaceRoot := ''/ws'',
     so_command := [''sh''], so_workingDirectory := ''/ws/in'', so_environment := [''LANG=C''], so_toolAdapter := Generic\<rparr>"

lemmas example_config_defs = example_fs_def example_profile_def example_config_def example_loaded_def
  example_config_libs_def example_options_def example_resolved_def

lemma example_texts [simp]:
  "TrimSpace ''w'' = ''w''" "TrimSpace ''W'' = ''W''" "TrimSpace ''p'' = ''p''" "TrimSpace ''P'' = ''P''" "TrimSpace ''sh'' = ''sh''"
  "TrimSpace [] = []" "idPattern ''w''" "idPattern ''p''" "environmentNamePattern ''LANG''"
  by (simp_all add: graphic_string(1) graphic_def idPattern_def id_start_def environmentNamePattern_def letter_def)

lemma example_directories [simp]:
  "canonicalDirectory (example_fs []) ''/ws'' [] = Inr ''/ws''"
  "canonicalDirectory (example_fs []) ''/ws/in'' [] = Inr ''/ws/in''"
  "path_string (path_Join ''/ws'' ''in'') = ''/ws/in''" "rooted ''in'' = False"
  "containsCanonicalPath ''/ws'' ''/ws/in''"
  by code_simp+

lemma example_validates: "validate_config example_config_libs [] example_config = Inr example_loaded"
proof -
  let ?w = "\<lparr>df_ID = ''w'', df_Label = ''W'', df_Root = ''/ws''\<rparr>"
  let ?r = "\<lparr>wr_definitions = [?w], wr_byID = [''w'' \<mapsto> ?w]\<rparr>"
  have "NewRegistry (example_fs []) [?w] [] = Inr ?r" by (simp add: NewRegistry_def Let_def)
  moreover have "profile_directory example_config_libs [] ?r (example_profile\<lparr>lp_ToolAdapter := Generic\<rparr>) = Inr ''/ws/in''"
    by (simp add: profile_directory_def ResolveDirectory_def Lookup_def example_config_libs_def example_profile_def)
  then have "validate_profile example_config_libs [] ?r example_profile =
      Inr (example_profile\<lparr>lp_WorkingDirectory := ''/ws/in'', lp_ToolAdapter := Generic\<rparr>)"
    by (simp add: validate_profile_def example_profile_def IsSupported_def)
  ultimately show ?thesis
    by (simp add: validate_config_def validateDuration_def example_config_def example_loaded_def)
       (simp add: example_config_libs_def example_profile_def)
qed

lemma example_loads: "Load_config example_config_libs [] (Some []) = Inr example_loaded"
proof -
  have "cl_Decode example_config_libs [] = Some (example_config, [])" "\<not> cl_Trailing example_config_libs []"
    "markWorkspaceFieldPresence example_config_libs [] example_config = Some example_config"
    by (simp_all add: example_config_libs_def example_config_def example_profile_def markWorkspaceFieldPresence_def)
  then show ?thesis using example_validates by (simp add: Load_config_def)
qed

lemma example_resolves:
  "resolveStartupOptions example_config_libs example_options ''c'' (Inr example_loaded) [] (\<lambda>_. False)
     (\<lambda>n. if n = ''LANG'' then Some ''C'' else None) = Inr example_resolved"
  by code_simp

lemma example_revalidates:
  "RevalidateDirectory (example_fs [(''/ws/in'', ''/ws/out/deep'')]) ''/ws'' ''/ws/in'' = Inr ''/ws/out/deep''"
  "RevalidateDirectory (example_fs [(''/ws/in'', ''/wsx'')]) ''/ws'' ''/ws/in'' = Inl DirectoryOutside"
  "RevalidateDirectory (example_fs [(''/ws'', ''/etc'')]) ''/ws'' ''/ws/in'' = Inl RootChanged"
  by code_simp+

theorem launch_confined_witness:
  "\<exists>w \<in> set (fl_Workspaces example_loaded). \<exists>p \<in> set (fl_Profiles example_loaded).
    df_ID w = ''w'' \<and> within (df_Root w) ''/ws/out/deep'' \<and> lp_ID p = ''p'' \<and>
    (\<exists>n \<in> set (lp_EnvironmentAllowlist p).
       map_option (\<lambda>x. n @ ''='' @ x) (if n = ''LANG'' then Some ''C'' else None) = Some ''LANG=C'')"
proof -
  have wd: "getwd_ok (example_fs l)" for l by (simp add: getwd_ok_def example_fs_def rooted_def)
  have out: "so_workspaceID example_resolved = ''w''" "so_workspaceRoot example_resolved = ''/ws''"
    "so_workingDirectory example_resolved = ''/ws/in''" "so_profileID example_resolved = ''p''"
    "so_environment example_resolved = [''LANG=C'']" by (simp_all add: example_resolved_def)
  have "RevalidateDirectory (example_fs [(''/ws/in'', ''/ws/out/deep'')]) (so_workspaceRoot example_resolved)
      (so_workingDirectory example_resolved) = Inr ''/ws/out/deep''"
    unfolding out by (rule example_revalidates)
  then show ?thesis
    using launch_confined [OF example_loads _ example_resolves _ _ _ wd] wd
    unfolding out by (fastforce simp: example_config_libs_def)
qed

end
