(* ===== verification/Relay_Client.thy ===== *)
theory Relay_Client
  imports Relay_Server "HOL-Library.Sublist"
begin

text \<open>
  The agent's side of the relay (\<^verbatim>\<open>src/internal/relayclient\<close>): dialing with a ticket, the stream over
  the connection (\<^verbatim>\<open>client.go\<close>), the bridge between a stream and a local WebSocket (\<^verbatim>\<open>wsbridge.go\<close>,
  \<^verbatim>\<open>bridge.go\<close>), the issuer key (\<^verbatim>\<open>issuer.go\<close>) and the manager of routes (\<^verbatim>\<open>manager.go\<close>). A goroutine is
  the phase it has reached; each definition is one atomic step of one, and where a \<^verbatim>\<open>select\<close> may take
  either branch an argument decides. What the WebSocket library returns is an argument of the step.
  The fields \<open>st_got\<close>, \<open>st_taken\<close>, \<open>st_wire\<close>, \<open>br_localIn\<close> and \<open>br_localOut\<close> are histories.
\<close>

section \<open>Dialing\<close>

definition DefaultDialTimeout :: duration where "DefaultDialTimeout = 15 * second"
definition DefaultWriteTimeout :: duration where "DefaultWriteTimeout = 5 * second"
definition MaxFrameBytes :: nat where "MaxFrameBytes = 1024 * 1024"
abbreviation (input) readPumpBuffer :: nat where "readPumpBuffer \<equiv> 4"

record Dialer =
  di_DialTimeout :: duration
  di_WriteTimeout :: duration

datatype dial_error = DialNilTicket | DialNoRoute | DialEncode | DialTicketLarge | DialRelay | DialSend

text \<open>\<^verbatim>\<open>binary.BigEndian.PutUint32\<close>.\<close>

definition PutUint32 :: "u32 \<Rightarrow> bytes" where
  "PutUint32 w = map (\<lambda>i. ucast (drop_bit (8 * i) w)) [3, 2, 1, 0]"

definition ticket_frame :: "ticket_crypto \<Rightarrow> RelayTicket option \<Rightarrow> dial_error + bytes" where
  "ticket_frame cr ticket =
     (case ticket of
        None \<Rightarrow> Inl DialNilTicket
      | Some t \<Rightarrow>
          (if rt_RouteId t = [] then Inl DialNoRoute
           else case marshal_ticket cr t of
             None \<Rightarrow> Inl DialEncode
           | Some encoded \<Rightarrow>
               (if length encoded > MaxFrameBytes then Inl DialTicketLarge
                else Inr (PutUint32 (of_nat (length encoded)) @ encoded))))"

section \<open>The stream\<close>

text \<open>\<open>ConnError\<close> is an error of the connection; its argument says whether the relay expects it.\<close>

datatype stream_error = EOF | ErrClosedPipe | ErrFrameTooLarge | ConnError bool | NonBinaryFrame | FrameExceedsLimit

datatype frameDelivery = Payload bytes | Failure stream_error

datatype pump_next = NextRead | NextReturn | NextClose stream_error

datatype pump = PumpRead | PumpSelect frameDelivery pump_next | PumpReturned

record Stream =
  st_writeWait :: duration
  st_readCh :: "frameDelivery list"
  st_closed :: bool
  st_closeErr :: "stream_error option"
  st_pump :: pump
  st_got :: "read_result list"
  st_taken :: "frameDelivery list"
  st_wire :: "bytes list"

text \<open>
  \<open>connects\<close> and \<open>sends\<close> say whether the upgrade and the first write succeed within the time they are
  given.
\<close>

definition Dial ::
    "ticket_crypto \<Rightarrow> Dialer \<Rightarrow> RelayTicket option \<Rightarrow> (duration \<Rightarrow> bool) \<Rightarrow> (duration \<Rightarrow> bool) \<Rightarrow> dial_error + Stream" where
  "Dial cr d ticket connects sends =
     (case ticket_frame cr ticket of
        Inl e \<Rightarrow> Inl e
      | Inr frame \<Rightarrow>
          (let dialTimeout = (if di_DialTimeout d \<le> 0 then DefaultDialTimeout else di_DialTimeout d);
               writeTimeout = (if di_WriteTimeout d \<le> 0 then DefaultWriteTimeout else di_WriteTimeout d)
           in if \<not> connects dialTimeout then Inl DialRelay
              else if \<not> sends dialTimeout then Inl DialSend
              else Inr \<lparr>st_writeWait = writeTimeout, st_readCh = [], st_closed = False, st_closeErr = None,
                        st_pump = PumpRead, st_got = [], st_taken = [], st_wire = [frame]\<rparr>))"

definition markClosed :: "stream_error \<Rightarrow> Stream \<Rightarrow> Stream" where
  "markClosed err s = (if st_closed s then s else s\<lparr>st_closed := True, st_closeErr := Some err\<rparr>)"

text \<open>\<open>connErr\<close> is what closing the connection returns.\<close>

definition Close_stream :: "stream_error option \<Rightarrow> Stream \<Rightarrow> Stream \<times> stream_error option" where
  "Close_stream connErr s =
     (let s1 = (if st_closed s then s else s\<lparr>st_closed := True, st_closeErr := connErr\<rparr>) in (s1, st_closeErr s1))"

text \<open>What \<^verbatim>\<open>Read\<close> makes of a delivery with a buffer of \<open>n\<close> bytes.\<close>

definition deliver :: "nat \<Rightarrow> frameDelivery \<Rightarrow> stream_error + bytes" where
  "deliver n d =
     (case d of Failure e \<Rightarrow> Inl e | Payload p \<Rightarrow> (if length p > n then Inl ErrFrameTooLarge else Inr p))"

text \<open>\<open>None\<close> is a call that blocks. The channel itself is never closed.\<close>

definition Read_stream :: "bool \<Rightarrow> nat \<Rightarrow> Stream \<Rightarrow> (Stream \<times> (stream_error + bytes)) option" where
  "Read_stream takeClosed n s =
     (if n = 0 then Some (s, Inr [])
      else if st_closed s \<and> (takeClosed \<or> st_readCh s = []) then Some (s, Inl ErrClosedPipe)
      else case st_readCh s of
        [] \<Rightarrow> None
      | d # ds \<Rightarrow> Some (s\<lparr>st_readCh := ds, st_taken := st_taken s @ [d]\<rparr>, deliver n d))"

definition Write_stream :: "bytes \<Rightarrow> stream_error option \<Rightarrow> Stream \<Rightarrow> Stream \<times> (stream_error + nat)" where
  "Write_stream p connErr s =
     (if p = [] then (s, Inr 0)
      else if length p > MaxFrameBytes then (s, Inl FrameExceedsLimit)
      else if st_closed s then (s, Inl ErrClosedPipe)
      else case connErr of
        Some e \<Rightarrow> (markClosed e s, Inl e)
      | None \<Rightarrow> (s\<lparr>st_wire := st_wire s @ [p]\<rparr>, Inr (length p)))"

subsection \<open>The read pump\<close>

definition pump_of :: "read_result \<Rightarrow> pump" where
  "pump_of r =
     (case r of
        ReadFailed e \<Rightarrow> PumpSelect (Failure (ConnError e)) NextReturn
      | ReadFrame messageType payload \<Rightarrow>
          (if messageType \<noteq> BinaryMessage then PumpSelect (Failure NonBinaryFrame) (NextClose NonBinaryFrame)
           else if length payload > MaxFrameBytes then PumpSelect (Failure FrameExceedsLimit) (NextClose FrameExceedsLimit)
           else PumpSelect (Payload payload) NextRead))"

definition pump_message :: "read_result \<Rightarrow> Stream \<Rightarrow> Stream" where
  "pump_message r s = s\<lparr>st_pump := pump_of r, st_got := st_got s @ [r]\<rparr>"

definition pump_after :: "bool \<Rightarrow> pump_next \<Rightarrow> Stream \<Rightarrow> Stream" where
  "pump_after delivered n s =
     (case n of
        NextRead \<Rightarrow> s\<lparr>st_pump := (if delivered then PumpRead else PumpReturned)\<rparr>
      | NextReturn \<Rightarrow> s\<lparr>st_pump := PumpReturned\<rparr>
      | NextClose e \<Rightarrow> (markClosed e s)\<lparr>st_pump := PumpReturned\<rparr>)"

definition pump_select :: "bool \<Rightarrow> frameDelivery \<Rightarrow> pump_next \<Rightarrow> Stream \<Rightarrow> Stream option" where
  "pump_select takeClosed d n s =
     (if st_closed s \<and> (takeClosed \<or> length (st_readCh s) \<ge> readPumpBuffer) then Some (pump_after False n s)
      else if length (st_readCh s) < readPumpBuffer
      then Some (pump_after True n (s\<lparr>st_readCh := st_readCh s @ [d]\<rparr>))
      else None)"

section \<open>The bridge\<close>

text \<open>The errors the two goroutines of a bridge report, and what the bridge returns.\<close>

datatype bridge_error = Plain stream_error | LocalRead | RemoteWrite stream_error | RemoteRead stream_error | LocalWrite

definition isBenignClose :: "bridge_error option \<Rightarrow> bool" where
  "isBenignClose err \<longleftrightarrow> err = None \<or> err = Some (Plain EOF) \<or> err = Some (Plain ErrClosedPipe)"

definition first_error :: "bridge_error option list \<Rightarrow> bridge_error option" where
  "first_error errs = (case filter (\<lambda>e. \<not> isBenignClose e) errs of [] \<Rightarrow> None | e # _ \<Rightarrow> e)"

datatype outbound = OutRead | OutWrite bytes | OutDone bridge_error
datatype inbound = InRead | InWrite bytes | InDone bridge_error

record bridge =
  br_stream :: Stream
  br_localOpen :: bool
  br_localIn :: "read_result list"
  br_localOut :: "bytes list"
  br_out :: outbound
  br_in :: inbound

definition BridgeWebSocket :: "Stream \<Rightarrow> bridge" where
  "BridgeWebSocket s =
     \<lparr>br_stream = s, br_localOpen = True, br_localIn = [], br_localOut = [], br_out = OutRead, br_in = InRead\<rparr>"

definition out_read :: "read_result \<Rightarrow> stream_error option \<Rightarrow> bridge \<Rightarrow> bridge" where
  "out_read r closeErr b =
     (let b = b\<lparr>br_localIn := br_localIn b @ [r]\<rparr> in
      case r of
        ReadFailed _ \<Rightarrow> b\<lparr>br_out := OutDone LocalRead, br_stream := fst (Close_stream closeErr (br_stream b))\<rparr>
      | ReadFrame messageType payload \<Rightarrow>
          (if messageType \<noteq> BinaryMessage then b else b\<lparr>br_out := OutWrite payload\<rparr>))"

definition out_write :: "bytes \<Rightarrow> stream_error option \<Rightarrow> bridge \<Rightarrow> bridge" where
  "out_write payload connErr b =
     (case Write_stream payload connErr (br_stream b) of
        (s, Inl e) \<Rightarrow> b\<lparr>br_stream := s, br_out := OutDone (RemoteWrite e), br_localOpen := False\<rparr>
      | (s, Inr _) \<Rightarrow> b\<lparr>br_stream := s, br_out := OutRead\<rparr>)"

definition in_read :: "bool \<Rightarrow> bridge \<Rightarrow> bridge option" where
  "in_read takeClosed b =
     (case Read_stream takeClosed MaxFrameBytes (br_stream b) of
        None \<Rightarrow> None
      | Some (s, Inl e) \<Rightarrow> Some (b\<lparr>br_stream := s, br_in := InDone (RemoteRead e), br_localOpen := False\<rparr>)
      | Some (s, Inr p) \<Rightarrow> Some (b\<lparr>br_stream := s, br_in := InWrite p\<rparr>))"

definition in_write :: "bytes \<Rightarrow> bool \<Rightarrow> stream_error option \<Rightarrow> bridge \<Rightarrow> bridge" where
  "in_write payload written0 closeErr b =
     (if written0 then b\<lparr>br_localOut := br_localOut b @ [payload], br_in := InRead\<rparr>
      else b\<lparr>br_in := InDone LocalWrite, br_stream := fst (Close_stream closeErr (br_stream b))\<rparr>)"

text \<open>
  The interleavings of the two goroutines and the read pump. A connection may return frames that
  arrived before it was closed.
\<close>

inductive bridge_step :: "bridge \<Rightarrow> bridge \<Rightarrow> bool" where
  step_out_read: "br_out b = OutRead \<Longrightarrow> bridge_step b (out_read r closeErr b)"
| step_out_write: "br_out b = OutWrite p \<Longrightarrow> bridge_step b (out_write p connErr b)"
| step_in_read: "br_in b = InRead \<Longrightarrow> in_read takeClosed b = Some b' \<Longrightarrow> bridge_step b b'"
| step_in_write: "br_in b = InWrite p \<Longrightarrow> bridge_step b (in_write p ok closeErr b)"
| step_pump_read: "st_pump (br_stream b) = PumpRead \<Longrightarrow>
    bridge_step b (b\<lparr>br_stream := pump_message r (br_stream b)\<rparr>)"
| step_pump_select: "st_pump (br_stream b) = PumpSelect d n \<Longrightarrow> pump_select takeClosed d n (br_stream b) = Some s \<Longrightarrow>
    bridge_step b (b\<lparr>br_stream := s\<rparr>)"

definition bridge_errors :: "bridge \<Rightarrow> bridge_error option list option" where
  "bridge_errors b =
     (case (br_out b, br_in b) of (OutDone e, InDone f) \<Rightarrow> Some [Some e, Some f] | _ \<Rightarrow> None)"

text \<open>
  What \<^verbatim>\<open>BridgeWebSocket\<close> returns once both goroutines have ended; \<open>outFirst\<close> says whose error reached the
  channel first. The outer option is the return.
\<close>

definition bridge_result :: "bool \<Rightarrow> bridge \<Rightarrow> bridge_error option option" where
  "bridge_result outFirst b =
     map_option (\<lambda>errs. first_error (if outFirst then errs else rev errs)) (bridge_errors b)"

section \<open>The manager of routes\<close>

definition DefaultTicketLifetime :: duration where "DefaultTicketLifetime = 5 * minute"

record ManagerConfig =
  mc_RelayURL :: string
  mc_Issuer :: "Issuer option"
  mc_AgentID :: bytes
  mc_RevocationEpoch :: u64
  mc_TicketLifetime :: duration

text \<open>
  Contexts have numbers. \<open>rm_running\<close> has the calls of \<^verbatim>\<open>Connect\<close> and \<^verbatim>\<open>ConnectWebSocket\<close> that have
  registered and not yet returned, \<open>rm_cancelled\<close> the cancelled contexts; \<open>rm_minted\<close> and \<open>rm_dialed\<close> are
  histories.
\<close>

record Manager =
  rm_config :: ManagerConfig
  rm_pending :: "string \<rightharpoonup> RelayTicket"
  rm_active :: "string \<rightharpoonup> nat"
  rm_running :: "nat \<rightharpoonup> string"
  rm_cancelled :: "nat set"
  rm_next :: nat
  rm_minted :: "(string \<times> RelayTicket) list"
  rm_dialed :: "(string \<times> RelayTicket) list"

datatype manager_error =
    ManagerURL | ManagerIssuer | ManagerAgentID | ManagerClientID | ManagerRandom | ManagerMint ticket_error
  | NoPendingTicket | AlreadyConnected

definition NewManager :: "ManagerConfig \<Rightarrow> manager_error + Manager" where
  "NewManager config =
     (if mc_RelayURL config = [] then Inl ManagerURL
      else if mc_Issuer config = None then Inl ManagerIssuer
      else if length (mc_AgentID config) \<noteq> 16 then Inl ManagerAgentID
      else
        let lifetime = (if mc_TicketLifetime config \<le> 0 then DefaultTicketLifetime else mc_TicketLifetime config)
        in Inr \<lparr>rm_config = config\<lparr>mc_TicketLifetime := lifetime\<rparr>, rm_pending = Map.empty, rm_active = Map.empty,
                rm_running = Map.empty, rm_cancelled = {}, rm_next = 0, rm_minted = [], rm_dialed = []\<rparr>)"

definition Provision ::
    "ticket_crypto \<Rightarrow> bytes \<Rightarrow> random \<Rightarrow> time \<times> random \<times> random \<Rightarrow> time \<times> random \<times> random \<Rightarrow> Manager \<Rightarrow>
     Manager \<times> (manager_error + RelayTicket \<times> string)" where
  "Provision cr clientDeviceID rroute call1 call2 m =
     (if length clientDeviceID \<noteq> 16 then (m, Inl ManagerClientID)
      else case rroute 16 of
        None \<Rightarrow> (m, Inl ManagerRandom)
      | Some routeID \<Rightarrow>
          (let routeIDHex = EncodeToString routeID; config = rm_config m in
           case Pair_tickets cr (mc_Issuer config)
               \<lparr>pi_RouteID = routeID, pi_AgentID = mc_AgentID config, pi_ClientID = clientDeviceID,
                pi_Lifetime = mc_TicketLifetime config, pi_MaxConnections = 1, pi_IssuedAt = zero_time,
                pi_IssuerEpoch = mc_RevocationEpoch config\<rparr> call1 call2 of
             Inl e \<Rightarrow> (m, Inl (ManagerMint e))
           | Inr (agentTicket, clientTicket) \<Rightarrow>
               (m\<lparr>rm_pending := (rm_pending m)(routeIDHex \<mapsto> agentTicket),
                  rm_minted := rm_minted m @ [(routeIDHex, agentTicket)]\<rparr>,
                Inr (clientTicket, routeIDHex))))"

text \<open>The part of \<^verbatim>\<open>Connect\<close> and \<^verbatim>\<open>ConnectWebSocket\<close> under the lock, with the ticket they then dial with.\<close>

definition connect_begin :: "string \<Rightarrow> Manager \<Rightarrow> Manager \<times> (manager_error + nat \<times> RelayTicket)" where
  "connect_begin routeIDHex m =
     (case rm_pending m routeIDHex of
        None \<Rightarrow> (m, Inl NoPendingTicket)
      | Some agentTicket \<Rightarrow>
          (let m1 = m\<lparr>rm_pending := (rm_pending m)(routeIDHex := None)\<rparr> in
           if rm_active m1 routeIDHex \<noteq> None then (m1, Inl AlreadyConnected)
           else
             (m1\<lparr>rm_active := (rm_active m1)(routeIDHex \<mapsto> rm_next m1),
                 rm_running := (rm_running m1)(rm_next m1 \<mapsto> routeIDHex), rm_next := rm_next m1 + 1,
                 rm_dialed := rm_dialed m1 @ [(routeIDHex, agentTicket)]\<rparr>,
              Inr (rm_next m1, agentTicket))))"

text \<open>What \<^verbatim>\<open>ConnectWebSocket\<close> does next: it dials and bridges the stream, which it closes afterwards.\<close>

definition connect_dial ::
    "ticket_crypto \<Rightarrow> Dialer \<Rightarrow> RelayTicket \<Rightarrow> (duration \<Rightarrow> bool) \<Rightarrow> (duration \<Rightarrow> bool) \<Rightarrow> dial_error + bridge" where
  "connect_dial cr d agentTicket connects sends =
     (case Dial cr d (Some agentTicket) connects sends of Inl e \<Rightarrow> Inl e | Inr stream \<Rightarrow> Inr (BridgeWebSocket stream))"

definition connect_end :: "nat \<Rightarrow> string \<Rightarrow> Manager \<Rightarrow> Manager" where
  "connect_end c routeIDHex m =
     m\<lparr>rm_cancelled := insert c (rm_cancelled m), rm_running := (rm_running m)(c := None),
       rm_active := (rm_active m)(routeIDHex := None)\<rparr>"

definition CancelRoute :: "string \<Rightarrow> Manager \<Rightarrow> Manager" where
  "CancelRoute routeIDHex m =
     (case rm_active m routeIDHex of None \<Rightarrow> m | Some c \<Rightarrow> m\<lparr>rm_cancelled := insert c (rm_cancelled m)\<rparr>)"

definition Close_manager :: "Manager \<Rightarrow> Manager" where
  "Close_manager m =
     m\<lparr>rm_cancelled := rm_cancelled m \<union> ran (rm_active m), rm_active := Map.empty, rm_pending := Map.empty\<rparr>"

definition ActiveRoutes :: "Manager \<Rightarrow> string set" where "ActiveRoutes m = dom (rm_active m)"
definition PendingRoutes :: "Manager \<Rightarrow> string set" where "PendingRoutes m = dom (rm_pending m)"

inductive manager_step :: "ticket_crypto \<Rightarrow> Manager \<Rightarrow> Manager \<Rightarrow> bool" for cr where
  step_provision: "manager_step cr m (fst (Provision cr clientDeviceID rroute call1 call2 m))"
| step_connect: "manager_step cr m (fst (connect_begin route m))"
| step_return: "rm_running m c = Some route \<Longrightarrow> manager_step cr m (connect_end c route m)"
| step_cancel_route: "manager_step cr m (CancelRoute route m)"
| step_close_manager: "manager_step cr m (Close_manager m)"

section \<open>The issuer key\<close>

text \<open>
  \<open>read\<close> is what reading the file returns: the content, or an error and whether it says that the file
  does not exist. The result is the issuer and the content to be found in the file afterwards.
\<close>

datatype issuer_error = IssuerPath | IssuerResolve | IssuerSize | IssuerRead | IssuerGenerate | IssuerWrite | IssuerKeyError ticket_error

definition LoadOrCreateIssuer ::
    "ticket_crypto \<Rightarrow> string \<Rightarrow> bool \<Rightarrow> bool + bytes \<Rightarrow> bytes option \<Rightarrow> bool \<Rightarrow> (issuer_error + Issuer) \<times> bytes option" where
  "LoadOrCreateIssuer cr path resolves content generated writes =
     (if path = [] then (Inl IssuerPath, None)
      else if \<not> (hd path = CHR ''/'') \<and> \<not> resolves then (Inl IssuerResolve, None)
      else
        let new = (\<lambda>key. case NewIssuer cr key of Inl e \<Rightarrow> Inl (IssuerKeyError e) | Inr i \<Rightarrow> Inr i) in
        case content of
          Inr raw \<Rightarrow> (if length raw \<noteq> ed25519_PrivateKeySize then Inl IssuerSize else new raw, Some raw)
        | Inl isNotExist \<Rightarrow>
            (if \<not> isNotExist then (Inl IssuerRead, None)
             else case generated of
               None \<Rightarrow> (Inl IssuerGenerate, None)
             | Some priv \<Rightarrow> (if \<not> writes then (Inl IssuerWrite, None) else (new priv, Some priv))))"

definition IssuerPublicKeyHex :: "Issuer option \<Rightarrow> string" where
  "IssuerPublicKeyHex issuer = (case issuer of None \<Rightarrow> [] | Some i \<Rightarrow> EncodeToString (is_PublicKey i))"

section \<open>The first frame\<close>

lemma Uint32_PutUint32: "Uint32 (PutUint32 w @ xs) = w"
proof -
  let ?x = "uint w"
  have "?x = ?x div 256 * 256 + ?x mod 256" "?x div 256 = ?x div 65536 * 256 + ?x div 256 mod 256"
    "?x div 65536 = ?x div 16777216 * 256 + ?x div 65536 mod 256"
    using div_mult_mod_eq [of "?x div 256" 256] div_mult_mod_eq [of "?x div 65536" 256]
    by (simp_all flip: zdiv_zmult2_eq)
  moreover have "?x div 16777216 mod 256 = ?x div 16777216"
    using uint_lt2p [of w] by (intro mod_pos_pos_trivial) (simp_all add: pos_imp_zdiv_nonneg_iff div_less_iff_less_mult)
  ultimately have "?x = ?x div 16777216 mod 256 * 16777216 + ?x div 65536 mod 256 * 65536 + ?x div 256 mod 256 * 256 + ?x mod 256"
    by linarith
  then have "(word_of_int ?x :: u32) =
      word_of_int (?x div 16777216 mod 256 * 16777216 + ?x div 65536 mod 256 * 65536 + ?x div 256 mod 256 * 256 + ?x mod 256)"
    by (rule arg_cong)
  then have "w = word_rcat (PutUint32 w)"
    by (simp add: word_rcat_def PutUint32_def unsigned_ucast_eq unsigned_drop_bit_eq drop_bit_eq_div take_bit_eq_mod uint_div)
       (simp add: algebra_simps)
  then show ?thesis by (simp add: Uint32_def PutUint32_def)
qed

lemma length_PutUint32 [simp]: "length (PutUint32 w) = 4"
  by (simp add: PutUint32_def)

lemma ticket_frame_read:
  assumes "ticket_frame cr (Some t) = Inr frame" "marshal_ticket cr t = Some encoded" "length encoded \<le> maxTicketBytes"
  shows "readTicket unmarshal (ReadFrame BinaryMessage frame) =
    (case unmarshal encoded of None \<Rightarrow> Inl TicketDecode | Some ticket \<Rightarrow> Inr ticket)"
proof -
  have len: "length encoded \<le> 8192" using assms(3) by (simp add: maxTicketBytes_def)
  have frame: "frame = PutUint32 (of_nat (length encoded)) @ encoded"
    using assms(1,2) by (auto simp: ticket_frame_def split: if_splits)
  have n: "unat (of_nat (length encoded) :: u32) = length encoded" "unat (4 + of_nat (length encoded) :: u32) = 4 + length encoded"
    using len by (simp_all add: unat_of_nat unat_word_ariths)
  show ?thesis
    unfolding readTicket_def frame using n len
    by (simp add: Uint32_PutUint32 Let_def maxTicketBytes_def)
qed

section \<open>The bridge preserves messages\<close>

definition binary_payloads :: "read_result list \<Rightarrow> bytes list" where
  "binary_payloads rs = concat (map (\<lambda>r. case r of ReadFrame t p \<Rightarrow> (if t = BinaryMessage then [p] else []) | _ \<Rightarrow> []) rs)"

lemma binary_payloads_simps [simp]:
  "binary_payloads [] = []" "binary_payloads (rs @ rs') = binary_payloads rs @ binary_payloads rs'"
  "binary_payloads [ReadFailed e] = []" "binary_payloads [ReadFrame t p] = (if t = BinaryMessage then [p] else [])"
  by (simp_all add: binary_payloads_def)

text \<open>The delivery the pump makes of a message, and the messages after which it goes on.\<close>

definition delivery :: "read_result \<Rightarrow> frameDelivery" where
  "delivery r = (case pump_of r of PumpSelect d _ \<Rightarrow> d | _ \<Rightarrow> Failure EOF)"

definition held :: "pump \<Rightarrow> frameDelivery list" where
  "held p = (case p of PumpSelect d _ \<Rightarrow> [d] | _ \<Rightarrow> [])"

text \<open>
  Nothing the pump read is lost, repeated or reordered on its way to the reader as long as the stream
  is open; afterwards what is left is still in order.
\<close>

definition stream_ok :: "Stream \<Rightarrow> bool" where
  "stream_ok s \<longleftrightarrow>
     prefix (st_taken s @ st_readCh s @ held (st_pump s)) (map delivery (st_got s)) \<and>
     (\<not> st_closed s \<longrightarrow> st_taken s @ st_readCh s @ held (st_pump s) = map delivery (st_got s)) \<and>
     length (st_readCh s) \<le> readPumpBuffer \<and>
     (st_pump s \<noteq> PumpReturned \<longrightarrow> st_taken s @ st_readCh s @ held (st_pump s) = map delivery (st_got s)) \<and>
     (\<forall>d n. st_pump s = PumpSelect d n \<longrightarrow> (n = NextRead \<longleftrightarrow> (\<exists>p. d = Payload p)))"

lemma delivery_Payload: "delivery r = Payload p \<longleftrightarrow> r = ReadFrame BinaryMessage p \<and> length p \<le> MaxFrameBytes"
  by (cases r) (auto simp: delivery_def pump_of_def)

lemma pump_of_held: "held (pump_of r) = [delivery r]" "\<exists>n. pump_of r = PumpSelect (delivery r) n"
  by (cases r; simp add: delivery_def pump_of_def held_def)+

lemma pump_of_next: "pump_of r = PumpSelect d n \<Longrightarrow> n = NextRead \<longleftrightarrow> (\<exists>p. d = Payload p)"
  by (cases r) (auto simp: pump_of_def split: if_splits)

lemma deliveries_payloads: "map delivery rs = map Payload ps \<Longrightarrow> binary_payloads rs = ps"
proof (induction rs arbitrary: ps)
  case (Cons r rs)
  then obtain p ps' where "ps = p # ps'" "delivery r = Payload p" "map delivery rs = map Payload ps'" by (cases ps) auto
  then show ?case using Cons.IH [of ps'] by (simp add: delivery_Payload binary_payloads_def)
qed simp

lemma deliveries_prefix:
  assumes "prefix (map Payload ps) (map delivery rs)"
  shows "prefix ps (binary_payloads rs)"
proof -
  obtain zs where zs: "map delivery rs = map Payload ps @ zs" using assms by (auto simp: prefix_def)
  then have "map delivery (take (length ps) rs) = map Payload ps" by (simp add: take_map [symmetric])
  then have "binary_payloads (take (length ps) rs) = ps" by (rule deliveries_payloads)
  then have "binary_payloads rs = ps @ binary_payloads (drop (length ps) rs)"
    using binary_payloads_simps(2) [of "take (length ps) rs" "drop (length ps) rs"] by simp
  then show ?thesis by simp
qed

lemma Dial_Inr:
  "Dial cr d t connects sends = Inr s \<Longrightarrow> stream_ok s \<and> st_taken s = [] \<and> (\<exists>frame. ticket_frame cr t = Inr frame \<and> st_wire s = [frame])"
  by (auto simp: Dial_def Let_def stream_ok_def held_def split: sum.splits if_splits)

lemma stream_ok_message: "stream_ok s \<Longrightarrow> st_pump s = PumpRead \<Longrightarrow> stream_ok (pump_message r s)"
  using pump_of_held [of r] pump_of_next [of r]
  by (auto simp: stream_ok_def pump_message_def held_def)

lemma stream_ok_select:
  assumes "stream_ok s" "st_pump s = PumpSelect d n" "pump_select takeClosed d n s = Some s'"
  shows "stream_ok s'"
proof -
  have eq: "st_taken s @ st_readCh s @ [d] = map delivery (st_got s)" and n: "n = NextRead \<longleftrightarrow> (\<exists>p. d = Payload p)"
    and len: "length (st_readCh s) \<le> 4" using assms(1,2) by (auto simp: stream_ok_def held_def)
  have pre: "prefix (st_taken s @ st_readCh s) (map delivery (st_got s))" using eq by (metis append_assoc prefixI)
  show ?thesis
    using assms(3) eq len pre
    by (auto simp: pump_select_def pump_after_def markClosed_def stream_ok_def held_def split: if_splits pump_next.splits)
qed

lemma stream_ok_close: "stream_ok s \<Longrightarrow> stream_ok (fst (Close_stream e s))" "stream_ok s \<Longrightarrow> stream_ok (markClosed e' s)"
  by (auto simp: stream_ok_def Close_stream_def markClosed_def Let_def)

lemma stream_ok_read: "stream_ok s \<Longrightarrow> Read_stream c n s = Some (s', r) \<Longrightarrow> stream_ok s'"
  by (auto simp: stream_ok_def Read_stream_def split: if_splits list.splits)

lemma stream_ok_write: "stream_ok s \<Longrightarrow> stream_ok (fst (Write_stream p e s))"
proof (cases e)
  case None
  then show "stream_ok s \<Longrightarrow> ?thesis" by (simp add: Write_stream_def stream_ok_def)
qed (simp add: Write_stream_def stream_ok_close(2))

lemma close_same [simp]:
  "st_taken (fst (Close_stream e s)) = st_taken s" "st_wire (fst (Close_stream e s)) = st_wire s"
  "st_taken (markClosed e' s) = st_taken s" "st_wire (markClosed e' s) = st_wire s"
  by (simp_all add: Close_stream_def markClosed_def Let_def)

lemma write_same [simp]: "st_taken (fst (Write_stream p e s)) = st_taken s"
  by (simp add: Write_stream_def split: option.splits)

lemma write_wire:
  "Write_stream p e s = (s', Inr k) \<Longrightarrow> st_wire s' = st_wire s @ filter (\<lambda>p. p \<noteq> []) [p]"
  "Write_stream p e s = (s', Inl err) \<Longrightarrow> st_wire s' = st_wire s"
  by (auto simp: Write_stream_def split: option.splits if_splits)

lemma pump_same [simp]:
  "st_taken (pump_message r s) = st_taken s" "st_wire (pump_message r s) = st_wire s"
  "pump_select c d n s = Some s' \<Longrightarrow> st_taken s' = st_taken s" "pump_select c d n s = Some s' \<Longrightarrow> st_wire s' = st_wire s"
  by (auto simp: pump_message_def pump_select_def pump_after_def split: if_splits pump_next.splits)

lemma read_taken:
  "Read_stream c MaxFrameBytes s = Some (s', Inr p) \<Longrightarrow> st_taken s' = st_taken s @ [Payload p] \<and> st_wire s' = st_wire s"
  "Read_stream c MaxFrameBytes s = Some (s', Inl e) \<Longrightarrow> prefix (st_taken s) (st_taken s') \<and> st_wire s' = st_wire s"
  by (auto simp: Read_stream_def MaxFrameBytes_def deliver_def split: if_splits list.splits frameDelivery.splits)

subsection \<open>The invariant\<close>

abbreviation (input) nonempty :: "bytes list \<Rightarrow> bytes list" where "nonempty ps \<equiv> filter (\<lambda>p. p \<noteq> []) ps"

definition inbound_ok :: "bridge \<Rightarrow> bool" where
  "inbound_ok b \<longleftrightarrow>
     (case br_in b of
        InRead \<Rightarrow> st_taken (br_stream b) = map Payload (br_localOut b)
      | InWrite p \<Rightarrow> st_taken (br_stream b) = map Payload (br_localOut b @ [p])
      | InDone e \<Rightarrow> prefix (map Payload (br_localOut b)) (st_taken (br_stream b)) \<and> e \<in> range RemoteRead \<union> {LocalWrite})"

definition outbound_ok :: "bytes \<Rightarrow> bridge \<Rightarrow> bool" where
  "outbound_ok frame b \<longleftrightarrow>
     (case br_out b of
        OutRead \<Rightarrow> st_wire (br_stream b) = frame # nonempty (binary_payloads (br_localIn b))
      | OutWrite p \<Rightarrow> (\<exists>ps. binary_payloads (br_localIn b) = ps @ [p] \<and> st_wire (br_stream b) = frame # nonempty ps)
      | OutDone e \<Rightarrow> (\<exists>ps. prefix ps (binary_payloads (br_localIn b)) \<and> st_wire (br_stream b) = frame # nonempty ps) \<and>
          e \<in> range RemoteWrite \<union> {LocalRead})"

definition bridge_ok :: "bytes \<Rightarrow> bridge \<Rightarrow> bool" where
  "bridge_ok frame b \<longleftrightarrow> stream_ok (br_stream b) \<and> inbound_ok b \<and> outbound_ok frame b"

lemma bridge_ok_start: "stream_ok s \<Longrightarrow> st_taken s = [] \<Longrightarrow> st_wire s = [frame] \<Longrightarrow> bridge_ok frame (BridgeWebSocket s)"
  by (simp add: bridge_ok_def inbound_ok_def outbound_ok_def BridgeWebSocket_def)

lemma inbound_ok_same:
  "inbound_ok b \<Longrightarrow> br_in b' = br_in b \<Longrightarrow> br_localOut b' = br_localOut b \<Longrightarrow>
   st_taken (br_stream b') = st_taken (br_stream b) \<Longrightarrow> inbound_ok b'"
  by (simp add: inbound_ok_def split: inbound.splits)

lemma outbound_ok_same:
  "outbound_ok frame b \<Longrightarrow> br_out b' = br_out b \<Longrightarrow> br_localIn b' = br_localIn b \<Longrightarrow>
   st_wire (br_stream b') = st_wire (br_stream b) \<Longrightarrow> outbound_ok frame b'"
  by (simp add: outbound_ok_def split: outbound.splits)

lemma bridge_ok_out_read:
  assumes "bridge_ok frame b" "br_out b = OutRead"
  shows "bridge_ok frame (out_read r e b)"
proof -
  have "inbound_ok (out_read r e b)"
    by (rule inbound_ok_same [of b]) (use assms(1) in \<open>auto simp: bridge_ok_def out_read_def Let_def split: read_result.splits\<close>)
  then show ?thesis
    using assms by (auto simp: bridge_ok_def outbound_ok_def out_read_def Let_def stream_ok_close split: read_result.splits)
qed

lemma bridge_ok_out_write:
  assumes "bridge_ok frame b" "br_out b = OutWrite p"
  shows "bridge_ok frame (out_write p e b)"
proof -
  obtain s' res where w: "Write_stream p e (br_stream b) = (s', res)" by force
  obtain ps where ps: "binary_payloads (br_localIn b) = ps @ [p]" "st_wire (br_stream b) = frame # nonempty ps"
    using assms by (auto simp: bridge_ok_def outbound_ok_def)
  have same: "inbound_ok (out_write p e b)"
    by (rule inbound_ok_same [of b])
       (use assms(1) w write_same [of p e "br_stream b"] in \<open>auto simp: bridge_ok_def out_write_def split: sum.splits\<close>)
  have "stream_ok s'" using stream_ok_write [of "br_stream b" p e] assms(1) w by (simp add: bridge_ok_def)
  moreover have "outbound_ok frame (out_write p e b)"
  proof (cases res)
    case (Inl err)
    then show ?thesis using w ps write_wire(2) [of p e "br_stream b" s' err] by (auto simp: out_write_def outbound_ok_def)
  next
    case (Inr k)
    then show ?thesis using w ps write_wire(1) [of p e "br_stream b" s' k] by (auto simp: out_write_def outbound_ok_def)
  qed
  ultimately show ?thesis using same w by (auto simp: bridge_ok_def out_write_def split: sum.splits)
qed

lemma bridge_ok_in_read:
  assumes "bridge_ok frame b" "br_in b = InRead" "in_read c b = Some b'"
  shows "bridge_ok frame b'"
proof -
  obtain s' res where r: "Read_stream c MaxFrameBytes (br_stream b) = Some (s', res)"
    using assms(3) by (auto simp: in_read_def split: option.splits)
  have ok: "stream_ok s'" "st_taken (br_stream b) = map Payload (br_localOut b)"
    using assms(1,2) stream_ok_read [OF _ r] by (auto simp: bridge_ok_def inbound_ok_def)
  have "outbound_ok frame b'"
    by (rule outbound_ok_same [of frame b])
       (use assms(1,3) r read_taken [of c "br_stream b" s'] in \<open>auto simp: bridge_ok_def in_read_def split: sum.splits\<close>)
  moreover have "inbound_ok b'"
    using assms(3) r ok(2) read_taken [of c "br_stream b" s'] by (auto simp: in_read_def inbound_ok_def split: sum.splits)
  moreover have "br_stream b' = s'" using assms(3) r by (auto simp: in_read_def split: sum.splits)
  ultimately show ?thesis using ok(1) by (simp add: bridge_ok_def)
qed

lemma bridge_ok_in_write: "bridge_ok frame b \<Longrightarrow> br_in b = InWrite p \<Longrightarrow> bridge_ok frame (in_write p ok e b)"
  using outbound_ok_same [of frame b "in_write p ok e b"]
  by (auto simp: bridge_ok_def inbound_ok_def in_write_def stream_ok_close)

lemma bridge_ok_step: "bridge_step b b' \<Longrightarrow> bridge_ok frame b \<Longrightarrow> bridge_ok frame b'"
proof (induction rule: bridge_step.induct)
  case (step_pump_read b r)
  then show ?case
    using inbound_ok_same [of b] outbound_ok_same [of frame b] by (simp add: bridge_ok_def stream_ok_message)
next
  case (step_pump_select b d n takeClosed s)
  then show ?case
    using inbound_ok_same [of b] outbound_ok_same [of frame b] by (simp add: bridge_ok_def stream_ok_select [of "br_stream b" d n])
qed (simp_all add: bridge_ok_out_read bridge_ok_out_write bridge_ok_in_read bridge_ok_in_write)

lemma bridge_ok_run: "bridge_step\<^sup>*\<^sup>* b b' \<Longrightarrow> bridge_ok frame b \<Longrightarrow> bridge_ok frame b'"
  by (induction rule: rtranclp_induct) (auto intro: bridge_ok_step)


text \<open>
  C34. The bridge keeps messages whole and in order. Under every interleaving of the two copying
  goroutines and the read pump of a freshly dialed stream, what was written to the local WebSocket is
  a prefix of the binary messages received from the relay, and what was sent to the relay after the
  ticket is a prefix of the non-empty binary messages received locally, each as one message; at
  most four messages wait in the channel; when everything read has been passed on and the
  goroutines are waiting, nothing is missing.
\<close>

theorem bridge_keeps_messages:
  assumes "Dial cr d ticket connects sends = Inr s" "bridge_step\<^sup>*\<^sup>* (BridgeWebSocket s) b"
  shows "prefix (br_localOut b) (binary_payloads (st_got (br_stream b))) \<and>
    prefix (tl (st_wire (br_stream b))) (nonempty (binary_payloads (br_localIn b))) \<and>
    ticket_frame cr ticket = Inr (hd (st_wire (br_stream b))) \<and>
    length (st_readCh (br_stream b)) \<le> 4 \<and>
    (br_in b = InRead \<and> st_readCh (br_stream b) = [] \<and> st_pump (br_stream b) = PumpRead \<longrightarrow>
       br_localOut b = binary_payloads (st_got (br_stream b))) \<and>
    (br_out b = OutRead \<longrightarrow> tl (st_wire (br_stream b)) = nonempty (binary_payloads (br_localIn b)))"
proof -
  obtain frame where f: "ticket_frame cr ticket = Inr frame" "st_wire s = [frame]" and ok: "stream_ok s" "st_taken s = []"
    using Dial_Inr [OF assms(1)] by blast
  have "bridge_ok frame b" using bridge_ok_run [OF assms(2) bridge_ok_start [OF ok f(2)]] .
  then have s: "stream_ok (br_stream b)" and i: "inbound_ok b" and out: "outbound_ok frame b" by (simp_all add: bridge_ok_def)
  have taken: "prefix (st_taken (br_stream b)) (map delivery (st_got (br_stream b)))"
    using s append_prefixD by (auto simp: stream_ok_def)
  have "prefix (map Payload (br_localOut b)) (st_taken (br_stream b))"
    using i by (auto simp: inbound_ok_def split: inbound.splits)
  then have 1: "prefix (br_localOut b) (binary_payloads (st_got (br_stream b)))"
    using taken prefix_order.trans deliveries_prefix by blast
  obtain ps where ps: "prefix ps (binary_payloads (br_localIn b))" "st_wire (br_stream b) = frame # nonempty ps"
    using out by (cases "br_out b") (fastforce simp: outbound_ok_def)+
  then have 2: "prefix (tl (st_wire (br_stream b))) (nonempty (binary_payloads (br_localIn b)))"
    by (auto simp: prefix_def)
  have 3: "br_localOut b = binary_payloads (st_got (br_stream b))"
    if "br_in b = InRead" "st_readCh (br_stream b) = []" "st_pump (br_stream b) = PumpRead"
    using s i that deliveries_payloads by (simp add: stream_ok_def inbound_ok_def held_def)
  show ?thesis
    using 1 2 3 f(1) ps(2) s out by (auto simp: stream_ok_def outbound_ok_def)
qed

text \<open>
  \<^verbatim>\<open>BridgeWebSocket\<close> never returns without an error: the goroutines wrap the errors they report, and the
  check for a benign close compares them unwrapped.
\<close>

lemma bridge_never_clean:
  assumes "Dial cr d ticket connects sends = Inr s" "bridge_step\<^sup>*\<^sup>* (BridgeWebSocket s) b" "bridge_result outFirst b = Some r"
  shows "r \<noteq> None"
proof -
  obtain frame where "st_wire s = [frame]" "stream_ok s" "st_taken s = []" using Dial_Inr [OF assms(1)] by blast
  then have "bridge_ok frame b" using bridge_ok_run [OF assms(2)] bridge_ok_start by blast
  then show ?thesis
    using assms(3)
    by (auto simp: bridge_ok_def inbound_ok_def outbound_ok_def bridge_result_def bridge_errors_def first_error_def
        isBenignClose_def split: outbound.splits inbound.splits if_splits)
qed

section \<open>Routes are dialed once\<close>

definition tickets_ok :: "Manager \<Rightarrow> bool" where
  "tickets_ok m \<longleftrightarrow>
     (\<forall>r t. rm_pending m r = Some t \<longrightarrow> (r, t) \<in> set (rm_minted m) \<and> r \<notin> fst ` set (rm_dialed m)) \<and>
     set (rm_dialed m) \<subseteq> set (rm_minted m) \<and> distinct (map fst (rm_dialed m))"

definition running_ok :: "Manager \<Rightarrow> bool" where
  "running_ok m \<longleftrightarrow>
     ran (rm_running m) \<subseteq> fst ` set (rm_dialed m) \<and> dom (rm_running m) \<subseteq> {..<rm_next m} \<and>
     inj_on (rm_running m) (dom (rm_running m)) \<and>
     (\<forall>c r. rm_running m c = Some r \<longrightarrow> c \<in> rm_cancelled m \<or> rm_active m r = Some c)"

definition manager_ok :: "Manager \<Rightarrow> bool" where
  "manager_ok m \<longleftrightarrow> tickets_ok m \<and> running_ok m"

lemma NewManager_ok: "NewManager config = Inr m \<Longrightarrow> manager_ok m \<and> rm_minted m = []"
  by (auto simp: NewManager_def manager_ok_def tickets_ok_def running_ok_def Let_def split: if_splits)

lemma Provision_minted: "\<exists>ps. rm_minted (fst (Provision cr i r c1 c2 m)) = rm_minted m @ ps"
  by (simp add: Provision_def Let_def split: option.splits sum.splits)

lemma step_minted: "manager_step cr m m' \<Longrightarrow> \<exists>ps. rm_minted m' = rm_minted m @ ps"
proof (induction rule: manager_step.induct)
  case (step_provision m)
  then show ?case by (rule Provision_minted)
qed (simp_all add: connect_begin_def connect_end_def CancelRoute_def Close_manager_def Let_def split: option.splits)


lemma Provision_cases:
  obtains "fst (Provision cr i r c1 c2 m) = m"
  | hex t where "fst (Provision cr i r c1 c2 m) =
      m\<lparr>rm_pending := (rm_pending m)(hex \<mapsto> t), rm_minted := rm_minted m @ [(hex, t)]\<rparr>"
  by (fastforce simp: Provision_def Let_def split: option.splits sum.splits prod.splits if_splits)

lemma manager_ok_provision:
  assumes "manager_ok m" "distinct (map fst (rm_minted (fst (Provision cr i r c1 c2 m))))"
  shows "manager_ok (fst (Provision cr i r c1 c2 m))"
proof (rule Provision_cases [of cr i r c1 c2 m])
  fix hex t
  assume p: "fst (Provision cr i r c1 c2 m) = m\<lparr>rm_pending := (rm_pending m)(hex \<mapsto> t), rm_minted := rm_minted m @ [(hex, t)]\<rparr>"
  then have "hex \<notin> fst ` set (rm_dialed m)" using assms by (auto simp: manager_ok_def tickets_ok_def)
  then show ?thesis unfolding p using assms(1) by (auto simp: manager_ok_def tickets_ok_def running_ok_def)
qed (simp add: assms(1))

lemma manager_ok_connect:
  assumes "manager_ok m"
  shows "manager_ok (fst (connect_begin route m))"
proof (cases "rm_pending m route")
  case (Some t)
  let ?m = "m\<lparr>rm_pending := (rm_pending m)(route := None)\<rparr>"
  let ?n = "?m\<lparr>rm_active := (rm_active m)(route \<mapsto> rm_next m), rm_running := (rm_running m)(rm_next m \<mapsto> route),
    rm_next := rm_next m + 1, rm_dialed := rm_dialed m @ [(route, t)]\<rparr>"
  have t: "(route, t) \<in> set (rm_minted m)" "route \<notin> fst ` set (rm_dialed m)"
    using Some assms by (auto simp: manager_ok_def tickets_ok_def)
  have old: "manager_ok ?m" using assms by (auto simp: manager_ok_def tickets_ok_def running_ok_def)
  have tickets: "tickets_ok ?n" using assms t by (auto simp: manager_ok_def tickets_ok_def)
  have r: "ran (rm_running m) \<subseteq> fst ` set (rm_dialed m)" "dom (rm_running m) \<subseteq> {..<rm_next m}"
    "inj_on (rm_running m) (dom (rm_running m))" using assms by (simp_all add: manager_ok_def running_ok_def)
  have new: "rm_next m \<notin> dom (rm_running m)" "route \<notin> ran (rm_running m)" using r(1,2) t(2) by auto
  have "inj_on ((rm_running m)(rm_next m \<mapsto> route)) (insert (rm_next m) (dom (rm_running m)))"
    using r(3) new by (auto simp: inj_on_def ran_def)
  moreover have "ran ((rm_running m)(rm_next m \<mapsto> route)) = insert route (ran (rm_running m))"
    using new(1) by (intro ran_map_upd) auto
  moreover have "c \<in> rm_cancelled m \<or> ((rm_active m)(route \<mapsto> rm_next m)) s = Some c"
    if "((rm_running m)(rm_next m \<mapsto> route)) c = Some s" for c s
    using that assms new(2) by (cases "c = rm_next m") (auto simp: manager_ok_def running_ok_def ran_def)
  ultimately have "running_ok ?n" unfolding running_ok_def using r by (auto simp: less_Suc_eq)
  then show ?thesis using Some old tickets by (simp add: connect_begin_def Let_def manager_ok_def)
qed (simp add: connect_begin_def assms)

lemma manager_ok_return:
  assumes "manager_ok m" "rm_running m c = Some route"
  shows "manager_ok (connect_end c route m)"
proof -
  let ?r = "(rm_running m)(c := None)"
  have r: "ran (rm_running m) \<subseteq> fst ` set (rm_dialed m)" "dom (rm_running m) \<subseteq> {..<rm_next m}"
    "inj_on (rm_running m) (dom (rm_running m))" using assms by (simp_all add: manager_ok_def running_ok_def)
  have "ran ?r \<subseteq> ran (rm_running m)" "inj_on ?r (dom ?r)" using r(3) by (auto simp: ran_def inj_on_def)
  moreover have "d \<in> insert c (rm_cancelled m) \<or> ((rm_active m)(route := None)) s = Some d" if d: "?r d = Some s" for d s
  proof -
    have "rm_running m d = Some s" "d \<noteq> c" using d by (auto split: if_splits)
    moreover have "s \<noteq> route" using calculation assms(2) r(3) by (auto simp: inj_on_def dom_def)
    ultimately show ?thesis using assms(1) by (auto simp: manager_ok_def running_ok_def)
  qed
  moreover have "c < rm_next m" using r(2) assms(2) by auto
  ultimately have "running_ok (connect_end c route m)"
    unfolding running_ok_def using r(1,2) by (auto simp: connect_end_def)
  then show ?thesis using assms(1) by (simp add: manager_ok_def tickets_ok_def connect_end_def)
qed

lemma manager_ok_cancel:
  assumes "manager_ok m"
  shows "manager_ok (CancelRoute route m)"
proof (cases "rm_active m route")
  case (Some c)
  show ?thesis
    using assms Some by (auto simp: CancelRoute_def manager_ok_def tickets_ok_def running_ok_def)
qed (simp add: CancelRoute_def assms)

lemma manager_ok_close: "manager_ok m \<Longrightarrow> manager_ok (Close_manager m)"
  unfolding manager_ok_def tickets_ok_def running_ok_def Close_manager_def by (simp add: ran_def) blast

lemma manager_ok_step:
  "manager_step cr m m' \<Longrightarrow> distinct (map fst (rm_minted m')) \<Longrightarrow> manager_ok m \<Longrightarrow> manager_ok m'"
proof (induction rule: manager_step.induct)
  case (step_provision m)
  then show ?case using manager_ok_provision by blast
qed (simp_all add: manager_ok_connect manager_ok_return manager_ok_cancel manager_ok_close)

lemma manager_ok_run:
  assumes "(manager_step cr)\<^sup>*\<^sup>* m m'" "distinct (map fst (rm_minted m'))" "manager_ok m"
  shows "manager_ok m'"
  using assms(1,2)
proof (induction rule: rtranclp_induct)
  case (step y z)
  obtain ps where "rm_minted z = rm_minted y @ ps" using step_minted [OF step.hyps(2)] by blast
  then show ?case using step manager_ok_step by fastforce
qed (rule assms(3))

text \<open>
  C35. A route is dialed once, with its own ticket, and stays in reach. Under any sequence of
  provisions, connections, cancellations and closes of a manager, interleaved in any way, if no two
  provisions drew the same route ID, every dial uses the agent's ticket minted for the route and no route is
  dialed twice; every connection still running is cancelled or found under its route by
  \<^verbatim>\<open>CancelRoute\<close>; and \<^verbatim>\<open>Close\<close> leaves no pending ticket and no running connection uncancelled.
\<close>

theorem routes_dialed_once:
  assumes "NewManager config = Inr m0" "(manager_step cr)\<^sup>*\<^sup>* m0 m" "distinct (map fst (rm_minted m))"
  shows "distinct (map fst (rm_dialed m)) \<and> set (rm_dialed m) \<subseteq> set (rm_minted m) \<and>
    (\<forall>c route. rm_running m c = Some route \<longrightarrow> c \<in> rm_cancelled (CancelRoute route m)) \<and>
    PendingRoutes (Close_manager m) = {} \<and> dom (rm_running m) \<subseteq> rm_cancelled (Close_manager m)"
proof -
  have ok: "manager_ok m" using manager_ok_run [OF assms(2,3)] NewManager_ok [OF assms(1)] by blast
  have reach: "c \<in> rm_cancelled m \<or> rm_active m route = Some c" if "rm_running m c = Some route" for c route
    using ok that unfolding manager_ok_def running_ok_def by blast
  have "c \<in> rm_cancelled (CancelRoute route m)" if "rm_running m c = Some route" for c route
    using reach [OF that] by (auto simp: CancelRoute_def split: option.splits)
  moreover have "dom (rm_running m) \<subseteq> rm_cancelled (Close_manager m)"
    using reach by (auto simp: Close_manager_def ran_def)
  moreover have "PendingRoutes (Close_manager m) = {}" by (simp add: PendingRoutes_def Close_manager_def)
  ultimately show ?thesis using ok unfolding manager_ok_def tickets_ok_def by blast
qed


section \<open>From the manager to the relay\<close>

lemma Provision_Inr:
  assumes "Provision cr clientID rroute call1 call2 m = (m1, Inr (client, route))"
  shows "\<exists>routeID agent. rroute 16 = Some routeID \<and> route = EncodeToString routeID \<and> rm_pending m1 route = Some agent \<and>
    Pair_tickets cr (mc_Issuer (rm_config m)) \<lparr>pi_RouteID = routeID, pi_AgentID = mc_AgentID (rm_config m),
      pi_ClientID = clientID, pi_Lifetime = mc_TicketLifetime (rm_config m), pi_MaxConnections = 1, pi_IssuedAt = zero_time,
      pi_IssuerEpoch = mc_RevocationEpoch (rm_config m)\<rparr> call1 call2 = Inr (agent, client)"
  using assms by (auto simp: Provision_def Let_def split: if_splits option.splits sum.splits)

lemma Pair_agent_Issue:
  assumes "Pair_tickets cr (Some i) pin (now1, id1, nonce1) call2 = Inr (a, c)"
  shows "\<exists>input. Issue cr i input now1 id1 nonce1 = Inr a"
  using assms by (auto simp: Pair_tickets_def pair_mint_def split: if_splits sum.splits prod.splits)

text \<open>
  C36. A provisioned route reaches the relay. With Ed25519, the random source and the ticket codec
  behaving as documented, the first frame that \<^verbatim>\<open>Connect\<close> sends for a route just provisioned is read back by the
  relay as exactly the agent's ticket, and until it expires the relay accepts it, if its ID is not remembered and its
  device is allowed: for the agent's endpoint and device, on the route whose ID was returned and
  that the client's ticket names too.
\<close>

theorem provisioned_ticket_accepted:
  assumes libs: "crypto_ok cr" "random_ok id1" "random_ok nonce1" "random_ok id2" "random_ok nonce2"
    and made: "NewIssuer cr key = Inr issuer" "NewManager config = Inr m" "mc_Issuer config = Some issuer"
    and route: "Provision cr clientID rroute (now1, id1, nonce1) (now2, id2, nonce2) m = (m1, Inr (client, route))"
      "connect_begin route m1 = (m2, Inr (c, agent))"
    and codec: "marshal_ticket cr agent = Some encoded" "unmarshal encoded = Some agent" "length encoded \<le> maxTicketBytes"
    and relay: "is_PublicKey issuer \<in> set keys" "v = (NewVerifier keys)\<lparr>vf_replay := seen, vf_authorizer := auth\<rparr>"
      "rt_ExpiresAt agent = Some e" "e \<noteq> zero_time" "now \<le> e" "e \<le> now + ticketReplayTTL"
      "\<not> remembered v replayNow (rt_TicketId agent)" "allowed v world agent"
  shows "\<exists>frame tk. ticket_frame cr (Some agent) = Inr frame \<and>
    readTicket unmarshal (ReadFrame BinaryMessage frame) = Inr agent \<and>
    snd (Verify cr world (Some agent) now replayNow v) = Inr tk \<and>
    tk_Endpoint tk = RELAY_ENDPOINT_AGENT \<and> tk_DeviceID tk = mc_AgentID config \<and>
    tk_RouteID tk = rt_RouteId client \<and> EncodeToString (tk_RouteID tk) = route"
proof -
  have cfg: "mc_Issuer (rm_config m) = Some issuer" "mc_AgentID (rm_config m) = mc_AgentID config"
    using made(2,3) by (auto simp: NewManager_def Let_def split: if_splits)
  obtain routeID agent' where r: "route = EncodeToString routeID" "rm_pending m1 route = Some agent'"
    and pair: "Pair_tickets cr (Some issuer) \<lparr>pi_RouteID = routeID, pi_AgentID = mc_AgentID config,
      pi_ClientID = clientID, pi_Lifetime = mc_TicketLifetime (rm_config m), pi_MaxConnections = 1, pi_IssuedAt = zero_time,
      pi_IssuerEpoch = mc_RevocationEpoch (rm_config m)\<rparr> (now1, id1, nonce1) (now2, id2, nonce2) = Inr (agent', client)"
    using Provision_Inr [OF route(1)] cfg by auto
  have agent: "agent' = agent" using route(2) r(2) by (auto simp: connect_begin_def Let_def split: if_splits)
  note match = minted_pair_matches [OF libs pair, unfolded agent, simplified]
  obtain input where issue: "Issue cr issuer input now1 id1 nonce1 = Inr agent"
    using Pair_agent_Issue [OF pair] agent by blast
  have pub: "is_public issuer = ed_Public cr (is_private issuer)" "length (is_public issuer) = 32"
    using libs(1) made(1) by (auto simp: NewIssuer_def crypto_ok_def split: if_splits)
  have "is_public issuer \<in> set (vf_issuers v)" using relay(1,2) pub(2) by (simp add: NewVerifier_def is_PublicKey_def)
  then obtain tk where tk: "snd (Verify cr world (Some agent) now replayNow v) = Inr tk" "tk_wire tk = agent"
    using Verify_Inr_iff [of cr world "Some agent" now replayNow v agent] Issue_Inr(1,8) [OF libs(1-3) issue] pub(1)
      relay(3-8) by blast
  have "rt_RouteId agent \<noteq> []" using match by (auto simp: ticket_shape_ok_def)
  then obtain frame where frame: "ticket_frame cr (Some agent) = Inr frame"
    using codec(1,3) by (simp add: ticket_frame_def maxTicketBytes_def MaxFrameBytes_def)
  show ?thesis
    using frame ticket_frame_read [OF frame codec(1,3), of unmarshal] codec(2) tk match r(1)
    by (auto simp: tk_Endpoint_def tk_DeviceID_def tk_RouteID_def)
qed


section \<open>Concrete runs\<close>

definition example_stream :: Stream where
  "example_stream = \<lparr>st_writeWait = DefaultWriteTimeout, st_readCh = [], st_closed = False, st_closeErr = None,
     st_pump = PumpRead, st_got = [], st_taken = [], st_wire = [PutUint32 16 @ replicate 16 6]\<rparr>"

definition bridge_at ::
    "pump \<Rightarrow> read_result list \<Rightarrow> frameDelivery list \<Rightarrow> frameDelivery list \<Rightarrow> bytes list \<Rightarrow> read_result list \<Rightarrow> bytes list \<Rightarrow>
     outbound \<Rightarrow> inbound \<Rightarrow> bridge" where
  "bridge_at p got ch taken sent lin lout out inn =
     \<lparr>br_stream = example_stream\<lparr>st_pump := p, st_got := got, st_readCh := ch, st_taken := taken,
        st_wire := st_wire example_stream @ sent\<rparr>,
      br_localOpen = True, br_localIn = lin, br_localOut = lout, br_out = out, br_in = inn\<rparr>"

lemma example_dial:
  "Dial sample_crypto \<lparr>di_DialTimeout = 0, di_WriteTimeout = 0\<rparr> (Some sample_ticket) (\<lambda>_. True) (\<lambda>_. True) = Inr example_stream"
  by (simp add: Dial_def ticket_frame_def sample_crypto_def sample_ticket_def example_stream_def MaxFrameBytes_def)

lemma example_bridges:
  "bridge_step\<^sup>*\<^sup>* (BridgeWebSocket example_stream)
     (bridge_at PumpRead [ReadFrame 2 [1, 2]] [] [Payload [1, 2]] [[9]] [ReadFrame 2 [9]] [[1, 2]] OutRead InRead)"
proof -
  let ?g = "[ReadFrame 2 [1, 2]]" and ?d = "Payload [1, 2]"
  note defs = bridge_at_def example_stream_def
  have "bridge_step (bridge_at PumpRead [] [] [] [] [] [] OutRead InRead)
      (bridge_at (PumpSelect ?d NextRead) ?g [] [] [] [] [] OutRead InRead)" (is "bridge_step ?b0 ?b1")
    using step_pump_read [of ?b0 "ReadFrame 2 [1, 2]"] by (simp add: defs pump_message_def pump_of_def MaxFrameBytes_def)
  moreover have "bridge_step ?b1 (bridge_at PumpRead ?g [?d] [] [] [] [] OutRead InRead)" (is "bridge_step _ ?b2")
    using step_pump_select [of ?b1 ?d NextRead False "br_stream ?b2"] by (simp add: defs pump_select_def pump_after_def)
  moreover have "bridge_step ?b2 (bridge_at PumpRead ?g [] [?d] [] [] [] OutRead (InWrite [1, 2]))" (is "bridge_step _ ?b3")
    using step_in_read [of ?b2 False ?b3] by (simp add: defs in_read_def Read_stream_def MaxFrameBytes_def deliver_def)
  moreover have "bridge_step ?b3 (bridge_at PumpRead ?g [] [?d] [] [] [[1, 2]] OutRead InRead)" (is "bridge_step _ ?b4")
    using step_in_write [of ?b3 "[1, 2]" True None] by (simp add: defs in_write_def)
  moreover have "bridge_step ?b4 (bridge_at PumpRead ?g [] [?d] [] [ReadFrame 2 [9]] [[1, 2]] (OutWrite [9]) InRead)"
    (is "bridge_step _ ?b5") using step_out_read [of ?b4 "ReadFrame 2 [9]" None] by (simp add: defs out_read_def)
  moreover have "bridge_step ?b5 (bridge_at PumpRead ?g [] [?d] [[9]] [ReadFrame 2 [9]] [[1, 2]] OutRead InRead)"
    using step_out_write [of ?b5 "[9]" None] by (simp add: defs out_write_def Write_stream_def MaxFrameBytes_def)
  moreover have "BridgeWebSocket example_stream = ?b0" by (simp add: BridgeWebSocket_def defs)
  ultimately show ?thesis by (simp only:)
qed

theorem bridge_keeps_messages_witness:
  "\<exists>b. bridge_step\<^sup>*\<^sup>* (BridgeWebSocket example_stream) b \<and> br_localOut b = [[1, 2]] \<and>
     br_localOut b = binary_payloads (st_got (br_stream b)) \<and> tl (st_wire (br_stream b)) = [[9]] \<and>
     ticket_frame sample_crypto (Some sample_ticket) = Inr (hd (st_wire (br_stream b)))"
  using bridge_keeps_messages [OF example_dial example_bridges] example_bridges
  by (auto simp: bridge_at_def example_stream_def)

definition example_manager_config :: ManagerConfig where
  "example_manager_config = \<lparr>mc_RelayURL = ''wss://r'', mc_Issuer = Some sample_issuer, mc_AgentID = replicate 16 2,
     mc_RevocationEpoch = 4, mc_TicketLifetime = 0\<rparr>"

definition example_manager :: Manager where
  "example_manager = \<lparr>rm_config = example_manager_config\<lparr>mc_TicketLifetime := DefaultTicketLifetime\<rparr>, rm_pending = Map.empty,
     rm_active = Map.empty, rm_running = Map.empty, rm_cancelled = {}, rm_next = 0, rm_minted = [], rm_dialed = []\<rparr>"

definition example_agent_ticket :: RelayTicket where
  "example_agent_ticket = sample_ticket\<lparr>rt_ExpiresAt := Some (5 * minute)\<rparr>"

definition example_route :: string where
  "example_route = EncodeToString (replicate 16 1)"

definition provisioned :: Manager where
  "provisioned = example_manager\<lparr>rm_pending := [example_route \<mapsto> example_agent_ticket],
     rm_minted := [(example_route, example_agent_ticket)]\<rparr>"

definition connected :: Manager where
  "connected = provisioned\<lparr>rm_pending := Map.empty, rm_active := [example_route \<mapsto> 0], rm_running := [0 \<mapsto> example_route],
     rm_next := 1, rm_dialed := [(example_route, example_agent_ticket)]\<rparr>"

lemma example_manager_new: "NewManager example_manager_config = Inr example_manager"
  by (simp add: NewManager_def example_manager_config_def example_manager_def)

lemma example_provision:
  "\<exists>client. Provision sample_crypto (replicate 16 8) (sample_random 1) (0, sample_random 5, sample_random 6)
     (0, sample_random 7, sample_random 6) example_manager = (provisioned, Inr (client, example_route)) \<and>
     rt_RouteId client = replicate 16 1"
  by (simp add: Provision_def sample_random_def example_manager_def example_manager_config_def Pair_tickets_def
      pair_mint_def Issue_def randomBytes_def signTicket_def encodeTicketBody_def sample_crypto_def zero_time_def
      DefaultTicketLifetime_def provisioned_def example_route_def example_agent_ticket_def sample_ticket_def
      sample_issuer_def Let_def)

lemma example_connect: "connect_begin example_route provisioned = (connected, Inr (0, example_agent_ticket))"
  by (simp add: connect_begin_def provisioned_def connected_def example_manager_def)

theorem routes_dialed_once_witness:
  "rm_running connected 0 = Some example_route \<and> 0 \<in> rm_cancelled (CancelRoute example_route connected) \<and>
   dom (rm_running connected) \<subseteq> rm_cancelled (Close_manager connected) \<and> PendingRoutes (Close_manager connected) = {}"
proof -
  have "manager_step sample_crypto example_manager provisioned"
    using example_provision step_provision [of sample_crypto example_manager] by (metis fst_conv)
  moreover have "manager_step sample_crypto provisioned connected"
    using step_connect [of sample_crypto provisioned example_route] example_connect by simp
  ultimately have "(manager_step sample_crypto)\<^sup>*\<^sup>* example_manager connected" by auto
  moreover have "distinct (map fst (rm_minted connected))" "rm_running connected 0 = Some example_route"
    by (simp_all add: connected_def provisioned_def)
  ultimately show ?thesis using routes_dialed_once [OF example_manager_new] by blast
qed

theorem provisioned_ticket_accepted_witness:
  "\<exists>frame tk. ticket_frame sample_crypto (Some example_agent_ticket) = Inr frame \<and>
    readTicket (\<lambda>_. Some example_agent_ticket) (ReadFrame BinaryMessage frame) = Inr example_agent_ticket \<and>
    snd (Verify sample_crypto () (Some example_agent_ticket) 0 0 sample_verifier) = Inr tk \<and>
    EncodeToString (tk_RouteID tk) = example_route"
proof -
  obtain client where p: "Provision sample_crypto (replicate 16 8) (sample_random 1) (0, sample_random 5, sample_random 6)
     (0, sample_random 7, sample_random 6) example_manager = (provisioned, Inr (client, example_route))"
    using example_provision by blast
  have m: "marshal_ticket sample_crypto example_agent_ticket = Some (replicate 16 6)"
    by (simp add: sample_crypto_def example_agent_ticket_def sample_ticket_def)
  have v: "sample_verifier = (NewVerifier [replicate 32 3])\<lparr>vf_replay := [], vf_authorizer := None\<rparr>"
    by (simp add: sample_verifier_def NewVerifier_def)
  show ?thesis
    using provisioned_ticket_accepted [OF sample_crypto_ok sample_random_ok sample_random_ok sample_random_ok
        sample_random_ok sample_issued(1) example_manager_new _ p example_connect m, of "\<lambda>_. Some example_agent_ticket",
        OF _ _ _ _ v, of "5 * minute" 0 0 "()"]
    by (auto simp: example_manager_config_def maxTicketBytes_def is_PublicKey_def sample_issuer_def example_agent_ticket_def
        zero_time_def ticketReplayTTL_def remembered_def allowed_def v NewVerifier_def)
qed

end
