(* ===== verification/Management.thy ===== *)
theory Management
  imports Flow_Safety Relay_Client
begin

text \<open>
  The agent's local management pages and the pairing endpoint (\<^verbatim>\<open>src/cmd/vibebridge/agent_management.go\<close>,
  \<^verbatim>\<open>pairing_transport.go\<close>, \<^verbatim>\<open>ratelimit.go\<close>) and the recovery command (\<^verbatim>\<open>recover.go\<close>), over the coordinator, the
  invitation manager, the device store and the relay manager. A handler is a function from the state
  and the request to the state and the HTTP status. Parsing of addresses, the interface table, the
  QR encoder and what the environment answers to one call are parameters. Response headers and
  page contents carry no state and are left out.
\<close>

section \<open>Who may manage\<close>

record http_request =
  hr_Path :: string
  hr_Method :: string
  hr_RemoteAddr :: string
  hr_Token :: string
  hr_ForwardedFor :: string
  hr_PostForm :: "(string \<Rightarrow> string) option"
  hr_ClientDeviceID :: "string option"

text \<open>\<^verbatim>\<open>net.SplitHostPort\<close>, \<^verbatim>\<open>net.ParseIP\<close>, which returns sixteen bytes, and \<^verbatim>\<open>net.InterfaceAddrs\<close>.\<close>

record net_lib =
  nt_SplitHostPort :: "string \<Rightarrow> (string \<times> string) option"
  nt_ParseIP :: "string \<Rightarrow> bytes option"
  nt_InterfaceAddrs :: "bytes list option"

definition v4Prefix :: bytes where
  "v4Prefix = replicate 10 0 @ [255, 255]"

definition To4 :: "bytes \<Rightarrow> bytes option" where
  "To4 ip =
     (if length ip = 4 then Some ip
      else if length ip = 16 \<and> take 12 ip = v4Prefix then Some (drop 12 ip) else None)"

definition IsLoopback :: "bytes \<Rightarrow> bool" where
  "IsLoopback ip = (case To4 ip of Some ip4 \<Rightarrow> hd ip4 = 127 | None \<Rightarrow> ip = replicate 15 0 @ [1])"

definition ip_Equal :: "bytes \<Rightarrow> bytes \<Rightarrow> bool" where
  "ip_Equal ip x =
     (if length ip = length x then ip = x
      else if length ip = 4 \<and> length x = 16 then take 12 x = v4Prefix \<and> ip = drop 12 x
      else if length ip = 16 \<and> length x = 4 then take 12 ip = v4Prefix \<and> drop 12 ip = x
      else False)"

definition matchesLocalMachineIP :: "bytes option \<Rightarrow> bytes list \<Rightarrow> bool" where
  "matchesLocalMachineIP candidate addresses =
     (case candidate of None \<Rightarrow> False | Some c \<Rightarrow> IsLoopback c \<or> list_ex (\<lambda>localIP. ip_Equal localIP c) addresses)"

definition isLocalMachineIP :: "net_lib \<Rightarrow> bytes option \<Rightarrow> bool" where
  "isLocalMachineIP nt candidate =
     (case nt_InterfaceAddrs nt of
        None \<Rightarrow> (case candidate of None \<Rightarrow> False | Some c \<Rightarrow> IsLoopback c)
      | Some addresses \<Rightarrow> matchesLocalMachineIP candidate addresses)"

definition trim_brackets :: "string \<Rightarrow> string" where
  "trim_brackets s = rev (dropWhile (\<lambda>c. c \<in> set ''[]'') (rev (dropWhile (\<lambda>c. c \<in> set ''[]'') s)))"

definition isLocalMachineRemote :: "net_lib \<Rightarrow> string \<Rightarrow> bool" where
  "isLocalMachineRemote nt remoteAddress =
     (let host = (case nt_SplitHostPort nt remoteAddress of None \<Rightarrow> trim_brackets remoteAddress | Some (host, _) \<Rightarrow> host)
      in isLocalMachineIP nt (nt_ParseIP nt (takeWhile (\<lambda>c. c \<noteq> CHR ''%'') host)))"

text \<open>\<open>Some\<close> is the status of the refusal.\<close>

definition authorizeLocalManagement :: "net_lib \<Rightarrow> http_request \<Rightarrow> string \<Rightarrow> int option" where
  "authorizeLocalManagement nt request token =
     (if \<not> isLocalMachineRemote nt (hr_RemoteAddr request) then Some 403
      else if hr_Token request \<noteq> token then Some 401
      else None)"

section \<open>The rate limiter\<close>

record rateEntry =
  re_count :: int
  re_windowEnd :: time

record rateLimiter =
  rl_window :: duration
  rl_maxReqs :: int
  rl_entries :: "(string \<times> rateEntry) list"

definition newRateLimiter :: "int \<Rightarrow> duration \<Rightarrow> rateLimiter" where
  "newRateLimiter maxReqs window = \<lparr>rl_window = window, rl_maxReqs = maxReqs, rl_entries = []\<rparr>"

definition allow :: "time \<Rightarrow> string \<Rightarrow> rateLimiter \<Rightarrow> rateLimiter \<times> bool" where
  "allow now ip rl =
     (case map_of (rl_entries rl) ip of
        Some entry \<Rightarrow>
          (if now > re_windowEnd entry then
             (let entries = (ip, \<lparr>re_count = 1, re_windowEnd = now + rl_window rl\<rparr>) #
                    filter (\<lambda>(k, _). k \<noteq> ip) (rl_entries rl);
                  swept = (if length entries > 1000 then filter (\<lambda>(_, v). \<not> now > re_windowEnd v) entries else entries)
              in (rl\<lparr>rl_entries := swept\<rparr>, True))
           else
             (let entry = entry\<lparr>re_count := re_count entry + 1\<rparr>
              in (rl\<lparr>rl_entries := (ip, entry) # filter (\<lambda>(k, _). k \<noteq> ip) (rl_entries rl)\<rparr>,
                  re_count entry \<le> rl_maxReqs rl)))
      | None \<Rightarrow>
          (let entries = (ip, \<lparr>re_count = 1, re_windowEnd = now + rl_window rl\<rparr>) # rl_entries rl;
               swept = (if length entries > 1000 then filter (\<lambda>(_, v). \<not> now > re_windowEnd v) entries else entries)
           in (rl\<lparr>rl_entries := swept\<rparr>, True)))"

text \<open>The part of a string before the first occurrence of a character that is not its first.\<close>

definition before :: "char \<Rightarrow> string \<Rightarrow> string" where
  "before c s = (if c \<in> set s \<and> hd s \<noteq> c then takeWhile (\<lambda>x. x \<noteq> c) s else s)"

definition clientIP :: "http_request \<Rightarrow> string" where
  "clientIP r =
     (if hr_ForwardedFor r \<noteq> [] then before CHR '','' (hr_ForwardedFor r) else before CHR '':'' (hr_RemoteAddr r))"

section \<open>The handlers\<close>

record ('h, 'c) agentManagement =
  am_token :: string
  am_pairingBase :: string
  am_flows :: "('h, 'c) Coordinator"
  am_relayManager :: "Relay_Client.Manager option"
  am_provisionLimiter :: rateLimiter

record management_libs =
  ml_crypto :: crypto
  ml_pairing :: pairing_lib
  ml_codec :: store_codec
  ml_tickets :: ticket_crypto
  ml_net :: net_lib
  ml_QR :: "string \<Rightarrow> bool"

text \<open>What one call finds: the clocks, the random bytes and the system calls that fail.\<close>

record call_env =
  ce_times :: flow_times
  ce_save :: save_env
  ce_now :: time
  ce_ID :: "bytes option"
  ce_secret :: "bytes option"
  ce_route :: random
  ce_agentCall :: "time \<times> random \<times> random"
  ce_clientCall :: "time \<times> random \<times> random"

record pairingDeviceRow =
  dr_DeviceID :: string
  dr_Name :: string
  dr_Platform :: string
  dr_Fingerprint :: string
  dr_Revoked :: bool

fun device_rows :: "crypto \<Rightarrow> AuthorizedDevice list \<Rightarrow> device_error + pairingDeviceRow list" where
  "device_rows cr [] = Inr []"
| "device_rows cr (d # ds) =
     (case Fingerprint cr (Some (av_Device d)) of
        Inl e \<Rightarrow> Inl e
      | Inr fingerprint \<Rightarrow>
          (case device_rows cr ds of
             Inl e \<Rightarrow> Inl e
           | Inr rows \<Rightarrow>
               (let descriptor = descriptor_of (av_Device d) in
                Inr (\<lparr>dr_DeviceID = RawURL_Encode (dd_DeviceId descriptor), dr_Name = dd_DisplayName descriptor,
                      dr_Platform = dd_Platform descriptor, dr_Fingerprint = fingerprint,
                      dr_Revoked = (av_State d = STATE_REVOKED)\<rparr> # rows))))"

definition deviceRows :: "crypto \<Rightarrow> Store \<Rightarrow> device_error + pairingDeviceRow list" where
  "deviceRows cr s = (case AuthorizedDevices cr True s of Inl e \<Rightarrow> Inl e | Inr devices \<Rightarrow> device_rows cr devices)"

definition TrimSuffix :: "string \<Rightarrow> string \<Rightarrow> string" where
  "TrimSuffix s suf = (if has_suffix s suf then take (length s - length suf) s else s)"

text \<open>The creation of an invitation with its link and QR code, common to two pages.\<close>

definition create_invitation ::
    "management_libs \<Rightarrow> call_env \<Rightarrow> ('h, 'c) agentManagement \<Rightarrow> ('h, 'c) agentManagement \<times> bool" where
  "create_invitation lb ce m =
     (let flows = am_flows m;
          connectionHint = TrimSuffix (am_pairingBase m) ''/'' @ ''/pairing/v1''
      in case (Create (ml_crypto lb) (ml_pairing lb) (ds_Descriptor (ml_crypto lb) (co_identity flows))
                (ce_ID ce) (ce_secret ce) (ce_now ce) [connectionHint] (co_invitations flows)
                :: _ \<times> (unit pairing_error + PairingInvitation)) of
           (_, Inl e) \<Rightarrow> (m, False)
         | (invitations, Inr invitation) \<Rightarrow>
             (m\<lparr>am_flows := flows\<lparr>co_invitations := invitations\<rparr>\<rparr>,
              case (FragmentURL (ml_crypto lb) (ml_pairing lb) (am_pairingBase m) (Some invitation)
                     :: unit pairing_error + string) of
                Inl _ \<Rightarrow> False
              | Inr target \<Rightarrow> ml_QR lb target))"

definition pairingPageHandler ::
    "management_libs \<Rightarrow> call_env \<Rightarrow> http_request \<Rightarrow> ('h, 'c) agentManagement \<Rightarrow> ('h, 'c) agentManagement \<times> int" where
  "pairingPageHandler lb ce request m =
     (if hr_Method request \<noteq> ''GET'' then (m, 405)
      else case authorizeLocalManagement (ml_net lb) request (am_token m) of
        Some status \<Rightarrow> (m, status)
      | None \<Rightarrow>
          (case co_Current (ce_times ce) (am_flows m) of (flows, waiting) \<Rightarrow>
           let m = m\<lparr>am_flows := flows\<rparr>; cr = ml_crypto lb in
           case ds_Descriptor cr (co_identity flows) of Inl _ \<Rightarrow> (m, 500) | Inr descriptor \<Rightarrow>
           case Fingerprint cr (Some descriptor) of Inl _ \<Rightarrow> (m, 500) | Inr _ \<Rightarrow>
           case deviceRows cr (co_identity flows) of Inl _ \<Rightarrow> (m, 500) | Inr _ \<Rightarrow>
           if am_pairingBase m \<noteq> [] \<and> waiting = None
           then (case create_invitation lb ce m of (m, ok) \<Rightarrow> (m, if ok then 200 else 500))
           else (m, 200)))"

definition pairingStatusHandler ::
    "management_libs \<Rightarrow> call_env \<Rightarrow> http_request \<Rightarrow> ('h, 'c) agentManagement \<Rightarrow> ('h, 'c) agentManagement \<times> int" where
  "pairingStatusHandler lb ce request m =
     (if hr_Method request \<noteq> ''GET'' then (m, 405)
      else case authorizeLocalManagement (ml_net lb) request (am_token m) of
        Some status \<Rightarrow> (m, status)
      | None \<Rightarrow> (m\<lparr>am_flows := fst (co_Current (ce_times ce) (am_flows m))\<rparr>, 200))"

text \<open>The form value as 16 bytes in unpadded base64.\<close>

definition form_id :: "http_request \<Rightarrow> string \<Rightarrow> bytes option" where
  "form_id request field0 =
     (case hr_PostForm request of None \<Rightarrow> None | Some form \<Rightarrow>
      case RawURL_Decode (form field0) of
        None \<Rightarrow> None
      | Some decoded \<Rightarrow> (if length decoded \<noteq> 16 then None else Some decoded))"

definition decision_status :: "approve_error option \<Rightarrow> int" where
  "decision_status err =
     (case err of
        None \<Rightarrow> 303
      | Some (FlowErr e) \<Rightarrow> (if e = ErrFlowUnavailable \<or> e = ErrFlowState then 409 else 500)
      | Some (InvitationErr _) \<Rightarrow> 500)"

definition pairingDecisionHandler ::
    "management_libs \<Rightarrow> bool \<Rightarrow> call_env \<Rightarrow> http_request \<Rightarrow> ('h, 'c) agentManagement \<Rightarrow> ('h, 'c) agentManagement \<times> int" where
  "pairingDecisionHandler lb approve ce request m =
     (if hr_Method request \<noteq> ''POST'' then (m, 405)
      else case authorizeLocalManagement (ml_net lb) request (am_token m) of
        Some status \<Rightarrow> (m, status)
      | None \<Rightarrow>
          (case hr_PostForm request of None \<Rightarrow> (m, 400) | Some form \<Rightarrow>
           case form_id request ''flow_id'' of None \<Rightarrow> (m, 400) | Some _ \<Rightarrow>
           let flowID = form ''flow_id'' in
           case (if approve then co_Approve (ml_crypto lb) (ml_codec lb) (ce_save ce) (ce_times ce) flowID (am_flows m)
                 else co_Reject (ce_times ce) flowID (am_flows m)) of
             (flows, err) \<Rightarrow> (m\<lparr>am_flows := flows\<rparr>, decision_status err)))"

definition revokeDeviceHandler ::
    "management_libs \<Rightarrow> call_env \<Rightarrow> http_request \<Rightarrow> ('h, 'c) agentManagement \<Rightarrow> ('h, 'c) agentManagement \<times> int" where
  "revokeDeviceHandler lb ce request m =
     (if hr_Method request \<noteq> ''POST'' then (m, 405)
      else case authorizeLocalManagement (ml_net lb) request (am_token m) of
        Some status \<Rightarrow> (m, status)
      | None \<Rightarrow>
          (case form_id request ''device_id'' of None \<Rightarrow> (m, 400) | Some deviceID \<Rightarrow>
           let flows = am_flows m in
           case Revoke (ml_crypto lb) (ml_codec lb) (ce_save ce) (ce_now ce) deviceID (co_identity flows) (co_dir flows) of
             (s, dir, outcome) \<Rightarrow>
               (m\<lparr>am_flows := flows\<lparr>co_identity := s, co_dir := dir\<rparr>\<rparr>,
                case outcome of Inr _ \<Rightarrow> 303 | Inl e \<Rightarrow> (if e = ErrDeviceNotFound then 404 else 500))))"

text \<open>The goroutine the handler starts connects the route; that is a later step of the relay manager.\<close>

definition relayProvisionHandler ::
    "management_libs \<Rightarrow> call_env \<Rightarrow> http_request \<Rightarrow> ('h, 'c) agentManagement \<Rightarrow> ('h, 'c) agentManagement \<times> int" where
  "relayProvisionHandler lb ce request m =
     (if hr_Method request \<noteq> ''POST'' then (m, 405)
      else case authorizeLocalManagement (ml_net lb) request (am_token m) of
        Some status \<Rightarrow> (m, status)
      | None \<Rightarrow>
          (case am_relayManager m of None \<Rightarrow> (m, 503) | Some relay \<Rightarrow>
           case hr_ClientDeviceID request of None \<Rightarrow> (m, 400) | Some encoded \<Rightarrow>
           case RawURL_Decode encoded of None \<Rightarrow> (m, 400) | Some clientDeviceID \<Rightarrow>
           if length clientDeviceID \<noteq> 16 then (m, 400)
           else case Provision (ml_tickets lb) clientDeviceID (ce_route ce) (ce_agentCall ce) (ce_clientCall ce) relay of
             (relay, Inl _) \<Rightarrow> (m\<lparr>am_relayManager := Some relay\<rparr>, 500)
           | (relay, Inr (clientTicket, _)) \<Rightarrow>
               (m\<lparr>am_relayManager := Some relay\<rparr>, if marshal_ticket (ml_tickets lb) clientTicket = None then 500 else 200)))"

definition rateLimitMiddleware ::
    "(('h, 'c) agentManagement \<Rightarrow> ('h, 'c) agentManagement \<times> int) \<Rightarrow> call_env \<Rightarrow> http_request \<Rightarrow> ('h, 'c) agentManagement \<Rightarrow>
     ('h, 'c) agentManagement \<times> int" where
  "rateLimitMiddleware handler ce request m =
     (case allow (ce_now ce) (clientIP request) (am_provisionLimiter m) of
        (limiter, allowed0) \<Rightarrow>
          (let m = m\<lparr>am_provisionLimiter := limiter\<rparr> in if \<not> allowed0 then (m, 429) else handler m))"

definition relayStatusHandler ::
    "management_libs \<Rightarrow> http_request \<Rightarrow> ('h, 'c) agentManagement \<Rightarrow> ('h, 'c) agentManagement \<times> int" where
  "relayStatusHandler lb request m =
     (if hr_Method request \<noteq> ''GET'' then (m, 405)
      else case authorizeLocalManagement (ml_net lb) request (am_token m) of Some status \<Rightarrow> (m, status) | None \<Rightarrow> (m, 200))"

definition infoHandler ::
    "management_libs \<Rightarrow> call_env \<Rightarrow> http_request \<Rightarrow> ('h, 'c) agentManagement \<Rightarrow> ('h, 'c) agentManagement \<times> int" where
  "infoHandler lb ce request m =
     (case authorizeLocalManagement (ml_net lb) request (am_token m) of
        Some status \<Rightarrow> (m, status)
      | None \<Rightarrow>
          (case deviceRows (ml_crypto lb) (co_identity (am_flows m)) of
             Inl _ \<Rightarrow> (m, 500)
           | Inr _ \<Rightarrow> (m\<lparr>am_flows := fst (co_Current (ce_times ce) (am_flows m))\<rparr>, 200)))"

definition pairingCodeHandler ::
    "management_libs \<Rightarrow> call_env \<Rightarrow> http_request \<Rightarrow> ('h, 'c) agentManagement \<Rightarrow> ('h, 'c) agentManagement \<times> int" where
  "pairingCodeHandler lb ce request m =
     (case authorizeLocalManagement (ml_net lb) request (am_token m) of
        Some status \<Rightarrow> (m, status)
      | None \<Rightarrow>
          (if am_pairingBase m = [] then (m, 503)
           else case create_invitation lb ce m of (m, ok) \<Rightarrow> (m, if ok then 200 else 500)))"

text \<open>The routes of the management pages; \<open>None\<close> is a path of the application or of the pairing endpoint.\<close>

definition serve_management ::
    "management_libs \<Rightarrow> call_env \<Rightarrow> http_request \<Rightarrow> ('h, 'c) agentManagement \<Rightarrow> (('h, 'c) agentManagement \<times> int) option" where
  "serve_management lb ce request m =
     (let path = hr_Path request in
      if path = ''/agent/pair'' then Some (pairingPageHandler lb ce request m)
      else if path = ''/agent/pairing/status'' then Some (pairingStatusHandler lb ce request m)
      else if path = ''/agent/pairing/approve'' then Some (pairingDecisionHandler lb True ce request m)
      else if path = ''/agent/pairing/reject'' then Some (pairingDecisionHandler lb False ce request m)
      else if path = ''/agent/devices/revoke'' then Some (revokeDeviceHandler lb ce request m)
      else if path = ''/agent/relay/provision'' then Some (rateLimitMiddleware (relayProvisionHandler lb ce request) ce request m)
      else if path = ''/agent/relay/status'' then Some (relayStatusHandler lb request m)
      else if path = ''/agent/info'' then Some (infoHandler lb ce request m)
      else if path = ''/agent/pairing/code'' then Some (pairingCodeHandler lb ce request m)
      else None)"

datatype management_error = NilApplication | EmptyToken | NilDependencies | ListenAddressInvalid

text \<open>\<open>pairingBase\<close> is the result of \<^verbatim>\<open>phonePairingBaseURL\<close>.\<close>

definition newAgentHTTPHandler ::
    "bool \<Rightarrow> string \<Rightarrow> ('h, 'c) Coordinator option \<Rightarrow> string option \<Rightarrow> Relay_Client.Manager option \<Rightarrow>
     management_error + ('h, 'c) agentManagement" where
  "newAgentHTTPHandler application token flows pairingBase relay =
     (if \<not> application then Inl NilApplication
      else if token = [] then Inl EmptyToken
      else case flows of None \<Rightarrow> Inl NilDependencies | Some co \<Rightarrow>
      case pairingBase of None \<Rightarrow> Inl ListenAddressInvalid | Some base \<Rightarrow>
        Inr \<lparr>am_token = token, am_pairingBase = base, am_flows = co, am_relayManager = relay,
             am_provisionLimiter = newRateLimiter 10 minute\<rparr>)"

section \<open>The pairing endpoint\<close>

definition maxPairingFrameBytes :: nat where "maxPairingFrameBytes = 64 * 1024"

definition pairingSubprotocol :: string where "pairingSubprotocol = ''vibebridge.pairing.v1''"

text \<open>The parts of an upgrade request, with the parsed \<^verbatim>\<open>Origin\<close> header and its path.\<close>

record upgrade_request =
  ur_Method :: string
  ur_RawQuery :: string
  ur_Subprotocols :: "string list"
  ur_Host :: string
  ur_Origin :: string
  ur_OriginURL :: "(URL \<times> string) option"

definition offersPairingSubprotocol :: "upgrade_request \<Rightarrow> bool" where
  "offersPairingSubprotocol request \<longleftrightarrow> list_ex (\<lambda>offered. offered = pairingSubprotocol) (ur_Subprotocols request)"

definition samePairingOrigin :: "upgrade_request \<Rightarrow> bool" where
  "samePairingOrigin request \<longleftrightarrow>
     ur_Origin request \<noteq> [] \<and>
     (case ur_OriginURL request of
        None \<Rightarrow> False
      | Some (parsed, path) \<Rightarrow>
          (url_Scheme parsed = ''http'' \<or> url_Scheme parsed = ''https'') \<and> \<not> url_User parsed \<and>
          url_Host parsed = ur_Host request \<and> url_RawQuery parsed = [] \<and> url_Fragment parsed = [] \<and>
          (path = [] \<or> path = ''/'') \<and> CHR 0x5C \<notin> set (ur_Origin request))"

text \<open>The status of a refused upgrade; \<open>upgrades\<close> says whether the library accepts the rest of the request.\<close>

definition pairing_upgrade :: "bool \<Rightarrow> upgrade_request \<Rightarrow> int option" where
  "pairing_upgrade upgrades request =
     (if ur_Method request \<noteq> ''GET'' then Some 405
      else if ur_RawQuery request \<noteq> [] \<or> \<not> offersPairingSubprotocol request then Some 426
      else if \<not> samePairingOrigin request then Some 403
      else if \<not> upgrades then Some 400
      else None)"

record ('h, 'c) endpoint_libs =
  el_crypto :: crypto
  el_noise :: "('h, 'c) noise_lib"
  el_codec :: pairing_codec
  el_start :: "bytes \<Rightarrow> PairingHandshakeStart option"
  el_finish :: "bytes \<Rightarrow> bytes option"
  el_response :: "bytes \<Rightarrow> bytes option"
  el_approval :: "PairingApproval \<Rightarrow> bytes option"

datatype 'c endpoint_phase = AwaitStart | AwaitFinish string | AwaitDecision string "'c Session" | Ended

record 'c pairing_connection =
  pc_phase :: "'c endpoint_phase"
  pc_sent :: "bytes list"
  pc_closes :: "int list"

text \<open>\<open>unmarshal\<close> also refuses unknown fields.\<close>

definition readPairingFrame :: "(bytes \<Rightarrow> 'm option) \<Rightarrow> read_result \<Rightarrow> 'm option" where
  "readPairingFrame unmarshal r =
     (case r of
        ReadFailed _ \<Rightarrow> None
      | ReadFrame messageType encoded \<Rightarrow>
          (if messageType \<noteq> BinaryMessage \<or> encoded = [] \<or> length encoded > maxPairingFrameBytes then None
           else unmarshal encoded))"

text \<open>\<open>sends\<close> says whether the library writes the frame.\<close>

definition writePairingBytes :: "bool \<Rightarrow> bytes \<Rightarrow> 'c pairing_connection \<Rightarrow> 'c pairing_connection option" where
  "writePairingBytes sends encoded c =
     (if encoded = [] \<or> length encoded > maxPairingFrameBytes \<or> \<not> sends then None
      else Some (c\<lparr>pc_sent := pc_sent c @ [encoded]\<rparr>))"

definition writePairingFrame ::
    "('m \<Rightarrow> bytes option) \<Rightarrow> bool \<Rightarrow> 'm \<Rightarrow> 'c pairing_connection \<Rightarrow> 'c pairing_connection option" where
  "writePairingFrame marshal sends message c =
     (case marshal message of
        None \<Rightarrow> None
      | Some encoded \<Rightarrow>
          (if encoded = [] \<or> length encoded > maxPairingFrameBytes then None else writePairingBytes sends encoded c))"

text \<open>The return of the handler, with the close code it writes and the deferred cancellation.\<close>

definition endpoint_return ::
    "int option \<Rightarrow> (flow_times \<times> string) option \<Rightarrow> 'c pairing_connection \<Rightarrow> ('h, 'c) Coordinator \<Rightarrow>
     'c pairing_connection \<times> ('h, 'c) Coordinator" where
  "endpoint_return code flow0 c co =
     (c\<lparr>pc_phase := Ended, pc_closes := pc_closes c @ (case code of None \<Rightarrow> [] | Some k \<Rightarrow> [k])\<rparr>,
      case flow0 of None \<Rightarrow> co | Some (ft, flowID) \<Rightarrow> co_Cancel ft flowID co)"

abbreviation (input) CloseNormalClosure :: int where "CloseNormalClosure \<equiv> 1000"
abbreviation (input) CloseProtocolError :: int where "CloseProtocolError \<equiv> 1002"
abbreviation (input) PolicyViolation :: int where "PolicyViolation \<equiv> 1008"

definition endpoint_start ::
    "('h, 'c) endpoint_libs \<Rightarrow> flow_times \<Rightarrow> flow_times \<Rightarrow> bytes option \<Rightarrow> bytes \<Rightarrow> bool \<Rightarrow> read_result \<Rightarrow>
     'c pairing_connection \<Rightarrow> ('h, 'c) Coordinator \<Rightarrow> 'c pairing_connection \<times> ('h, 'c) Coordinator" where
  "endpoint_start el ft ft' flowIDRaw random sends r c co =
     (case readPairingFrame (el_start el) r of
        None \<Rightarrow> endpoint_return (Some CloseProtocolError) None c co
      | Some start \<Rightarrow>
          (case co_Start (el_crypto el) (el_noise el) (el_codec el) ft flowIDRaw random (Some start) co of
             (co, Inl _) \<Rightarrow> endpoint_return (Some PolicyViolation) None c co
           | (co, Inr (flowID, response)) \<Rightarrow>
               (case writePairingFrame (el_response el) sends response c of
                  None \<Rightarrow> endpoint_return None (Some (ft', flowID)) c co
                | Some c \<Rightarrow> (c\<lparr>pc_phase := AwaitFinish flowID\<rparr>, co))))"

definition endpoint_finish ::
    "('h, 'c) endpoint_libs \<Rightarrow> flow_times \<Rightarrow> flow_times \<Rightarrow> bool \<Rightarrow> read_result \<Rightarrow> string \<Rightarrow>
     'c pairing_connection \<Rightarrow> ('h, 'c) Coordinator \<Rightarrow> 'c pairing_connection \<times> ('h, 'c) Coordinator" where
  "endpoint_finish el ft ft' sends r flowID c co =
     (case readPairingFrame (el_finish el) r of
        None \<Rightarrow> endpoint_return (Some CloseProtocolError) (Some (ft', flowID)) c co
      | Some fin \<Rightarrow>
          (case co_Finish (el_crypto el) (el_noise el) (el_codec el) ft flowID (Some fin) co of
             (co, Inl _) \<Rightarrow> endpoint_return (Some PolicyViolation) (Some (ft', flowID)) c co
           | (co, Inr session) \<Rightarrow>
               (case se_Encrypt (el_noise el) (el_approval el)
                       (Some \<lparr>pa_Status = STATUS_PENDING, pa_AuthorizationVersion = 0\<rparr>) session of
                  (_, Inl _) \<Rightarrow> endpoint_return None (Some (ft', flowID)) c co
                | (session, Inr frame) \<Rightarrow>
                    (case writePairingBytes sends frame c of
                       None \<Rightarrow> endpoint_return None (Some (ft', flowID)) c co
                     | Some c \<Rightarrow> (c\<lparr>pc_phase := AwaitDecision flowID session\<rparr>, co)))))"

text \<open>The three branches of the final \<^verbatim>\<open>select\<close>: a decision, a frame or error from the peer, the timer.\<close>

definition endpoint_decided ::
    "('h, 'c) endpoint_libs \<Rightarrow> flow_times \<Rightarrow> bool \<Rightarrow> decision \<Rightarrow> string \<Rightarrow> 'c Session \<Rightarrow>
     'c pairing_connection \<Rightarrow> ('h, 'c) Coordinator \<Rightarrow> 'c pairing_connection \<times> ('h, 'c) Coordinator" where
  "endpoint_decided el ft sends d flowID session c co =
     (case d of
        Inl _ \<Rightarrow> endpoint_return (Some PolicyViolation) (Some (ft, flowID)) c co
      | Inr approval \<Rightarrow>
          (case snd (se_Encrypt (el_noise el) (el_approval el) (Some approval) session) of
             Inl _ \<Rightarrow> endpoint_return None (Some (ft, flowID)) c co
           | Inr finalFrame \<Rightarrow>
               (case writePairingBytes sends finalFrame c of
                  None \<Rightarrow> endpoint_return None (Some (ft, flowID)) c co
                | Some c \<Rightarrow> endpoint_return (Some CloseNormalClosure) (Some (ft, flowID)) c co)))"

inductive endpoint_step ::
    "('h, 'c) endpoint_libs \<Rightarrow> 'c pairing_connection \<times> ('h, 'c) Coordinator \<Rightarrow> 'c pairing_connection \<times> ('h, 'c) Coordinator \<Rightarrow> bool"
  for el where
  step_start: "pc_phase c = AwaitStart \<Longrightarrow> endpoint_step el (c, co) (endpoint_start el ft ft' flowIDRaw random sends r c co)"
| step_finish: "pc_phase c = AwaitFinish flowID \<Longrightarrow> endpoint_step el (c, co) (endpoint_finish el ft ft' sends r flowID c co)"
| step_decided: "pc_phase c = AwaitDecision flowID session \<Longrightarrow> se_Wait session co = (co', Some d) \<Longrightarrow>
    endpoint_step el (c, co) (endpoint_decided el ft sends d flowID session c co')"
| step_peer: "pc_phase c = AwaitDecision flowID session \<Longrightarrow>
    endpoint_step el (c, co) (endpoint_return None (Some (ft, flowID)) c co)"
| step_timer: "pc_phase c = AwaitDecision flowID session \<Longrightarrow>
    endpoint_step el (c, co) (endpoint_return (Some PolicyViolation) (Some (ft, flowID)) c co)"

section \<open>Recovery\<close>

datatype recover_error = ConfirmationRequired | IdentityNotFound | IdentityOpen device_error | DeviceList device_error | RevokeFailed device_error

text \<open>The loop over the devices; the environment and the clock of each call are given by the number of devices left.\<close>

fun revoke_each ::
    "crypto \<Rightarrow> store_codec \<Rightarrow> (nat \<Rightarrow> save_env \<times> time) \<Rightarrow> AuthorizedDevice list \<Rightarrow> Store \<Rightarrow> directory \<Rightarrow>
     Store \<times> directory \<times> recover_error option" where
  "revoke_each cr cd envs [] s dir = (s, dir, None)"
| "revoke_each cr cd envs (d # ds) s dir =
     (case Revoke cr cd (fst (envs (length ds))) (snd (envs (length ds))) (dd_DeviceId (descriptor_of (av_Device d))) s dir of
        (s, dir, Inl e) \<Rightarrow> (s, dir, Some (RevokeFailed e))
      | (s, dir, Inr _) \<Rightarrow> revoke_each cr cd envs ds s dir)"

text \<open>\<open>loadOrCreate\<close> is \<^verbatim>\<open>LoadOrCreate\<close> on the path; \<open>found\<close> says whether the file exists.\<close>

definition recoverRevokeAll ::
    "crypto \<Rightarrow> store_codec \<Rightarrow> (nat \<Rightarrow> save_env \<times> time) \<Rightarrow> bool \<Rightarrow> bool \<Rightarrow> (directory \<Rightarrow> directory \<times> (device_error + Store)) \<Rightarrow>
     directory \<Rightarrow> directory \<times> (recover_error + Store)" where
  "recoverRevokeAll cr cd envs confirmed found loadOrCreate dir =
     (if \<not> confirmed then (dir, Inl ConfirmationRequired)
      else if \<not> found then (dir, Inl IdentityNotFound)
      else case loadOrCreate dir of (dir, Inl e) \<Rightarrow> (dir, Inl (IdentityOpen e)) | (dir, Inr s) \<Rightarrow>
      case AuthorizedDevices cr False s of Inl e \<Rightarrow> (dir, Inl (DeviceList e)) | Inr devices \<Rightarrow>
      if devices = [] then (dir, Inr s)
      else case revoke_each cr cd envs devices s dir of
        (s, dir, Some e) \<Rightarrow> (dir, Inl e)
      | (s, dir, None) \<Rightarrow> (dir, Inr s))"

definition authorizedDeviceCount :: "crypto \<Rightarrow> Store \<Rightarrow> nat" where
  "authorizedDeviceCount cr s = (case AuthorizedDevices cr False s of Inl _ \<Rightarrow> 0 | Inr devices \<Rightarrow> length devices)"

datatype recover_choice = RecoverList | RecoverRevokeAll | RecoverAuthorizeNew

definition recover_choice_of :: "bool \<Rightarrow> bool \<Rightarrow> bool \<Rightarrow> string + recover_choice" where
  "recover_choice_of list0 revokeAll authorizeNew =
     (let count = length (filter id [list0, revokeAll, authorizeNew]) in
      if count = 0 then Inl ''specify one of --list, --revoke-all, or --authorize-new''
      else if count > 1 then Inl ''--list, --revoke-all, and --authorize-new are mutually exclusive''
      else if list0 then Inr RecoverList
      else if revokeAll then Inr RecoverRevokeAll
      else Inr RecoverAuthorizeNew)"

end
