(* ===== verification/Management_Safety.thy ===== *)
theory Management_Safety
  imports Management
begin

text \<open>
  What the management pages, the pairing endpoint and the recovery command guarantee: only local
  requests with the token manage anything, the endpoint that phones reach can neither authorize
  a device nor leave a flow behind, and a recovery leaves no device authorized.
\<close>

section \<open>Only local requests with the token\<close>

definition authorized_request :: "net_lib \<Rightarrow> http_request \<Rightarrow> string \<Rightarrow> bool" where
  "authorized_request nt request token \<longleftrightarrow> isLocalMachineRemote nt (hr_RemoteAddr request) \<and> hr_Token request = token"

lemma authorizeLocalManagement_None:
  "authorizeLocalManagement nt request token = None \<longleftrightarrow> authorized_request nt request token"
  by (simp add: authorizeLocalManagement_def authorized_request_def)

lemma authorizeLocalManagement_Some:
  "authorizeLocalManagement nt request token = Some status \<Longrightarrow> status = 403 \<or> status = 401"
  by (auto simp: authorizeLocalManagement_def split: if_splits)

text \<open>A handler that refuses unauthorized requests before it does anything.\<close>

definition guarded :: "net_lib \<Rightarrow> http_request \<Rightarrow> ('h, 'c) agentManagement \<Rightarrow> ('h, 'c) agentManagement \<times> int \<Rightarrow> bool" where
  "guarded nt request m out \<longleftrightarrow>
     (authorized_request nt request (am_token m) \<or>
      am_flows (fst out) = am_flows m \<and> am_relayManager (fst out) = am_relayManager m \<and> snd out \<in> {401, 403, 405, 429})"

lemma not_authorized:
  "\<not> authorized_request nt request token \<Longrightarrow> \<exists>status. authorizeLocalManagement nt request token = Some status \<and> (status = 403 \<or> status = 401)"
  using authorizeLocalManagement_Some authorizeLocalManagement_None by (metis not_None_eq)

lemma guarded_handlers:
  "guarded (ml_net lb) request m (pairingPageHandler lb ce request m) \<and>
   guarded (ml_net lb) request m (pairingStatusHandler lb ce request m) \<and>
   guarded (ml_net lb) request m (pairingDecisionHandler lb approve ce request m) \<and>
   guarded (ml_net lb) request m (revokeDeviceHandler lb ce request m) \<and>
   guarded (ml_net lb) request m (relayProvisionHandler lb ce request m) \<and>
   guarded (ml_net lb) request m (relayStatusHandler lb request m) \<and>
   guarded (ml_net lb) request m (infoHandler lb ce request m) \<and>
   guarded (ml_net lb) request m (pairingCodeHandler lb ce request m)"
proof (cases "authorized_request (ml_net lb) request (am_token m)")
  case False
  then obtain status where "authorizeLocalManagement (ml_net lb) request (am_token m) = Some status" "status = 403 \<or> status = 401"
    using not_authorized by blast
  then show ?thesis
    by (auto simp: guarded_def pairingPageHandler_def pairingStatusHandler_def pairingDecisionHandler_def
        revokeDeviceHandler_def relayProvisionHandler_def relayStatusHandler_def infoHandler_def pairingCodeHandler_def)
qed (simp add: guarded_def)

lemma guarded_limited:
  "guarded (ml_net lb) request m (rateLimitMiddleware (relayProvisionHandler lb ce request) ce request m)"
proof -
  obtain limiter ok where a: "allow (ce_now ce) (clientIP request) (am_provisionLimiter m) = (limiter, ok)" by fastforce
  have "guarded (ml_net lb) request (m\<lparr>am_provisionLimiter := limiter\<rparr>)
      (relayProvisionHandler lb ce request (m\<lparr>am_provisionLimiter := limiter\<rparr>))" using guarded_handlers by blast
  then show ?thesis using a by (cases ok) (simp_all add: rateLimitMiddleware_def guarded_def)
qed

lemma serve_guarded: "serve_management lb ce request m = Some out \<Longrightarrow> guarded (ml_net lb) request m out"
  using guarded_handlers [of lb request m ce True] guarded_handlers [of lb request m ce False] guarded_limited [of lb request m ce]
  by (auto simp: serve_management_def Let_def split: if_splits)

lemma create_invitation_store:
  "co_identity (am_flows (fst (create_invitation lb ce m))) = co_identity (am_flows m)"
  by (auto simp: create_invitation_def Let_def split: prod.splits sum.splits)

lemma co_Current_identity [simp]: "co_identity (fst (co_Current ft co)) = co_identity co"
  by (simp add: co_Current_def Let_def)

lemma co_Reject_identity: "co_Reject ft i co = (co', res) \<Longrightarrow> co_identity co' = co_identity co"
  by (auto simp: co_Reject_def Let_def split: sum.splits if_splits prod.splits option.splits)

text \<open>The pages that only show something leave the devices alone.\<close>

lemma pages_store:
  "co_identity (am_flows (fst (pairingPageHandler lb ce request m))) = co_identity (am_flows m)"
  "co_identity (am_flows (fst (pairingStatusHandler lb ce request m))) = co_identity (am_flows m)"
  "co_identity (am_flows (fst (pairingDecisionHandler lb False ce request m))) = co_identity (am_flows m)"
  "co_identity (am_flows (fst (relayProvisionHandler lb ce request m))) = co_identity (am_flows m)"
  "co_identity (am_flows (fst (relayStatusHandler lb request m))) = co_identity (am_flows m)"
  "co_identity (am_flows (fst (infoHandler lb ce request m))) = co_identity (am_flows m)"
  "co_identity (am_flows (fst (pairingCodeHandler lb ce request m))) = co_identity (am_flows m)"
proof -
  show "co_identity (am_flows (fst (pairingPageHandler lb ce request m))) = co_identity (am_flows m)"
    using create_invitation_store [of lb ce "m\<lparr>am_flows := expireLocked (ce_times ce) (am_flows m)\<rparr>"]
    by (auto simp: pairingPageHandler_def co_Current_def Let_def split: option.splits sum.splits prod.splits)
  show "co_identity (am_flows (fst (pairingDecisionHandler lb False ce request m))) = co_identity (am_flows m)"
    by (auto simp: pairingDecisionHandler_def Let_def dest: co_Reject_identity split: option.splits prod.splits)
  show "co_identity (am_flows (fst (pairingCodeHandler lb ce request m))) = co_identity (am_flows m)"
    using create_invitation_store [of lb ce m] by (auto simp: pairingCodeHandler_def split: option.splits prod.splits)
qed (auto simp: pairingStatusHandler_def relayProvisionHandler_def relayStatusHandler_def infoHandler_def
    split: option.splits sum.splits prod.splits)

lemma decision_store:
  assumes "pairingDecisionHandler lb True ce request m = (m', status)" "co_identity (am_flows m') \<noteq> co_identity (am_flows m)"
  shows "hr_Method request = ''POST'' \<and> (\<exists>form f v dir'. hr_PostForm request = Some form \<and> co_active (am_flows m) = Some f \<and>
    fl_id f = form ''flow_id'' \<and> sn_State (fl_snapshot f) = StatePending \<and>
    Authorize (ml_crypto lb) (ml_codec lb) (ce_save ce) (ft_store (ce_times ce)) (Some (fl_peer f)) (co_identity (am_flows m))
      (co_dir (am_flows m)) = (co_identity (am_flows m'), dir', Inr v))"
proof -
  have "m' \<noteq> m" using assms(2) by blast
  then have post: "hr_Method request = ''POST''" and auth: "authorizeLocalManagement (ml_net lb) request (am_token m) = None"
    using assms(1) by (auto simp: pairingDecisionHandler_def split: if_splits option.splits)
  obtain form k where form: "hr_PostForm request = Some form" "form_id request ''flow_id'' = Some k"
    using assms(1) \<open>m' \<noteq> m\<close> post auth
    by (cases "hr_PostForm request"; cases "form_id request ''flow_id''") (simp_all add: pairingDecisionHandler_def)
  obtain flows err where a:
    "co_Approve (ml_crypto lb) (ml_codec lb) (ce_save ce) (ce_times ce) (form ''flow_id'') (am_flows m) = (flows, err)"
    by fastforce
  have "m' = m\<lparr>am_flows := flows\<rparr>" using assms(1) post auth form a by (simp add: pairingDecisionHandler_def Let_def)
  then show ?thesis
    using co_Approve_flow(2) [OF a] assms(2) unexpired_flow [of "ce_times ce" "am_flows m"] post form(1) by auto
qed

lemma revoke_store:
  assumes "revokeDeviceHandler lb ce request m = (m', status)" "valid (ml_crypto lb) (st_state (co_identity (am_flows m)))"
  shows "co_identity (am_flows m') \<noteq> co_identity (am_flows m) \<Longrightarrow> hr_Method request = ''POST'' \<and> status = 303"
    "status = 303 \<Longrightarrow> \<exists>k v. form_id request ''device_id'' = Some k \<and>
       AuthorizedDevice_of (ml_crypto lb) k (co_identity (am_flows m')) = Inr v \<and> av_State v = STATE_REVOKED"
proof -
  let ?cr = "ml_crypto lb" and ?flows = "am_flows m"
  have refused: "authorizeLocalManagement (ml_net lb) request (am_token m) = Some st \<Longrightarrow> st \<noteq> 303" for st
    using authorizeLocalManagement_Some by fastforce
  consider "m' = m" "status \<noteq> 303"
    | k s dir res where "hr_Method request = ''POST''" "form_id request ''device_id'' = Some k"
      "Revoke ?cr (ml_codec lb) (ce_save ce) (ce_now ce) k (co_identity ?flows) (co_dir ?flows) = (s, dir, res)"
      "m' = m\<lparr>am_flows := ?flows\<lparr>co_identity := s, co_dir := dir\<rparr>\<rparr>" "status = 303 \<longleftrightarrow> (\<exists>v. res = Inr v)"
  proof (cases "hr_Method request = ''POST'' \<and> authorizeLocalManagement (ml_net lb) request (am_token m) = None \<and>
      form_id request ''device_id'' \<noteq> None")
    case True
    then obtain k where k: "form_id request ''device_id'' = Some k" by blast
    obtain s dir res where r: "Revoke ?cr (ml_codec lb) (ce_save ce) (ce_now ce) k (co_identity ?flows) (co_dir ?flows) = (s, dir, res)"
      by (metis prod_cases3)
    show thesis
      by (rule that(2) [OF _ k r]) (use True k r assms(1) in \<open>auto simp: revokeDeviceHandler_def Let_def split: sum.splits if_splits\<close>)
  next
    case False
    show thesis
      by (rule that(1)) (use False assms(1) refused in \<open>auto simp: revokeDeviceHandler_def
        split: if_splits option.splits\<close>)
  qed
  then have "(co_identity (am_flows m') \<noteq> co_identity ?flows \<longrightarrow> hr_Method request = ''POST'' \<and> status = 303) \<and>
    (status = 303 \<longrightarrow> (\<exists>k v. form_id request ''device_id'' = Some k \<and>
       AuthorizedDevice_of ?cr k (co_identity (am_flows m')) = Inr v \<and> av_State v = STATE_REVOKED))"
  proof cases
    case 2
    note out = Revoke_outcome [OF assms(2) 2(3)]
    have "is_revoked ?cr s k" if "res = Inr v" for v
      using out that by (auto simp: revokes_def is_revoked_def)
    then show ?thesis using 2 out revoked_reported [of ?cr s k] by auto
  qed simp
  then show "co_identity (am_flows m') \<noteq> co_identity (am_flows m) \<Longrightarrow> hr_Method request = ''POST'' \<and> status = 303"
    "status = 303 \<Longrightarrow> \<exists>k v. form_id request ''device_id'' = Some k \<and>
       AuthorizedDevice_of ?cr k (co_identity (am_flows m')) = Inr v \<and> av_State v = STATE_REVOKED" by blast+
qed

lemma limited_store:
  "co_identity (am_flows (fst (rateLimitMiddleware (relayProvisionHandler lb ce request) ce request m))) = co_identity (am_flows m)"
proof -
  obtain limiter ok where "allow (ce_now ce) (clientIP request) (am_provisionLimiter m) = (limiter, ok)" by fastforce
  then show ?thesis by (cases ok) (simp_all add: rateLimitMiddleware_def pages_store(4))
qed



section \<open>The endpoint that phones reach\<close>

lemma co_Cancel_effect:
  "co_identity (co_Cancel ft i co) = co_identity co" "co_dir (co_Cancel ft i co) = co_dir co"
  "co_active (co_Cancel ft i co) = Some f \<Longrightarrow> co_active co = Some f \<and> fl_id f \<noteq> i"
  by (auto simp: co_Cancel_def split: option.splits if_splits)

lemma co_Start_dir: "co_Start cr nl pc ft raw random start co = (co', res) \<Longrightarrow> co_dir co' = co_dir co"
  by (auto simp: co_Start_def Let_def split: option.splits sum.splits if_splits prod.splits pairing_error.splits)

lemma co_Finish_dir: "co_Finish cr nl pc ft i fin co = (co', res) \<Longrightarrow> co_dir co' = co_dir co"
  by (auto simp: co_Finish_def Let_def split: option.splits sum.splits if_splits)

lemma co_Start_kept:
  assumes "co_Start cr nl pc ft raw random start co = (co', res)"
  shows "co_active co' = Some f \<Longrightarrow> co_active co = Some f \<or> (\<exists>response. res = Inr (fl_id f, response))"
  by (rule co_Start_flow [OF assms]) (auto dest: unexpired_flow)

lemma co_Finish_kept:
  assumes "co_Finish cr nl pc ft i fin co = (co', res)"
  shows "co_active co' = Some f \<Longrightarrow> co_active co = Some f \<or> fl_id f = i"
  using unexpired_flow [of ft co f] by - (rule co_Finish_flow [OF assms], auto)

fun flow_held :: "'c endpoint_phase \<Rightarrow> string option" where
  "flow_held (AwaitFinish i) = Some i"
| "flow_held (AwaitDecision i s) = Some i"
| "flow_held _ = None"

text \<open>What a step may do: to the store nothing, and a connection that ends takes its flow with it.\<close>

definition endpoint_ok ::
    "string option \<Rightarrow> ('h, 'c) Coordinator \<Rightarrow> 'c pairing_connection \<times> ('h, 'c) Coordinator \<Rightarrow> bool" where
  "endpoint_ok i co out \<longleftrightarrow>
     co_identity (snd out) = co_identity co \<and> co_dir (snd out) = co_dir co \<and>
     (pc_phase (fst out) = Ended \<longrightarrow>
       (\<forall>f. co_active (snd out) = Some f \<longrightarrow> co_active co = Some f \<and> i \<noteq> Some (fl_id f)))"

lemma return_ok:
  assumes "co_identity co1 = co_identity co" "co_dir co1 = co_dir co"
    and "\<And>f. co_active co1 = Some f \<Longrightarrow> co_active co = Some f \<or> fl_id f = j"
    and "i = None \<or> i = Some j"
  shows "endpoint_ok i co (endpoint_return code (Some (ft, j)) c co1)"
  using assms co_Cancel_effect [of ft j co1] by (auto simp: endpoint_ok_def endpoint_return_def)

lemma return_none_ok:
  assumes "co_identity co1 = co_identity co" "co_dir co1 = co_dir co" "\<And>f. co_active co1 = Some f \<Longrightarrow> co_active co = Some f"
  shows "endpoint_ok None co (endpoint_return code None c co1)"
  using assms by (simp add: endpoint_ok_def endpoint_return_def)

lemma start_ok: "endpoint_ok None co (endpoint_start el ft ft' raw random sends r c co)"
proof (cases "readPairingFrame (el_start el) r")
  case None
  then show ?thesis by (simp add: endpoint_start_def return_none_ok)
next
  case (Some st)
  obtain co1 res where s: "co_Start (el_crypto el) (el_noise el) (el_codec el) ft raw random (Some st) co = (co1, res)" by fastforce
  note same = co_Start_identity [OF s] co_Start_dir [OF s] and k = co_Start_kept [OF s]
  show ?thesis
  proof (cases res)
    case (Inl e)
    then show ?thesis using Some s same k by (simp add: endpoint_start_def return_none_ok)
  next
    case (Inr p)
    obtain i response where p: "p = (i, response)" by fastforce
    have "endpoint_ok None co (endpoint_return None (Some (ft', i)) c co1)" using same k Inr p by (intro return_ok) auto
    then show ?thesis
      using Some s same Inr p by (auto simp: endpoint_start_def endpoint_ok_def split: option.splits)
  qed
qed

lemma finish_ok: "endpoint_ok (Some i) co (endpoint_finish el ft ft' sends r i c co)"
proof (cases "readPairingFrame (el_finish el) r")
  case None
  then show ?thesis by (simp add: endpoint_finish_def return_ok)
next
  case (Some fin)
  obtain co1 res where s: "co_Finish (el_crypto el) (el_noise el) (el_codec el) ft i (Some fin) co = (co1, res)" by fastforce
  note same = co_Finish_identity [OF s] co_Finish_dir [OF s]
  have ret: "endpoint_ok (Some i) co (endpoint_return code (Some (ft', i)) c co1)" for code
    using same co_Finish_kept [OF s] by (intro return_ok) auto
  have stay: "pc_phase c' \<noteq> Ended \<Longrightarrow> endpoint_ok (Some i) co (c', co1)" for c' using same by (simp add: endpoint_ok_def)
  show ?thesis
    using Some s ret stay
    by (auto simp: endpoint_finish_def split: sum.splits prod.splits option.splits)
qed

lemma decided_ok:
  assumes "se_Wait session co = (co1, Some d)"
  shows "endpoint_ok (Some i) co (endpoint_decided el ft sends d i session c co1)"
proof -
  have w: "co_identity co1 = co_identity co" "co_dir co1 = co_dir co" "co_active co1 = co_active co"
    using assms by (auto simp: se_Wait_def split: option.splits)
  have "endpoint_ok (Some i) co (endpoint_return code (Some (ft, i)) c' co1)" for code c'
    using w by (intro return_ok) auto
  then show ?thesis by (simp add: endpoint_decided_def split: sum.splits option.splits)
qed

text \<open>
  C38. The endpoint that phones reach cannot authorize and cleans up. Whatever frames arrive, in
  whatever order the handler proceeds, a step of a pairing connection changes neither the device
  store nor its file. When the connection ends, for whatever reason, its flow is no longer active and
  no other flow was touched. The frame sent after the wait is the encryption of the
  decision that was taken locally for this session, and nothing else is sent then.
\<close>

theorem endpoint_cannot_authorize:
  assumes "endpoint_step el (c, co) (c', co')"
  shows "co_identity co' = co_identity co \<and> co_dir co' = co_dir co \<and>
    (pc_phase c' = Ended \<longrightarrow> (\<forall>f. co_active co' = Some f \<longrightarrow> co_active co = Some f \<and> flow_held (pc_phase c) \<noteq> Some (fl_id f))) \<and>
    (\<forall>i session. pc_phase c = AwaitDecision i session \<and> pc_sent c' \<noteq> pc_sent c \<longrightarrow>
       (\<exists>approval frame. co_decisions co (se_key session) = Some (Inr approval) \<and> pc_sent c' = pc_sent c @ [frame] \<and>
          snd (se_Encrypt (el_noise el) (el_approval el) (Some approval) session) = Inr frame))"
proof -
  have "endpoint_ok (flow_held (pc_phase c)) co (c', co')"
    using assms
  proof (cases rule: endpoint_step.cases)
    case (step_start ft ft' flowIDRaw random sends r)
    then show ?thesis using start_ok [of co el ft ft' flowIDRaw random sends r c] by simp
  next
    case (step_finish i ft ft' sends r)
    then show ?thesis using finish_ok [of i co el ft ft' sends r c] by simp
  next
    case (step_decided i session co1 d ft sends)
    then show ?thesis using decided_ok [of session co co1 d i el ft sends c] by simp
  next
    case (step_peer i session ft)
    then show ?thesis using return_ok [of co co i "Some i" None ft c] by simp
  next
    case (step_timer i session ft)
    then show ?thesis using return_ok [of co co i "Some i" "Some PolicyViolation" ft c] by simp
  qed
  moreover have "\<exists>approval frame. co_decisions co (se_key session) = Some (Inr approval) \<and> pc_sent c' = pc_sent c @ [frame] \<and>
      snd (se_Encrypt (el_noise el) (el_approval el) (Some approval) session) = Inr frame"
    if w: "pc_phase c = AwaitDecision i session" and sent: "pc_sent c' \<noteq> pc_sent c" for i session
    using assms
  proof (cases rule: endpoint_step.cases)
    case (step_decided i' session' co1 d ft sends)
    then have "co_decisions co (se_key session) = Some d" using w by (auto simp: se_Wait_def split: option.splits)
    then show ?thesis
      using step_decided w sent
      by (auto simp: endpoint_decided_def endpoint_return_def writePairingBytes_def split: sum.splits option.splits if_splits)
  qed (use w sent in \<open>auto simp: endpoint_return_def\<close>)
  ultimately show ?thesis by (auto simp: endpoint_ok_def)
qed


section \<open>Recovery\<close>

lemma collect_active:
  "collect_devices cr False rs = Inr vs \<Longrightarrow> r \<in> set rs \<Longrightarrow> pa_State r \<noteq> STATE_REVOKED \<Longrightarrow>
     id_of cr r \<in> (\<lambda>v. dd_DeviceId (descriptor_of (av_Device v))) ` set vs"
proof (induction rs arbitrary: vs)
  case (Cons q rs)
  then show ?case
    by (auto simp: id_of_def descriptor_of_def dest!: view_facts split: if_splits option.splits sum.splits)
qed simp

lemma collect_none: "list_all (\<lambda>r. pa_State r = STATE_REVOKED) rs \<Longrightarrow> collect_devices cr False rs = Inr []"
  by (induction rs) auto

text \<open>While devices are left to revoke, every other one is already revoked.\<close>

lemma revoke_each_all:
  assumes "revoke_each cr cd envs ds s dir = (s', dir', None)" "valid cr (st_state s)"
    and "\<forall>r \<in> set (ps_Authorized (st_state s)). pa_State r = STATE_REVOKED \<or>
      id_of cr r \<in> (\<lambda>v. dd_DeviceId (descriptor_of (av_Device v))) ` set ds"
  shows "valid cr (st_state s') \<and> list_all (\<lambda>r. pa_State r = STATE_REVOKED) (ps_Authorized (st_state s'))"
  using assms
proof (induction ds arbitrary: s dir)
  case (Cons d ds)
  let ?k = "dd_DeviceId (descriptor_of (av_Device d))"
  obtain s1 dir1 v where r: "Revoke cr cd (fst (envs (length ds))) (snd (envs (length ds))) ?k s dir = (s1, dir1, Inr v)"
    and rest: "revoke_each cr cd envs ds s1 dir1 = (s', dir', None)"
    using Cons.prems(1) by (auto split: prod.splits sum.splits)
  have ok: "valid cr (st_state s1)" "revokes cr ?k (st_state s) (st_state s1)"
    using Revoke_outcome [OF Cons.prems(2) r] by auto
  have "pa_State q = STATE_REVOKED \<or> id_of cr q \<in> (\<lambda>v. dd_DeviceId (descriptor_of (av_Device v))) ` set ds"
    if q: "q \<in> set (ps_Authorized (st_state s1))" for q
  proof (cases "id_of cr q = ?k")
    case True
    then have "record_for cr (st_state s1) ?k q" using q by (simp add: record_for_def)
    then show ?thesis using ok record_unique [OF ok(1)] unfolding revokes_def by metis
  next
    case False
    then have "q \<in> set (ps_Authorized (st_state s))"
      using ok(2) q unfolding revokes_def changes_only_def record_for_def by blast
    then show ?thesis using Cons.prems(3) False by auto
  qed
  then show ?case using Cons.IH [OF rest ok(1)] by blast
qed (auto simp: list_all_iff)

lemma loadState_valid: "loadState cr cd path dir = Inr st \<Longrightarrow> valid cr st"
  by (auto simp: loadState_def valid_def split: sum.splits option.splits store_error.splits)

lemma LoadOrCreate_valid: "LoadOrCreate cr cd env opt gen acq rel dir = (dir', Inr s) \<Longrightarrow> valid cr (st_state s)"
  by (auto simp: LoadOrCreate_def loadOrCreateState_def valid_def dest: loadState_valid [unfolded valid_def]
      split: if_splits sum.splits option.splits prod.splits device_error.splits bool.splits)



section \<open>Concrete requests\<close>

definition example_net :: net_lib where
  "example_net = \<lparr>nt_SplitHostPort = (\<lambda>s. Some (s, [])),
     nt_ParseIP = (\<lambda>s. if s = ''127.0.0.1'' then Some (v4Prefix @ [127, 0, 0, 1]) else Some (v4Prefix @ [10, 0, 0, 2])),
     nt_InterfaceAddrs = Some []\<rparr>"

definition example_libs :: management_libs where
  "example_libs = \<lparr>ml_crypto = sample_device_crypto, ml_pairing = sample_lib, ml_codec = sample_codec,
     ml_tickets = sample_crypto, ml_net = example_net, ml_QR = (\<lambda>_. True)\<rparr>"

definition example_call :: call_env where
  "example_call = \<lparr>ce_times = sample_times, ce_save = sample_env, ce_now = 0, ce_ID = None, ce_secret = None,
     ce_route = sample_random 1, ce_agentCall = (0, sample_random 5, sample_random 6),
     ce_clientCall = (0, sample_random 7, sample_random 6)\<rparr>"

definition example_management :: "(toy_state, nat) agentManagement" where
  "example_management = \<lparr>am_token = ''t'', am_pairingBase = [], am_flows = (sample_co 0)\<lparr>co_identity := sample_store 1\<rparr>,
     am_relayManager = None, am_provisionLimiter = newRateLimiter 10 minute\<rparr>"

definition example_request :: "string \<Rightarrow> http_request" where
  "example_request remote = \<lparr>hr_Path = ''/agent/devices/revoke'', hr_Method = ''POST'', hr_RemoteAddr = remote, hr_Token = ''t'',
     hr_ForwardedFor = [], hr_PostForm = Some (\<lambda>_. RawURL_Encode (replicate 16 5)), hr_ClientDeviceID = None\<rparr>"

lemma example_local:
  "authorized_request example_net (example_request ''127.0.0.1'') ''t''"
  "\<not> authorized_request example_net (example_request ''10.0.0.2'') ''t''"
  by (simp_all add: authorized_request_def isLocalMachineRemote_def example_net_def example_request_def isLocalMachineIP_def
      matchesLocalMachineIP_def IsLoopback_def To4_def v4Prefix_def)

lemma example_revoked:
  "\<exists>m'. serve_management example_libs example_call (example_request ''127.0.0.1'') example_management = Some (m', 303) \<and>
     co_identity (am_flows m') = sample_store 2"
proof -
  obtain v where "Revoke sample_device_crypto sample_codec sample_env 0 (replicate 16 5) (sample_store 1) Map.empty =
      (sample_store 2, [''/f'' \<mapsto> [7, 2]], Inr v)"
    using sample_calls(3) [of Map.empty] by auto
  then have "\<exists>m'. revokeDeviceHandler example_libs example_call (example_request ''127.0.0.1'') example_management = (m', 303) \<and>
      co_identity (am_flows m') = sample_store 2"
    using example_local(1) [folded authorizeLocalManagement_None]
    by (simp add: revokeDeviceHandler_def form_id_def example_libs_def example_call_def example_management_def
        example_request_def sample_co_def del: base64_encode.simps)
  then show ?thesis by (simp add: serve_management_def Let_def example_request_def)
qed


definition example_endpoint :: "(toy_state, nat) endpoint_libs" where
  "example_endpoint = \<lparr>el_crypto = sample_device_crypto, el_noise = sample_noise, el_codec = sample_flow_codec,
     el_start = (\<lambda>_. Some sample_start), el_finish = Some, el_response = Some, el_approval = (\<lambda>_. Some [1])\<rparr>"

definition example_connection :: "nat pairing_connection" where
  "example_connection = \<lparr>pc_phase = AwaitFinish (RawURL_Encode [0]), pc_sent = [], pc_closes = []\<rparr>"

theorem endpoint_cannot_authorize_witness:
  "\<exists>c' co'. endpoint_step example_endpoint (example_connection, sample_co 2) (c', co') \<and> pc_phase c' = Ended \<and>
     co_active co' = None \<and> co_identity co' = co_identity (sample_co 2)"
proof -
  obtain c' co' where e: "endpoint_finish example_endpoint sample_times sample_times True (ReadFailed True) (RawURL_Encode [0])
      example_connection (sample_co 2) = (c', co')" by fastforce
  then have step: "endpoint_step example_endpoint (example_connection, sample_co 2) (c', co')"
    using step_finish [of example_connection "RawURL_Encode [0]" example_endpoint "sample_co 2" sample_times sample_times True "ReadFailed True"]
    by (simp add: example_connection_def del: base64_encode.simps)
  have ended: "pc_phase c' = Ended"
    using e by (auto simp: endpoint_finish_def readPairingFrame_def endpoint_return_def)
  have "f = sample_flow False" if "co_active co' = Some f" for f
    using endpoint_cannot_authorize [OF step] ended that sample_co_fields(2) by auto
  moreover have "flow_held (pc_phase example_connection) = Some (fl_id (sample_flow False))"
    by (simp add: example_connection_def sample_flow_fields del: base64_encode.simps)
  ultimately have "co_active co' = None"
    using endpoint_cannot_authorize [OF step] ended by (metis not_None_eq)
  then show ?thesis using endpoint_cannot_authorize [OF step] step ended by blast
qed


end
