(* ===== verification/Relay_Admin.thy ===== *)
theory Relay_Admin
  imports Relay_Replay Go_Base64
begin

text \<open>
  The relay's control plane (\<^verbatim>\<open>src/internal/relay/admin.go\<close>): the HTTP endpoint that mints tickets.
  The JSON decoder is a parameter: a request carries the decoded body, or none. The texts of
  the errors are left out, the reasons are constructors.
\<close>

section \<open>The requests\<close>

record issueRequest =
  iq_RouteID :: string
  iq_DeviceID :: string
  iq_Endpoint :: string
  iq_MaxConnections :: u32
  iq_LifetimeSeconds :: int
  iq_IssuerEpoch :: "u64 option"

record issueResponse =
  ip_Ticket :: string
  ip_ExpiresAt :: time

record admin_request =
  ar_Method :: string
  ar_Authorization :: string
  ar_Body :: "issueRequest option"

datatype admin_reason =
    MethodNotAllowed | Unauthorized | InvalidBody | InvalidEndpoint | InvalidRouteID | InvalidDeviceID
  | InvalidMaxConnections | InvalidLifetime | InvalidIssuerEpoch | IssueFailed ticket_error | EncodeFailed

record Admin =
  ad_issuer :: Issuer
  ad_stampEpoch :: "u64 option"

text \<open>\<open>ad_stampEpoch\<close> is what the stamp policy returns at the call, if there is one.\<close>

definition NewAdmin :: "Issuer option \<Rightarrow> ticket_error + Admin" where
  "NewAdmin issuer = (case issuer of None \<Rightarrow> Inl ErrNilIssuer | Some i \<Rightarrow> Inr \<lparr>ad_issuer = i, ad_stampEpoch = None\<rparr>)"

definition WithStampEpoch :: "u64 option \<Rightarrow> Admin \<Rightarrow> Admin" where
  "WithStampEpoch stamp admin = admin\<lparr>ad_stampEpoch := stamp\<rparr>"

text \<open>
  \<^verbatim>\<open>strings.ToLower\<close> as far as its result can be ASCII: besides the ASCII letters it maps the dotted
  capital I (two bytes) and the Kelvin sign (three bytes) to ASCII letters.
\<close>

fun lower_text :: "string \<Rightarrow> string" where
  "lower_text (c # d # cs) =
     (if c = CHR 0xC4 \<and> d = CHR 0xB0 then CHR ''i'' # lower_text cs
      else if c = CHR 0xE2 \<and> d = CHR 0x84 \<and> cs \<noteq> [] \<and> hd cs = CHR 0xAA then CHR ''k'' # lower_text (tl cs)
      else lower_char c # lower_text (d # cs))"
| "lower_text [c] = [lower_char c]"
| "lower_text [] = []"

definition parseEndpoint :: "string \<Rightarrow> int option" where
  "parseEndpoint v =
     (let w = lower_text (TrimSpace v) in
      if w = ''agent'' then Some RELAY_ENDPOINT_AGENT else if w = ''client'' then Some RELAY_ENDPOINT_CLIENT else None)"

definition parseHexBytes :: "string \<Rightarrow> nat \<Rightarrow> bytes option" where
  "parseHexBytes v expected0 =
     (if v = [] then None
      else case hex_DecodeString v of None \<Rightarrow> None | Some raw \<Rightarrow> (if length raw \<noteq> expected0 then None else Some raw))"

definition parseDeviceID :: "string \<Rightarrow> bytes option" where
  "parseDeviceID v = parseHexBytes v 16"

fun subtle_diff :: "byte \<Rightarrow> bytes \<Rightarrow> bytes \<Rightarrow> byte" where
  "subtle_diff diff (x # xs) (y # ys) = subtle_diff (or diff (xor x y)) xs ys"
| "subtle_diff diff _ _ = diff"

definition subtleEqual :: "string \<Rightarrow> string \<Rightarrow> bool" where
  "subtleEqual a b \<longleftrightarrow> length a = length b \<and> subtle_diff 0 (string_bytes a) (string_bytes b) = 0"

definition authorizeBearer :: "string \<Rightarrow> string \<Rightarrow> bool" where
  "authorizeBearer header token \<longleftrightarrow>
     (if token = [] then True
      else if length header \<le> 7 \<or> \<not> EqualFold (take 7 header) ''Bearer '' then False
      else
        let supplied = TrimSpace (drop 7 header)
        in if supplied = [] then False else subtleEqual supplied token)"

text \<open>The multiplication of two 64-bit durations.\<close>

definition wrap64 :: "int \<Rightarrow> int" where
  "wrap64 x = (x + 2 ^ 63) mod 2 ^ 64 - 2 ^ 63"

text \<open>The status, and the response with the ticket it encodes or the reason of the error.\<close>

definition handleIssue ::
    "ticket_crypto \<Rightarrow> string \<Rightarrow> time \<Rightarrow> random \<Rightarrow> random \<Rightarrow> Admin \<Rightarrow> admin_request \<Rightarrow>
     int \<times> (admin_reason + RelayTicket \<times> issueResponse)" where
  "handleIssue cr token now rid rnonce admin request =
     (if ar_Method request \<noteq> ''POST'' then (405, Inl MethodNotAllowed)
      else if \<not> authorizeBearer (ar_Authorization request) token then (401, Inl Unauthorized)
      else case ar_Body request of None \<Rightarrow> (400, Inl InvalidBody) | Some body \<Rightarrow>
      case parseEndpoint (iq_Endpoint body) of None \<Rightarrow> (400, Inl InvalidEndpoint) | Some endpoint \<Rightarrow>
      case parseHexBytes (iq_RouteID body) routeIDBytes of None \<Rightarrow> (400, Inl InvalidRouteID) | Some routeID \<Rightarrow>
      case parseDeviceID (iq_DeviceID body) of None \<Rightarrow> (400, Inl InvalidDeviceID) | Some deviceID \<Rightarrow>
      if iq_MaxConnections body = 0 then (400, Inl InvalidMaxConnections)
      else if iq_LifetimeSeconds body \<le> 0 then (400, Inl InvalidLifetime)
      else
        let lifetime = wrap64 (iq_LifetimeSeconds body * second) in
        case (case ad_stampEpoch admin of Some epoch \<Rightarrow> Some epoch | None \<Rightarrow> iq_IssuerEpoch body) of
          None \<Rightarrow> (400, Inl InvalidIssuerEpoch)
        | Some issuerEpoch \<Rightarrow>
            (case Issue cr (ad_issuer admin)
                    \<lparr>ii_RouteID = routeID, ii_DeviceID = deviceID, ii_Endpoint = endpoint,
                     ii_MaxConnections = iq_MaxConnections body, ii_Lifetime = lifetime, ii_ExpiresAt = zero_time,
                     ii_IssuerEpoch = issuerEpoch\<rparr> now rid rnonce of
               Inl e \<Rightarrow> (400, Inl (IssueFailed e))
             | Inr ticket \<Rightarrow>
                 (case marshal_ticket cr ticket of
                    None \<Rightarrow> (500, Inl EncodeFailed)
                  | Some wire \<Rightarrow>
                      (200, Inr (ticket, \<lparr>ip_Ticket = EncodeToString wire,
                         ip_ExpiresAt = (case rt_ExpiresAt ticket of Some e \<Rightarrow> e | None \<Rightarrow> now + lifetime)\<rparr>)))))"

section \<open>Comparing the token\<close>

lemma xor_zero: "xor x y = 0 \<longleftrightarrow> x = (y :: byte)"
  by (metis xor.assoc xor.left_neutral xor_self_eq)

lemma subtle_diff_zero:
  "length xs = length ys \<Longrightarrow> subtle_diff d xs ys = 0 \<longleftrightarrow> d = 0 \<and> xs = ys"
proof (induction d xs ys rule: subtle_diff.induct)
  case (1 diff x xs y ys)
  then show ?case by (auto simp: or_eq_0_iff xor_zero)
qed auto

text \<open>The comparison that takes the same time for every token of a length is equality.\<close>

lemma subtleEqual_eq: "subtleEqual a b \<longleftrightarrow> a = b"
  using subtle_diff_zero [of "string_bytes a" "string_bytes b" 0] by (auto simp: subtleEqual_def)

lemma authorizeBearer_token:
  "authorizeBearer header token \<Longrightarrow> token \<noteq> [] \<Longrightarrow> TrimSpace (drop 7 header) = token"
  by (auto simp: authorizeBearer_def Let_def subtleEqual_eq split: if_splits)

section \<open>What the endpoint mints\<close>

definition lifetime_fits :: "int \<Rightarrow> bool" where
  "lifetime_fits n \<longleftrightarrow> n * second < 2 ^ 63"

lemma wrap64_id: "0 < n \<Longrightarrow> lifetime_fits n \<Longrightarrow> wrap64 (n * second) = n * second"
  by (simp add: wrap64_def lifetime_fits_def)

text \<open>
  The control plane mints what an authorized request asks for. With Ed25519 and the random source
  behaving as documented, a ticket is returned only for a POST that presents the token, if one is
  configured; it has the route, device, endpoint and connection cap of the request, decoded from
  exactly its hexadecimal text, the epoch of the stamp policy or else of the request, and
  expires when the response says, the requested time after the call, if that many seconds are a
  duration at all. The relay that knows the issuer's key accepts the ticket while it is valid.
\<close>

theorem admin_tickets_earned:
  assumes libs: "crypto_ok cr" "random_ok rid" "random_ok rnonce" "NewIssuer cr key = Inr (ad_issuer admin)"
    and issued: "handleIssue cr token now rid rnonce admin request = (status, Inr (t, response))"
  shows "ar_Method request = ''POST'' \<and> status = 200 \<and> (token \<noteq> [] \<longrightarrow> TrimSpace (drop 7 (ar_Authorization request)) = token) \<and>
    (\<exists>body. ar_Body request = Some body \<and> hex_DecodeString (iq_RouteID body) = Some (rt_RouteId t) \<and>
       hex_DecodeString (iq_DeviceID body) = Some (rt_DeviceId t) \<and> parseEndpoint (iq_Endpoint body) = Some (rt_Endpoint t) \<and>
       rt_MaxConnections t = iq_MaxConnections body \<and>
       rt_IssuerEpoch t = (case ad_stampEpoch admin of Some e \<Rightarrow> e | None \<Rightarrow> the (iq_IssuerEpoch body)) \<and>
       rt_ExpiresAt t = Some (ip_ExpiresAt response) \<and>
       (lifetime_fits (iq_LifetimeSeconds body) \<longrightarrow> ip_ExpiresAt response = now + iq_LifetimeSeconds body * second)) \<and>
    (\<forall>world at replayNow v. is_PublicKey (ad_issuer admin) \<in> set (vf_issuers v) \<and> ip_ExpiresAt response \<noteq> zero_time \<and>
       at \<le> ip_ExpiresAt response \<and> ip_ExpiresAt response \<le> at + ticketReplayTTL \<and>
       \<not> remembered v replayNow (rt_TicketId t) \<and> allowed v world t \<longrightarrow>
       (\<exists>tk. snd (Verify cr world (Some t) at replayNow v) = Inr tk \<and> tk_wire tk = t))"
proof -
  obtain body endpoint routeID deviceID epoch wire where
    body: "ar_Method request = ''POST''" "authorizeBearer (ar_Authorization request) token" "ar_Body request = Some body"
    "parseEndpoint (iq_Endpoint body) = Some endpoint" "parseHexBytes (iq_RouteID body) routeIDBytes = Some routeID"
    "parseDeviceID (iq_DeviceID body) = Some deviceID" "0 < iq_LifetimeSeconds body"
    "(case ad_stampEpoch admin of Some e \<Rightarrow> Some e | None \<Rightarrow> iq_IssuerEpoch body) = Some epoch"
    and issue: "Issue cr (ad_issuer admin) \<lparr>ii_RouteID = routeID, ii_DeviceID = deviceID, ii_Endpoint = endpoint,
        ii_MaxConnections = iq_MaxConnections body, ii_Lifetime = wrap64 (iq_LifetimeSeconds body * second),
        ii_ExpiresAt = zero_time, ii_IssuerEpoch = epoch\<rparr> now rid rnonce = Inr t" (is "Issue _ _ ?input _ _ _ = _")
    and response: "marshal_ticket cr t = Some wire" "status = 200" "response = \<lparr>ip_Ticket = EncodeToString wire,
        ip_ExpiresAt = (case rt_ExpiresAt t of Some e \<Rightarrow> e | None \<Rightarrow> now + wrap64 (iq_LifetimeSeconds body * second))\<rparr>"
    using issued by (auto simp: handleIssue_def Let_def split: if_splits option.splits sum.splits)
  note i = Issue_Inr [OF libs(1-3) issue, simplified]
  have pub: "is_public (ad_issuer admin) = ed_Public cr (is_private (ad_issuer admin))"
    using libs(4) by (simp add: NewIssuer_def split: if_splits) (metis Issuer.select_convs)
  have hex: "hex_DecodeString (iq_RouteID body) = Some routeID" "hex_DecodeString (iq_DeviceID body) = Some deviceID"
    using body(5,6) by (auto simp: parseHexBytes_def parseDeviceID_def split: if_splits option.splits)
  have expires: "rt_ExpiresAt t = Some (ip_ExpiresAt response)" using i(7) response(3) by simp
  have "ip_ExpiresAt response = now + iq_LifetimeSeconds body * second" if "lifetime_fits (iq_LifetimeSeconds body)"
    using i(7) response(3) wrap64_id [OF body(7) that] body(7) by simp
  moreover have "\<exists>tk. snd (Verify cr world (Some t) at replayNow v) = Inr tk \<and> tk_wire tk = t"
    if "is_PublicKey (ad_issuer admin) \<in> set (vf_issuers v)" "ip_ExpiresAt response \<noteq> zero_time"
      "at \<le> ip_ExpiresAt response" "ip_ExpiresAt response \<le> at + ticketReplayTTL"
      "\<not> remembered v replayNow (rt_TicketId t)" "allowed v world t" for world at replayNow v
    using Verify_Inr_iff [of cr world "Some t" at replayNow v t] i(1) Issue_Inr(8) [OF libs(1-3) issue pub] expires that
    unfolding is_PublicKey_def by blast
  ultimately show ?thesis
    using body hex i expires response(2) authorizeBearer_token [OF body(2)] by (auto split: option.splits)
qed

definition example_admin :: Admin where
  "example_admin = \<lparr>ad_issuer = sample_issuer, ad_stampEpoch = Some 4\<rparr>"

definition example_issue :: admin_request where
  "example_issue = \<lparr>ar_Method = ''POST'', ar_Authorization = ''Bearer t'', ar_Body = Some \<lparr>iq_RouteID = EncodeToString (replicate 16 1),
     iq_DeviceID = EncodeToString (replicate 16 2), iq_Endpoint = ''agent'', iq_MaxConnections = 1, iq_LifetimeSeconds = 60,
     iq_IssuerEpoch = None\<rparr>\<rparr>"

lemma example_issued:
  "handleIssue sample_crypto ''t'' 0 (sample_random 5) (sample_random 6) example_admin example_issue =
     (200, Inr (sample_ticket\<lparr>rt_ExpiresAt := Some (60 * second)\<rparr>, \<lparr>ip_Ticket = EncodeToString (replicate 16 6), ip_ExpiresAt = 60 * second\<rparr>))"
proof -
  have words: "TrimSpace ''agent'' = ''agent''" "TrimSpace ''t'' = ''t''" "EqualFold ''Bearer '' ''Bearer ''"
    "lower_text ''agent'' = ''agent''" "EncodeToString (replicate 16 1) \<noteq> []" "EncodeToString (replicate 16 2) \<noteq> []"
    by (simp_all add: graphic_string(1) graphic_def EqualFold_def lower_char_def EncodeToString_def)
  show ?thesis
    by (simp add: handleIssue_def example_issue_def example_admin_def authorizeBearer_def parseEndpoint_def parseHexBytes_def
        parseDeviceID_def subtleEqual_eq words Issue_def randomBytes_def sample_random_def signTicket_def encodeTicketBody_def
        sample_crypto_def sample_ticket_def sample_issuer_def zero_time_def wrap64_def lower_char_def Let_def)
qed

theorem admin_tickets_earned_witness:
  "\<exists>tk. snd (Verify sample_crypto () (Some (sample_ticket\<lparr>rt_ExpiresAt := Some (60 * second)\<rparr>)) 0 0 sample_verifier) = Inr tk \<and>
     tk_RouteID tk = replicate 16 1"
proof -
  have issuer: "NewIssuer sample_crypto (replicate 64 3) = Inr (ad_issuer example_admin)"
    using sample_issued(1) by (simp add: example_admin_def)
  let ?t = "sample_ticket\<lparr>rt_ExpiresAt := Some (60 * second)\<rparr>"
  have "is_PublicKey (ad_issuer example_admin) \<in> set (vf_issuers sample_verifier)" "60 * second \<noteq> zero_time"
    "(0 :: time) \<le> 60 * second" "60 * second \<le> 0 + ticketReplayTTL" "\<not> remembered sample_verifier 0 (rt_TicketId ?t)"
    "allowed sample_verifier () ?t"
    by (simp_all add: example_admin_def is_PublicKey_def sample_issuer_def sample_verifier_def NewVerifier_def zero_time_def
        ticketReplayTTL_def remembered_def allowed_def)
  then have "\<exists>tk. snd (Verify sample_crypto () (Some ?t) 0 0 sample_verifier) = Inr tk \<and> tk_wire tk = ?t"
    by (intro admin_tickets_earned [OF sample_crypto_ok sample_random_ok sample_random_ok issuer example_issued, THEN conjunct2,
        THEN conjunct2, THEN conjunct2, THEN conjunct2, THEN spec, THEN spec, THEN spec, THEN spec, THEN mp]) simp
  then show ?thesis by (auto simp: tk_RouteID_def sample_ticket_def)
qed

end
