(* ===== verification/Spec2Isabelle.thy ===== *)
theory Spec2Isabelle
  imports Session_Staging Replay_Buffer Session_Lifecycle Prompt_Action Tool_Adapter Transfer_Safety Stream_Order Relay_Replay Relay_Router
    E2EE_Safety Flow_Safety Server_Safety Relay_Server_Safety Agent_Config Management_Safety Relay_Admin
begin

text \<open>
  A verification development of VibeBridge (\<^verbatim>\<open>src/\<close>), a program that lets a phone drive a terminal
  on a computer.

  \<^bold>\<open>The program.\<close> An agent runs on the computer. It starts a command in a pseudo terminal, serves a
  WebSocket to one client at a time, and keeps the session alive while no client is attached. A
  client is a device that was paired: the agent shows an invitation, the device authenticates with
  its secret in a Noise handshake, and the local user approves it; the device then is in the agent's
  graph of authorized devices, which lives in a protected file, until it is revoked. Over the
  connection client and agent speak Protocol V1: a Hello exchange, then numbered and acknowledged
  envelopes with terminal input and output, attachments that are staged in the workspace, and prompts
  that mention them. A relay connects clients and agents that cannot reach each other; it admits
  connections with signed tickets and forwards frames between the two ends of a route.

  \<^bold>\<open>The theories\<close>, in the order of the dependencies, with the sources under \<^verbatim>\<open>src/internal\<close> they model.
  A theory whose name ends in Safety, and Stream_Order and Relay_Replay, hold the theorems about the
  definitions of the theories they import.

  \<^item> Prelude: types, runs of a component over a sequence of calls, and the interfaces several components
    implement, as locales: \<open>step_machine\<close> (an invariant every call keeps), \<open>one_shot\<close> (an effect that
    happens once per key), \<open>counter\<close>, \<open>agreement\<close> (what is said about a key never changes) and \<open>since\<close>
    (what the state holds was brought about and not ended). Every one of them is interpreted on the
    model's definitions in the theory of the component. Go_Strings, Go_Base64 and Go_Paths: what the code
    uses of Go's string, encoding and path packages.
  \<^item> Replay_Buffer, Session_Lifecycle, Ws_Writer, Pty_Session, Agent_Server with Pty_Safety and
    Server_Safety: \<^verbatim>\<open>server/replay_buffer.go\<close>, \<^verbatim>\<open>session_lifecycle.go\<close>, \<^verbatim>\<open>server.go\<close>. The buffer drains
    exactly the latest output it has room for and says whether that is all of it; a client told that its
    output resumes has missed nothing; a message is acknowledged only after its effect; a session
    generation names one session; a session that has ended stays silent.
  \<^item> Session_Gate: \<^verbatim>\<open>server/pairedsession.go\<close>. An upgrade is granted for a nonce that was issued to the
    same host, used once, and signed by an authorized device.
  \<^item> Prompt_Action and Tool_Adapter: \<^verbatim>\<open>promptaction\<close>, \<^verbatim>\<open>tooladapter\<close>. A prompt is written to the terminal
    at most once, exactly as it was previewed, and contains nothing a terminal would execute.
  \<^item> Utf8_Stream, Aggregate_Quota, Content_Policy, File_Ops, Transfer_Manager with Transfer_Safety:
    \<^verbatim>\<open>attachment\<close>. Published files hold the announced bytes and stay intact, quotas hold, and a
    publication that a failing system call interrupts can be retried, over every pattern of failures.
  \<^item> Session_Staging: \<^verbatim>\<open>attachment/staging.go\<close> over a file tree with symbolic links. A session's directory is new
    and empty, and the removal of stale ones touches nothing outside the uploads of the workspace.
  \<^item> Negotiation and Agent_Stream with Stream_Order: \<^verbatim>\<open>protocol\<close>. The Hello exchange accepts exactly the
    valid offers; inbound messages are taken in order, outbound ones are numbered without gaps, and only
    what was negotiated crosses the stream.
  \<^item> Secure_Store and Device_Store with Device_Safety: \<^verbatim>\<open>securestore\<close>, \<^verbatim>\<open>deviceidentity\<close>. Writes are
    atomic, the file holds the state in memory, a device keeps its key, and a revocation sticks.
  \<^item> Pairing_Manager, E2EE_Pairing, E2EE_Session, Pairing_Flow with Pairing_Safety, E2EE_Safety and
    Flow_Safety: \<^verbatim>\<open>pairing\<close>, \<^verbatim>\<open>e2ee\<close>, \<^verbatim>\<open>pairingflow\<close>. An authorization rests on the approval of a flow
    whose device authenticated with the secret of a live invitation; handshakes agree; sessions are for
    authorized devices; the transport delivers in order.
  \<^item> Relay_Ticket, Relay_Router, Relay_Server with Relay_Replay and Relay_Server_Safety: \<^verbatim>\<open>relay\<close> and the
    minting of ticket pairs in \<^verbatim>\<open>relayclient\<close>. Verification accepts exactly the good tickets and each at
    most once; the relay forwards unchanged and in order between two admitted ends of one route, stays
    within its connection cap and drains on shutdown.
  \<^item> Relay_Client and Relay_Admin: \<^verbatim>\<open>relayclient\<close> and \<^verbatim>\<open>relay/admin.go\<close>. The agent's side of the relay: each
    route is dialed once, a bridge hands on the messages of one side unchanged and in order, and the
    tickets the agent or the administration endpoint hands out are the ones the relay accepts.
  \<^item> Workspace and Agent_Config: \<^verbatim>\<open>workspace/registry.go\<close>, \<^verbatim>\<open>agentconfig/config.go\<close> and the start options of
    \<^verbatim>\<open>src/cmd/vibebridge/main.go\<close>. A launch runs in a directory inside an approved root.
  \<^item> Management with Management_Safety: \<^verbatim>\<open>agent_management.go\<close>, \<^verbatim>\<open>pairing_transport.go\<close>, \<^verbatim>\<open>ratelimit.go\<close> and
    \<^verbatim>\<open>recover.go\<close> under \<^verbatim>\<open>src/cmd/vibebridge\<close>. The local pages act only on requests that carry the token, the
    pairing endpoint never authorizes a device by itself, and the recovery command revokes every device.
  \<^item> This theory: properties that span components, from the revocation of a device in the agent's store
    to the connections and relay tickets it stops.

  \<^bold>\<open>How the code is modelled.\<close> A struct is a record, an operation a function from the state and its
  arguments to the next state and its result, an error a value of a sum or option type. A component
  whose methods hold one lock for their whole effect is driven by sequences of calls, and theorems
  quantify over all sequences, hence over all interleavings; where a method gives up its lock in the
  middle it is split there (\<open>Verify\<close>, the server's handlers). The goroutines of the relay server are an
  inductive step relation instead, with the phase of each goroutine in the state. Machine integers
  whose overflow matters are words. Clocks, random bytes and the outcomes of system calls are arguments,
  so theorems hold for all of them. Loops are structural recursions or have a termination proof; no
  model uses fuel.

  \<^bold>\<open>Parameters.\<close> Protobuf and JSON codecs, Ed25519, SHA-256, the Noise library, URL and MIME parsing, the
  WebSocket library and the operating system below the file operations are arguments of the
  definitions. Hypotheses on them state documented behaviour (a signature made with a key verifies, a
  decoder inverts the encoder), and the witnesses instantiate them with concrete functions.

  \<^bold>\<open>Not modelled.\<close> Flag parsing and the wiring of the programs (the rest of \<^verbatim>\<open>src/cmd\<close>, which
  reads flags, listens and prints), the service commands, the diagnostics bundle, the backoff of
  \<^verbatim>\<open>reconnect\<close> (floating point arithmetic over random jitter), the Windows service, tray and registry code and the Windows builds of
  other files, HTTP routing and the embedded web client, logging, process trees and the pseudo terminal
  launcher, the keep-alive tickers, and generated code. They are operating system glue without state of their own, or need
  a model of the system that nothing in the repository fixes.
\<close>

section \<open>Revocation reaches the relay\<close>

lemma in_sync_load:
  assumes "in_sync dcr cd s dir"
  shows "Load dcr cd \<lparr>so_Path = st_path s, so_DisplayName = name, so_Platform = platform\<rparr> dir =
    Inr \<lparr>st_path = st_path s, st_state = st_state s, st_readOnly = True\<rparr>"
proof -
  have "IsAbs (st_path s)"
    using assms by (auto simp: in_sync_def loadState_def Secure_Store.Read_def validateArguments_def split: if_splits)
  then show ?thesis using assms by (simp add: Load_def in_sync_def)
qed

text \<open>
  C27. A revocation reaches the relay. Once the agent has revoked an authorized device and the call
  reported success, a relay that loads the identity file can do so, and its verifier, with the
  epoch gate on the loaded store, rejects every ticket minted at or below the epoch the agent had
  before, for any device, and does not record its ID.
\<close>

theorem revocation_reaches_relay:
  assumes "device_codec_ok dcr" "codec_ok cd" "in_sync dcr cd s dir" "fresh_temp env s dir"
    and "AuthorizedDevice_of dcr k s = Inr u" "av_State u = STATE_AUTHORIZED"
    and "Revoke dcr cd env revokedAt k s dir = (s', dir', Inr w)"
    and "vf_authorizer v = Some (StoreAuthorizer (Some ds_RevocationEpoch))"
    and "rt_IssuerEpoch ticket \<le> ds_RevocationEpoch s" "\<not> remembered v replayNow (rt_TicketId ticket)"
  shows "\<exists>store. Load dcr cd \<lparr>so_Path = st_path s, so_DisplayName = name, so_Platform = platform\<rparr> dir' = Inr store \<and>
    (\<exists>err. snd (Verify cr store (Some ticket) now replayNow v) = Inl err) \<and>
    \<not> remembered (fst (Verify cr store (Some ticket) now replayNow v)) replayNow (rt_TicketId ticket)"
proof -
  have val: "valid dcr (st_state s)"
    using assms(3) by (auto simp: in_sync_def loadState_def valid_def split: sum.splits option.splits store_error.splits)
  have "revokes dcr k (st_state s) (st_state s')" "st_path s' = st_path s"
    using Revoke_outcome [OF val assms(7)] by auto
  then have "ds_RevocationEpoch s < ds_RevocationEpoch s'" and path: "st_path s' = st_path s"
    using revokes_raises_epoch(2) [OF val] assms(5,6) by auto
  then have old: "rt_IssuerEpoch ticket < ds_RevocationEpoch s'" using assms(9) by simp
  let ?store = "\<lparr>st_path = st_path s', st_state = st_state s', st_readOnly = True\<rparr>"
  have "in_sync dcr cd s' dir'"
    using Revoke_durable [OF assms(1,2,4,3), of revokedAt k] assms(7) by (simp add: durable_outcome_def)
  from in_sync_load [OF this] have load: "Load dcr cd \<lparr>so_Path = st_path s, so_DisplayName = name, so_Platform = platform\<rparr> dir' = Inr ?store"
    by (simp add: path)
  show ?thesis
    using load epoch_gate_rejects [OF assms(8) _ assms(10), of ?store cr now] old
    by (auto simp: ds_RevocationEpoch_def)
qed

lemma sample_revocation:
  "\<exists>w. Revoke sample_device_crypto sample_codec sample_env 0 (replicate 16 5) (sample_store 1) [''/f'' \<mapsto> [7, 1]] =
     (sample_store 2, [''/f'' \<mapsto> [7, 2]], Inr w)"
  using sample_calls(3) [of "[''/f'' \<mapsto> [7, 1]]"] by simp

theorem revocation_reaches_relay_witness:
  "\<exists>store err. Load sample_device_crypto sample_codec \<lparr>so_Path = ''/f'', so_DisplayName = ''n'', so_Platform = ''p''\<rparr>
      [''/f'' \<mapsto> [7, 2]] = Inr store \<and>
    snd (Verify sample_crypto store (Some (sample_ticket\<lparr>rt_IssuerEpoch := 0\<rparr>)) 0 0
      (SetAuthorizer (Some (StoreAuthorizer (Some ds_RevocationEpoch))) (NewVerifier [replicate 32 3]))) = Inl err"
proof -
  obtain w where w: "Revoke sample_device_crypto sample_codec sample_env 0 (replicate 16 5) (sample_store 1) [''/f'' \<mapsto> [7, 1]] =
     (sample_store 2, [''/f'' \<mapsto> [7, 2]], Inr w)"
    using sample_revocation by blast
  have t: "fresh_temp sample_env (sample_store 1) [''/f'' \<mapsto> [7, 1]]"
    by (simp add: fresh_temp_def sample_env_def sample_updates)
  obtain u where u: "AuthorizedDevice_of sample_device_crypto (replicate 16 5) (sample_store 1) = Inr u" "av_State u = 1"
    using sample_find(2) by (simp add: AuthorizedDevice_of_def sample_updates)
  show ?thesis
    using revocation_reaches_relay [OF sample_device_codec sample_codec_ok sample_in_sync t u w,
        of "SetAuthorizer (Some (StoreAuthorizer (Some ds_RevocationEpoch))) (NewVerifier [replicate 32 3])"
          "sample_ticket\<lparr>rt_IssuerEpoch := 0\<rparr>" 0 "''n''" "''p''" sample_crypto 0]
    by (auto simp: SetAuthorizer_def NewVerifier_def remembered_def sample_updates)
qed

text \<open>
  The relay program loads the store once, when it starts. The store it then consults keeps the
  epoch of that moment, so a revocation by the running agent is not seen until it is loaded again.
\<close>

lemma loaded_store_is_a_snapshot:
  assumes "in_sync dcr cd s dir" "valid dcr (st_state s)" "Revoke dcr cd env revokedAt k s dir = (s', dir', Inr w)"
    and "AuthorizedDevice_of dcr k s = Inr u" "av_State u = STATE_AUTHORIZED"
  shows "\<exists>store. Load dcr cd \<lparr>so_Path = st_path s, so_DisplayName = name, so_Platform = platform\<rparr> dir = Inr store \<and>
    ds_RevocationEpoch store < ds_RevocationEpoch s'"
  using in_sync_load [OF assms(1)] Revoke_outcome [OF assms(2,3)] revokes_raises_epoch(2) [OF assms(2) _ assms(4,5), of s']
  by (auto simp: ds_RevocationEpoch_def)

section \<open>Revocation locks a device out\<close>

lemma revoked_session_refused:
  assumes "AuthorizedDevice_of cr (hc_InitiatorDeviceId ctx) store = Inr w" "av_State w = STATE_REVOKED"
    and "sg_Authorizer config = Some store" "hs_Context start = Some ctx"
  shows "\<exists>err. AcceptSessionStart cr nl sc config (Some start) = Inl err"
proof (cases "AcceptSessionStart cr nl sc config (Some start)")
  case (Inr x)
  obtain r message peer where "x = (r, message, peer)" by (cases x)
  with Inr have "AcceptSessionStart cr nl sc config (Some start) = Inr (r, message, peer)" by simp
  then show ?thesis by (rule AcceptSessionStart_cases) (use assms in auto)
qed blast

lemma revoked_upgrade_refused:
  assumes "AuthorizedDevice_of cr k store = Inr w" "av_State w = STATE_REVOKED"
    and "pg_devices gate = Some store" "hex_DecodeString (device_hex r) = Some k"
  shows "\<exists>err. snd (verify cr now r (Some gate)) = Inl err"
proof (cases "snd (verify cr now r (Some gate))")
  case (Inr res)
  then obtain g' where "verify cr now r (Some gate) = (g', Inr res)" by (metis prod.collapse)
  then show ?thesis by (rule verify_accepts) (use assms in auto)
qed blast

lemma revoked_connection_refused:
  assumes "AuthorizedDevice_of cr k store = Inr w" "av_State w = STATE_REVOKED"
    and "cf_RequirePairedSession (sv_config sv)" "sv_gate sv = Some gate" "pg_devices gate = Some store" "k \<noteq> ds_DeviceID store"
    and "authorizedForUpgrade cr webNow now r sv = (sv', Some result, True)"
  shows "pr_DeviceID result \<noteq> k"
  using upgrade_policy [OF assms(7)] assms(1-6) by (auto simp: paired_def vouched_def)

text \<open>
  C7. \<^bold>\<open>A revoked device is locked out.\<close> After a revocation that reports success, and any further calls
  on the store with whatever disk failures, none of which authorizes the device again, the agent accepts
  neither a Noise session whose context names the device nor a WebSocket upgrade with its ID, whatever
  the request, the nonces and the signature. A server that requires pairing thus opens no connection
  on behalf of the device; the agent's own ID, which it never authorizes, is set aside, as
  connections under it are signed by the agent itself.
\<close>

theorem revoked_device_locked_out:
  assumes "device_codec_ok cr" "validateState cr (st_state s) = None"
    and "Revoke cr cd env revokedAt k s dir = (s1, dir1, Inr v)"
    and "list_all (\<lambda>c. \<not> reauthorizes k c) cs" "run (device_step cr cd) (s1, dir1) cs = ((s2, dir2), rs)"
  shows "(\<forall>nl sc config start ctx. sg_Authorizer config = Some s2 \<longrightarrow> hs_Context start = Some ctx \<longrightarrow> hc_InitiatorDeviceId ctx = k \<longrightarrow>
      (\<exists>err. AcceptSessionStart cr nl sc config (Some start) = Inl err)) \<and>
    (\<forall>now r gate. pg_devices gate = Some s2 \<longrightarrow> hex_DecodeString (device_hex r) = Some k \<longrightarrow>
      (\<exists>err. snd (verify cr now r (Some gate)) = Inl err)) \<and>
    (\<forall>webNow now r sv sv' gate result. cf_RequirePairedSession (sv_config sv) \<longrightarrow> sv_gate sv = Some gate \<longrightarrow>
      pg_devices gate = Some s2 \<longrightarrow> k \<noteq> ds_DeviceID s2 \<longrightarrow>
      authorizedForUpgrade cr webNow now r sv = (sv', Some result, True) \<longrightarrow> pr_DeviceID result \<noteq> k)"
proof -
  obtain w where w: "AuthorizedDevice_of cr k s2 = Inr w" "av_State w = STATE_REVOKED" using revoked_stays(2) [OF assms] by blast
  show ?thesis
    using revoked_session_refused [of cr _ s2 w] revoked_upgrade_refused [OF w] revoked_connection_refused [OF w] w
    by (intro conjI) blast+
qed

theorem revoked_device_locked_out_witness:
  "\<exists>err. snd (verify sample_device_crypto 1 sample_upgrade (Some ((sample_gate_at 1)\<lparr>pg_devices := Some (sample_store 2)\<rparr>))) = Inl err"
proof -
  obtain w where w: "Revoke sample_device_crypto sample_codec sample_env 0 (replicate 16 5) (sample_store 1) [''/f'' \<mapsto> [7, 1]] =
     (sample_store 2, [''/f'' \<mapsto> [7, 2]], Inr w)"
    using sample_revocation by blast
  have val: "validateState sample_device_crypto (st_state (sample_store 1)) = None"
    using sample_state_valid [of 1] by (simp add: sample_updates)
  show ?thesis
    using revoked_device_locked_out [OF sample_device_codec val w, of "[]", THEN conjunct2, THEN conjunct1, rule_format,
        of _ _ _ "(sample_gate_at 1)\<lparr>pg_devices := Some (sample_store 2)\<rparr>" sample_upgrade 1]
    by (simp add: sample_upgrade_fields)
qed

end
